(* ===== verification/Go_Prelude.thy ===== *)
theory Go_Prelude
  imports Main "HOL-Library.Word" "HOL-Library.AList" "HOL-Library.Sublist"
    "HOL-Library.Monad_Syntax"
begin

text \<open>
  What the components share: Go's strings and byte slices, the run-time panics of slicing and
  indexing, big-endian reads, the Go map as an association list with distinct keys, and the
  audit record every mediator component writes.

  \<^item> A Go string is a \<^typ>\<open>string\<close>, one \<^typ>\<open>char\<close> per byte. The case and white-space functions
    of package strings are modelled on ASCII, which is what host names, header names and the
    configuration keywords of the program are made of.
  \<^item> A byte slice is a \<open>byte list\<close>. Slicing and indexing out of range panics in Go: the
    checked operations return \<^term>\<open>None\<close> there, so \<open>'a go\<close> is "a value, or a panic".
  \<^item> A Go map is an association list with distinct keys; ranging over it visits the entries in
    an unspecified order, which is the order of the list. Code that stops at the first visited
    entry (the evictions) takes the visited position as an argument.
  \<^item> A point in time is an \<^typ>\<open>int\<close>, in nanoseconds; so is a duration.
\<close>

unbundle bit_operations_syntax

section \<open>Types\<close>

type_synonym byte = "8 word"
type_synonym bytes = "byte list"
type_synonym time = int
type_synonym duration = int
type_synonym 'a go = "'a option"

named_theorems go_string_simps
named_theorems go_slice_simps

section \<open>Package strings, on ASCII\<close>

definition is_space :: "char \<Rightarrow> bool" where
  "is_space c \<longleftrightarrow> c \<in> {CHR 0x09, CHR 0x0A, CHR 0x0B, CHR 0x0C, CHR 0x0D, CHR '' ''}"

definition lower_char :: "char \<Rightarrow> char" where
  "lower_char c = (let n = (of_char c :: nat) in if 65 \<le> n \<and> n \<le> 90 then char_of (n + 32) else c)"

definition ToLower :: "string \<Rightarrow> string" where
  "ToLower s = map lower_char s"

definition trim_left :: "(char \<Rightarrow> bool) \<Rightarrow> string \<Rightarrow> string" where
  "trim_left P s = dropWhile P s"

definition trim_right :: "(char \<Rightarrow> bool) \<Rightarrow> string \<Rightarrow> string" where
  "trim_right P s = rev (dropWhile P (rev s))"

definition TrimSpace :: "string \<Rightarrow> string" where
  "TrimSpace s = trim_right is_space (trim_left is_space s)"

definition TrimRight :: "string \<Rightarrow> string \<Rightarrow> string" where
  "TrimRight s cutset = trim_right (\<lambda>c. c \<in> set cutset) s"

definition HasPrefix :: "string \<Rightarrow> string \<Rightarrow> bool" where
  "HasPrefix s p \<longleftrightarrow> prefix p s"

definition HasSuffix :: "string \<Rightarrow> string \<Rightarrow> bool" where
  "HasSuffix s p \<longleftrightarrow> suffix p s"

definition TrimPrefix :: "string \<Rightarrow> string \<Rightarrow> string" where
  "TrimPrefix s p = (if HasPrefix s p then drop (length p) s else s)"

definition TrimSuffix :: "string \<Rightarrow> string \<Rightarrow> string" where
  "TrimSuffix s p = (if HasSuffix s p then take (length s - length p) s else s)"

definition EqualFold :: "string \<Rightarrow> string \<Rightarrow> bool" where
  "EqualFold a b \<longleftrightarrow> ToLower a = ToLower b"

text \<open>\<open>strings.Cut\<close> at a one-byte separator.\<close>

definition Cut :: "string \<Rightarrow> char \<Rightarrow> string \<times> string \<times> bool" where
  "Cut s c =
     (if c \<in> set s
      then (takeWhile (\<lambda>x. x \<noteq> c) s, tl (dropWhile (\<lambda>x. x \<noteq> c) s), True)
      else (s, '''', False))"

text \<open>\<open>strings.IndexByte\<close> and \<open>strings.LastIndexByte\<close>; \<^term>\<open>None\<close> is the Go result -1.\<close>

definition IndexByte :: "string \<Rightarrow> char \<Rightarrow> nat option" where
  "IndexByte s c = (if c \<in> set s then Some (length (takeWhile (\<lambda>x. x \<noteq> c) s)) else None)"

definition LastIndexByte :: "string \<Rightarrow> char \<Rightarrow> nat option" where
  "LastIndexByte s c =
     (if c \<in> set s then Some (length s - 1 - length (takeWhile (\<lambda>x. x \<noteq> c) (rev s))) else None)"

text \<open>\<open>strings.Split\<close> at a one-byte separator and at the two bytes CR LF.\<close>

fun split_at :: "char \<Rightarrow> string \<Rightarrow> string \<Rightarrow> string list" where
  "split_at c acc [] = [rev acc]"
| "split_at c acc (x # xs) = (if x = c then rev acc # split_at c [] xs else split_at c (x # acc) xs)"

definition Split :: "string \<Rightarrow> char \<Rightarrow> string list" where
  "Split s c = split_at c [] s"

fun split_crlf :: "string \<Rightarrow> string \<Rightarrow> string list" where
  "split_crlf acc [] = [rev acc]"
| "split_crlf acc [x] = [rev (x # acc)]"
| "split_crlf acc (x # y # xs) =
     (if x = CHR 0x0D \<and> y = CHR 0x0A then rev acc # split_crlf [] xs
      else split_crlf (x # acc) (y # xs))"

text \<open>\<open>strings.ReplaceAll\<close> with a non-empty pattern.\<close>

function ReplaceAll :: "string \<Rightarrow> string \<Rightarrow> string \<Rightarrow> string" where
  "ReplaceAll s old new =
     (if old = [] \<or> s = [] then s
      else if prefix old s then new @ ReplaceAll (drop (length old) s) old new
      else hd s # ReplaceAll (tl s) old new)"
  by pat_completeness auto
termination
  by (relation "measure (\<lambda>(s, old, new). length s)") auto

declare ReplaceAll.simps [simp del]

lemmas strings_defs = ToLower_def TrimSpace_def TrimRight_def HasPrefix_def HasSuffix_def
  TrimPrefix_def TrimSuffix_def EqualFold_def trim_left_def trim_right_def

lemma lower_char_idem [simp]: "lower_char (lower_char c) = lower_char c"
proof (cases "65 \<le> (of_char c :: nat) \<and> (of_char c :: nat) \<le> 90")
  case True
  then have "(of_char (char_of ((of_char c :: nat) + 32)) :: nat) = of_char c + 32"
    by simp
  with True show ?thesis by (simp add: lower_char_def Let_def)
next
  case False
  then have "lower_char c = c" by (auto simp: lower_char_def Let_def)
  then show ?thesis by simp
qed

lemma ToLower_idem [simp]: "ToLower (ToLower s) = ToLower s"
  by (simp add: ToLower_def)

lemma ToLower_append [go_string_simps]: "ToLower (a @ b) = ToLower a @ ToLower b"
  by (simp add: ToLower_def)

lemma length_ToLower [simp]: "length (ToLower s) = length s"
  by (simp add: ToLower_def)

lemma ToLower_Nil_iff [simp]: "ToLower s = [] \<longleftrightarrow> s = []"
  by (simp add: ToLower_def)

text \<open>Trimming keeps a middle part of the string.\<close>

lemma trim_right_decomp: "\<exists>t. s = trim_right P s @ t \<and> (\<forall>c \<in> set t. P c)"
proof -
  have "rev s = takeWhile P (rev s) @ dropWhile P (rev s)" by simp
  then have "s = rev (dropWhile P (rev s)) @ rev (takeWhile P (rev s))"
    by (metis rev_append rev_rev_ident)
  moreover have "\<forall>c \<in> set (rev (takeWhile P (rev s))). P c"
    using set_takeWhileD by fastforce
  ultimately show ?thesis unfolding trim_right_def by blast
qed

lemma trim_right_last: "trim_right P s \<noteq> [] \<Longrightarrow> \<not> P (last (trim_right P s))"
  by (simp add: trim_right_def last_rev hd_dropWhile)

lemma trim_right_id: "s = [] \<or> \<not> P (last s) \<Longrightarrow> trim_right P s = s"
  by (cases s rule: rev_cases) (auto simp: trim_right_def)

lemma trim_right_all: "(\<forall>c \<in> set s. \<not> P c) \<Longrightarrow> trim_right P s = s"
  by (rule trim_right_id) (cases s rule: rev_cases, auto)

lemma trim_left_all: "(\<forall>c \<in> set s. \<not> P c) \<Longrightarrow> trim_left P s = s"
  by (cases s) (auto simp: trim_left_def)

lemma set_trim_right: "set (trim_right P s) \<subseteq> set s"
  by (auto simp: trim_right_def dest: set_dropWhileD)

lemma set_trim_left: "set (trim_left P s) \<subseteq> set s"
  by (auto simp: trim_left_def dest: set_dropWhileD)

lemma TrimSpace_no_space: "(\<forall>c \<in> set s. \<not> is_space c) \<Longrightarrow> TrimSpace s = s"
  by (simp add: TrimSpace_def trim_left_all trim_right_all)

lemma set_TrimSpace: "set (TrimSpace s) \<subseteq> set s"
  unfolding TrimSpace_def using set_trim_right set_trim_left by blast

section \<open>Slices, indices and big-endian reads that may panic\<close>

text \<open>\<open>s[i]\<close>, \<open>s[i:]\<close>, \<open>s[:j]\<close> and \<open>s[i:j]\<close>.\<close>

definition at :: "'a list \<Rightarrow> nat \<Rightarrow> 'a go" where
  "at s i = (if i < length s then Some (s ! i) else None)"

definition slice_from :: "'a list \<Rightarrow> nat \<Rightarrow> 'a list go" where
  "slice_from s i = (if i \<le> length s then Some (drop i s) else None)"

definition slice_to :: "'a list \<Rightarrow> nat \<Rightarrow> 'a list go" where
  "slice_to s j = (if j \<le> length s then Some (take j s) else None)"

definition slice :: "'a list \<Rightarrow> nat \<Rightarrow> nat \<Rightarrow> 'a list go" where
  "slice s i j = (if i \<le> j \<and> j \<le> length s then Some (drop i (take j s)) else None)"

text \<open>\<open>binary.BigEndian.Uint16\<close> and \<open>Uint32\<close> read the first two or four bytes of the slice.\<close>

definition be_nat :: "bytes \<Rightarrow> nat" where
  "be_nat bs = foldl (\<lambda>n b. n * 256 + unat b) 0 bs"

definition Uint16 :: "bytes \<Rightarrow> nat go" where
  "Uint16 b = (if 2 \<le> length b then Some (be_nat (take 2 b)) else None)"

definition Uint32 :: "bytes \<Rightarrow> nat go" where
  "Uint32 b = (if 4 \<le> length b then Some (be_nat (take 4 b)) else None)"

text \<open>The string of a byte slice and back.\<close>

definition go_string :: "bytes \<Rightarrow> string" where
  "go_string bs = map (\<lambda>b. char_of (unat b)) bs"

definition go_bytes :: "string \<Rightarrow> bytes" where
  "go_bytes s = map of_char s"

lemmas go_slice_defs = at_def slice_from_def slice_to_def slice_def Uint16_def Uint32_def

lemma at_Some [go_slice_simps]: "i < length s \<Longrightarrow> at s i = Some (s ! i)"
  by (simp add: at_def)

lemma slice_from_Some [go_slice_simps]: "i \<le> length s \<Longrightarrow> slice_from s i = Some (drop i s)"
  by (simp add: slice_from_def)

lemma slice_to_Some [go_slice_simps]: "j \<le> length s \<Longrightarrow> slice_to s j = Some (take j s)"
  by (simp add: slice_to_def)

lemma slice_Some [go_slice_simps]:
  "i \<le> j \<Longrightarrow> j \<le> length s \<Longrightarrow> slice s i j = Some (drop i (take j s))"
  by (simp add: slice_def)

lemma Uint16_Some [go_slice_simps]: "2 \<le> length b \<Longrightarrow> Uint16 b = Some (be_nat (take 2 b))"
  by (simp add: Uint16_def)

lemma Uint32_Some [go_slice_simps]: "4 \<le> length b \<Longrightarrow> Uint32 b = Some (be_nat (take 4 b))"
  by (simp add: Uint32_def)

lemma length_go_string [simp]: "length (go_string bs) = length bs"
  by (simp add: go_string_def)

lemma length_go_bytes [simp]: "length (go_bytes s) = length s"
  by (simp add: go_bytes_def)

lemma unat_of_char [simp]: "unat (of_char c :: byte) = of_char c"
proof -
  have "(of_char c :: byte) = of_nat (of_char c)" by (simp add: of_char_def)
  then show ?thesis by (simp add: unat_of_nat take_bit_eq_mod)
qed

lemma go_string_bytes [simp]: "go_string (go_bytes s) = s"
  by (simp add: go_string_def go_bytes_def comp_def)

lemma be_nat_snoc: "be_nat (bs @ [b]) = be_nat bs * 256 + unat b"
  by (simp add: be_nat_def)

lemma be_nat_less: "be_nat bs < 256 ^ length bs"
proof (induction bs rule: rev_induct)
  case Nil
  then show ?case by (simp add: be_nat_def)
next
  case (snoc b bs)
  have "unat b < 256" using unsigned_less [of b] by simp
  with snoc show ?case by (simp add: be_nat_snoc)
qed

text \<open>Big-endian encoders: the specification-side inverse of the reads.\<close>

definition put_be16 :: "nat \<Rightarrow> bytes" where
  "put_be16 n = [of_nat (n div 256), of_nat n]"

definition put_be32 :: "nat \<Rightarrow> bytes" where
  "put_be32 n = [of_nat (n div 16777216), of_nat (n div 65536), of_nat (n div 256), of_nat n]"

lemma length_put_be16 [simp]: "length (put_be16 n) = 2"
  by (simp add: put_be16_def)

lemma length_put_be32 [simp]: "length (put_be32 n) = 4"
  by (simp add: put_be32_def)

lemma unat_of_nat_byte: "unat (of_nat n :: byte) = n mod 256"
  by (simp add: unat_of_nat take_bit_eq_mod)

lemma be_nat_put_be16: "n < 65536 \<Longrightarrow> be_nat (put_be16 n) = n"
  by (simp add: be_nat_def put_be16_def unat_of_nat_byte)

lemma be_nat_put_be32:
  assumes "n < 4294967296"
  shows "be_nat (put_be32 n) = n"
proof -
  let ?a = "n div 256" and ?b = "n div 256 div 256" and ?c = "n div 256 div 256 div 256"
  have d: "n div 65536 = ?b" "n div 16777216 = ?c"
    by (simp_all flip: div_mult2_eq)
  have c: "?c mod 256 = ?c"
    using assms by (simp flip: div_mult2_eq add: less_mult_imp_div_less)
  have "be_nat (put_be32 n) = ((?c mod 256 * 256 + ?b mod 256) * 256 + ?a mod 256) * 256 + n mod 256"
    by (simp add: be_nat_def put_be32_def unat_of_nat_byte d)
  also have "\<dots> = n"
    unfolding c div_mult_mod_eq ..
  finally show ?thesis .
qed

lemma Uint16_put [go_slice_simps]: "n < 65536 \<Longrightarrow> Uint16 (put_be16 n @ r) = Some n"
  by (simp add: Uint16_def be_nat_put_be16)

section \<open>Go maps as association lists with distinct keys\<close>

type_synonym ('k, 'v) gomap = "('k \<times> 'v) list"

definition wf_map :: "('k, 'v) gomap \<Rightarrow> bool" where
  "wf_map m \<longleftrightarrow> distinct (map fst m)"

text \<open>\<open>for k := range m { delete(m, k); break }\<close>: the position visited first is unspecified.\<close>

definition evict_one :: "nat \<Rightarrow> ('k, 'v) gomap \<Rightarrow> ('k, 'v) gomap" where
  "evict_one i m = (if m = [] then m else AList.delete (fst (m ! (i mod length m))) m)"

lemma wf_map_Nil [simp]: "wf_map []"
  by (simp add: wf_map_def)

lemma wf_map_update [simp]: "wf_map m \<Longrightarrow> wf_map (AList.update k v m)"
  by (simp add: wf_map_def distinct_update)

lemma wf_map_delete [simp]: "wf_map m \<Longrightarrow> wf_map (AList.delete k m)"
  by (simp add: wf_map_def distinct_delete)

lemma wf_map_evict [simp]: "wf_map m \<Longrightarrow> wf_map (evict_one i m)"
  by (simp add: evict_one_def)

lemma map_of_update [simp]: "map_of (AList.update k v m) = (map_of m)(k \<mapsto> v)"
  by (rule update_conv')

lemma map_of_delete [simp]: "map_of (AList.delete k m) = (map_of m)(k := None)"
  by (rule delete_conv')

lemma length_alist_update_le: "length (AList.update k v m) \<le> Suc (length m)"
  by (induction m) auto

lemma length_alist_update_mem: "map_of m k \<noteq> None \<Longrightarrow> length (AList.update k v m) = length m"
  by (induction m) auto

lemma length_alist_delete_mem:
  "k \<in> fst ` set m \<Longrightarrow> length (AList.delete k m) < length m"
  unfolding AList.delete_eq by (auto intro: length_filter_less)

lemma length_evict_one: "m \<noteq> [] \<Longrightarrow> length (evict_one i m) < length m"
  by (simp add: evict_one_def length_alist_delete_mem)

lemma map_of_evict_one: "map_of (evict_one i m) k = Some v \<Longrightarrow> map_of m k = Some v"
  by (auto simp: evict_one_def split: if_splits)

section \<open>The audit trail\<close>

text \<open>
  Every component of the mediator writes its decisions through \<open>Logger.Log(event, fields)\<close>.
  The field values the code stores are strings, booleans and integers.
\<close>

datatype audit_value = AStr string | ABool bool | AInt int

record audit_event =
  ev_name :: string
  ev_fields :: "(string \<times> audit_value) list"

abbreviation Log :: "string \<Rightarrow> (string \<times> audit_value) list \<Rightarrow> audit_event" where
  "Log e fs \<equiv> \<lparr>ev_name = e, ev_fields = fs\<rparr>"

definition set_field :: "string \<Rightarrow> audit_value \<Rightarrow> (string \<times> audit_value) list \<Rightarrow> (string \<times> audit_value) list" where
  "set_field k v fs = AList.update k v fs"

lemma map_of_set_field [simp]: "map_of (set_field k v fs) = (map_of fs)(k \<mapsto> v)"
  by (simp add: set_field_def)

end
