(* ===== verification/Netip.thy ===== *)
theory Netip
  imports Go_Prelude
begin

text \<open>
  The part of Go's package \<open>net/netip\<close> the mediator uses: addresses with their zone, address and
  port pairs, the classification predicates, \<open>Unmap\<close>, \<open>String\<close> and \<open>ParseAddr\<close>, and the
  one prefix the program declares (\<open>cgnatPrefix\<close>). On top of it, the mediator's own address
  classifiers \<open>isInsideAddr\<close> and \<open>isEastWestAddr\<close> (internal/egress/mediator.go).
\<close>

datatype addr = AddrZero | V4 "32 word" | V6 "128 word" string

record addr_port =
  ap_addr :: addr
  ap_port :: "16 word"

abbreviation AddrPort :: "addr \<Rightarrow> 16 word \<Rightarrow> addr_port" where
  "AddrPort a p \<equiv> \<lparr>ap_addr = a, ap_port = p\<rparr>"

fun IsValid :: "addr \<Rightarrow> bool" where
  "IsValid AddrZero = False"
| "IsValid (V4 w) = True"
| "IsValid (V6 w z) = True"

text \<open>\<open>netip.AddrPort.IsValid\<close> is the validity of its address.\<close>

definition ap_IsValid :: "addr_port \<Rightarrow> bool" where
  "ap_IsValid ap = IsValid (ap_addr ap)"

fun Is4 :: "addr \<Rightarrow> bool" where
  "Is4 (V4 w) = True"
| "Is4 _ = False"

text \<open>An IPv4-mapped IPv6 address has the prefix \<open>::ffff:0:0/96\<close>.\<close>

fun Is4In6 :: "addr \<Rightarrow> bool" where
  "Is4In6 (V6 w z) = (drop_bit 32 w = 0xffff)"
| "Is4In6 _ = False"

fun Unmap :: "addr \<Rightarrow> addr" where
  "Unmap (V6 w z) = (if drop_bit 32 w = 0xffff then V4 (ucast w) else V6 w z)"
| "Unmap a = a"

fun IsLoopback :: "addr \<Rightarrow> bool" where
  "IsLoopback a = (case Unmap a of
       AddrZero \<Rightarrow> False
     | V4 w \<Rightarrow> drop_bit 24 w = 127
     | V6 w z \<Rightarrow> w = 1)"

fun IsLinkLocalUnicast :: "addr \<Rightarrow> bool" where
  "IsLinkLocalUnicast a = (case Unmap a of
       AddrZero \<Rightarrow> False
     | V4 w \<Rightarrow> drop_bit 16 w = 0xa9fe
     | V6 w z \<Rightarrow> drop_bit 118 w = 0x3fa)"

text \<open>224.0.0.0/24, and any \<open>ffx2::/16\<close>.\<close>

fun IsLinkLocalMulticast :: "addr \<Rightarrow> bool" where
  "IsLinkLocalMulticast a = (case Unmap a of
       AddrZero \<Rightarrow> False
     | V4 w \<Rightarrow> drop_bit 8 w = 0xe00000
     | V6 w z \<Rightarrow> drop_bit 112 w AND 0xff0f = 0xff02)"

text \<open>RFC 1918 and the unique local addresses \<open>fc00::/7\<close>.\<close>

fun IsPrivate :: "addr \<Rightarrow> bool" where
  "IsPrivate a = (case Unmap a of
       AddrZero \<Rightarrow> False
     | V4 w \<Rightarrow> drop_bit 24 w = 10 \<or> drop_bit 20 w = 0xac1 \<or> drop_bit 16 w = 0xc0a8
     | V6 w z \<Rightarrow> drop_bit 121 w = 0x7e)"

fun IsUnspecified :: "addr \<Rightarrow> bool" where
  "IsUnspecified AddrZero = False"
| "IsUnspecified (V4 w) = (w = 0)"
| "IsUnspecified (V6 w z) = (w = 0 \<and> z = '''')"

section \<open>Text forms\<close>

fun dec :: "nat \<Rightarrow> string" where
  "dec n = (if n < 10 then [char_of (48 + n)] else dec (n div 10) @ [char_of (48 + n mod 10)])"

declare dec.simps [simp del]

definition hex_digit :: "nat \<Rightarrow> char" where
  "hex_digit d = (if d < 10 then char_of (48 + d) else char_of (87 + d))"

fun hex :: "nat \<Rightarrow> string" where
  "hex n = (if n < 16 then [hex_digit n] else hex (n div 16) @ [hex_digit (n mod 16)])"

declare hex.simps [simp del]

definition octets :: "32 word \<Rightarrow> nat list" where
  "octets w = (let n = unat w in [n div 16777216, n div 65536 mod 256, n div 256 mod 256, n mod 256])"

definition groups :: "128 word \<Rightarrow> nat list" where
  "groups w = map (\<lambda>i. unat w div 2 ^ (16 * (7 - i)) mod 65536) [0..<8]"

definition string4 :: "32 word \<Rightarrow> string" where
  "string4 w = (case map dec (octets w) of
       [a, b, c, d] \<Rightarrow> a @ ''.'' @ b @ ''.'' @ c @ ''.'' @ d
     | _ \<Rightarrow> '''')"

text \<open>The longest run of two or more zero groups, the leftmost one where several are equal.\<close>

definition zero_run :: "nat list \<Rightarrow> nat \<Rightarrow> nat" where
  "zero_run gs i = length (takeWhile (\<lambda>g. g = 0) (drop i gs))"

definition zero_span :: "nat list \<Rightarrow> (nat \<times> nat) option" where
  "zero_span gs =
     fold (\<lambda>i best. let l = zero_run gs i in
            if 2 \<le> l \<and> (case best of None \<Rightarrow> True | Some (s, e) \<Rightarrow> e - s < l)
            then Some (i, i + l) else best) [0..<length gs] None"

fun join_colon :: "string list \<Rightarrow> string" where
  "join_colon [] = ''''"
| "join_colon [x] = x"
| "join_colon (x # y # xs) = x @ '':'' @ join_colon (y # xs)"

definition string6 :: "128 word \<Rightarrow> string" where
  "string6 w = (let gs = groups w in
     case zero_span gs of
       None \<Rightarrow> join_colon (map hex gs)
     | Some (s, e) \<Rightarrow> join_colon (map hex (take s gs)) @ ''::'' @ join_colon (map hex (drop e gs)))"

fun addr_String :: "addr \<Rightarrow> string" where
  "addr_String AddrZero = ''invalid IP''"
| "addr_String (V4 w) = string4 w"
| "addr_String (V6 w z) =
     (if drop_bit 32 w = 0xffff then ''::ffff:'' @ string4 (ucast w) else string6 w) @
     (if z = '''' then '''' else ''%'' @ z)"

fun ap_String :: "addr_port \<Rightarrow> string" where
  "ap_String ap = (case ap_addr ap of
       AddrZero \<Rightarrow> ''invalid AddrPort''
     | V4 w \<Rightarrow> string4 w @ '':'' @ dec (unat (ap_port ap))
     | V6 w z \<Rightarrow> ''['' @ addr_String (V6 w z) @ '']:'' @ dec (unat (ap_port ap)))"

declare ap_String.simps [simp del]

section \<open>netip.ParseAddr\<close>

definition digit_val :: "char \<Rightarrow> nat option" where
  "digit_val c = (let n = (of_char c :: nat) in if 48 \<le> n \<and> n \<le> 57 then Some (n - 48) else None)"

definition hex_val :: "char \<Rightarrow> nat option" where
  "hex_val c = (let n = (of_char c :: nat) in
     if 48 \<le> n \<and> n \<le> 57 then Some (n - 48)
     else if 97 \<le> n \<and> n \<le> 102 then Some (n - 87)
     else if 65 \<le> n \<and> n \<le> 70 then Some (n - 55) else None)"

definition dec_field :: "string \<Rightarrow> nat option" where
  "dec_field s =
     (if s = [] \<or> (1 < length s \<and> hd s = CHR ''0'') \<or> (\<exists>c \<in> set s. digit_val c = None) then None
      else let n = foldl (\<lambda>n c. n * 10 + the (digit_val c)) 0 s in
        if n \<le> 255 then Some n else None)"

definition parse_octets :: "string \<Rightarrow> nat list option" where
  "parse_octets s = (case map dec_field (Split s CHR ''.'') of
       [Some a, Some b, Some c, Some d] \<Rightarrow> Some [a, b, c, d]
     | _ \<Rightarrow> None)"

definition parseIPv4 :: "string \<Rightarrow> addr option" where
  "parseIPv4 s = (case parse_octets s of
       Some [a, b, c, d] \<Rightarrow> Some (V4 (of_nat (((a * 256 + b) * 256 + c) * 256 + d)))
     | _ \<Rightarrow> None)"

text \<open>
  The loop of \<open>parseIPv6\<close>, on 16-bit groups: the groups read so far (newest first), the group
  index of the ellipsis, the rest of the text. Each round reads at most eight groups, so the
  number of rounds left is the first argument.
\<close>

fun parse6_loop :: "nat \<Rightarrow> nat list \<Rightarrow> nat option \<Rightarrow> string \<Rightarrow> (nat list \<times> nat option \<times> string) option" where
  "parse6_loop 0 gs ell s = Some (gs, ell, s)"
| "parse6_loop (Suc k) gs ell s =
     (let h = takeWhile (\<lambda>c. hex_val c \<noteq> None) s; off = length h; r = drop off s;
          acc = foldl (\<lambda>n c. n * 16 + the (hex_val c)) 0 h in
      if off = 0 \<or> 4 < off then None
      else if r \<noteq> [] \<and> hd r = CHR ''.'' then
        (if ell = None \<and> length gs \<noteq> 6 then None
         else if 8 < length gs + 2 then None
         else case parse_octets s of
             Some [a, b, c, d] \<Rightarrow> Some ((c * 256 + d) # (a * 256 + b) # gs, ell, '''')
           | _ \<Rightarrow> None)
      else let gs' = acc # gs in
        if r = [] then Some (gs', ell, '''')
        else if hd r \<noteq> CHR '':'' \<or> length r = 1 then None
        else let s' = tl r in
          if hd s' = CHR '':'' then
            (if ell \<noteq> None then None
             else if tl s' = [] then Some (gs', Some (length gs'), '''')
             else parse6_loop k gs' (Some (length gs')) (tl s'))
          else parse6_loop k gs' ell s')"

definition groups_word :: "nat list \<Rightarrow> 128 word" where
  "groups_word gs = of_nat (foldl (\<lambda>n g. n * 65536 + g) 0 gs)"

definition parseIPv6 :: "string \<Rightarrow> addr option" where
  "parseIPv6 t = (let (s0, zone, has_zone) = Cut t CHR ''%'' in
     if has_zone \<and> zone = '''' then None
     else let lead = HasPrefix s0 ''::''; s = (if lead then drop 2 s0 else s0) in
       if lead \<and> s = '''' then Some (V6 0 zone)
       else case parse6_loop 8 [] (if lead then Some 0 else None) s of
           None \<Rightarrow> None
         | Some (gs, ell, rest) \<Rightarrow>
             if rest \<noteq> '''' then None
             else if length gs < 8 then
               (case ell of None \<Rightarrow> None
                | Some e \<Rightarrow> Some (V6 (groups_word (take e (rev gs) @ replicate (8 - length gs) 0
                                       @ drop e (rev gs))) zone))
             else if ell \<noteq> None then None
             else Some (V6 (groups_word (rev gs)) zone))"

definition ParseAddr :: "string \<Rightarrow> addr option" where
  "ParseAddr s = (case dropWhile (\<lambda>c. c \<noteq> CHR ''.'' \<and> c \<noteq> CHR '':'' \<and> c \<noteq> CHR ''%'') s of
       [] \<Rightarrow> None
     | c # _ \<Rightarrow> if c = CHR ''.'' then parseIPv4 s else if c = CHR '':'' then parseIPv6 s else None)"

section \<open>The mediator's address classifiers\<close>

definition cgnatPrefix_Contains :: "addr \<Rightarrow> bool" where
  "cgnatPrefix_Contains a = (case a of V4 w \<Rightarrow> drop_bit 22 w = drop_bit 22 (0x64400000 :: 32 word) | _ \<Rightarrow> False)"

definition isInsideAddr :: "addr \<Rightarrow> bool" where
  "isInsideAddr a0 = (let a = Unmap a0 in
     IsLoopback a \<or>
     IsLinkLocalUnicast a \<or> IsLinkLocalMulticast a \<or>
     IsPrivate a \<or>
     IsUnspecified a \<or>
     cgnatPrefix_Contains a)"

definition IsInside :: "addr \<Rightarrow> bool" where
  "IsInside a = isInsideAddr a"

definition isEastWestAddr :: "addr \<Rightarrow> bool" where
  "isEastWestAddr a \<longleftrightarrow> IsPrivate a \<or> IsLinkLocalUnicast a \<or> IsLoopback a"

section \<open>What the classifiers accept\<close>

text \<open>The IPv4 blocks of \<open>isInsideAddr\<close>, as inclusive ranges of addresses.\<close>

definition inside_ranges4 :: "(nat \<times> nat) list" where
  "inside_ranges4 =
     [(0x00000000, 0x00000000), (0x0a000000, 0x0affffff), (0x64400000, 0x647fffff),
      (0x7f000000, 0x7fffffff), (0xa9fe0000, 0xa9feffff), (0xac100000, 0xac1fffff),
      (0xc0a80000, 0xc0a8ffff), (0xe0000000, 0xe00000ff)]"

definition in_ranges :: "(nat \<times> nat) list \<Rightarrow> nat \<Rightarrow> bool" where
  "in_ranges rs n \<longleftrightarrow> list_ex (\<lambda>(lo, hi). lo \<le> n \<and> n \<le> hi) rs"

text \<open>The IPv4-mapped form \<open>::ffff:a.b.c.d\<close> of an IPv4 address.\<close>

definition mapped :: "32 word \<Rightarrow> string \<Rightarrow> addr" where
  "mapped w z = V6 (push_bit 32 0xffff OR ucast w) z"

lemma drop_bit_eq_iff_div: "drop_bit n w = c \<longleftrightarrow> unat w div 2 ^ n = unat c" for w c :: "'a::len word"
  by (metis unat_drop_bit_eq drop_bit_eq_div word_unat_eq_iff)

lemma div_eq_iff_range: "0 < d \<Longrightarrow> n div d = c \<longleftrightarrow> c * d \<le> n \<and> n < Suc c * d" for n d c :: nat
  by (metis div_nat_eqI dividend_less_times_div mult.commute mult_Suc_right times_div_less_eq_dividend)

lemma isInsideAddr_Unmap: "isInsideAddr (Unmap a) = isInsideAddr a"
  by (cases a) (auto simp: isInsideAddr_def Let_def)

lemma ucast_push_or: "ucast (push_bit 32 x OR ucast w :: 128 word) = w" for w :: "32 word"
  by (rule bit_word_eqI) (auto simp: bit_simps)

lemma drop_push_or: "drop_bit 32 (push_bit 32 x OR ucast w :: 128 word) = take_bit 96 x"
  for w :: "32 word"
  by (rule bit_word_eqI) (auto simp: bit_simps dest: bit_imp_le_length)

lemma Unmap_mapped: "Unmap (mapped w z) = V4 w"
  by (simp only: mapped_def Unmap.simps ucast_push_or drop_push_or) simp

lemma drop_bit_range:
  "drop_bit n w = c \<longleftrightarrow> unat c * 2 ^ n \<le> unat w \<and> unat w < Suc (unat c) * 2 ^ n"
  for w c :: "'a::len word"
  by (simp add: drop_bit_eq_iff_div div_eq_iff_range)

lemma inside_block4:
  fixes w :: "32 word"
  shows "drop_bit 24 w = 127 \<longleftrightarrow> 0x7f000000 \<le> unat w \<and> unat w \<le> 0x7fffffff"
    and "drop_bit 16 w = 0xa9fe \<longleftrightarrow> 0xa9fe0000 \<le> unat w \<and> unat w \<le> 0xa9feffff"
    and "drop_bit 8 w = 0xe00000 \<longleftrightarrow> 0xe0000000 \<le> unat w \<and> unat w \<le> 0xe00000ff"
    and "drop_bit 24 w = 10 \<longleftrightarrow> 0x0a000000 \<le> unat w \<and> unat w \<le> 0x0affffff"
    and "drop_bit 20 w = 0xac1 \<longleftrightarrow> 0xac100000 \<le> unat w \<and> unat w \<le> 0xac1fffff"
    and "drop_bit 16 w = 0xc0a8 \<longleftrightarrow> 0xc0a80000 \<le> unat w \<and> unat w \<le> 0xc0a8ffff"
    and "drop_bit 22 w = 401 \<longleftrightarrow> 0x64400000 \<le> unat w \<and> unat w \<le> 0x647fffff"
    and "w = 0 \<longleftrightarrow> unat w \<le> 0"
  unfolding drop_bit_range by (simp_all add: unat_eq_0 less_Suc_eq_le [symmetric])

lemma isInsideAddr_V4: "isInsideAddr (V4 w) \<longleftrightarrow> in_ranges inside_ranges4 (unat w)"
proof -
  have c: "drop_bit 22 (0x64400000 :: 32 word) = 401" by simp
  show ?thesis
    unfolding isInsideAddr_def cgnatPrefix_Contains_def Let_def Unmap.simps IsLoopback.simps
      IsLinkLocalUnicast.simps IsLinkLocalMulticast.simps IsPrivate.simps IsUnspecified.simps
      addr.case c inside_block4 inside_ranges4_def in_ranges_def
    by (simp only: list_ex_Nil_iff list_ex_Cons_iff prod.case le0 simp_thms disj_ac)
qed

lemma parseIPv4_valid: "parseIPv4 s = Some a \<Longrightarrow> IsValid a"
  unfolding parseIPv4_def by (cases "parse_octets s") (auto split: list.splits)

lemma parseIPv6_valid: "parseIPv6 s = Some a \<Longrightarrow> IsValid a"
  unfolding parseIPv6_def Let_def by (auto split: prod.splits if_splits option.splits)

lemma ParseAddr_valid: "ParseAddr s = Some a \<Longrightarrow> IsValid a"
  unfolding ParseAddr_def by (auto split: list.splits if_splits dest: parseIPv4_valid parseIPv6_valid)

end
