(* ===== verification/Policy.thy ===== *)
theory Policy
  imports Netip
begin

text \<open>
  The destination allowlist (internal/egress/policy.go), the policy file that feeds it
  (policyfile.go) and the roster of named-network peers (peers.go).

  The two sets of a \<open>Policy\<close> are Go maps with empty values; the list order is the order in which
  \<open>AllowHost\<close> ranges over the suffix set, so the reason string it returns depends on the order
  and the verdict, as \<open>AllowHost_iff\<close> shows, does not.
\<close>

section \<open>policy.go\<close>

record decision =
  Allow :: bool
  Reason :: string

record policy =
  exact :: "string list"
  suffixes :: "string list"

datatype policy_error = EmptyAllowlistEntry string

definition normalizeHost :: "string \<Rightarrow> string" where
  "normalizeHost h = TrimRight (ToLower (TrimSpace h)) ''.''"

fun add_entries :: "policy \<Rightarrow> string list \<Rightarrow> policy_error + policy" where
  "add_entries p [] = Inr p"
| "add_entries p (raw # rest) =
     (let h = normalizeHost raw in
      if h = '''' then Inl (EmptyAllowlistEntry raw)
      else if HasPrefix h ''.'' then add_entries (p\<lparr>suffixes := List.insert h (suffixes p)\<rparr>) rest
      else add_entries (p\<lparr>exact := List.insert h (exact p)\<rparr>) rest)"

definition NewPolicy :: "string list \<Rightarrow> policy_error + policy" where
  "NewPolicy allow = add_entries \<lparr>exact = [], suffixes = []\<rparr> allow"

definition suffix_hit :: "string \<Rightarrow> string \<Rightarrow> bool" where
  "suffix_hit host s \<longleftrightarrow> host = tl s \<or> HasSuffix host s"

definition AllowHost :: "policy \<Rightarrow> string \<Rightarrow> decision" where
  "AllowHost p host0 = (let host = normalizeHost host0 in
     if host = '''' then \<lparr>Allow = False, Reason = ''empty host''\<rparr>
     else if host \<in> set (exact p) then \<lparr>Allow = True, Reason = ''allowlisted''\<rparr>
     else case find (suffix_hit host) (suffixes p) of
         Some s \<Rightarrow> \<lparr>Allow = True, Reason = ''allowlisted suffix '' @ s\<rparr>
       | None \<Rightarrow> \<lparr>Allow = False, Reason = ''not allowlisted''\<rparr>)"

section \<open>policyfile.go\<close>

record policy_file =
  pf_Allow :: "string list"
  pf_Passthrough :: "string list"

datatype policy_file_error =
    PathRequired
  | ResolveError string
  | ReadError string
  | ParseError string
  | UnsupportedExtension string string
  | EmptyEntry string nat

fun validate_from :: "string \<Rightarrow> nat \<Rightarrow> string list \<Rightarrow> policy_file_error option" where
  "validate_from field i [] = None"
| "validate_from field i (e # es) =
     (if TrimSpace e = '''' then Some (EmptyEntry field i) else validate_from field (Suc i) es)"

definition validatePolicyEntries :: "string \<Rightarrow> string list \<Rightarrow> policy_file_error option" where
  "validatePolicyEntries field entries = validate_from field 0 entries"

text \<open>\<open>filepath.Ext\<close>: from the last dot of the last path element, or empty.\<close>

definition filepath_Ext :: "string \<Rightarrow> string" where
  "filepath_Ext path = (let base = rev (takeWhile (\<lambda>c. c \<noteq> CHR ''/'') (rev path)) in
     case LastIndexByte base CHR ''.'' of None \<Rightarrow> '''' | Some i \<Rightarrow> drop i base)"

text \<open>
  The file system (\<open>filepath.Abs\<close>, \<open>os.ReadFile\<close>) and the two strict decoders (package
  gopkg.in/yaml.v3 with \<open>KnownFields\<close>, encoding/json with \<open>DisallowUnknownFields\<close>) are arguments.
\<close>

definition LoadPolicyFile ::
  "(string \<Rightarrow> string option) \<Rightarrow> (string \<Rightarrow> bytes option) \<Rightarrow> (bytes \<Rightarrow> policy_file option) \<Rightarrow>
   (bytes \<Rightarrow> policy_file option) \<Rightarrow> string \<Rightarrow> policy_file_error + policy_file" where
  "LoadPolicyFile abs_path read_file yaml_decode json_decode path =
     (let rawPath = TrimSpace path in
      if rawPath = '''' then Inl PathRequired
      else case abs_path rawPath of None \<Rightarrow> Inl (ResolveError rawPath) | Some absPath \<Rightarrow>
        (case read_file absPath of None \<Rightarrow> Inl (ReadError absPath) | Some data \<Rightarrow>
          (let ext = ToLower (filepath_Ext absPath);
               decoded = (if ext = ''.yaml'' \<or> ext = ''.yml'' then
                            (case yaml_decode data of None \<Rightarrow> Inl (ParseError absPath) | Some pf \<Rightarrow> Inr pf)
                          else if ext = ''.json'' then
                            (case json_decode data of None \<Rightarrow> Inl (ParseError absPath) | Some pf \<Rightarrow> Inr pf)
                          else Inl (UnsupportedExtension absPath ext)) in
           case decoded of Inl e \<Rightarrow> Inl e | Inr pf \<Rightarrow>
             (case validatePolicyEntries ''allow'' (pf_Allow pf) of Some e \<Rightarrow> Inl e | None \<Rightarrow>
               (case validatePolicyEntries ''passthrough'' (pf_Passthrough pf) of Some e \<Rightarrow> Inl e
                | None \<Rightarrow> Inr pf)))))"

fun dedupe_loop :: "string list \<Rightarrow> string list \<Rightarrow> string list" where
  "dedupe_loop seen [] = []"
| "dedupe_loop seen (h # hs) =
     (let key = normalizeHost h in
      if key = '''' then dedupe_loop seen hs
      else if key \<in> set seen then dedupe_loop seen hs
      else h # dedupe_loop (key # seen) hs)"

definition DedupeHosts :: "string list \<Rightarrow> string list" where
  "DedupeHosts hosts = dedupe_loop [] hosts"

section \<open>peers.go\<close>

type_synonym peer_cache = "(addr, string) gomap"

datatype peer_error = PeerMissingEquals string | PeerEmptyName string | PeerInvalidIP string

fun add_peers :: "peer_cache \<Rightarrow> string list \<Rightarrow> peer_error + peer_cache" where
  "add_peers pc [] = Inr pc"
| "add_peers pc (raw # rest) =
     (case Cut raw CHR ''='' of (name0, ipStr, ok) \<Rightarrow>
       if \<not> ok then Inl (PeerMissingEquals raw)
       else let name = TrimSpace name0 in
         if name = '''' then Inl (PeerEmptyName raw)
         else case ParseAddr (TrimSpace ipStr) of
             None \<Rightarrow> Inl (PeerInvalidIP raw)
           | Some a \<Rightarrow> add_peers (AList.update a name pc) rest)"

definition NewPeerCache :: "string list \<Rightarrow> peer_error + peer_cache" where
  "NewPeerCache pairs = add_peers [] pairs"

definition NameByIP :: "peer_cache \<Rightarrow> addr \<Rightarrow> string option" where
  "NameByIP c a = map_of c a"

section \<open>The allowlist as a specification\<close>

text \<open>
  One normalised entry against one normalised host: an entry with a leading dot names its apex
  and every subdomain, any other entry names exactly itself.
\<close>

definition entry_matches :: "string \<Rightarrow> string \<Rightarrow> bool" where
  "entry_matches e h \<longleftrightarrow> (if HasPrefix e ''.'' then suffix_hit h e else h = e)"

definition host_listed :: "string list \<Rightarrow> string \<Rightarrow> bool" where
  "host_listed entries host \<longleftrightarrow>
     normalizeHost host \<noteq> '''' \<and>
     list_ex (\<lambda>e. entry_matches (normalizeHost e) (normalizeHost host)) entries"

definition wf_policy :: "policy \<Rightarrow> bool" where
  "wf_policy p \<longleftrightarrow> distinct (exact p) \<and> distinct (suffixes p)
     \<and> list_all (\<lambda>e. e \<noteq> '''' \<and> \<not> HasPrefix e ''.'') (exact p)
     \<and> list_all (\<lambda>s. HasPrefix s ''.'' \<and> tl s \<noteq> '''') (suffixes p)"

subsection \<open>Normalisation\<close>

lemma normalizeHost_no_trailing_dot:
  "normalizeHost h \<noteq> '''' \<Longrightarrow> last (normalizeHost h) \<noteq> CHR ''.''"
  using trim_right_last [of "\<lambda>c. c \<in> set ''.''" "ToLower (TrimSpace h)"]
  by (simp add: normalizeHost_def TrimRight_def)

lemma is_space_lower_char [simp]: "is_space (lower_char c) = is_space c"
proof (cases "65 \<le> (of_char c :: nat) \<and> (of_char c :: nat) \<le> 90")
  case True
  have "\<not> is_space c"
    using True by (auto simp: is_space_def)
  moreover have "\<not> is_space (lower_char c)"
  proof
    assume "is_space (lower_char c)"
    then have "(of_char (lower_char c) :: nat) \<le> 32"
      by (auto simp: is_space_def)
    with True show False by (simp add: lower_char_def Let_def)
  qed
  ultimately show ?thesis by simp
next
  case False
  then have "lower_char c = c" by (auto simp: lower_char_def Let_def)
  then show ?thesis by simp
qed

text \<open>
  On names without white space (every name a DNS answer, an SNI or a Host header of a
  well-formed request carries) normalising twice changes nothing.
\<close>

lemma normalizeHost_idem:
  assumes "\<forall>c \<in> set h. \<not> is_space c"
  shows "normalizeHost (normalizeHost h) = normalizeHost h"
proof -
  let ?P = "\<lambda>c. c \<in> set ''.''"
  let ?n = "trim_right ?P (ToLower h)"
  have n: "normalizeHost h = ?n"
    using assms by (simp add: normalizeHost_def TrimSpace_no_space TrimRight_def)
  have "set ?n \<subseteq> set (ToLower h)" by (rule set_trim_right)
  then have sp: "\<forall>c \<in> set ?n. \<not> is_space c" and lw: "ToLower ?n = ?n"
    using assms by (auto simp: ToLower_def subset_iff intro!: map_idI)
  have "trim_right ?P ?n = ?n"
    using trim_right_last [of ?P "ToLower h"] by (intro trim_right_id) blast
  then show ?thesis
    unfolding n unfolding normalizeHost_def TrimSpace_no_space [OF sp] lw TrimRight_def .
qed

lemma dot_prefix_tl_nonempty:
  assumes "HasPrefix (normalizeHost h) ''.''"
  shows "tl (normalizeHost h) \<noteq> ''''"
proof
  assume "tl (normalizeHost h) = ''''"
  with assms have "normalizeHost h = ''.''"
    by (cases "normalizeHost h") (auto simp: HasPrefix_def)
  then show False using normalizeHost_no_trailing_dot [of h] by simp
qed

subsection \<open>NewPolicy and AllowHost implement the specification\<close>

lemma wf_policy_add:
  assumes "wf_policy p" "normalizeHost raw \<noteq> ''''"
  shows "HasPrefix (normalizeHost raw) ''.'' \<Longrightarrow>
           wf_policy (p\<lparr>suffixes := List.insert (normalizeHost raw) (suffixes p)\<rparr>)"
    and "\<not> HasPrefix (normalizeHost raw) ''.'' \<Longrightarrow>
           wf_policy (p\<lparr>exact := List.insert (normalizeHost raw) (exact p)\<rparr>)"
  using assms dot_prefix_tl_nonempty [of raw]
  by (simp_all add: wf_policy_def list_all_iff)

lemma add_entries_wf: "add_entries p es = Inr q \<Longrightarrow> wf_policy p \<Longrightarrow> wf_policy q"
proof (induction p es rule: add_entries.induct)
  case (2 p raw rest)
  then show ?case
    by (cases "HasPrefix (normalizeHost raw) ''.''")
      (simp_all add: Let_def wf_policy_add split: if_splits)
qed simp

lemma NewPolicy_wf: "NewPolicy es = Inr p \<Longrightarrow> wf_policy p"
  unfolding NewPolicy_def by (erule add_entries_wf) (simp add: wf_policy_def)

lemma add_entries_error:
  "(\<exists>e. add_entries p es = Inl e) \<longleftrightarrow> (\<exists>e \<in> set es. normalizeHost e = '''')"
  by (induction p es rule: add_entries.induct) (auto simp: Let_def)

definition policy_hit :: "policy \<Rightarrow> string \<Rightarrow> bool" where
  "policy_hit p host \<longleftrightarrow> host \<in> set (exact p) \<or> (\<exists>s \<in> set (suffixes p). suffix_hit host s)"

lemma AllowHost_policy_hit:
  "Allow (AllowHost p h) \<longleftrightarrow> normalizeHost h \<noteq> '''' \<and> policy_hit p (normalizeHost h)"
  by (auto simp: AllowHost_def Let_def policy_hit_def find_None_iff find_Some_iff
      split: option.splits)

lemma add_entries_hit:
  "add_entries p es = Inr q \<Longrightarrow>
   policy_hit q h \<longleftrightarrow> policy_hit p h \<or> (\<exists>e \<in> set es. entry_matches (normalizeHost e) h)"
proof (induction p es rule: add_entries.induct)
  case (2 p raw rest)
  then show ?case
    by (auto simp: Let_def policy_hit_def entry_matches_def split: if_splits)
qed simp

lemma AllowHost_iff:
  assumes "NewPolicy es = Inr p"
  shows "Allow (AllowHost p h) \<longleftrightarrow> host_listed es h"
  using add_entries_hit [OF assms [unfolded NewPolicy_def], of "normalizeHost h"]
  by (simp add: AllowHost_policy_hit host_listed_def list_ex_iff policy_hit_def)

text \<open>A suffix entry never crosses a label boundary.\<close>

lemma suffix_hit_label:
  "suffix_hit h (CHR ''.'' # x) \<longleftrightarrow> h = x \<or> (\<exists>l. h = l @ ''.'' @ x)"
  by (auto simp: suffix_hit_def HasSuffix_def suffix_def)

lemma AllowHost_order_independent:
  assumes "set (exact p) = set (exact q)" "set (suffixes p) = set (suffixes q)"
  shows "Allow (AllowHost p h) = Allow (AllowHost q h)"
  using assms by (simp add: AllowHost_policy_hit policy_hit_def)

subsection \<open>Host indices\<close>

text \<open>
  What a component that indexes destinations by host name promises: a host is indexed exactly when
  one of the normalised entries matches it. The allowlist and the credential-swap table both
  do, so the facts about letter case, growth and label boundaries are proved once.
\<close>

locale host_index =
  fixes indexed :: "'t \<Rightarrow> string \<Rightarrow> bool"
    and index_entries :: "'t \<Rightarrow> string set"
    and ok :: "'t \<Rightarrow> bool"
  assumes indexed_iff: "ok t \<Longrightarrow> indexed t h \<longleftrightarrow>
      normalizeHost h \<noteq> '''' \<and> (\<exists>e \<in> index_entries t. entry_matches e (normalizeHost h))"
begin

lemma indexed_fold: "ok t \<Longrightarrow> normalizeHost h = normalizeHost h' \<Longrightarrow> indexed t h = indexed t h'"
  by (simp add: indexed_iff)

lemma indexed_mono: "ok t \<Longrightarrow> ok u \<Longrightarrow> index_entries t \<subseteq> index_entries u \<Longrightarrow> indexed t h \<Longrightarrow> indexed u h"
  by (auto simp: indexed_iff)

text \<open>An indexed host either is an entry, or ends with one at a label boundary.\<close>

lemma indexed_label:
  assumes "ok t" "indexed t h"
  shows "normalizeHost h \<in> index_entries t \<or>
    (\<exists>x l. CHR ''.'' # x \<in> index_entries t \<and> (normalizeHost h = x \<or> normalizeHost h = l @ ''.'' @ x))"
proof -
  from assms obtain e where e: "e \<in> index_entries t" "entry_matches e (normalizeHost h)"
    by (auto simp: indexed_iff)
  show ?thesis
  proof (cases e)
    case (Cons c x)
    with e suffix_hit_label [of "normalizeHost h" x] show ?thesis
      by (cases "c = CHR ''.''") (auto simp: entry_matches_def HasPrefix_def)
  qed (use e in \<open>auto simp: entry_matches_def HasPrefix_def\<close>)
qed

lemma indexed_empty: "ok t \<Longrightarrow> index_entries t = {} \<Longrightarrow> \<not> indexed t h"
  by (simp add: indexed_iff)

end

interpretation allowlist: host_index "\<lambda>p h. Allow (AllowHost p h)"
  "\<lambda>p. set (exact p) \<union> set (suffixes p)" wf_policy
  by unfold_locales
    (auto simp: AllowHost_policy_hit policy_hit_def entry_matches_def wf_policy_def list_all_iff)

subsection \<open>Removing duplicates\<close>

lemma dedupe_loop_keys:
  "normalizeHost ` set (dedupe_loop seen hs) =
     normalizeHost ` set hs - set seen - {''''}"
  by (induction seen hs rule: dedupe_loop.induct) (auto simp: Let_def)

lemma dedupe_loop_distinct:
  "distinct (map normalizeHost (dedupe_loop seen hs)) \<and>
   set (map normalizeHost (dedupe_loop seen hs)) \<inter> set seen = {}"
  by (induction seen hs rule: dedupe_loop.induct) (auto simp: Let_def)

lemma dedupe_loop_subseq: "subseq (dedupe_loop seen hs) hs"
  by (induction hs arbitrary: seen) (simp_all add: Let_def list_emb_Cons)

lemma not_entry_matches_Nil: "h \<noteq> '''' \<Longrightarrow> \<not> entry_matches '''' h"
  by (simp add: entry_matches_def HasPrefix_def)

lemma host_listed_keys:
  "host_listed es h \<longleftrightarrow> normalizeHost h \<noteq> '''' \<and>
     (\<exists>k \<in> normalizeHost ` set es - {''''}. entry_matches k (normalizeHost h))"
  using not_entry_matches_Nil by (auto simp: host_listed_def list_ex_iff)

lemma host_listed_DedupeHosts: "host_listed (DedupeHosts hs) h = host_listed hs h"
  unfolding host_listed_keys DedupeHosts_def dedupe_loop_keys by simp

subsection \<open>The peer roster\<close>

lemma add_peers_wf: "add_peers pc ps = Inr qc \<Longrightarrow> wf_map pc \<Longrightarrow> wf_map qc"
  by (induction pc ps rule: add_peers.induct)
    (auto simp: Let_def split: prod.splits if_splits option.splits)

lemma add_peers_names:
  "add_peers pc ps = Inr qc \<Longrightarrow> (\<forall>a n. map_of pc a = Some n \<longrightarrow> n \<noteq> '''' \<and> IsValid a) \<Longrightarrow>
   map_of qc a = Some n \<Longrightarrow> n \<noteq> '''' \<and> IsValid a"
proof (induction pc ps arbitrary: a n rule: add_peers.induct)
  case (2 pc raw rest)
  obtain name0 ipStr ok where c: "Cut raw CHR ''='' = (name0, ipStr, ok)"
    by (cases "Cut raw CHR ''=''") auto
  with "2.prems" obtain b where ok: "ok" "TrimSpace name0 \<noteq> ''''"
    "ParseAddr (TrimSpace ipStr) = Some b"
    "add_peers (AList.update b (TrimSpace name0) pc) rest = Inr qc"
    by (auto simp: Let_def split: if_splits option.splits)
  have v: "IsValid b"
    using ok(3) by (rule ParseAddr_valid)
  show ?case
    by (rule "2.IH" [of name0 "(ipStr, ok)" ipStr ok "TrimSpace name0" b a n])
      (use c ok v "2.prems" in \<open>auto split: if_splits\<close>)
qed simp

lemma NewPeerCache_names:
  "NewPeerCache ps = Inr pc \<Longrightarrow> NameByIP pc a = Some n \<Longrightarrow> n \<noteq> '''' \<and> IsValid a"
  unfolding NewPeerCache_def NameByIP_def by (erule add_peers_names) auto

end
