(* ===== verification/Caches.thy ===== *)
theory Caches
  imports Policy
begin

text \<open>
  The two expiring caches of the mediator: \<open>NameCache\<close> (internal/egress/namecache.go), which
  remembers which host name a DNS answer bound to which address, and \<open>tokenCache\<close>
  (tokencache.go), which remembers acquired credentials. Both hold their lock for the whole of an
  operation, so an operation is one function on the state; the clock reading and the position a
  map iteration visits first are arguments.

  The contract the two share is the locale \<open>expiring_cache\<close>: a hit is always an entry that was
  inserted and is still live, at a margin \<open>skew\<close> before its expiry.
\<close>

section \<open>The contract of an expiring cache\<close>

locale expiring_cache =
  fixes insert :: "'k \<Rightarrow> 'v \<Rightarrow> time \<Rightarrow> nat \<Rightarrow> 's \<Rightarrow> 's"
    and hit :: "time \<Rightarrow> 'k \<Rightarrow> 's \<Rightarrow> 'v option"
    and contents :: "'s \<Rightarrow> 'k \<Rightarrow> ('v \<times> time) option"
    and skew :: duration
  assumes hit_iff: "hit t k s = Some v \<longleftrightarrow> (\<exists>e. contents s k = Some (v, e) \<and> t + skew < e)"
    and contents_insert_same: "contents (insert k v e i s) k = Some (v, e)"
    and contents_insert_other:
      "k' \<noteq> k \<Longrightarrow> contents (insert k v e i s) k' = Some x \<Longrightarrow> contents s k' = Some x"
begin

lemma hit_after_insert: "t + skew < e \<Longrightarrow> hit t k (insert k v e i s) = Some v"
  by (simp add: hit_iff contents_insert_same)

lemma no_hit_after_expiry: "e \<le> t + skew \<Longrightarrow> hit t k (insert k v e i s) = None"
  using hit_iff [of t k "insert k v e i s"] contents_insert_same [of k v e i s]
  by (cases "hit t k (insert k v e i s)") auto

lemma hit_earlier: "hit t k s = Some v \<Longrightarrow> t' \<le> t \<Longrightarrow> hit t' k s = Some v"
  by (fastforce simp: hit_iff)

text \<open>After any sequence of insertions, a hit is one of the inserted entries.\<close>

lemma contents_run:
  "contents (fold (\<lambda>(k, v, e, i). insert k v e i) ops s) k = Some (v, e) \<Longrightarrow>
   contents s k = Some (v, e) \<or> (\<exists>i. (k, v, e, i) \<in> set ops)"
proof (induction ops arbitrary: s)
  case (Cons op ops)
  obtain k' v' e' i' where op: "op = (k', v', e', i')" by (cases op)
  from Cons.prems have "contents (fold (\<lambda>(k, v, e, i). insert k v e i) ops (insert k' v' e' i' s)) k
      = Some (v, e)" by (simp add: op)
  then have "contents (insert k' v' e' i' s) k = Some (v, e) \<or> (\<exists>i. (k, v, e, i) \<in> set ops)"
    by (rule Cons.IH)
  then show ?case
    using contents_insert_same [of k' v' e' i' s] contents_insert_other [of k k' v' e' i' s]
    by (cases "k = k'") (auto simp: op)
qed simp

lemma hit_run:
  assumes "hit t k (fold (\<lambda>(k, v, e, i). insert k v e i) ops s) = Some v" and "contents s k = None"
  shows "\<exists>e i. (k, v, e, i) \<in> set ops \<and> t + skew < e"
  using assms contents_run by (fastforce simp: hit_iff)

end

section \<open>namecache.go\<close>

definition maxNameCacheEntries :: nat where
  "maxNameCacheEntries = 4096"

record name_entry =
  ne_host :: string
  ne_expiry :: time

record name_cache =
  nc_entries :: "(addr, name_entry) gomap"
  nc_bindings :: "(string \<times> addr, time) gomap"

definition NewNameCache :: name_cache where
  "NewNameCache = \<lparr>nc_entries = [], nc_bindings = []\<rparr>"

text \<open>
  The bounded insertion both maps use: evict the first visited entry when a new key would
  pass the bound.
\<close>

definition bounded_put :: "nat \<Rightarrow> nat \<Rightarrow> 'k \<Rightarrow> 'v \<Rightarrow> ('k, 'v) gomap \<Rightarrow> ('k, 'v) gomap" where
  "bounded_put bound i k v m =
     AList.update k v (if map_of m k = None \<and> bound \<le> length m then evict_one i m else m)"

text \<open>\<open>now1\<close> and \<open>now2\<close> are the two clock readings of \<open>Put\<close>, \<open>i\<close> and \<open>j\<close> the visited positions.\<close>

definition Put :: "string \<Rightarrow> addr \<Rightarrow> duration \<Rightarrow> time \<Rightarrow> time \<Rightarrow> nat \<Rightarrow> nat \<Rightarrow> name_cache \<Rightarrow> name_cache" where
  "Put host0 ip ttl now1 now2 i j c =
     (if ttl \<le> 0 then c
      else let host = normalizeHost host0 in
        if host = '''' then c
        else if \<not> IsValid ip then c
        else c\<lparr>nc_entries := bounded_put maxNameCacheEntries i ip
                 \<lparr>ne_host = host, ne_expiry = now1 + ttl\<rparr> (nc_entries c),
               nc_bindings := bounded_put maxNameCacheEntries j (host, ip) (now2 + ttl) (nc_bindings c)\<rparr>)"

definition HostMatchesIP :: "string \<Rightarrow> addr \<Rightarrow> time \<Rightarrow> name_cache \<Rightarrow> bool \<times> name_cache" where
  "HostMatchesIP host0 ip now c = (let host = normalizeHost host0 in
     if host = '''' \<or> \<not> IsValid ip then (False, c)
     else case map_of (nc_bindings c) (host, ip) of
         None \<Rightarrow> (False, c)
       | Some expiry \<Rightarrow>
           if \<not> now < expiry then (False, c\<lparr>nc_bindings := AList.delete (host, ip) (nc_bindings c)\<rparr>)
           else (True, c))"

definition HostForIP :: "addr \<Rightarrow> time \<Rightarrow> name_cache \<Rightarrow> string option \<times> name_cache" where
  "HostForIP ip now c = (case map_of (nc_entries c) ip of
       None \<Rightarrow> (None, c)
     | Some e \<Rightarrow>
         if \<not> now < ne_expiry e then (None, c\<lparr>nc_entries := AList.delete ip (nc_entries c)\<rparr>)
         else (Some (ne_host e), c))"

definition nc_size :: "name_cache \<Rightarrow> nat" where
  "nc_size c = length (nc_entries c)"

section \<open>tokencache.go\<close>

definition tokenSkew :: duration where
  "tokenSkew = 60 * 1000000000"

record cached_token =
  ct_value :: string
  ct_expiresAt :: time

type_synonym token_cache = "(string, cached_token) gomap"

definition newTokenCache :: token_cache where
  "newTokenCache = []"

definition token_get :: "string \<Rightarrow> time \<Rightarrow> token_cache \<Rightarrow> string option" where
  "token_get key now c = (case map_of c key of
       None \<Rightarrow> None
     | Some t \<Rightarrow> if \<not> now + tokenSkew < ct_expiresAt t then None else Some (ct_value t))"

definition token_set :: "string \<Rightarrow> string \<Rightarrow> time \<Rightarrow> token_cache \<Rightarrow> token_cache" where
  "token_set key val expiresAt c = AList.update key \<lparr>ct_value = val, ct_expiresAt = expiresAt\<rparr> c"

section \<open>Bounds\<close>

lemma map_of_bounded_put_same [simp]: "map_of (bounded_put b i k v m) k = Some v"
  by (simp add: bounded_put_def)

lemma map_of_bounded_put_other:
  "k' \<noteq> k \<Longrightarrow> map_of (bounded_put b i k v m) k' = Some x \<Longrightarrow> map_of m k' = Some x"
  by (auto simp: bounded_put_def dest: map_of_evict_one split: if_splits)

lemma wf_bounded_put [simp]: "wf_map m \<Longrightarrow> wf_map (bounded_put b i k v m)"
  by (simp add: bounded_put_def)

lemma length_bounded_put:
  assumes "length m \<le> b" and "0 < b"
  shows "length (bounded_put b i k v m) \<le> b"
proof (cases "map_of m k = None \<and> b \<le> length m")
  case True
  with assms have "m \<noteq> []" by auto
  with True length_evict_one [of m i] length_alist_update_le [of k v "evict_one i m"] assms
  show ?thesis by (simp add: bounded_put_def)
next
  case False
  show ?thesis
  proof (cases "map_of m k = None")
    case True
    with False assms length_alist_update_le [of k v m] show ?thesis by (simp add: bounded_put_def)
  next
    case False
    with assms length_alist_update_mem [of m k v] show ?thesis by (auto simp: bounded_put_def)
  qed
qed

definition nc_inv :: "name_cache \<Rightarrow> bool" where
  "nc_inv c \<longleftrightarrow> wf_map (nc_entries c) \<and> wf_map (nc_bindings c)
     \<and> length (nc_entries c) \<le> maxNameCacheEntries \<and> length (nc_bindings c) \<le> maxNameCacheEntries"

lemma nc_inv_NewNameCache: "nc_inv NewNameCache"
  by (simp add: nc_inv_def NewNameCache_def)

lemma nc_inv_Put: "nc_inv c \<Longrightarrow> nc_inv (Put h ip ttl n1 n2 i j c)"
  by (auto simp: nc_inv_def Put_def Let_def intro!: length_bounded_put)
    (simp_all add: maxNameCacheEntries_def)

lemma length_alist_delete_le': "length (AList.delete k m) \<le> length m"
  by (simp add: AList.delete_eq)

lemma nc_inv_HostMatchesIP: "nc_inv c \<Longrightarrow> nc_inv (snd (HostMatchesIP h ip n c))"
  using length_alist_delete_le' [of "(normalizeHost h, ip)" "nc_bindings c"]
  by (auto simp: nc_inv_def HostMatchesIP_def Let_def split: option.splits)

lemma nc_inv_HostForIP: "nc_inv c \<Longrightarrow> nc_inv (snd (HostForIP ip n c))"
  using length_alist_delete_le' [of ip "nc_entries c"]
  by (auto simp: nc_inv_def HostForIP_def split: option.splits)

section \<open>Both caches satisfy the contract\<close>

interpretation tok: expiring_cache
  "\<lambda>k v e i s. token_set k v e s" "\<lambda>t k s. token_get k t s"
  "\<lambda>s k. map_option (\<lambda>x. (ct_value x, ct_expiresAt x)) (map_of s k)" tokenSkew
  by unfold_locales (auto simp: token_get_def token_set_def split: option.splits)

text \<open>The reverse table of a \<open>NameCache\<close>, as \<open>HostForIP\<close> reads it.\<close>

interpretation rev_names: expiring_cache
  "\<lambda>ip h e i m. bounded_put maxNameCacheEntries i ip \<lparr>ne_host = h, ne_expiry = e\<rparr> m"
  "\<lambda>t ip m. fst (HostForIP ip t \<lparr>nc_entries = m, nc_bindings = []\<rparr>)"
  "\<lambda>m ip. map_option (\<lambda>x. (ne_host x, ne_expiry x)) (map_of m ip)" 0
  by unfold_locales
    (auto simp: HostForIP_def dest: map_of_bounded_put_other split: option.splits)

text \<open>The binding table: its entries carry no value beside their expiry.\<close>

definition binding_hit :: "time \<Rightarrow> string \<times> addr \<Rightarrow> (string \<times> addr, time) gomap \<Rightarrow> unit option" where
  "binding_hit t k m = (case map_of m k of None \<Rightarrow> None | Some e \<Rightarrow> if t < e then Some () else None)"

interpretation bindings: expiring_cache
  "\<lambda>k (u::unit) e i m. bounded_put maxNameCacheEntries i k e m"
  binding_hit
  "\<lambda>m k. map_option (\<lambda>e. ((), e)) (map_of m k)" 0
proof (unfold_locales, goal_cases)
  case (3 k' k v e i s x)
  then show ?case
    using map_of_bounded_put_other [OF 3(1), of maxNameCacheEntries i e s] by auto
qed (auto simp: binding_hit_def split: option.splits)

lemma HostMatchesIP_binding_hit:
  "fst (HostMatchesIP h ip t c) \<longleftrightarrow>
     normalizeHost h \<noteq> '''' \<and> IsValid ip \<and> binding_hit t (normalizeHost h, ip) (nc_bindings c) = Some ()"
  by (auto simp: HostMatchesIP_def binding_hit_def Let_def split: option.splits)

lemma HostForIP_entries:
  "fst (HostForIP ip t c) = fst (HostForIP ip t \<lparr>nc_entries = nc_entries c, nc_bindings = []\<rparr>)"
  by (auto simp: HostForIP_def split: option.splits)

section \<open>Runs: every hit is backed by an observed answer\<close>

text \<open>A run of a \<open>NameCache\<close> is a sequence of its operations, in the order they took the lock.\<close>

datatype nc_op =
    OpPut string addr duration time time nat nat
  | OpHostMatches string addr time
  | OpHostFor addr time

fun nc_step :: "nc_op \<Rightarrow> name_cache \<Rightarrow> name_cache" where
  "nc_step (OpPut h ip ttl n1 n2 i j) c = Put h ip ttl n1 n2 i j c"
| "nc_step (OpHostMatches h ip n) c = snd (HostMatchesIP h ip n c)"
| "nc_step (OpHostFor ip n) c = snd (HostForIP ip n c)"

definition nc_run :: "nc_op list \<Rightarrow> name_cache \<Rightarrow> name_cache" where
  "nc_run ops c = fold nc_step ops c"

lemma nc_inv_step: "nc_inv c \<Longrightarrow> nc_inv (nc_step op c)"
  by (cases op) (simp_all add: nc_inv_Put nc_inv_HostMatchesIP nc_inv_HostForIP)

lemma nc_inv_run: "nc_inv c \<Longrightarrow> nc_inv (nc_run ops c)"
  unfolding nc_run_def by (induction ops arbitrary: c) (simp_all add: nc_inv_step)

text \<open>An answer the mediator saw: a \<open>Put\<close> of a positive time to live for a non-empty name.\<close>

fun binds :: "string \<Rightarrow> addr \<Rightarrow> time \<Rightarrow> nc_op \<Rightarrow> bool" where
  "binds host ip expiry (OpPut h a ttl n1 n2 i j) \<longleftrightarrow>
     normalizeHost h = host \<and> host \<noteq> '''' \<and> a = ip \<and> IsValid ip \<and> 0 < ttl \<and> expiry = n2 + ttl"
| "binds host ip expiry _ \<longleftrightarrow> False"

fun names :: "string \<Rightarrow> addr \<Rightarrow> time \<Rightarrow> nc_op \<Rightarrow> bool" where
  "names host ip expiry (OpPut h a ttl n1 n2 i j) \<longleftrightarrow>
     normalizeHost h = host \<and> host \<noteq> '''' \<and> a = ip \<and> IsValid ip \<and> 0 < ttl \<and> expiry = n1 + ttl"
| "names host ip expiry _ \<longleftrightarrow> False"

lemma nc_step_bindings:
  "map_of (nc_bindings (nc_step op c)) (h, ip) = Some e \<Longrightarrow>
   map_of (nc_bindings c) (h, ip) = Some e \<or> binds h ip e op"
proof (cases op)
  case (OpPut h' a ttl n1 n2 i j)
  assume "map_of (nc_bindings (nc_step op c)) (h, ip) = Some e"
  then show ?thesis
    using map_of_bounded_put_other [of "(h, ip)" "(normalizeHost h', a)" maxNameCacheEntries j
        "n2 + ttl" "nc_bindings c" e]
    by (cases "(h, ip) = (normalizeHost h', a)")
      (auto simp: OpPut Put_def Let_def split: if_splits)
qed (auto simp: HostMatchesIP_def HostForIP_def Let_def split: option.splits if_splits)

lemma nc_step_entries:
  "map_of (nc_entries (nc_step op c)) ip = Some e \<Longrightarrow>
   map_of (nc_entries c) ip = Some e \<or> names (ne_host e) ip (ne_expiry e) op"
proof (cases op)
  case (OpPut h' a ttl n1 n2 i j)
  assume "map_of (nc_entries (nc_step op c)) ip = Some e"
  then show ?thesis
    using map_of_bounded_put_other [of ip a maxNameCacheEntries i
        "\<lparr>ne_host = normalizeHost h', ne_expiry = n1 + ttl\<rparr>" "nc_entries c" e]
    by (cases "ip = a") (auto simp: OpPut Put_def Let_def split: if_splits)
qed (auto simp: HostMatchesIP_def HostForIP_def Let_def split: option.splits if_splits)

lemma nc_run_snoc: "nc_run (ops @ [op]) c = nc_step op (nc_run ops c)"
  by (simp add: nc_run_def)

lemma nc_run_bindings:
  "map_of (nc_bindings (nc_run ops NewNameCache)) (h, ip) = Some e \<Longrightarrow> \<exists>op \<in> set ops. binds h ip e op"
proof (induction ops rule: rev_induct)
  case Nil
  then show ?case by (simp add: nc_run_def NewNameCache_def)
next
  case (snoc op ops)
  then show ?case
    using nc_step_bindings [of op "nc_run ops NewNameCache" h ip e] by (auto simp: nc_run_snoc)
qed

lemma nc_run_entries:
  "map_of (nc_entries (nc_run ops NewNameCache)) ip = Some e \<Longrightarrow>
   \<exists>op \<in> set ops. names (ne_host e) ip (ne_expiry e) op"
proof (induction ops rule: rev_induct)
  case Nil
  then show ?case by (simp add: nc_run_def NewNameCache_def)
next
  case (snoc op ops)
  then show ?case
    using nc_step_entries [of op "nc_run ops NewNameCache" ip e] by (auto simp: nc_run_snoc)
qed

lemma HostMatchesIP_observed:
  assumes "fst (HostMatchesIP h ip t (nc_run ops NewNameCache))"
  shows "\<exists>op \<in> set ops. \<exists>e. binds (normalizeHost h) ip e op \<and> t < e"
  using assms nc_run_bindings [of ops "normalizeHost h" ip]
  by (auto simp: HostMatchesIP_def Let_def split: option.splits if_splits)

lemma HostForIP_observed:
  assumes "fst (HostForIP ip t (nc_run ops NewNameCache)) = Some h"
  shows "\<exists>op \<in> set ops. \<exists>e. names h ip e op \<and> t < e"
proof -
  from assms obtain en where
    "map_of (nc_entries (nc_run ops NewNameCache)) ip = Some en" "t < ne_expiry en" "h = ne_host en"
    by (auto simp: HostForIP_def split: option.splits if_splits)
  then show ?thesis using nc_run_entries by blast
qed

text \<open>A fresh answer is found until it expires, whatever the cache held before.\<close>

lemma Put_then_lookup:
  assumes "0 < ttl" "normalizeHost h \<noteq> ''''" "IsValid ip" "t < n1 + ttl" "t < n2 + ttl"
  shows "fst (HostForIP ip t (Put h ip ttl n1 n2 i j c)) = Some (normalizeHost h)"
    and "fst (HostMatchesIP h ip t (Put h ip ttl n1 n2 i j c))"
  using assms
    rev_names.hit_after_insert [where t = t and e = "n1 + ttl" and k = ip
        and v = "normalizeHost h" and i = i and s = "nc_entries c"]
    bindings.hit_after_insert [where t = t and e = "n2 + ttl" and k = "(normalizeHost h, ip)"
        and i = j and s = "nc_bindings c"]
  by (simp_all add: HostForIP_entries [of ip t "_\<lparr>nc_entries := _, nc_bindings := _\<rparr>"]
      HostMatchesIP_binding_hit Put_def Let_def)

end
