(* ===== verification/Signals.thy ===== *)
theory Signals
  imports Go_Prelude
begin

text \<open>The vocabulary of non-cooperation signals (internal/egress/signals.go).\<close>

definition SignalDenied :: string where "SignalDenied = ''denied''"
definition SignalDirectIPNoSNI :: string where "SignalDirectIPNoSNI = ''direct-ip-no-sni''"
definition SignalNameDestinationMismatch :: string where
  "SignalNameDestinationMismatch = ''name-destination-mismatch''"
definition SignalQUICUDP443 :: string where "SignalQUICUDP443 = ''quic-udp443''"
definition SignalForeignResolver :: string where "SignalForeignResolver = ''foreign-resolver''"
definition SignalResolverDenied :: string where "SignalResolverDenied = ''resolver-denied''"
definition SignalDNSOverHTTPS :: string where "SignalDNSOverHTTPS = ''dns-over-https''"
definition SignalUnmediatableProtocol :: string where
  "SignalUnmediatableProtocol = ''unmediatable-protocol''"
definition SignalUnresolvedSecretRef :: string where
  "SignalUnresolvedSecretRef = ''unresolved-secret-ref''"

definition AllSignals :: "string list" where
  "AllSignals = [SignalDenied, SignalDirectIPNoSNI, SignalNameDestinationMismatch, SignalQUICUDP443,
     SignalForeignResolver, SignalResolverDenied, SignalDNSOverHTTPS, SignalUnmediatableProtocol,
     SignalUnresolvedSecretRef]"

lemmas signal_defs = SignalDenied_def SignalDirectIPNoSNI_def SignalNameDestinationMismatch_def
  SignalQUICUDP443_def SignalForeignResolver_def SignalResolverDenied_def SignalDNSOverHTTPS_def
  SignalUnmediatableProtocol_def SignalUnresolvedSecretRef_def

text \<open>The kinds can be told apart.\<close>

lemma distinct_AllSignals: "distinct AllSignals"
  by (simp add: AllSignals_def signal_defs)

end
