(* ===== verification/Swap.thy ===== *)
theory Swap
  imports Caches Signals
begin

text \<open>
  Credential swapping: the swap table (internal/egress/swap_config.go), acquiring a credential and
  rendering the header (swap.go, acquire.go), the relay that injects it into a stream of HTTP
  requests (swap.go) and the built-in providers (providers.go).

  What lies outside the package is collected in two records. \<open>lib\<close> holds the pure library code:
  the URL parser, the JSON decoders, the RSA key parser and the JWT signer, and the rendering of an
  error as text. \<open>env\<close> holds what may answer differently each time: the secret resolver, the token
  endpoint, the environment variables and the clock; the relay takes one environment per request.
\<close>

section \<open>swap_config.go\<close>

record swap_entry =
  se_Type :: string
  se_Domains :: "string list"
  se_Header :: string
  se_Format :: string
  se_KeyRef :: string
  se_TokenURL :: string
  se_ClientIDRef :: string
  se_ClientSecretRef :: string
  se_Scopes :: "string list"
  se_SigningKeyRef :: string
  se_Claims :: "(string, string) gomap"
  se_Algorithm :: string
  se_TokenResponseField :: string
  se_TokenTTLSeconds :: int
  se_Name :: string

type_synonym swap_config_file = "(string, swap_entry) gomap"

record swap_table =
  st_exact :: "(string, swap_entry) gomap"
  st_suffix :: "(string, swap_entry) gomap"

datatype swap_error =
    ParseSwapConfig
  | MultipleDocuments
  | NoDomains string
  | EmptyDomain string string
  | UnknownType string string
  | NegativeTTL string
  | MissingKeyRef string
  | MissingSigningKeyRef string
  | UnsupportedAlgorithm string string
  | MissingClientIDRef string
  | MissingClientSecretRef string
  | MissingTokenURL string
  | TokenURLWhitespace string
  | InvalidTokenURL string
  | TokenURLUserinfoOrFragment string
  | TokenURLPlainHTTP string
  | TokenURLNotHTTPS string
  | EmptySecretRef
  | NoResolver
  | ResolveFailed string
  | ErrNoSecret
  | BuildTokenRequest string
  | TokenRequestFailed string
  | ReadTokenResponse string
  | TokenEndpointStatus string int
  | DecodeTokenResponse string
  | MissingAccessToken string
  | TokenFieldMissing string string
  | ParseSigningKey string
  | SignAssertion string

definition validSwapTypes :: "string list" where
  "validSwapTypes = [''static'', ''oauth2-cc'', ''jwt-bearer'']"

text \<open>The parts of a parsed \<open>url.URL\<close> the code looks at; \<open>Hostname\<close> strips port and brackets.\<close>

record url =
  url_Scheme :: string
  url_Host :: string
  url_Opaque :: string
  url_HasUser :: bool
  url_Fragment :: string

definition validOptionalPort :: "string \<Rightarrow> bool" where
  "validOptionalPort p \<longleftrightarrow> (case p of [] \<Rightarrow> True
     | c # ds \<Rightarrow> c = CHR '':'' \<and> list_all (\<lambda>d. digit_val d \<noteq> None) ds)"

definition Hostname :: "url \<Rightarrow> string" where
  "Hostname u =
     (let h = url_Host u;
          h1 = (case LastIndexByte h CHR '':'' of
                  Some i \<Rightarrow> if validOptionalPort (drop i h) then take i h else h
                | None \<Rightarrow> h)
      in if HasPrefix h1 ''['' \<and> HasSuffix h1 '']'' then take (length h1 - 2) (drop 1 h1) else h1)"

text \<open>\<open>net.ParseIP\<close>: as \<open>netip.ParseAddr\<close>, without zones.\<close>

definition ParseIP :: "string \<Rightarrow> addr option" where
  "ParseIP s = (case ParseAddr s of
       Some (V6 w z) \<Rightarrow> if z = '''' then Some (V6 w z) else None
     | r \<Rightarrow> r)"

definition validateOAuth2Entry :: "(string \<Rightarrow> url option) \<Rightarrow> swap_entry \<Rightarrow> swap_error option" where
  "validateOAuth2Entry url_Parse e =
     (if TrimSpace (se_ClientIDRef e) = '''' then Some (MissingClientIDRef (se_Name e))
      else if TrimSpace (se_ClientSecretRef e) = '''' then Some (MissingClientSecretRef (se_Name e))
      else let tokenURL = TrimSpace (se_TokenURL e) in
        if tokenURL = '''' then Some (MissingTokenURL (se_Name e))
        else if tokenURL \<noteq> se_TokenURL e then Some (TokenURLWhitespace (se_Name e))
        else case url_Parse tokenURL of
            None \<Rightarrow> Some (InvalidTokenURL (se_Name e))
          | Some parsed \<Rightarrow>
              if url_Scheme parsed = '''' \<or> url_Host parsed = '''' \<or> url_Opaque parsed \<noteq> ''''
              then Some (InvalidTokenURL (se_Name e))
              else if url_HasUser parsed \<or> url_Fragment parsed \<noteq> ''''
              then Some (TokenURLUserinfoOrFragment (se_Name e))
              else if ToLower (url_Scheme parsed) = ''https'' then None
              else if ToLower (url_Scheme parsed) = ''http'' then
                (let host = TrimSuffix (ToLower (Hostname parsed)) ''.'' in
                 if host = ''localhost'' \<or> (case ParseIP host of Some ip \<Rightarrow> IsLoopback ip | None \<Rightarrow> False)
                 then None else Some (TokenURLPlainHTTP (se_Name e)))
              else Some (TokenURLNotHTTPS (se_Name e)))"

definition validateSwapEntry :: "(string \<Rightarrow> url option) \<Rightarrow> swap_entry \<Rightarrow> swap_error option" where
  "validateSwapEntry url_Parse e =
     (if se_Type e \<notin> set validSwapTypes then Some (UnknownType (se_Name e) (se_Type e))
      else if se_TokenTTLSeconds e < 0 then Some (NegativeTTL (se_Name e))
      else if se_Type e = ''static'' then
        (if TrimSpace (se_KeyRef e) = '''' then Some (MissingKeyRef (se_Name e)) else None)
      else if se_Type e = ''oauth2-cc'' then validateOAuth2Entry url_Parse e
      else if se_Type e = ''jwt-bearer'' then
        (if TrimSpace (se_SigningKeyRef e) = '''' then Some (MissingSigningKeyRef (se_Name e))
         else if se_Algorithm e \<noteq> '''' \<and> se_Algorithm e \<noteq> ''RS256''
         then Some (UnsupportedAlgorithm (se_Name e) (se_Algorithm e))
         else None)
      else None)"

fun index_domains :: "swap_entry \<Rightarrow> string list \<Rightarrow> swap_table \<Rightarrow> swap_error + swap_table" where
  "index_domains e [] t = Inr t"
| "index_domains e (raw # rest) t =
     (let leadingDot = HasPrefix (TrimSpace raw) ''.''; h = normalizeHost raw in
      if h = '''' then Inl (EmptyDomain (se_Name e) raw)
      else if leadingDot then
        index_domains e rest (t\<lparr>st_suffix := AList.update (''.'' @ TrimPrefix h ''.'') e (st_suffix t)\<rparr>)
      else index_domains e rest (t\<lparr>st_exact := AList.update h e (st_exact t)\<rparr>))"

fun index_swaps ::
  "(string \<Rightarrow> url option) \<Rightarrow> swap_config_file \<Rightarrow> swap_table \<Rightarrow> swap_error + swap_table" where
  "index_swaps url_Parse [] t = Inr t"
| "index_swaps url_Parse ((name, entry) # rest) t =
     (let e = entry\<lparr>se_Name := name\<rparr> in
      case validateSwapEntry url_Parse e of Some err \<Rightarrow> Inl err
      | None \<Rightarrow>
          if se_Domains e = [] then Inl (NoDomains name)
          else case index_domains e (se_Domains e) t of
              Inl err \<Rightarrow> Inl err
            | Inr t' \<Rightarrow> index_swaps url_Parse rest t')"

text \<open>The strict YAML decoder: the first document, and what a second \<open>Decode\<close> finds.\<close>

datatype yaml_next = YEOF | YDocument | YError
datatype yaml_docs = YamlError | YamlDoc swap_config_file yaml_next

definition LoadSwapTable ::
  "(string \<Rightarrow> url option) \<Rightarrow> (bytes \<Rightarrow> yaml_docs) \<Rightarrow> bytes \<Rightarrow> swap_error + swap_table" where
  "LoadSwapTable url_Parse yaml data = (case yaml data of
       YamlError \<Rightarrow> Inl ParseSwapConfig
     | YamlDoc cfg next \<Rightarrow> (case next of
           YDocument \<Rightarrow> Inl MultipleDocuments
         | YError \<Rightarrow> Inl ParseSwapConfig
         | YEOF \<Rightarrow> index_swaps url_Parse cfg \<lparr>st_exact = [], st_suffix = []\<rparr>))"

definition Match :: "swap_table \<Rightarrow> string \<Rightarrow> swap_entry option" where
  "Match t host0 = (let host = normalizeHost host0 in
     if host = '''' then None
     else case map_of (st_exact t) host of
         Some e \<Rightarrow> Some e
       | None \<Rightarrow> map_option snd (find (\<lambda>(s, e). host = tl s \<or> HasSuffix host s) (st_suffix t)))"

section \<open>swap.go and acquire.go: acquiring a credential\<close>

definition defaultTokenTTL :: int where "defaultTokenTTL = 3600"
definition jwtBearerTTL :: int where "jwtBearerTTL = 600"
definition jwtIATBackdate :: duration where "jwtIATBackdate = 60 * 1000000000"
definition second :: duration where "second = 1000000000"

text \<open>\<open>time.Duration(ttl) * time.Second\<close> is a 64-bit product; \<open>Unix\<close> counts whole seconds.\<close>

definition wrap64 :: "int \<Rightarrow> int" where
  "wrap64 i = (i + 2 ^ 63) mod 2 ^ 64 - 2 ^ 63"

definition seconds :: "int \<Rightarrow> duration" where
  "seconds n = wrap64 (n * second)"

definition Unix :: "time \<Rightarrow> int" where
  "Unix t = t div second"

datatype json_value = JStr string | JNum int | JOther

record token_request =
  tr_URL :: string
  tr_form :: "(string \<times> string) list"

datatype token_reply = CannotBuild | TransportError | BodyError | Reply int bytes

datatype claim = CInt int | CStr string

record 'pk lib =
  url_Parse :: "string \<Rightarrow> url option"
  json_tokenResp :: "bytes \<Rightarrow> (string \<times> int) option"
  json_object :: "bytes \<Rightarrow> (string, json_value) gomap option"
  parseRSAPrivateKey :: "string \<Rightarrow> 'pk option"
  signRS256JWT :: "'pk \<Rightarrow> (string, claim) gomap \<Rightarrow> string option"
  Error_text :: "swap_error \<Rightarrow> string"

record env =
  Resolver :: "(string \<Rightarrow> string + bytes) option"
  endpoint :: "token_request \<Rightarrow> token_reply"
  Getenv :: "string \<Rightarrow> string"
  now_get :: time
  now_mint :: time

fun Join :: "string \<Rightarrow> string list \<Rightarrow> string" where
  "Join sep [] = ''''"
| "Join sep [s] = s"
| "Join sep (s # t # ts) = s @ sep @ Join sep (t # ts)"

definition cacheKey :: "swap_entry \<Rightarrow> string" where
  "cacheKey e = se_Name e @ ''|'' @ se_TokenURL e @ ''|'' @ Join '','' (se_Scopes e) @ ''|'' @
     se_ClientIDRef e @ ''|'' @ se_SigningKeyRef e"

definition resolveStr :: "env \<Rightarrow> string \<Rightarrow> swap_error + string" where
  "resolveStr v ref =
     (if ref = '''' then Inl EmptySecretRef
      else case Resolver v of
          None \<Rightarrow> Inl NoResolver
        | Some resolve \<Rightarrow> (case resolve ref of
              Inl err \<Rightarrow> Inl (ResolveFailed err)
            | Inr b \<Rightarrow> if b = [] then Inl ErrNoSecret else Inr (go_string b)))"

definition render :: "string \<Rightarrow> string \<Rightarrow> string \<Rightarrow> string \<Rightarrow> string" where
  "render format placeholder v dflt =
     (if format = '''' then dflt else ReplaceAll format (''{'' @ placeholder @ ''}'') v)"

definition headerOrDefault :: "string \<Rightarrow> string" where
  "headerOrDefault h = (if h = '''' then ''Authorization'' else h)"

definition expiryFrom :: "time \<Rightarrow> int \<Rightarrow> swap_entry \<Rightarrow> time" where
  "expiryFrom now expiresIn e =
     (let ttl = expiresIn;
          ttl = (if ttl \<le> 0 then se_TokenTTLSeconds e else ttl);
          ttl = (if ttl \<le> 0 then defaultTokenTTL else ttl)
      in now + seconds ttl)"

definition parseToken ::
  "'pk lib \<Rightarrow> time \<Rightarrow> bytes \<Rightarrow> swap_entry \<Rightarrow> swap_error + (string \<times> time)" where
  "parseToken L now body e =
     (if se_TokenResponseField e = '''' \<or> se_TokenResponseField e = ''access_token'' then
        (case json_tokenResp L body of
            None \<Rightarrow> Inl (DecodeTokenResponse (se_Name e))
          | Some (accessToken, expiresIn) \<Rightarrow>
              if accessToken = '''' then Inl (MissingAccessToken (se_Name e))
              else Inr (accessToken, expiryFrom now expiresIn e))
      else case json_object L body of
            None \<Rightarrow> Inl (DecodeTokenResponse (se_Name e))
          | Some generic \<Rightarrow>
              (let tok = (case map_of generic (se_TokenResponseField e) of
                            Some (JStr s) \<Rightarrow> s | _ \<Rightarrow> '''');
                   expiresIn = (case map_of generic ''expires_in'' of Some (JNum n) \<Rightarrow> n | _ \<Rightarrow> 0)
               in if tok = '''' then Inl (TokenFieldMissing (se_Name e) (se_TokenResponseField e))
                  else Inr (tok, expiryFrom now expiresIn e)))"

definition token_form :: "string \<Rightarrow> string \<Rightarrow> swap_entry \<Rightarrow> (string \<times> string) list" where
  "token_form clientID clientSecret e =
     [(''grant_type'', ''client_credentials''), (''client_id'', clientID),
      (''client_secret'', clientSecret)] @
     (if se_Scopes e = [] then [] else [(''scope'', Join '' '' (se_Scopes e))])"

definition acquireOAuth2CC ::
  "'pk lib \<Rightarrow> env \<Rightarrow> swap_entry \<Rightarrow> token_cache \<Rightarrow> (swap_error + string) \<times> token_cache" where
  "acquireOAuth2CC L v e cache =
     (case validateOAuth2Entry (url_Parse L) e of Some err \<Rightarrow> (Inl err, cache)
      | None \<Rightarrow> (let key = cacheKey e in
      case token_get key (now_get v) cache of Some tok \<Rightarrow> (Inr tok, cache)
      | None \<Rightarrow> (case resolveStr v (se_ClientIDRef e) of Inl err \<Rightarrow> (Inl err, cache)
      | Inr clientID \<Rightarrow> (case resolveStr v (se_ClientSecretRef e) of Inl err \<Rightarrow> (Inl err, cache)
      | Inr clientSecret \<Rightarrow>
          (case endpoint v \<lparr>tr_URL = se_TokenURL e, tr_form = token_form clientID clientSecret e\<rparr> of
              CannotBuild \<Rightarrow> (Inl (BuildTokenRequest (se_Name e)), cache)
            | TransportError \<Rightarrow> (Inl (TokenRequestFailed (se_Name e)), cache)
            | BodyError \<Rightarrow> (Inl (ReadTokenResponse (se_Name e)), cache)
            | Reply status body \<Rightarrow>
                if status \<noteq> 200 then (Inl (TokenEndpointStatus (se_Name e) status), cache)
                else (case parseToken L (now_mint v) (take (2 ^ 20) body) e of
                    Inl err \<Rightarrow> (Inl err, cache)
                  | Inr (tok, expiry) \<Rightarrow> (Inr tok, token_set key tok expiry cache)))))))"

definition interpolateEnv :: "env \<Rightarrow> string \<Rightarrow> string" where
  "interpolateEnv v s =
     (if HasPrefix s ''${'' \<and> HasSuffix s ''}'' \<and> 3 < length s
      then Getenv v (take (length s - 3) (drop 2 s)) else s)"

fun merge_claims :: "env \<Rightarrow> (string, string) gomap \<Rightarrow> (string, claim) gomap \<Rightarrow> (string, claim) gomap" where
  "merge_claims v [] claims = claims"
| "merge_claims v ((k, x) # rest) claims =
     merge_claims v rest (if k = ''exp'' then claims else AList.update k (CStr (interpolateEnv v x)) claims)"

definition jwt_ttl :: "swap_entry \<Rightarrow> int" where
  "jwt_ttl e = (if se_TokenTTLSeconds e \<le> 0 then jwtBearerTTL else se_TokenTTLSeconds e)"

definition jwt_claims :: "env \<Rightarrow> swap_entry \<Rightarrow> (string, claim) gomap" where
  "jwt_claims v e =
     (let now = now_mint v; expiry = now + seconds (jwt_ttl e)
      in merge_claims v (se_Claims e)
           [(''iat'', CInt (Unix (now - jwtIATBackdate))), (''exp'', CInt (Unix expiry))])"

definition acquireJWTBearer ::
  "'pk lib \<Rightarrow> env \<Rightarrow> swap_entry \<Rightarrow> token_cache \<Rightarrow> (swap_error + string) \<times> token_cache" where
  "acquireJWTBearer L v e cache =
     (let key = cacheKey e in
      case token_get key (now_get v) cache of Some tok \<Rightarrow> (Inr tok, cache)
      | None \<Rightarrow> (case resolveStr v (se_SigningKeyRef e) of Inl err \<Rightarrow> (Inl err, cache)
      | Inr keyPEM \<Rightarrow> (case parseRSAPrivateKey L keyPEM of None \<Rightarrow> (Inl (ParseSigningKey (se_Name e)), cache)
      | Some pk \<Rightarrow> (case signRS256JWT L pk (jwt_claims v e) of
            None \<Rightarrow> (Inl (SignAssertion (se_Name e)), cache)
          | Some jwt \<Rightarrow> (Inr jwt, token_set key jwt (now_mint v + seconds (jwt_ttl e)) cache)))))"

definition acquire ::
  "'pk lib \<Rightarrow> env \<Rightarrow> swap_entry \<Rightarrow> token_cache \<Rightarrow> (swap_error + (string \<times> string)) \<times> token_cache" where
  "acquire L v e cache =
     (if se_Type e = ''static'' then
        (case resolveStr v (se_KeyRef e) of Inl err \<Rightarrow> (Inl err, cache)
         | Inr key \<Rightarrow> (Inr (headerOrDefault (se_Header e), render (se_Format e) ''key'' key key), cache))
      else if se_Type e = ''oauth2-cc'' then
        (case acquireOAuth2CC L v e cache of (Inl err, c) \<Rightarrow> (Inl err, c)
         | (Inr tok, c) \<Rightarrow>
             (Inr (headerOrDefault (se_Header e), render (se_Format e) ''token'' tok (''Bearer '' @ tok)), c))
      else if se_Type e = ''jwt-bearer'' then
        (case acquireJWTBearer L v e cache of (Inl err, c) \<Rightarrow> (Inl err, c)
         | (Inr tok, c) \<Rightarrow>
             (Inr (headerOrDefault (se_Header e), render (se_Format e) ''token'' tok (''Bearer '' @ tok)), c))
      else (Inl (UnknownType (se_Name e) (se_Type e)), cache))"

section \<open>swap.go: the request relay\<close>

text \<open>\<open>textproto.CanonicalMIMEHeaderKey\<close> on the token characters of RFC 9110.\<close>

definition upper_char :: "char \<Rightarrow> char" where
  "upper_char c = (let n = (of_char c :: nat) in if 97 \<le> n \<and> n \<le> 122 then char_of (n - 32) else c)"

definition is_token_char :: "char \<Rightarrow> bool" where
  "is_token_char c \<longleftrightarrow> (let n = (of_char c :: nat) in
     (48 \<le> n \<and> n \<le> 57) \<or> (65 \<le> n \<and> n \<le> 90) \<or> (97 \<le> n \<and> n \<le> 122) \<or> c \<in> set ''!#$%&*+-.^_`|~'' \<or> n = 39)"

fun title_words :: "bool \<Rightarrow> string \<Rightarrow> string" where
  "title_words up [] = []"
| "title_words up (c # cs) = (if up then upper_char c else lower_char c) # title_words (c = CHR ''-'') cs"

definition CanonicalHeaderKey :: "string \<Rightarrow> string" where
  "CanonicalHeaderKey s = (if list_all is_token_char s then title_words True s else s)"

type_synonym header = "(string, string list) gomap"

definition Header_Set :: "string \<Rightarrow> string \<Rightarrow> header \<Rightarrow> header" where
  "Header_Set k v h = AList.update (CanonicalHeaderKey k) [v] h"

definition Header_Values :: "header \<Rightarrow> string \<Rightarrow> string list" where
  "Header_Values h k = (case map_of h (CanonicalHeaderKey k) of Some vs \<Rightarrow> vs | None \<Rightarrow> [])"

definition Header_Get :: "header \<Rightarrow> string \<Rightarrow> string" where
  "Header_Get h k = (case Header_Values h k of [] \<Rightarrow> '''' | v # _ \<Rightarrow> v)"

text \<open>A request as \<open>http.ReadRequest\<close> returns it; a server-side request always has a URL.\<close>

record http_request =
  rq_Method :: string
  rq_Path :: string
  rq_RequestURI :: string
  rq_Header :: header
  rq_Body :: bytes

definition headerHasToken :: "header \<Rightarrow> string \<Rightarrow> string \<Rightarrow> bool" where
  "headerHasToken h name token \<longleftrightarrow>
     list_ex (\<lambda>value. list_ex (\<lambda>part. EqualFold (TrimSpace part) token) (Split value CHR '',''))
       (Header_Values h name)"

definition isDNSOverHTTPS :: "http_request \<Rightarrow> bool" where
  "isDNSOverHTTPS req \<longleftrightarrow>
     rq_Path req = ''/dns-query'' \<or>
     (let mediaType = Header_Get (rq_Header req) ''Content-Type'';
          mediaType = (case IndexByte mediaType CHR '';'' of Some i \<Rightarrow> take i mediaType | None \<Rightarrow> mediaType)
      in EqualFold (TrimSpace mediaType) ''application/dns-message'')"

text \<open>
  The guest's side of the stream: requests, each with the bytes that follow it, until reading
  fails. The outcome of writing a request upstream is an argument that may depend on what was
  written before, as is that of copying the bytes behind an upgrade. \<open>CapTripped\<close> is a write that
  passed the volume cap (the \<open>tripped\<close> flag of \<open>capWriter\<close>), with the writer's own error if it had one.
\<close>

datatype io_error = EOF | IOError string | CapTripped "string option"

datatype guest = ReadFails io_error | Request http_request bytes guest

datatype relay_result = RelayIO io_error | RelayDNSOverHTTPS | RelaySwap swap_error | RelayCopied "io_error option"

record relay_out =
  up_requests :: "http_request list"
  up_tail :: bytes
  ro_log :: "audit_event list"
  ro_cache :: token_cache
  ro_failed :: "http_request option"
  ro_result :: relay_result

record upstream =
  write_err :: "http_request list \<Rightarrow> http_request \<Rightarrow> io_error option"
  copy_err :: "http_request list \<Rightarrow> bytes \<Rightarrow> io_error option"

text \<open>One request up to the write: the guard, then the swap; \<open>Inl\<close> ends the relay.\<close>

definition prepare_request ::
  "'pk lib \<Rightarrow> env \<Rightarrow> string \<Rightarrow> swap_table option \<Rightarrow> http_request \<Rightarrow> token_cache \<Rightarrow>
   (relay_result + http_request) \<times> audit_event list \<times> token_cache" where
  "prepare_request L v sni tbl req cache =
     (if isDNSOverHTTPS req then
        (Inl RelayDNSOverHTTPS,
         [Log ''egress_deny'' [(''host'', AStr sni), (''method'', AStr (rq_Method req)),
           (''path'', AStr (rq_Path req)), (''reason'', AStr ''dns-over-https''),
           (''signal'', AStr SignalDNSOverHTTPS)]], cache)
      else case Option.bind tbl (\<lambda>t. Match t sni) of
          None \<Rightarrow> (Inr (req\<lparr>rq_RequestURI := ''''\<rparr>), [], cache)
        | Some e \<Rightarrow> (case acquire L v e cache of
              (Inl aerr, c) \<Rightarrow>
                (Inl (RelaySwap aerr),
                 [Log ''egress_swap_error'' [(''host'', AStr sni), (''swap'', AStr (se_Name e)),
                   (''type'', AStr (se_Type e)), (''error'', AStr (Error_text L aerr))]], c)
            | (Inr (hdr, val), c) \<Rightarrow>
                (Inr (req\<lparr>rq_Header := Header_Set hdr val (rq_Header req), rq_RequestURI := ''''\<rparr>),
                 [Log ''egress_swap'' [(''host'', AStr sni), (''swap'', AStr (se_Name e)),
                   (''type'', AStr (se_Type e))]], c)))"

fun relay_loop ::
  "'pk lib \<Rightarrow> (nat \<Rightarrow> env) \<Rightarrow> upstream \<Rightarrow> string \<Rightarrow> swap_table option \<Rightarrow> nat \<Rightarrow>
   http_request list \<Rightarrow> audit_event list \<Rightarrow> token_cache \<Rightarrow> guest \<Rightarrow> relay_out" where
  "relay_loop L vs up sni tbl n ws lg c (ReadFails err) =
     \<lparr>up_requests = ws, up_tail = [], ro_log = lg, ro_cache = c, ro_failed = None, ro_result = RelayIO err\<rparr>"
| "relay_loop L vs up sni tbl n ws lg c (Request req rest g) =
     (case prepare_request L (vs n) sni tbl req c of
        (Inl r, lg', c') \<Rightarrow>
          \<lparr>up_requests = ws, up_tail = [], ro_log = lg @ lg', ro_cache = c', ro_failed = None, ro_result = r\<rparr>
      | (Inr out, lg', c') \<Rightarrow>
          (case write_err up ws out of
             Some err \<Rightarrow>
               \<lparr>up_requests = ws, up_tail = [], ro_log = lg @ lg', ro_cache = c', ro_failed = Some out, ro_result = RelayIO err\<rparr>
           | None \<Rightarrow>
               if rq_Method out = ''CONNECT'' \<or> headerHasToken (rq_Header out) ''Connection'' ''upgrade'' then
                 \<lparr>up_requests = ws @ [out], up_tail = rest, ro_log = lg @ lg', ro_cache = c',
                  ro_failed = None, ro_result = RelayCopied (copy_err up (ws @ [out]) rest)\<rparr>
               else relay_loop L vs up sni tbl (Suc n) (ws @ [out]) (lg @ lg') c' g))"

definition relayHTTPRequests ::
  "'pk lib \<Rightarrow> (nat \<Rightarrow> env) \<Rightarrow> upstream \<Rightarrow> guest \<Rightarrow> string \<Rightarrow> token_cache \<Rightarrow> swap_table option \<Rightarrow> relay_out" where
  "relayHTTPRequests L vs up g sni cache tbl = relay_loop L vs up sni tbl 0 [] [] cache g"

definition injectRequests ::
  "'pk lib \<Rightarrow> (nat \<Rightarrow> env) \<Rightarrow> upstream \<Rightarrow> guest \<Rightarrow> string \<Rightarrow> token_cache \<Rightarrow> swap_table option \<Rightarrow> relay_out" where
  "injectRequests = relayHTTPRequests"

section \<open>providers.go\<close>

record provider_swap =
  hosts :: "string list"
  ps_header :: string
  ps_format :: string
  defaultRef :: string

definition builtinProviders :: "(string, provider_swap) gomap" where
  "builtinProviders =
    [(''openai'', \<lparr>hosts = [''api.openai.com''], ps_header = ''Authorization'',
        ps_format = ''Bearer {key}'', defaultRef = ''env:OPENAI_API_KEY''\<rparr>),
     (''anthropic'', \<lparr>hosts = [''api.anthropic.com''], ps_header = ''x-api-key'',
        ps_format = ''{key}'', defaultRef = ''env:ANTHROPIC_API_KEY''\<rparr>),
     (''gemini'', \<lparr>hosts = [''generativelanguage.googleapis.com''], ps_header = ''x-goog-api-key'',
        ps_format = ''{key}'', defaultRef = ''env:GEMINI_API_KEY''\<rparr>),
     (''groq'', \<lparr>hosts = [''api.groq.com''], ps_header = ''Authorization'',
        ps_format = ''Bearer {key}'', defaultRef = ''env:GROQ_API_KEY''\<rparr>),
     (''openrouter'', \<lparr>hosts = [''openrouter.ai''], ps_header = ''Authorization'',
        ps_format = ''Bearer {key}'', defaultRef = ''env:OPENROUTER_API_KEY''\<rparr>),
     (''deepseek'', \<lparr>hosts = [''api.deepseek.com''], ps_header = ''Authorization'',
        ps_format = ''Bearer {key}'', defaultRef = ''env:DEEPSEEK_API_KEY''\<rparr>)]"

definition credRefSchemes :: "string list" where
  "credRefSchemes = [''env'', ''file'', ''vault'']"

definition ValidCredRef :: "string \<Rightarrow> bool" where
  "ValidCredRef ref = (case Cut (TrimSpace ref) CHR '':'' of (scheme, rest, ok) \<Rightarrow>
     ok \<and> scheme \<noteq> '''' \<and> rest \<noteq> '''' \<and> ToLower scheme \<in> set credRefSchemes)"

text \<open>\<open>sort.Strings\<close> orders bytewise.\<close>

fun string_le :: "string \<Rightarrow> string \<Rightarrow> bool" where
  "string_le [] t = True"
| "string_le (a # s) [] = False"
| "string_le (a # s) (b # t) \<longleftrightarrow> (of_char a :: nat) < of_char b \<or> a = b \<and> string_le s t"

fun insert_string :: "string \<Rightarrow> string list \<Rightarrow> string list" where
  "insert_string s [] = [s]"
| "insert_string s (t # ts) = (if string_le s t then s # t # ts else t # insert_string s ts)"

definition sort_Strings :: "string list \<Rightarrow> string list" where
  "sort_Strings ss = foldr insert_string ss []"

definition KnownProviders :: "string list" where
  "KnownProviders = sort_Strings (map fst builtinProviders)"

datatype provider_error = UnknownProvider string | LiteralSecret string

definition empty_entry :: swap_entry where
  "empty_entry = \<lparr>se_Type = '''', se_Domains = [], se_Header = '''', se_Format = '''', se_KeyRef = '''',
     se_TokenURL = '''', se_ClientIDRef = '''', se_ClientSecretRef = '''', se_Scopes = [],
     se_SigningKeyRef = '''', se_Claims = [], se_Algorithm = '''', se_TokenResponseField = '''',
     se_TokenTTLSeconds = 0, se_Name = ''''\<rparr>"

definition ProviderSwapEntry :: "string \<Rightarrow> string \<Rightarrow> provider_error + (swap_entry \<times> string list)" where
  "ProviderSwapEntry provider keyRef = (case map_of builtinProviders (ToLower (TrimSpace provider)) of
       None \<Rightarrow> Inl (UnknownProvider provider)
     | Some p \<Rightarrow> (let ref = TrimSpace keyRef in
         if ref \<noteq> '''' \<and> \<not> ValidCredRef ref then Inl (LiteralSecret ref)
         else Inr (empty_entry\<lparr>se_Type := ''static'', se_Domains := hosts p, se_Header := ps_header p,
                     se_Format := ps_format p, se_KeyRef := (if ref = '''' then defaultRef p else ref)\<rparr>,
                   hosts p)))"

section \<open>The swap table\<close>

subsection \<open>A leading dot survives normalisation\<close>

lemma lower_char_dot [simp]: "lower_char c = CHR ''.'' \<longleftrightarrow> c = CHR ''.''"
proof (cases "65 \<le> (of_char c :: nat) \<and> (of_char c :: nat) \<le> 90")
  case True
  then have "(of_char (lower_char c) :: nat) = of_char c + 32"
    by (simp add: lower_char_def Let_def)
  with True show ?thesis by auto
next
  case False
  then have "lower_char c = c" by (auto simp: lower_char_def Let_def)
  then show ?thesis by simp
qed

lemma hd_trim_right: "trim_right P s \<noteq> [] \<Longrightarrow> hd (trim_right P s) = hd s"
  using trim_right_decomp [of s P] by (metis hd_append2)

lemma HasPrefix_dot: "HasPrefix s ''.'' \<longleftrightarrow> s \<noteq> [] \<and> hd s = CHR ''.''"
  by (cases s) (auto simp: HasPrefix_def)

lemma leading_dot_normalizeHost:
  assumes "normalizeHost raw \<noteq> ''''"
  shows "HasPrefix (TrimSpace raw) ''.'' \<longleftrightarrow> HasPrefix (normalizeHost raw) ''.''"
proof -
  let ?l = "ToLower (TrimSpace raw)"
  have n: "normalizeHost raw = trim_right (\<lambda>c. c \<in> set ''.'') ?l"
    by (simp add: normalizeHost_def TrimRight_def)
  have ne: "TrimSpace raw \<noteq> []"
    using assms by (auto simp: n trim_right_def ToLower_def)
  have "hd (normalizeHost raw) = hd ?l"
    using assms unfolding n by (rule hd_trim_right)
  also have "\<dots> = lower_char (hd (TrimSpace raw))"
    using ne by (simp add: ToLower_def hd_map)
  finally show ?thesis using ne assms by (simp add: HasPrefix_dot)
qed

lemma dot_TrimPrefix: "HasPrefix h ''.'' \<Longrightarrow> ''.'' @ TrimPrefix h ''.'' = h"
  by (cases h) (auto simp: HasPrefix_def TrimPrefix_def)

subsection \<open>What a loaded table holds\<close>

text \<open>Every indexed entry is valid, and its key is one of its own normalised domains.\<close>

definition table_inv :: "(string \<Rightarrow> url option) \<Rightarrow> swap_table \<Rightarrow> bool" where
  "table_inv up t \<longleftrightarrow>
     list_all (\<lambda>(k, e). validateSwapEntry up e = None \<and> k \<noteq> '''' \<and> \<not> HasPrefix k ''.'' \<and>
       k \<in> normalizeHost ` set (se_Domains e)) (st_exact t) \<and>
     list_all (\<lambda>(k, e). validateSwapEntry up e = None \<and> HasPrefix k ''.'' \<and>
       k \<in> normalizeHost ` set (se_Domains e)) (st_suffix t)"

lemma list_all_update:
  "list_all P m \<Longrightarrow> P (k, v) \<Longrightarrow> list_all P (AList.update k v m)"
  by (induction m) auto

definition table_keys :: "swap_table \<Rightarrow> string set" where
  "table_keys t = fst ` set (st_exact t) \<union> fst ` set (st_suffix t)"

lemma index_domains_step:
  assumes "normalizeHost raw \<noteq> ''''"
  shows "index_domains e (raw # rest) t = index_domains e rest
    (if HasPrefix (normalizeHost raw) ''.''
     then t\<lparr>st_suffix := AList.update (normalizeHost raw) e (st_suffix t)\<rparr>
     else t\<lparr>st_exact := AList.update (normalizeHost raw) e (st_exact t)\<rparr>)"
  using assms dot_TrimPrefix [of "normalizeHost raw"]
  by (simp add: Let_def leading_dot_normalizeHost)

lemma index_domains_cases:
  assumes "index_domains e (raw # rest) t = Inr t'"
  obtains "normalizeHost raw \<noteq> ''''"
    "index_domains e rest
      (if HasPrefix (normalizeHost raw) ''.''
       then t\<lparr>st_suffix := AList.update (normalizeHost raw) e (st_suffix t)\<rparr>
       else t\<lparr>st_exact := AList.update (normalizeHost raw) e (st_exact t)\<rparr>) = Inr t'"
proof -
  have "normalizeHost raw \<noteq> ''''" using assms by (auto simp: Let_def)
  with assms that show thesis by (metis index_domains_step)
qed

declare index_domains.simps(2) [simp del]

lemma index_domains_inv:
  "index_domains e ds t = Inr t' \<Longrightarrow> table_inv up t \<Longrightarrow> validateSwapEntry up e = None \<Longrightarrow>
   set ds \<subseteq> set (se_Domains e) \<Longrightarrow> table_inv up t'"
proof (induction ds arbitrary: t)
  case (Cons raw rest)
  from Cons.prems(1) show ?case
  proof (rule index_domains_cases)
    assume ne: "normalizeHost raw \<noteq> ''''" and r: "index_domains e rest
      (if HasPrefix (normalizeHost raw) ''.''
       then t\<lparr>st_suffix := AList.update (normalizeHost raw) e (st_suffix t)\<rparr>
       else t\<lparr>st_exact := AList.update (normalizeHost raw) e (st_exact t)\<rparr>) = Inr t'"
    show "table_inv up t'"
      by (rule Cons.IH [OF r]) (use Cons.prems ne in \<open>auto simp: table_inv_def intro!: list_all_update\<close>)
  qed
qed simp

lemma index_domains_keys:
  "index_domains e ds t = Inr t' \<Longrightarrow> table_keys t' = table_keys t \<union> normalizeHost ` set ds"
proof (induction ds arbitrary: t)
  case (Cons raw rest)
  from Cons.prems(1) show ?case
    by (rule index_domains_cases)
      (drule Cons.IH, auto simp: table_keys_def dom_update split: if_splits)
qed simp

lemma index_swaps_inv: "index_swaps up cfg t = Inr t' \<Longrightarrow> table_inv up t \<Longrightarrow> table_inv up t'"
proof (induction up cfg t rule: index_swaps.induct)
  case (2 up name entry rest t)
  then show ?case
    by (auto simp: Let_def split: option.splits if_splits sum.splits
        dest!: index_domains_inv [where up = up])
qed simp

lemma index_swaps_keys:
  "index_swaps up cfg t = Inr t' \<Longrightarrow>
   table_keys t' = table_keys t \<union> (\<Union>(n, e) \<in> set cfg. normalizeHost ` set (se_Domains e))"
proof (induction up cfg t rule: index_swaps.induct)
  case (2 up name entry rest t)
  then show ?case
    by (auto simp: Let_def split: option.splits if_splits sum.splits dest!: index_domains_keys)
qed simp

lemma LoadSwapTable_inv: "LoadSwapTable up yaml data = Inr t \<Longrightarrow> table_inv up t"
  by (auto simp: LoadSwapTable_def table_inv_def split: yaml_docs.splits yaml_next.splits
      dest!: index_swaps_inv)

subsection \<open>Match\<close>

lemma Match_SomeE:
  assumes "Match t h = Some e"
  obtains (exact) "map_of (st_exact t) (normalizeHost h) = Some e" "normalizeHost h \<noteq> ''''"
  | (suffix) s where "(s, e) \<in> set (st_suffix t)" "suffix_hit (normalizeHost h) s" "normalizeHost h \<noteq> ''''"
  using assms unfolding Match_def
  by (auto simp: Let_def suffix_hit_def find_Some_iff split: if_splits option.splits)
    (metis nth_mem)+

lemma Match_listed:
  assumes "table_inv up t" "Match t h = Some e"
  shows "validateSwapEntry up e = None \<and> host_listed (se_Domains e) h"
  using assms(2)
proof (cases rule: Match_SomeE)
  case exact
  with assms(1) show ?thesis
    by - (drule map_of_SomeD, fastforce simp: table_inv_def list_all_iff host_listed_def list_ex_iff entry_matches_def)
next
  case (suffix s)
  with assms(1) have "validateSwapEntry up e = None" "HasPrefix s ''.''"
      "s \<in> normalizeHost ` set (se_Domains e)"
    by (auto simp: table_inv_def list_all_iff)
  with suffix show ?thesis
    by (auto simp: host_listed_def list_ex_iff entry_matches_def)
qed

lemma Match_None_iff:
  "Match t h = None \<longleftrightarrow> normalizeHost h = '''' \<or>
     (normalizeHost h \<notin> fst ` set (st_exact t) \<and> (\<forall>s \<in> fst ` set (st_suffix t). \<not> suffix_hit (normalizeHost h) s))"
  by (auto simp: Match_def Let_def suffix_hit_def find_None_iff map_of_eq_None_iff
      split: option.splits dest: map_of_SomeD) (force dest: map_of_SomeD)

interpretation swaps: host_index "\<lambda>t h. Match t h \<noteq> None" table_keys "\<lambda>t. \<exists>up. table_inv up t"
proof (unfold_locales, goal_cases)
  case (1 t h)
  then obtain up where "table_inv up t" by blast
  then have x: "\<And>k. k \<in> fst ` set (st_exact t) \<Longrightarrow> \<not> HasPrefix k ''.''"
    and s: "\<And>k. k \<in> fst ` set (st_suffix t) \<Longrightarrow> HasPrefix k ''.''"
    by (auto simp: table_inv_def list_all_iff)
  have "(\<exists>k \<in> table_keys t. entry_matches k (normalizeHost h)) \<longleftrightarrow>
      normalizeHost h \<in> fst ` set (st_exact t) \<or> (\<exists>k \<in> fst ` set (st_suffix t). suffix_hit (normalizeHost h) k)"
    unfolding table_keys_def bex_Un entry_matches_def using x s by (metis (no_types, lifting))
  then show ?case unfolding Match_None_iff by blast
qed

section \<open>The relay\<close>

primrec guest_requests :: "guest \<Rightarrow> http_request list" where
  "guest_requests (ReadFails err) = []"
| "guest_requests (Request req rest g) = req # guest_requests g"

text \<open>
  What may stand upstream for a request of the guest: the request without its request URI, and,
  when the connection's verified name has a swap entry, with the credential acquired for that
  entry in that entry's header.
\<close>

definition sent_as ::
  "'pk lib \<Rightarrow> env \<Rightarrow> string \<Rightarrow> swap_table option \<Rightarrow> http_request \<Rightarrow> http_request \<Rightarrow> bool" where
  "sent_as L v sni tbl req out \<longleftrightarrow>
     \<not> isDNSOverHTTPS req \<and>
     (case Option.bind tbl (\<lambda>t. Match t sni) of
        None \<Rightarrow> out = req\<lparr>rq_RequestURI := ''''\<rparr>
      | Some e \<Rightarrow> \<exists>c hdr val. fst (acquire L v e c) = Inr (hdr, val) \<and>
          out = req\<lparr>rq_Header := Header_Set hdr val (rq_Header req), rq_RequestURI := ''''\<rparr>)"

lemma prepare_request_sent:
  "prepare_request L v sni tbl req c = (Inr out, lg, c') \<Longrightarrow> sent_as L v sni tbl req out"
  by (auto simp: prepare_request_def sent_as_def split: if_splits option.splits prod.splits sum.splits)
    (metis fst_conv)+

text \<open>Every request of which some byte was offered upstream, the one a write failed on included.\<close>

definition up_attempts :: "relay_out \<Rightarrow> http_request list" where
  "up_attempts r = up_requests r @ (case ro_failed r of Some q \<Rightarrow> [q] | None \<Rightarrow> [])"

lemma relay_loop_sent:
  "\<exists>outs. up_attempts (relay_loop L vs up sni tbl n ws lg c g) = ws @ outs \<and>
     length outs \<le> length (guest_requests g) \<and>
     (\<forall>i < length outs. sent_as L (vs (n + i)) sni tbl (guest_requests g ! i) (outs ! i))"
proof (induction g arbitrary: n ws lg c)
  case (Request req rest g)
  obtain r lg' c' where p: "prepare_request L (vs n) sni tbl req c = (r, lg', c')"
    by (cases "prepare_request L (vs n) sni tbl req c")
  show ?case
  proof (cases r)
    case (Inr out)
    then have s: "sent_as L (vs n) sni tbl req out" using p prepare_request_sent by metis
    let ?r = "relay_loop L vs up sni tbl n ws lg c (Request req rest g)"
    have "up_attempts ?r = ws @ [out] \<or>
      ?r = relay_loop L vs up sni tbl (Suc n) (ws @ [out]) (lg @ lg') c' g"
      by (simp add: p Inr up_attempts_def split: option.split)
    then consider (stop) "up_attempts ?r = ws @ [out]"
      | (go_on) "?r = relay_loop L vs up sni tbl (Suc n) (ws @ [out]) (lg @ lg') c' g" by blast
    then show ?thesis
    proof cases
      case go_on
      obtain outs where o: "up_attempts ?r = (ws @ [out]) @ outs" "length outs \<le> length (guest_requests g)"
        "\<forall>i < length outs. sent_as L (vs (Suc n + i)) sni tbl (guest_requests g ! i) (outs ! i)"
        using Request.IH [of "Suc n" "ws @ [out]" "lg @ lg'" c'] unfolding go_on by blast
      then show ?thesis
        using s by (intro exI [of _ "out # outs"]) (auto simp: nth_Cons split: nat.splits)
    qed (use s in \<open>auto intro: exI [of _ "[out]"]\<close>)
  qed (simp add: p up_attempts_def)
qed (simp add: up_attempts_def)

lemma relayHTTPRequests_sent:
  assumes "i < length (up_attempts (relayHTTPRequests L vs up g sni c tbl))"
  shows "i < length (guest_requests g) \<and>
    sent_as L (vs i) sni tbl (guest_requests g ! i) (up_attempts (relayHTTPRequests L vs up g sni c tbl) ! i)"
  using relay_loop_sent [where n = 0 and ws = "[]" and lg = "[]" and L = L and vs = vs and up = up and sni = sni
      and tbl = tbl and c = c and g = g] assms
  unfolding relayHTTPRequests_def by auto

text \<open>Setting a header replaces every value the guest sent under that name, in any letter case.\<close>

lemma Header_Values_Set:
  "Header_Values (Header_Set k v h) k' =
     (if CanonicalHeaderKey k' = CanonicalHeaderKey k then [v] else Header_Values h k')"
  by (auto simp: Header_Values_def Header_Set_def)

lemma acquire_header: "fst (acquire L v e c) = Inr (hdr, val) \<Longrightarrow> hdr = headerOrDefault (se_Header e)"
  by (auto simp: acquire_def split: if_splits sum.splits prod.splits)

subsection \<open>Failing closed\<close>

lemma relay_loop_stops:
  assumes "\<And>v c. \<exists>err. fst (acquire L v e c) = Inl err" "Match t sni = Some e"
  shows "up_attempts (relay_loop L vs up sni (Some t) n ws lg c g) = ws"
proof (cases g)
  case (Request req rest g')
  show ?thesis
    using assms(1) [of "vs n" c]
    by (auto simp: Request prepare_request_def up_attempts_def assms(2)
        split: option.splits prod.splits sum.splits)
qed (simp add: up_attempts_def)

subsection \<open>The audit trail does not depend on a static secret\<close>

text \<open>Two environments that resolve the same references with the same errors.\<close>

definition same_shape :: "env \<Rightarrow> env \<Rightarrow> bool" where
  "same_shape v w \<longleftrightarrow> (case (Resolver v, Resolver w) of
       (None, None) \<Rightarrow> True
     | (Some r, Some r') \<Rightarrow> (\<forall>ref. case (r ref, r' ref) of
           (Inl a, Inl b) \<Rightarrow> a = b
         | (Inr x, Inr y) \<Rightarrow> (x = []) = (y = [])
         | _ \<Rightarrow> False)
     | _ \<Rightarrow> False)"

lemma same_shape_resolveStr:
  assumes "same_shape v w"
  shows "(\<exists>err. resolveStr v ref = Inl err \<and> resolveStr w ref = Inl err) \<or>
    (\<exists>x y. resolveStr v ref = Inr x \<and> resolveStr w ref = Inr y)"
proof (cases "Resolver v")
  case (Some r)
  with assms obtain r' where r': "Resolver w = Some r'"
    by (cases "Resolver w") (auto simp: same_shape_def)
  have "case (r ref, r' ref) of (Inl a, Inl b) \<Rightarrow> a = b
      | (Inr x, Inr y) \<Rightarrow> (x = []) = (y = []) | _ \<Rightarrow> False"
    using assms by (simp add: same_shape_def Some r')
  then show ?thesis
    by (cases "r ref"; cases "r' ref") (auto simp: resolveStr_def Some r')
qed (use assms in \<open>auto simp: same_shape_def resolveStr_def split: option.splits\<close>)

lemma prepare_request_blind:
  assumes "same_shape v w" "Option.bind tbl (\<lambda>t. Match t sni) = Some e" "se_Type e = ''static''"
  shows "\<exists>lg. (\<exists>r. prepare_request L v sni tbl req c = (Inl r, lg, c) \<and>
                   prepare_request L w sni tbl req c = (Inl r, lg, c)) \<or>
              (\<exists>x y. prepare_request L v sni tbl req c =
                       (Inr (req\<lparr>rq_Header := Header_Set (headerOrDefault (se_Header e)) x (rq_Header req),
                          rq_RequestURI := ''''\<rparr>), lg, c) \<and>
                     prepare_request L w sni tbl req c =
                       (Inr (req\<lparr>rq_Header := Header_Set (headerOrDefault (se_Header e)) y (rq_Header req),
                          rq_RequestURI := ''''\<rparr>), lg, c))"
  using same_shape_resolveStr [OF assms(1), of "se_KeyRef e"]
  by (auto simp: prepare_request_def acquire_def assms)

text \<open>An upstream whose write outcomes do not look at the request.\<close>

definition blind_upstream :: "upstream \<Rightarrow> bool" where
  "blind_upstream up \<longleftrightarrow> (\<forall>ws ws'. length ws = length ws' \<longrightarrow>
     (\<forall>r r'. write_err up ws r = write_err up ws' r') \<and> copy_err up ws = copy_err up ws')"

lemma headerHasToken_Set_other:
  "CanonicalHeaderKey k \<noteq> CanonicalHeaderKey name \<Longrightarrow>
   headerHasToken (Header_Set k v h) name tok = headerHasToken h name tok"
  by (simp add: headerHasToken_def Header_Values_Set)

lemma relay_loop_blind:
  assumes "\<And>n. same_shape (vs n) (us n)" "Option.bind tbl (\<lambda>t. Match t sni) = Some e" "se_Type e = ''static''"
    and hdr: "CanonicalHeaderKey (headerOrDefault (se_Header e)) \<noteq> CanonicalHeaderKey ''Connection''"
    and up: "blind_upstream up"
  shows "length ws = length ws' \<Longrightarrow>
    ro_log (relay_loop L vs up sni tbl n ws lg c g) = ro_log (relay_loop L us up sni tbl n ws' lg c g) \<and>
    ro_result (relay_loop L vs up sni tbl n ws lg c g) = ro_result (relay_loop L us up sni tbl n ws' lg c g)"
proof (induction g arbitrary: n ws ws' lg)
  case (Request req rest g)
  let ?set = "\<lambda>x. req\<lparr>rq_Header := Header_Set (headerOrDefault (se_Header e)) x (rq_Header req),
                          rq_RequestURI := ''''\<rparr>"
  have w: "write_err up ws (?set x) = write_err up ws' (?set y)" for x y
    using up Request.prems unfolding blind_upstream_def by blast
  have cp: "copy_err up (ws @ [?set x]) = copy_err up (ws' @ [?set y])" for x y
    using up Request.prems unfolding blind_upstream_def by simp
  have upg: "headerHasToken (rq_Header (?set x)) ''Connection'' ''upgrade'' =
      headerHasToken (rq_Header req) ''Connection'' ''upgrade''" for x
    using hdr by (simp add: headerHasToken_Set_other)
  obtain lg' where
    "(\<exists>r. prepare_request L (vs n) sni tbl req c = (Inl r, lg', c) \<and>
          prepare_request L (us n) sni tbl req c = (Inl r, lg', c)) \<or>
     (\<exists>x y. prepare_request L (vs n) sni tbl req c = (Inr (?set x), lg', c) \<and>
            prepare_request L (us n) sni tbl req c = (Inr (?set y), lg', c))"
    using prepare_request_blind [OF assms(1-3)] by metis
  then show ?case
  proof (elim disjE exE conjE)
    fix x y
    assume p: "prepare_request L (vs n) sni tbl req c = (Inr (?set x), lg', c)"
      "prepare_request L (us n) sni tbl req c = (Inr (?set y), lg', c)"
    show ?thesis
      using Request.IH [of "ws @ [?set x]" "ws' @ [?set y]" "Suc n" "lg @ lg'"] Request.prems upg
      by (cases "write_err up ws' (?set y)") (simp_all add: p w [of x y] cp [of x y])
  qed simp
qed simp

section \<open>Acquisition\<close>

text \<open>A minted token is served again, without resolver or endpoint, until the margin before expiry.\<close>

lemma acquireOAuth2CC_cached:
  assumes "validateOAuth2Entry (url_Parse L) e = None" "token_get (cacheKey e) (now_get v) c = Some tok"
  shows "acquireOAuth2CC L v e c = (Inr tok, c)"
  by (simp add: acquireOAuth2CC_def assms)

lemma acquireOAuth2CC_fresh:
  assumes "acquireOAuth2CC L v e c = (Inr tok, c')" "token_get (cacheKey e) (now_get v) c = None"
  obtains body expiry where "parseToken L (now_mint v) body e = Inr (tok, expiry)"
    "c' = token_set (cacheKey e) tok expiry c" "validateOAuth2Entry (url_Parse L) e = None"
  using assms
  by (auto simp: acquireOAuth2CC_def Let_def split: option.splits sum.splits token_reply.splits if_splits prod.splits)

lemma acquireOAuth2CC_reuse:
  assumes "acquireOAuth2CC L v e c = (Inr tok, c')" "token_get (cacheKey e) (now_get v) c = None"
  shows "\<exists>body expiry. parseToken L (now_mint v) body e = Inr (tok, expiry) \<and>
    (\<forall>w. now_get w + tokenSkew < expiry \<longrightarrow> acquireOAuth2CC L w e c' = (Inr tok, c'))"
proof (rule acquireOAuth2CC_fresh [OF assms])
  fix body expiry
  assume p: "parseToken L (now_mint v) body e = Inr (tok, expiry)"
    and c: "c' = token_set (cacheKey e) tok expiry c" and v: "validateOAuth2Entry (url_Parse L) e = None"
  have "now_get w + tokenSkew < expiry \<Longrightarrow> acquireOAuth2CC L w e c' = (Inr tok, c')" for w
    using acquireOAuth2CC_cached [OF v, of w c'] tok.hit_after_insert [of "now_get w" expiry "cacheKey e" tok c]
    by (simp add: c)
  with p show ?thesis by blast
qed

lemma parseToken_nonempty: "parseToken L now body e = Inr (tok, expiry) \<Longrightarrow> tok \<noteq> ''''"
  by (auto simp: parseToken_def Let_def split: if_splits option.splits prod.splits)

lemma wrap64_id: "- (2 ^ 63) \<le> i \<Longrightarrow> i < 2 ^ 63 \<Longrightarrow> wrap64 i = i"
  by (simp add: wrap64_def)

lemma map_of_merge_claims_exp: "map_of (merge_claims v cs claims) ''exp'' = map_of claims ''exp''"
  by (induction v cs claims rule: merge_claims.induct) auto

lemma jwt_claims_exp: "map_of (jwt_claims v e) ''exp'' = Some (CInt (Unix (now_mint v + seconds (jwt_ttl e))))"
  by (simp add: jwt_claims_def Let_def map_of_merge_claims_exp)

section \<open>Built-in providers\<close>

lemma ValidCredRef_nonblank: "ValidCredRef r \<Longrightarrow> TrimSpace r \<noteq> ''''"
  by (auto simp: ValidCredRef_def Cut_def split: if_splits)

lemma builtinProviders_wf:
  "map_of builtinProviders n = Some p \<Longrightarrow>
   ValidCredRef (defaultRef p) \<and> hosts p \<noteq> [] \<and> list_all (\<lambda>h. normalizeHost h = h \<and> h \<noteq> '''') (hosts p)"
proof -
  have "list_all (\<lambda>(n, p). ValidCredRef (defaultRef p) \<and> hosts p \<noteq> [] \<and>
      list_all (\<lambda>h. normalizeHost h = h \<and> h \<noteq> '''') (hosts p)) builtinProviders"
    by code_simp
  then show "map_of builtinProviders n = Some p \<Longrightarrow> ?thesis"
    by (auto simp: list_all_iff dest!: map_of_SomeD)
qed

lemma ProviderSwapEntry_cases:
  assumes "ProviderSwapEntry provider keyRef = Inr (e, hs)"
  obtains p where "map_of builtinProviders (ToLower (TrimSpace provider)) = Some p"
    "se_Type e = ''static''" "se_Domains e = hosts p" "hs = hosts p" "se_TokenTTLSeconds e = 0"
    "ValidCredRef (se_KeyRef e)"
proof (cases "map_of builtinProviders (ToLower (TrimSpace provider))")
  case (Some p)
  show thesis
  proof (rule that [OF Some])
    show "ValidCredRef (se_KeyRef e)"
      using assms builtinProviders_wf [OF Some]
      by (auto simp: ProviderSwapEntry_def Some Let_def split: if_splits)
  qed (use assms in \<open>auto simp: ProviderSwapEntry_def empty_entry_def Some Let_def split: if_splits\<close>)
qed (use assms in \<open>simp add: ProviderSwapEntry_def\<close>)

end
