(* ===== verification/Brain.thy ===== *)
theory Brain
  imports Swap
begin

text \<open>
  The decision core every transport shares (internal/egress/brain.go) and the structured fetch of
  the wasm sandbox (fetch.go). \<open>Evaluate\<close> is the one decision; \<open>Fetch\<close> drives it for a request whose
  HTTP client the host owns.

  A nil \<open>*Policy\<close> is \<^term>\<open>None\<close>: looking a non-empty host up in it panics. The secret resolver, the
  clock and the token endpoint are in the environment of \<open>Swap\<close>; the DNS resolver and the HTTP client
  of \<open>Fetch\<close> are arguments.
\<close>

section \<open>mediator.go: limits and modes\<close>

record limits =
  MaxBytesPerSec :: int
  MaxTotalBytes :: int
  MaxConcurrentConns :: int

definition egressModeMITM :: string where "egressModeMITM = ''mitm''"
definition egressModeBroker :: string where "egressModeBroker = ''broker''"

definition allowsBroad :: "string \<Rightarrow> bool" where
  "allowsBroad mode \<longleftrightarrow> mode = egressModeBroker \<or> mode = egressModeMITM"

section \<open>brain.go\<close>

record brain =
  Mode :: string
  AllowlistLocked :: bool
  Policy :: "policy option"
  Swaps :: "swap_table option"
  Limits :: limits

record verdict =
  Allowed :: bool
  Unlisted :: bool
  Inside :: bool
  VReason :: string

text \<open>A method call on a possibly nil \<open>*Policy\<close>.\<close>

definition policy_AllowHost :: "policy option \<Rightarrow> string \<Rightarrow> decision go" where
  "policy_AllowHost p host =
     (if normalizeHost host = '''' then Some \<lparr>Allow = False, Reason = ''empty host''\<rparr>
      else map_option (\<lambda>p. AllowHost p host) p)"

fun try_candidates :: "policy option \<Rightarrow> string \<Rightarrow> decision \<Rightarrow> string list \<Rightarrow> decision go" where
  "try_candidates p host d [] = Some d"
| "try_candidates p host d (c # cs) =
     (if c = '''' \<or> c = host then try_candidates p host d cs
      else do { cd \<leftarrow> policy_AllowHost p c; if Allow cd then Some cd else try_candidates p host d cs })"

definition Evaluate :: "brain \<Rightarrow> string \<Rightarrow> string list \<Rightarrow> addr \<Rightarrow> bool \<Rightarrow> verdict go" where
  "Evaluate b host candidates dstIP passthrough = do {
     d0 \<leftarrow> policy_AllowHost (Policy b) host;
     d \<leftarrow> (if \<not> Allow d0 then try_candidates (Policy b) host d0 candidates else Some d0);
     let inside = allowsBroad (Mode b) \<and> isInsideAddr dstIP;
     let broad = allowsBroad (Mode b) \<and> \<not> AllowlistLocked b;
     let allowed = Allow d \<or> (broad \<and> \<not> inside);
     let unlisted = allowed \<and> \<not> Allow d \<and> \<not> passthrough;
     Some \<lparr>Allowed = allowed, Unlisted = unlisted, Inside = inside, VReason = Reason d\<rparr> }"

definition AuditDeny :: "verdict \<Rightarrow> (string \<times> audit_value) list \<Rightarrow> audit_event" where
  "AuditDeny v fields0 =
     (let fields = set_field ''reason'' (AStr (VReason v)) fields0;
          fields = (if map_of fields ''signal'' = None
                    then set_field ''signal'' (AStr SignalDenied) fields else fields)
      in if Inside v
         then Log ''egress_internal_deny''
                (set_field ''internal'' (ABool True)
                  (set_field ''reason'' (AStr ''inside: internal destination denied'') fields))
         else Log ''egress_deny'' fields)"

datatype swap_for = NoSwap | SwapFailed swap_error | Swapped string string

definition SwapFor ::
  "'pk lib \<Rightarrow> env \<Rightarrow> brain \<Rightarrow> token_cache \<Rightarrow> string \<Rightarrow> swap_for \<times> audit_event list \<times> token_cache" where
  "SwapFor L v b cache host = (case Option.bind (Swaps b) (\<lambda>t. Match t host) of
       None \<Rightarrow> (NoSwap, [], cache)
     | Some e \<Rightarrow> (case acquire L v e cache of
           (Inl aerr, c) \<Rightarrow>
             (SwapFailed aerr,
              [Log ''egress_swap_error'' [(''host'', AStr host), (''swap'', AStr (se_Name e)),
                (''type'', AStr (se_Type e)), (''error'', AStr (Error_text L aerr))]], c)
         | (Inr (hdr, val), c) \<Rightarrow>
             (Swapped hdr val,
              [Log ''egress_swap'' [(''host'', AStr host), (''swap'', AStr (se_Name e)),
                (''type'', AStr (se_Type e))]], c)))"

section \<open>fetch.go\<close>

record fetch_request =
  fq_Method :: string
  fq_URL :: string
  fq_Header :: "(string, string) gomap"
  fq_Body :: bytes

record fetch_response =
  fr_Status :: int
  fr_Header :: "(string, string) gomap"
  fr_Body :: bytes
  fr_Denied :: bool
  fr_Reason :: string

abbreviation fetch_status :: "int \<Rightarrow> bool \<Rightarrow> string \<Rightarrow> fetch_response" where
  "fetch_status n denied reason \<equiv>
     \<lparr>fr_Status = n, fr_Header = [], fr_Body = [], fr_Denied = denied, fr_Reason = reason\<rparr>"

definition url_Port :: "url \<Rightarrow> string" where
  "url_Port u = (let h = url_Host u in case LastIndexByte h CHR '':'' of
       Some i \<Rightarrow> if validOptionalPort (drop i h) then drop (Suc i) h else ''''
     | None \<Rightarrow> '''')"

text \<open>The accumulator is a \<open>uint32\<close>; it never wraps because the loop leaves at 65535.\<close>

fun portU16_loop :: "32 word \<Rightarrow> string \<Rightarrow> 16 word" where
  "portU16_loop n [] = ucast n"
| "portU16_loop n (c # cs) =
     (case digit_val c of
        None \<Rightarrow> 0
      | Some d \<Rightarrow> (let n = n * 10 + of_nat d in if n > 65535 then 0 else portU16_loop n cs))"

definition portU16 :: "string \<Rightarrow> 16 word" where
  "portU16 p = portU16_loop 0 p"

text \<open>
  What \<open>issue\<close> hands to the HTTP client, and what comes back: an error, or a status, headers and a
  body of which reading may fail.
\<close>

record out_request =
  or_Method :: string
  or_URL :: url
  or_Header :: header
  or_Body :: bytes
  or_pinned :: string
  or_ServerName :: string

datatype http_reply = HttpError string | HttpReply int "(string, string) gomap" bytes "string option"

record net_env =
  LookupNetIP :: "string \<Rightarrow> string + addr list"
  NewRequest_err :: "string \<Rightarrow> url \<Rightarrow> string option"
  client_Do :: "out_request \<Rightarrow> http_reply"

definition resolveConnectIP :: "net_env \<Rightarrow> string \<Rightarrow> string + addr" where
  "resolveConnectIP N host = (case ParseAddr host of
       Some ip \<Rightarrow> Inr (Unmap ip)
     | None \<Rightarrow> (case LookupNetIP N host of
           Inl err \<Rightarrow> Inl err
         | Inr ips \<Rightarrow> (case ips of [] \<Rightarrow> Inl ''no addresses'' | ip # _ \<Rightarrow> Inr (Unmap ip))))"

datatype apply_swap = SwapErr | SwapMatched bool "(string, string) gomap"

definition applySwap ::
  "'pk lib \<Rightarrow> env \<Rightarrow> brain \<Rightarrow> token_cache \<Rightarrow> string \<Rightarrow> string \<Rightarrow> (string, string) gomap \<Rightarrow>
   apply_swap \<times> audit_event list \<times> token_cache" where
  "applySwap L v b cache scheme host header = (case SwapFor L v b cache host of
       (NoSwap, lg, c) \<Rightarrow> (SwapMatched False header, lg, c)
     | (SwapFailed err, lg, c) \<Rightarrow> (SwapErr, lg, c)
     | (Swapped hdr val, lg, c) \<Rightarrow>
         (SwapMatched True (if scheme = ''https'' then AList.update hdr val header else header), lg, c))"

definition out_header :: "(string, string) gomap \<Rightarrow> header" where
  "out_header h = fold (\<lambda>(k, val) acc. Header_Set k val acc) h []"

text \<open>The result also records the request the client was given, if any.\<close>

definition issue ::
  "net_env \<Rightarrow> brain \<Rightarrow> fetch_request \<Rightarrow> url \<Rightarrow> (string, string) gomap \<Rightarrow> addr_port \<Rightarrow>
   (string + fetch_response \<times> nat) \<times> out_request option" where
  "issue N b req u header dst =
     (let method = (if fq_Method req = '''' then ''GET'' else fq_Method req) in
      case NewRequest_err N method u of
        Some err \<Rightarrow> (Inl err, None)
      | None \<Rightarrow>
          (let hreq = \<lparr>or_Method = method, or_URL = u, or_Header = out_header header, or_Body = fq_Body req,
                       or_pinned = ap_String dst, or_ServerName = Hostname u\<rparr>;
               limit = MaxTotalBytes (Limits b)
           in (case client_Do N hreq of
                 HttpError err \<Rightarrow> (Inl err, Some hreq)
               | HttpReply status hdr body rerr \<Rightarrow>
                   (let data = (if limit > 0 then take (nat (wrap64 (limit + 1))) body else body) in
                    case rerr of
                      Some err \<Rightarrow> (Inl err, Some hreq)
                    | None \<Rightarrow> (Inr (\<lparr>fr_Status = status, fr_Header = hdr, fr_Body = data, fr_Denied = False,
                                    fr_Reason = ''''\<rparr>, length data), Some hreq)))))"

record fetch_out =
  fo_resp :: fetch_response
  fo_fault :: bool
  fo_log :: "audit_event list"
  fo_issued :: "out_request option"
  fo_cache :: token_cache

definition fetch_done :: "fetch_response \<Rightarrow> audit_event list \<Rightarrow> token_cache \<Rightarrow> fetch_out" where
  "fetch_done r lg c = \<lparr>fo_resp = r, fo_fault = False, fo_log = lg, fo_issued = None, fo_cache = c\<rparr>"

text \<open>From the allowed verdict on: the swap, the allow record, the round trip.\<close>

definition fetch_allowed ::
  "'pk lib \<Rightarrow> env \<Rightarrow> net_env \<Rightarrow> brain \<Rightarrow> token_cache \<Rightarrow> fetch_request \<Rightarrow> url \<Rightarrow> string \<Rightarrow> addr_port \<Rightarrow> verdict \<Rightarrow> fetch_out" where
  "fetch_allowed L v N b cache req u host dst vd =
     (case applySwap L v b cache (url_Scheme u) host (fq_Header req) of
        (SwapErr, lg, c) \<Rightarrow> fetch_done (fetch_status 502 False ''credential unavailable'') lg c
      | (SwapMatched matched header, lg, c) \<Rightarrow>
          if matched \<and> url_Scheme u \<noteq> ''https'' then
            fetch_done (fetch_status 403 True ''plaintext credential refused'')
              (lg @ [Log ''egress_swap_error'' [(''host'', AStr host),
                 (''error'', AStr ''refusing to send swapped credential over plaintext http'')]]) c
          else
            (let base = [(''host'', AStr host), (''dst'', AStr (ap_String dst))];
                 shape = [(''shape'', AStr ''fetch'')];
                 lg1 = lg @ [Log ''egress_allow''
                   (base @ shape @ (if Unlisted vd then [(''unlisted'', ABool True)] else []))];
                 limit = MaxTotalBytes (Limits b)
             in (case issue N b req u header dst of
                   (Inl err, issued) \<Rightarrow>
                     (fetch_done (fetch_status 502 False ''upstream error'')
                       (lg1 @ [Log ''egress_fetch_error'' (base @ [(''error'', AStr err)])]) c)\<lparr>fo_issued := issued\<rparr>
                 | (Inr (resp, n), issued) \<Rightarrow>
                     if limit > 0 \<and> int n > limit then
                       (fetch_done (fetch_status 502 False ''response too large'')
                         (lg1 @ [Log ''egress_cap_exceeded'' (base @ [(''proto'', AStr ''tcp''),
                            (''reason'', AStr ''volume''), (''limit'', AInt limit)])]) c)\<lparr>fo_issued := issued\<rparr>
                     else
                       (fetch_done resp
                         (lg1 @ [Log ''egress_close'' (base @ shape @ [(''bytes'', AInt (int n))])]) c)\<lparr>fo_issued := issued\<rparr>)))"

definition Fetch ::
  "'pk lib \<Rightarrow> env \<Rightarrow> net_env \<Rightarrow> brain \<Rightarrow> token_cache \<Rightarrow> fetch_request \<Rightarrow> fetch_out go" where
  "Fetch L v N b cache req =
     (let invalid = (fetch_done (fetch_status 400 False ''invalid url'') [] cache)\<lparr>fo_fault := True\<rparr> in
      case url_Parse L (TrimSpace (fq_URL req)) of
        None \<Rightarrow> Some invalid
      | Some u \<Rightarrow>
          if url_Host u = '''' \<or> (url_Scheme u \<noteq> ''http'' \<and> url_Scheme u \<noteq> ''https'') then Some invalid
          else
            (let host = Hostname u;
                 port = (if url_Port u = '''' then (if url_Scheme u = ''https'' then ''443'' else ''80'') else url_Port u)
             in do {
               d \<leftarrow> (if \<not> allowsBroad (Mode b) \<or> AllowlistLocked b
                     then policy_AllowHost (Policy b) host
                     else Some \<lparr>Allow = True, Reason = ''''\<rparr>);
               if \<not> Allow d then
                 Some (fetch_done (fetch_status 403 True (Reason d))
                   [AuditDeny \<lparr>Allowed = False, Unlisted = False, Inside = False, VReason = Reason d\<rparr>
                     [(''host'', AStr host), (''shape'', AStr ''fetch'')]] cache)
               else (case resolveConnectIP N host of
                   Inl err \<Rightarrow> Some (fetch_done (fetch_status 502 False ''resolve failed'')
                     [Log ''egress_fetch_error'' [(''host'', AStr host), (''stage'', AStr ''resolve''),
                        (''error'', AStr err)]] cache)
                 | Inr connectIP \<Rightarrow> do {
                     let dst = AddrPort connectIP (portU16 port);
                     vd \<leftarrow> Evaluate b host [] connectIP False;
                     if \<not> Allowed vd then
                       Some (fetch_done (fetch_status 403 True
                           (if Inside vd then ''inside: internal destination denied'' else VReason vd))
                         [AuditDeny vd [(''host'', AStr host), (''dst'', AStr (ap_String dst)),
                            (''shape'', AStr ''fetch'')]] cache)
                     else Some (fetch_allowed L v N b cache req u host dst vd) }) }))"

section \<open>The decision\<close>

text \<open>Some identity of the destination is allowlisted.\<close>

definition granted :: "policy \<Rightarrow> string list \<Rightarrow> bool" where
  "granted p ids \<longleftrightarrow> list_ex (\<lambda>h. Allow (AllowHost p h)) ids"

text \<open>The looser grant of an unlocked mediating mode: any address that is not inside.\<close>

definition broad_grant :: "brain \<Rightarrow> addr \<Rightarrow> bool" where
  "broad_grant b ip \<longleftrightarrow> allowsBroad (Mode b) \<and> \<not> AllowlistLocked b \<and> \<not> isInsideAddr ip"

lemma policy_AllowHost_Some [simp]: "policy_AllowHost (Some p) h = Some (AllowHost p h)"
  by (simp add: policy_AllowHost_def AllowHost_def)

lemma AllowHost_empty [simp]: "\<not> Allow (AllowHost p '''')"
  by (simp add: AllowHost_def normalizeHost_def strings_defs)

lemma try_candidates_Some:
  "\<exists>d'. try_candidates (Some p) host d cs = Some d' \<and>
     (Allow d' \<longleftrightarrow> Allow d \<or> (\<exists>c \<in> set cs. c \<noteq> host \<and> Allow (AllowHost p c)))"
  by (induction cs) auto

text \<open>\<open>Evaluate\<close> does not panic on a configured policy, and this is its verdict.\<close>

lemma Evaluate_verdict:
  assumes "Policy b = Some p"
  shows "\<exists>r. Evaluate b host cs ip pt = Some
    \<lparr>Allowed = granted p (host # cs) \<or> broad_grant b ip,
     Unlisted = broad_grant b ip \<and> \<not> granted p (host # cs) \<and> \<not> pt,
     Inside = allowsBroad (Mode b) \<and> isInsideAddr ip, VReason = r\<rparr>"
proof (cases "Allow (AllowHost p host)")
  case True
  then show ?thesis
    by (simp add: Evaluate_def assms granted_def)
next
  case False
  obtain d where d: "try_candidates (Some p) host (AllowHost p host) cs = Some d"
    "Allow d \<longleftrightarrow> (\<exists>c \<in> set cs. c \<noteq> host \<and> Allow (AllowHost p c))"
    using try_candidates_Some [of p host "AllowHost p host" cs] False by auto
  have "Allow d \<longleftrightarrow> granted p (host # cs)"
    using d(2) False by (auto simp: granted_def list_ex_iff)
  then show ?thesis
    using False by (auto simp: Evaluate_def assms d(1) broad_grant_def)
qed

lemma Evaluate_SomeE:
  assumes "Policy b = Some p" "Evaluate b host cs ip pt = Some v"
  obtains "Allowed v \<longleftrightarrow> granted p (host # cs) \<or> broad_grant b ip"
    "Unlisted v \<longleftrightarrow> broad_grant b ip \<and> \<not> granted p (host # cs) \<and> \<not> pt"
    "Inside v \<longleftrightarrow> allowsBroad (Mode b) \<and> isInsideAddr ip"
  using Evaluate_verdict [OF assms(1), of host cs ip pt] assms(2) by auto

lemma Evaluate_locked:
  assumes "Policy b = Some p" "Evaluate b host cs ip pt = Some v" "AllowlistLocked b"
  shows "Allowed v \<longleftrightarrow> granted p (host # cs)"
  using assms by (auto elim!: Evaluate_SomeE simp: broad_grant_def)

lemma granted_listed:
  "NewPolicy es = Inr p \<Longrightarrow> granted p ids \<longleftrightarrow> (\<exists>h \<in> set ids. host_listed es h)"
  by (auto simp: granted_def list_ex_iff AllowHost_iff)

text \<open>A deny record always carries a signal and a reason, and keeps the transport's fields.\<close>

lemma AuditDeny_fields:
  assumes "k \<notin> {''reason'', ''signal'', ''internal''}"
  shows "map_of (ev_fields (AuditDeny v fs)) k = map_of fs k"
  using assms by (simp add: AuditDeny_def Let_def)

lemma AuditDeny_signal:
  "map_of (ev_fields (AuditDeny v fs)) ''signal'' =
     Some (case map_of fs ''signal'' of Some s \<Rightarrow> s | None \<Rightarrow> AStr SignalDenied)"
  by (simp add: AuditDeny_def Let_def split: option.splits)

section \<open>Fetch\<close>

lemma issue_issued:
  assumes "snd (issue N b req u header dst) = Some hr"
  shows "or_pinned hr = ap_String dst \<and> or_ServerName hr = Hostname u \<and> or_URL hr = u \<and>
    or_Header hr = out_header header"
  using assms
  by (auto simp: issue_def Let_def split: option.splits http_reply.splits)

text \<open>When the host has a swap entry, what is issued goes over https and carries the credential.\<close>

definition swap_respected :: "'pk lib \<Rightarrow> env \<Rightarrow> brain \<Rightarrow> string \<Rightarrow> fetch_request \<Rightarrow> out_request \<Rightarrow> bool" where
  "swap_respected L v b host req hr \<longleftrightarrow> (case Option.bind (Swaps b) (\<lambda>t. Match t host) of
       None \<Rightarrow> or_Header hr = out_header (fq_Header req)
     | Some e \<Rightarrow> url_Scheme (or_URL hr) = ''https'' \<and>
         (\<exists>c hdr val. fst (acquire L v e c) = Inr (hdr, val) \<and>
            or_Header hr = out_header (AList.update hdr val (fq_Header req))))"

lemma applySwap_respected:
  assumes "applySwap L v b c (url_Scheme u) host (fq_Header req) = (SwapMatched m header, lg, c')"
    "m \<longrightarrow> url_Scheme u = ''https''" "or_URL hr = u" "or_Header hr = out_header header"
  shows "swap_respected L v b host req hr"
proof (cases "Option.bind (Swaps b) (\<lambda>t. Match t host)")
  case None
  with assms show ?thesis by (auto simp: applySwap_def SwapFor_def swap_respected_def)
next
  case (Some e)
  obtain r c1 where a: "acquire L v e c = (r, c1)" by (cases "acquire L v e c")
  with assms Some obtain hdr val where r: "r = Inr (hdr, val)"
    by (cases r) (auto simp: applySwap_def SwapFor_def)
  with assms Some a have "m" "header = AList.update hdr val (fq_Header req)"
    by (auto simp: applySwap_def SwapFor_def split: if_splits)
  moreover have "fst (acquire L v e c) = Inr (hdr, val)" by (simp add: a r)
  ultimately show ?thesis using assms(2-4) Some by (auto simp: swap_respected_def)
qed

lemma fetch_allowed_issued:
  assumes "fo_issued (fetch_allowed L v N b c req u host dst vd) = Some hr"
  shows "or_pinned hr = ap_String dst \<and> or_ServerName hr = Hostname u \<and> or_URL hr = u \<and>
    swap_respected L v b host req hr"
proof -
  obtain r lg c' where a: "applySwap L v b c (url_Scheme u) host (fq_Header req) = (r, lg, c')"
    by (cases "applySwap L v b c (url_Scheme u) host (fq_Header req)")
  show ?thesis
  proof (cases r)
    case SwapErr
    with assms a show ?thesis by (simp add: fetch_allowed_def fetch_done_def)
  next
    case (SwapMatched m header)
    with assms a have m: "m \<longrightarrow> url_Scheme u = ''https''"
      and i: "snd (issue N b req u header dst) = Some hr"
      by (auto simp: fetch_allowed_def fetch_done_def Let_def split: if_splits prod.splits sum.splits)
    from issue_issued [OF i] applySwap_respected [OF a [unfolded SwapMatched] m] show ?thesis by simp
  qed
qed

lemma fetch_done_simps [simp]:
  "fo_issued (fetch_done r lg c) = None" "fo_resp (fetch_done r lg c) = r"
  by (simp_all add: fetch_done_def)

text \<open>Either the request was refused before any upstream, or it was allowed on the resolved address.\<close>

lemma Fetch_cases:
  assumes "Fetch L v N b c req = Some out"
  obtains (refused) "fo_issued out = None" "fr_Body (fo_resp out) = []"
  | (allowed) u ip port vd where "url_Parse L (TrimSpace (fq_URL req)) = Some u"
      "resolveConnectIP N (Hostname u) = Inr ip" "Evaluate b (Hostname u) [] ip False = Some vd"
      "Allowed vd" "out = fetch_allowed L v N b c req u (Hostname u) (AddrPort ip port) vd"
proof (cases "url_Parse L (TrimSpace (fq_URL req))")
  case None
  with assms refused show thesis by (auto simp: Fetch_def Let_def)
next
  case u: (Some u)
  let ?g = "if \<not> allowsBroad (Mode b) \<or> AllowlistLocked b then policy_AllowHost (Policy b) (Hostname u)
    else Some \<lparr>Allow = True, Reason = ''''\<rparr>"
  let ?vd = "\<lambda>ip. Evaluate b (Hostname u) [] ip False"
  show thesis
  proof (cases "url_Host u = '''' \<or> (url_Scheme u \<noteq> ''http'' \<and> url_Scheme u \<noteq> ''https'')")
    case True
    with assms u refused show thesis by (auto simp: Fetch_def Let_def)
  next
    case False
    with assms u obtain d where d: "?g = Some d"
      by (cases ?g) (simp_all add: Fetch_def Let_def)
    show thesis
    proof (cases "resolveConnectIP N (Hostname u)")
      case (Inl err)
      with assms u False d refused show thesis
        by (cases "Allow d") (auto simp: Fetch_def Let_def simp del: if_split)
    next
      case (Inr ip)
      show thesis
      proof (cases "Allow d")
        case True
        with assms u False d Inr obtain vd where vd: "?vd ip = Some vd"
          by (cases "?vd ip") (simp_all add: Fetch_def Let_def del: if_split)
        with assms u False d Inr True refused allowed [OF u Inr vd] show thesis
          by (cases "Allowed vd") (auto simp: Fetch_def Let_def simp del: if_split)
      qed (use assms u False d refused in \<open>auto simp: Fetch_def Let_def simp del: if_split\<close>)
    qed
  qed
qed

lemma Fetch_issued:
  assumes "Policy b = Some p" "Fetch L v N b c req = Some out" "fo_issued out = Some hr"
  shows "\<exists>u ip port. url_Parse L (TrimSpace (fq_URL req)) = Some u \<and>
    resolveConnectIP N (Hostname u) = Inr ip \<and> or_pinned hr = ap_String (AddrPort ip port) \<and>
    or_ServerName hr = Hostname u \<and>
    (Allow (AllowHost p (Hostname u)) \<or> broad_grant b ip) \<and>
    swap_respected L v b (Hostname u) req hr"
  using assms(2)
proof (cases rule: Fetch_cases)
  case (allowed u ip port vd)
  have "Allow (AllowHost p (Hostname u)) \<or> broad_grant b ip"
    using Evaluate_SomeE [OF assms(1) allowed(3)] allowed(4) by (auto simp: granted_def)
  moreover note fetch_allowed_issued [OF assms(3) [unfolded allowed(5)]]
  ultimately show ?thesis using allowed(1,2) by blast
qed (use assms(3) in simp)

lemma Fetch_no_panic: "Policy b = Some p \<Longrightarrow> \<exists>out. Fetch L v N b c req = Some out"
proof -
  assume p: "Policy b = Some p"
  show ?thesis
  proof (cases "url_Parse L (TrimSpace (fq_URL req))")
    case (Some u)
    show ?thesis
    proof (cases "resolveConnectIP N (Hostname u)")
      case (Inr ip)
      obtain vd where "Evaluate b (Hostname u) [] ip False = Some vd"
        using Evaluate_verdict [OF p, of "Hostname u" "[]" ip False] by blast
      with Some Inr p show ?thesis by (simp add: Fetch_def Let_def)
    qed (use Some p in \<open>simp add: Fetch_def Let_def\<close>)
  qed (simp add: Fetch_def)
qed

lemma issue_not_denied:
  "fst (issue N b req u header dst) = Inr (resp, n) \<Longrightarrow> \<not> fr_Denied resp \<and> n = length (fr_Body resp)"
  by (auto simp: issue_def Let_def split: option.splits http_reply.splits)

lemma fetch_allowed_cases:
  assumes out_def: "out = fetch_allowed L v N b c req u host dst vd"
  shows "fo_issued out = None \<and> fr_Body (fo_resp out) = [] \<or>
    \<not> fr_Denied (fo_resp out) \<and>
    (0 < MaxTotalBytes (Limits b) \<longrightarrow> int (length (fr_Body (fo_resp out))) \<le> MaxTotalBytes (Limits b))"
proof -
  obtain r lg c' where a: "applySwap L v b c (url_Scheme u) host (fq_Header req) = (r, lg, c')"
    by (cases "applySwap L v b c (url_Scheme u) host (fq_Header req)")
  show ?thesis
  proof (cases r)
    case (SwapMatched m header)
    obtain i iss where i: "issue N b req u header dst = (i, iss)" by fastforce
    show ?thesis
    proof (cases "m \<and> url_Scheme u \<noteq> ''https''")
      case True
      then show ?thesis by (simp add: out_def fetch_allowed_def a SwapMatched)
    next
      case False
      then show ?thesis
        using issue_not_denied [of N b req u header dst] a SwapMatched i
        by (cases i; cases "0 < MaxTotalBytes (Limits b) \<and> MaxTotalBytes (Limits b) < int (length (fr_Body (fst (projr i))))")
          (auto simp: out_def fetch_allowed_def fetch_done_def Let_def)
    qed
  qed (simp add: out_def fetch_allowed_def a)
qed

text \<open>A response the guest gets as denied was decided without contacting any upstream.\<close>

lemma Fetch_denied:
  assumes "Fetch L v N b c req = Some out" "fr_Denied (fo_resp out)"
  shows "fo_issued out = None"
  using assms(1)
proof (cases rule: Fetch_cases)
  case (allowed u ip port vd)
  then show ?thesis
    using fetch_allowed_cases [OF allowed(5)] assms(2) by auto
qed simp

text \<open>The body handed back never passes the cap.\<close>

lemma Fetch_body_cap:
  assumes "Fetch L v N b c req = Some out" "0 < MaxTotalBytes (Limits b)"
  shows "int (length (fr_Body (fo_resp out))) \<le> MaxTotalBytes (Limits b)"
  using assms(1)
proof (cases rule: Fetch_cases)
  case (allowed u ip port vd)
  then show ?thesis
    using fetch_allowed_cases [OF allowed(5)] assms(2) by auto
qed (use assms(2) in simp)

end
