(* ===== verification/ClientHello.thy ===== *)
theory ClientHello
  imports Policy
begin

text \<open>
  Reading the destination host off the first bytes of a connection: the TLS ClientHello parser
  (internal/egress/sni.go), the HTTP Host header and \<open>sniffHost\<close> (sniff.go).

  Every slice expression of the parser is the checked slice of \<open>Go_Prelude\<close>, so a result
  \<^term>\<open>None\<close> is a run-time panic and \<open>Some r\<close> is a return; \<open>r = None\<close> is the Go result
  \<open>("", false)\<close>. The two nested loops return from the middle of the function: \<open>Return\<close> is such
  a return and \<open>Fall\<close> is leaving the loop.
\<close>

section \<open>sni.go\<close>

definition skipVec8 :: "bytes \<Rightarrow> bytes option go" where
  "skipVec8 p =
     (if length p < 1 then Some None
      else do {
        n \<leftarrow> at p 0;
        p \<leftarrow> slice_from p 1;
        if length p < unat n then Some None
        else do { r \<leftarrow> slice_from p (unat n); Some (Some r) }
      })"

definition skipVec16 :: "bytes \<Rightarrow> bytes option go" where
  "skipVec16 p =
     (if length p < 2 then Some None
      else do {
        h \<leftarrow> slice_to p 2;
        n \<leftarrow> Uint16 h;
        p \<leftarrow> slice_from p 2;
        if length p < n then Some None
        else do { r \<leftarrow> slice_from p n; Some (Some r) }
      })"

datatype 'a flow = Return 'a | Fall

text \<open>The loop over the entries of a server_name list.\<close>

function name_loop :: "bytes \<Rightarrow> string option flow go" where
  "name_loop sn =
     (if length sn < 3 then Some Fall
      else case at sn 0 of None \<Rightarrow> None | Some nameType \<Rightarrow>
        (case Option.bind (slice sn 1 3) Uint16 of None \<Rightarrow> None | Some nlen \<Rightarrow>
          (case slice_from sn 3 of None \<Rightarrow> None | Some sn1 \<Rightarrow>
            (if length sn1 < nlen then Some (Return None)
             else case slice_to sn1 nlen of None \<Rightarrow> None | Some name \<Rightarrow>
               (case slice_from sn1 nlen of None \<Rightarrow> None | Some sn2 \<Rightarrow>
                 (if nameType = 0 then Some (Return (Some (go_string name)))
                  else name_loop sn2))))))"
  by pat_completeness auto
termination
  by (relation "measure length") (auto simp: slice_from_def split: if_splits)

text \<open>The loop over the extensions.\<close>

function ext_loop :: "bytes \<Rightarrow> string option go" where
  "ext_loop p =
     (if length p < 4 then Some None
      else case Option.bind (slice_to p 2) Uint16 of None \<Rightarrow> None | Some extType \<Rightarrow>
        (case Option.bind (slice p 2 4) Uint16 of None \<Rightarrow> None | Some l \<Rightarrow>
          (case slice_from p 4 of None \<Rightarrow> None | Some p1 \<Rightarrow>
            (if length p1 < l then Some None
             else case slice_to p1 l of None \<Rightarrow> None | Some ext \<Rightarrow>
               (case slice_from p1 l of None \<Rightarrow> None | Some p2 \<Rightarrow>
                 (if extType \<noteq> 0 then ext_loop p2
                  else if length ext < 2 then Some None
                  else case Option.bind (slice_to ext 2) Uint16 of None \<Rightarrow> None | Some listLen \<Rightarrow>
                    (if listLen \<noteq> length ext - 2 then Some None
                     else case Option.bind (slice_from ext 2) name_loop of None \<Rightarrow> None
                       | Some (Return r) \<Rightarrow> Some r
                       | Some Fall \<Rightarrow> ext_loop p2)))))))"
  by pat_completeness auto
termination
  by (relation "measure length") (auto simp: slice_from_def split: if_splits)

declare name_loop.simps [simp del] ext_loop.simps [simp del]

text \<open>From the extensions length on.\<close>

definition parse_extensions :: "bytes \<Rightarrow> string option go" where
  "parse_extensions p =
     (if length p < 2 then Some None
      else do {
        h \<leftarrow> slice_to p 2;
        extLen \<leftarrow> Uint16 h;
        p \<leftarrow> slice_from p 2;
        if length p < extLen then Some None
        else do { p \<leftarrow> slice_to p extLen; ext_loop p }
      })"

definition parseClientHelloHandshakeSNI :: "bytes \<Rightarrow> string option go" where
  "parseClientHelloHandshakeSNI rec0 =
     (if length rec0 < 4 then Some None
      else do {
        t \<leftarrow> at rec0 0;
        if t \<noteq> 1 then Some None
        else do {
          b1 \<leftarrow> at rec0 1; b2 \<leftarrow> at rec0 2; b3 \<leftarrow> at rec0 3;
          let handshakeLen = unat b1 * 65536 + unat b2 * 256 + unat b3;
          if length rec0 - 4 < handshakeLen then Some None
          else do {
            rc \<leftarrow> slice_to rec0 (4 + handshakeLen);
            p \<leftarrow> slice_from rc 4;
            if length p < 34 then Some None
            else do {
              p \<leftarrow> slice_from p 34;
              r \<leftarrow> skipVec8 p;
              (case r of None \<Rightarrow> Some None | Some p \<Rightarrow> do {
                r \<leftarrow> skipVec16 p;
                (case r of None \<Rightarrow> Some None | Some p \<Rightarrow> do {
                  r \<leftarrow> skipVec8 p;
                  (case r of None \<Rightarrow> Some None | Some p \<Rightarrow> parse_extensions p) }) })
            }
          }
        }
      })"

definition parseClientHelloSNI :: "bytes \<Rightarrow> string option go" where
  "parseClientHelloSNI b =
     (if length b < 5 then Some None
      else do {
        t \<leftarrow> at b 0;
        if t \<noteq> 0x16 then Some None
        else do {
          rc \<leftarrow> slice_from b 5;
          h \<leftarrow> slice b 3 5;
          recLen \<leftarrow> Uint16 h;
          if length rc < recLen then Some None
          else do { rc \<leftarrow> slice_to rc recLen; parseClientHelloHandshakeSNI rc }
        }
      })"

section \<open>sniff.go\<close>

definition host_of_line :: "string \<Rightarrow> string option" where
  "host_of_line line =
     (if 5 \<le> length line \<and> EqualFold (take 5 line) ''Host:''
      then let host = TrimSpace (drop 5 line) in
        Some (case LastIndexByte host CHR '':'' of
                None \<Rightarrow> host
              | Some i \<Rightarrow> if 0 < i then take i host else host)
      else None)"

fun first_host :: "string list \<Rightarrow> string" where
  "first_host [] = ''''"
| "first_host (line # rest) = (case host_of_line line of Some h \<Rightarrow> h | None \<Rightarrow> first_host rest)"

definition httpHostHeader :: "bytes \<Rightarrow> string" where
  "httpHostHeader b = first_host (split_crlf '''' (go_string b))"

definition maxTLSRecord :: nat where
  "maxTLSRecord = 2 ^ 14 + 5"

text \<open>
  The buffered reader of a connection: \<open>avail\<close> is what arrives before the deadline or the end of
  the stream, \<open>buffered\<close> how much of it the first read brought in. \<open>Peek n\<close> fails when fewer than
  \<open>n\<close> bytes arrive and when \<open>n\<close> passes the buffer size.
\<close>

record reader =
  avail :: bytes
  buffered :: nat

definition Peek :: "reader \<Rightarrow> nat \<Rightarrow> bytes option" where
  "Peek br n = (if n \<le> maxTLSRecord \<and> n \<le> length (avail br) then Some (take n (avail br)) else None)"

definition sniffHost :: "reader \<Rightarrow> addr_port \<Rightarrow> (string \<times> bool) go" where
  "sniffHost br dst = (let ip = addr_String (ap_addr dst) in
     case Peek br 1 of
       None \<Rightarrow> Some (ip, False)
     | Some first \<Rightarrow>
         if first \<noteq> [] \<and> hd first = 0x16 then
           (case Peek br 5 of
              None \<Rightarrow> Some (ip, True)
            | Some hdr \<Rightarrow> do {
                h \<leftarrow> slice hdr 3 5;
                n \<leftarrow> Uint16 h;
                (case Peek br (5 + n) of
                   None \<Rightarrow> Some (ip, True)
                 | Some full \<Rightarrow> do {
                     r \<leftarrow> parseClientHelloSNI full;
                     (case r of Some sni \<Rightarrow> Some (sni, True) | None \<Rightarrow> Some (ip, True)) }) })
         else
           (let peek = take (buffered br) (avail br); h = httpHostHeader peek in
            if h \<noteq> '''' then Some (h, False) else Some (ip, False)))"

section \<open>No panic\<close>

lemma take2_slice: "4 \<le> length p \<Longrightarrow> take 2 (drop 2 (take 4 p)) = take 2 (drop 2 p)"
  by (simp add: drop_take)

lemma name_loop_no_panic: "\<exists>r. name_loop sn = Some r"
proof (induction sn rule: name_loop.induct)
  case (1 sn)
  show ?case
  proof (cases "length sn < 3")
    case False
    then have "at sn 0 = Some (sn ! 0)" "slice_from sn 3 = Some (drop 3 sn)"
      "Option.bind (slice sn 1 3) Uint16 = Some (be_nat (take 2 (drop 1 (take 3 sn))))"
      by (auto simp: go_slice_defs)
    with False "1.IH" show ?thesis
      by (subst name_loop.simps) (auto simp: slice_to_def slice_from_def)
  qed (simp add: name_loop.simps)
qed

lemma ext_loop_no_panic: "\<exists>r. ext_loop p = Some r"
proof (induction p rule: ext_loop.induct)
  case (1 p)
  show ?case
  proof (cases "length p < 4")
    case False
    define l where "l = be_nat (take 2 (drop 2 (take 4 p)))"
    define p1 where "p1 = drop 4 p"
    from False have reads: "Option.bind (slice_to p 2) Uint16 = Some (be_nat (take 2 (take 2 p)))"
      "Option.bind (slice p 2 4) Uint16 = Some l" "slice_from p 4 = Some p1"
      by (simp_all add: go_slice_simps l_def p1_def)
    show ?thesis
    proof (cases "length p1 < l")
      case True
      with False reads show ?thesis by (subst ext_loop.simps) simp
    next
      case le: False
      have cut: "slice_to p1 l = Some (take l p1)" "slice_from p1 l = Some (drop l p1)"
        using le by (simp_all add: go_slice_simps)
      obtain r0 where r0: "name_loop (drop 2 (take l p1)) = Some r0"
        using name_loop_no_panic by blast
      show ?thesis
        using "1.IH" False reads le cut r0
        by (subst ext_loop.simps) (auto simp: go_slice_simps split: flow.splits)
    qed
  qed (simp add: ext_loop.simps)
qed

lemma skipVec8_no_panic: "\<exists>r. skipVec8 p = Some r"
  by (cases p) (auto simp: skipVec8_def go_slice_defs)

lemma skipVec16_no_panic: "\<exists>r. skipVec16 p = Some r"
  by (auto simp: skipVec16_def go_slice_defs)

lemma parse_extensions_no_panic: "\<exists>r. parse_extensions p = Some r"
  using ext_loop_no_panic by (auto simp: parse_extensions_def go_slice_defs)

lemma bind_no_panic: "\<exists>r. m = Some r \<Longrightarrow> (\<And>x. m = Some x \<Longrightarrow> \<exists>r. f x = Some r) \<Longrightarrow> \<exists>r. Option.bind m f = Some r"
  by auto

lemma case_no_panic: "(\<And>p. x = Some p \<Longrightarrow> \<exists>r. f p = Some r) \<Longrightarrow>
    \<exists>r. (case x of None \<Rightarrow> Some None | Some p \<Rightarrow> f p) = Some r"
  by (cases x) auto

lemma parseClientHelloHandshakeSNI_no_panic: "\<exists>r. parseClientHelloHandshakeSNI rc = Some r"
  unfolding parseClientHelloHandshakeSNI_def Let_def
  by (auto simp: go_slice_defs
      intro!: bind_no_panic case_no_panic skipVec8_no_panic skipVec16_no_panic
        parse_extensions_no_panic)

lemma parseClientHelloSNI_no_panic: "\<exists>r. parseClientHelloSNI b = Some r"
  unfolding parseClientHelloSNI_def
  by (auto simp: go_slice_defs intro!: parseClientHelloHandshakeSNI_no_panic)

lemma sniffHost_no_panic: "\<exists>r. sniffHost br dst = Some r"
proof -
  have "\<exists>a b. Option.bind (parseClientHelloSNI f)
      (case_option (Some (ip, True)) (\<lambda>sni. Some (sni, True))) = Some (a, b)" for f ip
    using parseClientHelloSNI_no_panic [of f] by (auto split: option.splits)
  then show ?thesis
    unfolding sniffHost_def Let_def
    by (auto simp: Peek_def go_slice_defs split: option.splits)
qed

section \<open>A well-formed ClientHello\<close>

text \<open>
  The wire form of RFC 8446, section 4.1.2: the specification the parser is measured against.
  \<open>pre\<close> are the extensions before server_name, \<open>post\<close> the ones after it.
\<close>

definition put_be24 :: "nat \<Rightarrow> bytes" where
  "put_be24 n = [of_nat (n div 65536), of_nat (n div 256), of_nat n]"

definition enc_ext :: "nat \<times> bytes \<Rightarrow> bytes" where
  "enc_ext x = put_be16 (fst x) @ put_be16 (length (snd x)) @ snd x"

definition enc_sni :: "string \<Rightarrow> bytes" where
  "enc_sni h = put_be16 (length h + 3) @ [0] @ put_be16 (length h) @ go_bytes h"

record client_hello =
  ch_random :: bytes
  ch_session :: bytes
  ch_suites :: bytes
  ch_compression :: bytes
  ch_pre :: "(nat \<times> bytes) list"
  ch_host :: string
  ch_post :: "(nat \<times> bytes) list"

definition ch_exts :: "client_hello \<Rightarrow> bytes" where
  "ch_exts c = concat (map enc_ext (ch_pre c @ [(0, enc_sni (ch_host c))] @ ch_post c))"

definition ch_body :: "client_hello \<Rightarrow> bytes" where
  "ch_body c = ch_random c
     @ [of_nat (length (ch_session c))] @ ch_session c
     @ put_be16 (length (ch_suites c)) @ ch_suites c
     @ [of_nat (length (ch_compression c))] @ ch_compression c
     @ put_be16 (length (ch_exts c)) @ ch_exts c"

definition enc_handshake :: "client_hello \<Rightarrow> bytes" where
  "enc_handshake c = [1] @ put_be24 (length (ch_body c)) @ ch_body c"

definition enc_record :: "client_hello \<Rightarrow> bytes" where
  "enc_record c = [0x16, 3, 1] @ put_be16 (length (enc_handshake c)) @ enc_handshake c"

definition ch_ok :: "client_hello \<Rightarrow> bool" where
  "ch_ok c \<longleftrightarrow> length (ch_random c) = 34 \<and> length (ch_session c) < 256
     \<and> length (ch_suites c) < 65536 \<and> length (ch_compression c) < 256
     \<and> list_all (\<lambda>(t, d). t \<noteq> 0 \<and> t < 65536 \<and> length d < 65536) (ch_pre c)
     \<and> length (ch_host c) < 65000 \<and> length (ch_exts c) < 65536"

lemma skipVec8_enc: "length v < 256 \<Longrightarrow> skipVec8 ([of_nat (length v)] @ v @ r) = Some (Some r)"
  by (simp add: skipVec8_def go_slice_defs unat_of_nat_byte)

lemma skipVec16_enc: "length v < 65536 \<Longrightarrow> skipVec16 (put_be16 (length v) @ v @ r) = Some (Some r)"
  by (simp add: skipVec16_def go_slice_defs be_nat_put_be16)

lemma name_loop_enc:
  assumes "length h < 65000"
  shows "name_loop ([0] @ put_be16 (length h) @ go_bytes h) = Some (Return (Some h))"
  using assms
  by (subst name_loop.simps) (simp add: go_slice_defs be_nat_put_be16)

lemma ext_loop_skip:
  assumes "t \<noteq> 0" "t < 65536" "length d < 65536"
  shows "ext_loop (enc_ext (t, d) @ r) = ext_loop r"
proof -
  have "drop 2 (take 4 (put_be16 t @ put_be16 (length d) @ d @ r)) = put_be16 (length d)"
    by simp
  with assms show ?thesis
    by (subst ext_loop.simps) (simp add: enc_ext_def go_slice_defs be_nat_put_be16)
qed

lemma ext_loop_skips:
  "list_all (\<lambda>(t, d). t \<noteq> 0 \<and> t < 65536 \<and> length d < 65536) xs \<Longrightarrow>
   ext_loop (concat (map enc_ext xs) @ r) = ext_loop r"
  by (induction xs) (auto simp: ext_loop_skip)

lemma length_enc_sni [simp]: "length (enc_sni h) = length h + 5"
  by (simp add: enc_sni_def)

lemma ext_loop_sni:
  assumes "length h < 65000"
  shows "ext_loop (enc_ext (0, enc_sni h) @ r) = Some (Some h)"
proof -
  have "drop 2 (take 4 (put_be16 0 @ put_be16 (length h + 5) @ enc_sni h @ r)) = put_be16 (length h + 5)"
    by simp
  moreover have "Option.bind (slice_to (enc_sni h) 2) Uint16 = Some (length h + 3)"
    using assms by (simp add: enc_sni_def go_slice_defs be_nat_put_be16)
  moreover have "Option.bind (slice_from (enc_sni h) 2) name_loop = Some (Return (Some h))"
    using name_loop_enc [OF assms] by (simp add: enc_sni_def go_slice_defs)
  ultimately show ?thesis
    using assms
    by (subst ext_loop.simps) (simp add: enc_ext_def go_slice_defs be_nat_put_be16)
qed

lemma parse_extensions_enc:
  assumes "ch_ok c"
  shows "parse_extensions (put_be16 (length (ch_exts c)) @ ch_exts c) = Some (Some (ch_host c))"
proof -
  have "ext_loop (ch_exts c) = Some (Some (ch_host c))"
    using assms ext_loop_skips [of "ch_pre c"] ext_loop_sni [of "ch_host c"]
    by (simp add: ch_exts_def ch_ok_def)
  with assms show ?thesis
    by (simp add: parse_extensions_def go_slice_defs be_nat_put_be16 ch_ok_def)
qed

lemma parse_handshake_enc:
  assumes "ch_ok c" "length (ch_body c) < 16777216"
  shows "parseClientHelloHandshakeSNI (enc_handshake c) = Some (Some (ch_host c))"
proof -
  let ?n = "length (ch_body c)"
  have len: "?n div 65536 mod 256 * 65536 + ?n div 256 mod 256 * 256 + ?n mod 256 = ?n"
    using be_nat_put_be32 [of ?n] assms(2)
    by (simp add: be_nat_def put_be32_def unat_of_nat_byte)
  have "?n div 65536 mod 256 = ?n div 65536"
    using assms(2) by (simp add: less_mult_imp_div_less)
  with len have len': "?n div 65536 * 65536 + ?n div 256 mod 256 * 256 + ?n mod 256 = ?n" by simp
  have ge: "34 \<le> ?n" "drop 34 (ch_body c) = [of_nat (length (ch_session c))] @ ch_session c
     @ put_be16 (length (ch_suites c)) @ ch_suites c
     @ [of_nat (length (ch_compression c))] @ ch_compression c
     @ put_be16 (length (ch_exts c)) @ ch_exts c"
    using assms(1) by (simp_all add: ch_body_def ch_ok_def)
  have skip: "skipVec8 (drop 34 (ch_body c)) = Some (Some (put_be16 (length (ch_suites c)) @ ch_suites c
     @ [of_nat (length (ch_compression c))] @ ch_compression c
     @ put_be16 (length (ch_exts c)) @ ch_exts c))"
    unfolding ge using assms(1) by (intro skipVec8_enc) (simp add: ch_ok_def)
  have skip2: "skipVec16 (put_be16 (length (ch_suites c)) @ ch_suites c @ r) = Some (Some r)"
    "skipVec8 ([of_nat (length (ch_compression c))] @ ch_compression c @ r) = Some (Some r)" for r
    using assms(1) skipVec16_enc [of "ch_suites c" r] skipVec8_enc [of "ch_compression c" r]
    by (auto simp: ch_ok_def)
  show ?thesis
    unfolding parseClientHelloHandshakeSNI_def enc_handshake_def put_be24_def
    using len len' ge(1) skip skip2 [unfolded append_Cons append_Nil] parse_extensions_enc [OF assms(1)]
    by (simp add: go_slice_defs unat_of_nat_byte Let_def)
qed

lemma parseClientHelloSNI_enc:
  assumes "ch_ok c" "length (enc_handshake c) < 65536"
  shows "parseClientHelloSNI (enc_record c) = Some (Some (ch_host c))"
proof -
  have "length (ch_body c) < 16777216"
    using assms(2) by (simp add: enc_handshake_def)
  with assms parse_handshake_enc [of c] show ?thesis
    by (simp add: parseClientHelloSNI_def enc_record_def go_slice_defs be_nat_put_be16)
qed

text \<open>Through the buffered reader of a connection, whatever follows the record.\<close>

lemma sniffHost_enc:
  assumes "ch_ok c" "length (enc_handshake c) \<le> 2 ^ 14"
  shows "sniffHost \<lparr>avail = enc_record c @ rest, buffered = n\<rparr> dst = Some (ch_host c, True)"
proof -
  let ?h = "enc_handshake c" and ?br = "\<lparr>avail = enc_record c @ rest, buffered = n\<rparr>"
  have r: "enc_record c = 0x16 # 3 # 1 # put_be16 (length ?h) @ ?h" by (simp add: enc_record_def)
  have n: "length ?h < 65536" using assms(2) by simp
  have p1: "Peek ?br 1 = Some [0x16]" by (simp add: Peek_def r maxTLSRecord_def)
  have p5: "Peek ?br 5 = Some ([0x16, 3, 1] @ put_be16 (length ?h))"
    by (simp add: Peek_def r maxTLSRecord_def put_be16_def)
  have pf: "Peek ?br (5 + length ?h) = Some (enc_record c)"
  proof -
    have len: "5 + length ?h = length (enc_record c)" by (simp add: r)
    have "length (enc_record c) \<le> maxTLSRecord" using assms(2) by (simp add: r maxTLSRecord_def)
    then show ?thesis unfolding len by (simp add: Peek_def)
  qed
  have s: "slice ([0x16, 3, 1] @ put_be16 (length ?h)) 3 5 = Some (put_be16 (length ?h))" by (simp add: slice_def)
  have u: "Uint16 (put_be16 (length ?h)) = Some (length ?h)" using Uint16_put [OF n, of "[]"] by simp
  show ?thesis
    unfolding sniffHost_def Let_def p1 p5 by (simp add: s u pf parseClientHelloSNI_enc [OF assms(1) n] del: append.simps)
qed
end
