(* ===== verification/Mediator.thy ===== *)
theory Mediator
  imports Brain ClientHello
begin

text \<open>
  The TCP mediator (internal/egress/mediator.go) and the TLS termination it uses in mitm mode
  (mitm.go). \<open>Handle\<close> is the whole life of one captured connection: recover the destination, guard
  against loops, admit it under the concurrency cap, sniff the host, decide, and then deny, terminate
  TLS or splice.

  What the network does during a connection is in a \<open>conn_env\<close>: the bytes that can be sniffed, the chunks
  the copy reads before either side ends, what each write upstream returns, how many bytes other
  flows charge meanwhile, and the outcome of dialing and of the TLS handshakes. Certificates and
  TLS itself are not modelled. A nil \<open>*NameCache\<close> or \<open>*PeerCache\<close> is \<^term>\<open>None\<close>.
\<close>

section \<open>The handler\<close>

record handler = brain +
  Passthrough :: "policy option"
  CA :: bool
  Peers :: "peer_cache option"
  Resolvers :: "addr list"
  BindAddr :: addr_port

record hstate =
  bytesUsed :: int
  activeConns :: int
  NameCache :: "name_cache option"
  tokens :: token_cache

definition brain_of :: "handler \<Rightarrow> brain" where
  "brain_of h = \<lparr>Mode = Mode h, AllowlistLocked = AllowlistLocked h, Policy = Policy h,
     Swaps = Swaps h, Limits = Limits h\<rparr>"

definition isOwnBindAddr :: "handler \<Rightarrow> addr_port \<Rightarrow> bool" where
  "isOwnBindAddr h dst \<longleftrightarrow> ap_IsValid (BindAddr h) \<and> ap_port (BindAddr h) = ap_port dst \<and>
     Unmap (ap_addr (BindAddr h)) = Unmap (ap_addr dst)"

definition peerName :: "handler \<Rightarrow> addr \<Rightarrow> string option" where
  "peerName h a = Option.bind (Peers h) (\<lambda>pc. NameByIP pc a)"

definition addPeerFields :: "(string \<times> audit_value) list \<Rightarrow> string \<Rightarrow> string \<Rightarrow> (string \<times> audit_value) list" where
  "addPeerFields fs peer peerIP =
     (let fs1 = (if peer \<noteq> '''' then set_field ''peer'' (AStr peer) fs else fs)
      in if peerIP \<noteq> '''' then set_field ''peer_ip'' (AStr peerIP) fs1 else fs1)"

definition shouldMITM :: "handler \<Rightarrow> bool \<Rightarrow> bool \<Rightarrow> bool \<Rightarrow> bool \<Rightarrow> bool" where
  "shouldMITM h isTLS allowed passthrough isPeer \<longleftrightarrow>
     isTLS \<and> CA h \<and> allowed \<and> \<not> passthrough \<and> \<not> isPeer \<and> Mode h = egressModeMITM"

section \<open>The volume cap\<close>

definition addBytesOverCap :: "handler \<Rightarrow> int \<Rightarrow> int \<Rightarrow> bool \<times> int" where
  "addBytesOverCap h n used =
     (let total = wrap64 (used + n); limit = MaxTotalBytes (Limits h)
      in (limit > 0 \<and> total > limit, total))"

text \<open>
  One \<open>Write\<close> through a \<open>capWriter\<close>: what the wrapped writer returned for the chunk decides; the
  rate limiter only delays it.
\<close>

definition capWriter_Write ::
  "handler \<Rightarrow> (nat \<times> string option) \<Rightarrow> int \<Rightarrow> nat \<times> io_error option \<times> int" where
  "capWriter_Write h res used = (case res of (n, err) \<Rightarrow>
     if 0 < n then
       (case addBytesOverCap h (int n) used of
          (True, used') \<Rightarrow> (n, Some (CapTripped err), used')
        | (False, used') \<Rightarrow> (n, map_option IOError err, used'))
     else (n, map_option IOError err, used))"

record limiter =
  lim_rate :: int
  lim_burst :: int

definition newCapLimiter :: "handler \<Rightarrow> limiter option" where
  "newCapLimiter h = (let bps = MaxBytesPerSec (Limits h) in
     if bps \<le> 0 then None
     else Some \<lparr>lim_rate = bps, lim_burst = (if bps < int maxTLSRecord then int maxTLSRecord else bps)\<rparr>)"

text \<open>
  \<open>io.Copy\<close> into the \<open>capWriter\<close>: the chunks read, the writer's results by position, and the bytes
  other flows charge before each of them. It yields what reached the upstream, whether the cap
  tripped, and the counter.
\<close>

fun cap_copy ::
  "handler \<Rightarrow> (nat \<Rightarrow> bytes \<Rightarrow> nat \<times> string option) \<Rightarrow> (nat \<Rightarrow> int) \<Rightarrow> nat \<Rightarrow> bytes list \<Rightarrow> int \<Rightarrow>
   bytes \<times> io_error option \<times> int" where
  "cap_copy h w others i [] used = ([], None, used)"
| "cap_copy h w others i (p # ps) used =
     (case capWriter_Write h (w i p) (wrap64 (used + others i)) of
        (n, Some err, used') \<Rightarrow> (take n p, Some err, used')
      | (n, None, used') \<Rightarrow>
          if n < length p then (take n p, Some (IOError ''short write''), used')
          else (case cap_copy h w others (Suc i) ps used' of (bs, r, u) \<Rightarrow> (take n p @ bs, r, u)))"

fun is_tripped :: "io_error option \<Rightarrow> bool" where
  "is_tripped (Some (CapTripped e)) = True"
| "is_tripped _ = False"

section \<open>The life of a connection\<close>

record 'pk conn_env =
  ce_OrigDst :: "string + addr_port"
  ce_reader :: reader
  ce_now_bind :: time
  ce_now_rev :: time
  ce_Dial :: "string option"
  ce_chunks :: "bytes list"
  ce_write :: "nat \<Rightarrow> bytes \<Rightarrow> nat \<times> string option"
  ce_others :: "nat \<Rightarrow> int"
  ce_handshake :: "string option"
  ce_tlsDial :: "string option"
  ce_peek :: bytes
  ce_requests :: guest
  ce_wire :: "http_request \<Rightarrow> bytes list"
  ce_tail :: "bytes \<Rightarrow> bytes list"
  ce_lib :: "'pk lib"
  ce_env :: "nat \<Rightarrow> env"

datatype upstream_conn = L4 string | TLSUpstream string string

record handle_out =
  ho_log :: "audit_event list"
  ho_dialed :: "upstream_conn option"
  ho_sent :: bytes
  ho_requests :: "http_request list"
  ho_state :: hstate

definition handle_done :: "audit_event list \<Rightarrow> hstate \<Rightarrow> handle_out" where
  "handle_done lg st = \<lparr>ho_log = lg, ho_dialed = None, ho_sent = [], ho_requests = [], ho_state = st\<rparr>"

definition cap_exceeded :: "handler \<Rightarrow> string \<Rightarrow> addr_port \<Rightarrow> audit_event" where
  "cap_exceeded h host dst = Log ''egress_cap_exceeded'' [(''host'', AStr host), (''dst'', AStr (ap_String dst)),
     (''proto'', AStr ''tcp''), (''reason'', AStr ''volume''), (''limit'', AInt (MaxTotalBytes (Limits h)))]"

text \<open>\<open>cappedSplice\<close>: the guest-to-upstream copy, and the record of a trip.\<close>

definition cappedSplice ::
  "handler \<Rightarrow> 'pk conn_env \<Rightarrow> addr_port \<Rightarrow> string \<Rightarrow> hstate \<Rightarrow> bool \<times> bytes \<times> audit_event list \<times> hstate" where
  "cappedSplice h ce dst host st =
     (case cap_copy h (ce_write ce) (ce_others ce) 0 (ce_chunks ce) (bytesUsed st) of
        (sent, err, used) \<Rightarrow>
          (is_tripped err, sent, (if is_tripped err then [cap_exceeded h host dst] else []),
           st\<lparr>bytesUsed := used\<rparr>))"

subsection \<open>mitm.go\<close>

definition looksLikeHTTPRequest :: "bytes \<Rightarrow> bool" where
  "looksLikeHTTPRequest peek = (let line = go_string (take 8 peek) in
     list_ex (HasPrefix line)
       [''GET '', ''POST '', ''PUT '', ''PATCH '', ''DELETE '', ''HEAD '', ''OPTIONS '', ''CONNECT '', ''TRACE ''])"

text \<open>
  The upstream of the request relay behind a \<open>capWriter\<close>: a request is written in the pieces
  \<open>ce_wire\<close> gives, the bytes behind an upgrade in the pieces \<open>ce_tail\<close> gives; the pieces of the
  requests before are already charged.
\<close>

definition cap_after ::
  "handler \<Rightarrow> 'pk conn_env \<Rightarrow> int \<Rightarrow> http_request list \<Rightarrow> bytes list \<Rightarrow> bytes \<times> io_error option \<times> int" where
  "cap_after h ce used ws pieces =
     (let before = concat (map (ce_wire ce) ws) in
      case cap_copy h (ce_write ce) (ce_others ce) 0 before used of (_, _, u) \<Rightarrow>
        cap_copy h (ce_write ce) (ce_others ce) (length before) pieces u)"

definition capped_upstream :: "handler \<Rightarrow> 'pk conn_env \<Rightarrow> int \<Rightarrow> upstream" where
  "capped_upstream h ce used = \<lparr>
     write_err = (\<lambda>ws r. fst (snd (cap_after h ce used ws (ce_wire ce r)))),
     copy_err = (\<lambda>ws bs. fst (snd (cap_after h ce used ws (ce_tail ce bs))))\<rparr>"

definition serveMITM ::
  "handler \<Rightarrow> 'pk conn_env \<Rightarrow> string \<Rightarrow> addr_port \<Rightarrow> bool \<Rightarrow> hstate \<Rightarrow> handle_out" where
  "serveMITM h ce sni dst unlisted st =
     (case ce_handshake ce of
        Some err \<Rightarrow> handle_done [Log ''egress_mitm_handshake_error'' [(''host'', AStr sni), (''error'', AStr err)]] st
      | None \<Rightarrow>
          (let up = Some (TLSUpstream sni (ap_String dst)) in
           case ce_tlsDial ce of
             Some err \<Rightarrow>
               (handle_done [Log ''egress_mitm_upstream_error'' [(''host'', AStr sni),
                  (''dst'', AStr (ap_String dst)), (''error'', AStr err)]] st)\<lparr>ho_dialed := up\<rparr>
           | None \<Rightarrow>
               (let fs = [(''host'', AStr sni), (''dst'', AStr (ap_String dst)), (''mitm'', ABool True)] @
                      (if unlisted then [(''unlisted'', ABool True)] else []);
                    allow = [Log ''egress_allow'' fs];
                    close = [Log ''egress_close'' fs];
                    isHTTP = looksLikeHTTPRequest (ce_peek ce);
                    swapRelevant = (Option.bind (Swaps h) (\<lambda>t. Match t sni) \<noteq> None)
                in if \<not> isHTTP \<and> \<not> swapRelevant then
                     (case cappedSplice h ce dst sni st of (tripped, sent, lg, st') \<Rightarrow>
                        \<lparr>ho_log = allow @ lg @ (if tripped then [] else close), ho_dialed = up,
                         ho_sent = sent, ho_requests = [], ho_state = st'\<rparr>)
                   else
                     (let r = relayHTTPRequests (ce_lib ce) (ce_env ce)
                                (capped_upstream h ce (bytesUsed st)) (ce_requests ce) sni (tokens st) (Swaps h);
                          tripped = (case ro_result r of RelayIO err \<Rightarrow> is_tripped (Some err)
                                     | RelayCopied err \<Rightarrow> is_tripped err | _ \<Rightarrow> False);
                          tail = cap_after h ce (bytesUsed st) (up_requests r)
                                   (case ro_failed r of Some q \<Rightarrow> ce_wire ce q | None \<Rightarrow> ce_tail ce (up_tail r))
                      in \<lparr>ho_log = allow @ ro_log r @ (if tripped then [cap_exceeded h sni dst] else close),
                          ho_dialed = up, ho_sent = fst tail, ho_requests = up_requests r,
                          ho_state = st\<lparr>tokens := ro_cache r, bytesUsed := snd (snd tail)\<rparr>\<rparr>))))"

subsection \<open>Handle\<close>

text \<open>
  What \<open>Handle\<close> knows of an admitted connection when it decides: the sniffed host, whether TLS, whether
  the asserted name is not bound to the destination, and the peer identity.
\<close>

record identity =
  id_host :: string
  id_TLS :: bool
  id_mismatch :: bool
  id_isPeer :: bool
  id_peer :: string
  id_peerIP :: string

text \<open>The calls on a possibly nil name cache.\<close>

definition nc_matches :: "string \<Rightarrow> addr \<Rightarrow> time \<Rightarrow> name_cache option \<Rightarrow> bool \<times> name_cache option" where
  "nc_matches host ip now nc = (case nc of None \<Rightarrow> (False, None)
     | Some c \<Rightarrow> (case HostMatchesIP host ip now c of (r, c') \<Rightarrow> (r, Some c')))"

definition nc_reverse :: "addr \<Rightarrow> time \<Rightarrow> name_cache option \<Rightarrow> string option \<times> name_cache option" where
  "nc_reverse ip now nc = (case nc of None \<Rightarrow> (None, None)
     | Some c \<Rightarrow> (case HostForIP ip now c of (r, c') \<Rightarrow> (r, Some c')))"

definition identify ::
  "handler \<Rightarrow> 'pk conn_env \<Rightarrow> addr_port \<Rightarrow> name_cache option \<Rightarrow> (identity \<times> name_cache option) go" where
  "identify h ce dst nc = do {
     (host, isTLS) \<leftarrow> sniffHost (ce_reader ce) dst;
     let a = ap_addr dst;
     let ip = addr_String a;
     let assertedHost = (host \<noteq> ip);
     let (mismatch, nc1) = (if assertedHost
           then (case nc_matches host a (ce_now_bind ce) nc of (m, nc1) \<Rightarrow> (\<not> m, nc1))
           else (False, nc));
     let (isPeer, peer, peerIP, host1) = (case peerName h a of
           Some name \<Rightarrow> (True, name, ip, (if host = ip then name else host))
         | None \<Rightarrow> (False, '''', '''', host));
     let peerIP1 = (if peerIP = '''' \<and> Peers h \<noteq> None \<and> isEastWestAddr a then ip else peerIP);
     let (host2, nc2) = (if peer = '''' \<and> host1 = ip
           then (case nc_reverse a (ce_now_rev ce) nc1 of (r, nc2) \<Rightarrow>
                   (case r of Some name \<Rightarrow> name | None \<Rightarrow> host1, nc2))
           else (host1, nc1));
     Some (\<lparr>id_host = host2, id_TLS = isTLS, id_mismatch = mismatch, id_isPeer = isPeer,
             id_peer = peer, id_peerIP = peerIP1\<rparr>, nc2) }"

text \<open>The decision: the verdict with the binding requirement of a locked allowlist, and passthrough.\<close>

definition decide :: "handler \<Rightarrow> addr_port \<Rightarrow> identity \<Rightarrow> (verdict \<times> bool) go" where
  "decide h dst x = do {
     pt \<leftarrow> (case Passthrough h of None \<Rightarrow> Some False
            | Some p \<Rightarrow> Some (Allow (AllowHost p (id_host x))));
     v \<leftarrow> Evaluate (brain_of h) (id_host x) [id_peer x, id_peerIP x] (ap_addr dst) pt;
     if AllowlistLocked h \<and> id_mismatch x \<and> id_peer x = ''''
     then Some (v\<lparr>Allowed := False, Unlisted := False, VReason := ''asserted host not bound to destination''\<rparr>, False)
     else Some (v, pt) }"

definition flow_fields :: "addr_port \<Rightarrow> identity \<Rightarrow> verdict \<Rightarrow> (string \<times> audit_value) list" where
  "flow_fields dst x v =
     (let fs = [(''host'', AStr (id_host x)), (''dst'', AStr (ap_String dst))];
          fs = (if id_mismatch x then set_field ''signal'' (AStr SignalNameDestinationMismatch) fs else fs);
          fs = (if Unlisted v then set_field ''unlisted'' (ABool True) fs else fs);
          fs = (if \<not> id_isPeer x \<and> id_host x = addr_String (ap_addr dst)
                then set_field ''signal'' (AStr SignalDirectIPNoSNI) fs else fs);
          fs = (if id_isPeer x then set_field ''mitm'' (ABool False) fs else fs)
      in addPeerFields fs (id_peer x) (id_peerIP x))"

text \<open>From the decision on.\<close>

definition carry_out ::
  "handler \<Rightarrow> 'pk conn_env \<Rightarrow> addr_port \<Rightarrow> identity \<Rightarrow> verdict \<Rightarrow> bool \<Rightarrow> hstate \<Rightarrow> handle_out" where
  "carry_out h ce dst x v pt st =
     (if \<not> Allowed v \<and> \<not> pt then
        (let fs = [(''host'', AStr (id_host x)), (''dst'', AStr (ap_String dst))];
             fs = (if id_mismatch x then set_field ''signal'' (AStr SignalNameDestinationMismatch) fs else fs)
         in handle_done [AuditDeny v (addPeerFields fs (id_peer x) (id_peerIP x))] st)
      else if shouldMITM h (id_TLS x) (Allowed v) pt (id_isPeer x) then
        serveMITM h ce (id_host x) dst (Unlisted v) st
      else (let up = Some (L4 (ap_String dst)) in
        case ce_Dial ce of
          Some err \<Rightarrow>
            (handle_done [Log ''egress_dial_error'' [(''host'', AStr (id_host x)), (''dst'', AStr (ap_String dst)),
               (''error'', AStr err)]] st)\<lparr>ho_dialed := up\<rparr>
        | None \<Rightarrow>
            (let fs = flow_fields dst x v in
             case cappedSplice h ce dst (id_host x) st of (tripped, sent, lg, st') \<Rightarrow>
               \<lparr>ho_log = [Log ''egress_allow'' fs] @ lg @ (if tripped then [] else [Log ''egress_close'' fs]),
                ho_dialed = up, ho_sent = sent, ho_requests = [], ho_state = st'\<rparr>)))"

text \<open>The admission test on the gauge after the connection was counted.\<close>

definition over_conns :: "handler \<Rightarrow> int \<Rightarrow> bool" where
  "over_conns h active \<longleftrightarrow> MaxConcurrentConns (Limits h) > 0 \<and> active > MaxConcurrentConns (Limits h)"

definition Handle :: "handler \<Rightarrow> 'pk conn_env \<Rightarrow> hstate \<Rightarrow> handle_out go" where
  "Handle h ce st =
     (case ce_OrigDst ce of
        Inl err \<Rightarrow> Some (handle_done [Log ''egress_origdst_error'' [(''error'', AStr err)]] st)
      | Inr dst \<Rightarrow>
          if isOwnBindAddr h dst then
            Some (handle_done [Log ''egress_loop_guard'' [(''dst'', AStr (ap_String dst)), (''proto'', AStr ''tcp'')]] st)
          else
            (let active = activeConns st + 1; limit = MaxConcurrentConns (Limits h);
                 st1 = st\<lparr>activeConns := active\<rparr>;
                 leave = (\<lambda>out. out\<lparr>ho_state := (ho_state out)\<lparr>activeConns := activeConns (ho_state out) - 1\<rparr>\<rparr>)
             in if over_conns h active then
                  Some (leave (handle_done [Log ''egress_cap_exceeded'' [(''dst'', AStr (ap_String dst)),
                    (''proto'', AStr ''tcp''), (''reason'', AStr ''concurrency''), (''limit'', AInt limit)]] st1))
                else do {
                  (x, nc) \<leftarrow> identify h ce dst (NameCache st1);
                  (v, pt) \<leftarrow> decide h dst x;
                  Some (leave (carry_out h ce dst x v pt (st1\<lparr>NameCache := nc\<rparr>))) }))"

section \<open>What reaches an upstream\<close>

primrec dial_addr :: "upstream_conn \<Rightarrow> string" where
  "dial_addr (L4 a) = a"
| "dial_addr (TLSUpstream name a) = a"

primrec forged :: "upstream_conn \<Rightarrow> bool" where
  "forged (L4 a) = False"
| "forged (TLSUpstream name a) = True"

lemma handle_done_simps [simp]:
  "ho_dialed (handle_done lg st) = None" "ho_log (handle_done lg st) = lg"
  "ho_requests (handle_done lg st) = []" "ho_sent (handle_done lg st) = []"
  "ho_state (handle_done lg st) = st"
  by (simp_all add: handle_done_def)

lemma serveMITM_dialed:
  "ho_dialed (serveMITM h ce sni dst u st) = Some d \<Longrightarrow> d = TLSUpstream sni (ap_String dst)"
  by (auto simp: serveMITM_def Let_def split: option.splits if_splits prod.splits)

lemma serveMITM_log: "ho_log (serveMITM h ce sni dst u st) \<noteq> []"
  by (auto simp: serveMITM_def Let_def split: option.splits if_splits prod.splits)

lemma carry_out_denied:
  "\<not> Allowed v \<Longrightarrow> \<not> pt \<Longrightarrow> \<exists>fs. carry_out h ce dst x v pt st = handle_done [AuditDeny v fs] st"
  by (auto simp: carry_out_def Let_def)

lemma carry_out_dialed:
  assumes "ho_dialed (carry_out h ce dst x v pt st) = Some d"
  shows "(Allowed v \<or> pt) \<and> dial_addr d = ap_String dst \<and>
    (forged d \<longrightarrow> shouldMITM h (id_TLS x) (Allowed v) pt (id_isPeer x) \<and> d = TLSUpstream (id_host x) (ap_String dst))"
proof (cases "\<not> Allowed v \<and> \<not> pt")
  case True
  with assms carry_out_denied [of v pt h ce dst x st] show ?thesis by auto
next
  case False
  show ?thesis
  proof (cases "shouldMITM h (id_TLS x) (Allowed v) pt (id_isPeer x)")
    case True
    with False assms have "d = TLSUpstream (id_host x) (ap_String dst)"
      by (auto simp: carry_out_def dest: serveMITM_dialed)
    with True False show ?thesis by simp
  next
    case no_mitm: False
    with False assms have "d = L4 (ap_String dst)"
      by (auto simp: carry_out_def Let_def split: option.splits prod.splits)
    with False show ?thesis by simp
  qed
qed

lemma carry_out_log: "ho_log (carry_out h ce dst x v pt st) \<noteq> []"
  by (auto simp: carry_out_def Let_def serveMITM_log split: option.splits prod.splits)

lemma serveMITM_undialed:
  "ho_dialed (serveMITM h ce sni dst u st) = None \<Longrightarrow>
   ho_sent (serveMITM h ce sni dst u st) = [] \<and> ho_requests (serveMITM h ce sni dst u st) = []"
  by (auto simp: serveMITM_def Let_def split: option.splits if_splits prod.splits)

lemma carry_out_undialed:
  "ho_dialed (carry_out h ce dst x v pt st) = None \<Longrightarrow>
   ho_sent (carry_out h ce dst x v pt st) = [] \<and> ho_requests (carry_out h ce dst x v pt st) = []"
  by (auto simp: carry_out_def Let_def serveMITM_undialed split: option.splits if_splits prod.splits)

text \<open>How a connection can end.\<close>

lemma Handle_cases:
  assumes "Handle h ce st = Some out"
  obtains (refused) e fs where "ho_dialed out = None" "ho_sent out = []" "ho_requests out = []"
      "ho_log out = [Log e fs]" "e \<in> {''egress_origdst_error'', ''egress_loop_guard'', ''egress_cap_exceeded''}"
  | (decided) dst x nc v pt st' where "ce_OrigDst ce = Inr dst" "\<not> isOwnBindAddr h dst"
      "\<not> over_conns h (activeConns st + 1)"
      "identify h ce dst (NameCache st) = Some (x, nc)" "decide h dst x = Some (v, pt)"
      "ho_dialed out = ho_dialed (carry_out h ce dst x v pt st')"
      "ho_sent out = ho_sent (carry_out h ce dst x v pt st')"
      "ho_requests out = ho_requests (carry_out h ce dst x v pt st')"
      "ho_log out = ho_log (carry_out h ce dst x v pt st')"
proof (cases "ce_OrigDst ce")
  case (Inl err)
  with assms refused show thesis by (auto simp: Handle_def)
next
  case dst: (Inr dst)
  let ?over = "over_conns h (activeConns st + 1)"
  show thesis
  proof (cases "isOwnBindAddr h dst \<or> ?over")
    case True
    with assms dst refused show thesis by (auto simp: Handle_def Let_def split: if_splits)
  next
    case False
    with assms dst obtain x nc where x: "identify h ce dst (NameCache st) = Some (x, nc)"
      by (cases "identify h ce dst (NameCache st)") (auto simp: Handle_def Let_def)
    with False assms dst obtain v pt where v: "decide h dst x = Some (v, pt)"
      by (cases "decide h dst x") (auto simp: Handle_def Let_def)
    from False assms dst x v show thesis
      by (intro decided [OF dst _ _ x v]) (auto simp: Handle_def Let_def)
  qed
qed

lemma brain_of_simps [simp]:
  "Mode (brain_of h) = Mode h" "AllowlistLocked (brain_of h) = AllowlistLocked h"
  "Policy (brain_of h) = Policy h" "Limits (brain_of h) = Limits h" "Swaps (brain_of h) = Swaps h"
  by (simp_all add: brain_of_def)

definition identities :: "identity \<Rightarrow> string list" where
  "identities x = [id_host x, id_peer x, id_peerIP x]"

definition passes_through :: "handler \<Rightarrow> string \<Rightarrow> bool" where
  "passes_through h host \<longleftrightarrow> (case Passthrough h of None \<Rightarrow> False | Some p \<Rightarrow> Allow (AllowHost p host))"

lemma decide_spec:
  assumes "Policy h = Some p"
  shows "\<exists>v. Evaluate (brain_of h) (id_host x) [id_peer x, id_peerIP x] (ap_addr dst) (passes_through h (id_host x)) = Some v \<and>
    (Allowed v \<longleftrightarrow> granted p (identities x) \<or> broad_grant (brain_of h) (ap_addr dst)) \<and>
    decide h dst x = Some (if AllowlistLocked h \<and> id_mismatch x \<and> id_peer x = ''''
      then (v\<lparr>Allowed := False, Unlisted := False, VReason := ''asserted host not bound to destination''\<rparr>, False)
      else (v, passes_through h (id_host x)))"
proof -
  obtain v where v: "Evaluate (brain_of h) (id_host x) [id_peer x, id_peerIP x] (ap_addr dst)
      (passes_through h (id_host x)) = Some v"
    using Evaluate_verdict [of "brain_of h" p] assms by fastforce
  then have "Allowed v \<longleftrightarrow> granted p (identities x) \<or> broad_grant (brain_of h) (ap_addr dst)"
    by (rule Evaluate_SomeE [of "brain_of h" p, rotated]) (simp_all add: assms identities_def)
  moreover have "(case Passthrough h of None \<Rightarrow> Some False | Some p \<Rightarrow> Some (Allow (AllowHost p (id_host x))))
      = Some (passes_through h (id_host x))"
    by (simp add: passes_through_def split: option.splits)
  ultimately show ?thesis
    using v by (simp add: decide_def)
qed

lemma decide_allows:
  assumes "Policy h = Some p" "decide h dst x = Some (v, pt)" "Allowed v \<or> pt"
  shows "\<not> (AllowlistLocked h \<and> id_mismatch x \<and> id_peer x = '''')"
    and "granted p (identities x) \<or> broad_grant (brain_of h) (ap_addr dst) \<or> passes_through h (id_host x)"
proof -
  let ?c = "AllowlistLocked h \<and> id_mismatch x \<and> id_peer x = ''''"
  obtain u where u: "Allowed u \<longleftrightarrow> granted p (identities x) \<or> broad_grant (brain_of h) (ap_addr dst)"
    "decide h dst x = Some (if ?c
      then (u\<lparr>Allowed := False, Unlisted := False, VReason := ''asserted host not bound to destination''\<rparr>, False)
      else (u, passes_through h (id_host x)))"
    using decide_spec [OF assms(1), of x dst] by blast
  show c: "\<not> ?c"
  proof
    assume ?c
    with u(2) assms(2) have "v = u\<lparr>Allowed := False, Unlisted := False,
      VReason := ''asserted host not bound to destination''\<rparr>" "pt = False" by auto
    with assms(3) show False by simp
  qed
  from c u(2) assms(2) have "v = u" "pt = passes_through h (id_host x)" by auto
  with u(1) assms(3) show "granted p (identities x) \<or> broad_grant (brain_of h) (ap_addr dst) \<or> passes_through h (id_host x)"
    by auto
qed

text \<open>The mismatch flag, the peer name and the host the decision looks at.\<close>

lemma identify_spec:
  assumes "identify h ce dst nc = Some (x, nc')"
  shows "\<exists>sn tls. sniffHost (ce_reader ce) dst = Some (sn, tls) \<and> id_TLS x = tls \<and>
    (id_mismatch x \<longleftrightarrow> sn \<noteq> addr_String (ap_addr dst) \<and> \<not> fst (nc_matches sn (ap_addr dst) (ce_now_bind ce) nc)) \<and>
    id_peer x = (case peerName h (ap_addr dst) of Some n \<Rightarrow> n | None \<Rightarrow> '''') \<and>
    (id_isPeer x \<longleftrightarrow> peerName h (ap_addr dst) \<noteq> None) \<and>
    (sn \<noteq> addr_String (ap_addr dst) \<longrightarrow> id_host x = sn)"
proof -
  obtain sn tls where s: "sniffHost (ce_reader ce) dst = Some (sn, tls)"
    using sniffHost_no_panic [of "ce_reader ce" dst] by auto
  show ?thesis
    using assms unfolding identify_def s Let_def
    by (cases "sn = addr_String (ap_addr dst)"; cases "peerName h (ap_addr dst)")
      (auto split: prod.splits if_splits)
qed

lemma identify_no_panic: "\<exists>r. identify h ce dst nc = Some r"
proof -
  obtain sn tls where s: "sniffHost (ce_reader ce) dst = Some (sn, tls)"
    using sniffHost_no_panic [of "ce_reader ce" dst] by auto
  show ?thesis unfolding identify_def s Let_def by (auto split: prod.splits)
qed

lemma Handle_no_panic: "Policy h = Some p \<Longrightarrow> \<exists>out. Handle h ce st = Some out"
proof -
  assume p: "Policy h = Some p"
  show ?thesis
  proof (cases "ce_OrigDst ce")
    case (Inr dst)
    obtain x nc where x: "identify h ce dst (NameCache st) = Some (x, nc)"
      using identify_no_panic [of h ce dst "NameCache st"] by auto
    obtain v pt where "decide h dst x = Some (v, pt)"
      using decide_spec [OF p, of x dst] by (cases "decide h dst x") auto
    with Inr x show ?thesis by (simp add: Handle_def Let_def)
  qed (simp add: Handle_def)
qed

text \<open>A dial is always to the captured destination, after a decision that allowed it.\<close>

lemma Handle_dialed:
  assumes "Policy h = Some p" "Handle h ce st = Some out" "ho_dialed out = Some d"
  obtains dst x nc where "ce_OrigDst ce = Inr dst" "\<not> isOwnBindAddr h dst"
    "identify h ce dst (NameCache st) = Some (x, nc)" "dial_addr d = ap_String dst"
    "\<not> (AllowlistLocked h \<and> id_mismatch x \<and> id_peer x = '''')"
    "granted p (identities x) \<or> broad_grant (brain_of h) (ap_addr dst) \<or> passes_through h (id_host x)"
    "forged d \<Longrightarrow> CA h \<and> Mode h = egressModeMITM \<and> id_TLS x \<and> \<not> id_isPeer x \<and> \<not> passes_through h (id_host x)
       \<and> d = TLSUpstream (id_host x) (ap_String dst)"
  using assms(2)
proof (cases rule: Handle_cases)
  case (decided dst x nc v pt st')
  from carry_out_dialed [OF assms(3) [unfolded decided(6)]]
  have d: "Allowed v \<or> pt" "dial_addr d = ap_String dst"
    "forged d \<Longrightarrow> shouldMITM h (id_TLS x) (Allowed v) pt (id_isPeer x) \<and> d = TLSUpstream (id_host x) (ap_String dst)"
    by auto
  note al = decide_allows [OF assms(1) decided(5) d(1)]
  have pt: "pt = passes_through h (id_host x)"
    using decide_spec [OF assms(1), of x dst] decided(5) al(1) by auto
  show thesis
    by (rule that [OF decided(1,2,4) d(2) al]) (use d(3) pt in \<open>auto simp: shouldMITM_def\<close>)
qed (use assms(3) in simp)

section \<open>Interleaved connections: the concurrency gauge\<close>

text \<open>
  Many \<open>Handle\<close> calls run at once. What they share of the gauge are two atomic additions: one on
  entering, whose result decides admission, one on every return.
\<close>

datatype conn_phase = Admitted | Refused

record gauge =
  g_active :: int
  g_live :: "(nat \<times> conn_phase) list"

inductive gauge_step :: "handler \<Rightarrow> gauge \<Rightarrow> gauge \<Rightarrow> bool" for h where
  enter: "c \<notin> fst ` set (g_live s) \<Longrightarrow>
    gauge_step h s \<lparr>g_active = g_active s + 1,
      g_live = (c, if over_conns h (g_active s + 1) then Refused else Admitted) # g_live s\<rparr>"
| leave: "(c, ph) \<in> set (g_live s) \<Longrightarrow>
    gauge_step h s \<lparr>g_active = g_active s - 1, g_live = remove1 (c, ph) (g_live s)\<rparr>"

definition gauge_init :: gauge where
  "gauge_init = \<lparr>g_active = 0, g_live = []\<rparr>"

definition admitted :: "gauge \<Rightarrow> nat" where
  "admitted s = length (filter (\<lambda>(c, ph). ph = Admitted) (g_live s))"

definition gauge_inv :: "handler \<Rightarrow> gauge \<Rightarrow> bool" where
  "gauge_inv h s \<longleftrightarrow> g_active s = int (length (g_live s)) \<and>
     (MaxConcurrentConns (Limits h) > 0 \<longrightarrow> int (admitted s) \<le> MaxConcurrentConns (Limits h))"

inductive_cases gauge_stepE: "gauge_step h s s'"

lemma length_filter_remove1: "length (filter P (remove1 x xs)) \<le> length (filter P xs)"
  by (induction xs) auto

lemma gauge_inv_step: "gauge_step h s s' \<Longrightarrow> gauge_inv h s \<Longrightarrow> gauge_inv h s'"
proof (induction rule: gauge_step.induct)
  case (enter c s)
  define k where "k = length (filter (\<lambda>(c, ph). ph = Admitted) (g_live s))"
  have "k \<le> length (g_live s)"
    unfolding k_def by (rule length_filter_le)
  with enter show ?case
    by (auto simp: gauge_inv_def admitted_def over_conns_def k_def [symmetric])
next
  case (leave c ph s)
  then have "0 < length (g_live s)" by auto
  with leave have "int (length (remove1 (c, ph) (g_live s))) = int (length (g_live s)) - 1"
    by (simp add: length_remove1 of_nat_diff Suc_leI)
  with leave length_filter_remove1 [of "\<lambda>(c, ph). ph = Admitted" "(c, ph)" "g_live s"] show ?case
    by (auto simp: gauge_inv_def admitted_def)
qed

lemma gauge_inv_reachable: "(gauge_step h)\<^sup>*\<^sup>* gauge_init s \<Longrightarrow> gauge_inv h s"
proof (induction rule: rtranclp_induct)
  case base
  show ?case by (simp add: gauge_inv_def gauge_init_def admitted_def)
qed (rule gauge_inv_step)

section \<open>Interleaved flows: the volume cap\<close>

text \<open>
  The flows of one mediator process share the byte counter. A flow first writes a chunk upstream and
  only then charges it; it stops when its own charge passes the cap. \<open>v_sent\<close> is what really left.
\<close>

datatype flow_phase = Ready | Pending nat | Stopped

record volume =
  v_used :: int
  v_sent :: int
  v_flows :: "flow_phase list"

inductive vol_step :: "handler \<Rightarrow> nat \<Rightarrow> volume \<Rightarrow> volume \<Rightarrow> bool" for h chunk where
  vstart: "vol_step h chunk s (s\<lparr>v_flows := v_flows s @ [Ready]\<rparr>)"
| vwrite: "i < length (v_flows s) \<Longrightarrow> v_flows s ! i = Ready \<Longrightarrow> 0 < n \<Longrightarrow> n \<le> chunk \<Longrightarrow>
    vol_step h chunk s (s\<lparr>v_sent := v_sent s + int n, v_flows := (v_flows s)[i := Pending n]\<rparr>)"
| vcharge: "i < length (v_flows s) \<Longrightarrow> v_flows s ! i = Pending n \<Longrightarrow>
    addBytesOverCap h (int n) (v_used s) = (over, used') \<Longrightarrow>
    vol_step h chunk s (s\<lparr>v_used := used', v_flows := (v_flows s)[i := (if over then Stopped else Ready)]\<rparr>)"
| vfinish: "i < length (v_flows s) \<Longrightarrow> v_flows s ! i = Ready \<Longrightarrow>
    vol_step h chunk s (s\<lparr>v_flows := (v_flows s)[i := Stopped]\<rparr>)"

definition vol_init :: volume where
  "vol_init = \<lparr>v_used = 0, v_sent = 0, v_flows = []\<rparr>"

primrec pending :: "flow_phase \<Rightarrow> nat" where
  "pending Ready = 0"
| "pending (Pending n) = n"
| "pending Stopped = 0"

primrec busy :: "flow_phase \<Rightarrow> nat" where
  "busy Ready = 0"
| "busy (Pending n) = 1"
| "busy Stopped = 1"

definition vol_inv :: "handler \<Rightarrow> nat \<Rightarrow> volume \<Rightarrow> bool" where
  "vol_inv h chunk s \<longleftrightarrow>
     v_sent s = v_used s + int (sum_list (map pending (v_flows s))) \<and>
     0 \<le> v_used s \<and> (\<forall>f \<in> set (v_flows s). pending f \<le> chunk) \<and>
     v_sent s \<le> MaxTotalBytes (Limits h) + int (chunk * sum_list (map busy (v_flows s)))"

lemma sum_list_map_update:
  "i < length xs \<Longrightarrow> sum_list (map f (xs[i := y])) + f (xs ! i) = sum_list (map f xs) + (f y :: nat)"
  by (induction xs arbitrary: i) (auto split: nat.splits)

lemma busy_le: "sum_list (map busy fs) \<le> length fs"
proof (induction fs)
  case (Cons f fs)
  have "busy f \<le> 1" by (cases f) simp_all
  with Cons show ?case by simp
qed simp

lemma pending_le_busy: "(\<forall>f \<in> set fs. pending f \<le> chunk) \<Longrightarrow> sum_list (map pending fs) \<le> chunk * sum_list (map busy fs)"
proof (induction fs)
  case (Cons f fs)
  then have "pending f \<le> chunk * busy f" by (cases f) auto
  with Cons show ?case by (simp add: algebra_simps)
qed simp

lemma addBytesOverCap_no_wrap:
  assumes "0 \<le> used" "0 \<le> n" "used + n < 2 ^ 63"
  shows "addBytesOverCap h n used =
    (MaxTotalBytes (Limits h) > 0 \<and> used + n > MaxTotalBytes (Limits h), used + n)"
  using wrap64_id [of "used + n"] assms by (simp add: addBytesOverCap_def Let_def)

lemma vol_inv_step:
  assumes "vol_step h chunk s s'" "vol_inv h chunk s" "0 < MaxTotalBytes (Limits h)"
    and "MaxTotalBytes (Limits h) + int (chunk * length (v_flows s)) < 2 ^ 63"
  shows "vol_inv h chunk s'"
  using assms
proof (induction rule: vol_step.induct)
  case (vstart s)
  then show ?case by (simp add: vol_inv_def)
next
  case (vwrite i s n)
  have p: "sum_list (map pending ((v_flows s)[i := Pending n])) = sum_list (map pending (v_flows s)) + n"
    and b: "sum_list (map busy ((v_flows s)[i := Pending n])) = sum_list (map busy (v_flows s)) + 1"
    using sum_list_map_update [OF vwrite(1), of pending "Pending n"]
      sum_list_map_update [OF vwrite(1), of busy "Pending n"] vwrite(2) by simp_all
  have m: "\<forall>f \<in> set ((v_flows s)[i := Pending n]). pending f \<le> chunk"
    using vwrite(4,5) set_update_subset_insert [of "v_flows s" i "Pending n"] by (auto simp: vol_inv_def)
  show ?case
    using vwrite(4,5) m by (simp add: vol_inv_def p b algebra_simps)
next
  case (vcharge i s n over used')
  let ?L = "MaxTotalBytes (Limits h)" and ?f = "if over then Stopped else Ready"
  have sent: "v_sent s = v_used s + int (sum_list (map pending (v_flows s)))" "0 \<le> v_used s"
    and le: "v_sent s \<le> ?L + int (chunk * sum_list (map busy (v_flows s)))"
    and ch: "\<forall>f \<in> set (v_flows s). pending f \<le> chunk"
    using vcharge(4) by (auto simp: vol_inv_def)
  have p: "sum_list (map pending ((v_flows s)[i := ?f])) + n = sum_list (map pending (v_flows s))"
    and b: "sum_list (map busy ((v_flows s)[i := ?f])) + (if over then 0 else 1) = sum_list (map busy (v_flows s))"
    using sum_list_map_update [OF vcharge(1), of pending ?f]
      sum_list_map_update [OF vcharge(1), of busy ?f] vcharge(2) by (auto split: if_splits)
  have "chunk * sum_list (map busy (v_flows s)) \<le> chunk * length (v_flows s)"
    by (rule mult_le_mono2 [OF busy_le])
  then have "v_sent s < 2 ^ 63" using le vcharge(6) by linarith
  then have "v_used s + int n < 2 ^ 63" using sent p by linarith
  then have u: "used' = v_used s + int n" and o: "over \<longleftrightarrow> v_used s + int n > ?L"
    using vcharge(3,5) sent(2) addBytesOverCap_no_wrap [of "v_used s" "int n" h] by auto
  have m: "\<forall>f \<in> set ((v_flows s)[i := ?f]). pending f \<le> chunk"
    using ch set_update_subset_insert [of "v_flows s" i ?f] by (auto split: if_splits)
  have "v_sent s \<le> ?L + int (chunk * sum_list (map busy ((v_flows s)[i := ?f])))"
  proof (cases over)
    case True
    with le b show ?thesis by simp
  next
    case False
    have "int (sum_list (map pending ((v_flows s)[i := ?f]))) \<le> int (chunk * sum_list (map busy ((v_flows s)[i := ?f])))"
      by (subst of_nat_le_iff) (rule pending_le_busy [OF m])
    moreover have "v_used s + int n \<le> ?L" using False o by simp
    ultimately show ?thesis using sent(1) p by linarith
  qed
  with m p sent u show ?case by (simp add: vol_inv_def)
next
  case (vfinish i s)
  have p: "sum_list (map pending ((v_flows s)[i := Stopped])) = sum_list (map pending (v_flows s))"
    and b: "sum_list (map busy ((v_flows s)[i := Stopped])) = sum_list (map busy (v_flows s)) + 1"
    using sum_list_map_update [OF vfinish(1), of pending Stopped]
      sum_list_map_update [OF vfinish(1), of busy Stopped] vfinish(2) by simp_all
  have m: "\<forall>f \<in> set ((v_flows s)[i := Stopped]). pending f \<le> chunk"
    using vfinish(3) set_update_subset_insert [of "v_flows s" i Stopped] by (auto simp: vol_inv_def)
  show ?case
    using vfinish(3) m by (simp add: vol_inv_def p b algebra_simps)
qed

lemma vol_step_flows: "vol_step h chunk s s' \<Longrightarrow> length (v_flows s) \<le> length (v_flows s')"
  by (induction rule: vol_step.induct) simp_all

lemma vol_inv_reachable:
  assumes "(vol_step h chunk)\<^sup>*\<^sup>* vol_init s" "0 < MaxTotalBytes (Limits h)"
    and "MaxTotalBytes (Limits h) + int (chunk * length (v_flows s)) < 2 ^ 63"
  shows "vol_inv h chunk s"
  using assms
proof (induction rule: rtranclp_induct)
  case (step s s')
  have "chunk * length (v_flows s) \<le> chunk * length (v_flows s')"
    by (rule mult_le_mono2 [OF vol_step_flows [OF step.hyps(2)]])
  then have "MaxTotalBytes (Limits h) + int (chunk * length (v_flows s)) < 2 ^ 63"
    using step.prems(2) by linarith
  with step vol_inv_step show ?case by blast
qed (simp add: vol_inv_def vol_init_def)

text \<open>A flow that starts after the cap was passed still sends one chunk, so the total keeps growing.\<close>

lemma vol_keeps_growing:
  assumes "0 < chunk" "int n < 2 ^ 63"
  shows "\<exists>s. (vol_step h chunk)\<^sup>*\<^sup>* vol_init s \<and> v_sent s = int n \<and> v_used s = int n"
  using assms(2)
proof (induction n)
  case 0
  have "v_sent vol_init = 0" "v_used vol_init = 0" by (simp_all add: vol_init_def)
  then show ?case by auto
next
  case (Suc n)
  then obtain s where s: "(vol_step h chunk)\<^sup>*\<^sup>* vol_init s" "v_sent s = int n" "v_used s = int n" by auto
  let ?k = "length (v_flows s)"
  let ?a = "s\<lparr>v_flows := v_flows s @ [Ready]\<rparr>"
  let ?b = "?a\<lparr>v_sent := v_sent ?a + int 1, v_flows := (v_flows ?a)[?k := Pending 1]\<rparr>"
  obtain over where o: "addBytesOverCap h (int 1) (v_used ?b) = (over, int (Suc n))"
    using addBytesOverCap_no_wrap [of "int n" 1 h] Suc.prems s(3) by auto
  have "vol_step h chunk s ?a" by (rule vstart)
  moreover have "vol_step h chunk ?a ?b"
    by (rule vwrite) (use assms(1) in \<open>auto\<close>)
  moreover have "vol_step h chunk ?b
      (?b\<lparr>v_used := int (Suc n), v_flows := (v_flows ?b)[?k := (if over then Stopped else Ready)]\<rparr>)"
    by (rule vcharge [OF _ _ o]) simp_all
  ultimately have "(vol_step h chunk)\<^sup>*\<^sup>* vol_init
      (?b\<lparr>v_used := int (Suc n), v_flows := (v_flows ?b)[?k := (if over then Stopped else Ready)]\<rparr>)"
    using s(1) by (meson rtranclp.rtrancl_into_rtrancl)
  then show ?case using s(2) by (intro exI conjI) (assumption, simp_all)
qed

end
