(* ===== verification/Dns.thy ===== *)
theory Dns
  imports Mediator
begin

text \<open>
  The filtering DNS forwarder (internal/egress/dns.go). The wire format is that of the package
  golang.org/x/net/dns/dnsmessage, which is an argument: a \<open>dns_codec\<close> gives what its parser yields
  for a message, section by section, and what its builder makes of one. \<open>forward\<close>, the round trip to the
  resolver, is an argument as it is in the code.
\<close>

section \<open>Messages\<close>

record dns_header =
  dh_ID :: "16 word"
  dh_Response :: bool
  dh_OpCode :: nat
  dh_Authoritative :: bool
  dh_Truncated :: bool
  dh_RecursionDesired :: bool
  dh_RecursionAvailable :: bool
  dh_RCode :: nat

record dns_question =
  dq_Name :: string
  dq_Type :: nat
  dq_Class :: nat

datatype rbody = ABody "32 word" | AAAABody "128 word" | CNAMEBody string | OPTBody bytes
  | UnknownBody bytes | OtherBody bytes

record resource =
  rr_Name :: string
  rr_Type :: nat
  rr_TTL :: "32 word"
  rr_Body :: rbody

text \<open>
  An answer as \<open>cacheDNSAnswers\<close> walks over it: its type and time to live, and its body, which is
  absent when parsing or skipping it fails.
\<close>

record answer_item =
  ai_Type :: nat
  ai_TTL :: "32 word"
  ai_Body :: "rbody option"

record dns_codec =
  Start :: "bytes \<Rightarrow> string + dns_header"
  Question :: "bytes \<Rightarrow> string + dns_question"
  AllQuestions :: "bytes \<Rightarrow> dns_question list option"
  AllAnswers :: "bytes \<Rightarrow> resource list option"
  AllAuthorities :: "bytes \<Rightarrow> resource list option"
  AllAdditionals :: "bytes \<Rightarrow> resource list option"
  SkipAllQuestions :: "bytes \<Rightarrow> bool"
  AnswerItems :: "bytes \<Rightarrow> answer_item list"
  add_question_ok :: "dns_question \<Rightarrow> bool"
  add_resource_ok :: "resource \<Rightarrow> bool"
  Finish :: "dns_header \<Rightarrow> dns_question list \<Rightarrow> resource list \<Rightarrow> resource list \<Rightarrow> resource list \<Rightarrow> string + bytes"
  type_String :: "nat \<Rightarrow> string"

definition TypeA :: nat where "TypeA = 1"
definition TypeAAAA :: nat where "TypeAAAA = 28"
definition RCodeRefused :: nat where "RCodeRefused = 5"
definition dnsTypeSVCB :: nat where "dnsTypeSVCB = 64"
definition dnsTypeHTTPS :: nat where "dnsTypeHTTPS = 65"

definition parseDNSQuestion :: "dns_codec \<Rightarrow> bytes \<Rightarrow> string + (16 word \<times> string \<times> nat)" where
  "parseDNSQuestion D payload = (case Start D payload of Inl e \<Rightarrow> Inl e
     | Inr hdr \<Rightarrow> (case Question D payload of Inl e \<Rightarrow> Inl e
     | Inr q \<Rightarrow> Inr (dh_ID hdr, normalizeHost (dq_Name q), dq_Type q)))"

definition refused_header :: "dns_header \<Rightarrow> dns_header" where
  "refused_header hdr = \<lparr>dh_ID = dh_ID hdr, dh_Response = True, dh_OpCode = dh_OpCode hdr,
     dh_Authoritative = False, dh_Truncated = False, dh_RecursionDesired = dh_RecursionDesired hdr,
     dh_RecursionAvailable = True, dh_RCode = RCodeRefused\<rparr>"

definition synthesizeRefused :: "dns_codec \<Rightarrow> bytes \<Rightarrow> string + bytes" where
  "synthesizeRefused D query = (case Start D query of Inl e \<Rightarrow> Inl e
     | Inr hdr \<Rightarrow> (case Question D query of Inl e \<Rightarrow> Inl e
     | Inr q \<Rightarrow> if \<not> add_question_ok D q then Inl ''dns: echo refusal question''
         else Finish D (refused_header hdr) [q] [] [] []))"

section \<open>Stripping service bindings\<close>

definition is_service_binding :: "resource \<Rightarrow> bool" where
  "is_service_binding r \<longleftrightarrow> rr_Type r = dnsTypeHTTPS \<or> rr_Type r = dnsTypeSVCB"

definition containsServiceBinding :: "resource list \<Rightarrow> bool" where
  "containsServiceBinding rs \<longleftrightarrow> list_ex is_service_binding rs"

definition readdResource :: "dns_codec \<Rightarrow> resource \<Rightarrow> bool" where
  "readdResource D r = (case rr_Body r of OtherBody _ \<Rightarrow> False | _ \<Rightarrow> add_resource_ok D r)"

fun rebuildSection :: "dns_codec \<Rightarrow> resource list \<Rightarrow> resource list option" where
  "rebuildSection D [] = Some []"
| "rebuildSection D (r # rs) =
     (if is_service_binding r then rebuildSection D rs
      else if \<not> readdResource D r then None
      else map_option ((#) r) (rebuildSection D rs))"

definition stripECHRecords :: "dns_codec \<Rightarrow> bytes \<Rightarrow> bytes" where
  "stripECHRecords D response = (case Start D response of Inl e \<Rightarrow> response
     | Inr hdr \<Rightarrow> (case AllQuestions D response of None \<Rightarrow> response
     | Some questions \<Rightarrow> (case AllAnswers D response of None \<Rightarrow> response
     | Some answers \<Rightarrow> (case AllAuthorities D response of None \<Rightarrow> response
     | Some authorities \<Rightarrow> (case AllAdditionals D response of None \<Rightarrow> response
     | Some additionals \<Rightarrow>
         if \<not> containsServiceBinding answers \<and> \<not> containsServiceBinding authorities \<and>
            \<not> containsServiceBinding additionals then response
         else if \<not> list_all (add_question_ok D) questions then response
         else (case rebuildSection D answers of None \<Rightarrow> response
         | Some an \<Rightarrow> (case rebuildSection D authorities of None \<Rightarrow> response
         | Some au \<Rightarrow> (case rebuildSection D additionals of None \<Rightarrow> response
         | Some ad \<Rightarrow> (case Finish D hdr questions an au ad of Inl e \<Rightarrow> response
         | Inr out \<Rightarrow> out)))))))))"

section \<open>Caching the answers\<close>

text \<open>\<open>clk n\<close> are the clock readings and the visited positions of the \<open>n\<close>-th \<open>Put\<close>.\<close>

type_synonym put_clock = "nat \<Rightarrow> time \<times> time \<times> nat \<times> nat"

definition clocked_Put :: "put_clock \<Rightarrow> nat \<Rightarrow> string \<Rightarrow> addr \<Rightarrow> duration \<Rightarrow> name_cache \<Rightarrow> name_cache" where
  "clocked_Put clk n qname ip ttl c = (case clk n of (t1, t2, i, j) \<Rightarrow> Put qname ip ttl t1 t2 i j c)"

definition ttl_duration :: "32 word \<Rightarrow> duration" where
  "ttl_duration w = uint w * second"

fun cache_items :: "put_clock \<Rightarrow> string \<Rightarrow> nat \<Rightarrow> answer_item list \<Rightarrow> name_cache \<Rightarrow> name_cache" where
  "cache_items clk qname n [] c = c"
| "cache_items clk qname n (a # rest) c =
     (case ai_Body a of
        None \<Rightarrow> c
      | Some body \<Rightarrow>
          if ai_Type a = TypeA then
            (case body of ABody w \<Rightarrow>
               cache_items clk qname (Suc n) rest (clocked_Put clk n qname (V4 w) (ttl_duration (ai_TTL a)) c)
             | _ \<Rightarrow> c)
          else if ai_Type a = TypeAAAA then
            (case body of AAAABody w \<Rightarrow>
               cache_items clk qname (Suc n) rest (clocked_Put clk n qname (V6 w '''') (ttl_duration (ai_TTL a)) c)
             | _ \<Rightarrow> c)
          else cache_items clk qname n rest c)"

definition cacheDNSAnswers ::
  "dns_codec \<Rightarrow> put_clock \<Rightarrow> name_cache option \<Rightarrow> string \<Rightarrow> bytes \<Rightarrow> name_cache option" where
  "cacheDNSAnswers D clk cache qname response = (case cache of None \<Rightarrow> None
     | Some c \<Rightarrow> (case Start D response of Inl e \<Rightarrow> Some c
     | Inr hdr \<Rightarrow> if \<not> SkipAllQuestions D response then Some c
         else Some (cache_items clk qname 0 (AnswerItems D response) c)))"

section \<open>handleDNS\<close>

definition resolverConfigured :: "handler \<Rightarrow> addr \<Rightarrow> bool" where
  "resolverConfigured h a = list_ex (\<lambda>r. Unmap r = Unmap a) (Resolvers h)"

definition resolverAllowed :: "handler \<Rightarrow> addr \<Rightarrow> bool" where
  "resolverAllowed h a0 = (let a = Unmap a0 in
     if Resolvers h \<noteq> [] then resolverConfigured h a else \<not> isInsideAddr a)"

record dns_out =
  do_reply :: "string + bytes"
  do_log :: "audit_event list"
  do_forwarded :: "(addr_port \<times> bytes) option"
  do_cache :: "name_cache option"

definition dns_listed :: "handler \<Rightarrow> string \<Rightarrow> bool" where
  "dns_listed h qname = (case Policy h of None \<Rightarrow> False | Some p \<Rightarrow> Allow (AllowHost p qname))"

definition handleDNS ::
  "dns_codec \<Rightarrow> put_clock \<Rightarrow> (addr_port \<Rightarrow> bytes \<Rightarrow> string + bytes) \<Rightarrow> handler \<Rightarrow> name_cache option \<Rightarrow>
   bytes \<Rightarrow> addr_port \<Rightarrow> dns_out" where
  "handleDNS D clk forward h nc query resolver =
     (let out = (\<lambda>r lg. \<lparr>do_reply = r, do_log = lg, do_forwarded = None, do_cache = nc\<rparr>) in
      case parseDNSQuestion D query of
        Inl err \<Rightarrow> out (Inl err) [Log ''egress_dns_error'' [(''error'', AStr err)]]
      | Inr (qid, qname, qtype) \<Rightarrow>
          (let listed = dns_listed h qname;
               passthrough = passes_through h qname;
               permissive = allowsBroad (Mode h) \<and> \<not> AllowlistLocked h;
               allowed = permissive \<or> listed \<or> passthrough;
               unlisted = allowed \<and> \<not> listed \<and> \<not> passthrough;
               ra = ap_addr resolver;
               foreignResolver = IsValid ra \<and> \<not> isInsideAddr ra \<and> \<not> resolverConfigured h ra;
               dnsFields = [(''qname'', AStr qname), (''qtype'', AStr (type_String D qtype)),
                  (''id'', AInt (uint qid))] @
                  (if foreignResolver then [(''signal'', AStr SignalForeignResolver)] else [])
           in if \<not> allowed then
                (case synthesizeRefused D query of
                   Inl rerr \<Rightarrow> out (Inl rerr) [Log ''egress_dns_error'' [(''qname'', AStr qname), (''error'', AStr rerr)]]
                 | Inr refused \<Rightarrow> out (Inr refused) [Log ''egress_dns_deny''
                     (if map_of dnsFields ''signal'' = None
                      then set_field ''signal'' (AStr SignalDenied) dnsFields else dnsFields)])
              else if \<not> resolverAllowed h ra then
                (case synthesizeRefused D query of
                   Inl rerr \<Rightarrow> out (Inl rerr) [Log ''egress_dns_error'' [(''qname'', AStr qname), (''error'', AStr rerr)]]
                 | Inr refused \<Rightarrow> out (Inr refused) [Log ''egress_dns_deny''
                     (set_field ''signal'' (AStr SignalResolverDenied)
                       (dnsFields @ [(''resolver'', AStr (ap_String resolver)),
                          (''reason'', AStr ''resolver not permitted'')]))])
              else (case forward resolver query of
                   Inl ferr \<Rightarrow>
                     (out (Inl ferr) [Log ''egress_dns_error''
                       (dnsFields @ [(''resolver'', AStr (ap_String resolver)), (''error'', AStr ferr)])])
                       \<lparr>do_forwarded := Some (resolver, query)\<rparr>
                 | Inr resp0 \<Rightarrow>
                     (let resp = stripECHRecords D resp0 in
                      \<lparr>do_reply = Inr resp,
                       do_log = [Log ''egress_dns_allow'' (dnsFields @ [(''resolver'', AStr (ap_String resolver))] @
                          (if unlisted then [(''unlisted'', ABool True)] else []))],
                       do_forwarded = Some (resolver, query),
                       do_cache = cacheDNSAnswers D clk nc qname resp\<rparr>))))"

section \<open>What is forwarded\<close>

text \<open>A name the allowlist or the passthrough list covers.\<close>

definition permitted :: "handler \<Rightarrow> string \<Rightarrow> bool" where
  "permitted h name \<longleftrightarrow> dns_listed h name \<or> passes_through h name"

lemma permitted_fold: "normalizeHost a = normalizeHost b \<Longrightarrow> permitted h a = permitted h b"
  by (simp add: permitted_def dns_listed_def passes_through_def AllowHost_def split: option.splits)

lemma handleDNS_forwarded:
  assumes "do_forwarded (handleDNS D clk fwd h nc query resolver) = Some (r, q)"
  shows "r = resolver \<and> q = query \<and> resolverAllowed h (ap_addr resolver) \<and>
    (\<exists>qid qname qtype. parseDNSQuestion D query = Inr (qid, qname, qtype) \<and>
       (allowsBroad (Mode h) \<and> \<not> AllowlistLocked h \<or> permitted h qname))"
  using assms unfolding handleDNS_def Let_def permitted_def
  by (auto split: sum.splits if_splits)

lemma handleDNS_refused:
  assumes "parseDNSQuestion D query = Inr (qid, qname, qtype)"
    "\<not> (allowsBroad (Mode h) \<and> \<not> AllowlistLocked h \<or> permitted h qname) \<or> \<not> resolverAllowed h (ap_addr resolver)"
  shows "do_forwarded (handleDNS D clk fwd h nc query resolver) = None \<and>
    do_reply (handleDNS D clk fwd h nc query resolver) = synthesizeRefused D query \<and>
    do_cache (handleDNS D clk fwd h nc query resolver) = nc"
  using assms(2) unfolding handleDNS_def Let_def permitted_def assms(1)
  by (auto split: sum.splits)

lemma resolverAllowed_configured: "Resolvers h \<noteq> [] \<Longrightarrow>
  resolverAllowed h a \<longleftrightarrow> (\<exists>r \<in> set (Resolvers h). Unmap r = Unmap (Unmap a))"
  by (simp add: resolverAllowed_def resolverConfigured_def list_ex_iff Let_def)

lemma handleDNS_log: "length (do_log (handleDNS D clk fwd h nc query resolver)) = 1"
  unfolding handleDNS_def Let_def by (auto split: sum.splits prod.splits)

section \<open>What is cached\<close>

definition is_put :: "string \<Rightarrow> nc_op \<Rightarrow> bool" where
  "is_put q op \<longleftrightarrow> (case op of OpPut h ip ttl t1 t2 i j \<Rightarrow> h = q | _ \<Rightarrow> False)"

lemma cache_items_run:
  "\<exists>ops. cache_items clk q n items c = nc_run ops c \<and> list_all (is_put q) ops"
proof (induction items arbitrary: n c)
  case Nil
  show ?case by (rule exI [of _ "[]"]) (simp add: nc_run_def)
next
  case (Cons a items)
  have stop: "\<exists>ops. c = nc_run ops c \<and> list_all (is_put q) ops"
    by (rule exI [of _ "[]"]) (simp add: nc_run_def)
  have put: "\<exists>ops. cache_items clk q (Suc n) items (clocked_Put clk n q ip ttl c) = nc_run ops c \<and> list_all (is_put q) ops"
    for ip ttl
  proof -
    obtain t1 t2 i j where k: "clk n = (t1, t2, i, j)" by (cases "clk n")
    obtain ops where "cache_items clk q (Suc n) items (clocked_Put clk n q ip ttl c) = nc_run ops (clocked_Put clk n q ip ttl c)"
      "list_all (is_put q) ops" using Cons.IH by blast
    then show ?thesis
      by (intro exI [of _ "OpPut q ip ttl t1 t2 i j # ops"]) (simp add: clocked_Put_def k nc_run_def is_put_def)
  qed
  show ?case
    using stop put Cons.IH by (auto split: option.split rbody.split)
qed

lemma handleDNS_cache:
  assumes "do_cache (handleDNS D clk fwd h (Some c) query resolver) = Some c'"
  shows "\<exists>ops. c' = nc_run ops c \<and>
    (ops = [] \<or> (\<exists>qid q qtype. parseDNSQuestion D query = Inr (qid, q, qtype) \<and>
       (allowsBroad (Mode h) \<and> \<not> AllowlistLocked h \<or> permitted h q) \<and> list_all (is_put q) ops))"
proof (cases "c' = c")
  case True
  then show ?thesis by (intro exI [of _ "[]"]) (simp add: nc_run_def)
next
  case False
  with assms obtain qid q qtype resp where p: "parseDNSQuestion D query = Inr (qid, q, qtype)"
    "allowsBroad (Mode h) \<and> \<not> AllowlistLocked h \<or> permitted h q"
    and c: "cacheDNSAnswers D clk (Some c) q resp = Some c'"
    unfolding handleDNS_def Let_def permitted_def by (auto split: sum.splits if_splits)
  from c False have "c' = cache_items clk q 0 (AnswerItems D resp) c"
    by (auto simp: cacheDNSAnswers_def split: sum.splits if_splits)
  with p cache_items_run [of clk q 0 "AnswerItems D resp" c] show ?thesis by auto
qed

subsection \<open>The name cache of a running mediator\<close>

text \<open>The states its name cache goes through: DNS answers fill it, connections look it up.\<close>

inductive cache_reach :: "dns_codec \<Rightarrow> handler \<Rightarrow> name_cache \<Rightarrow> bool" for D h where
  cr_new: "cache_reach D h NewNameCache"
| cr_dns: "cache_reach D h c \<Longrightarrow> do_cache (handleDNS D clk fwd h (Some c) query resolver) = Some c' \<Longrightarrow>
    cache_reach D h c'"
| cr_match: "cache_reach D h c \<Longrightarrow> cache_reach D h (snd (HostMatchesIP host ip now c))"
| cr_reverse: "cache_reach D h c \<Longrightarrow> cache_reach D h (snd (HostForIP ip now c))"

text \<open>A connection touches the cache through these lookups only.\<close>

lemma nc_matches_reach:
  "cache_reach D h c \<Longrightarrow> nc_matches host ip now (Some c) = (m, Some c') \<Longrightarrow> cache_reach D h c'"
  using cr_match [of D h c host ip now] by (auto simp: nc_matches_def split: prod.splits)

lemma nc_reverse_reach:
  "cache_reach D h c \<Longrightarrow> nc_reverse ip now (Some c) = (m, Some c') \<Longrightarrow> cache_reach D h c'"
  using cr_reverse [of D h c ip now] by (auto simp: nc_reverse_def split: prod.splits)

lemma nc_matches_Some: "nc_matches host ip now (Some c) = (m, nc') \<Longrightarrow> \<exists>c'. nc' = Some c'"
  by (auto simp: nc_matches_def split: prod.splits)

lemma nc_reverse_Some: "nc_reverse ip now (Some c) = (m, nc') \<Longrightarrow> \<exists>c'. nc' = Some c'"
  by (auto simp: nc_reverse_def split: prod.splits)

lemma identify_reach:
  assumes "cache_reach D h c" "identify h ce dst (Some c) = Some (x, nc')"
  shows "\<exists>c'. nc' = Some c' \<and> cache_reach D h c'"
proof -
  obtain sn tls where s: "sniffHost (ce_reader ce) dst = Some (sn, tls)"
    using sniffHost_no_panic [of "ce_reader ce" dst] by auto
  obtain m c1 where m: "nc_matches sn (ap_addr dst) (ce_now_bind ce) (Some c) = (m, Some c1)" "cache_reach D h c1"
    by (cases "nc_matches sn (ap_addr dst) (ce_now_bind ce) (Some c)")
      (metis assms(1) nc_matches_Some nc_matches_reach)
  have r: "\<exists>r c2. nc_reverse (ap_addr dst) (ce_now_rev ce) (Some c0) = (r, Some c2) \<and> cache_reach D h c2"
    if "cache_reach D h c0" for c0
    by (cases "nc_reverse (ap_addr dst) (ce_now_rev ce) (Some c0)")
      (metis that nc_reverse_Some nc_reverse_reach)
  from r [OF assms(1)] r [OF m(2)] show ?thesis
    using assms m unfolding identify_def s Let_def
    by (auto split: prod.splits if_splits option.splits)
qed

text \<open>Every insertion of a reachable cache came from an answer to a query that passed the filter.\<close>

definition vetted :: "handler \<Rightarrow> nc_op \<Rightarrow> bool" where
  "vetted h op \<longleftrightarrow> (case op of OpPut q ip ttl t1 t2 i j \<Rightarrow>
     allowsBroad (Mode h) \<and> \<not> AllowlistLocked h \<or> permitted h q | _ \<Rightarrow> True)"

lemma vetted_lookup [simp]: "vetted h (OpHostMatches host ip t)" "vetted h (OpHostFor ip t)"
  by (simp_all add: vetted_def)

lemma nc_run_append: "nc_run (xs @ ys) c = nc_run ys (nc_run xs c)"
  by (simp add: nc_run_def)

lemma cache_reach_run:
  "cache_reach D h c \<Longrightarrow> \<exists>ops. c = nc_run ops NewNameCache \<and> list_all (vetted h) ops"
proof (induction rule: cache_reach.induct)
  case cr_new
  show ?case by (rule exI [of _ "[]"]) (simp add: nc_run_def)
next
  case (cr_dns c clk fwd query resolver c')
  then obtain ops ops' where "c = nc_run ops NewNameCache" "list_all (vetted h) ops" "c' = nc_run ops' c"
    "list_all (vetted h) ops'"
    using handleDNS_cache [OF cr_dns.hyps(2)]
    by (fastforce simp: list_all_iff is_put_def vetted_def split: nc_op.splits)
  then show ?case by (intro exI [of _ "ops @ ops'"]) (simp add: nc_run_append)
next
  case (cr_match c host ip now)
  then obtain ops where "c = nc_run ops NewNameCache" "list_all (vetted h) ops" by blast
  then show ?case
    by (intro exI [of _ "ops @ [OpHostMatches host ip now]"]) (simp add: nc_run_snoc)
next
  case (cr_reverse c ip now)
  then obtain ops where "c = nc_run ops NewNameCache" "list_all (vetted h) ops" by blast
  then show ?case
    by (intro exI [of _ "ops @ [OpHostFor ip now]"]) (simp add: nc_run_snoc)
qed

lemma binds_vetted:
  assumes "binds n ip e op" "vetted h op" "AllowlistLocked h"
  shows "\<exists>q. n = normalizeHost q \<and> permitted h q"
  using assms by (cases op) (auto simp: vetted_def)

lemma names_vetted:
  assumes "names n ip e op" "vetted h op" "AllowlistLocked h"
  shows "\<exists>q. n = normalizeHost q \<and> permitted h q"
  using assms by (cases op) (auto simp: vetted_def)

lemma locked_binding:
  assumes "AllowlistLocked h" "cache_reach D h c" "fst (HostMatchesIP sn ip t c)"
  shows "permitted h sn"
proof -
  obtain ops where c: "c = nc_run ops NewNameCache" "list_all (vetted h) ops"
    using cache_reach_run [OF assms(2)] by blast
  obtain op e where "op \<in> set ops" "binds (normalizeHost sn) ip e op"
    using HostMatchesIP_observed [of sn ip t ops] assms(3) c(1) by blast
  with c(2) assms(1) binds_vetted show ?thesis
    by (metis list_all_iff permitted_fold)
qed

lemma locked_reverse:
  assumes "AllowlistLocked h" "cache_reach D h c" "fst (HostForIP ip t c) = Some n"
  shows "\<exists>q. n = normalizeHost q \<and> permitted h q"
proof -
  obtain ops where c: "c = nc_run ops NewNameCache" "list_all (vetted h) ops"
    using cache_reach_run [OF assms(2)] by blast
  obtain op e where "op \<in> set ops" "names n ip e op"
    using HostForIP_observed [of ip t ops n] assms(3) c(1) by blast
  with c(2) assms(1) names_vetted show ?thesis by (metis list_all_iff)
qed

lemma nc_inv_cache_reach: "cache_reach D h c \<Longrightarrow> nc_inv c"
  using cache_reach_run nc_inv_run [OF nc_inv_NewNameCache] by blast

section \<open>Stripping\<close>

text \<open>What the code relies on of the codec: building and parsing again gives the sections back.\<close>

definition codec_ok :: "dns_codec \<Rightarrow> bool" where
  "codec_ok D \<longleftrightarrow> (\<forall>hdr qs an au ad out. Finish D hdr qs an au ad = Inr out \<longrightarrow>
     Start D out = Inr hdr \<and> AllQuestions D out = Some qs \<and> AllAnswers D out = Some an \<and>
     AllAuthorities D out = Some au \<and> AllAdditionals D out = Some ad)"

lemma rebuildSection_filter:
  "rebuildSection D rs = Some rs' \<Longrightarrow> rs' = filter (\<lambda>r. \<not> is_service_binding r) rs"
  by (induction rs arbitrary: rs') (auto split: if_splits)

lemma rebuildSection_Some:
  "rebuildSection D rs \<noteq> None \<longleftrightarrow> list_all (\<lambda>r. is_service_binding r \<or> readdResource D r) rs"
  by (induction rs) auto

lemma not_containsServiceBinding_filter [simp]:
  "\<not> containsServiceBinding (filter (\<lambda>r. \<not> is_service_binding r) rs)"
  by (simp add: containsServiceBinding_def list_ex_iff)

lemma strip_cases:
  obtains (same) "stripECHRecords D resp = resp"
  | (rebuilt) hdr qs an au ad where "Start D resp = Inr hdr" "AllQuestions D resp = Some qs"
      "AllAnswers D resp = Some an" "AllAuthorities D resp = Some au" "AllAdditionals D resp = Some ad"
      "Finish D hdr qs (filter (\<lambda>r. \<not> is_service_binding r) an) (filter (\<lambda>r. \<not> is_service_binding r) au)
         (filter (\<lambda>r. \<not> is_service_binding r) ad) = Inr (stripECHRecords D resp)"
proof (cases "stripECHRecords D resp = resp")
  case False
  have "\<exists>hdr qs an au ad. Start D resp = Inr hdr \<and> AllQuestions D resp = Some qs \<and>
      AllAnswers D resp = Some an \<and> AllAuthorities D resp = Some au \<and> AllAdditionals D resp = Some ad \<and>
      Finish D hdr qs (filter (\<lambda>r. \<not> is_service_binding r) an) (filter (\<lambda>r. \<not> is_service_binding r) au)
         (filter (\<lambda>r. \<not> is_service_binding r) ad) = Inr x"
    if "stripECHRecords D resp = x" "x \<noteq> resp" for x
    using that unfolding stripECHRecords_def
    by (auto split: sum.splits option.splits if_splits dest!: rebuildSection_filter)
  with False rebuilt show thesis by blast
qed (rule same)

lemma strip_idem:
  assumes "codec_ok D"
  shows "stripECHRecords D (stripECHRecords D resp) = stripECHRecords D resp"
proof (cases rule: strip_cases [of D resp])
  case (rebuilt hdr qs an au ad)
  then show ?thesis
    using assms [unfolded codec_ok_def]
    by (simp add: stripECHRecords_def [of D "stripECHRecords D resp"])
qed simp

lemma strip_clean:
  assumes "codec_ok D" "Start D resp = Inr hdr" "AllQuestions D resp = Some qs"
    "AllAnswers D resp = Some an" "AllAuthorities D resp = Some au" "AllAdditionals D resp = Some ad"
    and "list_all (add_question_ok D) qs"
    and "\<forall>r \<in> set (an @ au @ ad). is_service_binding r \<or> readdResource D r"
    and fin: "Finish D hdr qs (filter (\<lambda>r. \<not> is_service_binding r) an) (filter (\<lambda>r. \<not> is_service_binding r) au)
      (filter (\<lambda>r. \<not> is_service_binding r) ad) = Inr out"
  shows "\<exists>an' au' ad'. AllAnswers D (stripECHRecords D resp) = Some an' \<and>
    AllAuthorities D (stripECHRecords D resp) = Some au' \<and> AllAdditionals D (stripECHRecords D resp) = Some ad' \<and>
    (an', au', ad') = (filter (\<lambda>r. \<not> is_service_binding r) an, filter (\<lambda>r. \<not> is_service_binding r) au,
      filter (\<lambda>r. \<not> is_service_binding r) ad)"
proof (cases "containsServiceBinding an \<or> containsServiceBinding au \<or> containsServiceBinding ad")
  case True
  have "rebuildSection D an \<noteq> None" "rebuildSection D au \<noteq> None" "rebuildSection D ad \<noteq> None"
    unfolding rebuildSection_Some list_all_iff using assms(8) by auto
  then obtain a b c where r: "rebuildSection D an = Some a" "rebuildSection D au = Some b"
    "rebuildSection D ad = Some c" by auto
  have o: "Finish D hdr qs a b c = Inr out" using fin r by (auto dest!: rebuildSection_filter)
  have "stripECHRecords D resp = out"
    using True by (auto simp: stripECHRecords_def assms(2-7) r o)
  with o r assms(1) [unfolded codec_ok_def] show ?thesis
    by (auto dest!: rebuildSection_filter)
next
  case False
  then have "stripECHRecords D resp = resp"
    by (simp add: stripECHRecords_def assms(2-6))
  moreover have "filter (\<lambda>r. \<not> is_service_binding r) rs = rs" if "\<not> containsServiceBinding rs" for rs
    using that by (simp add: containsServiceBinding_def list_ex_iff)
  ultimately show ?thesis using False assms(4-6) by simp
qed

end
