(* ===== verification/Quic.thy ===== *)
theory Quic
  imports ClientHello Caches
begin

text \<open>
  Reading the server name out of QUIC Initial packets (internal/egress/quic.go): the variable-length
  integers, the packet-number reconstruction, the frame parser, the Initial decryption, and the
  reassembly of the ClientHello.

  Package numbers and lengths on the wire are \<open>64 word\<close>; every slice and index is checked, so \<^term>\<open>None\<close> is
  a panic. The primitives HKDF, AES and AES-GCM are arguments (\<open>quic_crypto\<close>). A key or mask buffer has the
  length the code allocates for it, whatever the primitive yields (\<open>fill\<close>).
\<close>

section \<open>Constants\<close>

definition quicVersion1 :: nat where "quicVersion1 = 1"
definition quicVersion2 :: nat where "quicVersion2 = 0x6b3343cf"
definition maxQUICCrypto :: nat where "maxQUICCrypto = 65536"
definition maxQUICBufferedDatagrams :: nat where "maxQUICBufferedDatagrams = 16"
definition maxQUICBufferedBytes :: nat where "maxQUICBufferedBytes = 131072"
definition maxQUICInspections :: nat where "maxQUICInspections = 256"

definition quicV1InitialSalt :: bytes where
  "quicV1InitialSalt = [0x38, 0x76, 0x2c, 0xf7, 0xf5, 0x59, 0x34, 0xb3, 0x4d, 0x17, 0x9a, 0xe6, 0xa4,
     0xc8, 0x0c, 0xad, 0xcc, 0xbb, 0x7f, 0x0a]"

definition quicV2InitialSalt :: bytes where
  "quicV2InitialSalt = [0x0d, 0xed, 0xe3, 0xde, 0xf7, 0x00, 0xa6, 0xdb, 0x81, 0x93, 0x81, 0xbe, 0x6e,
     0x26, 0x9d, 0xcb, 0xf9, 0xbd, 0x2e, 0xd9]"

datatype quic_error =
    TooManyDatagrams | TooManyBytes | CryptoBufferLimit | NotClientHello | ExcessiveLength | NoSNI
  | NotLongHeader | UnsupportedVersion nat | NotInitial | InvalidDCID | InvalidSCID
  | InvalidTokenLength | TruncatedToken | InvalidPayloadLength | TruncatedPayload
  | KeyDerivation | CipherKey | InvalidPNLength | AuthFailed
  | InvalidFrameType | TruncatedAck | TruncatedAckRange | TruncatedAckECN
  | TruncatedCryptoOffset | TruncatedCryptoData | UnsupportedFrame "64 word" | NoCryptoFrame

type_synonym 'a quic = "(quic_error + 'a) go"

abbreviation qerr :: "quic_error \<Rightarrow> 'a quic" where "qerr e \<equiv> Some (Inl e)"
abbreviation qok :: "'a \<Rightarrow> 'a quic" where "qok x \<equiv> Some (Inr x)"

definition qbind :: "'a quic \<Rightarrow> ('a \<Rightarrow> 'b quic) \<Rightarrow> 'b quic" where
  "qbind m f = (case m of None \<Rightarrow> None | Some (Inl e) \<Rightarrow> qerr e | Some (Inr x) \<Rightarrow> f x)"

section \<open>Variable-length integers\<close>

definition varint_step :: "64 word \<Rightarrow> byte \<Rightarrow> 64 word" where
  "varint_step v b = (push_bit 8 v) OR ucast b"

definition readQUICVarint :: "bytes \<Rightarrow> (64 word \<times> nat) option go" where
  "readQUICVarint p =
     (if p = [] then Some None
      else do {
        b0 \<leftarrow> at p 0;
        let n = 2 ^ unat (drop_bit 6 b0);
        if length p < n then Some None
        else do {
          rest \<leftarrow> slice p 1 n;
          Some (Some (foldl varint_step (ucast (b0 AND 0x3f)) rest, n)) } })"

section \<open>Packet numbers\<close>

definition decodeQUICPacketNumber :: "64 word \<Rightarrow> 64 word \<Rightarrow> nat \<Rightarrow> 64 word" where
  "decodeQUICPacketNumber largest truncated bits =
     (let window = push_bit bits 1 :: 64 word;
          half = window div 2;
          mask = window - 1;
          expected = largest + 1;
          candidate = (expected AND NOT mask) OR truncated
      in if candidate + half \<le> expected \<and> candidate \<le> NOT 0 - window then candidate + window
         else if candidate > expected + half \<and> candidate \<ge> window then candidate - window
         else candidate)"

section \<open>Frames\<close>

record fragment =
  fr_offset :: "64 word"
  fr_data :: bytes

text \<open>Read \<open>k\<close> integers and drop them; the error is the one of the loop that reads them.\<close>

fun skip_varints :: "quic_error \<Rightarrow> nat \<Rightarrow> bytes \<Rightarrow> bytes quic" where
  "skip_varints e 0 p = qok p"
| "skip_varints e (Suc k) p = do {
     r \<leftarrow> readQUICVarint p;
     (case r of None \<Rightarrow> qerr e
      | Some (v, m) \<Rightarrow> do { p \<leftarrow> slice_from p m; skip_varints e k p }) }"

text \<open>The four integers of an ACK frame; the third is the number of ranges.\<close>

definition ack_head :: "bytes \<Rightarrow> (64 word \<times> bytes) quic" where
  "ack_head p = qbind (skip_varints TruncatedAck 2 p) (\<lambda>p. do {
     r \<leftarrow> readQUICVarint p;
     (case r of None \<Rightarrow> qerr TruncatedAck
      | Some (ranges, m) \<Rightarrow> do {
          p \<leftarrow> slice_from p m;
          qbind (skip_varints TruncatedAck 1 p) (\<lambda>p. qok (ranges, p)) }) })"

definition ack_frame :: "bool \<Rightarrow> bytes \<Rightarrow> bytes quic" where
  "ack_frame ecn p = qbind (ack_head p) (\<lambda>(ranges, p).
     qbind (skip_varints TruncatedAckRange (2 * unat ranges) p) (\<lambda>p.
       if ecn then skip_varints TruncatedAckECN 3 p else qok p))"

definition crypto_frame :: "bytes \<Rightarrow> (fragment \<times> bytes) quic" where
  "crypto_frame p = do {
     r \<leftarrow> readQUICVarint p;
     (case r of None \<Rightarrow> qerr TruncatedCryptoOffset
      | Some (offset, m) \<Rightarrow> do {
          p \<leftarrow> slice_from p m;
          r \<leftarrow> readQUICVarint p;
          (case r of None \<Rightarrow> qerr TruncatedCryptoData
           | Some (len, m) \<Rightarrow>
               if unat len > length p - m then qerr TruncatedCryptoData
               else do {
                 p \<leftarrow> slice_from p m;
                 data \<leftarrow> slice_to p (unat len);
                 p \<leftarrow> slice_from p (unat len);
                 qok (\<lparr>fr_offset = offset, fr_data = data\<rparr>, p) }) }) }"

text \<open>
  One frame: what is left, and the fragment of a CRYPTO frame. The loop of
  \<open>parseQUICInitialFrames\<close> runs it until nothing is left; every frame takes at least its type byte, so
  fuel of one more than the length is enough (\<open>frames_fuel_enough\<close>).
\<close>

definition parse_frame :: "bytes \<Rightarrow> (bytes \<times> fragment option) quic" where
  "parse_frame p = do {
     r \<leftarrow> readQUICVarint p;
     (case r of None \<Rightarrow> qerr InvalidFrameType
      | Some (frameType, n) \<Rightarrow> do {
          p \<leftarrow> slice_from p n;
          if frameType = 0x00 \<or> frameType = 0x01 then qok (p, None)
          else if frameType = 0x02 \<or> frameType = 0x03 then
            qbind (ack_frame (frameType = 0x03) p) (\<lambda>p. qok (p, None))
          else if frameType = 0x06 then
            qbind (crypto_frame p) (\<lambda>(f, p). qok (p, Some f))
          else qerr (UnsupportedFrame frameType) }) }"

fun frames_loop :: "nat \<Rightarrow> bytes \<Rightarrow> fragment list \<Rightarrow> fragment list quic" where
  "frames_loop 0 p out = None"
| "frames_loop (Suc fuel) p out =
     (if p = [] then (if out = [] then qerr NoCryptoFrame else qok out)
      else qbind (parse_frame p) (\<lambda>(p, f).
        frames_loop fuel p (case f of Some f \<Rightarrow> out @ [f] | None \<Rightarrow> out)))"

definition parseQUICInitialFrames :: "bytes \<Rightarrow> fragment list quic" where
  "parseQUICInitialFrames p = frames_loop (Suc (length p)) p []"

section \<open>Decrypting an Initial\<close>

record quic_crypto =
  hkdf_Extract :: "bytes \<Rightarrow> bytes \<Rightarrow> bytes"
  hkdf_Expand :: "bytes \<Rightarrow> bytes \<Rightarrow> nat \<Rightarrow> bytes option"
  aes_Encrypt :: "bytes \<Rightarrow> bytes \<Rightarrow> bytes"
  gcm_Open :: "bytes \<Rightarrow> bytes \<Rightarrow> bytes \<Rightarrow> bytes \<Rightarrow> bytes option"

definition fill :: "nat \<Rightarrow> bytes \<Rightarrow> bytes" where
  "fill n bs = take n (bs @ replicate n 0)"

definition quicHKDFExpandLabel :: "quic_crypto \<Rightarrow> bytes \<Rightarrow> string \<Rightarrow> nat \<Rightarrow> bytes option" where
  "quicHKDFExpandLabel Q secret label len =
     (let fullLabel = ''tls13 '' @ label;
          info = put_be16 len @ [of_nat (length fullLabel)] @ go_bytes fullLabel @ [0]
      in map_option (fill len) (hkdf_Expand Q secret info len))"

definition quicInitialKeys :: "quic_crypto \<Rightarrow> bytes \<Rightarrow> bytes \<Rightarrow> string \<Rightarrow> (bytes \<times> bytes \<times> bytes) option" where
  "quicInitialKeys Q salt dcid labelPrefix = do {
     client \<leftarrow> quicHKDFExpandLabel Q (hkdf_Extract Q dcid salt) ''client in'' 32;
     key \<leftarrow> quicHKDFExpandLabel Q client (labelPrefix @ '' key'') 16;
     iv \<leftarrow> quicHKDFExpandLabel Q client (labelPrefix @ '' iv'') 12;
     hp \<leftarrow> quicHKDFExpandLabel Q client (labelPrefix @ '' hp'') 16;
     Some (key, iv, hp) }"

definition aes_key_ok :: "bytes \<Rightarrow> bool" where
  "aes_key_ok k \<longleftrightarrow> length k \<in> {16, 24, 32}"

text \<open>The nonce: the packet number, big-endian, into the end of the IV.\<close>

fun xor_pn :: "bytes \<Rightarrow> 64 word \<Rightarrow> bytes" where
  "xor_pn [] v = []"
| "xor_pn (b # bs) v = (if v = 0 then b # bs else (b XOR ucast v) # xor_pn bs (drop_bit 8 v))"

definition nonce_of :: "bytes \<Rightarrow> 64 word \<Rightarrow> bytes" where
  "nonce_of iv pn = rev (xor_pn (rev iv) pn)"

text \<open>Unmasking the packet number: \<open>i\<close> counts up, the header copy is updated in place.\<close>

fun unmask_pn :: "bytes \<Rightarrow> bytes \<Rightarrow> nat \<Rightarrow> nat \<Rightarrow> nat \<Rightarrow> bytes \<Rightarrow> 64 word \<Rightarrow> (bytes \<times> 64 word) go" where
  "unmask_pn packet hmask pnOffset i 0 header pn = Some (header, pn)"
| "unmask_pn packet hmask pnOffset i (Suc k) header pn = do {
     x \<leftarrow> at packet (pnOffset + i);
     m \<leftarrow> at hmask (i + 1);
     let b = x XOR m;
     _ \<leftarrow> at header (pnOffset + i);
     unmask_pn packet hmask pnOffset (Suc i) k (header[pnOffset + i := b]) (varint_step pn b) }"

text \<open>
  The header up to the packet number: the key-schedule parameters of the version, the destination
  connection ID, the offset of the packet number and the length behind it.
\<close>

record initial_header =
  ih_salt :: bytes
  ih_label :: string
  ih_dcid :: bytes
  ih_pnOffset :: nat
  ih_len :: "64 word"

text \<open>The token and the payload length, from position \<open>p\<close> behind the connection IDs.\<close>

definition initial_lengths :: "bytes \<Rightarrow> nat \<Rightarrow> (nat \<times> 64 word) quic" where
  "initial_lengths packet p = do {
     rest \<leftarrow> slice_from packet p;
     r \<leftarrow> readQUICVarint rest;
     (case r of None \<Rightarrow> qerr InvalidTokenLength
      | Some (tokenLen, n) \<Rightarrow>
         if unat tokenLen > length packet then qerr InvalidTokenLength
         else if unat tokenLen > length packet - (p + n) then qerr TruncatedToken
         else do {
           rest \<leftarrow> slice_from packet (p + n + unat tokenLen);
           r \<leftarrow> readQUICVarint rest;
           (case r of None \<Rightarrow> qerr InvalidPayloadLength
            | Some (protectedLen, m) \<Rightarrow>
               if unat protectedLen < 17 \<or> unat protectedLen > length packet - (p + n + unat tokenLen + m) \<or>
                  length packet < p + n + unat tokenLen + m + 4 + 16
               then qerr TruncatedPayload
               else qok (p + n + unat tokenLen + m, protectedLen)) }) }"

definition parse_initial_header :: "bytes \<Rightarrow> initial_header quic" where
  "parse_initial_header packet =
     (if length packet < 7 then qerr NotLongHeader
      else do {
        b0 \<leftarrow> at packet 0;
        if b0 AND 0xc0 \<noteq> 0xc0 then qerr NotLongHeader
        else do {
          vb \<leftarrow> slice packet 1 5;
          version \<leftarrow> Uint32 vb;
          if version \<noteq> quicVersion1 \<and> version \<noteq> quicVersion2 then qerr (UnsupportedVersion version)
          else do {
            let v2 = (version = quicVersion2);
            let initialType = (if v2 then 1 else 0);
            if (drop_bit 4 b0) AND 0x03 \<noteq> initialType then qerr NotInitial
            else do {
              dl \<leftarrow> at packet 5;
              let dcidLen = unat dl;
              let p = 6;
              if dcidLen > 20 \<or> length packet < p + dcidLen + 1 then qerr InvalidDCID
              else do {
                dcid \<leftarrow> slice packet p (p + dcidLen);
                let p = p + dcidLen;
                sl \<leftarrow> at packet p;
                let scidLen = unat sl;
                let p = p + 1;
                if scidLen > 20 \<or> length packet < p + scidLen then qerr InvalidSCID
                else qbind (initial_lengths packet (p + scidLen)) (\<lambda>(pnOffset, protectedLen).
                  qok \<lparr>ih_salt = (if v2 then quicV2InitialSalt else quicV1InitialSalt),
                       ih_label = (if v2 then ''quicv2'' else ''quic''),
                       ih_dcid = dcid, ih_pnOffset = pnOffset, ih_len = protectedLen\<rparr>) } } } } })"

definition decryptQUICInitial ::
  "quic_crypto \<Rightarrow> bytes \<Rightarrow> 64 word \<Rightarrow> (fragment list \<times> 64 word) quic" where
  "decryptQUICInitial Q packet largestPN =
     qbind (parse_initial_header packet) (\<lambda>ih.
       case quicInitialKeys Q (ih_salt ih) (ih_dcid ih) (ih_label ih) of
         None \<Rightarrow> qerr KeyDerivation
       | Some (key, iv, hp) \<Rightarrow>
           let pnOffset = ih_pnOffset ih; protectedLen = unat (ih_len ih) in
           if \<not> aes_key_ok hp then qerr CipherKey
           else do {
             sample \<leftarrow> slice packet (pnOffset + 4) (pnOffset + 4 + 16);
             let hmask = fill 16 (aes_Encrypt Q hp sample);
             b0 \<leftarrow> at packet 0;
             m0 \<leftarrow> at hmask 0;
             let first = b0 XOR (m0 AND 0x0f);
             let pnLen = unat (first AND 0x03) + 1;
             if protectedLen < pnLen + 16 then qerr InvalidPNLength
             else do {
               hdr \<leftarrow> slice_to packet (pnOffset + pnLen);
               (header, truncatedPN) \<leftarrow> unmask_pn packet hmask pnOffset 0 pnLen (hdr[0 := first]) 0;
               let pn = decodeQUICPacketNumber largestPN truncatedPN (pnLen * 8);
               if \<not> aes_key_ok key then qerr CipherKey
               else do {
                 ciphertext \<leftarrow> slice packet (pnOffset + pnLen) (pnOffset + protectedLen);
                 (case gcm_Open Q key (nonce_of iv pn) ciphertext header of
                    None \<Rightarrow> qerr AuthFailed
                  | Some plain \<Rightarrow> qbind (parseQUICInitialFrames plain) (\<lambda>fs. qok (fs, pn))) } } })"

section \<open>Reassembly\<close>

record quic_inspection =
  largestPN :: "64 word"
  havePN :: bool
  crypto :: bytes
  present :: "bool list"
  buffered_pkts :: "bytes list"
  bufferedBytes :: nat
  lastSeen :: time

definition new_inspection :: quic_inspection where
  "new_inspection = \<lparr>largestPN = 0, havePN = False, crypto = [], present = [], buffered_pkts = [],
     bufferedBytes = 0, lastSeen = 0\<rparr>"

definition allPresent :: "bool list \<Rightarrow> bool" where
  "allPresent p = list_all (\<lambda>x. x) p"

text \<open>One fragment into the buffer; \<open>end\<close> is a \<open>uint64\<close> sum.\<close>

definition place :: "nat \<Rightarrow> 'a list \<Rightarrow> 'a list \<Rightarrow> 'a list" where
  "place off xs buf = take off buf @ xs @ drop (off + length xs) buf"

definition add_fragment :: "fragment \<Rightarrow> quic_inspection \<Rightarrow> quic_inspection quic" where
  "add_fragment f q =
     (let e = fr_offset f + of_nat (length (fr_data f)) in
      if unat e > maxQUICCrypto then qerr CryptoBufferLimit
      else do {
        let grow = unat e - length (crypto q);
        let growp = (if unat e > length (crypto q) then unat e - length (present q) else 0);
        let cr = crypto q @ replicate grow 0;
        let pr = present q @ replicate growp False;
        _ \<leftarrow> slice cr (unat (fr_offset f)) (unat e);
        _ \<leftarrow> slice pr (unat (fr_offset f)) (unat e);
        qok (q\<lparr>crypto := place (unat (fr_offset f)) (fr_data f) cr,
               present := place (unat (fr_offset f)) (replicate (length (fr_data f)) True) pr\<rparr>) })"

text \<open>The inspection is a pointer: what was written before an error stays written.\<close>

fun add_fragments :: "fragment list \<Rightarrow> quic_inspection \<Rightarrow> ((quic_error option) \<times> quic_inspection) go" where
  "add_fragments [] q = Some (None, q)"
| "add_fragments (f # fs) q = (case add_fragment f q of
       None \<Rightarrow> None
     | Some (Inl e) \<Rightarrow> Some (Some e, q)
     | Some (Inr q') \<Rightarrow> add_fragments fs q')"

definition hello_of :: "quic_inspection \<Rightarrow> string option quic" where
  "hello_of q = do {
     short \<leftarrow> (if length (crypto q) < 4 then Some True
               else do { p4 \<leftarrow> slice_to (present q) 4; Some (\<not> allPresent p4) });
     if short then qok None
     else do {
       c0 \<leftarrow> at (crypto q) 0;
       if c0 \<noteq> 0x01 then qerr NotClientHello
       else do {
         c1 \<leftarrow> at (crypto q) 1; c2 \<leftarrow> at (crypto q) 2; c3 \<leftarrow> at (crypto q) 3;
         let want = 4 + unat c1 * 65536 + unat c2 * 256 + unat c3;
         if want > maxQUICCrypto then qerr ExcessiveLength
         else do {
           missing \<leftarrow> (if length (crypto q) < want then Some True
                       else do { pw \<leftarrow> slice_to (present q) want; Some (\<not> allPresent pw) });
           if missing then qok None
           else do {
             ch \<leftarrow> slice_to (crypto q) want;
             r \<leftarrow> parseClientHelloHandshakeSNI ch;
             (case r of None \<Rightarrow> qerr NoSNI | Some host \<Rightarrow> qok (Some (normalizeHost host))) } } } } }"

definition quic_add ::
  "quic_crypto \<Rightarrow> time \<Rightarrow> bytes \<Rightarrow> quic_inspection \<Rightarrow> ((quic_error + string option) \<times> quic_inspection) go" where
  "quic_add Q now packet q0 =
     (let q = q0\<lparr>lastSeen := now\<rparr> in
      if length (buffered_pkts q) \<ge> maxQUICBufferedDatagrams then Some (Inl TooManyDatagrams, q)
      else if int (length packet) > int maxQUICBufferedBytes - int (bufferedBytes q) then Some (Inl TooManyBytes, q)
      else case decryptQUICInitial Q packet (largestPN q) of
          None \<Rightarrow> None
        | Some (Inl e) \<Rightarrow> Some (Inl e, q)
        | Some (Inr (fragments, pn)) \<Rightarrow>
            (let q = (if \<not> havePN q \<or> pn > largestPN q then q\<lparr>largestPN := pn, havePN := True\<rparr> else q);
                 q = q\<lparr>buffered_pkts := buffered_pkts q @ [packet], bufferedBytes := bufferedBytes q + length packet\<rparr>
             in case add_fragments fragments q of
                  None \<Rightarrow> None
                | Some (Some e, q) \<Rightarrow> Some (Inl e, q)
                | Some (None, q) \<Rightarrow> map_option (\<lambda>r. (r, q)) (hello_of q)))"

section \<open>Numbers on the wire\<close>

lemma or_add_word: "(\<And>n. \<not> bit a n \<or> \<not> bit b n) \<Longrightarrow> a OR b = a + b" for a b :: "'a::len word"
  by (rule sym) (rule disjunctive_add)

lemma unat_ucast_byte: "unat (ucast (b :: byte) :: 64 word) = unat b"
proof -
  have "unat b < 256" using unsigned_less [of b] by simp
  then show ?thesis by (simp add: unsigned_ucast_eq take_bit_eq_mod)
qed

lemma unat_varint_step:
  assumes "unat v < 2 ^ 56"
  shows "unat (varint_step v b) = unat v * 256 + unat b"
proof -
  have "varint_step v b = push_bit 8 v + ucast b"
    unfolding varint_step_def
    by (rule or_add_word) (auto simp: bit_push_bit_iff bit_ucast_iff dest: bit_imp_le_length)
  also have "push_bit 8 v = v * 256"
    by (simp add: push_bit_eq_mult)
  finally have e: "varint_step v b = v * 256 + ucast b" .
  have "unat b < 256" using unsigned_less [of b] by simp
  then show ?thesis
    unfolding e using assms by (simp add: unat_word_ariths unat_ucast_byte)
qed

lemma be_nat_Cons: "be_nat (b # bs) = unat b * 256 ^ length bs + be_nat bs"
proof -
  have "foldl (\<lambda>n b. n * 256 + unat (b :: byte)) a bs = a * 256 ^ length bs + foldl (\<lambda>n b. n * 256 + unat b) 0 bs" for a
  proof (induction bs arbitrary: a)
    case (Cons c cs)
    show ?case
      using Cons.IH [of "a * 256 + unat c"] Cons.IH [of "unat c"] by (simp add: add_mult_distrib mult.assoc)
  qed simp
  from this [of "unat b"] show ?thesis by (simp add: be_nat_def)
qed

lemma unat_foldl_varint:
  "(unat v + 1) * 256 ^ length bs \<le> 2 ^ 64 \<Longrightarrow>
   unat (foldl varint_step v bs) = unat v * 256 ^ length bs + be_nat bs"
proof (induction bs arbitrary: v)
  case Nil
  then show ?case by (simp add: be_nat_def)
next
  case (Cons b bs)
  have "(unat v + 1) * 256 \<le> (unat v + 1) * 256 ^ length (b # bs)"
    by (rule mult_le_mono2) simp
  with Cons.prems have v: "unat v < 2 ^ 56" by simp
  have "unat b < 256" using unsigned_less [of b] by simp
  then have "unat v * 256 + unat b + 1 \<le> (unat v + 1) * 256" by simp
  then have "(unat (varint_step v b) + 1) * 256 ^ length bs \<le> (unat v + 1) * 256 * 256 ^ length bs"
    unfolding unat_varint_step [OF v] by (rule mult_le_mono1)
  also have "\<dots> \<le> 2 ^ 64" using Cons.prems by (simp add: algebra_simps)
  finally show ?case
    by (simp add: Cons.IH unat_varint_step [OF v] be_nat_Cons algebra_simps)
qed

lemma unat_and_63: "unat ((b :: byte) AND 0x3f) = unat b mod 64"
proof -
  have "(0x3f :: byte) = mask 6" by (simp add: mask_eq_exp_minus_1)
  then have "unat (b AND 0x3f) = take_bit 6 (unat b)" by (simp only: take_bit_eq_mask [symmetric] unsigned_take_bit_eq)
  then show ?thesis by (simp add: take_bit_eq_mod)
qed

lemma unat_drop_6: "unat (drop_bit 6 (b :: byte)) = unat b div 64"
  by (simp only: unat_drop_bit_eq) (simp add: drop_bit_eq_div)

lemma mult_div_mod_split: "(x::nat) * y = x mod k * y + x div k * (k * y)"
  by (metis add.commute add_mult_distrib div_mult_mod_eq mult.assoc)

lemma readQUICVarint_no_panic: "\<exists>r. readQUICVarint p = Some r"
  by (cases p) (simp_all add: readQUICVarint_def Let_def at_def slice_def)

lemma readQUICVarint_value:
  assumes "readQUICVarint p = Some (Some (v, n))"
  shows "n \<in> {1, 2, 4, 8} \<and> n \<le> length p \<and> unat v = be_nat (take n p) mod 2 ^ (8 * n - 2)"
proof -
  from assms obtain b bs where p: "p = b # bs" by (cases p) (auto simp: readQUICVarint_def)
  let ?k = "unat b div 64"
  have b: "unat b < 256" using unsigned_less [of b] by simp
  then have "?k \<in> {0, 1, 2, 3}" by auto
  then have n8: "2 ^ ?k \<in> {1, 2, 4, 8::nat}" by auto
  from assms have n: "n = 2 ^ ?k" "n \<le> length p"
    and v: "v = foldl varint_step (ucast (b AND 0x3f)) (take (n - 1) bs)"
    by (auto simp: readQUICVarint_def Let_def at_def slice_def p unat_drop_6 drop_take split: if_splits)
  have n1: "n \<in> {1, 2, 4, 8}" using n(1) n8 by simp
  let ?bs = "take (n - 1) bs"
  have l: "length ?bs = n - 1" using n(2) p by simp
  have v0: "unat (ucast (b AND 0x3f) :: 64 word) = unat b mod 64"
    by (simp add: unat_ucast_byte unat_and_63)
  have m64: "unat b mod 64 < 64" by simp
  have "(unat b mod 64 + 1) * 256 ^ (n - 1) \<le> 64 * 256 ^ (n - 1)"
    by (rule mult_le_mono1) (use m64 in linarith)
  also have "\<dots> \<le> (2::nat) ^ 64" using n1 by auto
  finally have "unat v = unat b mod 64 * 256 ^ (n - 1) + be_nat ?bs"
    unfolding v using unat_foldl_varint [of "ucast (b AND 0x3f)" ?bs, unfolded l v0] by blast
  moreover have "be_nat (take n p) = unat b * 256 ^ (n - 1) + be_nat ?bs"
    using n1 l by (cases n) (simp_all add: p be_nat_Cons)
  moreover have "(unat b * 256 ^ (n - 1) + be_nat ?bs) mod (64 * 256 ^ (n - 1)) =
      unat b mod 64 * 256 ^ (n - 1) + be_nat ?bs"
  proof -
    have e: "be_nat ?bs < 256 ^ (n - 1)" using be_nat_less [of ?bs] l by simp
    have "unat b * 256 ^ (n - 1) + be_nat ?bs =
        unat b mod 64 * 256 ^ (n - 1) + be_nat ?bs + (unat b div 64) * (64 * 256 ^ (n - 1))"
      by (subst mult_div_mod_split [of "unat b" _ 64]) simp
    moreover have "unat b mod 64 * 256 ^ (n - 1) + be_nat ?bs < 64 * 256 ^ (n - 1)"
    proof -
      have "unat b mod 64 * 256 ^ (n - 1) \<le> 63 * (256 :: nat) ^ (n - 1)"
        by (rule mult_le_mono1) (use m64 in linarith)
      with e show ?thesis by linarith
    qed
    ultimately show ?thesis by (simp only: mod_mult_self1 mod_less)
  qed
  moreover have "(64::nat) * 256 ^ (n - 1) = 2 ^ (8 * n - 2)" using n1 by auto
  ultimately show ?thesis using n(2) n1 by simp
qed

lemma decode_pn_arith:
  fixes E P W H :: int
  assumes "W = 2 * H" "0 < H" "0 \<le> P" "0 \<le> E" "E < P + H" "P \<le> E + H"
  defines "C \<equiv> E div W * W + P mod W"
  shows "P = (if C + H \<le> E then C + W else if C > E + H \<and> C \<ge> W then C - W else C)"
proof -
  let ?a = "E div W" and ?b = "P div W"
  have W: "0 < W" using assms by simp
  have e: "E = ?a * W + E mod W" "0 \<le> E mod W" "E mod W < W"
    and p: "P = ?b * W + P mod W" "0 \<le> P mod W" "P mod W < W"
    using W by simp_all
  have d: "(?a + 2) * W = ?a * W + 2 * W" "(?b + 2) * W = ?b * W + 2 * W" by (simp_all add: algebra_simps)
  have "?b * W < (?a + 2) * W" unfolding d using e p assms(1,2,6) by linarith
  then have u: "?b < ?a + 2" using W by (simp add: mult_less_cancel_right)
  have "?a * W < (?b + 2) * W" unfolding d using e p assms(1,2,5) by linarith
  then have l: "?a < ?b + 2" using W by (simp add: mult_less_cancel_right)
  from u l consider "?b = ?a" | "?b = ?a + 1" | "?b = ?a - 1" by linarith
  then show ?thesis
  proof cases
    case 1
    then have "C = P" using p unfolding C_def by simp
    then show ?thesis using assms(1-6) by simp
  next
    case 2
    then have "P = C + W" using p unfolding C_def by (simp add: algebra_simps)
    then show ?thesis using assms(1-6) by simp
  next
    case 3
    then have "C = (?b + 1) * W + P mod W" unfolding C_def by simp
    then have "C = ?b * W + P mod W + W" by (simp add: distrib_right)
    with p(1) have "P = C - W" by linarith
    then show ?thesis using assms(1-6) by simp
  qed
qed

lemma unat_2p: "n < 64 \<Longrightarrow> unat (2 ^ n :: 64 word) = 2 ^ n"
proof -
  assume "n < 64"
  then have l: "(2::nat) ^ n < 2 ^ 64" by (intro power_strict_increasing) auto
  have "unat (2 ^ n :: 64 word) = unat (of_nat (2 ^ n) :: 64 word)" by simp
  also have "\<dots> = 2 ^ n mod 2 ^ LENGTH(64)" by (simp only: unsigned_of_nat take_bit_eq_mod of_nat_id)
  also have "\<dots> = 2 ^ n" using l by simp
  finally show ?thesis .
qed

lemma unat_clear_low:
  assumes "n < 64"
  shows "unat ((x :: 64 word) AND NOT (mask n)) = unat x div 2 ^ n * 2 ^ n"
proof -
  have "x AND NOT (mask n) = push_bit n (drop_bit n x)"
    by (rule bit_word_eqI) (auto simp: bit_simps)
  also have "\<dots> = drop_bit n x * 2 ^ n" by (simp add: push_bit_eq_mult)
  finally have e: "x AND NOT (mask n) = drop_bit n x * 2 ^ n" .
  have d: "unat (drop_bit n x) = unat x div 2 ^ n"
    by (simp only: unat_drop_bit_eq) (simp add: drop_bit_eq_div)
  have p: "unat (2 ^ n :: 64 word) = 2 ^ n"
    using assms by (rule unat_2p)
  have "unat x div 2 ^ n * 2 ^ n \<le> unat x" by simp
  also have "\<dots> < 2 ^ LENGTH(64)" by (rule unsigned_less)
  finally have "unat (drop_bit n x) * unat (2 ^ n :: 64 word) < 2 ^ LENGTH(64)" by (simp only: d p)
  then have "unat (drop_bit n x * 2 ^ n) = unat (drop_bit n x) * unat (2 ^ n :: 64 word)"
    by (simp only: unat_mult_lem)
  then show ?thesis by (simp only: e d p)
qed

lemma unat_candidate:
  assumes "n < 64" "unat t < 2 ^ n"
  shows "unat (((x :: 64 word) AND NOT (mask n)) OR t) = unat x div 2 ^ n * 2 ^ n + unat t"
proof -
  have t: "take_bit n t = t"
    using assms(2) by (metis take_bit_nat_eq_self unsigned_take_bit_eq word_unat_eq_iff)
  have "\<not> bit (x AND NOT (mask n)) k \<or> \<not> bit t k" for k
    using t by (metis bit_and_iff bit_mask_iff bit_not_iff bit_take_bit_iff bit_imp_possible_bit)
  then have e: "(x AND NOT (mask n)) OR t = (x AND NOT (mask n)) + t" by (rule or_add_word)
  have "unat x div 2 ^ n * 2 ^ n + unat t < 2 ^ LENGTH(64)"
  proof -
    have "unat x div 2 ^ n < 2 ^ (64 - n)"
    proof (rule less_mult_imp_div_less)
      have "unat x < 2 ^ 64" using unsigned_less [of x] by simp
      also have "(2::nat) ^ 64 = 2 ^ (64 - n) * 2 ^ n" using assms(1) by (simp flip: power_add)
      finally show "unat x < 2 ^ (64 - n) * 2 ^ n" .
    qed
    then have "Suc (unat x div 2 ^ n) * 2 ^ n \<le> 2 ^ (64 - n) * 2 ^ n"
      by (intro mult_le_mono1) simp
    also have "\<dots> = (2::nat) ^ 64" using assms(1) by (simp flip: power_add)
    finally show ?thesis using assms(2) by simp
  qed
  then show ?thesis
    unfolding e using unat_clear_low [OF assms(1), of x] by (metis unat_add_lem)
qed

lemma decode_pn_nat:
  fixes E P W H :: nat
  assumes "W = 2 * H" "0 < H" "E < P + H" "P \<le> E + H"
  shows "P = (if E div W * W + P mod W + H \<le> E then E div W * W + P mod W + W
    else if E div W * W + P mod W > E + H \<and> E div W * W + P mod W \<ge> W then E div W * W + P mod W - W
    else E div W * W + P mod W)"
proof -
  define C where "C = E div W * W + P mod W"
  have c: "int C = int E div int W * int W + int P mod int W"
    by (simp add: C_def zdiv_int zmod_int)
  have "int P = (if int C + int H \<le> int E then int C + int W
      else if int C > int E + int H \<and> int C \<ge> int W then int C - int W else int C)"
    unfolding c by (rule decode_pn_arith) (use assms in auto)
  then have "P = (if C + H \<le> E then C + W else if C > E + H \<and> C \<ge> W then C - W else C)"
    by (auto split: if_splits)
  then show ?thesis by (simp only: C_def)
qed

lemma decode_pn:
  assumes "bits \<in> {8, 16, 24, 32}" "unat largest < 2 ^ 62" "unat pn < 2 ^ 62"
    and "unat largest + 1 < unat pn + 2 ^ (bits - 1)" "unat pn \<le> unat largest + 1 + 2 ^ (bits - 1)"
    and "unat trunc = unat pn mod 2 ^ bits"
  shows "decodeQUICPacketNumber largest trunc bits = pn"
proof -
  let ?W = "2 ^ bits :: nat" and ?H = "2 ^ (bits - 1) :: nat" and ?E = "unat largest + 1"
  let ?C = "?E div ?W * ?W + unat pn mod ?W"
  have b: "bits < 64" "?W = 2 * ?H" "?W \<le> 2 ^ 32" using assms(1) by auto
  define w h e c where "w = (push_bit bits 1 :: 64 word)" and "h = w div 2" and "e = largest + 1"
    and "c = (e AND NOT (w - 1)) OR trunc"
  have w: "unat w = ?W" unfolding w_def using unat_2p [OF b(1)] by simp
  have h: "unat h = ?H" unfolding h_def using w b by (simp add: unat_div)
  have e: "unat e = ?E" unfolding e_def using assms(2) by (simp add: unat_word_ariths)
  have m: "w - 1 = mask bits" unfolding w_def by (simp add: mask_eq_exp_minus_1)
  have c: "unat c = ?C"
    unfolding c_def m using unat_candidate [OF b(1), of trunc e] assms(6) e by simp
  have cb: "?C < 2 ^ 63" 
  proof -
    have "?E div ?W * ?W \<le> ?E" by simp
    moreover have "unat pn mod ?W < ?W" by simp
    moreover have "(2::nat) ^ 62 + 2 ^ 32 + 1 < 2 ^ 63" by simp
    ultimately show ?thesis using assms(2) b(3) by linarith
  qed
  have ch: "unat (c + h) = ?C + ?H" "unat (e + h) = ?E + ?H" "unat (c + w) = ?C + ?W"
    using cb c h e w b assms(2) by (simp_all add: unat_word_ariths)
  have nw: "c \<le> NOT 0 - w"
  proof -
    have mx: "unat (NOT 0 :: 64 word) = 2 ^ 64 - 1"
      by (simp add: unsigned_minus_1_eq_mask mask_eq_exp_minus_1)
    have wb: "unat w \<le> 2 ^ 32" using w b(3) by simp
    then have "w \<le> NOT 0" by (simp add: word_le_nat_alt mx [simplified])
    then have "unat (NOT 0 - w) = 2 ^ 64 - 1 - unat w" by (simp only: unat_sub mx)
    with cb c wb show ?thesis by (simp add: word_le_nat_alt)
  qed
  have pn: "unat pn = (if ?C + ?H \<le> ?E then ?C + ?W else if ?C > ?E + ?H \<and> ?C \<ge> ?W then ?C - ?W else ?C)"
    by (rule decode_pn_nat [OF b(2) _ assms(4,5)]) simp
  have "unat (decodeQUICPacketNumber largest trunc bits) = unat pn"
    unfolding decodeQUICPacketNumber_def Let_def w_def [symmetric] h_def [symmetric] e_def [symmetric] c_def [symmetric]
    using nw pn ch c e w h by (auto simp: word_le_nat_alt word_less_nat_alt unat_sub_if')
  then show ?thesis by (simp add: word_unat_eq_iff)
qed

section \<open>No panic, and progress\<close>

lemma qbind_simps [simp]:
  "qbind None f = None" "qbind (qerr e) f = qerr e" "qbind (qok x) f = f x"
  by (simp_all add: qbind_def)

text \<open>A parser step is \<open>safe\<close> for \<open>P\<close> when it does not panic and what it yields satisfies \<open>P\<close>.\<close>

definition safe :: "('a \<Rightarrow> bool) \<Rightarrow> 'a quic \<Rightarrow> bool" where
  "safe P m \<longleftrightarrow> (case m of None \<Rightarrow> False | Some (Inl e) \<Rightarrow> True | Some (Inr x) \<Rightarrow> P x)"

lemma safe_simps [simp]: "safe P (qerr e)" "safe P (qok x) = P x" "\<not> safe P None"
  by (simp_all add: safe_def)

lemma safe_bind: "safe Q m \<Longrightarrow> (\<And>x. Q x \<Longrightarrow> safe P (f x)) \<Longrightarrow> safe P (qbind m f)"
  by (cases m; cases "the m") simp_all

lemma safe_mono: "safe Q m \<Longrightarrow> (\<And>x. Q x \<Longrightarrow> P x) \<Longrightarrow> safe P m"
  by (auto simp: safe_def split: option.splits sum.splits)

lemma safe_no_panic: "safe P m \<Longrightarrow> \<exists>r. m = Some r"
  by (cases m) simp_all

lemma safe_qok: "safe P m \<Longrightarrow> m = qok x \<Longrightarrow> P x"
  by simp

lemma varint_cases:
  obtains (none) "readQUICVarint p = Some None"
  | (some) v n where "readQUICVarint p = Some (Some (v, n))" "1 \<le> n" "n \<le> length p" "unat v < 2 ^ 62"
proof (cases "readQUICVarint p")
  case None
  then show thesis using readQUICVarint_no_panic [of p] by simp
next
  case (Some r)
  show thesis
  proof (cases r)
    case None
    with Some none show thesis by simp
  next
    case vn: (Some vn)
    obtain v n where e: "vn = (v, n)" by (cases vn)
    have val: "n \<in> {1, 2, 4, 8}" "n \<le> length p" "unat v = be_nat (take n p) mod 2 ^ (8 * n - 2)"
      using readQUICVarint_value [of p v n] Some vn e by auto
    have "unat v < 2 ^ (8 * n - 2)" by (simp add: val(3))
    also have "(2::nat) ^ (8 * n - 2) \<le> 2 ^ 62" using val(1) by auto
    finally show thesis using some [of v n] Some vn e val(1,2) by auto
  qed
qed

lemma safe_varint:
  assumes "\<And>v n. 1 \<le> n \<Longrightarrow> n \<le> length p \<Longrightarrow> unat v < 2 ^ 62 \<Longrightarrow> safe P (f v n)"
  shows "safe P (do { r \<leftarrow> readQUICVarint p; case r of None \<Rightarrow> qerr e | Some (v, n) \<Rightarrow> f v n })"
  by (cases rule: varint_cases [of p]) (simp_all add: assms)

lemma safe_slices:
  "n \<le> length p \<Longrightarrow> safe P (do { x \<leftarrow> slice_from p n; f x }) = safe P (f (drop n p))"
  "n \<le> length p \<Longrightarrow> safe P (do { x \<leftarrow> slice_to p n; f x }) = safe P (f (take n p))"
  "i \<le> j \<Longrightarrow> j \<le> length p \<Longrightarrow> safe P (do { x \<leftarrow> slice p i j; f x }) = safe P (f (drop i (take j p)))"
  by (simp_all add: go_slice_defs)

lemma safe_at: "i < length p \<Longrightarrow> safe P (do { x \<leftarrow> at p i; f x }) = safe P (f (p ! i))"
  by (simp add: at_def)

lemma skip_varints_safe: "safe (\<lambda>p'. length p' \<le> length p) (skip_varints e k p)"
proof (induction k arbitrary: p)
  case (Suc k)
  show ?case
    unfolding skip_varints.simps
    by (rule safe_varint, simp add: safe_slices) (rule safe_mono [OF Suc.IH], simp)
qed simp

lemma ack_head_safe: "safe (\<lambda>(r, p'). length p' \<le> length p) (ack_head p)"
  unfolding ack_head_def
proof (rule safe_bind [OF skip_varints_safe])
  fix q :: bytes assume q: "length q \<le> length p"
  show "safe (\<lambda>(r, p'). length p' \<le> length p)
    (do { r \<leftarrow> readQUICVarint q;
       case r of None \<Rightarrow> qerr TruncatedAck
       | Some (ranges, m) \<Rightarrow> do { p \<leftarrow> slice_from q m;
           qbind (skip_varints TruncatedAck 1 p) (\<lambda>p. qok (ranges, p)) } })"
    by (rule safe_varint, simp add: safe_slices del: skip_varints.simps)
      (rule safe_bind [OF skip_varints_safe], use q in simp)
qed

lemma ack_frame_safe: "safe (\<lambda>p'. length p' \<le> length p) (ack_frame ecn p)"
  unfolding ack_frame_def
proof (rule safe_bind [OF ack_head_safe], clarify)
  fix r :: "64 word" and q :: bytes assume q: "length q \<le> length p"
  show "safe (\<lambda>p'. length p' \<le> length p) (qbind (skip_varints TruncatedAckRange (2 * unat r) q)
      (\<lambda>p. if ecn then skip_varints TruncatedAckECN 3 p else qok p))"
  proof (rule safe_bind [OF skip_varints_safe])
    fix q' :: bytes assume "length q' \<le> length q"
    with q show "safe (\<lambda>p'. length p' \<le> length p) (if ecn then skip_varints TruncatedAckECN 3 q' else qok q')"
      using safe_mono [OF skip_varints_safe [of q' TruncatedAckECN 3], of "\<lambda>p'. length p' \<le> length p"] by auto
  qed
qed

text \<open>A fragment whose end does not pass the 64-bit range, and whose data is no longer than \<open>n\<close>.\<close>

definition small_fragment :: "nat \<Rightarrow> fragment \<Rightarrow> bool" where
  "small_fragment n f \<longleftrightarrow> unat (fr_offset f) < 2 ^ 62 \<and> length (fr_data f) \<le> n"

lemma crypto_frame_safe:
  "safe (\<lambda>(f, p'). length p' \<le> length p \<and> small_fragment (length p) f) (crypto_frame p)"
  unfolding crypto_frame_def
proof (rule safe_varint)
  fix off :: "64 word" and m assume m: "m \<le> length p" and o: "unat off < 2 ^ 62"
  have "safe (\<lambda>(f, p'). length p' \<le> length p \<and> small_fragment (length p) f)
     (do { r \<leftarrow> readQUICVarint (drop m p);
          case r of None \<Rightarrow> qerr TruncatedCryptoData
           | Some (len, k) \<Rightarrow>
               if length (drop m p) - k < unat len then qerr TruncatedCryptoData
               else do {
                 p \<leftarrow> slice_from (drop m p) k;
                 data \<leftarrow> slice_to p (unat len);
                 p \<leftarrow> slice_from p (unat len);
                 qok (\<lparr>fr_offset = off, fr_data = data\<rparr>, p) } })"
    by (rule safe_varint) (use o in \<open>auto simp: safe_slices small_fragment_def\<close>)
  with m show "safe (\<lambda>(f, p'). length p' \<le> length p \<and> small_fragment (length p) f)
     (do { p \<leftarrow> slice_from p m; r \<leftarrow> readQUICVarint p;
          case r of None \<Rightarrow> qerr TruncatedCryptoData
           | Some (len, k) \<Rightarrow>
               if length p - k < unat len then qerr TruncatedCryptoData
               else do {
                 p \<leftarrow> slice_from p k;
                 data \<leftarrow> slice_to p (unat len);
                 p \<leftarrow> slice_from p (unat len);
                 qok (\<lparr>fr_offset = off, fr_data = data\<rparr>, p) } })"
    by (simp only: safe_slices)
qed

lemma parse_frame_safe:
  "safe (\<lambda>(p', f). length p' < length p \<and> (case f of None \<Rightarrow> True | Some f \<Rightarrow> small_fragment (length p) f)) (parse_frame p)"
  unfolding parse_frame_def
proof (rule safe_varint)
  fix t :: "64 word" and n assume n: "1 \<le> n" "n \<le> length p"
  then have l: "length p - n < length p" by linarith
  let ?P = "\<lambda>(p', f). length p' < length p \<and> (case f of None \<Rightarrow> True | Some f \<Rightarrow> small_fragment (length p) f)"
  have a: "safe ?P (qbind (ack_frame ecn (drop n p)) (\<lambda>p. qok (p, None)))" for ecn
    by (rule safe_bind [OF ack_frame_safe]) (use n in auto)
  have c: "safe ?P (qbind (crypto_frame (drop n p)) (\<lambda>(f, p). qok (p, Some f)))"
    by (rule safe_bind [OF crypto_frame_safe]) (use n in \<open>auto simp: small_fragment_def\<close>)
  show "safe ?P (do { p \<leftarrow> slice_from p n;
          if t = 0x00 \<or> t = 0x01 then qok (p, None)
          else if t = 0x02 \<or> t = 0x03 then qbind (ack_frame (t = 0x03) p) (\<lambda>p. qok (p, None))
          else if t = 0x06 then qbind (crypto_frame p) (\<lambda>(f, p). qok (p, Some f))
          else qerr (UnsupportedFrame t) })"
    using n a c l by (simp add: safe_slices)
qed

lemma frames_fuel_enough:
  "length p < fuel \<Longrightarrow> length p \<le> n \<Longrightarrow> list_all (small_fragment n) out \<Longrightarrow>
   safe (list_all (small_fragment n)) (frames_loop fuel p out)"
proof (induction fuel arbitrary: p out)
  case (Suc fuel)
  show ?case
  proof (cases "p = []")
    case False
    have "safe (list_all (small_fragment n)) (qbind (parse_frame p) (\<lambda>(p, f).
        frames_loop fuel p (case f of Some f \<Rightarrow> out @ [f] | None \<Rightarrow> out)))"
    proof (rule safe_bind [OF parse_frame_safe], clarify)
      fix q :: bytes and f assume q: "length q < length p" "case f of None \<Rightarrow> True | Some f \<Rightarrow> small_fragment (length p) f"
      show "safe (list_all (small_fragment n)) (frames_loop fuel q (case f of Some f \<Rightarrow> out @ [f] | None \<Rightarrow> out))"
        by (rule Suc.IH) (use q Suc.prems in \<open>auto simp: small_fragment_def split: option.splits\<close>)
    qed
    with False show ?thesis by simp
  qed (use Suc.prems in simp)
qed simp

lemma parseQUICInitialFrames_safe: "safe (list_all (small_fragment (length p))) (parseQUICInitialFrames p)"
  unfolding parseQUICInitialFrames_def by (rule frames_fuel_enough) simp_all

text \<open>The packet-number offset and the payload length stay inside the packet.\<close>

definition lengths_ok :: "bytes \<Rightarrow> nat \<Rightarrow> 64 word \<Rightarrow> bool" where
  "lengths_ok packet off len \<longleftrightarrow>
     off + 20 \<le> length packet \<and> 17 \<le> unat len \<and> off + unat len \<le> length packet"

lemma initial_lengths_safe:
  assumes "p \<le> length packet"
  shows "safe (\<lambda>(off, len). lengths_ok packet off len) (initial_lengths packet p)"
proof -
  have inner: "safe (\<lambda>(off, len). lengths_ok packet off len)
     (do { r \<leftarrow> readQUICVarint (drop q packet);
           case r of None \<Rightarrow> qerr InvalidPayloadLength
            | Some (protectedLen, m) \<Rightarrow>
               if unat protectedLen < 17 \<or> unat protectedLen > length packet - (q + m) \<or>
                  length packet < q + m + 4 + 16
               then qerr TruncatedPayload
               else qok (q + m, protectedLen) })" if "q \<le> length packet" for q
    by (rule safe_varint) (use that in \<open>auto simp: lengths_ok_def\<close>)
  have "safe (\<lambda>(off, len). lengths_ok packet off len)
     (do { r \<leftarrow> readQUICVarint (drop p packet);
      case r of None \<Rightarrow> qerr InvalidTokenLength
      | Some (tokenLen, n) \<Rightarrow>
         if unat tokenLen > length packet then qerr InvalidTokenLength
         else if unat tokenLen > length packet - (p + n) then qerr TruncatedToken
         else do {
           rest \<leftarrow> slice_from packet (p + n + unat tokenLen);
           r \<leftarrow> readQUICVarint rest;
           case r of None \<Rightarrow> qerr InvalidPayloadLength
            | Some (protectedLen, m) \<Rightarrow>
               if unat protectedLen < 17 \<or> unat protectedLen > length packet - (p + n + unat tokenLen + m) \<or>
                  length packet < p + n + unat tokenLen + m + 4 + 16
               then qerr TruncatedPayload
               else qok (p + n + unat tokenLen + m, protectedLen) } })"
  proof (rule safe_varint)
    fix t :: "64 word" and n assume n: "n \<le> length (drop p packet)"
    show "safe (\<lambda>(off, len). lengths_ok packet off len)
      (if unat t > length packet then qerr InvalidTokenLength
         else if unat t > length packet - (p + n) then qerr TruncatedToken
         else do {
           rest \<leftarrow> slice_from packet (p + n + unat t);
           r \<leftarrow> readQUICVarint rest;
           case r of None \<Rightarrow> qerr InvalidPayloadLength
            | Some (protectedLen, m) \<Rightarrow>
               if unat protectedLen < 17 \<or> unat protectedLen > length packet - (p + n + unat t + m) \<or>
                  length packet < p + n + unat t + m + 4 + 16
               then qerr TruncatedPayload
               else qok (p + n + unat t + m, protectedLen) })"
    proof (cases "unat t > length packet - (p + n)")
      case False
      then have q: "p + n + unat t \<le> length packet" using n assms by auto
      with inner [OF q] show ?thesis by (simp only: safe_slices safe_simps if_False if_True split: if_split) simp
    qed simp
  qed
  with assms show ?thesis unfolding initial_lengths_def by (simp only: safe_slices)
qed

lemma parse_initial_header_safe:
  "safe (\<lambda>ih. lengths_ok packet (ih_pnOffset ih) (ih_len ih)) (parse_initial_header packet)"
proof (cases "length packet < 7")
  case False
  have tail: "safe (\<lambda>ih. lengths_ok packet (ih_pnOffset ih) (ih_len ih))
     (qbind (initial_lengths packet p) (\<lambda>(off, len). qok \<lparr>ih_salt = s, ih_label = l, ih_dcid = d,
        ih_pnOffset = off, ih_len = len\<rparr>))" if "p \<le> length packet" for p s l d
    by (rule safe_bind [OF initial_lengths_safe [OF that]]) auto
  have a: "at packet 0 = Some (packet ! 0)" "at packet 5 = Some (packet ! 5)"
    and v: "slice packet 1 5 = Some (drop 1 (take 5 packet))"
      "Uint32 (drop 1 (take 5 packet)) = Some (be_nat (take 4 (drop 1 (take 5 packet))))"
    using False by (auto simp: at_def slice_def Uint32_def)
  let ?d = "unat (packet ! 5)"
  show ?thesis
  proof (cases "20 < ?d \<or> length packet < 6 + ?d + 1")
    case True
    then show ?thesis unfolding parse_initial_header_def Let_def by (simp add: False a v del: One_nat_def)
  next
    case d: False
    then have "slice packet 6 (6 + ?d) = Some (drop 6 (take (6 + ?d) packet))"
      "at packet (6 + ?d) = Some (packet ! (6 + ?d))"
      by (simp_all add: at_def slice_def)
    with tail [of "6 + ?d + 1 + unat (packet ! (6 + ?d))"] show ?thesis
      unfolding parse_initial_header_def Let_def by (simp add: False a v del: One_nat_def)
  qed
qed (simp add: parse_initial_header_def)

lemma unmask_pn_ok:
  assumes "pnOffset + i + k \<le> length packet" "i + k < length hmask" "length header = pnOffset + i + k"
  shows "\<exists>r. unmask_pn packet hmask pnOffset i k header pn = Some r"
  using assms
proof (induction k arbitrary: i header pn)
  case (Suc k)
  then show ?case
    by (simp add: at_def Let_def)
qed simp

lemma length_fill [simp]: "length (fill n bs) = n"
  by (simp add: fill_def)

lemma quicInitialKeys_length:
  "quicInitialKeys Q salt dcid l = Some (key, iv, hp) \<Longrightarrow> length key = 16 \<and> length iv = 12 \<and> length hp = 16"
  by (auto simp: quicInitialKeys_def quicHKDFExpandLabel_def Let_def split: bind_splits)

text \<open>What AES-GCM promises: the plaintext is no longer than the ciphertext.\<close>

definition gcm_ok :: "quic_crypto \<Rightarrow> bool" where
  "gcm_ok Q \<longleftrightarrow> (\<forall>key nonce ct hdr plain. gcm_Open Q key nonce ct hdr = Some plain \<longrightarrow> length plain \<le> length ct)"

lemma first_pn_len: "unat ((b :: byte) AND 0x03) + 1 \<le> 4"
proof -
  have "(0x03 :: byte) = mask 2" by (simp add: mask_eq_exp_minus_1)
  then have "unat (b AND 0x03) = take_bit 2 (unat b)"
    by (simp only: take_bit_eq_mask [symmetric] unsigned_take_bit_eq)
  then show ?thesis using take_bit_nat_less_exp [of 2 "unat b"] by simp
qed

lemma decryptQUICInitial_safe:
  assumes "gcm_ok Q"
  shows "safe (\<lambda>(fs, pn). list_all (small_fragment (length packet)) fs) (decryptQUICInitial Q packet largest)"
  unfolding decryptQUICInitial_def
proof (rule safe_bind [OF parse_initial_header_safe])
  fix ih :: initial_header assume l: "lengths_ok packet (ih_pnOffset ih) (ih_len ih)"
  let ?P = "\<lambda>(fs, pn :: 64 word). list_all (small_fragment (length packet)) fs"
  let ?o = "ih_pnOffset ih" and ?n = "unat (ih_len ih)"
  have frames: "safe ?P (qbind (parseQUICInitialFrames plain) (\<lambda>fs. qok (fs, pn)))"
    if "length plain \<le> length packet" for plain pn
    by (rule safe_bind [OF parseQUICInitialFrames_safe])
      (use that in \<open>auto simp: list_all_iff small_fragment_def\<close>)
  have rest: "safe ?P (do {
       hdr \<leftarrow> slice_to packet (?o + k);
       (header, truncatedPN) \<leftarrow> unmask_pn packet (fill 16 m) ?o 0 k (hdr[0 := first]) 0;
       let pn = decodeQUICPacketNumber largest truncatedPN (k * 8);
       if \<not> aes_key_ok key then qerr CipherKey
       else do {
         ciphertext \<leftarrow> slice packet (?o + k) (?o + ?n);
         (case gcm_Open Q key (nonce_of iv pn) ciphertext header of
            None \<Rightarrow> qerr AuthFailed
          | Some plain \<Rightarrow> qbind (parseQUICInitialFrames plain) (\<lambda>fs. qok (fs, pn))) } })"
    if k: "k \<le> 4" "\<not> ?n < k + 16" for k m first key iv
  proof -
    have b: "?o + k \<le> length packet" "?o + k \<le> ?o + ?n" "?o + ?n \<le> length packet"
      using l k by (auto simp: lengths_ok_def)
    obtain header pn where u: "unmask_pn packet (fill 16 m) ?o 0 k ((take (?o + k) packet)[0 := first]) 0 = Some (header, pn)"
      using unmask_pn_ok [of ?o 0 k packet "fill 16 m" "(take (?o + k) packet)[0 := first]" 0] b k by auto
    let ?c = "drop (?o + k) (take (?o + ?n) packet)"
    have "safe ?P (case gcm_Open Q key nonce ?c header of
            None \<Rightarrow> qerr AuthFailed
          | Some plain \<Rightarrow> qbind (parseQUICInitialFrames plain) (\<lambda>fs. qok (fs, pn')))" for nonce pn'
    proof (cases "gcm_Open Q key nonce ?c header")
      case (Some plain)
      then have "length plain \<le> length ?c" using assms unfolding gcm_ok_def by blast
      also have "\<dots> \<le> length packet" by simp
      finally show ?thesis using frames Some by simp
    qed simp
    with b u show ?thesis by (simp add: safe_slices Let_def)
  qed
  show "safe ?P (case quicInitialKeys Q (ih_salt ih) (ih_dcid ih) (ih_label ih) of
         None \<Rightarrow> qerr KeyDerivation
       | Some (key, iv, hp) \<Rightarrow>
           let pnOffset = ?o; protectedLen = ?n in
           if \<not> aes_key_ok hp then qerr CipherKey
           else do {
             sample \<leftarrow> slice packet (pnOffset + 4) (pnOffset + 4 + 16);
             let hmask = fill 16 (aes_Encrypt Q hp sample);
             b0 \<leftarrow> at packet 0;
             m0 \<leftarrow> at hmask 0;
             let first = b0 XOR (m0 AND 0x0f);
             let pnLen = unat (first AND 0x03) + 1;
             if protectedLen < pnLen + 16 then qerr InvalidPNLength
             else do {
               hdr \<leftarrow> slice_to packet (pnOffset + pnLen);
               (header, truncatedPN) \<leftarrow> unmask_pn packet hmask pnOffset 0 pnLen (hdr[0 := first]) 0;
               let pn = decodeQUICPacketNumber largest truncatedPN (pnLen * 8);
               if \<not> aes_key_ok key then qerr CipherKey
               else do {
                 ciphertext \<leftarrow> slice packet (pnOffset + pnLen) (pnOffset + protectedLen);
                 (case gcm_Open Q key (nonce_of iv pn) ciphertext header of
                    None \<Rightarrow> qerr AuthFailed
                  | Some plain \<Rightarrow> qbind (parseQUICInitialFrames plain) (\<lambda>fs. qok (fs, pn))) } } })"
  proof (cases "quicInitialKeys Q (ih_salt ih) (ih_dcid ih) (ih_label ih)")
    case (Some k)
    obtain key iv hp where k: "k = (key, iv, hp)" by (cases k)
    have p: "0 < length packet" "?o + 20 \<le> length packet" using l by (auto simp: lengths_ok_def)
    let ?m = "fill 16 (aes_Encrypt Q hp (drop (?o + 4) (take (?o + 4 + 16) packet)))"
    let ?f = "packet ! 0 XOR (?m ! 0 AND 0x0f)"
    have s: "slice packet (?o + 4) (?o + 4 + 16) = Some (drop (?o + 4) (take (?o + 4 + 16) packet))"
      "at packet 0 = Some (packet ! 0)" "at ?m 0 = Some (?m ! 0)"
      using p by (auto simp: at_def slice_def)
    show ?thesis
    proof (cases "?n < unat (?f AND 0x03) + 1 + 16")
      case True
      then show ?thesis
        unfolding Some k Let_def option.case prod.case s bind.bind_lunit by simp
    next
      case False
      then show ?thesis
        using rest [OF first_pn_len False, of "aes_Encrypt Q hp (drop (?o + 4) (take (?o + 4 + 16) packet))" ?f key iv]
        unfolding Some k Let_def option.case prod.case s bind.bind_lunit by simp
    qed
  qed simp
qed

section \<open>Reassembly: bounds and no panic\<close>

definition quic_inv :: "quic_inspection \<Rightarrow> bool" where
  "quic_inv q \<longleftrightarrow> length (present q) = length (crypto q) \<and> length (crypto q) \<le> maxQUICCrypto \<and>
     length (buffered_pkts q) \<le> maxQUICBufferedDatagrams \<and>
     bufferedBytes q = sum_list (map length (buffered_pkts q)) \<and> bufferedBytes q \<le> maxQUICBufferedBytes"

lemma quic_inv_new: "quic_inv new_inspection"
  by (simp add: quic_inv_def new_inspection_def)

lemma length_place: "off + length xs \<le> length buf \<Longrightarrow> length (place off xs buf) = length buf"
  by (simp add: place_def)

lemma nth_place:
  assumes "off + length xs \<le> length buf" "i < length buf"
  shows "place off xs buf ! i = (if off \<le> i \<and> i < off + length xs then xs ! (i - off) else buf ! i)"
  using assms by (auto simp: place_def nth_append min_absorb2)

text \<open>The end of a small fragment does not wrap.\<close>

lemma fragment_end:
  assumes "small_fragment n f" "n < 2 ^ 62"
  shows "unat (fr_offset f + of_nat (length (fr_data f))) = unat (fr_offset f) + length (fr_data f)"
proof -
  have l: "length (fr_data f) < 2 ^ 62" using assms by (simp add: small_fragment_def)
  then have "unat (of_nat (length (fr_data f)) :: 64 word) = length (fr_data f)"
    by (simp add: unsigned_of_nat take_bit_eq_mod)
  with assms(1) l show ?thesis by (simp add: small_fragment_def unat_word_ariths)
qed

lemma add_fragment_cases:
  assumes "small_fragment n f" "n < 2 ^ 62" "length (present q) = length (crypto q)"
  defines "e \<equiv> unat (fr_offset f) + length (fr_data f)"
  shows "add_fragment f q = (if e > maxQUICCrypto then qerr CryptoBufferLimit
    else qok (q\<lparr>crypto := place (unat (fr_offset f)) (fr_data f) (crypto q @ replicate (e - length (crypto q)) 0),
         present := place (unat (fr_offset f)) (replicate (length (fr_data f)) True)
           (present q @ replicate (e - length (crypto q)) False)\<rparr>))"
  unfolding add_fragment_def Let_def fragment_end [OF assms(1,2)] e_def [symmetric] using assms(3)
  by (auto simp: slice_def e_def)

lemma add_fragment_inv:
  assumes "small_fragment n f" "n < 2 ^ 62" "quic_inv q"
  shows "safe quic_inv (add_fragment f q)"
proof -
  let ?o = "unat (fr_offset f)" and ?d = "fr_data f"
  have l: "length (present q) = length (crypto q)" using assms(3) by (simp add: quic_inv_def)
  show ?thesis
    unfolding add_fragment_cases [OF assms(1,2) l] using assms(3)
    by (auto simp: quic_inv_def length_place)
qed

lemma add_fragments_inv:
  assumes "list_all (small_fragment n) fs" "n < 2 ^ 62" "quic_inv q"
  shows "\<exists>e q'. add_fragments fs q = Some (e, q') \<and> quic_inv q'"
  using assms
proof (induction fs arbitrary: q)
  case (Cons f fs)
  then have s: "safe quic_inv (add_fragment f q)" using add_fragment_inv [of n f q] by simp
  show ?case
  proof (cases "add_fragment f q")
    case (Some r)
    with s Cons show ?thesis by (cases r) auto
  qed (use s in simp)
qed simp

lemma hello_of_no_panic: "quic_inv q \<Longrightarrow> \<exists>r. hello_of q = Some r"
proof -
  assume i: "quic_inv q"
  have p: "\<exists>r. parseClientHelloHandshakeSNI c = Some r" for c by (rule parseClientHelloHandshakeSNI_no_panic)
  let ?c = "crypto q"
  let ?w = "4 + unat (?c ! 1) * 65536 + unat (?c ! 2) * 256 + unat (?c ! 3)"
  obtain r where r: "parseClientHelloHandshakeSNI (take ?w ?c) = Some r" using p by blast
  have l: "length (present q) = length ?c" using i by (simp add: quic_inv_def)
  show ?thesis
  proof (cases "length ?c < 4")
    case False
    then have a: "at ?c 0 = Some (?c ! 0)" "at ?c 1 = Some (?c ! 1)" "at ?c 2 = Some (?c ! 2)" "at ?c 3 = Some (?c ! 3)"
      "slice_to (present q) 4 = Some (take 4 (present q))"
      using l by (auto simp: at_def slice_to_def)
    have w: "\<not> length ?c < ?w \<Longrightarrow> slice_to (present q) ?w = Some (take ?w (present q))"
      "\<not> length ?c < ?w \<Longrightarrow> slice_to ?c ?w = Some (take ?w ?c)"
      using l by (simp_all add: slice_to_def)
    show ?thesis
      using False unfolding hello_of_def Let_def
      by (cases "length ?c < ?w") (simp_all add: a w r del: One_nat_def split: option.split)
  qed (simp add: hello_of_def)
qed

lemma quic_add_inv:
  assumes "gcm_ok Q" "quic_inv q"
  shows "\<exists>r q'. quic_add Q now packet q = Some (r, q') \<and> quic_inv q'"
proof -
  let ?q = "q\<lparr>lastSeen := now\<rparr>"
  have i: "quic_inv ?q" using assms(2) by (simp add: quic_inv_def)
  show ?thesis
  proof (cases "length (buffered_pkts q) \<ge> maxQUICBufferedDatagrams \<or>
      int (length packet) > int maxQUICBufferedBytes - int (bufferedBytes q)")
    case True
    then show ?thesis using i by (auto simp: quic_add_def Let_def)
  next
    case False
    then have room: "length (buffered_pkts q) < maxQUICBufferedDatagrams"
      "bufferedBytes q + length packet \<le> maxQUICBufferedBytes" by linarith+
    then have n: "length packet < 2 ^ 62" by (simp add: maxQUICBufferedBytes_def)
    have s: "safe (\<lambda>(fs, pn). list_all (small_fragment (length packet)) fs) (decryptQUICInitial Q packet (largestPN ?q))"
      by (rule decryptQUICInitial_safe [OF assms(1)])
    show ?thesis
    proof (cases "decryptQUICInitial Q packet (largestPN ?q)")
      case None
      with s show ?thesis by simp
    next
      case (Some d)
      show ?thesis
      proof (cases d)
        case (Inl e)
        with Some i False show ?thesis by (auto simp: quic_add_def Let_def)
      next
        case (Inr fp)
        obtain fs pn where fp: "fp = (fs, pn)" by (cases fp)
        with s Some Inr have fs: "list_all (small_fragment (length packet)) fs" by simp
        let ?q1 = "if \<not> havePN ?q \<or> pn > largestPN ?q then ?q\<lparr>largestPN := pn, havePN := True\<rparr> else ?q"
        let ?q2 = "?q1\<lparr>buffered_pkts := buffered_pkts ?q1 @ [packet], bufferedBytes := bufferedBytes ?q1 + length packet\<rparr>"
        have "quic_inv ?q2" using i room by (auto simp: quic_inv_def)
        from add_fragments_inv [OF fs n this] obtain e q' where a: "add_fragments fs ?q2 = Some (e, q')" "quic_inv q'"
          by blast
        obtain r where "hello_of q' = Some r" using hello_of_no_panic [OF a(2)] by blast
        with a Some Inr fp False show ?thesis
          by (cases e) (auto simp: quic_add_def Let_def simp del: if_split)
      qed
    qed
  qed
qed

end
