(* ===== verification/Udp.thy ===== *)
theory Udp
  imports Dns Quic
begin

text \<open>
  The UDP proxy (internal/egress/udp.go): the flow table, the per-source associations with their
  reference counts, the QUIC and STUN discrimination, the forwarding decision and the reply path.

  Flows and associations are pointers in the code and are compared by identity; here they carry an
  identifier drawn from a counter. An association is reached from the map \<open>associations\<close> and from its flows, so the
  associations live in a store \<open>heap\<close>. Each region under the proxy's lock is one function; positions visited
  first by a range over a map are arguments.
\<close>

section \<open>State\<close>

definition maxUDPFlows :: nat where "maxUDPFlows = 4096"
definition udpFlowIdle :: duration where "udpFlowIdle = 30 * second"

record udp_key =
  uk_src :: addr_port
  uk_dst :: addr_port

record udp_flow =
  uf_id :: nat
  uf_key :: udp_key
  uf_host :: string
  uf_assoc :: nat
  uf_lastSeen :: time

record udp_peer =
  pr_flows :: int
  pr_rep :: "udp_flow option"

record udp_assoc =
  ua_src :: addr_port
  ua_flows :: int
  ua_peers :: "(addr, udp_peer) gomap"
  ua_logged :: bool

record udp_proxy =
  flows :: "(udp_key, udp_flow) gomap"
  quics :: "(udp_key, quic_inspection) gomap"
  heap :: "(nat, udp_assoc) gomap"
  associations :: "(addr_port, nat) gomap"
  closed :: "nat list"
  next_id :: nat

definition new_udp_proxy :: udp_proxy where
  "new_udp_proxy = \<lparr>flows = [], quics = [], heap = [], associations = [], closed = [], next_id = 0\<rparr>"

section \<open>STUN\<close>

definition isSTUNDatagram :: "bytes \<Rightarrow> bool go" where
  "isSTUNDatagram payload =
     (if length payload < 20 then Some False
      else do {
        b0 \<leftarrow> at payload 0;
        if b0 AND 0xc0 \<noteq> 0 then Some False
        else do {
          l \<leftarrow> slice payload 2 4;
          bodyLen \<leftarrow> Uint16 l;
          if bodyLen mod 4 \<noteq> 0 then Some False
          else do {
            c \<leftarrow> slice payload 4 8;
            cookie \<leftarrow> Uint32 c;
            Some (cookie = 0x2112a442 \<and> 20 + bodyLen = length payload) } } })"

section \<open>Regions under the lock\<close>

definition touch :: "nat \<Rightarrow> time \<Rightarrow> udp_proxy \<Rightarrow> udp_proxy" where
  "touch fid now p = p\<lparr>flows := map (\<lambda>(k, f). (k, if uf_id f = fid then f\<lparr>uf_lastSeen := now\<rparr> else f)) (flows p)\<rparr>"

definition heap_map :: "nat \<Rightarrow> (udp_assoc \<Rightarrow> udp_assoc) \<Rightarrow> udp_proxy \<Rightarrow> udp_proxy" where
  "heap_map aid g p = (case map_of (heap p) aid of None \<Rightarrow> p
     | Some a \<Rightarrow> p\<lparr>heap := AList.update aid (g a) (heap p)\<rparr>)"

definition addFlowToAssociationLocked :: "udp_flow \<Rightarrow> udp_proxy \<Rightarrow> udp_proxy" where
  "addFlowToAssociationLocked f = heap_map (uf_assoc f) (\<lambda>a.
     let addr = ap_addr (uk_dst (uf_key f));
         peer = (case map_of (ua_peers a) addr of Some pr \<Rightarrow> pr | None \<Rightarrow> \<lparr>pr_flows = 0, pr_rep = None\<rparr>)
     in a\<lparr>ua_flows := ua_flows a + 1,
          ua_peers := AList.update addr \<lparr>pr_flows = pr_flows peer + 1, pr_rep = Some f\<rparr> (ua_peers a)\<rparr>)"

text \<open>The candidates for a new representative; \<open>i\<close> picks the one the range visits first.\<close>

definition candidates :: "nat \<Rightarrow> addr \<Rightarrow> udp_proxy \<Rightarrow> udp_flow list" where
  "candidates aid addr p = filter (\<lambda>f. uf_assoc f = aid \<and> ap_addr (uk_dst (uf_key f)) = addr) (map snd (flows p))"

definition pick :: "nat \<Rightarrow> 'a list \<Rightarrow> 'a option" where
  "pick i xs = (if xs = [] then None else Some (xs ! (i mod length xs)))"

definition leave_assoc :: "nat \<Rightarrow> udp_flow list \<Rightarrow> udp_flow \<Rightarrow> udp_assoc \<Rightarrow> udp_assoc" where
  "leave_assoc i cs f a0 =
     (let addr = ap_addr (uk_dst (uf_key f));
          a = a0\<lparr>ua_flows := ua_flows a0 - 1\<rparr>
      in case map_of (ua_peers a) addr of
           None \<Rightarrow> a
         | Some peer \<Rightarrow>
             (let n = pr_flows peer - 1 in
              if n = 0 then a\<lparr>ua_peers := AList.delete addr (ua_peers a)\<rparr>
              else if map_option uf_id (pr_rep peer) \<noteq> Some (uf_id f) then
                a\<lparr>ua_peers := AList.update addr (peer\<lparr>pr_flows := n\<rparr>) (ua_peers a)\<rparr>
              else a\<lparr>ua_peers := AList.update addr \<lparr>pr_flows = n, pr_rep = pick i cs\<rparr> (ua_peers a)\<rparr>))"

definition removeFlowFromAssociationLocked :: "nat \<Rightarrow> udp_flow \<Rightarrow> udp_proxy \<Rightarrow> udp_proxy" where
  "removeFlowFromAssociationLocked i f p =
     heap_map (uf_assoc f) (leave_assoc i (candidates (uf_assoc f) (ap_addr (uk_dst (uf_key f))) p) f) p"

definition removeAssociationIfUnusedLocked :: "addr_port \<Rightarrow> udp_proxy \<Rightarrow> nat option \<times> udp_proxy" where
  "removeAssociationIfUnusedLocked src p = (case map_of (associations p) src of
       None \<Rightarrow> (None, p)
     | Some aid \<Rightarrow> (case map_of (heap p) aid of
           None \<Rightarrow> (None, p)
         | Some a \<Rightarrow> if ua_flows a \<noteq> 0 then (None, p)
             else (Some aid, p\<lparr>associations := AList.delete src (associations p)\<rparr>)))"

definition drop_flow :: "nat \<Rightarrow> udp_flow \<Rightarrow> udp_proxy \<Rightarrow> udp_proxy" where
  "drop_flow i f p = removeFlowFromAssociationLocked i f (p\<lparr>flows := AList.delete (uf_key f) (flows p)\<rparr>)"

definition evictIfOverfullLocked :: "nat \<Rightarrow> nat \<Rightarrow> udp_key \<Rightarrow> udp_proxy \<Rightarrow> (udp_flow \<times> nat option) option \<times> udp_proxy" where
  "evictIfOverfullLocked i j keep p =
     (if length (flows p) \<le> maxUDPFlows then (None, p)
      else case pick i (filter (\<lambda>(k, f). k \<noteq> keep) (flows p)) of
          None \<Rightarrow> (None, p)
        | Some (k, victim) \<Rightarrow>
            (case removeAssociationIfUnusedLocked (uk_src (uf_key victim))
                (removeFlowFromAssociationLocked j victim (p\<lparr>flows := AList.delete k (flows p)\<rparr>)) of
               (unused, p') \<Rightarrow> (Some (victim, unused), p')))"

definition closeFlow :: "udp_flow \<Rightarrow> string \<Rightarrow> udp_proxy \<Rightarrow> audit_event list \<times> udp_proxy" where
  "closeFlow f reason p =
     (if uf_id f \<in> set (closed p) then ([], p)
      else ([Log ''egress_udp_close''
               ([(''host'', AStr (uf_host f)), (''dst'', AStr (ap_String (uk_dst (uf_key f))))] @
                (if reason \<noteq> '''' then [(''reason'', AStr reason)] else []))],
            p\<lparr>closed := uf_id f # closed p\<rparr>))"

definition removeFlow :: "nat \<Rightarrow> udp_flow \<Rightarrow> udp_proxy \<Rightarrow> audit_event list \<times> udp_proxy" where
  "removeFlow i f p =
     (let p1 = (case map_of (flows p) (uf_key f) of
                  Some cur \<Rightarrow> if uf_id cur = uf_id f
                    then snd (removeAssociationIfUnusedLocked (uk_src (uf_key f)) (drop_flow i f p)) else p
                | None \<Rightarrow> p)
      in closeFlow f '''' p1)"

section \<open>Forwarding\<close>

record udp_env =
  ue_now_match :: time
  ue_now :: time
  ue_open :: "string option"
  ue_local :: "string option"
  ue_write :: "string option"
  ue_pos :: nat
  ue_pos2 :: nat

text \<open>The lock region that finds or creates the flow; \<open>Inl\<close> is a socket that could not be opened.\<close>

definition admit_flow ::
  "udp_env \<Rightarrow> udp_key \<Rightarrow> string \<Rightarrow> udp_proxy \<Rightarrow>
   (string + udp_flow \<times> bool \<times> (udp_flow \<times> nat option) option) \<times> udp_proxy" where
  "admit_flow E key host p = (case map_of (flows p) key of
       Some f \<Rightarrow> (Inr (f, False, None), p)
     | None \<Rightarrow>
         (let src = uk_src key;
              opened = (case map_of (associations p) src of
                   Some aid \<Rightarrow> Inr (aid, p)
                 | None \<Rightarrow> (case ue_open E of
                       Some err \<Rightarrow> Inl err
                     | None \<Rightarrow> Inr (next_id p,
                         p\<lparr>heap := AList.update (next_id p) \<lparr>ua_src = src, ua_flows = 0, ua_peers = [], ua_logged = False\<rparr> (heap p),
                           associations := AList.update src (next_id p) (associations p),
                           next_id := Suc (next_id p)\<rparr>)))
          in case opened of
               Inl err \<Rightarrow> (Inl err, p)
             | Inr (aid, p1) \<Rightarrow>
                 (let f = \<lparr>uf_id = next_id p1, uf_key = key, uf_host = host, uf_assoc = aid, uf_lastSeen = ue_now E\<rparr>;
                      p2 = addFlowToAssociationLocked f
                             (p1\<lparr>flows := AList.update key f (flows p1), next_id := Suc (next_id p1)\<rparr>)
                  in case evictIfOverfullLocked (ue_pos E) (ue_pos2 E) key p2 of
                       (ev, p3) \<Rightarrow> (Inr (f, True, ev), p3))))"

record udp_out =
  uo_log :: "audit_event list"
  uo_sent :: "(addr_port \<times> addr_port \<times> bytes) list"
  uo_proxy :: udp_proxy
  uo_state :: hstate

definition udp_verdict ::
  "handler \<Rightarrow> udp_env \<Rightarrow> addr_port \<Rightarrow> string \<Rightarrow> string \<Rightarrow> hstate \<Rightarrow> (verdict \<times> bool \<times> hstate) go" where
  "udp_verdict h E origDst host protocol st =
     (case (if protocol = ''quic''
            then (case nc_matches host (ap_addr origDst) (ue_now_match E) (NameCache st) of (m, nc) \<Rightarrow> (\<not> m, nc))
            else (False, NameCache st)) of
        (mismatch, nc) \<Rightarrow> do {
          v \<leftarrow> Evaluate (brain_of h) host [] (ap_addr origDst) False;
          Some (if AllowlistLocked h \<and> mismatch
                then v\<lparr>Allowed := False, Unlisted := False, VReason := ''asserted host not bound to destination''\<rparr>
                else v,
                mismatch, st\<lparr>NameCache := nc\<rparr>) })"

definition udp_deny :: "addr_port \<Rightarrow> string \<Rightarrow> verdict \<Rightarrow> bool \<Rightarrow> audit_event" where
  "udp_deny origDst host v mismatch =
     Log (if Inside v then ''egress_udp_internal_deny'' else ''egress_udp_deny'')
       [(''host'', AStr host), (''dst'', AStr (ap_String origDst)),
        (''reason'', AStr (if Inside v then ''inside: internal destination denied'' else VReason v)),
        (''internal'', ABool (Inside v)),
        (''signal'', AStr (if mismatch then SignalNameDestinationMismatch else SignalDenied))]"

definition udp_allow_fields ::
  "udp_env \<Rightarrow> udp_key \<Rightarrow> string \<Rightarrow> string \<Rightarrow> verdict \<Rightarrow> bool \<Rightarrow> (string \<times> audit_value) list" where
  "udp_allow_fields E key host protocol v mismatch =
     [(''host'', AStr host), (''dst'', AStr (ap_String (uk_dst key))), (''src'', AStr (ap_String (uk_src key)))] @
     (case ue_local E of Some l \<Rightarrow> [(''upstream_src'', AStr l)] | None \<Rightarrow> []) @
     (if Unlisted v then [(''unlisted'', ABool True)] else []) @
     (if protocol \<noteq> '''' then [(''protocol'', AStr protocol)] else []) @
     (if mismatch then [(''signal'', AStr SignalNameDestinationMismatch)] else [])"

text \<open>Charging and sending on an admitted flow.\<close>

definition udp_send ::
  "handler \<Rightarrow> udp_env \<Rightarrow> udp_key \<Rightarrow> string \<Rightarrow> bytes \<Rightarrow> udp_flow \<Rightarrow> udp_proxy \<Rightarrow> hstate \<Rightarrow> udp_out" where
  "udp_send h E key host payload f p st =
     (let p1 = touch (uf_id f) (ue_now E) p in
      case addBytesOverCap h (int (length payload)) (bytesUsed st) of
        (True, used) \<Rightarrow>
          (case removeFlow (ue_pos E) f p1 of (lg, p2) \<Rightarrow>
             \<lparr>uo_log = Log ''egress_cap_exceeded'' [(''host'', AStr host), (''dst'', AStr (ap_String (uk_dst key))),
                 (''proto'', AStr ''udp''), (''reason'', AStr ''volume''), (''limit'', AInt (MaxTotalBytes (Limits h)))] # lg,
              uo_sent = [], uo_proxy = p2, uo_state = st\<lparr>bytesUsed := used\<rparr>\<rparr>)
      | (False, used) \<Rightarrow>
          (let sent = [(uk_src key, uk_dst key, payload)]; st' = st\<lparr>bytesUsed := used\<rparr> in
           case ue_write E of
             Some err \<Rightarrow> (case removeFlow (ue_pos E) f p1 of (lg, p2) \<Rightarrow>
                 \<lparr>uo_log = lg, uo_sent = sent, uo_proxy = p2, uo_state = st'\<rparr>)
           | None \<Rightarrow> \<lparr>uo_log = [], uo_sent = sent, uo_proxy = p1, uo_state = st'\<rparr>))"

definition forwardUDPDatagram ::
  "handler \<Rightarrow> udp_env \<Rightarrow> addr_port \<Rightarrow> addr_port \<Rightarrow> bytes \<Rightarrow> string \<Rightarrow> string \<Rightarrow> udp_proxy \<Rightarrow> hstate \<Rightarrow> udp_out go" where
  "forwardUDPDatagram h E src origDst payload host protocol p st = do {
     (v, mismatch, st1) \<leftarrow> udp_verdict h E origDst host protocol st;
     let key = \<lparr>uk_src = src, uk_dst = origDst\<rparr>;
     if \<not> Allowed v then
       Some \<lparr>uo_log = [udp_deny origDst host v mismatch], uo_sent = [], uo_proxy = p, uo_state = st1\<rparr>
     else (case admit_flow E key host p of
         (Inl err, p1) \<Rightarrow>
           Some \<lparr>uo_log = [Log ''egress_udp_dial_error'' [(''host'', AStr host), (''dst'', AStr (ap_String origDst)),
                (''src'', AStr (ap_String src)), (''error'', AStr err)]],
             uo_sent = [], uo_proxy = p1, uo_state = st1\<rparr>
       | (Inr (f, fresh, ev), p1) \<Rightarrow>
           (let lg = (if fresh then [Log ''egress_udp_allow'' (udp_allow_fields E key host protocol v mismatch)] else []);
                (lg2, p2) = (case ev of Some (victim, _) \<Rightarrow> closeFlow victim ''evicted'' p1 | None \<Rightarrow> ([], p1));
                out = udp_send h E key host payload f p2 st1
            in Some (out\<lparr>uo_log := lg @ lg2 @ uo_log out\<rparr>))) }"

section \<open>One datagram of the guest\<close>

text \<open>The datagrams a completed inspection had held back, in order; \<open>Es\<close> gives one environment each.\<close>

fun forward_all ::
  "handler \<Rightarrow> (nat \<Rightarrow> udp_env) \<Rightarrow> nat \<Rightarrow> addr_port \<Rightarrow> addr_port \<Rightarrow> bytes list \<Rightarrow> string \<Rightarrow> udp_out \<Rightarrow> udp_out go" where
  "forward_all h Es n src origDst [] host out = Some out"
| "forward_all h Es n src origDst (d # ds) host out = do {
     o1 \<leftarrow> forwardUDPDatagram h (Es n) src origDst d host ''quic'' (uo_proxy out) (uo_state out);
     forward_all h Es (Suc n) src origDst ds host
       (o1\<lparr>uo_log := uo_log out @ uo_log o1, uo_sent := uo_sent out @ uo_sent o1\<rparr>) }"

text \<open>The texts of the errors; those of the key schedule come from the primitives.\<close>

definition hex_pad :: "nat \<Rightarrow> string \<Rightarrow> string" where
  "hex_pad n s = replicate (n - length s) CHR ''0'' @ s"

definition quic_reason :: "quic_error \<Rightarrow> string" where
  "quic_reason e = (case e of
     TooManyDatagrams \<Rightarrow> ''QUIC ClientHello exceeded buffered datagram limit''
   | TooManyBytes \<Rightarrow> ''QUIC ClientHello exceeded buffered byte limit''
   | CryptoBufferLimit \<Rightarrow> ''QUIC ClientHello exceeded crypto buffer limit''
   | NotClientHello \<Rightarrow> ''QUIC CRYPTO stream does not start with ClientHello''
   | ExcessiveLength \<Rightarrow> ''QUIC ClientHello declared excessive length''
   | NoSNI \<Rightarrow> ''QUIC ClientHello has no valid SNI''
   | NotLongHeader \<Rightarrow> ''not a QUIC long-header packet''
   | UnsupportedVersion v \<Rightarrow> ''unsupported QUIC version 0x'' @ hex_pad 8 (hex v)
   | NotInitial \<Rightarrow> ''QUIC long header is not an Initial''
   | InvalidDCID \<Rightarrow> ''invalid QUIC destination connection ID''
   | InvalidSCID \<Rightarrow> ''invalid QUIC source connection ID''
   | InvalidTokenLength \<Rightarrow> ''invalid QUIC Initial token length''
   | TruncatedToken \<Rightarrow> ''truncated QUIC Initial token''
   | InvalidPayloadLength \<Rightarrow> ''invalid QUIC Initial payload length''
   | TruncatedPayload \<Rightarrow> ''truncated QUIC Initial payload''
   | KeyDerivation \<Rightarrow> ''hkdf: entropy limit reached''
   | CipherKey \<Rightarrow> ''crypto/aes: invalid key size''
   | InvalidPNLength \<Rightarrow> ''invalid QUIC Initial packet number length''
   | AuthFailed \<Rightarrow> ''QUIC Initial authentication failed''
   | InvalidFrameType \<Rightarrow> ''invalid QUIC Initial frame type''
   | TruncatedAck \<Rightarrow> ''truncated QUIC ACK frame''
   | TruncatedAckRange \<Rightarrow> ''truncated QUIC ACK range''
   | TruncatedAckECN \<Rightarrow> ''truncated QUIC ACK ECN counts''
   | TruncatedCryptoOffset \<Rightarrow> ''truncated QUIC CRYPTO offset''
   | TruncatedCryptoData \<Rightarrow> ''truncated QUIC CRYPTO data''
   | UnsupportedFrame t \<Rightarrow> ''unsupported frame 0x'' @ hex (unat t) @ '' in QUIC Initial''
   | NoCryptoFrame \<Rightarrow> ''QUIC Initial has no CRYPTO frame'')"

definition quic_lookup :: "nat \<Rightarrow> udp_key \<Rightarrow> udp_proxy \<Rightarrow> quic_inspection \<times> udp_proxy" where
  "quic_lookup i key p = (case map_of (quics p) key of
       Some q \<Rightarrow> (q, p)
     | None \<Rightarrow>
         (let qs = (if length (quics p) \<ge> maxQUICInspections then evict_one i (quics p) else quics p)
          in (new_inspection, p\<lparr>quics := AList.update key new_inspection qs\<rparr>)))"

text \<open>
  The result is what the datagram caused, and the DNS job it started, if any: a query is served by
  its own goroutine (\<open>serveDNS\<close>).
\<close>

definition handleUDPDatagram ::
  "handler \<Rightarrow> quic_crypto \<Rightarrow> (nat \<Rightarrow> udp_env) \<Rightarrow> time \<Rightarrow> addr_port \<Rightarrow> addr_port \<Rightarrow> bytes \<Rightarrow> udp_proxy \<Rightarrow> hstate \<Rightarrow>
   (udp_out \<times> (addr_port \<times> addr_port \<times> bytes) option) go" where
  "handleUDPDatagram h Q Es now src origDst payload p st =
     (let quiet = \<lparr>uo_log = [], uo_sent = [], uo_proxy = p, uo_state = st\<rparr> in
      if isOwnBindAddr h origDst then
        Some (quiet\<lparr>uo_log := [Log ''egress_loop_guard'' [(''dst'', AStr (ap_String origDst)), (''proto'', AStr ''udp'')]]\<rparr>, None)
      else if ap_port origDst = 53 then Some (quiet, Some (src, origDst, payload))
      else do {
        let key = \<lparr>uk_src = src, uk_dst = origDst\<rparr>;
        let (name, nc) = nc_reverse (ap_addr origDst) now (NameCache st);
        let host = (case name of Some n \<Rightarrow> n | None \<Rightarrow> addr_String (ap_addr origDst));
        let st1 = st\<lparr>NameCache := nc\<rparr>;
        let quiet1 = quiet\<lparr>uo_state := st1\<rparr>;
        stun \<leftarrow> (if ap_port origDst = 443 then isSTUNDatagram payload else Some False);
        if ap_port origDst = 443 \<and> \<not> stun then
          (case map_of (flows p) key of
             Some f \<Rightarrow> map_option (\<lambda>o1. (o1, None))
               (forwardUDPDatagram h (Es 0) src origDst payload (uf_host f) ''quic'' p st1)
           | None \<Rightarrow>
               (case quic_lookup (ue_pos (Es 0)) key p of (q, p1) \<Rightarrow>
                  (case quic_add Q (ue_now (Es 0)) payload q of
                     None \<Rightarrow> None
                   | Some (Inl err, q') \<Rightarrow>
                       Some (quiet1\<lparr>uo_proxy := p1\<lparr>quics := AList.delete key (quics p1)\<rparr>,
                         uo_log := [Log ''egress_udp_deny'' [(''host'', AStr host), (''dst'', AStr (ap_String origDst)),
                           (''reason'', AStr (quic_reason err)), (''signal'', AStr SignalQUICUDP443)]]\<rparr>, None)
                   | Some (Inr None, q') \<Rightarrow>
                       Some (quiet1\<lparr>uo_proxy := p1\<lparr>quics := AList.update key q' (quics p1)\<rparr>\<rparr>, None)
                   | Some (Inr (Some quicHost), q') \<Rightarrow>
                       map_option (\<lambda>o1. (o1, None))
                         (forward_all h Es 1 src origDst (buffered_pkts q') quicHost
                            (quiet1\<lparr>uo_proxy := p1\<lparr>quics := AList.delete key (quics p1)\<rparr>\<rparr>)))))
        else map_option (\<lambda>o1. (o1, None))
               (forwardUDPDatagram h (Es 0) src origDst payload host (if stun then ''stun'' else '''') p st1) })"

definition serveDNS ::
  "dns_codec \<Rightarrow> put_clock \<Rightarrow> (addr_port \<Rightarrow> bytes \<Rightarrow> string + bytes) \<Rightarrow> (addr_port \<Rightarrow> addr_port \<Rightarrow> bytes \<Rightarrow> string option) \<Rightarrow>
   handler \<Rightarrow> addr_port \<Rightarrow> addr_port \<Rightarrow> bytes \<Rightarrow> hstate \<Rightarrow> dns_out \<times> audit_event list \<times> hstate" where
  "serveDNS D clk fwd replyTo h src origDst query st =
     (let o1 = handleDNS D clk fwd h (NameCache st) query origDst;
          st1 = st\<lparr>NameCache := do_cache o1\<rparr>
      in case do_reply o1 of
           Inl err \<Rightarrow> (o1, do_log o1, st1)
         | Inr resp \<Rightarrow> (case replyTo origDst src resp of
               None \<Rightarrow> (o1, do_log o1, st1)
             | Some rerr \<Rightarrow> (o1, do_log o1 @ [Log ''egress_dns_reply_error''
                 [(''resolver'', AStr (ap_String origDst)), (''src'', AStr (ap_String src)), (''error'', AStr rerr)]], st1)))"

section \<open>Replies\<close>

definition replyFlowLocked :: "udp_assoc \<Rightarrow> addr_port \<Rightarrow> udp_proxy \<Rightarrow> udp_flow option" where
  "replyFlowLocked a peer p = (case map_of (flows p) \<lparr>uk_src = ua_src a, uk_dst = peer\<rparr> of
       Some f \<Rightarrow> Some f
     | None \<Rightarrow> Option.bind (map_of (ua_peers a) (ap_addr peer)) pr_rep)"

text \<open>
  One datagram read from the socket of association \<open>aid\<close>: \<open>Stop\<close> ends the reader, \<open>Denied\<close> drops the datagram,
  \<open>Delivered\<close> passes it to the guest. \<open>from\<close> is absent when the address is not recognised.
\<close>

datatype reply_action = Stop | Denied | Delivered udp_flow addr_port addr_port bytes

definition readUpstream ::
  "(addr_port \<Rightarrow> addr_port \<Rightarrow> bytes \<Rightarrow> string option) \<Rightarrow> time \<Rightarrow> nat \<Rightarrow> udp_assoc \<Rightarrow> string \<Rightarrow> addr_port option \<Rightarrow> bytes \<Rightarrow>
   udp_proxy \<Rightarrow> reply_action \<times> audit_event list \<times> udp_proxy" where
  "readUpstream replyTo now aid a0 fromText from payload p =
     (let src = ua_src a0;
          deny = (\<lambda>peer reason. Log ''egress_udp_reply_deny'' [(''src'', AStr (ap_String src)), (''peer'', AStr peer),
             (''reason'', AStr reason), (''signal'', AStr SignalDenied)])
      in case from of
           None \<Rightarrow> (Denied, [deny fromText ''unrecognized reply address''], p)
         | Some peer \<Rightarrow>
             if map_of (associations p) src \<noteq> Some aid then (Stop, [], p)
             else (case map_of (heap p) aid of
                 None \<Rightarrow> (Stop, [], p)
               | Some a \<Rightarrow> (case replyFlowLocked a peer p of
                     None \<Rightarrow> (Denied, [deny (ap_String peer) ''reply peer has no active allowed flow''], p)
                   | Some f \<Rightarrow>
                       (let asym = (ap_port peer \<noteq> ap_port (uk_dst (uf_key f)) \<and> \<not> ua_logged a);
                            p1 = touch (uf_id f) now p;
                            p2 = (if asym then heap_map aid (\<lambda>a. a\<lparr>ua_logged := True\<rparr>) p1 else p1);
                            lg = (if asym then [Log ''egress_udp_reply_port_change'' [(''src'', AStr (ap_String src)),
                               (''dst'', AStr (ap_String (uk_dst (uf_key f)))), (''peer'', AStr (ap_String peer))]] else []);
                            lg2 = (case replyTo peer src payload of None \<Rightarrow> []
                               | Some err \<Rightarrow> [Log ''egress_udp_reply_error'' [(''host'', AStr (uf_host f)),
                                   (''dst'', AStr (ap_String (uk_dst (uf_key f)))), (''peer'', AStr (ap_String peer)),
                                   (''error'', AStr err)]])
                        in (Delivered f peer src payload, lg @ lg2, p2)))))"

section \<open>Idle flows and shutdown\<close>

definition idleSince :: "time \<Rightarrow> udp_flow \<Rightarrow> bool" where
  "idleSince cutoff f \<longleftrightarrow> uf_lastSeen f < cutoff"

fun reap_flows :: "(nat \<Rightarrow> nat) \<Rightarrow> time \<Rightarrow> nat \<Rightarrow> (udp_key \<times> udp_flow) list \<Rightarrow> udp_proxy \<Rightarrow> udp_flow list \<times> udp_proxy" where
  "reap_flows pos cutoff n [] p = ([], p)"
| "reap_flows pos cutoff n ((k, f) # rest) p =
     (if idleSince cutoff f
      then (case reap_flows pos cutoff (Suc n) rest
              (removeFlowFromAssociationLocked (pos n) f (p\<lparr>flows := AList.delete k (flows p)\<rparr>)) of
              (dead, p') \<Rightarrow> (f # dead, p'))
      else reap_flows pos cutoff (Suc n) rest p)"

fun reap_assocs :: "addr_port list \<Rightarrow> udp_proxy \<Rightarrow> nat list \<times> udp_proxy" where
  "reap_assocs [] p = ([], p)"
| "reap_assocs (src # rest) p = (case removeAssociationIfUnusedLocked src p of
     (unused, p1) \<Rightarrow> (case reap_assocs rest p1 of (ids, p2) \<Rightarrow>
       ((case unused of Some aid \<Rightarrow> aid # ids | None \<Rightarrow> ids), p2)))"

fun close_flows :: "string \<Rightarrow> udp_flow list \<Rightarrow> udp_proxy \<Rightarrow> audit_event list \<times> udp_proxy" where
  "close_flows reason [] p = ([], p)"
| "close_flows reason (f # fs) p = (case closeFlow f reason p of (lg, p1) \<Rightarrow>
     (case close_flows reason fs p1 of (lg2, p2) \<Rightarrow> (lg @ lg2, p2)))"

definition reap_region :: "(nat \<Rightarrow> nat) \<Rightarrow> time \<Rightarrow> udp_proxy \<Rightarrow> udp_flow list \<times> nat list \<times> udp_proxy" where
  "reap_region pos cutoff p =
     (case reap_flows pos cutoff 0 (flows p) p of (dead, p1) \<Rightarrow>
      (let p2 = p1\<lparr>quics := filter (\<lambda>(k, q). \<not> lastSeen q < cutoff) (quics p1)\<rparr> in
       case reap_assocs (map fst (associations p2)) p2 of (ids, p3) \<Rightarrow> (dead, ids, p3)))"

definition reapIdle :: "(nat \<Rightarrow> nat) \<Rightarrow> duration \<Rightarrow> time \<Rightarrow> udp_proxy \<Rightarrow> audit_event list \<times> udp_proxy" where
  "reapIdle pos idle now p =
     (case reap_region pos (now - idle) p of (dead, ids, p1) \<Rightarrow> close_flows ''idle'' dead p1)"

definition closeAll :: "udp_proxy \<Rightarrow> audit_event list \<times> udp_proxy" where
  "closeAll p = close_flows ''shutdown'' (map snd (flows p)) (p\<lparr>flows := [], associations := [], quics := []\<rparr>)"

definition flowCount :: "udp_proxy \<Rightarrow> nat" where
  "flowCount p = length (flows p)"

end
