(* ===== verification/UdpTable.thy ===== *)
theory UdpTable
  imports Udp
begin

text \<open>
  The tables of the UDP proxy (internal/egress/udp.go): the reference counts of the associations
  and of their peers agree with the flow table, no association outlives its flows, the tables
  stay within their bounds, and every flow in the table is one the policy allows. Replies are
  then delivered only from peers of such flows.
\<close>

section \<open>Counting flows\<close>

definition table_flows :: "udp_proxy \<Rightarrow> udp_flow list" where
  "table_flows p = map snd (flows p)"

definition assoc_flows :: "nat \<Rightarrow> udp_proxy \<Rightarrow> udp_flow list" where
  "assoc_flows aid p = filter (\<lambda>f. uf_assoc f = aid) (table_flows p)"

lemma candidates_alt:
  "candidates aid addr p = filter (\<lambda>f. uf_assoc f = aid \<and> ap_addr (uk_dst (uf_key f)) = addr) (table_flows p)"
  by (simp add: candidates_def table_flows_def)

lemma update_fresh: "map_of m k = None \<Longrightarrow> AList.update k v m = m @ [(k, v)]"
  by (induction m) (auto split: if_splits)

lemma filter_snd_delete:
  assumes "wf_map m" "map_of m k = Some v"
  shows "length (filter Q (map snd (AList.delete k m))) + (if Q v then 1 else 0) = length (filter Q (map snd m))"
  using assms
proof (induction m)
  case (Cons kv m)
  obtain k' v' where kv: "kv = (k', v')" by (cases kv)
  show ?case
  proof (cases "k' = k")
    case True
    with Cons.prems have "k \<notin> fst ` set m" "v' = v" by (auto simp: kv wf_map_def)
    then have "AList.delete k m = m" by (auto simp: AList.delete_eq filter_id_conv image_iff)
    with True \<open>v' = v\<close> show ?thesis by (simp add: kv AList.delete_eq)
  next
    case False
    with Cons show ?thesis by (simp add: kv AList.delete_eq wf_map_def)
  qed
qed simp

lemma set_snd_delete:
  "(k', v) \<in> set m \<Longrightarrow> k' \<noteq> k \<Longrightarrow> v \<in> set (map snd (AList.delete k m))"
  by (force simp: AList.delete_eq)

lemma wf_map_unique: "wf_map m \<Longrightarrow> (k, v) \<in> set m \<Longrightarrow> map_of m k = Some v"
  by (simp add: wf_map_def)

section \<open>The invariant\<close>

definition same_flow :: "udp_flow \<Rightarrow> udp_flow \<Rightarrow> bool" where
  "same_flow f g \<longleftrightarrow> uf_id f = uf_id g \<and> uf_key f = uf_key g \<and> uf_host f = uf_host g \<and> uf_assoc f = uf_assoc g"

definition peer_ok :: "udp_flow list \<Rightarrow> udp_peer option \<Rightarrow> bool" where
  "peer_ok cs pr \<longleftrightarrow> (case pr of None \<Rightarrow> cs = []
     | Some pr \<Rightarrow> cs \<noteq> [] \<and> pr_flows pr = int (length cs) \<and>
         (\<exists>f g. pr_rep pr = Some f \<and> g \<in> set cs \<and> same_flow f g))"

definition assoc_ok :: "udp_proxy \<Rightarrow> addr_port \<Rightarrow> nat \<Rightarrow> bool" where
  "assoc_ok p src aid \<longleftrightarrow> aid < next_id p \<and> (\<exists>a. map_of (heap p) aid = Some a \<and> ua_src a = src \<and>
     ua_flows a = int (length (assoc_flows aid p)) \<and>
     (\<forall>addr. peer_ok (candidates aid addr p) (map_of (ua_peers a) addr)))"

definition flow_ok :: "udp_proxy \<Rightarrow> udp_key \<Rightarrow> udp_flow \<Rightarrow> bool" where
  "flow_ok p k f \<longleftrightarrow> uf_key f = k \<and> uf_id f < next_id p \<and> map_of (associations p) (uk_src k) = Some (uf_assoc f)"

definition udp_winv :: "udp_proxy \<Rightarrow> bool" where
  "udp_winv p \<longleftrightarrow> wf_map (flows p) \<and> wf_map (associations p) \<and> distinct (map uf_id (table_flows p)) \<and>
     (\<forall>(k, f) \<in> set (flows p). flow_ok p k f) \<and>
     (\<forall>src aid. map_of (associations p) src = Some aid \<longrightarrow> assoc_ok p src aid)"

text \<open>Between operations no association is without a flow, and the tables are within their bounds.\<close>

definition udp_inv :: "udp_proxy \<Rightarrow> bool" where
  "udp_inv p \<longleftrightarrow> udp_winv p \<and> length (flows p) \<le> maxUDPFlows \<and>
     wf_map (quics p) \<and> length (quics p) \<le> maxQUICInspections \<and>
     (\<forall>src aid. map_of (associations p) src = Some aid \<longrightarrow> assoc_flows aid p \<noteq> [])"

lemma udp_winv_flow: "udp_winv p \<Longrightarrow> map_of (flows p) k = Some f \<Longrightarrow> flow_ok p k f"
  by (auto simp: udp_winv_def dest!: map_of_SomeD)

lemma udp_winv_mem: "udp_winv p \<Longrightarrow> (k, f) \<in> set (flows p) \<Longrightarrow> flow_ok p k f \<and> map_of (flows p) k = Some f"
  by (auto simp: udp_winv_def wf_map_unique)

lemma udp_winv_assoc: "udp_winv p \<Longrightarrow> map_of (associations p) src = Some aid \<Longrightarrow> assoc_ok p src aid"
  by (simp add: udp_winv_def)

lemma heap_map_simps [simp]:
  "flows (heap_map aid g p) = flows p" "associations (heap_map aid g p) = associations p"
  "next_id (heap_map aid g p) = next_id p" "quics (heap_map aid g p) = quics p"
  "closed (heap_map aid g p) = closed p"
  by (simp_all add: heap_map_def split: option.splits)

lemma map_of_heap_map:
  "map_of (heap (heap_map aid g p)) i = (if i = aid then map_option g (map_of (heap p) aid) else map_of (heap p) i)"
  by (simp add: heap_map_def split: option.splits)

lemma flow_lists_cong:
  assumes "flows p = flows q"
  shows "table_flows p = table_flows q" "assoc_flows aid p = assoc_flows aid q" "candidates aid addr p = candidates aid addr q"
  using assms by (simp_all add: table_flows_def assoc_flows_def candidates_alt)

lemma flow_lists_append:
  assumes "flows q = flows p @ [(k, f)]"
  shows "table_flows q = table_flows p @ [f]"
    "assoc_flows aid q = assoc_flows aid p @ (if uf_assoc f = aid then [f] else [])"
    "candidates aid addr q = candidates aid addr p @
       (if uf_assoc f = aid \<and> ap_addr (uk_dst (uf_key f)) = addr then [f] else [])"
  using assms by (simp_all add: table_flows_def assoc_flows_def candidates_alt)

lemma length_assoc_flows_delete:
  assumes "flows q = AList.delete k (flows p)" "wf_map (flows p)" "map_of (flows p) k = Some f"
  shows "length (assoc_flows aid q) + (if uf_assoc f = aid then 1 else 0) = length (assoc_flows aid p)"
    "length (candidates aid addr q) + (if uf_assoc f = aid \<and> ap_addr (uk_dst (uf_key f)) = addr then 1 else 0)
       = length (candidates aid addr p)"
  using filter_snd_delete [OF assms(2,3)] assms(1)
  by (simp_all only: assoc_flows_def candidates_alt table_flows_def)

section \<open>The lock regions preserve it\<close>

lemma peer_ok_keep:
  "peer_ok cs pr \<Longrightarrow> length cs' = length cs \<Longrightarrow> set cs \<subseteq> set cs' \<Longrightarrow> peer_ok cs' pr"
  by (cases pr) (auto simp: peer_ok_def)

lemma winv_add:
  assumes w: "udp_winv p" and k: "map_of (flows p) (uf_key f) = None" and id: "uf_id f = next_id p"
    and as: "map_of (associations p) (uk_src (uf_key f)) = Some (uf_assoc f)"
  shows "udp_winv (addFlowToAssociationLocked f (p\<lparr>flows := AList.update (uf_key f) f (flows p), next_id := Suc (next_id p)\<rparr>))"
proof -
  define q where "q = addFlowToAssociationLocked f (p\<lparr>flows := AList.update (uf_key f) f (flows p), next_id := Suc (next_id p)\<rparr>)"
  let ?ad = "ap_addr (uk_dst (uf_key f))"
  have fl: "flows q = flows p @ [(uf_key f, f)]" and q: "associations q = associations p" "next_id q = Suc (next_id p)"
    by (simp_all add: q_def addFlowToAssociationLocked_def update_fresh k)
  note app = flow_lists_append [OF fl]
  have wf: "wf_map (flows p)" "wf_map (associations p)" "distinct (map uf_id (table_flows p))"
    using w by (simp_all add: udp_winv_def)
  have ids: "\<forall>g \<in> set (table_flows p). uf_id g < next_id p"
    using w by (auto simp: udp_winv_def table_flows_def flow_ok_def)
  have 1: "wf_map (flows q)" using wf k unfolding fl by (auto simp: wf_map_def map_of_eq_None_iff)
  have 2: "distinct (map uf_id (table_flows q))"
    using wf(3) ids id by (auto simp: app)
  have 3: "\<forall>(k, g) \<in> set (flows q). flow_ok q k g"
    using w id as unfolding fl by (auto simp: udp_winv_def flow_ok_def q less_Suc_eq)
  have 4: "assoc_ok q src aid" if a: "map_of (associations p) src = Some aid" for src aid
  proof -
    from udp_winv_assoc [OF w a] obtain b where b: "aid < next_id p" "map_of (heap p) aid = Some b" "ua_src b = src"
      "ua_flows b = int (length (assoc_flows aid p))"
      "\<And>addr. peer_ok (candidates aid addr p) (map_of (ua_peers b) addr)" by (auto simp: assoc_ok_def)
    show ?thesis
    proof (cases "aid = uf_assoc f")
      case False
      then have "map_of (heap q) aid = Some b" by (simp add: q_def addFlowToAssociationLocked_def map_of_heap_map b)
      with b False show ?thesis by (auto simp: assoc_ok_def app q)
    next
      case True
      let ?peer = "case map_of (ua_peers b) ?ad of Some pr \<Rightarrow> pr | None \<Rightarrow> \<lparr>pr_flows = 0, pr_rep = None\<rparr>"
      let ?b = "b\<lparr>ua_flows := ua_flows b + 1,
          ua_peers := AList.update ?ad \<lparr>pr_flows = pr_flows ?peer + 1, pr_rep = Some f\<rparr> (ua_peers b)\<rparr>"
      have h: "map_of (heap q) aid = Some ?b"
        using True b(2) by (simp add: q_def addFlowToAssociationLocked_def map_of_heap_map Let_def)
      have n: "pr_flows ?peer = int (length (candidates aid ?ad p))"
        using b(5) [of ?ad] by (auto simp: peer_ok_def split: option.splits)
      have "peer_ok (candidates aid addr q) (map_of (ua_peers ?b) addr)" for addr
        using b(5) [of addr] n True
        by (auto simp: app peer_ok_def same_flow_def split: option.splits)
      with b h True show ?thesis by (auto simp: assoc_ok_def app q)
    qed
  qed
  from 1 2 3 4 wf(2) have "udp_winv q" by (simp add: udp_winv_def q)
  then show ?thesis by (simp add: q_def)
qed

lemma pick_mem: "pick i xs = Some x \<Longrightarrow> x \<in> set xs"
  by (auto simp: pick_def split: if_splits)

lemma pick_Some: "xs \<noteq> [] \<Longrightarrow> \<exists>x \<in> set xs. pick i xs = Some x"
  by (auto simp: pick_def)

text \<open>The update of one peer entry when a flow leaves.\<close>

lemma leave_assoc_simps:
  assumes "map_of (ua_peers a) (ap_addr (uk_dst (uf_key f))) = Some pr"
  shows "ua_src (leave_assoc i cs f a) = ua_src a" "ua_flows (leave_assoc i cs f a) = ua_flows a - 1"
    "map_of (ua_peers (leave_assoc i cs f a)) = (map_of (ua_peers a))(ap_addr (uk_dst (uf_key f)) :=
       (if pr_flows pr - 1 = 0 then None
        else if map_option uf_id (pr_rep pr) \<noteq> Some (uf_id f) then Some (pr\<lparr>pr_flows := pr_flows pr - 1\<rparr>)
        else Some \<lparr>pr_flows = pr_flows pr - 1, pr_rep = pick i cs\<rparr>))"
  using assms by (simp_all add: leave_assoc_def Let_def) auto

lemma peer_ok_leave:
  assumes "peer_ok cs (Some pr)" "length cs' + 1 = length cs"
    and keep: "\<And>g. g \<in> set cs \<Longrightarrow> uf_id g \<noteq> fid \<Longrightarrow> g \<in> set cs'"
  shows "peer_ok cs' (if pr_flows pr - 1 = 0 then None
    else if map_option uf_id (pr_rep pr) \<noteq> Some fid then Some (pr\<lparr>pr_flows := pr_flows pr - 1\<rparr>)
    else Some \<lparr>pr_flows = pr_flows pr - 1, pr_rep = pick i cs'\<rparr>)"
proof -
  from assms(1) obtain f g where r: "pr_flows pr = int (length cs)" "pr_rep pr = Some f" "g \<in> set cs" "same_flow f g"
    by (auto simp: peer_ok_def)
  have n: "pr_flows pr - 1 = int (length cs')" using r(1) assms(2) by simp
  show ?thesis
  proof (cases "cs' = []")
    case True
    with n show ?thesis by (simp add: peer_ok_def)
  next
    case False
    obtain x where "x \<in> set cs'" "pick i cs' = Some x" using pick_Some [OF False] by blast
    moreover have "g \<in> set cs'" if "uf_id f \<noteq> fid" using keep [OF r(3)] r(4) that by (simp add: same_flow_def)
    ultimately show ?thesis using n r False by (auto simp: peer_ok_def same_flow_def)
  qed
qed

lemma winv_remove:
  assumes w: "udp_winv p" and k: "map_of (flows p) k = Some f"
  shows "udp_winv (removeFlowFromAssociationLocked i f (p\<lparr>flows := AList.delete k (flows p)\<rparr>))"
proof -
  define q where "q = removeFlowFromAssociationLocked i f (p\<lparr>flows := AList.delete k (flows p)\<rparr>)"
  let ?p1 = "p\<lparr>flows := AList.delete k (flows p)\<rparr>"
  let ?ad = "ap_addr (uk_dst (uf_key f))"
  have q: "flows q = AList.delete k (flows p)" "associations q = associations p" "next_id q = next_id p"
    by (simp_all add: q_def removeFlowFromAssociationLocked_def)
  have wf: "wf_map (flows p)" "wf_map (associations p)" "distinct (map uf_id (table_flows p))"
    using w by (simp_all add: udp_winv_def)
  note len = length_assoc_flows_delete [OF q(1) wf(1) k]
  have sub: "set (flows q) \<subseteq> set (flows p)" unfolding q by (auto simp: AList.delete_eq)
  have 2: "distinct (map uf_id (table_flows q))"
    using wf(3) unfolding table_flows_def q(1) AList.delete_eq map_map by (rule distinct_map_filter)
  have 3: "\<forall>(k, g) \<in> set (flows q). flow_ok q k g"
    using w sub by (auto simp: udp_winv_def flow_ok_def q)
  have uniq: "g = f" if "g \<in> set (table_flows p)" "uf_id g = uf_id f" for g
  proof -
    have "f \<in> set (table_flows p)" using k by (force simp: table_flows_def dest: map_of_SomeD)
    then show ?thesis using wf(3) that by (auto simp: distinct_map dest: inj_onD)
  qed
  have keep: "g \<in> set (candidates aid addr q)" if "g \<in> set (candidates aid addr p)" "uf_id g \<noteq> uf_id f" for g aid addr
  proof -
    from that obtain k' where k': "(k', g) \<in> set (flows p)" by (auto simp: candidates_alt table_flows_def)
    with that(2) k wf(1) have "k' \<noteq> k" by (auto dest: wf_map_unique)
    from set_snd_delete [OF k' this] that(1) show ?thesis by (simp add: candidates_alt table_flows_def q)
  qed
  have other: "peer_ok (candidates aid addr q) pr" if "peer_ok (candidates aid addr p) pr" "(aid, addr) \<noteq> (uf_assoc f, ?ad)"
    for aid addr pr
  proof (rule peer_ok_keep [OF that(1)])
    show "length (candidates aid addr q) = length (candidates aid addr p)" using len(2) [of aid addr] that(2) by (auto split: if_splits)
    show "set (candidates aid addr p) \<subseteq> set (candidates aid addr q)"
      using keep uniq that(2) by (fastforce simp: candidates_alt)
  qed
  have 4: "assoc_ok q src aid" if a: "map_of (associations p) src = Some aid" for src aid
  proof -
    from udp_winv_assoc [OF w a] obtain b where b: "aid < next_id p" "map_of (heap p) aid = Some b" "ua_src b = src"
      "ua_flows b = int (length (assoc_flows aid p))"
      "\<And>addr. peer_ok (candidates aid addr p) (map_of (ua_peers b) addr)" by (auto simp: assoc_ok_def)
    show ?thesis
    proof (cases "aid = uf_assoc f")
      case False
      then have h: "map_of (heap q) aid = Some b"
        by (simp add: q_def removeFlowFromAssociationLocked_def map_of_heap_map b)
      with b other False len(1) [of aid] show ?thesis by (auto simp: assoc_ok_def q)
    next
      case True
      have fc: "f \<in> set (candidates aid ?ad p)"
        using k True by (force simp: candidates_alt table_flows_def dest: map_of_SomeD)
      with b(5) [of ?ad] obtain pr where pr: "map_of (ua_peers b) ?ad = Some pr"
        by (cases "map_of (ua_peers b) ?ad") (auto simp: peer_ok_def)
      have cs: "candidates (uf_assoc f) ?ad ?p1 = candidates aid ?ad q"
        by (simp add: candidates_def q True)
      have lc: "length (candidates aid ?ad q) + 1 = length (candidates aid ?ad p)"
        using len(2) [of aid ?ad] True by simp
      note leave = peer_ok_leave [OF b(5) [of ?ad, unfolded pr] lc keep, of "uf_id f" i]
      let ?b = "leave_assoc i (candidates aid ?ad q) f b"
      have "map_of (heap q) aid = Some (leave_assoc i (candidates (uf_assoc f) ?ad ?p1) f b)"
        using True b(2) by (simp add: q_def removeFlowFromAssociationLocked_def map_of_heap_map)
      then have h: "map_of (heap q) aid = Some ?b" by (simp only: cs)
      note b' = leave_assoc_simps [OF pr, of i "candidates aid ?ad q"]
      have "peer_ok (candidates aid addr q) (map_of (ua_peers ?b) addr)" for addr
        using leave other [OF b(5) [of addr]] by (cases "addr = ?ad") (simp_all add: b')
      with b b' h len(1) [of aid] True show ?thesis by (auto simp: assoc_ok_def q)
    qed
  qed
  from 2 3 4 wf(1,2) have "udp_winv q" by (simp add: udp_winv_def q)
  then show ?thesis by (simp add: q_def)
qed

lemma winv_open:
  assumes w: "udp_winv p" and n: "map_of (associations p) src = None"
  shows "udp_winv (p\<lparr>heap := AList.update (next_id p) \<lparr>ua_src = src, ua_flows = 0, ua_peers = [], ua_logged = False\<rparr> (heap p),
    associations := AList.update src (next_id p) (associations p), next_id := Suc (next_id p)\<rparr>)" (is "udp_winv ?q")
proof -
  have no: "uf_assoc g \<noteq> next_id p" if "g \<in> set (table_flows p)" for g
  proof -
    from that obtain k where "(k, g) \<in> set (flows p)" by (auto simp: table_flows_def)
    then have "map_of (associations p) (uk_src k) = Some (uf_assoc g)"
      using udp_winv_mem [OF w] by (auto simp: flow_ok_def)
    from udp_winv_assoc [OF w this] show ?thesis by (simp add: assoc_ok_def)
  qed
  have e: "assoc_flows (next_id p) p = []" "candidates (next_id p) addr p = []" for addr
    using no by (auto simp: assoc_flows_def candidates_alt filter_empty_conv)
  have c: "table_flows ?q = table_flows p" "assoc_flows aid ?q = assoc_flows aid p"
    "candidates aid addr ?q = candidates aid addr p" for aid addr
    by (rule flow_lists_cong, simp)+
  have "assoc_ok ?q s aid" if "map_of (associations ?q) s = Some aid" for s aid
  proof (cases "s = src")
    case True
    with that have "aid = next_id p" by simp
    with True e c show ?thesis by (auto simp: assoc_ok_def peer_ok_def)
  next
    case False
    with that have a: "map_of (associations p) s = Some aid" by simp
    from udp_winv_assoc [OF w this] c show ?thesis by (auto simp: assoc_ok_def)
  qed
  moreover have "\<forall>(k, f) \<in> set (flows ?q). flow_ok ?q k f"
    using udp_winv_mem [OF w] n by (fastforce simp: flow_ok_def)
  ultimately show ?thesis using w c(1) by (simp add: udp_winv_def)
qed

lemma winv_unused: "udp_winv p \<Longrightarrow> udp_winv (snd (removeAssociationIfUnusedLocked src p))"
proof (cases "\<exists>aid a. map_of (associations p) src = Some aid \<and> map_of (heap p) aid = Some a \<and> ua_flows a = 0")
  case True
  assume w: "udp_winv p"
  from True obtain aid a where a: "map_of (associations p) src = Some aid" "map_of (heap p) aid = Some a" "ua_flows a = 0"
    by blast
  let ?q = "p\<lparr>associations := AList.delete src (associations p)\<rparr>"
  have e: "assoc_flows aid p = []" using udp_winv_assoc [OF w a(1)] a by (auto simp: assoc_ok_def)
  have c: "table_flows ?q = table_flows p" "assoc_flows i ?q = assoc_flows i p"
    "candidates i addr ?q = candidates i addr p" for i addr
    by (rule flow_lists_cong, simp)+
  have "flow_ok ?q k f" if m: "(k, f) \<in> set (flows p)" for k f
  proof -
    have f: "flow_ok p k f" using udp_winv_mem [OF w m] by blast
    have "uf_assoc f \<noteq> aid" using e m by (force simp: assoc_flows_def table_flows_def filter_empty_conv)
    with f a(1) show ?thesis by (auto simp: flow_ok_def)
  qed
  moreover have "assoc_ok ?q s i" if "map_of (associations ?q) s = Some i" for s i
    using that udp_winv_assoc [OF w, of s i] c by (auto simp: assoc_ok_def split: if_splits)
  ultimately have "udp_winv ?q" using w c(1) by (auto simp: udp_winv_def)
  then show ?thesis by (simp add: removeAssociationIfUnusedLocked_def a)
qed (auto simp: removeAssociationIfUnusedLocked_def split: option.splits)

text \<open>Bookkeeping fields do not matter.\<close>

lemma winv_irrelevant [simp]:
  "udp_winv (p\<lparr>quics := qs\<rparr>) = udp_winv p" "udp_winv (p\<lparr>closed := cs\<rparr>) = udp_winv p"
  by (simp_all add: udp_winv_def flow_ok_def assoc_ok_def table_flows_def assoc_flows_def candidates_alt)

definition map_flows :: "(udp_flow \<Rightarrow> udp_flow) \<Rightarrow> udp_proxy \<Rightarrow> udp_proxy" where
  "map_flows g p = p\<lparr>flows := map (\<lambda>(k, f). (k, g f)) (flows p)\<rparr>"

lemma same_flow_touch: "same_flow f (if uf_id f = i then f\<lparr>uf_lastSeen := t\<rparr> else f)"
  by (simp add: same_flow_def)

lemma flow_lists_map:
  assumes "\<And>f. same_flow f (g f)"
  shows "table_flows (map_flows g p) = map g (table_flows p)"
    "assoc_flows aid (map_flows g p) = map g (assoc_flows aid p)"
    "candidates aid addr (map_flows g p) = map g (candidates aid addr p)"
  using assms
  by (auto simp: map_flows_def table_flows_def assoc_flows_def candidates_alt same_flow_def filter_map comp_def
      split_def intro!: arg_cong [where f = "map _"] filter_cong)

lemma winv_map_flows:
  assumes "\<And>f. same_flow f (g f)" "udp_winv p"
  shows "udp_winv (map_flows g p)"
proof -
  note l = flow_lists_map [of g, OF assms(1)]
  have s: "uf_id (g f) = uf_id f" "uf_key (g f) = uf_key f" "uf_assoc (g f) = uf_assoc f" "uf_host (g f) = uf_host f" for f
    using assms(1) [of f] by (simp_all add: same_flow_def)
  have f: "flows (map_flows g p) = map (\<lambda>(k, f). (k, g f)) (flows p)" "associations (map_flows g p) = associations p"
    "heap (map_flows g p) = heap p" "next_id (map_flows g p) = next_id p" by (simp_all add: map_flows_def)
  have "map fst (flows (map_flows g p)) = map fst (flows p)" by (simp add: f split_def)
  then have 1: "wf_map (flows (map_flows g p))" using assms(2) by (simp add: wf_map_def udp_winv_def)
  have 2: "map uf_id (table_flows (map_flows g p)) = map uf_id (table_flows p)" by (simp add: l s)
  have p: "peer_ok (map g cs) pr = peer_ok cs pr" for cs pr
    by (cases pr) (auto simp: peer_ok_def same_flow_def s)
  show ?thesis
    using assms(2) 1 2 by (auto simp: udp_winv_def flow_ok_def assoc_ok_def l p f s comp_def)
qed

lemma touch_map_flows: "touch i t p = map_flows (\<lambda>f. if uf_id f = i then f\<lparr>uf_lastSeen := t\<rparr> else f) p"
  by (simp add: touch_def map_flows_def)

lemma winv_touch: "udp_winv p \<Longrightarrow> udp_winv (touch i t p)"
  unfolding touch_map_flows by (rule winv_map_flows) (simp_all add: same_flow_touch)

lemma winv_logged: "udp_winv p \<Longrightarrow> udp_winv (heap_map aid (\<lambda>a. a\<lparr>ua_logged := True\<rparr>) p)"
proof -
  assume w: "udp_winv p"
  let ?q = "heap_map aid (\<lambda>a. a\<lparr>ua_logged := True\<rparr>) p"
  have c: "table_flows ?q = table_flows p" "assoc_flows i ?q = assoc_flows i p"
    "candidates i addr ?q = candidates i addr p" for i addr
    by (rule flow_lists_cong, simp)+
  have "assoc_ok ?q s i" if "map_of (associations p) s = Some i" for s i
    using udp_winv_assoc [OF w that] by (auto simp: assoc_ok_def c map_of_heap_map)
  then show ?thesis using w c(1) by (auto simp: udp_winv_def flow_ok_def)
qed

section \<open>No association outlives its flows\<close>

definition busy_assocs :: "udp_proxy \<Rightarrow> bool" where
  "busy_assocs p \<longleftrightarrow> (\<forall>src aid. map_of (associations p) src = Some aid \<longrightarrow> assoc_flows aid p \<noteq> [])"

lemma unused_spec:
  assumes "udp_winv p"
  shows "map_of (associations (snd (removeAssociationIfUnusedLocked src p))) s =
    (if s = src \<and> (\<exists>aid. map_of (associations p) src = Some aid \<and> assoc_flows aid p = []) then None
     else map_of (associations p) s)"
proof (cases "map_of (associations p) src")
  case (Some aid)
  from udp_winv_assoc [OF assms Some] obtain a where a: "map_of (heap p) aid = Some a"
    "ua_flows a = int (length (assoc_flows aid p))" by (auto simp: assoc_ok_def)
  then show ?thesis by (auto simp: removeAssociationIfUnusedLocked_def Some)
qed (simp add: removeAssociationIfUnusedLocked_def)

lemma unused_flows [simp]: "flows (snd (removeAssociationIfUnusedLocked src p)) = flows p"
  "quics (snd (removeAssociationIfUnusedLocked src p)) = quics p"
  by (simp_all add: removeAssociationIfUnusedLocked_def split: option.splits)

lemma unused_assoc_flows [simp]: "assoc_flows i (snd (removeAssociationIfUnusedLocked src p)) = assoc_flows i p"
  by (rule flow_lists_cong) simp

lemma busy_drop:
  assumes w: "udp_winv p" and b: "busy_assocs p" and k: "map_of (flows p) k = Some f"
  shows "busy_assocs (snd (removeAssociationIfUnusedLocked (uk_src k)
    (removeFlowFromAssociationLocked i f (p\<lparr>flows := AList.delete k (flows p)\<rparr>))))"
proof -
  define q where "q = removeFlowFromAssociationLocked i f (p\<lparr>flows := AList.delete k (flows p)\<rparr>)"
  have q: "flows q = AList.delete k (flows p)" "associations q = associations p"
    by (simp_all add: q_def removeFlowFromAssociationLocked_def)
  have wf: "wf_map (flows p)" using w by (simp add: udp_winv_def)
  have wq: "udp_winv q" unfolding q_def by (rule winv_remove [OF w k])
  have fa: "map_of (associations p) (uk_src k) = Some (uf_assoc f)"
    using udp_winv_flow [OF w k] by (simp add: flow_ok_def)
  have "assoc_flows aid q \<noteq> []"
    if a: "map_of (associations (snd (removeAssociationIfUnusedLocked (uk_src k) q))) s = Some aid" for s aid
  proof (cases "s = uk_src k")
    case True
    with a unused_spec [OF wq, of "uk_src k" s] show ?thesis by (auto split: if_splits)
  next
    case False
    with a unused_spec [OF wq, of "uk_src k" s] q have ap: "map_of (associations p) s = Some aid" by (auto split: if_splits)
    have "aid \<noteq> uf_assoc f"
      using udp_winv_assoc [OF w ap] udp_winv_assoc [OF w fa] False by (auto simp: assoc_ok_def)
    with length_assoc_flows_delete(1) [OF q(1) wf k, of aid] b ap show ?thesis
      by (auto simp: busy_assocs_def)
  qed
  then show ?thesis unfolding busy_assocs_def q_def [symmetric] by simp
qed

lemma busy_congs [simp]:
  "busy_assocs (p\<lparr>quics := qs\<rparr>) = busy_assocs p" "busy_assocs (p\<lparr>closed := cs\<rparr>) = busy_assocs p"
  by (simp_all add: busy_assocs_def assoc_flows_def table_flows_def)

section \<open>Operations preserve the invariant\<close>

lemma udp_inv_alt: "udp_inv p \<longleftrightarrow> udp_winv p \<and> busy_assocs p \<and> length (flows p) \<le> maxUDPFlows \<and>
  wf_map (quics p) \<and> length (quics p) \<le> maxQUICInspections"
  by (auto simp: udp_inv_def busy_assocs_def)

lemma length_delete_flow:
  "wf_map m \<Longrightarrow> map_of m k = Some v \<Longrightarrow> length (AList.delete k m) + 1 = length m"
  using filter_snd_delete [of m k v "\<lambda>_. True"] by simp

lemma removeFlowFromAssociation_simps [simp]:
  "flows (removeFlowFromAssociationLocked i f p) = flows p" "quics (removeFlowFromAssociationLocked i f p) = quics p"
  by (simp_all add: removeFlowFromAssociationLocked_def)

definition leave_table :: "nat \<Rightarrow> udp_key \<Rightarrow> udp_flow \<Rightarrow> udp_proxy \<Rightarrow> udp_proxy" where
  "leave_table i k f p = snd (removeAssociationIfUnusedLocked (uk_src k)
     (removeFlowFromAssociationLocked i f (p\<lparr>flows := AList.delete k (flows p)\<rparr>)))"

lemma leave_table_flows [simp]: "flows (leave_table i k f p) = AList.delete k (flows p)"
  "quics (leave_table i k f p) = quics p"
  by (simp_all add: leave_table_def)

lemma leave_table_winv:
  assumes "udp_winv p" "busy_assocs p" "map_of (flows p) k = Some f"
  shows "udp_winv (leave_table i k f p)" "busy_assocs (leave_table i k f p)"
  using winv_unused [OF winv_remove [OF assms(1,3)]] busy_drop [OF assms] by (simp_all add: leave_table_def)

lemma length_delete_le: "length (AList.delete k m) \<le> length m"
  by (simp add: AList.delete_eq)

lemma leave_table_inv:
  "udp_inv p \<Longrightarrow> map_of (flows p) k = Some f \<Longrightarrow> udp_inv (leave_table i k f p)"
  using leave_table_winv [of p k f i] length_delete_le [of k "flows p"] by (auto simp: udp_inv_alt)

lemma set_delete_subset: "set (AList.delete k m) \<subseteq> set m"
  by (auto simp: AList.delete_eq)

lemma evict_cases:
  assumes "udp_winv p"
  obtains (fits) "length (flows p) \<le> maxUDPFlows" "evictIfOverfullLocked i j keep p = (None, p)"
  | (only) "filter (\<lambda>(k, f). k \<noteq> keep) (flows p) = []" "evictIfOverfullLocked i j keep p = (None, p)"
  | (victim) k v u where "map_of (flows p) k = Some v" "k \<noteq> keep" "uf_key v = k"
      "evictIfOverfullLocked i j keep p = (Some (v, u), leave_table j k v p)"
proof (cases "length (flows p) \<le> maxUDPFlows")
  case True
  then show thesis using fits by (simp add: evictIfOverfullLocked_def)
next
  case False
  let ?c = "filter (\<lambda>(k, f). k \<noteq> keep) (flows p)"
  show thesis
  proof (cases "pick i ?c")
    case None
    then show thesis using only False by (simp add: evictIfOverfullLocked_def pick_def split: if_splits)
  next
    case (Some kv)
    obtain k v where kv: "kv = (k, v)" by (cases kv)
    have "(k, v) \<in> set (flows p)" "k \<noteq> keep" using pick_mem [OF Some] kv by auto
    moreover from this have "map_of (flows p) k = Some v" "uf_key v = k"
      using udp_winv_mem [OF assms] by (auto simp: flow_ok_def)
    ultimately show thesis
      using victim [of k v "fst (removeAssociationIfUnusedLocked (uk_src k)
        (removeFlowFromAssociationLocked j v (p\<lparr>flows := AList.delete k (flows p)\<rparr>)))"] False Some kv
      by (simp add: evictIfOverfullLocked_def leave_table_def split_beta)
  qed
qed

lemma winv_keep_only:
  assumes "udp_winv p" "filter (\<lambda>(k, f). k \<noteq> keep) (flows p) = []"
  shows "length (flows p) \<le> 1"
proof -
  have "set (map fst (flows p)) \<subseteq> {keep}" using assms(2) by (auto simp: filter_empty_conv)
  moreover have "distinct (map fst (flows p))" using assms(1) by (simp add: udp_winv_def wf_map_def)
  ultimately show ?thesis by (metis card.empty card_insert_disjoint card_mono distinct_card empty_iff finite.emptyI finite_insert length_map One_nat_def)
qed

text \<open>Admitting a flow: it is in the table afterwards, and nothing else is new.\<close>

definition new_flow :: "udp_key \<Rightarrow> string \<Rightarrow> udp_flow \<Rightarrow> bool" where
  "new_flow key host f \<longleftrightarrow> uf_key f = key \<and> uf_host f = host"

lemma admit_after_open:
  assumes w: "udp_winv p" and k: "map_of (flows p) key = None"
    and as: "map_of (associations p) (uk_src key) = Some aid"
    and b: "\<And>s i. map_of (associations p) s = Some i \<Longrightarrow> s \<noteq> uk_src key \<Longrightarrow> assoc_flows i p \<noteq> []"
    and l: "length (flows p) \<le> maxUDPFlows" and q: "wf_map (quics p)" "length (quics p) \<le> maxQUICInspections"
    and f_def: "f = \<lparr>uf_id = next_id p, uf_key = key, uf_host = host, uf_assoc = aid, uf_lastSeen = now\<rparr>"
    and ev: "evictIfOverfullLocked i j key (addFlowToAssociationLocked f
      (p\<lparr>flows := AList.update key f (flows p), next_id := Suc (next_id p)\<rparr>)) = (ev, p')"
  shows "udp_inv p' \<and> map_of (flows p') key = Some f \<and> set (table_flows p') \<subseteq> insert f (set (table_flows p))"
proof -
  define p2 where "p2 = addFlowToAssociationLocked f (p\<lparr>flows := AList.update key f (flows p), next_id := Suc (next_id p)\<rparr>)"
  have fl: "flows p2 = flows p @ [(key, f)]" and p2: "associations p2 = associations p" "quics p2 = quics p"
    by (simp_all add: p2_def addFlowToAssociationLocked_def update_fresh k)
  have w2: "udp_winv p2"
    using winv_add [OF w, of f] k as by (simp add: p2_def f_def)
  have kf: "map_of (flows p2) key = Some f" by (simp add: fl k map_add_def)
  have b2: "busy_assocs p2"
    unfolding busy_assocs_def p2
  proof (intro allI impI)
    fix s i assume a: "map_of (associations p) s = Some i"
    show "assoc_flows i p2 \<noteq> []"
    proof (cases "s = uk_src key")
      case True
      with a as show ?thesis by (simp add: flow_lists_append [OF fl] f_def)
    next
      case False
      with b [OF a] show ?thesis by (simp add: flow_lists_append [OF fl])
    qed
  qed
  have ev2: "evictIfOverfullLocked i j key p2 = (ev, p')" using ev by (simp add: p2_def)
  have t2: "set (table_flows p2) \<subseteq> insert f (set (table_flows p))" by (simp add: flow_lists_append [OF fl])
  from w2 show ?thesis
  proof (cases rule: evict_cases [where i = i and j = j and keep = key])
    case fits
    with ev2 w2 b2 q p2 kf t2 show ?thesis by (auto simp: udp_inv_alt)
  next
    case only
    have "length (flows p2) \<le> maxUDPFlows"
      using winv_keep_only [OF w2 only(1)] by (simp add: maxUDPFlows_def)
    with only ev2 w2 b2 q p2 kf t2 show ?thesis by (auto simp: udp_inv_alt)
  next
    case (victim k v u)
    have len: "length (AList.delete k (flows p2)) \<le> maxUDPFlows"
      using length_delete_flow [OF _ victim(1)] w2 l by (simp add: udp_winv_def fl)
    have "set (table_flows (leave_table j k v p2)) \<subseteq> set (table_flows p2)"
      using set_delete_subset [of k "flows p2"] by (auto simp: table_flows_def)
    with t2 have "set (table_flows (leave_table j k v p2)) \<subseteq> insert f (set (table_flows p))" by blast
    with victim ev2 leave_table_winv [OF w2 b2 victim(1)] len q p2 kf show ?thesis
      by (simp add: udp_inv_alt)
  qed
qed

lemma admit_flow_inv:
  assumes i: "udp_inv p" and a: "admit_flow E key host p = (r, p')"
  shows "udp_inv p' \<and>
    (case r of Inl err \<Rightarrow> p' = p
     | Inr (f, fresh, ev) \<Rightarrow> map_of (flows p') key = Some f \<and> (fresh \<longrightarrow> new_flow key host f) \<and>
         set (table_flows p') \<subseteq> insert f (set (table_flows p)) \<and> (\<not> fresh \<longrightarrow> p' = p))"
proof (cases "map_of (flows p) key")
  case (Some f)
  with a i show ?thesis by (auto simp: admit_flow_def table_flows_def)
next
  case None
  have w: "udp_winv p" and b: "busy_assocs p" and l: "length (flows p) \<le> maxUDPFlows"
    and q: "wf_map (quics p)" "length (quics p) \<le> maxQUICInspections"
    using i by (simp_all add: udp_inv_alt)
  show ?thesis
  proof (cases "map_of (associations p) (uk_src key)")
    case as: (Some aid)
    from a None as show ?thesis
      using admit_after_open [OF w None as _ l q refl, where host = host and now = "ue_now E" and i = "ue_pos E" and j = "ue_pos2 E"] b
      by (auto simp: admit_flow_def Let_def busy_assocs_def new_flow_def split: prod.splits)
  next
    case no: None
    show ?thesis
    proof (cases "ue_open E")
      case (Some err)
      with a None no i show ?thesis by (auto simp: admit_flow_def)
    next
      case op: None
      let ?p1 = "p\<lparr>heap := AList.update (next_id p) \<lparr>ua_src = uk_src key, ua_flows = 0, ua_peers = [], ua_logged = False\<rparr> (heap p),
                   associations := AList.update (uk_src key) (next_id p) (associations p), next_id := Suc (next_id p)\<rparr>"
      have w1: "udp_winv ?p1" by (rule winv_open [OF w no])
      have t: "table_flows ?p1 = table_flows p" "assoc_flows j ?p1 = assoc_flows j p" for j
        by (rule flow_lists_cong, simp)+
      have b1: "assoc_flows j ?p1 \<noteq> []" if "map_of (associations ?p1) s = Some j" "s \<noteq> uk_src key" for s j
        using that b t by (auto simp: busy_assocs_def)
      let ?f = "\<lparr>uf_id = next_id ?p1, uf_key = key, uf_host = host, uf_assoc = next_id p, uf_lastSeen = ue_now E\<rparr>"
      from a None no op obtain ev where r: "r = Inr (?f, True, ev)" and
        ev: "evictIfOverfullLocked (ue_pos E) (ue_pos2 E) key (addFlowToAssociationLocked ?f
          (?p1\<lparr>flows := AList.update key ?f (flows ?p1), next_id := Suc (next_id ?p1)\<rparr>)) = (ev, p')"
        by (simp add: admit_flow_def Let_def split: prod.splits)
      have "udp_inv p' \<and> map_of (flows p') key = Some ?f \<and> set (table_flows p') \<subseteq> insert ?f (set (table_flows ?p1))"
        by (rule admit_after_open [OF w1 _ _ b1 _ _ _ refl ev]) (use None l q in auto)
      with r t show ?thesis by (simp add: new_flow_def)
    qed
  qed
qed

section \<open>Every flow is one the policy allows\<close>

definition flow_auth :: "handler \<Rightarrow> policy \<Rightarrow> udp_flow \<Rightarrow> bool" where
  "flow_auth h pol f \<longleftrightarrow> granted pol [uf_host f] \<or> broad_grant (brain_of h) (ap_addr (uk_dst (uf_key f)))"

definition udp_good :: "handler \<Rightarrow> policy \<Rightarrow> udp_proxy \<Rightarrow> bool" where
  "udp_good h pol p \<longleftrightarrow> udp_inv p \<and> (\<forall>f \<in> set (table_flows p). flow_auth h pol f) \<and>
     (\<forall>(k, q) \<in> set (quics p). quic_inv q)"

lemma flow_auth_same: "same_flow f g \<Longrightarrow> flow_auth h pol f = flow_auth h pol g"
  by (simp add: flow_auth_def same_flow_def)

lemma same_flow_refl [simp]: "same_flow f f"
  by (simp add: same_flow_def)

text \<open>A smaller table is as good.\<close>

lemma udp_good_sub:
  assumes "udp_good h pol p" "udp_inv p'" "quics p' = quics p"
    and "\<And>g. g \<in> set (table_flows p') \<Longrightarrow> \<exists>f \<in> set (table_flows p). same_flow f g"
  shows "udp_good h pol p'"
  using assms flow_auth_same unfolding udp_good_def by (metis (no_types, lifting))

lemma inv_touch: "udp_inv p \<Longrightarrow> udp_inv (touch i t p)"
proof -
  assume a: "udp_inv p"
  have "assoc_flows aid (touch i t p) = [] \<longleftrightarrow> assoc_flows aid p = []" for aid
    unfolding touch_map_flows by (subst flow_lists_map) (simp_all add: same_flow_touch)
  moreover have "associations (touch i t p) = associations p" "quics (touch i t p) = quics p"
    "length (flows (touch i t p)) = length (flows p)" by (simp_all add: touch_def)
  ultimately show ?thesis using a winv_touch [of p i t] by (simp add: udp_inv_def)
qed

lemma good_touch: "udp_good h pol p \<Longrightarrow> udp_good h pol (touch i t p)"
proof (rule udp_good_sub)
  assume "udp_good h pol p"
  then show "udp_inv (touch i t p)" by (simp add: udp_good_def inv_touch)
  fix g assume "g \<in> set (table_flows (touch i t p))"
  then obtain f where "f \<in> set (table_flows p)" "g = (if uf_id f = i then f\<lparr>uf_lastSeen := t\<rparr> else f)"
    unfolding touch_map_flows flow_lists_map(1) [OF same_flow_touch] by auto
  then show "\<exists>f \<in> set (table_flows p). same_flow f g" using same_flow_touch by metis
qed (auto simp: touch_def)

lemma good_closed [simp]: "udp_good h pol (p\<lparr>closed := cs\<rparr>) = udp_good h pol p"
  by (simp add: udp_good_def udp_inv_alt table_flows_def)

lemma good_closeFlow [simp]: "udp_good h pol (snd (closeFlow f r p)) = udp_good h pol p"
  by (simp add: closeFlow_def)

lemma closeFlow_flows [simp]: "flows (snd (closeFlow f r p)) = flows p"
  by (simp add: closeFlow_def)

lemma good_leave_table:
  assumes "udp_good h pol p" "map_of (flows p) k = Some f"
  shows "udp_good h pol (leave_table i k f p)"
proof (rule udp_good_sub [OF assms(1)])
  show "udp_inv (leave_table i k f p)" using assms leave_table_inv by (simp add: udp_good_def)
  fix g assume "g \<in> set (table_flows (leave_table i k f p))"
  then have "g \<in> set (table_flows p)" using set_delete_subset [of k "flows p"] by (auto simp: table_flows_def)
  then show "\<exists>f \<in> set (table_flows p). same_flow f g" by (rule bexI [rotated]) simp
qed simp

lemma drop_flow_same:
  assumes "same_flow f g"
  shows "drop_flow i f p = drop_flow i g p"
proof -
  have "leave_assoc i cs f = leave_assoc i cs g" for cs
    using assms unfolding leave_assoc_def same_flow_def by metis
  with assms show ?thesis by (simp add: drop_flow_def removeFlowFromAssociationLocked_def same_flow_def)
qed

lemma good_removeFlow:
  assumes "udp_good h pol p"
    and "\<And>cur. map_of (flows p) (uf_key f) = Some cur \<Longrightarrow> uf_id cur = uf_id f \<Longrightarrow> same_flow f cur"
  shows "udp_good h pol (snd (removeFlow i f p))"
proof (cases "\<exists>cur. map_of (flows p) (uf_key f) = Some cur \<and> uf_id cur = uf_id f")
  case True
  then obtain cur where c: "map_of (flows p) (uf_key f) = Some cur" "uf_id cur = uf_id f" by blast
  have k: "uf_key cur = uf_key f" using assms(2) [OF c] by (simp add: same_flow_def)
  have "drop_flow i f p = drop_flow i cur p" by (rule drop_flow_same [OF assms(2) [OF c]])
  with c k good_leave_table [OF assms(1) c(1), of i] show ?thesis
    by (simp add: removeFlow_def leave_table_def drop_flow_def)
qed (use assms(1) in \<open>auto simp: removeFlow_def Let_def split: option.splits\<close>)

lemma map_of_touch:
  "map_of (flows (touch i t p)) k = map_option (\<lambda>f. if uf_id f = i then f\<lparr>uf_lastSeen := t\<rparr> else f) (map_of (flows p) k)"
  by (simp add: touch_def map_of_map)

lemma udp_good_flow:
  assumes "udp_good h pol p" "map_of (flows p) k = Some f"
  shows "uf_key f = k" "flow_auth h pol f"
proof -
  have "udp_winv p" using assms(1) by (simp add: udp_good_def udp_inv_alt)
  from udp_winv_flow [OF this assms(2)] show "uf_key f = k" by (simp add: flow_ok_def)
  have "f \<in> set (table_flows p)" using assms(2) by (force simp: table_flows_def dest: map_of_SomeD)
  then show "flow_auth h pol f" using assms(1) by (simp add: udp_good_def)
qed

lemma good_udp_send:
  assumes g: "udp_good h pol p" and f: "map_of (flows p) key = Some f"
  shows "udp_good h pol (uo_proxy (udp_send h E key host payload f p st))"
proof -
  let ?p1 = "touch (uf_id f) (ue_now E) p"
  have g1: "udp_good h pol ?p1" by (rule good_touch [OF g])
  have "udp_good h pol (snd (removeFlow (ue_pos E) f ?p1))"
  proof (rule good_removeFlow [OF g1])
    fix cur assume "map_of (flows ?p1) (uf_key f) = Some cur" "uf_id cur = uf_id f"
    with f udp_good_flow(1) [OF g f] show "same_flow f cur" by (auto simp: map_of_touch same_flow_def)
  qed
  with g1 show ?thesis
    by (auto simp: udp_send_def Let_def split: prod.splits bool.splits option.splits)
qed

lemma udp_send_sent: "set (uo_sent (udp_send h E key host payload f p st)) \<subseteq> {(uk_src key, uk_dst key, payload)}"
  by (auto simp: udp_send_def Let_def split: prod.splits bool.splits option.splits)

lemma evict_quics: "quics (snd (evictIfOverfullLocked i j key p)) = quics p"
  by (simp add: evictIfOverfullLocked_def split_beta split: option.split)

lemma admit_flow_quics: "admit_flow E key host p = (r, p') \<Longrightarrow> quics p' = quics p"
  using evict_quics
  by (auto simp: admit_flow_def Let_def split_beta addFlowToAssociationLocked_def split: option.splits sum.splits)

lemma good_admit_flow:
  assumes g: "udp_good h pol p" and a: "admit_flow E key host p = (Inr (f, fresh, ev), p')"
    and ok: "granted pol [host] \<or> broad_grant (brain_of h) (ap_addr (uk_dst key))"
  shows "udp_good h pol p' \<and> map_of (flows p') key = Some f"
proof -
  have i: "udp_inv p" using g by (simp add: udp_good_def)
  note r = admit_flow_inv [OF i a, simplified]
  note q = admit_flow_quics [OF a]
  show ?thesis
  proof (cases fresh)
    case True
    then have "flow_auth h pol f" using r ok by (auto simp: flow_auth_def new_flow_def)
    with g r q show ?thesis by (auto simp: udp_good_def)
  qed (use r g in auto)
qed

text \<open>The decision is the brain's, and a locked allowlist refuses an unbound QUIC name.\<close>

definition unbound :: "udp_env \<Rightarrow> addr_port \<Rightarrow> string \<Rightarrow> string \<Rightarrow> hstate \<Rightarrow> bool" where
  "unbound E dst host protocol st \<longleftrightarrow>
     protocol = ''quic'' \<and> \<not> fst (nc_matches host (ap_addr dst) (ue_now_match E) (NameCache st))"

lemma udp_verdict_spec:
  assumes "Policy h = Some pol"
  shows "\<exists>v st'. udp_verdict h E dst host protocol st = Some (v, unbound E dst host protocol st, st') \<and>
    (Allowed v \<longleftrightarrow> (granted pol [host] \<or> broad_grant (brain_of h) (ap_addr dst)) \<and>
       \<not> (AllowlistLocked h \<and> unbound E dst host protocol st))"
proof -
  obtain r where "Evaluate (brain_of h) host [] (ap_addr dst) False = Some
    \<lparr>Allowed = granted pol [host] \<or> broad_grant (brain_of h) (ap_addr dst),
     Unlisted = broad_grant (brain_of h) (ap_addr dst) \<and> \<not> granted pol [host] \<and> \<not> False,
     Inside = allowsBroad (Mode (brain_of h)) \<and> isInsideAddr (ap_addr dst), VReason = r\<rparr>"
    using Evaluate_verdict [of "brain_of h" pol host "[]" "ap_addr dst" False] assms by (auto simp: brain_of_def)
  then show ?thesis by (simp add: udp_verdict_def unbound_def split_beta)
qed

text \<open>A datagram leaves only when its own verdict allows it, and the tables stay good on every branch.\<close>

lemma forwardUDPDatagram_spec:
  assumes pol: "Policy h = Some pol" and g: "udp_good h pol p"
  shows "\<exists>out. forwardUDPDatagram h E src dst payload host protocol p st = Some out \<and> udp_good h pol (uo_proxy out) \<and>
    set (uo_sent out) \<subseteq> {(src, dst, payload)} \<and>
    (uo_sent out \<noteq> [] \<longrightarrow> (granted pol [host] \<or> broad_grant (brain_of h) (ap_addr dst)) \<and>
       \<not> (AllowlistLocked h \<and> unbound E dst host protocol st))"
proof -
  let ?key = "\<lparr>uk_src = src, uk_dst = dst\<rparr>"
  obtain v st1 where v: "udp_verdict h E dst host protocol st = Some (v, unbound E dst host protocol st, st1)"
    "Allowed v \<longleftrightarrow> (granted pol [host] \<or> broad_grant (brain_of h) (ap_addr dst)) \<and>
       \<not> (AllowlistLocked h \<and> unbound E dst host protocol st)"
    using udp_verdict_spec [OF pol, of E dst host protocol st] by blast
  obtain r p1 where a: "admit_flow E ?key host p = (r, p1)" by force
  show ?thesis
  proof (cases "Allowed v")
    case False
    with v(1) g show ?thesis by (simp add: forwardUDPDatagram_def Let_def)
  next
    case True
    show ?thesis
    proof (cases r)
      case (Inl err)
      have "p1 = p" using admit_flow_inv [OF _ a] g Inl by (simp add: udp_good_def)
      with True v(1) a Inl g show ?thesis by (simp add: forwardUDPDatagram_def Let_def)
    next
      case (Inr x)
      obtain f fresh ev where x: "x = (f, fresh, ev)" by (cases x)
      have g1: "udp_good h pol p1 \<and> map_of (flows p1) ?key = Some f"
        using good_admit_flow [OF g a [unfolded Inr x]] True v(2) by simp
      define p2 where "p2 = (case ev of Some (victim, _) \<Rightarrow> snd (closeFlow victim ''evicted'' p1) | None \<Rightarrow> p1)"
      have g2: "udp_good h pol p2" "map_of (flows p2) ?key = Some f"
        using g1 by (auto simp: p2_def split: option.splits)
      let ?o = "udp_send h E ?key host payload f p2 st1"
      obtain lg where "forwardUDPDatagram h E src dst payload host protocol p st = Some (?o\<lparr>uo_log := lg\<rparr>)"
        using True v(1) a Inr x by (cases ev) (simp_all add: forwardUDPDatagram_def Let_def p2_def split_beta)
      with good_udp_send [OF g2, of E host payload st1] udp_send_sent [of h E ?key host payload f p2 st1] True v(2)
      show ?thesis by simp
    qed
  qed
qed

lemma forward_all_spec:
  assumes pol: "Policy h = Some pol" and g: "udp_good h pol (uo_proxy out)"
  shows "\<exists>o2. forward_all h Es n src dst ds host out = Some o2 \<and> udp_good h pol (uo_proxy o2) \<and>
    set (uo_sent o2) \<subseteq> set (uo_sent out) \<union> (\<lambda>d. (src, dst, d)) ` set ds \<and>
    (uo_sent o2 \<noteq> uo_sent out \<longrightarrow> granted pol [host] \<or> broad_grant (brain_of h) (ap_addr dst))"
  using g
proof (induction ds arbitrary: n out)
  case (Cons d ds)
  obtain o1 where o1: "forwardUDPDatagram h (Es n) src dst d host ''quic'' (uo_proxy out) (uo_state out) = Some o1"
    "udp_good h pol (uo_proxy o1)" "set (uo_sent o1) \<subseteq> {(src, dst, d)}"
    "uo_sent o1 \<noteq> [] \<longrightarrow> granted pol [host] \<or> broad_grant (brain_of h) (ap_addr dst)"
    using forwardUDPDatagram_spec [OF pol Cons.prems, of "Es n" src dst d host "''quic''" "uo_state out"] by blast
  from Cons.IH [of "o1\<lparr>uo_log := uo_log out @ uo_log o1, uo_sent := uo_sent out @ uo_sent o1\<rparr>" "Suc n"] o1
  show ?case by (cases "uo_sent o1 = []") (fastforce simp del: forward_all.simps(1))+
qed simp

lemma good_quics:
  "udp_good h pol p \<Longrightarrow> wf_map qs \<Longrightarrow> length qs \<le> maxQUICInspections \<Longrightarrow> (\<forall>(k, q) \<in> set qs. quic_inv q) \<Longrightarrow>
   udp_good h pol (p\<lparr>quics := qs\<rparr>)"
  by (simp add: udp_good_def udp_inv_alt table_flows_def)

lemma set_update_subset: "set (AList.update k v m) \<subseteq> insert (k, v) (set m)"
  by (induction m) auto

lemma set_evict_subset: "set (evict_one i m) \<subseteq> set m"
  by (auto simp: evict_one_def AList.delete_eq)

lemma good_quic_put:
  assumes "udp_good h pol p" "quic_inv q" "map_of (quics p) key = None \<Longrightarrow> length (quics p) < maxQUICInspections"
  shows "udp_good h pol (p\<lparr>quics := AList.update key q (quics p)\<rparr>)"
proof (rule good_quics [OF assms(1)])
  have q: "wf_map (quics p)" "length (quics p) \<le> maxQUICInspections" using assms(1) by (simp_all add: udp_good_def udp_inv_alt)
  then show "wf_map (AList.update key q (quics p))" by simp
  show "length (AList.update key q (quics p)) \<le> maxQUICInspections"
    using q(2) assms(3) by (cases "map_of (quics p) key") (simp_all add: update_fresh length_alist_update_mem)
  show "\<forall>(k, r) \<in> set (AList.update key q (quics p)). quic_inv r"
    using assms set_update_subset [of key q "quics p"] by (fastforce simp: udp_good_def)
qed

lemma good_quic_delete: "udp_good h pol p \<Longrightarrow> udp_good h pol (p\<lparr>quics := AList.delete key (quics p)\<rparr>)"
proof (rule good_quics)
  assume g: "udp_good h pol p"
  then show "wf_map (AList.delete key (quics p))" by (simp add: udp_good_def udp_inv_alt)
  show "length (AList.delete key (quics p)) \<le> maxQUICInspections"
    using g length_delete_le [of key "quics p"] by (simp add: udp_good_def udp_inv_alt)
  show "\<forall>(k, r) \<in> set (AList.delete key (quics p)). quic_inv r"
    using g set_delete_subset [of key "quics p"] by (fastforce simp: udp_good_def)
qed

lemma quic_lookup_good:
  assumes g: "udp_good h pol p" and l: "quic_lookup i key p = (q, p1)"
  shows "udp_good h pol p1 \<and> quic_inv q \<and> map_of (quics p1) key \<noteq> None"
proof (cases "map_of (quics p) key")
  case (Some q')
  have "quic_inv q'" using g Some by (auto simp: udp_good_def dest!: map_of_SomeD)
  with Some l g show ?thesis by (simp add: quic_lookup_def)
next
  case None
  let ?qs = "if length (quics p) \<ge> maxQUICInspections then evict_one i (quics p) else quics p"
  have q: "wf_map (quics p)" "length (quics p) \<le> maxQUICInspections" "\<forall>(k, q) \<in> set (quics p). quic_inv q"
    using g by (simp_all add: udp_good_def udp_inv_alt)
  have len: "length ?qs < maxQUICInspections"
    using q(2) length_evict_one [of "quics p" i] by (cases "quics p") (auto simp: maxQUICInspections_def)
  have g1: "udp_good h pol (p\<lparr>quics := ?qs\<rparr>)"
    using q len set_evict_subset [of i "quics p"] by (intro good_quics [OF g]) auto
  have "udp_good h pol (p\<lparr>quics := AList.update key new_inspection ?qs\<rparr>)"
    using good_quic_put [OF g1 quic_inv_new, of key] len by simp
  with l None quic_inv_new show ?thesis by (auto simp: quic_lookup_def Let_def)
qed

lemma isSTUN_no_panic: "\<exists>b. isSTUNDatagram payload = Some b"
proof (cases "length payload < 20")
  case False
  then have "slice payload 2 4 = Some (drop 2 (take 4 payload))" "slice payload 4 8 = Some (drop 4 (take 8 payload))"
    by (simp_all add: slice_def)
  moreover have "at payload 0 = Some (payload ! 0)" using False by (auto simp: at_def)
  ultimately show ?thesis using False by (auto simp: isSTUNDatagram_def Uint16_def Uint32_def)
qed (auto simp: isSTUNDatagram_def)

section \<open>One datagram of the guest\<close>

text \<open>The name the policy is asked about, and the datagrams that leave when it allows.\<close>

definition inspected :: "quic_crypto \<Rightarrow> udp_env \<Rightarrow> udp_key \<Rightarrow> bytes \<Rightarrow> udp_proxy \<Rightarrow> string \<Rightarrow> bytes list \<Rightarrow> bool" where
  "inspected Q E key payload p host ds \<longleftrightarrow>
     (\<exists>q'. quic_add Q (ue_now E) payload (fst (quic_lookup (ue_pos E) key p)) = Some (Inr (Some host), q') \<and>
           ds = buffered_pkts q')"

definition asserted :: "quic_crypto \<Rightarrow> udp_env \<Rightarrow> time \<Rightarrow> udp_key \<Rightarrow> bytes \<Rightarrow> udp_proxy \<Rightarrow> hstate \<Rightarrow> string \<Rightarrow> bytes list \<Rightarrow> bool" where
  "asserted Q E now key payload p st host ds \<longleftrightarrow>
     (if ap_port (uk_dst key) = 443 \<and> isSTUNDatagram payload \<noteq> Some True then
        (case map_of (flows p) key of
           Some f \<Rightarrow> host = uf_host f \<and> ds = [payload]
         | None \<Rightarrow> inspected Q E key payload p host ds)
      else ds = [payload] \<and> host = (case fst (nc_reverse (ap_addr (uk_dst key)) now (NameCache st)) of
        Some n \<Rightarrow> n | None \<Rightarrow> addr_String (ap_addr (uk_dst key))))"

definition datagram_ok ::
  "handler \<Rightarrow> policy \<Rightarrow> quic_crypto \<Rightarrow> udp_env \<Rightarrow> time \<Rightarrow> udp_key \<Rightarrow> bytes \<Rightarrow> udp_proxy \<Rightarrow> hstate \<Rightarrow> udp_out \<Rightarrow> bool" where
  "datagram_ok h pol Q E now key payload p st out \<longleftrightarrow> udp_good h pol (uo_proxy out) \<and>
     (uo_sent out \<noteq> [] \<longrightarrow> \<not> isOwnBindAddr h (uk_dst key) \<and> ap_port (uk_dst key) \<noteq> 53 \<and>
        (\<exists>host ds. asserted Q E now key payload p st host ds \<and>
           set (uo_sent out) \<subseteq> (\<lambda>d. (uk_src key, uk_dst key, d)) ` set ds \<and>
           (granted pol [host] \<or> broad_grant (brain_of h) (ap_addr (uk_dst key)))))"

lemma datagram_ok_forward:
  assumes pol: "Policy h = Some pol" and g: "udp_good h pol p"
    and d: "\<not> isOwnBindAddr h dst" "ap_port dst \<noteq> 53"
    and a: "asserted Q (Es 0) now \<lparr>uk_src = src, uk_dst = dst\<rparr> payload p st host [payload]"
  shows "\<exists>out. map_option (\<lambda>o1. (o1, None)) (forwardUDPDatagram h (Es 0) src dst payload host protocol p st1) = Some (out, None) \<and>
    datagram_ok h pol Q (Es 0) now \<lparr>uk_src = src, uk_dst = dst\<rparr> payload p st out"
proof -
  obtain out where o: "forwardUDPDatagram h (Es 0) src dst payload host protocol p st1 = Some out" "udp_good h pol (uo_proxy out)"
    "set (uo_sent out) \<subseteq> {(src, dst, payload)}"
    "uo_sent out \<noteq> [] \<longrightarrow> granted pol [host] \<or> broad_grant (brain_of h) (ap_addr dst)"
    using forwardUDPDatagram_spec [OF pol g, of "Es 0" src dst payload host protocol st1] by blast
  have "datagram_ok h pol Q (Es 0) now \<lparr>uk_src = src, uk_dst = dst\<rparr> payload p st out"
    using o d a unfolding datagram_ok_def by (auto intro!: exI [of _ host] exI [of _ "[payload]"])
  with o(1) show ?thesis by simp
qed

lemma handleUDPDatagram_spec:
  assumes pol: "Policy h = Some pol" and g: "udp_good h pol p" and Q: "gcm_ok Q"
  shows "\<exists>out job. handleUDPDatagram h Q Es now src dst payload p st = Some (out, job) \<and>
    datagram_ok h pol Q (Es 0) now \<lparr>uk_src = src, uk_dst = dst\<rparr> payload p st out"
proof (cases "isOwnBindAddr h dst \<or> ap_port dst = 53")
  case True
  with g show ?thesis by (auto simp: handleUDPDatagram_def Let_def datagram_ok_def)
next
  case False
  let ?key = "\<lparr>uk_src = src, uk_dst = dst\<rparr>"
  obtain b where b: "isSTUNDatagram payload = Some b" using isSTUN_no_panic by blast
  obtain name nc where n: "nc_reverse (ap_addr dst) now (NameCache st) = (name, nc)" by force
  note fwd = datagram_ok_forward [OF pol g, of dst Q Es now src payload st]
  show ?thesis
  proof (cases "ap_port dst = 443 \<and> \<not> b")
    case other: False
    let ?host = "case name of Some n \<Rightarrow> n | None \<Rightarrow> addr_String (ap_addr dst)"
    have "asserted Q (Es 0) now ?key payload p st ?host [payload]"
      using other b by (auto simp: asserted_def n split: option.split)
    with False b n fwd [of ?host] other show ?thesis by (auto simp: handleUDPDatagram_def Let_def)
  next
    case quic: True
    show ?thesis
    proof (cases "map_of (flows p) ?key")
      case (Some f)
      with False b n quic fwd [of "uf_host f"] show ?thesis by (auto simp: handleUDPDatagram_def Let_def asserted_def)
    next
      case None
      obtain q p1 where l: "quic_lookup (ue_pos (Es 0)) ?key p = (q, p1)" by force
      have g1: "udp_good h pol p1" "quic_inv q" "map_of (quics p1) ?key \<noteq> None"
        using quic_lookup_good [OF g l] by auto
      obtain r q' where a: "quic_add Q (ue_now (Es 0)) payload q = Some (r, q')" "quic_inv q'"
        using quic_add_inv [OF Q g1(2)] by blast
      note put = good_quic_put [OF g1(1) a(2), of ?key] and del = good_quic_delete [OF g1(1), of ?key]
      consider err where "r = Inl err" | "r = Inr None" | host where "r = Inr (Some host)"
        by (cases r rule: sum.exhaust) (metis option.exhaust)+
      then show ?thesis
      proof cases
        case (3 host)
        let ?out = "\<lparr>uo_log = [], uo_sent = [], uo_proxy = p1\<lparr>quics := AList.delete ?key (quics p1)\<rparr>, uo_state = st\<lparr>NameCache := nc\<rparr>\<rparr>"
        have "udp_good h pol (uo_proxy ?out)" using del by simp
        from forward_all_spec [OF pol this, of Es 1 src dst "buffered_pkts q'" host]
        obtain o2 where o2: "forward_all h Es 1 src dst (buffered_pkts q') host ?out = Some o2" "udp_good h pol (uo_proxy o2)"
          "set (uo_sent o2) \<subseteq> (\<lambda>d. (src, dst, d)) ` set (buffered_pkts q')"
          "uo_sent o2 \<noteq> [] \<longrightarrow> granted pol [host] \<or> broad_grant (brain_of h) (ap_addr dst)" by auto
        have "asserted Q (Es 0) now ?key payload p st host (buffered_pkts q')"
          using quic b None l a(1) 3 by (simp add: asserted_def inspected_def)
        with o2 False have "datagram_ok h pol Q (Es 0) now ?key payload p st o2" by (auto simp: datagram_ok_def)
        with o2(1) False b n quic None l a(1) 3 show ?thesis by (simp add: handleUDPDatagram_def Let_def)
      qed (use False b n quic None l a(1) put del g1(3) in \<open>auto simp: handleUDPDatagram_def Let_def datagram_ok_def\<close>)
    qed
  qed
qed

section \<open>Replies, idle flows and shutdown\<close>

lemma good_logged: "udp_good h pol p \<Longrightarrow> udp_good h pol (heap_map aid (\<lambda>a. a\<lparr>ua_logged := True\<rparr>) p)"
proof -
  assume g: "udp_good h pol p"
  let ?q = "heap_map aid (\<lambda>a. a\<lparr>ua_logged := True\<rparr>) p"
  have "table_flows ?q = table_flows p" "assoc_flows i ?q = assoc_flows i p" for i
    by (rule flow_lists_cong, simp)+
  with g winv_logged [of p aid] show ?thesis by (simp add: udp_good_def udp_inv_def)
qed

lemma good_readUpstream:
  assumes "udp_good h pol p"
  shows "udp_good h pol (snd (snd (readUpstream rt now aid a0 ft from payload p)))"
  using assms good_touch [OF assms] good_logged [OF good_touch [OF assms]]
  by (auto simp: readUpstream_def Let_def split: option.splits)

text \<open>The flow a reply is attributed to is live, of the same guest source, and its peer is the sender's address.\<close>

lemma replyFlow_live:
  assumes w: "udp_winv p" and s: "map_of (associations p) (ua_src a) = Some aid" and a: "map_of (heap p) aid = Some a"
    and r: "replyFlowLocked a peer p = Some f"
  shows "\<exists>g \<in> set (table_flows p). same_flow f g \<and> uk_src (uf_key g) = ua_src a \<and> ap_addr (uk_dst (uf_key g)) = ap_addr peer"
proof (cases "map_of (flows p) \<lparr>uk_src = ua_src a, uk_dst = peer\<rparr>")
  case (Some g)
  with r have "g = f" by (simp add: replyFlowLocked_def)
  moreover have "uf_key f = \<lparr>uk_src = ua_src a, uk_dst = peer\<rparr>" "f \<in> set (table_flows p)"
    using udp_winv_flow [OF w Some] map_of_SomeD [OF Some] \<open>g = f\<close> by (force simp: flow_ok_def table_flows_def)+
  ultimately show ?thesis by (intro bexI [of _ f]) simp_all
next
  case None
  with r obtain pr where pr: "map_of (ua_peers a) (ap_addr peer) = Some pr" "pr_rep pr = Some f"
    by (auto simp: replyFlowLocked_def bind_eq_Some_conv)
  have "peer_ok (candidates aid (ap_addr peer) p) (Some pr)"
    using udp_winv_assoc [OF w s] a pr(1) by (metis assoc_ok_def option.inject)
  with pr(2) obtain g where g: "g \<in> set (candidates aid (ap_addr peer) p)" "same_flow f g" by (auto simp: peer_ok_def)
  then obtain k where k: "(k, g) \<in> set (flows p)" "uf_assoc g = aid" "ap_addr (uk_dst (uf_key g)) = ap_addr peer"
    by (auto simp: candidates_alt table_flows_def)
  then have "uf_key g = k" "map_of (associations p) (uk_src k) = Some aid"
    using udp_winv_mem [OF w k(1)] by (auto simp: flow_ok_def)
  moreover from this have "uk_src k = ua_src a" using udp_winv_assoc [OF w] a by (fastforce simp: assoc_ok_def)
  moreover have "g \<in> set (table_flows p)" using g(1) by (simp add: candidates_alt)
  ultimately show ?thesis using g k by (intro bexI [of _ g]) auto
qed

lemma readUpstream_delivered:
  assumes "readUpstream rt now aid a0 ft from payload p = (Delivered f peer src pl, lg, p')"
  obtains a where "from = Some peer" "src = ua_src a0" "pl = payload"
    "map_of (associations p) (ua_src a0) = Some aid" "map_of (heap p) aid = Some a" "replyFlowLocked a peer p = Some f"
  using assms that by (auto simp: readUpstream_def Let_def split: option.splits if_splits)

lemma readUpstream_auth:
  assumes g: "udp_good h pol p" and d: "readUpstream rt now aid a0 ft from payload p = (Delivered f peer src pl, lg, p')"
  shows "from = Some peer \<and> pl = payload \<and> (\<exists>k g. map_of (flows p) k = Some g \<and> uf_host g = uf_host f \<and>
    uk_src k = src \<and> ap_addr (uk_dst k) = ap_addr peer \<and> flow_auth h pol g)"
proof -
  have w: "udp_winv p" using g by (simp add: udp_good_def udp_inv_alt)
  from d obtain a where a: "from = Some peer" "src = ua_src a0" "pl = payload"
    "map_of (associations p) (ua_src a0) = Some aid" "map_of (heap p) aid = Some a" "replyFlowLocked a peer p = Some f"
    by (rule readUpstream_delivered)
  have s: "ua_src a = ua_src a0" using udp_winv_assoc [OF w a(4)] a(5) by (auto simp: assoc_ok_def)
  obtain g' where g': "g' \<in> set (table_flows p)" "same_flow f g'" "uk_src (uf_key g') = ua_src a"
    "ap_addr (uk_dst (uf_key g')) = ap_addr peer"
    using replyFlow_live [OF w _ a(5,6)] a(4) s by auto
  then obtain k where k: "(k, g') \<in> set (flows p)" by (auto simp: table_flows_def)
  have "map_of (flows p) k = Some g'" "uf_key g' = k" using udp_winv_mem [OF w k] by (auto simp: flow_ok_def)
  with a g' s g show ?thesis by (auto simp: udp_good_def same_flow_def)
qed

text \<open>Reaping removes the idle flows, then every association left without one.\<close>

lemma reap_flows_winv:
  assumes "udp_winv p" "distinct (map fst xs)" "\<And>k f. (k, f) \<in> set xs \<Longrightarrow> map_of (flows p) k = Some f"
    and "reap_flows pos cutoff n xs p = (dead, p')"
  shows "udp_winv p' \<and> set (flows p') \<subseteq> set (flows p) \<and> length (flows p') \<le> length (flows p) \<and> quics p' = quics p \<and>
    associations p' = associations p \<and> (\<forall>k f. (k, f) \<in> set xs \<longrightarrow> idleSince cutoff f \<longrightarrow> map_of (flows p') k = None)"
  using assms
proof (induction xs arbitrary: p n dead)
  case (Cons kf xs)
  obtain k f where kf: "kf = (k, f)" by (cases kf)
  show ?case
  proof (cases "idleSince cutoff f")
    case True
    let ?q = "removeFlowFromAssociationLocked (pos n) f (p\<lparr>flows := AList.delete k (flows p)\<rparr>)"
    have fk: "map_of (flows p) k = Some f" using Cons.prems(3) kf by simp
    have rest: "map_of (flows ?q) k' = Some f'" if "(k', f') \<in> set xs" for k' f'
      using Cons.prems(2,3) that kf by (force simp: image_iff)
    obtain dead' where d: "reap_flows pos cutoff (Suc n) xs ?q = (dead', p')"
      using Cons.prems(4) kf True by (auto split: prod.splits)
    have q: "associations ?q = associations p" "quics ?q = quics p" "flows ?q = AList.delete k (flows p)"
      by (simp_all add: removeFlowFromAssociationLocked_def)
    note ih = Cons.IH [OF winv_remove [OF Cons.prems(1) fk] _ rest d]
    have "map_of (flows p') k = None" if "set (flows p') \<subseteq> set (AList.delete k (flows p))"
      using that by (auto simp: map_of_eq_None_iff AList.delete_eq)
    with ih Cons.prems(2) kf q set_delete_subset [of k "flows p"] length_delete_le [of k "flows p"] show ?thesis by auto
  next
    case False
    with Cons kf show ?thesis by auto
  qed
qed auto

lemma reap_assocs_spec:
  assumes "udp_winv p" "reap_assocs srcs p = (ids, p')"
  shows "udp_winv p' \<and> flows p' = flows p \<and> quics p' = quics p \<and>
    (\<forall>s aid. map_of (associations p') s = Some aid \<longrightarrow>
       map_of (associations p) s = Some aid \<and> (s \<in> set srcs \<longrightarrow> assoc_flows aid p \<noteq> []))"
  using assms
proof (induction srcs arbitrary: p ids)
  case (Cons src srcs)
  let ?q = "snd (removeAssociationIfUnusedLocked src p)"
  obtain ids' where r: "reap_assocs srcs ?q = (ids', p')" using Cons.prems(2) by (auto split: prod.splits)
  have "map_of (associations ?q) s = Some aid \<Longrightarrow>
      map_of (associations p) s = Some aid \<and> (s = src \<longrightarrow> assoc_flows aid p \<noteq> [])" for s aid
    using unused_spec [OF Cons.prems(1), of src s] by (auto split: if_splits)
  with Cons.IH [OF winv_unused [OF Cons.prems(1)] r] show ?case by auto
qed simp

lemma good_reap_region:
  assumes g: "udp_good h pol p" and r: "reap_region pos cutoff p = (dead, ids, p')"
  shows "udp_good h pol p' \<and> set (flows p') \<subseteq> set (flows p) \<and> (\<forall>f \<in> set (table_flows p'). \<not> idleSince cutoff f)"
proof -
  have i: "udp_winv p" "wf_map (flows p)" "length (flows p) \<le> maxUDPFlows" "wf_map (quics p)"
    "length (quics p) \<le> maxQUICInspections" using g by (simp_all add: udp_good_def udp_inv_alt udp_winv_def)
  obtain p1 where p1: "reap_flows pos cutoff 0 (flows p) p = (dead, p1)" and
    "reap_assocs (map fst (associations p1)) (p1\<lparr>quics := filter (\<lambda>(k, q). \<not> lastSeen q < cutoff) (quics p1)\<rparr>) = (ids, p')"
    using r by (auto simp: reap_region_def Let_def split: prod.splits)
  note ra = reap_assocs_spec [OF _ this(2), simplified]
  have f1: "udp_winv p1" "set (flows p1) \<subseteq> set (flows p)" "length (flows p1) \<le> length (flows p)" "quics p1 = quics p"
    "\<And>k f. (k, f) \<in> set (flows p) \<Longrightarrow> idleSince cutoff f \<Longrightarrow> map_of (flows p1) k = None"
    using reap_flows_winv [OF i(1) _ _ p1] i(2) by (auto simp: wf_map_def)
  have a: "udp_winv p'" "flows p' = flows p1" "quics p' = filter (\<lambda>(k, q). \<not> lastSeen q < cutoff) (quics p)"
    "\<And>s aid. map_of (associations p') s = Some aid \<Longrightarrow> map_of (associations p1) s = Some aid \<and>
       (s \<in> fst ` set (associations p1) \<longrightarrow> assoc_flows aid p1 \<noteq> [])"
    using ra [OF f1(1)] by (simp_all add: f1(4) assoc_flows_def table_flows_def)
  have "assoc_flows aid p' = assoc_flows aid p1" for aid by (rule flow_lists_cong) (simp add: a)
  then have "busy_assocs p'" using a(4) unfolding busy_assocs_def by (metis map_of_SomeD fst_conv image_eqI)
  moreover have "wf_map (quics p')" "length (quics p') \<le> maxQUICInspections"
    using i(4,5) by (simp_all add: a wf_map_def distinct_map_filter le_trans [OF length_filter_le])
  ultimately have "udp_inv p'" using a f1 i by (simp add: udp_inv_alt)
  moreover have "\<not> idleSince cutoff f" if "f \<in> set (table_flows p')" for f
  proof -
    from that obtain k where "(k, f) \<in> set (flows p1)" by (auto simp: table_flows_def a(2))
    with f1(2) f1(5) [of k f] show ?thesis by (force simp: map_of_eq_None_iff)
  qed
  ultimately show ?thesis using g a f1(2) by (fastforce simp: udp_good_def table_flows_def)
qed

lemma good_close_flows [simp]: "udp_good h pol (snd (close_flows r fs p)) = udp_good h pol p"
  by (induction fs arbitrary: p) (simp_all add: split_beta)

lemma close_flows_flows [simp]: "flows (snd (close_flows r fs p)) = flows p"
  by (induction fs arbitrary: p) (simp_all add: split_beta)

lemma good_reapIdle:
  assumes "udp_good h pol p"
  shows "udp_good h pol (snd (reapIdle pos idle now p))"
    "\<forall>f \<in> set (table_flows (snd (reapIdle pos idle now p))). \<not> idleSince (now - idle) f"
  using good_reap_region [OF assms, of pos "now - idle"]
  by (cases "reap_region pos (now - idle) p"; simp add: reapIdle_def table_flows_def)+

lemma good_empty: "udp_good h pol (p\<lparr>flows := [], associations := [], quics := []\<rparr>)"
  by (simp add: udp_good_def udp_inv_alt udp_winv_def busy_assocs_def table_flows_def)

lemma good_closeAll: "udp_good h pol (snd (closeAll p)) \<and> flows (snd (closeAll p)) = []"
  by (simp add: closeAll_def good_empty)

lemma good_new: "udp_good h pol new_udp_proxy"
  using good_empty [of h pol new_udp_proxy] by (simp add: new_udp_proxy_def)

section \<open>Runs of the proxy\<close>

text \<open>The guest's datagrams, the replies, the reaper and shutdown, in any order, at any times.\<close>

inductive udp_step :: "handler \<Rightarrow> quic_crypto \<Rightarrow> udp_proxy \<Rightarrow> udp_proxy \<Rightarrow> bool" for h Q where
  datagram: "handleUDPDatagram h Q Es now src dst payload p st = Some (out, job) \<Longrightarrow> udp_step h Q p (uo_proxy out)"
| reply: "udp_step h Q p (snd (snd (readUpstream rt now aid a0 ft from payload p)))"
| idle: "udp_step h Q p (snd (reapIdle pos idle now p))"
| shutdown: "udp_step h Q p (snd (closeAll p))"

inductive udp_reach :: "handler \<Rightarrow> quic_crypto \<Rightarrow> udp_proxy \<Rightarrow> bool" for h Q where
  start: "udp_reach h Q new_udp_proxy"
| step: "udp_reach h Q p \<Longrightarrow> udp_step h Q p p' \<Longrightarrow> udp_reach h Q p'"

lemma udp_step_good:
  assumes pol: "Policy h = Some pol" and Q: "gcm_ok Q" and g: "udp_good h pol p" and s: "udp_step h Q p p'"
  shows "udp_good h pol p'"
  using s
proof (cases rule: udp_step.cases)
  case (datagram Es now src dst payload st out job)
  with handleUDPDatagram_spec [OF pol g Q, of Es now src dst payload st] show ?thesis by (auto simp: datagram_ok_def)
qed (use g good_readUpstream good_reapIdle good_closeAll in auto)

lemma udp_reach_good:
  assumes pol: "Policy h = Some pol" and Q: "gcm_ok Q" and r: "udp_reach h Q p"
  shows "udp_good h pol p"
  using r by (induction rule: udp_reach.induct) (auto simp: good_new udp_step_good [OF pol Q])

end
