(* ===== verification/QuicStream.thy ===== *)
theory QuicStream
  imports Quic
begin

text \<open>
  The CRYPTO stream of a QUIC handshake, reassembled by \<open>quicInspection.add\<close> (internal/egress/quic.go) from
  fragments in any order, overlapping and repeated: the buffer holds the bytes of the stream
  (soundness), and once the fragments cover a ClientHello its host name is found (completeness).
\<close>

section \<open>Reassembly: the right bytes\<close>

text \<open>
  The fragments of one CRYPTO stream \<open>M\<close>, in any order, overlapping and repeated: whatever the
  buffer marks as present is what the stream has there.
\<close>

definition fragment_of :: "bytes \<Rightarrow> fragment \<Rightarrow> bool" where
  "fragment_of M f \<longleftrightarrow> unat (fr_offset f) + length (fr_data f) \<le> length M \<and>
     fr_data f = take (length (fr_data f)) (drop (unat (fr_offset f)) M)"

definition agrees :: "bytes \<Rightarrow> quic_inspection \<Rightarrow> bool" where
  "agrees M q \<longleftrightarrow> length (present q) = length (crypto q) \<and>
     (\<forall>i < length (crypto q). present q ! i \<longrightarrow> i < length M \<and> crypto q ! i = M ! i)"

lemma add_fragment_agrees:
  assumes "small_fragment n f" "n < 2 ^ 62" "fragment_of M f" "agrees M q" "add_fragment f q = qok q'"
  shows "agrees M q'"
proof -
  let ?o = "unat (fr_offset f)" and ?d = "fr_data f"
  let ?e = "?o + length ?d"
  have l: "length (present q) = length (crypto q)" using assms(4) by (simp add: agrees_def)
  let ?cr = "crypto q @ replicate (?e - length (crypto q)) 0"
  let ?pr = "present q @ replicate (?e - length (crypto q)) False"
  have q': "q' = q\<lparr>crypto := place ?o ?d ?cr, present := place ?o (replicate (length ?d) True) ?pr\<rparr>"
    using assms(5) unfolding add_fragment_cases [OF assms(1,2) l] by (simp split: if_splits)
  have lc: "?o + length ?d \<le> length ?cr" "length ?pr = length ?cr" using l by auto
  have "i < length M \<and> place ?o ?d ?cr ! i = M ! i"
    if "i < length ?cr" "place ?o (replicate (length ?d) True) ?pr ! i" for i
  proof (cases "?o \<le> i \<and> i < ?o + length ?d")
    case True
    have "?d = take (length ?d) (drop ?o M)" using assms(3) unfolding fragment_of_def by blast
    then have "?d ! (i - ?o) = take (length ?d) (drop ?o M) ! (i - ?o)" by (rule arg_cong)
    also have "\<dots> = M ! i"
    proof -
      have "?o + length ?d \<le> length M" using assms(3) by (simp add: fragment_of_def)
      then show ?thesis using True by auto
    qed
    finally have "?d ! (i - ?o) = M ! i" .
    with True assms(3) that lc show ?thesis by (auto simp: nth_place fragment_of_def)
  next
    case False
    with that lc have p: "?pr ! i" by (auto simp: nth_place)
    then have i: "i < length (present q)" using that(1) lc(2)
      by (auto simp: nth_append split: if_splits)
    with p have "present q ! i" by (simp add: nth_append)
    with i l assms(4) have "i < length M \<and> crypto q ! i = M ! i" by (simp add: agrees_def)
    moreover have "place ?o ?d ?cr ! i = ?cr ! i"
      using False that(1) lc(1) by (subst nth_place) auto
    moreover have "?cr ! i = crypto q ! i" using i l by (simp add: nth_append)
    ultimately show ?thesis by simp
  qed
  then show ?thesis
    using l by (simp add: q' agrees_def length_place)
qed

lemma add_fragments_agrees:
  assumes "list_all (small_fragment n) fs" "n < 2 ^ 62" "list_all (fragment_of M) fs" "agrees M q"
    "add_fragments fs q = Some (None, q')"
  shows "agrees M q'"
  using assms
proof (induction fs arbitrary: q)
  case (Cons f fs)
  then obtain q1 where "add_fragment f q = qok q1" "add_fragments fs q1 = Some (None, q')"
    by (auto split: option.splits sum.splits)
  moreover from this(1) Cons.prems have "agrees M q1" using add_fragment_agrees [of n f M q q1] by simp
  ultimately show ?case using Cons by simp
qed simp

text \<open>A name is only reported from a completely received ClientHello, and it is the stream's.\<close>

lemma hello_of_agrees:
  assumes "agrees M q" "hello_of q = qok (Some host)"
  shows "\<exists>want sni. want = 4 + be_nat (take 3 (drop 1 M)) \<and> want \<le> length M \<and>
    parseClientHelloHandshakeSNI (take want M) = Some (Some sni) \<and> host = normalizeHost sni"
proof -
  let ?c = "crypto q" and ?p = "present q"
  let ?w = "4 + unat (?c ! 1) * 65536 + unat (?c ! 2) * 256 + unat (?c ! 3)"
  have l: "length ?p = length ?c" using assms(1) by (simp add: agrees_def)
  have n4: "\<not> length ?c < 4" using assms(2) by (auto simp: hello_of_def)
  then have a: "at ?c 0 = Some (?c ! 0)" "at ?c 1 = Some (?c ! 1)" "at ?c 2 = Some (?c ! 2)" "at ?c 3 = Some (?c ! 3)"
    "slice_to ?p 4 = Some (take 4 ?p)"
    using l by (auto simp: at_def slice_to_def)
  have lw: "\<not> length ?c < ?w"
    using assms(2) n4 unfolding hello_of_def Let_def
    by (auto simp: a simp del: One_nat_def split: if_splits)
  then have w: "slice_to ?p ?w = Some (take ?w ?p)" "slice_to ?c ?w = Some (take ?w ?c)"
    using l by (simp_all add: slice_to_def)
  have all: "allPresent (take ?w ?p)"
    and r: "\<exists>sni. parseClientHelloHandshakeSNI (take ?w ?c) = Some (Some sni) \<and> host = normalizeHost sni"
    using assms(2) n4 lw unfolding hello_of_def Let_def
    by (auto simp: a w simp del: One_nat_def split: if_splits option.splits bind_splits)
  have nth: "i < length M \<and> ?c ! i = M ! i" if "i < ?w" for i
  proof -
    have "take ?w ?p ! i" using all that lw l by (simp add: allPresent_def list_all_length)
    then have "?p ! i" using that by simp
    then show ?thesis using assms(1) that lw unfolding agrees_def by (meson not_less less_le_trans)
  qed
  have lm: "?w \<le> length M"
  proof (rule ccontr)
    assume "\<not> ?w \<le> length M"
    then show False using nth [of "length M"] by simp
  qed
  have eq: "take w ?c = take w M" if "w \<le> length ?c" "w \<le> length M" "\<And>i. i < w \<Longrightarrow> ?c ! i = M ! i" for w
    by (rule nth_equalityI) (use that in auto)
  have tk: "take ?w ?c = take ?w M"
    by (rule eq [OF _ lm]) (use lw in linarith, use nth in blast)
  have "be_nat (take 3 (drop 1 M)) = unat (M ! 1) * 65536 + unat (M ! 2) * 256 + unat (M ! 3)"
  proof -
    have "4 \<le> length M" using lm by linarith
    then have "take 3 (drop 1 M) = [M ! 1, M ! 2, M ! 3]"
      by (intro nth_equalityI) (auto simp: nth_Cons numeral_eq_Suc split: nat.splits)
    then show ?thesis by (simp add: be_nat_def)
  qed
  moreover have "?c ! 1 = M ! 1" "?c ! 2 = M ! 2" "?c ! 3 = M ! 3" by (rule nth [THEN conjunct2], simp)+
  ultimately have "?w = 4 + be_nat (take 3 (drop 1 M))" by simp
  with r tk lm show ?thesis by metis
qed

section \<open>Completeness\<close>

definition covers :: "fragment list \<Rightarrow> nat \<Rightarrow> bool" where
  "covers fs i \<longleftrightarrow> (\<exists>f \<in> set fs. unat (fr_offset f) \<le> i \<and> i < unat (fr_offset f) + length (fr_data f))"

definition marks :: "nat \<Rightarrow> quic_inspection \<Rightarrow> nat \<Rightarrow> bool" where
  "marks n q i \<longleftrightarrow> i < n \<and> i < length (present q) \<and> present q ! i"

lemma covers_Cons: "covers (f # fs) i \<longleftrightarrow> (unat (fr_offset f) \<le> i \<and> i < unat (fr_offset f) + length (fr_data f)) \<or> covers fs i"
  by (auto simp: covers_def)

text \<open>A fragment of a stream that fits the buffer is taken, and its range is marked.\<close>

lemma add_fragment_marks:
  assumes "small_fragment n f" "n < 2 ^ 62" "fragment_of M f" "length M \<le> maxQUICCrypto"
    and q: "length (present q) = length (crypto q)" "length (crypto q) \<le> length M"
  obtains q' where "add_fragment f q = qok q'" "length (present q') = length (crypto q')" "length (crypto q') \<le> length M"
    "\<And>i. (unat (fr_offset f) \<le> i \<and> i < unat (fr_offset f) + length (fr_data f)) \<or> marks (length M) q i \<Longrightarrow>
       marks (length M) q' i"
proof -
  let ?o = "unat (fr_offset f)" and ?d = "fr_data f"
  let ?cr = "crypto q @ replicate (?o + length ?d - length (crypto q)) 0"
  let ?pr = "present q @ replicate (?o + length ?d - length (crypto q)) False"
  let ?q' = "q\<lparr>crypto := place ?o ?d ?cr, present := place ?o (replicate (length ?d) True) ?pr\<rparr>"
  have e: "?o + length ?d \<le> length M" using assms(3) by (simp add: fragment_of_def)
  have "add_fragment f q = qok ?q'"
    unfolding add_fragment_cases [OF assms(1,2) q(1)] using e assms(4) by simp
  moreover have "length (present ?q') = length (crypto ?q')" "length (crypto ?q') \<le> length M"
    using q e by (auto simp: length_place)
  moreover have "marks (length M) ?q' i"
    if "(?o \<le> i \<and> i < ?o + length ?d) \<or> marks (length M) q i" for i
  proof -
    have i: "i < length M" "i < length ?pr" using that e q by (auto simp: marks_def)
    moreover have "place ?o (replicate (length ?d) True) ?pr ! i"
      using that i(2) q(1) by (subst nth_place) (auto simp: marks_def nth_append)
    ultimately show ?thesis using q(1) by (auto simp: marks_def length_place)
  qed
  ultimately show thesis using that by blast
qed

lemma add_fragments_marks:
  assumes "list_all (small_fragment n) fs" "n < 2 ^ 62" "list_all (fragment_of M) fs" "length M \<le> maxQUICCrypto"
    and "length (present q) = length (crypto q)" "length (crypto q) \<le> length M"
  shows "\<exists>q'. add_fragments fs q = Some (None, q') \<and> length (crypto q') \<le> length M \<and>
    (\<forall>i. covers fs i \<or> marks (length M) q i \<longrightarrow> marks (length M) q' i)"
  using assms
proof (induction fs arbitrary: q)
  case (Cons f fs)
  obtain q1 where q1: "add_fragment f q = qok q1" "length (present q1) = length (crypto q1)" "length (crypto q1) \<le> length M"
    "\<And>i. (unat (fr_offset f) \<le> i \<and> i < unat (fr_offset f) + length (fr_data f)) \<or> marks (length M) q i \<Longrightarrow>
       marks (length M) q1 i"
    using Cons.prems add_fragment_marks [of n f M q] by auto
  obtain q' where q': "add_fragments fs q1 = Some (None, q')" "length (crypto q') \<le> length M"
    "\<forall>i. covers fs i \<or> marks (length M) q1 i \<longrightarrow> marks (length M) q' i"
    using Cons.IH [of q1] Cons.prems q1(2,3) by auto
  have "\<forall>i. covers (f # fs) i \<or> marks (length M) q i \<longrightarrow> marks (length M) q' i"
    using q'(3) q1(4) by (metis covers_Cons)
  with q'(1,2) q1(1) show ?case by simp
qed (simp add: covers_def)

text \<open>Fragments that cover a stream rebuild it.\<close>

lemma add_fragments_complete:
  assumes "list_all (small_fragment n) fs" "n < 2 ^ 62" "list_all (fragment_of M) fs" "length M \<le> maxQUICCrypto"
    and "\<forall>i < length M. covers fs i"
  shows "\<exists>q'. add_fragments fs new_inspection = Some (None, q') \<and> crypto q' = M \<and>
    present q' = replicate (length M) True"
proof -
  obtain q' where q': "add_fragments fs new_inspection = Some (None, q')" "length (crypto q') \<le> length M"
    "\<forall>i. covers fs i \<longrightarrow> marks (length M) q' i"
    using add_fragments_marks [OF assms(1-4), of new_inspection] by (auto simp: new_inspection_def)
  have a: "agrees M q'"
    using add_fragments_agrees [OF assms(1-3) _ q'(1)] by (simp add: agrees_def new_inspection_def)
  have m: "marks (length M) q' i" if "i < length M" for i using assms(5) q'(3) that by blast
  have "length M \<le> length (present q')"
  proof (cases "length M")
    case (Suc k)
    then show ?thesis using m [of k] by (simp add: marks_def)
  qed simp
  with a q'(2) have l: "length (crypto q') = length M" "length (present q') = length M"
    by (auto simp: agrees_def)
  have "crypto q' = M"
    by (rule nth_equalityI) (use l a m in \<open>auto simp: agrees_def marks_def\<close>)
  moreover have "present q' = replicate (length M) True"
    by (rule nth_equalityI) (use l m in \<open>auto simp: marks_def\<close>)
  ultimately show ?thesis using q'(1) by blast
qed

lemma be_nat_put_be24: "n < 16777216 \<Longrightarrow> be_nat (put_be24 n) = n"
  using be_nat_put_be32 [of n]
  by (simp add: put_be24_def be_nat_def put_be32_def unat_of_nat_byte)

lemma hello_of_complete:
  assumes "ch_ok c" "length (enc_handshake c) \<le> maxQUICCrypto" "crypto q = enc_handshake c"
    "present q = replicate (length (enc_handshake c)) True"
  shows "hello_of q = qok (Some (normalizeHost (ch_host c)))"
proof -
  let ?n = "length (ch_body c)"
  have n: "?n < 16777216" using assms(2) by (simp add: enc_handshake_def maxQUICCrypto_def)
  obtain b1 b2 b3 where b: "put_be24 ?n = [b1, b2, b3]"
    "unat b1 * 65536 + unat b2 * 256 + unat b3 = ?n"
    using be_nat_put_be24 [OF n] by (auto simp: put_be24_def be_nat_def)
  have e: "enc_handshake c = 1 # b1 # b2 # b3 # ch_body c" by (simp add: enc_handshake_def b(1))
  show ?thesis
    using parse_handshake_enc [OF assms(1) n] assms(2) b(2)
    by (simp add: hello_of_def assms(3,4) e at_def slice_to_def Let_def min_absorb1 add.assoc allPresent_def list_all_iff)
qed

end
