(* ===== verification/AuditLog.thy ===== *)
theory AuditLog
  imports Netip Signals
begin

text \<open>
  The audit sink (internal/egress/audit.go) and the sampler of the datapath's drop counters
  (run.go). A record is rendered by the JSON encoder, which is an argument \<open>marshal\<close>; the results of
  the file operations of a rotation are an argument too, so every failure is a branch of the model. The files
  \<open>path\<close>, \<open>path.1\<close>, \<open>path.2\<close>, ... are the keys 0, 1, 2, ... of a map from positions to contents.
\<close>

section \<open>Identity and in-memory loggers\<close>

record id_env =
  ie_rand :: "string \<Rightarrow> bytes option"
  ie_nano :: "string \<Rightarrow> int"

definition hex_byte :: "byte \<Rightarrow> string" where
  "hex_byte b = [hex_digit (unat b div 16), hex_digit (unat b mod 16)]"

definition dec_int :: "int \<Rightarrow> string" where
  "dec_int n = (if n < 0 then ''-'' else '''') @ dec (nat \<bar>n\<bar>)"

definition newAuditID :: "id_env \<Rightarrow> string \<Rightarrow> string" where
  "newAuditID E kind = kind @ ''-'' @ (case ie_rand E kind of
       Some raw \<Rightarrow> concat (map hex_byte raw)
     | None \<Rightarrow> dec_int (ie_nano E kind))"

record identity_logger =
  RuntimeID :: string
  SessionID :: string

definition stamp :: "identity_logger \<Rightarrow> id_env \<Rightarrow> (string \<times> audit_value) list \<Rightarrow> (string \<times> audit_value) list" where
  "stamp l E fs =
     (let s = set_field ''event_id'' (AStr (newAuditID E ''event''))
           (set_field ''session_id'' (AStr (SessionID l)) (set_field ''runtime_id'' (AStr (RuntimeID l)) fs))
      in if map_of s ''operation_id'' = None then set_field ''operation_id'' (AStr (newAuditID E ''operation'')) s else s)"

definition IdentityLogger_Log :: "identity_logger \<Rightarrow> id_env \<Rightarrow> audit_event \<Rightarrow> audit_event" where
  "IdentityLogger_Log l E ev = Log (ev_name ev) (stamp l E (ev_fields ev))"

text \<open>The row of a record: the fields override the event's own name and time.\<close>

definition set_fields :: "(string \<times> audit_value) list \<Rightarrow> (string \<times> audit_value) list \<Rightarrow> (string \<times> audit_value) list" where
  "set_fields fs row = fold (\<lambda>(k, v). set_field k v) fs row"

definition BufferLogger_Log :: "audit_event \<Rightarrow> (string \<times> audit_value) list list \<Rightarrow> (string \<times> audit_value) list list" where
  "BufferLogger_Log ev rows = rows @ [set_fields (ev_fields ev) [(''event'', AStr (ev_name ev))]]"

definition audit_row :: "string \<Rightarrow> audit_event \<Rightarrow> (string \<times> audit_value) list" where
  "audit_row ts ev = set_fields (ev_fields ev) [(''event'', AStr (ev_name ev)), (''ts'', AStr ts)]"

section \<open>File loggers\<close>

type_synonym encoder = "(string \<times> audit_value) list \<Rightarrow> bytes option"

definition audit_line :: "encoder \<Rightarrow> string \<Rightarrow> audit_event \<Rightarrow> bytes option" where
  "audit_line marshal ts ev = map_option (\<lambda>d. d @ [10]) (marshal (audit_row ts ev))"

text \<open>The file's content; \<open>w\<close> is how many bytes the write accepts.\<close>

definition FileLogger_Log :: "encoder \<Rightarrow> string \<Rightarrow> nat \<Rightarrow> audit_event \<Rightarrow> bytes \<Rightarrow> bytes" where
  "FileLogger_Log marshal ts w ev file = (case audit_line marshal ts ev of
       None \<Rightarrow> file
     | Some data \<Rightarrow> file @ take w data)"

record rot_logger =
  rl_open :: bool
  rl_maxBytes :: int
  rl_maxBackups :: int
  rl_size :: int

type_synonym disk = "(nat, bytes) gomap"

record rot_env =
  re_remove :: bool
  re_rename :: "nat \<Rightarrow> bool"
  re_open :: bool
  re_write :: nat

definition content :: "disk \<Rightarrow> nat \<Rightarrow> bytes" where
  "content d i = (case map_of d i of Some c \<Rightarrow> c | None \<Rightarrow> [])"

text \<open>\<open>os.OpenFile\<close> with create and append; \<open>os.Remove\<close>; \<open>os.Rename\<close>, which fails when the source is missing.\<close>

definition open_append :: "nat \<Rightarrow> disk \<Rightarrow> disk" where
  "open_append i d = (if map_of d i = None then AList.update i [] d else d)"

definition os_Remove :: "bool \<Rightarrow> nat \<Rightarrow> disk \<Rightarrow> disk" where
  "os_Remove ok i d = (if ok then AList.delete i d else d)"

definition os_Rename :: "bool \<Rightarrow> nat \<Rightarrow> nat \<Rightarrow> disk \<Rightarrow> disk" where
  "os_Rename ok i j d = (case map_of d i of
       Some c \<Rightarrow> if ok then AList.update j c (AList.delete i d) else d
     | None \<Rightarrow> d)"

definition NewRotatingFileLogger :: "bool \<Rightarrow> bool \<Rightarrow> int \<Rightarrow> int \<Rightarrow> disk \<Rightarrow> (rot_logger \<times> disk) option" where
  "NewRotatingFileLogger open_ok stat_ok maxBytes maxBackups d =
     (if \<not> open_ok then None
      else (let d1 = open_append 0 d in
            Some (\<lparr>rl_open = True, rl_maxBytes = maxBytes, rl_maxBackups = maxBackups,
                   rl_size = (if stat_ok then int (length (content d1 0)) else 0)\<rparr>, d1)))"

text \<open>The loop from \<open>i\<close> down to 1.\<close>

fun shift_backups :: "rot_env \<Rightarrow> nat \<Rightarrow> disk \<Rightarrow> disk" where
  "shift_backups E 0 d = d"
| "shift_backups E (Suc i) d = shift_backups E i (os_Rename (re_rename E (Suc i)) (Suc i) (Suc (Suc i)) d)"

definition rotateLocked :: "rot_env \<Rightarrow> rot_logger \<times> disk \<Rightarrow> rot_logger \<times> disk" where
  "rotateLocked E ld = (case ld of (l, d) \<Rightarrow>
     (let d1 = (if rl_maxBackups l > 0
                then os_Rename (re_rename E 0) 0 1
                       (shift_backups E (nat (rl_maxBackups l - 1)) (os_Remove (re_remove E) (nat (rl_maxBackups l)) d))
                else os_Remove (re_remove E) 0 d)
      in (l\<lparr>rl_open := re_open E, rl_size := 0\<rparr>, if re_open E then open_append 0 d1 else d1)))"

definition write_active :: "rot_env \<Rightarrow> bytes \<Rightarrow> rot_logger \<times> disk \<Rightarrow> rot_logger \<times> disk" where
  "write_active E data ld = (case ld of (l, d) \<Rightarrow>
     (if \<not> rl_open l then (l, d)
      else (let part = take (re_write E) data
            in (l\<lparr>rl_size := rl_size l + int (length part)\<rparr>, AList.update 0 (content d 0 @ part) d))))"

definition RotatingFileLogger_Log :: "encoder \<Rightarrow> string \<Rightarrow> rot_env \<Rightarrow> audit_event \<Rightarrow> rot_logger \<times> disk \<Rightarrow> rot_logger \<times> disk" where
  "RotatingFileLogger_Log marshal ts E ev ld = (case audit_line marshal ts ev of
       None \<Rightarrow> ld
     | Some data \<Rightarrow> (case ld of (l, d) \<Rightarrow>
         write_active E data
           (if rl_maxBytes l > 0 \<and> rl_size l > 0 \<and> rl_size l + int (length data) > rl_maxBytes l
            then rotateLocked E (l, d) else (l, d))))"

section \<open>Drop counters\<close>

record drop_count =
  dc_Class :: string
  dc_Packets :: "64 word"
  dc_Bytes :: "64 word"

record sampler =
  sp_previous :: "(string, 64 word) gomap"
  sp_seeded :: bool

definition new_sampler :: sampler where
  "new_sampler = \<lparr>sp_previous = [], sp_seeded = False\<rparr>"

definition drop_record :: "drop_count \<Rightarrow> 64 word \<Rightarrow> audit_event" where
  "drop_record c prev = Log ''egress_deny'' [(''proto'', AStr (dc_Class c)),
     (''reason'', AStr ''protocol carries no allowlistable destination identity; dropped at the datapath''),
     (''signal'', AStr SignalUnmediatableProtocol), (''packets'', AInt (uint (dc_Packets c - prev)))]"

definition sample_one :: "bool \<Rightarrow> drop_count \<Rightarrow> (string, 64 word) gomap \<Rightarrow> audit_event list \<times> (string, 64 word) gomap" where
  "sample_one seeded c previous =
     ((case map_of previous (dc_Class c) of
         None \<Rightarrow> []
       | Some prev \<Rightarrow> if \<not> seeded then [] else if dc_Packets c \<le> prev then [] else [drop_record c prev]),
      AList.update (dc_Class c) (dc_Packets c) previous)"

fun sample_all :: "bool \<Rightarrow> drop_count list \<Rightarrow> (string, 64 word) gomap \<Rightarrow> audit_event list \<times> (string, 64 word) gomap" where
  "sample_all seeded [] previous = ([], previous)"
| "sample_all seeded (c # cs) previous = (case sample_one seeded c previous of (lg, p1) \<Rightarrow>
     (case sample_all seeded cs p1 of (lg2, p2) \<Rightarrow> (lg @ lg2, p2)))"

text \<open>One tick of the loop: the counters read, or the error of the read.\<close>

definition sample_tick :: "string + drop_count list \<Rightarrow> sampler \<Rightarrow> audit_event list \<times> sampler" where
  "sample_tick r s = (case r of
       Inl err \<Rightarrow> ([Log ''egress_drop_counter_error'' [(''error'', AStr err)]], s)
     | Inr counts \<Rightarrow> (case sample_all (sp_seeded s) counts (sp_previous s) of
         (lg, p) \<Rightarrow> (lg, \<lparr>sp_previous = p, sp_seeded = True\<rparr>)))"

fun sampleDropCounters :: "(string + drop_count list) list \<Rightarrow> sampler \<Rightarrow> audit_event list \<times> sampler" where
  "sampleDropCounters [] s = ([], s)"
| "sampleDropCounters (r # rs) s = (case sample_tick r s of (lg, s1) \<Rightarrow>
     (case sampleDropCounters rs s1 of (lg2, s2) \<Rightarrow> (lg @ lg2, s2)))"

section \<open>A rotated log is the tail of the whole log\<close>

text \<open>What is retained, oldest first.\<close>

definition retained :: "rot_logger \<Rightarrow> disk \<Rightarrow> bytes" where
  "retained l d = concat (map (content d) (rev [0..<Suc (nat (rl_maxBackups l))]))"

definition quiet_disk :: "rot_env \<Rightarrow> bytes \<Rightarrow> bool" where
  "quiet_disk E data \<longleftrightarrow> re_remove E \<and> re_open E \<and> (\<forall>i. re_rename E i) \<and> length data \<le> re_write E"

lemma content_update [simp]: "content (AList.update i c d) j = (if j = i then c else content d j)"
  by (simp add: content_def)

lemma content_delete [simp]: "content (AList.delete i d) j = (if j = i then [] else content d j)"
  by (simp add: content_def)

lemma content_open [simp]: "content (open_append i d) = content d"
  by (auto simp: open_append_def content_def fun_eq_iff)

lemma content_rename:
  "i \<noteq> j \<Longrightarrow> content d j = [] \<Longrightarrow>
   content (os_Rename True i j d) k = (if k = j then content d i else if k = i then [] else content d k)"
  by (auto simp: os_Rename_def content_def split: option.splits)

lemma content_shift:
  assumes "\<And>i. re_rename E i" "content d (Suc n) = []"
  shows "content (shift_backups E n d) k =
    (if k = Suc 0 \<and> 0 < n then [] else if Suc 0 < k \<and> k \<le> Suc n then content d (k - 1) else content d k)"
  using assms(2)
proof (induction n arbitrary: d)
  case (Suc n)
  let ?d = "os_Rename True (Suc n) (Suc (Suc n)) d"
  have c: "content ?d k = (if k = Suc (Suc n) then content d (Suc n) else if k = Suc n then [] else content d k)" for k
    using Suc.prems by (simp add: content_rename)
  have "content (shift_backups E n ?d) k =
      (if k = Suc 0 \<and> 0 < n then [] else if Suc 0 < k \<and> k \<le> Suc n then content ?d (k - 1) else content ?d k)"
    by (rule Suc.IH) (simp add: c)
  then show ?case using assms(1) unfolding c by (auto simp: c)
qed auto

lemma content_rotate:
  assumes "quiet_disk E data" "rotateLocked E (l, d) = (l', d')"
  shows "l' = l\<lparr>rl_open := True, rl_size := 0\<rparr>" "content d' 0 = []"
    "\<And>i. i < nat (rl_maxBackups l) \<Longrightarrow> content d' (Suc i) = content d i"
    "\<And>i. nat (rl_maxBackups l) < i \<Longrightarrow> content d' i = content d i"
proof -
  have E: "re_remove E" "re_open E" "\<And>i. re_rename E i" using assms(1) by (auto simp: quiet_disk_def)
  show "l' = l\<lparr>rl_open := True, rl_size := 0\<rparr>" using assms(2) E by (simp add: rotateLocked_def Let_def)
  have d': "content d' 0 = [] \<and> (\<forall>i < nat (rl_maxBackups l). content d' (Suc i) = content d i) \<and>
    (\<forall>i > nat (rl_maxBackups l). content d' i = content d i)"
  proof (cases "rl_maxBackups l > 0")
    case False
    with assms(2) E show ?thesis by (auto simp: rotateLocked_def os_Remove_def Let_def)
  next
    case True
    define n where "n = nat (rl_maxBackups l - 1)"
    have n: "nat (rl_maxBackups l) = Suc n" using True by (simp add: n_def)
    let ?d1 = "AList.delete (Suc n) d" and ?d2 = "shift_backups E n (AList.delete (Suc n) d)"
    have c2: "content ?d2 k = (if k = Suc 0 \<and> 0 < n then [] else if Suc 0 < k \<and> k \<le> Suc n then content ?d1 (k - 1) else content ?d1 k)" for k
      by (rule content_shift) (simp_all add: E)
    have "content ?d2 (Suc 0) = []" by (simp add: c2)
    then have c3: "content (os_Rename True 0 (Suc 0) ?d2) k = (if k = Suc 0 then content ?d2 0 else if k = 0 then [] else content ?d2 k)" for k
      by (simp add: content_rename)
    have "content d' = content (os_Rename True 0 (Suc 0) ?d2)"
      using assms(2) E True n n_def by (auto simp: rotateLocked_def os_Remove_def Let_def)
    then show ?thesis by (auto simp: c3 c2 n)
  qed
  then show "content d' 0 = []" "\<And>i. i < nat (rl_maxBackups l) \<Longrightarrow> content d' (Suc i) = content d i"
    "\<And>i. nat (rl_maxBackups l) < i \<Longrightarrow> content d' i = content d i" by auto
qed

lemma retained_rotate:
  assumes "quiet_disk E data" "rotateLocked E (l, d) = (l', d')"
  shows "retained l d = content d (nat (rl_maxBackups l)) @ retained l' d'"
proof -
  note c = content_rotate [OF assms]
  let ?n = "nat (rl_maxBackups l)"
  have "rev [0..<Suc ?n] = map Suc (rev [0..<?n]) @ [0]"
    by (simp add: upt_conv_Cons map_Suc_upt [symmetric] rev_map del: upt_Suc)
  then have "map (content d') (rev [0..<Suc ?n]) = map (content d) (rev [0..<?n]) @ [[]]"
    using c(2,3) by simp
  then show ?thesis by (simp add: retained_def c(1) del: upt_Suc) simp
qed

lemma content_write: "re_write E \<ge> length data \<Longrightarrow> write_active E data (l, d) = (l', d') \<Longrightarrow> rl_open l \<Longrightarrow>
  l' = l\<lparr>rl_size := rl_size l + int (length data)\<rparr> \<and> content d' = (content d)(0 := content d 0 @ data)"
  by (auto simp: write_active_def Let_def fun_eq_iff)

lemma retained_write:
  assumes "re_write E \<ge> length data" "write_active E data (l, d) = (l', d')" "rl_open l"
  shows "retained l' d' = retained l d @ data"
proof -
  have c: "l' = l\<lparr>rl_size := rl_size l + int (length data)\<rparr>" "content d' = (content d)(0 := content d 0 @ data)"
    using content_write [OF assms] by auto
  have "map ((content d)(0 := content d 0 @ data)) (rev [Suc 0..<Suc n]) = map (content d) (rev [Suc 0..<Suc n])" for n by auto
  then show ?thesis by (simp add: retained_def c upt_conv_Cons del: upt_Suc)
qed

text \<open>The invariant: the counter is the active file's length, and no file is longer than \<open>B\<close>.\<close>

definition log_inv :: "nat \<Rightarrow> rot_logger \<times> disk \<Rightarrow> bool" where
  "log_inv B ld \<longleftrightarrow> (case ld of (l, d) \<Rightarrow> rl_open l \<and> rl_size l = int (length (content d 0)) \<and>
     (\<forall>i. length (content d i) \<le> B) \<and> (\<forall>i > nat (rl_maxBackups l). content d i = []))"

lemma log_inv_rotate:
  assumes "log_inv B (l, d)" "quiet_disk E data"
  shows "log_inv B (rotateLocked E (l, d))"
proof -
  obtain l' d' where r: "rotateLocked E (l, d) = (l', d')" by force
  note c = content_rotate [OF assms(2) r]
  have "length (content d' i) \<le> B" for i
  proof -
    consider "i = 0" | j where "i = Suc j" "j < nat (rl_maxBackups l)" | "i > nat (rl_maxBackups l)"
      by (cases i) (auto, linarith)
    then show ?thesis using c assms(1) by cases (auto simp: log_inv_def)
  qed
  with c assms(1) r show ?thesis by (simp add: log_inv_def)
qed

lemma log_step:
  assumes i: "log_inv B (l, d)" and q: "quiet_disk E data" and b: "length data \<le> B" "rl_maxBytes l \<le> int B"
    and m: "0 < rl_maxBytes l"
    and s: "write_active E data (if rl_maxBytes l > 0 \<and> rl_size l > 0 \<and> rl_size l + int (length data) > rl_maxBytes l
            then rotateLocked E (l, d) else (l, d)) = (l', d')"
  shows "log_inv B (l', d') \<and> rl_maxBytes l' = rl_maxBytes l \<and> rl_maxBackups l' = rl_maxBackups l \<and>
    (\<exists>dropped. retained l d @ data = dropped @ retained l' d')"
proof (cases "rl_size l > 0 \<and> rl_size l + int (length data) > rl_maxBytes l")
  case True
  obtain l1 d1 where r: "rotateLocked E (l, d) = (l1, d1)" by force
  note c = content_rotate [OF q r]
  have w: "write_active E data (l1, d1) = (l', d')" using s True r m by simp
  have i1: "log_inv B (l1, d1)" using log_inv_rotate [OF i q] r by simp
  have len: "length data \<le> re_write E" using q by (simp add: quiet_disk_def)
  have o: "rl_open l1" by (simp add: c)
  note cw = content_write [OF len w o] and rw = retained_write [OF len w o]
  show ?thesis using cw rw i1 b c retained_rotate [OF q r] by (auto simp: log_inv_def)
next
  case False
  have w: "write_active E data (l, d) = (l', d')" using s False by auto
  have len: "length data \<le> re_write E" using q by (simp add: quiet_disk_def)
  have o: "rl_open l" using i by (simp add: log_inv_def)
  note cw = content_write [OF len w o] and rw = retained_write [OF len w o]
  have "length (content d 0) + length data \<le> B" using False i b by (auto simp: log_inv_def)
  with cw rw i show ?thesis by (auto simp: log_inv_def)
qed

text \<open>Any sequence of records.\<close>

fun log_all :: "encoder \<Rightarrow> (string \<times> rot_env \<times> audit_event) list \<Rightarrow> rot_logger \<times> disk \<Rightarrow> rot_logger \<times> disk" where
  "log_all marshal [] ld = ld"
| "log_all marshal ((ts, E, ev) # rs) ld = log_all marshal rs (RotatingFileLogger_Log marshal ts E ev ld)"

definition line_of :: "encoder \<Rightarrow> string \<times> rot_env \<times> audit_event \<Rightarrow> bytes" where
  "line_of marshal r = (case r of (ts, E, ev) \<Rightarrow> (case audit_line marshal ts ev of Some data \<Rightarrow> data | None \<Rightarrow> []))"

definition quiet_run :: "encoder \<Rightarrow> nat \<Rightarrow> (string \<times> rot_env \<times> audit_event) list \<Rightarrow> bool" where
  "quiet_run marshal B rs \<longleftrightarrow> (\<forall>(ts, E, ev) \<in> set rs. quiet_disk E (line_of marshal (ts, E, ev)) \<and>
     length (line_of marshal (ts, E, ev)) \<le> B)"

lemma log_all_inv:
  assumes "log_inv B ld" "quiet_run marshal B rs" "0 < rl_maxBytes (fst ld)" "rl_maxBytes (fst ld) \<le> int B"
  shows "log_inv B (log_all marshal rs ld) \<and> rl_maxBackups (fst (log_all marshal rs ld)) = rl_maxBackups (fst ld) \<and>
    (\<exists>dropped. retained (fst ld) (snd ld) @ concat (map (line_of marshal) rs) =
       dropped @ retained (fst (log_all marshal rs ld)) (snd (log_all marshal rs ld)))"
  using assms
proof (induction rs arbitrary: ld)
  case (Cons r rs)
  obtain ts E ev where r: "r = (ts, E, ev)" by (cases r)
  obtain l d where ld: "ld = (l, d)" by force
  show ?case
  proof (cases "audit_line marshal ts ev")
    case None
    with Cons r show ?thesis by (simp add: RotatingFileLogger_Log_def line_of_def quiet_run_def)
  next
    case (Some data)
    obtain l' d' where s: "RotatingFileLogger_Log marshal ts E ev ld = (l', d')" by force
    have q: "quiet_disk E data" "length data \<le> B" using Cons.prems(2) r Some by (auto simp: quiet_run_def line_of_def)
    have "log_inv B (l', d') \<and> rl_maxBytes l' = rl_maxBytes l \<and> rl_maxBackups l' = rl_maxBackups l \<and>
        (\<exists>dropped. retained l d @ data = dropped @ retained l' d')"
      using Cons.prems s q ld Some by (intro log_step) (auto simp: RotatingFileLogger_Log_def)
    then obtain dropped where st: "log_inv B (l', d')" "rl_maxBytes l' = rl_maxBytes l" "rl_maxBackups l' = rl_maxBackups l"
      "retained l d @ data = dropped @ retained l' d'" by blast
    have "quiet_run marshal B rs" using Cons.prems(2) by (simp add: quiet_run_def)
    from Cons.IH [OF _ this, of "(l', d')"] st Cons.prems(3,4) ld obtain dr where
      ih: "log_inv B (log_all marshal rs (l', d'))" "rl_maxBackups (fst (log_all marshal rs (l', d'))) = rl_maxBackups l"
      "retained l' d' @ concat (map (line_of marshal) rs) =
        dr @ retained (fst (log_all marshal rs (l', d'))) (snd (log_all marshal rs (l', d')))" by auto
    have "retained l d @ data @ concat (map (line_of marshal) rs) = (dropped @ dr) @
        retained (fst (log_all marshal rs (l', d'))) (snd (log_all marshal rs (l', d')))"
      using st(4) ih(3) by (metis append.assoc)
    moreover have "line_of marshal r = data" by (simp add: line_of_def r Some)
    ultimately show ?thesis using ih s r ld by auto
  qed
qed auto

lemma footprint_bound:
  assumes "log_inv B (l, d)"
  shows "length (retained l d) \<le> B * Suc (nat (rl_maxBackups l))"
proof -
  have "length (concat (map (content d) xs)) \<le> B * length xs" for xs
    using assms by (induction xs) (auto simp: log_inv_def add_mono)
  from this [of "rev [0..<Suc (nat (rl_maxBackups l))]"] show ?thesis by (simp add: retained_def)
qed

section \<open>Drops are counted once\<close>

text \<open>The packets a trail reports for a class, and the successive readings of its counter.\<close>

definition packets_of :: "string \<Rightarrow> audit_event \<Rightarrow> int" where
  "packets_of c ev = (if map_of (ev_fields ev) ''proto'' = Some (AStr c)
     then (case map_of (ev_fields ev) ''packets'' of Some (AInt n) \<Rightarrow> n | _ \<Rightarrow> 0) else 0)"

definition reported :: "string \<Rightarrow> audit_event list \<Rightarrow> int" where
  "reported c lg = sum_list (map (packets_of c) lg)"

fun reading :: "string \<Rightarrow> string + drop_count list \<Rightarrow> 64 word option" where
  "reading c (Inl err) = None"
| "reading c (Inr counts) = map_of (map (\<lambda>x. (dc_Class x, dc_Packets x)) counts) c"

definition readings :: "string \<Rightarrow> (string + drop_count list) list \<Rightarrow> 64 word list" where
  "readings c rs = List.map_filter (reading c) rs"

fun well_formed_poll :: "string + drop_count list \<Rightarrow> bool" where
  "well_formed_poll (Inl err) = True"
| "well_formed_poll (Inr counts) = distinct (map dc_Class counts)"

definition increase :: "bool \<Rightarrow> 64 word option \<Rightarrow> 64 word option \<Rightarrow> int" where
  "increase seeded old new = (case (old, new) of
     (Some v, Some x) \<Rightarrow> if seeded \<and> v < x then uint x - uint v else 0 | _ \<Rightarrow> 0)"

lemma reported_append [simp]: "reported c (xs @ ys) = reported c xs + reported c ys"
  by (simp add: reported_def)

lemma sample_all_class:
  assumes "distinct (map dc_Class counts)" "sample_all seeded counts p = (lg, p')"
  shows "reported c lg = increase seeded (map_of p c) (reading c (Inr counts)) \<and>
    map_of p' c = (case reading c (Inr counts) of Some x \<Rightarrow> Some x | None \<Rightarrow> map_of p c)"
  using assms
proof (induction counts arbitrary: p lg)
  case Nil
  then show ?case by (auto simp: reported_def increase_def split: option.splits)
next
  case (Cons x counts)
  obtain lg1 p1 where 1: "sample_one seeded x p = (lg1, p1)" by force
  obtain lg2 where 2: "sample_all seeded counts p1 = (lg2, p')" "lg = lg1 @ lg2"
    using Cons.prems(2) 1 by (auto split: prod.splits)
  note ih = Cons.IH [OF _ 2(1)]
  have d: "uint (dc_Packets x - v) = uint (dc_Packets x) - uint v" if "v < dc_Packets x" for v
    using that uint_sub_lem [of v "dc_Packets x"] by (simp add: word_less_def)
  have "reported c lg1 = (if dc_Class x = c then increase seeded (map_of p c) (Some (dc_Packets x)) else 0)"
    using 1 by (auto simp: sample_one_def reported_def packets_of_def drop_record_def increase_def d not_le split: option.splits if_splits)
  moreover have "map_of p1 = (map_of p)(dc_Class x \<mapsto> dc_Packets x)" using 1 by (auto simp: sample_one_def)
  moreover have "dc_Class x = c \<Longrightarrow> reading c (Inr counts) = None"
    using Cons.prems(1) by (force simp: map_of_eq_None_iff)
  moreover have "increase seeded a None = 0" for a by (simp add: increase_def split: option.splits)
  ultimately show ?case using ih Cons.prems(1) 2(2) by (cases "dc_Class x = c") (auto split: option.split)
qed

definition span :: "64 word list \<Rightarrow> int" where
  "span xs = (if xs = [] then 0 else uint (last xs) - uint (hd xs))"

definition known :: "string \<Rightarrow> sampler \<Rightarrow> 64 word list" where
  "known c s = (case map_of (sp_previous s) c of Some v \<Rightarrow> [v] | None \<Rightarrow> [])"

lemma sample_tick_class:
  assumes "well_formed_poll r" "sample_tick r s = (lg, s')"
  shows "reported c lg = increase (sp_seeded s) (map_of (sp_previous s) c) (reading c r) \<and>
    map_of (sp_previous s') c = (case reading c r of Some x \<Rightarrow> Some x | None \<Rightarrow> map_of (sp_previous s) c) \<and>
    (sp_seeded s \<longrightarrow> sp_seeded s') \<and> (reading c r \<noteq> None \<longrightarrow> sp_seeded s')"
proof (cases r)
  case (Inl err)
  with assms show ?thesis
    by (auto simp: sample_tick_def reported_def packets_of_def increase_def split: option.splits)
next
  case (Inr counts)
  obtain lg1 p1 where "sample_all (sp_seeded s) counts (sp_previous s) = (lg1, p1)" by force
  with Inr assms sample_all_class [OF _ this, of c] show ?thesis by (auto simp: sample_tick_def)
qed

lemma sampler_run:
  assumes "\<forall>r \<in> set rs. well_formed_poll r" "known c s \<noteq> [] \<longrightarrow> sp_seeded s" "sorted (known c s @ readings c rs)"
  shows "reported c (fst (sampleDropCounters rs s)) = span (known c s @ readings c rs)"
  using assms
proof (induction rs arbitrary: s)
  case Nil
  then show ?case by (simp add: reported_def readings_def map_filter_def known_def span_def split: option.splits)
next
  case (Cons r rs)
  obtain lg s1 where t: "sample_tick r s = (lg, s1)" by force
  have wf: "well_formed_poll r" "\<forall>r \<in> set rs. well_formed_poll r" using Cons.prems(1) by auto
  note c = sample_tick_class [OF wf(1) t, of c]
  have fs: "reported c (fst (sampleDropCounters (r # rs) s)) = reported c lg + reported c (fst (sampleDropCounters rs s1))"
    by (simp add: t split_beta)
  show ?case
  proof (cases "reading c r")
    case None
    then have r: "readings c (r # rs) = readings c rs" by (simp add: readings_def map_filter_def)
    have k: "known c s1 = known c s" using c None by (simp add: known_def)
    have "reported c lg = 0" using c None by (auto simp: increase_def split: option.splits)
    with Cons.IH [OF wf(2), of s1] Cons.prems(2,3) k r c fs show ?thesis by auto
  next
    case (Some x)
    then have r: "readings c (r # rs) = x # readings c rs" by (simp add: readings_def map_filter_def)
    have k: "known c s1 = [x]" "sp_seeded s1" using c Some by (auto simp: known_def)
    have ih: "reported c (fst (sampleDropCounters rs s1)) = span (x # readings c rs)"
      using Cons.IH [OF wf(2), of s1] Cons.prems(3) k r by (simp add: sorted_append)
    show ?thesis
    proof (cases "map_of (sp_previous s) c")
      case None
      with c Some ih fs r show ?thesis by (simp add: increase_def known_def)
    next
      case old: (Some v)
      have "v \<le> x" "sp_seeded s" using Cons.prems(2,3) r old by (auto simp: known_def)
      then have "reported c lg = uint x - uint v" using c old Some by (auto simp: increase_def word_le_less_eq)
      with ih fs r old show ?thesis by (simp add: known_def span_def)
    qed
  qed
qed

end
