(* ===== verification/Datapath.thy ===== *)
theory Datapath
  imports Caches
begin

text \<open>
  The edges of the mediator: the original destination of a redirected connection or datagram
  (internal/egress/origdst.go, origdst_udp_linux.go) and the leaf certificates of the workspace's own authority
  (ca.go). The control messages a datagram arrived with are given as already split by the kernel
  interface; key generation and signing are arguments.
\<close>

section \<open>Original destinations\<close>

definition afInet :: nat where "afInet = 2"
definition afInet6 :: nat where "afInet6 = 10"

datatype origdst_error =
    ShortSockaddr nat
  | NotInet nat
  | ShortSockaddr6 nat
  | NotInet6 nat
  | BadControlMessage string
  | NoOrigDst nat

text \<open>\<open>binary.NativeEndian.Uint16\<close>; \<open>big\<close> says whether the machine is big-endian.\<close>

definition Native16 :: "bool \<Rightarrow> bytes \<Rightarrow> nat go" where
  "Native16 big b = (if big then Uint16 b else Uint16 (rev (take 2 b)))"

definition parseOriginalDstV4 :: "bool \<Rightarrow> bytes \<Rightarrow> (origdst_error + addr_port) go" where
  "parseOriginalDstV4 big b =
     (if length b < 8 then Some (Inl (ShortSockaddr (length b)))
      else do {
        f \<leftarrow> slice b 0 2;
        family \<leftarrow> Native16 big f;
        if family \<noteq> afInet then Some (Inl (NotInet family))
        else do {
          ps \<leftarrow> slice b 2 4;
          port \<leftarrow> Uint16 ps;
          b4 \<leftarrow> at b 4; b5 \<leftarrow> at b 5; b6 \<leftarrow> at b 6; b7 \<leftarrow> at b 7;
          Some (Inr (AddrPort (V4 (of_nat (be_nat [b4, b5, b6, b7]))) (of_nat port))) } })"

definition parseOriginalDstV6 :: "bool \<Rightarrow> bytes \<Rightarrow> (origdst_error + addr_port) go" where
  "parseOriginalDstV6 big b =
     (if length b < 28 then Some (Inl (ShortSockaddr6 (length b)))
      else do {
        f \<leftarrow> slice b 0 2;
        family \<leftarrow> Native16 big f;
        if family \<noteq> afInet6 then Some (Inl (NotInet6 family))
        else do {
          ps \<leftarrow> slice b 2 4;
          port \<leftarrow> Uint16 ps;
          raw \<leftarrow> slice b 8 24;
          Some (Inr (AddrPort (V6 (of_nat (be_nat raw)) '''') (of_nat port))) } })"

text \<open>A control message: its level, its type and its data; the constants are Linux's.\<close>

record control_message =
  cm_Level :: int
  cm_Type :: int
  cm_Data :: bytes

fun scan_messages :: "bool \<Rightarrow> nat \<Rightarrow> control_message list \<Rightarrow> (origdst_error + addr_port) go" where
  "scan_messages big n [] = Some (Inl (NoOrigDst n))"
| "scan_messages big n (m # ms) =
     (if cm_Level m = 0 \<and> cm_Type m = 20 then parseOriginalDstV4 big (cm_Data m)
      else if cm_Level m = 41 \<and> cm_Type m = 74 then parseOriginalDstV6 big (cm_Data m)
      else scan_messages big n ms)"

definition parseUDPOrigDst :: "bool \<Rightarrow> string + control_message list \<Rightarrow> (origdst_error + addr_port) go" where
  "parseUDPOrigDst big parsed = (case parsed of
       Inl err \<Rightarrow> Some (Inl (BadControlMessage err))
     | Inr msgs \<Rightarrow> scan_messages big (length msgs) msgs)"

section \<open>Leaf certificates\<close>

definition maxCachedLeaves :: nat where "maxCachedLeaves = 1024"

datatype leaf_name = DNSName string | IPName string

record 'c ca =
  leaves :: "(string, 'c) gomap"
  signs :: int

text \<open>\<open>sign\<close> is key generation, serial and signature for a template; its error is the whole call's.\<close>

definition LeafFor ::
  "(string \<Rightarrow> bool) \<Rightarrow> (leaf_name \<Rightarrow> string + 'c) \<Rightarrow> nat \<Rightarrow> string \<Rightarrow> 'c ca \<Rightarrow> (string + 'c) \<times> 'c ca" where
  "LeafFor isIP sign i serverName c = (case map_of (leaves c) serverName of
       Some tc \<Rightarrow> (Inr tc, c)
     | None \<Rightarrow> (case sign (if isIP serverName then IPName serverName else DNSName serverName) of
           Inl err \<Rightarrow> (Inl err, c)
         | Inr tc \<Rightarrow>
             (let ls = (if length (leaves c) \<ge> maxCachedLeaves then evict_one i (leaves c) else leaves c)
              in (Inr tc, c\<lparr>signs := signs c + 1, leaves := AList.update serverName tc ls\<rparr>))))"

section \<open>Parsing\<close>

text \<open>The kernel's sockaddr layouts.\<close>

definition native16 :: "bool \<Rightarrow> nat \<Rightarrow> bytes" where
  "native16 big n = (if big then put_be16 n else rev (put_be16 n))"

definition enc_sockaddr4 :: "bool \<Rightarrow> 32 word \<Rightarrow> 16 word \<Rightarrow> bytes \<Rightarrow> bytes" where
  "enc_sockaddr4 big a p pad = native16 big afInet @ put_be16 (unat p) @ put_be32 (unat a) @ pad"

fun put_be :: "nat \<Rightarrow> nat \<Rightarrow> bytes" where
  "put_be 0 n = []"
| "put_be (Suc k) n = put_be k (n div 256) @ [of_nat n]"

definition enc_sockaddr6 :: "bool \<Rightarrow> 128 word \<Rightarrow> 16 word \<Rightarrow> bytes \<Rightarrow> bytes \<Rightarrow> bytes" where
  "enc_sockaddr6 big a p flowinfo scope = native16 big afInet6 @ put_be16 (unat p) @ flowinfo @ put_be 16 (unat a) @ scope"

lemma length_put_be [simp]: "length (put_be k n) = k"
  by (induction k arbitrary: n) auto

lemma be_nat_put_be: "n < 256 ^ k \<Longrightarrow> be_nat (put_be k n) = n"
proof (induction k arbitrary: n)
  case (Suc k)
  have "n div 256 < 256 ^ k" using Suc.prems by (simp add: less_mult_imp_div_less mult.commute)
  with Suc.IH show ?case by (simp add: be_nat_snoc unat_of_nat_byte)
qed (simp add: be_nat_def)

lemma Native16_native16: "n < 65536 \<Longrightarrow> Native16 big (native16 big n) = Some n"
  using Uint16_put [of n "[]"] by (simp add: Native16_def native16_def)

lemma length_native16 [simp]: "length (native16 big n) = 2"
  by (simp add: native16_def)

lemma parse_enc4: "parseOriginalDstV4 big (enc_sockaddr4 big a p pad) = Some (Inr (AddrPort (V4 a) p))"
proof -
  let ?b = "enc_sockaddr4 big a p pad"
  have b: "?b = native16 big afInet @ put_be16 (unat p) @ put_be32 (unat a) @ pad" by (simp add: enc_sockaddr4_def)
  have "unat p < 65536" "unat a < 4294967296" using unsigned_less [of p] unsigned_less [of a] by simp_all
  then have "Uint16 (put_be16 (unat p)) = Some (unat p)" "be_nat (put_be32 (unat a)) = unat a"
    using Uint16_put [of "unat p" "[]"] by (simp_all add: be_nat_put_be32)
  moreover have "slice ?b 0 2 = Some (native16 big afInet)" "slice ?b 2 4 = Some (put_be16 (unat p))"
    by (simp_all add: slice_def b)
  moreover have "at ?b 4 = Some (put_be32 (unat a) ! 0)" "at ?b 5 = Some (put_be32 (unat a) ! 1)"
    "at ?b 6 = Some (put_be32 (unat a) ! 2)" "at ?b 7 = Some (put_be32 (unat a) ! 3)"
    by (simp_all add: at_def b nth_append)
  moreover have "[put_be32 n ! 0, put_be32 n ! 1, put_be32 n ! 2, put_be32 n ! 3] = put_be32 n" for n
    by (simp add: put_be32_def)
  moreover have "\<not> length ?b < 8" by (simp add: b)
  ultimately show ?thesis
    using Native16_native16 [of afInet big] by (simp add: parseOriginalDstV4_def afInet_def)
qed

lemma parse_enc6:
  assumes "length flowinfo = 4" "length scope = 4"
  shows "parseOriginalDstV6 big (enc_sockaddr6 big a p flowinfo scope) = Some (Inr (AddrPort (V6 a '''') p))"
proof -
  let ?b = "enc_sockaddr6 big a p flowinfo scope"
  have b: "?b = native16 big afInet6 @ put_be16 (unat p) @ flowinfo @ put_be 16 (unat a) @ scope" by (simp add: enc_sockaddr6_def)
  have "unat p < 65536" "unat a < 256 ^ 16" using unsigned_less [of p] unsigned_less [of a] by simp_all
  then have "Uint16 (put_be16 (unat p)) = Some (unat p)" "be_nat (put_be 16 (unat a)) = unat a"
    using Uint16_put [of "unat p" "[]"] by (simp_all only: be_nat_put_be append_Nil2)
  moreover have "slice ?b 0 2 = Some (native16 big afInet6)" "slice ?b 2 4 = Some (put_be16 (unat p))"
    "slice ?b 8 24 = Some (put_be 16 (unat a))" "\<not> length ?b < 28"
    using assms by (simp_all add: slice_def b)
  ultimately show ?thesis
    using Native16_native16 [of afInet6 big] by (simp add: parseOriginalDstV6_def afInet6_def)
qed

lemma parseOriginalDstV4_no_panic: "\<exists>r. parseOriginalDstV4 big b = Some r"
proof (cases "length b < 8")
  case False
  then have "slice b 0 2 = Some (take 2 b)" "slice b 2 4 = Some (drop 2 (take 4 b))"
    "at b 4 = Some (b ! 4)" "at b 5 = Some (b ! 5)" "at b 6 = Some (b ! 6)" "at b 7 = Some (b ! 7)"
    by (simp_all add: slice_def at_def)
  with False show ?thesis by (auto simp: parseOriginalDstV4_def Native16_def Uint16_def)
qed (auto simp: parseOriginalDstV4_def)

lemma parseOriginalDstV6_no_panic: "\<exists>r. parseOriginalDstV6 big b = Some r"
proof (cases "length b < 28")
  case False
  then have "slice b 0 2 = Some (take 2 b)" "slice b 2 4 = Some (drop 2 (take 4 b))"
    "slice b 8 24 = Some (drop 8 (take 24 b))"
    by (simp_all add: slice_def)
  with False show ?thesis by (auto simp: parseOriginalDstV6_def Native16_def Uint16_def)
qed (auto simp: parseOriginalDstV6_def)

lemma scan_messages_no_panic: "\<exists>r. scan_messages big n ms = Some r"
  by (induction ms) (simp_all add: parseOriginalDstV4_no_panic parseOriginalDstV6_no_panic)

section \<open>The leaf cache\<close>

definition ca_inv :: "'c ca \<Rightarrow> bool" where
  "ca_inv c \<longleftrightarrow> wf_map (leaves c) \<and> length (leaves c) \<le> maxCachedLeaves"

text \<open>A miss inserts through the bounded insertion the caches share.\<close>

lemma LeafFor_miss:
  assumes "map_of (leaves c) name = None" "sign (if isIP name then IPName name else DNSName name) = Inr tc"
  shows "LeafFor isIP sign i name c =
    (Inr tc, c\<lparr>signs := signs c + 1, leaves := bounded_put maxCachedLeaves i name tc (leaves c)\<rparr>)"
  using assms by (simp add: LeafFor_def bounded_put_def Let_def)

lemma LeafFor_inv: "ca_inv c \<Longrightarrow> ca_inv (snd (LeafFor isIP sign i name c))"
proof (cases "map_of (leaves c) name")
  case None
  assume a: "ca_inv c"
  show ?thesis
  proof (cases "sign (if isIP name then IPName name else DNSName name)")
    case (Inr tc)
    have "length (bounded_put maxCachedLeaves i name tc (leaves c)) \<le> maxCachedLeaves"
      using a by (intro length_bounded_put) (simp_all add: ca_inv_def maxCachedLeaves_def)
    with a show ?thesis using LeafFor_miss [where isIP = isIP and sign = sign, OF None Inr] by (simp add: ca_inv_def)
  qed (use a None in \<open>simp add: LeafFor_def\<close>)
qed (simp add: LeafFor_def)

lemma LeafFor_cached:
  assumes "LeafFor isIP sign i name c = (Inr tc, c')"
  shows "map_of (leaves c') name = Some tc"
  using assms by (auto simp: LeafFor_def Let_def split: option.splits sum.splits)

lemma LeafFor_hit: "map_of (leaves c) name = Some tc \<Longrightarrow> LeafFor isIP sign i name c = (Inr tc, c)"
  by (simp add: LeafFor_def)

end
