(* ===== verification/Netlimit.thy ===== *)
theory Netlimit
  imports Go_Prelude
begin

text \<open>
  The listener that bounds concurrent connections (internal/netlimit/listener.go), used by every
  host service a guest can reach. The semaphore is a counter, the set of active connections a list of identifiers.
  The steps are the code's own atomic pieces, so that accepts, closes of connections
  and the close of the listener interleave as goroutines do: taking a slot, the region under the lock after it, and the two
  halves of a close.
\<close>

definition DefaultMaxConnections :: nat where "DefaultMaxConnections = 128"

record listener =
  ln_cap :: nat
  ln_sem :: nat
  ln_active :: "nat list"
  ln_closed :: bool

definition New :: "int \<Rightarrow> listener option" where
  "New maxConnections = (if maxConnections \<le> 0 then None
     else Some \<lparr>ln_cap = nat maxConnections, ln_sem = 0, ln_active = [], ln_closed = False\<rparr>)"

text \<open>The non-blocking send of \<open>Accept\<close>: a slot, or the connection is closed.\<close>

definition take_slot :: "listener \<Rightarrow> listener option" where
  "take_slot l = (if ln_sem l < ln_cap l then Some (l\<lparr>ln_sem := ln_sem l + 1\<rparr>) else None)"

text \<open>The region after it: a listener closed meanwhile gives the slot back.\<close>

definition register :: "nat \<Rightarrow> listener \<Rightarrow> bool \<times> listener" where
  "register c l = (if ln_closed l then (False, l\<lparr>ln_sem := ln_sem l - 1\<rparr>)
     else (True, l\<lparr>ln_active := c # ln_active l\<rparr>))"

definition release :: "nat \<Rightarrow> listener \<Rightarrow> listener" where
  "release c l = (if c \<in> set (ln_active l) then l\<lparr>ln_active := remove1 c (ln_active l), ln_sem := ln_sem l - 1\<rparr> else l)"

text \<open>\<open>Listener.Close\<close>, once: the connections to close are those active at that moment.\<close>

definition close_listener :: "listener \<Rightarrow> nat list \<times> listener" where
  "close_listener l = (if ln_closed l then ([], l) else (ln_active l, l\<lparr>ln_closed := True\<rparr>))"

section \<open>Interleavings\<close>

text \<open>
  \<open>ns_taken\<close> are the connections between taking a slot and registering, \<open>ns_served\<close> those handed to a handler
  and not yet closed, \<open>ns_doomed\<close> those the listener's close has still to close. \<open>ns_next\<close> is the next connection.
\<close>

record net_state =
  ns_l :: listener
  ns_taken :: "nat list"
  ns_served :: "nat set"
  ns_doomed :: "nat set"
  ns_next :: nat

inductive net_step :: "net_state \<Rightarrow> net_state \<Rightarrow> bool" where
  slot: "take_slot (ns_l s) = Some l \<Longrightarrow>
    net_step s (s\<lparr>ns_l := l, ns_taken := ns_next s # ns_taken s, ns_next := Suc (ns_next s)\<rparr>)"
| refused: "take_slot (ns_l s) = None \<Longrightarrow> net_step s (s\<lparr>ns_next := Suc (ns_next s)\<rparr>)"
| accepted: "c \<in> set (ns_taken s) \<Longrightarrow> register c (ns_l s) = (True, l) \<Longrightarrow>
    net_step s (s\<lparr>ns_l := l, ns_taken := remove1 c (ns_taken s), ns_served := insert c (ns_served s)\<rparr>)"
| late: "c \<in> set (ns_taken s) \<Longrightarrow> register c (ns_l s) = (False, l) \<Longrightarrow>
    net_step s (s\<lparr>ns_l := l, ns_taken := remove1 c (ns_taken s)\<rparr>)"
| closed_conn: "c \<in> ns_served s \<Longrightarrow>
    net_step s (s\<lparr>ns_l := release c (ns_l s), ns_served := ns_served s - {c}, ns_doomed := ns_doomed s - {c}\<rparr>)"
| closed_listener: "close_listener (ns_l s) = (cs, l) \<Longrightarrow>
    net_step s (s\<lparr>ns_l := l, ns_doomed := ns_doomed s \<union> set cs\<rparr>)"

inductive net_reach :: "nat \<Rightarrow> net_state \<Rightarrow> bool" for m where
  start: "New (int m) = Some l \<Longrightarrow> net_reach m \<lparr>ns_l = l, ns_taken = [], ns_served = {}, ns_doomed = {}, ns_next = 0\<rparr>"
| step: "net_reach m s \<Longrightarrow> net_step s s' \<Longrightarrow> net_reach m s'"

definition net_inv :: "nat \<Rightarrow> net_state \<Rightarrow> bool" where
  "net_inv m s \<longleftrightarrow> ln_cap (ns_l s) = m \<and> ln_sem (ns_l s) \<le> m \<and>
     ln_sem (ns_l s) = length (ns_taken s) + length (ln_active (ns_l s)) \<and>
     distinct (ns_taken s) \<and> distinct (ln_active (ns_l s)) \<and> set (ns_taken s) \<inter> set (ln_active (ns_l s)) = {} \<and>
     set (ln_active (ns_l s)) = ns_served s \<and> (\<forall>c \<in> set (ns_taken s) \<union> ns_served s. c < ns_next s) \<and>
     ns_doomed s \<subseteq> ns_served s \<and> (ln_closed (ns_l s) \<longrightarrow> ns_served s \<subseteq> ns_doomed s)"

lemma net_step_inv: "net_step s s' \<Longrightarrow> net_inv m s \<Longrightarrow> net_inv m s'"
proof (induction rule: net_step.induct)
  case (slot s l)
  then show ?case by (auto simp: net_inv_def take_slot_def less_Suc_eq split: if_splits)
next
  case (refused s)
  then show ?case by (auto simp: net_inv_def less_Suc_eq)
next
  case (accepted c s l)
  then have "length (ns_taken s) > 0" by (cases "ns_taken s") auto
  with accepted show ?case by (auto simp: net_inv_def register_def length_remove1 split: if_splits)
next
  case (late c s l)
  then obtain n where "length (ns_taken s) = Suc n" by (cases "ns_taken s") auto
  with late show ?case by (auto simp: net_inv_def register_def length_remove1 split: if_splits)
next
  case (closed_conn c s)
  then have "c \<in> set (ln_active (ns_l s))" by (auto simp: net_inv_def)
  moreover from this obtain n where "length (ln_active (ns_l s)) = Suc n" by (cases "ln_active (ns_l s)") auto
  ultimately show ?case using closed_conn by (auto simp: net_inv_def release_def length_remove1)
next
  case (closed_listener s cs l)
  then show ?case by (auto simp: net_inv_def close_listener_def split: if_splits)
qed

lemma net_reach_inv: "net_reach m s \<Longrightarrow> net_inv m s"
proof (induction rule: net_reach.induct)
  case (start l)
  then show ?case by (auto simp: New_def net_inv_def split: if_splits)
qed (rule net_step_inv)

lemma net_inv_served: "net_inv m s \<Longrightarrow> finite (ns_served s) \<and> card (ns_served s) \<le> m"
proof -
  assume i: "net_inv m s"
  then have "ns_served s = set (ln_active (ns_l s))" "distinct (ln_active (ns_l s))" "length (ln_active (ns_l s)) \<le> m"
    by (auto simp: net_inv_def)
  then show ?thesis by (metis List.finite_set distinct_card)
qed

end
