(* ===== verification/Console.thy ===== *)
theory Console
  imports Go_Prelude
begin

text \<open>
  The control frames carried inside an interactive console's input
  (internal/consoleproto/protocol.go). The reader is the bytes it will deliver and how it ends; the
  writer and the resize callback are arguments that may fail at any call.
\<close>

section \<open>Frames\<close>

definition frameMarker :: byte where "frameMarker = 0xff"
definition frameVersion :: byte where "frameVersion = 1"
definition frameResize :: byte where "frameResize = 1"
definition frameLength :: nat where "frameLength = 11"

record resize =
  Rows :: "16 word"
  Cols :: "16 word"

definition frameChecksum :: "bytes \<Rightarrow> byte" where
  "frameChecksum bs = foldl (\<lambda>c v. c XOR v) 0 bs"

definition EncodeResize :: "int \<Rightarrow> int \<Rightarrow> bytes option" where
  "EncodeResize rows cols =
     (if rows \<le> 0 \<or> rows > 65535 \<or> cols \<le> 0 \<or> cols > 65535 then None
      else (let head = [frameMarker, 77, 65, 67, frameVersion, frameResize] @ put_be16 (nat rows) @ put_be16 (nat cols)
            in Some (head @ [frameChecksum head])))"

definition validResizeFrame :: "bytes \<Rightarrow> bool" where
  "validResizeFrame f \<longleftrightarrow> length f = frameLength \<and> f ! 0 = frameMarker \<and> f ! 1 = 77 \<and> f ! 2 = 65 \<and> f ! 3 = 67 \<and>
     f ! 4 = frameVersion \<and> f ! 5 = frameResize \<and> f ! 10 = frameChecksum (take 10 f) \<and>
     be_nat (take 2 (drop 6 f)) \<noteq> 0 \<and> be_nat (take 2 (drop 8 f)) \<noteq> 0"

definition resize_of :: "bytes \<Rightarrow> resize" where
  "resize_of f = \<lparr>Rows = of_nat (be_nat (take 2 (drop 6 f))), Cols = of_nat (be_nat (take 2 (drop 8 f)))\<rparr>"

section \<open>Copying\<close>

datatype copy_error = ShortWrite | ReadFailed string | WriteFailed string | ResizeFailed string

datatype stream_end = AtEOF | Broken string

record copy_out =
  co_out :: bytes
  co_written :: int
  co_resizes :: "resize list"
  co_err :: "copy_error option"

type_synonym writer = "bytes \<Rightarrow> bytes \<Rightarrow> nat \<times> string option"

text \<open>\<open>wr done chunk\<close> is how many bytes of the chunk the writer takes, and its error.\<close>

definition write_chunk :: "writer \<Rightarrow> bytes \<Rightarrow> copy_out \<Rightarrow> copy_out \<times> bool" where
  "write_chunk wr chunk o1 = (case wr (co_out o1) chunk of (nw, err) \<Rightarrow>
     (let o2 = o1\<lparr>co_out := co_out o1 @ take nw chunk, co_written := co_written o1 + int nw\<rparr>
      in case err of
           Some e \<Rightarrow> (o2\<lparr>co_err := Some (WriteFailed e)\<rparr>, False)
         | None \<Rightarrow> if nw \<noteq> length chunk then (o2\<lparr>co_err := Some ShortWrite\<rparr>, False) else (o2, True)))"

definition end_err :: "stream_end \<Rightarrow> copy_error option" where
  "end_err e = (case e of AtEOF \<Rightarrow> None | Broken m \<Rightarrow> Some (ReadFailed m))"

function copy_loop :: "writer \<Rightarrow> (resize \<Rightarrow> string option) \<Rightarrow> stream_end \<Rightarrow> bytes \<Rightarrow> copy_out \<Rightarrow> copy_out" where
  "copy_loop wr onResize fin [] o1 = o1\<lparr>co_err := end_err fin\<rparr>"
| "copy_loop wr onResize fin (b # rest) o1 =
     (if b \<noteq> frameMarker then
        (case write_chunk wr [b] o1 of
           (o2, True) \<Rightarrow> copy_loop wr onResize fin rest o2
         | (o2, False) \<Rightarrow> o2)
      else
        (let frame = b # take (frameLength - 1) rest; tail = drop (frameLength - 1) rest in
         if length frame = frameLength \<and> validResizeFrame frame then
           (case onResize (resize_of frame) of
              Some e \<Rightarrow> o1\<lparr>co_resizes := co_resizes o1 @ [resize_of frame], co_err := Some (ResizeFailed e)\<rparr>
            | None \<Rightarrow> copy_loop wr onResize fin tail (o1\<lparr>co_resizes := co_resizes o1 @ [resize_of frame]\<rparr>))
         else
           (case write_chunk wr frame o1 of
              (o2, True) \<Rightarrow> if length frame = frameLength then copy_loop wr onResize fin tail o2
                            else o2\<lparr>co_err := end_err fin\<rparr>
            | (o2, False) \<Rightarrow> o2)))"
  by pat_completeness auto
termination
  by (relation "measure (\<lambda>(wr, onResize, fin, bs, o1). length bs)") auto

definition CopyInput :: "writer \<Rightarrow> (resize \<Rightarrow> string option) \<Rightarrow> stream_end \<Rightarrow> bytes \<Rightarrow> copy_out" where
  "CopyInput wr onResize fin input =
     copy_loop wr onResize fin input \<lparr>co_out = [], co_written = 0, co_resizes = [], co_err = None\<rparr>"

declare copy_loop.simps(2) [simp del]

section \<open>Encoding and recognising frames\<close>

lemma EncodeResize_valid:
  assumes "EncodeResize rows cols = Some f"
  shows "validResizeFrame f \<and> resize_of f = \<lparr>Rows = of_int rows, Cols = of_int cols\<rparr>"
proof -
  have r: "0 < rows" "rows \<le> 65535" "0 < cols" "cols \<le> 65535" using assms by (auto simp: EncodeResize_def split: if_splits)
  let ?head = "[frameMarker, 77, 65, 67, frameVersion, frameResize] @ put_be16 (nat rows) @ put_be16 (nat cols)"
  have f: "f = ?head @ [frameChecksum ?head]" using assms r by (auto simp: EncodeResize_def Let_def)
  have parts: "take 2 (drop 6 f) = put_be16 (nat rows)" "take 2 (drop 8 f) = put_be16 (nat cols)" "take 10 f = ?head"
    by (simp_all add: f put_be16_def)
  have "be_nat (put_be16 (nat rows)) = nat rows" "be_nat (put_be16 (nat cols)) = nat cols"
    using r by (simp_all add: be_nat_put_be16)
  then have "resize_of f = \<lparr>Rows = of_int rows, Cols = of_int cols\<rparr>" using r by (simp add: resize_of_def parts)
  moreover have "validResizeFrame f"
    unfolding validResizeFrame_def parts using r \<open>be_nat (put_be16 (nat rows)) = nat rows\<close> \<open>be_nat (put_be16 (nat cols)) = nat cols\<close>
    by (simp add: f put_be16_def frameLength_def)
  ultimately show ?thesis by blast
qed

section \<open>Nothing is lost or reordered\<close>

text \<open>The input as a sequence of forwarded pieces and consumed frames.\<close>

datatype segment = Data bytes | Ctl bytes

primrec seg_bytes :: "segment \<Rightarrow> bytes" where
  "seg_bytes (Data d) = d"
| "seg_bytes (Ctl f) = f"

primrec seg_data :: "segment \<Rightarrow> bytes" where
  "seg_data (Data d) = d"
| "seg_data (Ctl f) = []"

primrec seg_resize :: "segment \<Rightarrow> resize list" where
  "seg_resize (Data d) = []"
| "seg_resize (Ctl f) = [resize_of f]"

primrec seg_ok :: "segment \<Rightarrow> bool" where
  "seg_ok (Data d) = True"
| "seg_ok (Ctl f) = validResizeFrame f"

definition good_writer :: "writer \<Rightarrow> bool" where
  "good_writer wr \<longleftrightarrow> (\<forall>d c. wr d c = (length c, None))"

definition split_as :: "bytes \<Rightarrow> segment list \<Rightarrow> copy_out \<Rightarrow> copy_out \<Rightarrow> bool" where
  "split_as input segs o1 o2 \<longleftrightarrow> concat (map seg_bytes segs) = input \<and> list_all seg_ok segs \<and>
     co_out o2 = co_out o1 @ concat (map seg_data segs) \<and>
     co_written o2 = co_written o1 + int (length (concat (map seg_data segs))) \<and>
     co_resizes o2 = co_resizes o1 @ concat (map seg_resize segs)"

lemma write_good: "good_writer wr \<Longrightarrow> write_chunk wr c o1 =
  (o1\<lparr>co_out := co_out o1 @ c, co_written := co_written o1 + int (length c)\<rparr>, True)"
  by (simp add: write_chunk_def good_writer_def Let_def)

lemma split_as_Cons:
  assumes "split_as rest segs o1' o2" "seg_ok s" "co_out o1' = co_out o1 @ seg_data s"
    "co_written o1' = co_written o1 + int (length (seg_data s))" "co_resizes o1' = co_resizes o1 @ seg_resize s"
  shows "split_as (seg_bytes s @ rest) (s # segs) o1 o2"
  using assms by (auto simp: split_as_def)

lemma copy_loop_split:
  assumes "good_writer wr" "\<forall>r. onResize r = None"
  shows "\<exists>segs. split_as input segs o1 (copy_loop wr onResize fin input o1) \<and>
    co_err (copy_loop wr onResize fin input o1) = end_err fin"
  using assms
proof (induction wr onResize fin input o1 rule: copy_loop.induct)
  case (1 wr onResize fin o1)
  have "split_as [] [] o1 (o1\<lparr>co_err := end_err fin\<rparr>)" by (simp add: split_as_def)
  then show ?case by (intro exI [of _ "[]"]) simp
next
  case (2 wr onResize fin b rest o1)
  let ?frame = "b # take (frameLength - 1) rest" and ?tail = "drop (frameLength - 1) rest"
  note w = write_good [OF "2.prems"(1)] and simps = copy_loop.simps(2) [of wr onResize fin b rest o1]
  consider (plain) "b \<noteq> frameMarker" | (ctl) "b = frameMarker" "length ?frame = frameLength \<and> validResizeFrame ?frame"
    | (raw) "b = frameMarker" "\<not> (length ?frame = frameLength \<and> validResizeFrame ?frame)" by blast
  then show ?case
  proof cases
    case plain
    let ?o = "o1\<lparr>co_out := co_out o1 @ [b], co_written := co_written o1 + int (length [b])\<rparr>"
    have e: "copy_loop wr onResize fin (b # rest) o1 = copy_loop wr onResize fin rest ?o" using plain w by (simp add: simps)
    obtain segs where "split_as rest segs ?o (copy_loop wr onResize fin rest ?o)"
      "co_err (copy_loop wr onResize fin rest ?o) = end_err fin"
      using 2(1) [OF plain w [symmetric] refl "2.prems"] by blast
    then show ?thesis using split_as_Cons [of rest segs ?o _ "Data [b]" o1] e by auto
  next
    case ctl
    let ?o = "o1\<lparr>co_resizes := co_resizes o1 @ [resize_of ?frame]\<rparr>"
    have e: "copy_loop wr onResize fin (b # rest) o1 = copy_loop wr onResize fin ?tail ?o" unfolding simps Let_def using ctl "2.prems"(2) by simp
    obtain segs where "split_as ?tail segs ?o (copy_loop wr onResize fin ?tail ?o)"
      "co_err (copy_loop wr onResize fin ?tail ?o) = end_err fin"
      using 2(2) [OF _ refl refl ctl(2) spec [OF "2.prems"(2)] "2.prems"] ctl(1) by blast
    then show ?thesis using split_as_Cons [of ?tail segs ?o _ "Ctl ?frame" o1] e ctl(2) by auto
  next
    case raw
    let ?o = "o1\<lparr>co_out := co_out o1 @ ?frame, co_written := co_written o1 + int (length ?frame)\<rparr>"
    show ?thesis
    proof (cases "length ?frame = frameLength")
      case True
      have e: "copy_loop wr onResize fin (b # rest) o1 = copy_loop wr onResize fin ?tail ?o" unfolding simps Let_def using raw True w by auto
      obtain segs where "split_as ?tail segs ?o (copy_loop wr onResize fin ?tail ?o)"
        "co_err (copy_loop wr onResize fin ?tail ?o) = end_err fin"
        using 2(3) [OF _ refl refl raw(2) w [symmetric] refl True "2.prems"] raw(1) by blast
      then show ?thesis using split_as_Cons [of ?tail segs ?o _ "Data ?frame" o1] e by auto
    next
      case False
      then have "take (frameLength - 1) rest = rest" by (simp add: frameLength_def)
      then have "copy_loop wr onResize fin (b # rest) o1 = ?o\<lparr>co_err := end_err fin\<rparr>" "?frame = b # rest"
        unfolding simps Let_def using raw(1) False w by auto
      moreover have "split_as (b # rest) [Data (b # rest)] o1 (?o\<lparr>co_err := end_err fin\<rparr>)"
        using \<open>?frame = b # rest\<close> by (simp add: split_as_def)
      ultimately show ?thesis by (intro exI [of _ "[Data (b # rest)]"]) simp
    qed
  qed
qed

text \<open>A frame among typed bytes is consumed, and only it.\<close>

lemma copy_plain:
  assumes "good_writer wr" "frameMarker \<notin> set bs"
  shows "copy_loop wr onResize fin (bs @ rest) o1 = copy_loop wr onResize fin rest
    (o1\<lparr>co_out := co_out o1 @ bs, co_written := co_written o1 + int (length bs)\<rparr>)"
  using assms(2)
proof (induction bs arbitrary: o1)
  case (Cons b bs)
  from Cons.prems have b: "b \<noteq> frameMarker" "frameMarker \<notin> set bs" by auto
  from Cons.IH [OF b(2)] b(1) show ?case by (simp add: copy_loop.simps(2) write_good [OF assms(1)] add.assoc)
qed simp

lemma copy_frame:
  assumes "validResizeFrame f" "onResize (resize_of f) = None"
  shows "copy_loop wr onResize fin (f @ rest) o1 =
    copy_loop wr onResize fin rest (o1\<lparr>co_resizes := co_resizes o1 @ [resize_of f]\<rparr>)"
proof -
  have l: "length f = 11" "f ! 0 = frameMarker" using assms(1) by (auto simp: validResizeFrame_def frameLength_def)
  then obtain t where f: "f = frameMarker # t" by (cases f) auto
  with l have "length t = 10" by simp
  with assms f show ?thesis by (simp add: copy_loop.simps(2) Let_def frameLength_def)
qed

end
