(* ===== verification/Samples.thy ===== *)
theory Samples
  imports UdpTable QuicStream AuditLog Datapath Netlimit Console
begin

text \<open>
  A concrete workspace: its allowlist, its resolver, one upstream and one connection of each
  kind. The theorems of the other theories are applied to it where they have hypotheses, so each
  hypothesis is seen to hold of a run of the model.
\<close>

section \<open>The workspace\<close>

definition allow_entries :: "string list" where
  "allow_entries = [''api.example.com'', ''.corp.example'']"

definition sample_policy :: policy where
  "sample_policy = \<lparr>exact = [''api.example.com''], suffixes = [''.corp.example'']\<rparr>"

definition sample_limits :: limits where
  "sample_limits = \<lparr>MaxBytesPerSec = 0, MaxTotalBytes = 1000, MaxConcurrentConns = 2\<rparr>"

definition key_swap :: swap_entry where
  "key_swap = empty_entry\<lparr>se_Name := ''api'', se_Type := ''static'', se_Domains := [''api.example.com''], se_KeyRef := ''env:API_KEY'',
     se_Header := ''X-Api-Key''\<rparr>"

definition sample_swaps :: swap_table where
  "sample_swaps = \<lparr>st_exact = [(''api.example.com'', key_swap)], st_suffix = []\<rparr>"

definition locked :: handler where
  "locked = \<lparr>Mode = ''broker'', AllowlistLocked = True, Policy = Some sample_policy, Swaps = None, Limits = sample_limits,
     Passthrough = None, CA = False, Peers = None, Resolvers = [V4 0x08080808], BindAddr = AddrPort AddrZero 0\<rparr>"

definition mitm :: handler where
  "mitm = locked\<lparr>Mode := ''mitm'', AllowlistLocked := False, CA := True, Swaps := Some sample_swaps\<rparr>"

definition idle :: hstate where
  "idle = \<lparr>bytesUsed = 0, activeConns = 0, NameCache = Some NewNameCache, tokens = []\<rparr>"

definition server :: addr_port where
  "server = AddrPort (V4 0x5db8d822) 443"

section \<open>Libraries\<close>

definition sample_lib :: "unit lib" where
  "sample_lib = \<lparr>url_Parse = (\<lambda>s. None), json_tokenResp = (\<lambda>b. None), json_object = (\<lambda>b. None),
     parseRSAPrivateKey = (\<lambda>s. None), signRS256JWT = (\<lambda>k c. None), Error_text = (\<lambda>e. '''')\<rparr>"

definition with_key :: "string \<Rightarrow> env" where
  "with_key k = \<lparr>Resolver = Some (\<lambda>ref. Inr (go_bytes k)), endpoint = (\<lambda>r. TransportError), Getenv = (\<lambda>n. ''''),
     now_get = 0, now_mint = 0\<rparr>"

text \<open>A codec for one question and its answer: a message is its identifier byte.\<close>

definition sample_header :: dns_header where
  "sample_header = \<lparr>dh_ID = 7, dh_Response = False, dh_OpCode = 0, dh_Authoritative = False, dh_Truncated = False,
     dh_RecursionDesired = True, dh_RecursionAvailable = False, dh_RCode = 0\<rparr>"

definition sample_codec :: dns_codec where
  "sample_codec = \<lparr>Start = (\<lambda>b. Inr sample_header),
     Question = (\<lambda>b. Inr \<lparr>dq_Name = (if b = [1] then ''api.example.com.'' else ''evil.test.''), dq_Type = 1, dq_Class = 1\<rparr>),
     AllQuestions = (\<lambda>b. Some []), AllAnswers = (\<lambda>b. Some []), AllAuthorities = (\<lambda>b. Some []), AllAdditionals = (\<lambda>b. Some []),
     SkipAllQuestions = (\<lambda>b. True),
     AnswerItems = (\<lambda>b. [\<lparr>ai_Type = 1, ai_TTL = 300, ai_Body = Some (ABody 0x5db8d822)\<rparr>]),
     add_question_ok = (\<lambda>q. True), add_resource_ok = (\<lambda>r. True), Finish = (\<lambda>h q an au ad. Inl ''unsupported''),
     type_String = (\<lambda>n. ''TypeA'')\<rparr>"

definition sample_clock :: put_clock where
  "sample_clock n = (10, 10, 0, 0)"

definition resolver_addr :: addr_port where
  "resolver_addr = AddrPort (V4 0x08080808) 53"

definition answered :: name_cache where
  "answered = \<lparr>nc_entries = [(V4 0x5db8d822, \<lparr>ne_host = ''api.example.com'', ne_expiry = 300000000010\<rparr>)],
     nc_bindings = [((''api.example.com'', V4 0x5db8d822), 300000000010)]\<rparr>"

section \<open>Connections\<close>

definition sample_hello :: client_hello where
  "sample_hello = \<lparr>ch_random = replicate 34 0, ch_session = [], ch_suites = [0x13, 1], ch_compression = [0],
     ch_pre = [], ch_host = ''api.example.com'', ch_post = []\<rparr>"

definition sample_request :: http_request where
  "sample_request = \<lparr>rq_Method = ''GET'', rq_Path = ''/v1'', rq_RequestURI = ''/v1'', rq_Header = [], rq_Body = []\<rparr>"

definition tls_conn :: "unit conn_env" where
  "tls_conn = \<lparr>ce_OrigDst = Inr server, ce_reader = \<lparr>avail = enc_record sample_hello, buffered = 10\<rparr>,
     ce_now_bind = 20, ce_now_rev = 20, ce_Dial = None, ce_chunks = [[1, 2, 3]],
     ce_write = (\<lambda>i p. (length p, None)), ce_others = (\<lambda>i. 0), ce_handshake = None, ce_tlsDial = None,
     ce_peek = go_bytes ''GET /v1 '', ce_requests = Request sample_request [] (ReadFails EOF),
     ce_wire = (\<lambda>r. [[1, 2]]), ce_tail = (\<lambda>b. [b]), ce_lib = sample_lib, ce_env = (\<lambda>n. with_key ''k'')\<rparr>"

definition host_line :: bytes where
  "host_line = go_bytes (''GET / HTTP/1.1'' @ [CHR 0x0d, CHR 0x0a] @ ''Host: api.example.com'' @ [CHR 0x0d, CHR 0x0a])"

definition plain_conn :: "unit conn_env" where
  "plain_conn = tls_conn\<lparr>ce_reader := \<lparr>avail = host_line, buffered = 39\<rparr>\<rparr>"

definition running :: hstate where
  "running = idle\<lparr>NameCache := Some answered\<rparr>"

section \<open>Evaluation\<close>

lemma allow_entries_policy: "NewPolicy allow_entries = Inr sample_policy"
  by code_simp

lemma locked_fields [simp]:
  "Mode locked = ''broker''" "AllowlistLocked locked" "Policy locked = Some sample_policy" "Swaps locked = None"
  "Limits locked = sample_limits" "Passthrough locked = None" "\<not> CA locked" "Peers locked = None"
  "Resolvers locked = [V4 0x08080808]" "BindAddr locked = AddrPort AddrZero 0"
  by (simp_all add: locked_def)

lemma mitm_fields [simp]:
  "Mode mitm = ''mitm''" "\<not> AllowlistLocked mitm" "Policy mitm = Some sample_policy" "Swaps mitm = Some sample_swaps"
  "Limits mitm = sample_limits" "Passthrough mitm = None" "CA mitm" "Peers mitm = None" "BindAddr mitm = AddrPort AddrZero 0"
  by (simp_all add: mitm_def locked_def)

lemma server_fields [simp]: "ap_addr server = V4 0x5db8d822" "ap_port server = 443"
  by (simp_all add: server_def)

lemma server_text [simp]: "string4 0x5db8d822 = ''93.184.216.34''"
  by (simp add: string4_def octets_def dec.simps) code_simp

lemma server_ap_text [simp]: "ap_String server = ''93.184.216.34:443''"
  by (simp add: server_def ap_String.simps string4_def octets_def dec.simps) code_simp

lemma server_outside [simp]: "\<not> isInsideAddr (V4 0x5db8d822)"
  by (simp add: isInsideAddr_V4 in_ranges_def inside_ranges4_def)

lemma running_fields [simp]:
  "NameCache running = Some answered" "activeConns running = 0" "bytesUsed running = 0" "tokens running = []"
  by (simp_all add: running_def idle_def)

lemma plain_fields [simp]:
  "ce_OrigDst plain_conn = Inr server" "ce_now_bind plain_conn = 20" "ce_Dial plain_conn = None"
  "ce_chunks plain_conn = [[1, 2, 3]]" "ce_reader plain_conn = \<lparr>avail = host_line, buffered = 39\<rparr>"
  "ce_write plain_conn = (\<lambda>i p. (length p, None))" "ce_others plain_conn = (\<lambda>i. 0)"
  by (simp_all add: plain_conn_def tls_conn_def)

lemma tls_fields [simp]:
  "ce_OrigDst tls_conn = Inr server" "ce_now_bind tls_conn = 20" "ce_handshake tls_conn = None" "ce_tlsDial tls_conn = None"
  "ce_reader tls_conn = \<lparr>avail = enc_record sample_hello, buffered = 10\<rparr>"
  by (simp_all add: tls_conn_def)

lemma answered_match [simp]: "HostMatchesIP ''api.example.com'' (V4 0x5db8d822) 20 answered = (True, answered)"
  by code_simp

lemma answered_put: "Put ''api.example.com'' (V4 0x5db8d822) 300000000000 10 10 0 0 NewNameCache = answered"
  by code_simp

lemma api_allowed [simp]: "Allow (AllowHost sample_policy ''api.example.com'')"
  by code_simp

lemma api_normal [simp]: "normalizeHost ''api.example.com'' = ''api.example.com''"
  by code_simp

lemma evil_denied [simp]: "\<not> Allow (AllowHost sample_policy ''evil.test'')"
  by code_simp

lemma host_line_shape: "hd host_line \<noteq> 0x16 \<and> length host_line = 39"
  by code_simp

lemma host_line_header: "httpHostHeader host_line = ''api.example.com''"
  unfolding host_line_def httpHostHeader_def go_string_bytes by code_simp

lemma sniff_plain [simp]: "sniffHost \<lparr>avail = host_line, buffered = 39\<rparr> server = Some (''api.example.com'', False)"
proof -
  have "host_line \<noteq> []" using host_line_shape by auto
  moreover have "hd (take (Suc 0) host_line) = hd host_line" by (cases host_line) auto
  ultimately show ?thesis using host_line_shape host_line_header by (simp add: sniffHost_def Peek_def maxTLSRecord_def)
qed

lemma sample_hello_ok: "ch_ok sample_hello" "length (enc_handshake sample_hello) \<le> 2 ^ 14"
  by (simp_all add: ch_ok_def sample_hello_def ch_exts_def enc_ext_def enc_handshake_def ch_body_def put_be24_def)

lemma sniff_tls [simp]: "sniffHost \<lparr>avail = enc_record sample_hello, buffered = 10\<rparr> server = Some (''api.example.com'', True)"
  using sniffHost_enc [OF sample_hello_ok, of "[]" 10 server] by (simp add: sample_hello_def)

definition sample_identity :: "bool \<Rightarrow> identity" where
  "sample_identity tls = \<lparr>id_host = ''api.example.com'', id_TLS = tls, id_mismatch = False, id_isPeer = False,
     id_peer = '''', id_peerIP = ''''\<rparr>"

lemma sample_identity_fields [simp]:
  "id_host (sample_identity t) = ''api.example.com''" "id_TLS (sample_identity t) = t" "\<not> id_mismatch (sample_identity t)"
  "\<not> id_isPeer (sample_identity t)" "id_peer (sample_identity t) = ''''" "id_peerIP (sample_identity t) = ''''"
  by (simp_all add: sample_identity_def)

lemma identify_plain: "identify locked plain_conn server (Some answered) = Some (sample_identity False, Some answered)"
  by (simp add: identify_def nc_matches_def peerName_def sample_identity_def Let_def)

lemma identify_tls: "identify mitm tls_conn server (Some answered) = Some (sample_identity True, Some answered)"
  by (simp add: identify_def nc_matches_def peerName_def sample_identity_def Let_def)

lemma evaluate_api:
  "Policy b = Some sample_policy \<Longrightarrow> \<exists>r. Evaluate b ''api.example.com'' cs (V4 0x5db8d822) pt = Some
     \<lparr>Allowed = True, Unlisted = False, Inside = False, VReason = r\<rparr>"
  using Evaluate_verdict [of b sample_policy "''api.example.com''" cs "V4 0x5db8d822" pt] by (simp add: granted_def)

lemma handle_plain: "\<exists>out. Handle locked plain_conn running = Some out \<and> ho_dialed out = Some (L4 ''93.184.216.34:443'')"
proof -
  obtain r where "Evaluate (brain_of locked) ''api.example.com'' ['''', ''''] (V4 0x5db8d822) False = Some
     \<lparr>Allowed = True, Unlisted = False, Inside = False, VReason = r\<rparr>" using evaluate_api by fastforce
  then have d: "decide locked server (sample_identity False) = Some
     (\<lparr>Allowed = True, Unlisted = False, Inside = False, VReason = r\<rparr>, False)"
    by (simp add: decide_def sample_identity_def)
  have "\<not> isOwnBindAddr locked server" "\<not> over_conns locked 1"
    by (simp_all add: isOwnBindAddr_def ap_IsValid_def over_conns_def sample_limits_def)
  then show ?thesis
    by (simp add: Handle_def Let_def identify_plain d carry_out_def shouldMITM_def split_beta)
qed

lemma handle_tls:
  "\<exists>out. Handle mitm tls_conn running = Some out \<and> ho_dialed out = Some (TLSUpstream ''api.example.com'' ''93.184.216.34:443'')"
proof -
  obtain r where "Evaluate (brain_of mitm) ''api.example.com'' ['''', ''''] (V4 0x5db8d822) False = Some
     \<lparr>Allowed = True, Unlisted = False, Inside = False, VReason = r\<rparr>" using evaluate_api by fastforce
  then have d: "decide mitm server (sample_identity True) = Some
     (\<lparr>Allowed = True, Unlisted = False, Inside = False, VReason = r\<rparr>, False)"
    by (simp add: decide_def sample_identity_def)
  have "\<not> isOwnBindAddr mitm server" "\<not> over_conns mitm 1"
    by (simp_all add: isOwnBindAddr_def ap_IsValid_def over_conns_def sample_limits_def)
  then show ?thesis
    by (simp add: Handle_def Let_def identify_tls d carry_out_def shouldMITM_def egressModeMITM_def
        serveMITM_def split_beta)
qed

text \<open>The name cache after the resolver answered the workspace's query.\<close>

lemma api_answered: "cache_reach sample_codec locked answered"
proof -
  have "do_cache (handleDNS sample_codec sample_clock (\<lambda>r q. Inr [1]) locked (Some NewNameCache) [1] resolver_addr) = Some answered"
  proof -
    have "parseDNSQuestion sample_codec [1] = Inr (7, ''api.example.com'', 1)"
      by (simp add: parseDNSQuestion_def sample_codec_def sample_header_def) code_simp
    moreover have "dns_listed locked ''api.example.com''" by (simp add: dns_listed_def)
    moreover have "resolverAllowed locked (ap_addr resolver_addr)"
      by (simp add: resolverAllowed_def resolverConfigured_def resolver_addr_def)
    moreover have "stripECHRecords sample_codec [1] = [1]"
      by (simp add: stripECHRecords_def sample_codec_def containsServiceBinding_def)
    moreover have "cacheDNSAnswers sample_codec sample_clock (Some NewNameCache) ''api.example.com'' [1] = Some answered"
      using answered_put
      by (simp add: cacheDNSAnswers_def sample_codec_def clocked_Put_def sample_clock_def ttl_duration_def second_def TypeA_def)
    ultimately show ?thesis by (simp add: handleDNS_def Let_def)
  qed
  then show ?thesis by (rule cr_dns [OF cr_new])
qed

section \<open>A connection to an inside address\<close>

definition broker :: handler where
  "broker = locked\<lparr>AllowlistLocked := False\<rparr>"

definition metadata :: addr_port where
  "metadata = AddrPort (V4 0xa9fea9fe) 80"

definition metadata_conn :: "unit conn_env" where
  "metadata_conn = plain_conn\<lparr>ce_OrigDst := Inr metadata\<rparr>"

lemma broker_fields [simp]:
  "Mode broker = ''broker''" "\<not> AllowlistLocked broker" "Policy broker = Some sample_policy" "Swaps broker = None"
  "Limits broker = sample_limits" "Passthrough broker = None" "\<not> CA broker" "Peers broker = None"
  "BindAddr broker = AddrPort AddrZero 0"
  by (simp_all add: broker_def locked_def)

lemma metadata_fields [simp]: "ap_addr metadata = V4 0xa9fea9fe" "ap_port metadata = 80"
  by (simp_all add: metadata_def)

lemma metadata_text [simp]: "string4 0xa9fea9fe = ''169.254.169.254''"
  by (simp add: string4_def octets_def dec.simps) code_simp

lemma metadata_inside [simp]: "isInsideAddr (V4 0xa9fea9fe)"
  by (simp add: isInsideAddr_V4 in_ranges_def inside_ranges4_def)

lemma metadata_conn_fields [simp]:
  "ce_OrigDst metadata_conn = Inr metadata" "ce_now_bind metadata_conn = 20" "ce_Dial metadata_conn = None"
  "ce_reader metadata_conn = \<lparr>avail = host_line, buffered = 39\<rparr>"
  by (simp_all add: metadata_conn_def)

lemma answered_no_match [simp]: "HostMatchesIP ''api.example.com'' (V4 0xa9fea9fe) 20 answered = (False, answered)"
  by code_simp

lemma sniff_metadata [simp]: "sniffHost \<lparr>avail = host_line, buffered = 39\<rparr> metadata = Some (''api.example.com'', False)"
proof -
  have "host_line \<noteq> []" using host_line_shape by auto
  moreover have "hd (take (Suc 0) host_line) = hd host_line" by (cases host_line) auto
  ultimately show ?thesis using host_line_shape host_line_header by (simp add: sniffHost_def Peek_def maxTLSRecord_def)
qed

lemma handle_metadata:
  "\<exists>out d. Handle broker metadata_conn running = Some out \<and> ho_dialed out = Some d \<and> dial_addr d = ap_String metadata"
proof -
  let ?x = "(sample_identity False)\<lparr>id_mismatch := True\<rparr>"
  have i: "identify broker metadata_conn metadata (Some answered) = Some (?x, Some answered)"
    by (simp add: identify_def nc_matches_def peerName_def sample_identity_def Let_def)
  obtain v where v: "Evaluate (brain_of broker) ''api.example.com'' ['''', ''''] (V4 0xa9fea9fe) False = Some v" "Allowed v"
    using Evaluate_verdict [of "brain_of broker" sample_policy "''api.example.com''" "['''', '''']" "V4 0xa9fea9fe" False]
    by (auto simp: granted_def)
  then have d: "decide broker metadata ?x = Some (v, False)" by (simp add: decide_def)
  have "\<not> isOwnBindAddr broker metadata" "\<not> over_conns broker 1"
    by (simp_all add: isOwnBindAddr_def ap_IsValid_def over_conns_def sample_limits_def)
  with v(2) show ?thesis
    by (simp add: Handle_def Let_def i d carry_out_def shouldMITM_def split_beta)
qed

section \<open>Swapped requests\<close>

definition key_relay :: "string \<Rightarrow> relay_out" where
  "key_relay k = relayHTTPRequests sample_lib (\<lambda>n. with_key k) \<lparr>write_err = (\<lambda>ws r. None), copy_err = (\<lambda>ws b. None)\<rparr>
     (Request sample_request [] (ReadFails EOF)) ''api.example.com'' [] (Some sample_swaps)"

lemma match_api [simp]: "Match sample_swaps ''api.example.com'' = Some key_swap"
  by code_simp

lemma key_relay_attempts: "length (up_attempts (key_relay ''k'')) = 1"
  by code_simp

definition no_key :: env where
  "no_key = (with_key '''')\<lparr>Resolver := None\<rparr>"

lemma acquire_no_key: "\<exists>err. fst (acquire sample_lib (v\<lparr>Resolver := None\<rparr>) key_swap c) = Inl err"
  by (simp add: acquire_def resolveStr_def key_swap_def empty_entry_def)

definition swap_docs :: "bytes \<Rightarrow> yaml_docs" where
  "swap_docs b = YamlDoc [(''api'', key_swap)] YEOF"

lemma load_sample_swaps: "LoadSwapTable (\<lambda>s. None) swap_docs [] = Inr sample_swaps"
  by code_simp

definition token_swap :: swap_entry where
  "token_swap = empty_entry\<lparr>se_Name := ''tok'', se_Type := ''oauth2-cc'', se_Domains := [''api.example.com''],
     se_TokenURL := ''https://id.example/token'', se_ClientIDRef := ''env:ID'', se_ClientSecretRef := ''env:SECRET''\<rparr>"

definition token_lib :: "unit lib" where
  "token_lib = sample_lib\<lparr>url_Parse := (\<lambda>s. Some \<lparr>url_Scheme = ''https'', url_Host = ''api.example.com'', url_Opaque = '''',
     url_HasUser = False, url_Fragment = ''''\<rparr>), json_tokenResp := (\<lambda>b. Some (''tok-1'', 3600))\<rparr>"

definition token_env :: env where
  "token_env = (with_key ''id'')\<lparr>endpoint := (\<lambda>r. Reply 200 [123, 125])\<rparr>"

lemma token_acquired:
  "acquireOAuth2CC token_lib token_env token_swap [] =
     (Inr ''tok-1'', token_set (cacheKey token_swap) ''tok-1'' 3600000000000 [])"
proof -
  have "validateOAuth2Entry (url_Parse token_lib) token_swap = None" by code_simp
  moreover have "resolveStr token_env (se_ClientIDRef token_swap) = Inr ''id''"
    "resolveStr token_env (se_ClientSecretRef token_swap) = Inr ''id''" by code_simp+
  moreover have "parseToken token_lib (now_mint token_env) b token_swap = Inr (''tok-1'', 3600000000000)" for b
    by (simp add: parseToken_def token_swap_def token_lib_def token_env_def with_key_def expiryFrom_def seconds_def second_def
        wrap64_def empty_entry_def)
  ultimately show ?thesis
    by (simp add: acquireOAuth2CC_def token_get_def token_env_def Let_def)
qed

lemma token_not_cached: "token_get (cacheKey token_swap) (now_get token_env) [] = None"
  by (simp add: token_get_def)

definition fetch_net :: net_env where
  "fetch_net = \<lparr>LookupNetIP = (\<lambda>h. Inr [V4 0x5db8d822]), NewRequest_err = (\<lambda>m u. None),
     client_Do = (\<lambda>r. HttpReply 200 [] [1, 2, 3] None)\<rparr>"

definition sample_fetch :: fetch_request where
  "sample_fetch = \<lparr>fq_Method = '''', fq_URL = ''https://api.example.com/'', fq_Header = [], fq_Body = []\<rparr>"

section \<open>Messages with service bindings\<close>

definition a_record :: resource where
  "a_record = \<lparr>rr_Name = ''api.example.com.'', rr_Type = 1, rr_TTL = 300, rr_Body = ABody 0x5db8d822\<rparr>"

definition https_record :: resource where
  "https_record = \<lparr>rr_Name = ''api.example.com.'', rr_Type = 65, rr_TTL = 300, rr_Body = UnknownBody [0, 1]\<rparr>"

text \<open>Message \<open>[1]\<close> has both records, message \<open>[2]\<close> the address only.\<close>

definition strip_codec :: dns_codec where
  "strip_codec = sample_codec\<lparr>Start := (\<lambda>b. Inr sample_header),
     AllAnswers := (\<lambda>b. Some (if b = [1] then [a_record, https_record] else [a_record])),
     Finish := (\<lambda>h q an au ad. if h = sample_header \<and> q = [] \<and> an = [a_record] \<and> au = [] \<and> ad = [] then Inr [2] else Inl ''pack'')\<rparr>"

lemma strip_codec_ok: "codec_ok strip_codec"
  by (simp add: codec_ok_def strip_codec_def sample_codec_def)

section \<open>Datagrams\<close>

text \<open>Primitives that leave their input as it is.\<close>

definition null_cipher :: quic_crypto where
  "null_cipher = \<lparr>hkdf_Extract = (\<lambda>a b. b), hkdf_Expand = (\<lambda>a b n. Some (replicate n 0)),
     aes_Encrypt = (\<lambda>k b. replicate (length b) 0), gcm_Open = (\<lambda>k n c a. Some c)\<rparr>"

lemma null_cipher_ok: "gcm_ok null_cipher"
  by (simp add: gcm_ok_def null_cipher_def)

definition udp_sample_env :: "nat \<Rightarrow> udp_env" where
  "udp_sample_env n = \<lparr>ue_now_match = 20, ue_now = 20, ue_open = None, ue_local = None, ue_write = None, ue_pos = 0, ue_pos2 = 0\<rparr>"

definition media :: addr_port where
  "media = AddrPort (V4 0x5db8d822) 4433"

definition guest :: addr_port where
  "guest = AddrPort (V4 0x0a000002) 50000"

definition media_key :: udp_key where
  "media_key = \<lparr>uk_src = guest, uk_dst = media\<rparr>"

definition media_flow :: udp_flow where
  "media_flow = \<lparr>uf_id = 1, uf_key = media_key, uf_host = ''api.example.com'', uf_assoc = 0, uf_lastSeen = 20\<rparr>"

definition media_proxy :: udp_proxy where
  "media_proxy = \<lparr>flows = [(media_key, media_flow)], quics = [],
     heap = [(0, \<lparr>ua_src = guest, ua_flows = 1, ua_peers = [(V4 0x5db8d822, \<lparr>pr_flows = 1, pr_rep = Some media_flow\<rparr>)], ua_logged = False\<rparr>)],
     associations = [(guest, 0)], closed = [], next_id = 2\<rparr>"

lemma answered_reverse: "HostForIP (V4 0x5db8d822) 20 answered = (Some ''api.example.com'', answered)"
  by code_simp

lemma admit_media: "admit_flow (udp_sample_env 0) media_key ''api.example.com'' new_udp_proxy = (Inr (media_flow, True, None), media_proxy)"
  by (simp add: admit_flow_def new_udp_proxy_def udp_sample_env_def media_proxy_def media_flow_def media_key_def Let_def
      addFlowToAssociationLocked_def heap_map_def evictIfOverfullLocked_def maxUDPFlows_def media_def guest_def)

lemma datagram_sent:
  "\<exists>out. handleUDPDatagram locked null_cipher udp_sample_env 20 guest media [1, 2, 3] new_udp_proxy running = Some (out, None) \<and>
     uo_sent out = [(guest, media, [1, 2, 3])] \<and> uo_proxy out = media_proxy"
proof -
  obtain r where v: "Evaluate (brain_of locked) ''api.example.com'' [] (V4 0x5db8d822) False = Some
     \<lparr>Allowed = True, Unlisted = False, Inside = False, VReason = r\<rparr>" using evaluate_api by fastforce
  have "\<not> isOwnBindAddr locked media" by (simp add: isOwnBindAddr_def ap_IsValid_def)
  moreover have m: "ap_port media = 4433" "ap_addr media = V4 0x5db8d822" by (simp_all add: media_def)
  moreover have "touch 1 20 media_proxy = media_proxy"
    by (simp add: touch_def media_proxy_def media_flow_def)
  moreover have "uf_id media_flow = 1" "ue_now (udp_sample_env 0) = 20" "ue_write (udp_sample_env 0) = None"
    by (simp_all add: media_flow_def udp_sample_env_def)
  moreover have "\<exists>u. addBytesOverCap locked 3 (bytesUsed (running\<lparr>NameCache := Some answered\<rparr>)) = (False, u)"
    by (simp add: addBytesOverCap_def sample_limits_def running_def idle_def Let_def wrap64_def)
  ultimately show ?thesis
    using v admit_media answered_reverse
    by (auto simp: handleUDPDatagram_def Let_def nc_reverse_def forwardUDPDatagram_def udp_verdict_def
        media_key_def udp_send_def)
qed

section \<open>A disk that does not fail\<close>

definition good_disk :: rot_env where
  "good_disk = \<lparr>re_remove = True, re_rename = (\<lambda>i. True), re_open = True, re_write = 100\<rparr>"

end
