(* ===== verification/Urls.thy ===== *)
theory Urls
  imports Swap
begin

text \<open>
  What the broker uses of the packages net/url, path and net: percent encoding, \<open>URL.EscapedPath\<close>, \<open>url.ParseQuery\<close>,
  \<open>path.Clean\<close> and \<open>net.SplitHostPort\<close>. A URL is read by \<open>url.Parse\<close>, which stays an argument of what uses it; the parts the broker looks at are the
  record below.
\<close>

section \<open>URLs\<close>

record broker_url =
  bu_Scheme :: string
  bu_HasUser :: bool
  bu_Host :: string
  bu_Path :: string
  bu_RawPath :: string
  bu_RawQuery :: string
  bu_Fragment :: string

definition is_unreserved :: "char \<Rightarrow> bool" where
  "is_unreserved c \<longleftrightarrow> (let n = (of_char c :: nat) in
     (48 \<le> n \<and> n \<le> 57) \<or> (65 \<le> n \<and> n \<le> 90) \<or> (97 \<le> n \<and> n \<le> 122) \<or> c \<in> set ''-_.~'')"

text \<open>\<open>shouldEscape\<close> in the mode of a path.\<close>

definition shouldEscape :: "char \<Rightarrow> bool" where
  "shouldEscape c \<longleftrightarrow> \<not> (is_unreserved c \<or> c \<in> set ''$&+,/:;=@'')"

definition upper_hex :: "nat \<Rightarrow> char" where
  "upper_hex n = (if n < 10 then char_of (48 + n) else char_of (55 + n))"

definition escape_char :: "char \<Rightarrow> string" where
  "escape_char c = (if shouldEscape c then [CHR ''%'', upper_hex (of_char c div 16), upper_hex (of_char c mod 16)] else [c])"

definition escape_path :: "string \<Rightarrow> string" where
  "escape_path s = concat (map escape_char s)"

text \<open>\<open>unescape\<close>; in a query component a plus sign is a space.\<close>

fun unescape :: "bool \<Rightarrow> string \<Rightarrow> string option" where
  "unescape q [] = Some []"
| "unescape q (c # cs) =
     (if c = CHR ''%'' then
        (case cs of a # b # rest \<Rightarrow>
           (case (hex_val a, hex_val b) of
              (Some x, Some y) \<Rightarrow> map_option ((#) (char_of (16 * x + y))) (unescape q rest)
            | _ \<Rightarrow> None)
         | _ \<Rightarrow> None)
      else map_option ((#) (if q \<and> c = CHR ''+'' then CHR '' '' else c)) (unescape q cs))"

definition PathUnescape :: "string \<Rightarrow> string option" where
  "PathUnescape = unescape False"

definition QueryUnescape :: "string \<Rightarrow> string option" where
  "QueryUnescape = unescape True"

definition validEncoded :: "string \<Rightarrow> bool" where
  "validEncoded s \<longleftrightarrow> list_all (\<lambda>c. c \<in> set ''!$&()*+,;=:@[]%'' \<or> c = CHR 0x27 \<or> \<not> shouldEscape c) s"

definition EscapedPath :: "broker_url \<Rightarrow> string" where
  "EscapedPath u =
     (if bu_RawPath u \<noteq> '''' \<and> validEncoded (bu_RawPath u) \<and> unescape False (bu_RawPath u) = Some (bu_Path u) then bu_RawPath u
      else if bu_Path u = ''*'' then ''*''
      else escape_path (bu_Path u))"

section \<open>Queries\<close>

type_synonym url_values = "(string, string list) gomap"

definition add_value :: "string \<Rightarrow> string \<Rightarrow> url_values \<Rightarrow> url_values" where
  "add_value k v m = AList.update k ((case map_of m k of Some vs \<Rightarrow> vs | None \<Rightarrow> []) @ [v]) m"

text \<open>The parts between ampersands; any malformed one makes \<open>ParseQuery\<close> return an error.\<close>

fun query_parts :: "string list \<Rightarrow> url_values \<Rightarrow> url_values option" where
  "query_parts [] m = Some m"
| "query_parts (part # rest) m =
     (if CHR '';'' \<in> set part then None
      else if part = '''' then query_parts rest m
      else (case Cut part CHR ''='' of (k, v, _) \<Rightarrow>
        (case (QueryUnescape k, QueryUnescape v) of
           (Some k', Some v') \<Rightarrow> query_parts rest (add_value k' v' m)
         | _ \<Rightarrow> None)))"

definition ParseQuery :: "string \<Rightarrow> url_values option" where
  "ParseQuery q = query_parts (Split q CHR ''&'') []"

section \<open>Paths\<close>

fun clean_parts :: "bool \<Rightarrow> string list \<Rightarrow> string list \<Rightarrow> string list" where
  "clean_parts rooted acc [] = rev acc"
| "clean_parts rooted acc (p # ps) =
     (if p = '''' \<or> p = ''.'' then clean_parts rooted acc ps
      else if p = ''..'' then
        (case acc of
           [] \<Rightarrow> clean_parts rooted (if rooted then [] else [''..'']) ps
         | a # as \<Rightarrow> if a = ''..'' then clean_parts rooted (''..'' # acc) ps else clean_parts rooted as ps)
      else clean_parts rooted (p # acc) ps)"

definition path_Clean :: "string \<Rightarrow> string" where
  "path_Clean s =
     (if s = '''' then ''.''
      else (let rooted = HasPrefix s ''/''; r = Join ''/'' (clean_parts rooted [] (Split s CHR ''/'')) in
            if rooted then ''/'' @ r else if r = '''' then ''.'' else r))"

text \<open>\<open>strings.Trim\<close> with the cutset of a slash.\<close>

definition trim_slashes :: "string \<Rightarrow> string" where
  "trim_slashes s = trim_right (\<lambda>c. c = CHR ''/'') (trim_left (\<lambda>c. c = CHR ''/'') s)"

definition path_segments :: "string \<Rightarrow> string list" where
  "path_segments s = Split (trim_slashes s) CHR ''/''"

section \<open>Hosts and ports\<close>

definition SplitHostPort :: "string \<Rightarrow> (string \<times> string) option" where
  "SplitHostPort hp = (case LastIndexByte hp CHR '':'' of
       None \<Rightarrow> None
     | Some i \<Rightarrow>
         if HasPrefix hp ''['' then
           (case IndexByte hp CHR '']'' of
              None \<Rightarrow> None
            | Some e \<Rightarrow>
                if e + 1 \<noteq> i then None
                else (let host = take (e - 1) (drop 1 hp); port = drop (i + 1) hp in
                  if CHR ''['' \<in> set (drop 1 hp) \<or> CHR '']'' \<in> set (drop (e + 1) hp) then None else Some (host, port)))
         else (let host = take i hp; port = drop (i + 1) hp in
           if CHR '':'' \<in> set host then None
           else if CHR ''['' \<in> set hp \<or> CHR '']'' \<in> set hp then None
           else Some (host, port)))"

definition JoinHostPort :: "string \<Rightarrow> string \<Rightarrow> string" where
  "JoinHostPort host port = (if CHR '':'' \<in> set host then ''['' @ host @ '']:'' @ port else host @ '':'' @ port)"

section \<open>Percent encoding round trips\<close>

lemma hex_val_upper_hex: "n < 16 \<Longrightarrow> hex_val (upper_hex n) = Some n"
  by (auto simp: upper_hex_def hex_val_def Let_def)

lemma unescape_escape_char: "unescape False (escape_char c @ rest) = map_option ((#) c) (unescape False rest)"
proof (cases "shouldEscape c")
  case True
  have c: "(of_char c :: nat) < 256" using of_char_mod_256 [of c] by (metis mod_less_divisor zero_less_numeral)
  then have "(of_char c :: nat) div 16 < 16" by (simp add: less_mult_imp_div_less)
  then have "hex_val (upper_hex (of_char c div 16)) = Some (of_char c div 16)"
    "hex_val (upper_hex (of_char c mod 16)) = Some (of_char c mod 16)"
    by (auto intro!: hex_val_upper_hex)
  moreover have "char_of (16 * (of_char c div 16) + of_char c mod 16 :: nat) = c" by simp
  ultimately show ?thesis using True by (simp add: escape_char_def)
next
  case False
  then have "c \<noteq> CHR ''%''" by (auto simp: shouldEscape_def is_unreserved_def)
  with False show ?thesis by (simp add: escape_char_def)
qed

lemma unescape_escape_path: "PathUnescape (escape_path s) = Some s"
  unfolding PathUnescape_def escape_path_def
  by (induction s) (simp_all add: unescape_escape_char)

text \<open>However a URL spells its path, decoding the spelling gives the path.\<close>

lemma PathUnescape_EscapedPath: "PathUnescape (EscapedPath u) = Some (bu_Path u)"
  using unescape_escape_path [of "bu_Path u"] by (simp add: EscapedPath_def PathUnescape_def)

end
