(* ===== verification/BrokerGrant.thy ===== *)
theory BrokerGrant
  imports Urls
begin

text \<open>
  The semantic grant of a broker endpoint and its validation (pkg/vmkit/broker_grant.go, \<open>BrokerConfig\<close> of
  pkg/vmkit/types.go). \<open>url.Parse\<close> and \<open>regexp.Compile\<close> are arguments, in the record \<open>grant_lib\<close>.
\<close>

section \<open>Grants\<close>

type_synonym broker_assurance = string

definition BrokerAssuranceSemantic :: broker_assurance where "BrokerAssuranceSemantic = ''semantic''"
definition BrokerAssuranceTrustedUpstream :: broker_assurance where "BrokerAssuranceTrustedUpstream = ''trusted-upstream''"

definition BrokerEffectRead :: string where "BrokerEffectRead = ''read''"
definition BrokerEffectWrite :: string where "BrokerEffectWrite = ''write''"

definition BrokerCredentialDisclosureDenyExact :: string where "BrokerCredentialDisclosureDenyExact = ''deny-exact''"

record value_grant =
  vg_Name :: string
  vg_Required :: bool
  vg_Values :: "string list"
  vg_Pattern :: string
  vg_MaxBytes :: int
  vg_AllowURL :: bool

record json_schema =
  js_Type :: string
  js_Properties :: "(string, string) gomap"
  js_Required :: "string list"
  js_AdditionalProperties :: bool

record body_grant =
  bg_MaxBytes :: int
  bg_ContentTypes :: "string list"
  bg_JSON :: "json_schema option"

record response_grant =
  rg_Statuses :: "int list"
  rg_ContentTypes :: "string list"
  rg_MaxBytes :: int
  rg_JSON :: "json_schema option"
  rg_CredentialDisclosure :: string

record redirect_grant =
  rd_Allow :: bool
  rd_MaxHops :: int
  rd_AllowedOrigins :: "string list"

record operation_grant =
  og_Name :: string
  og_Effect :: string
  og_Method :: string
  og_Route :: string
  og_PathParameters :: "(string, string list) gomap"
  og_Query :: "value_grant list"
  og_Headers :: "value_grant list"
  og_Body :: "body_grant option"
  og_Response :: response_grant

record broker_grant =
  gr_Operations :: "operation_grant list"
  gr_Redirects :: redirect_grant

record secret_ref =
  sr_Name :: string
  sr_Ref :: string

record broker_config =
  bc_Upstream :: string
  bc_Secret :: secret_ref
  bc_GuestListen :: string
  bc_VsockPort :: "32 word"
  bc_Proxy :: bool
  bc_BaseURLEnv :: "(string, string) gomap"
  bc_Capture :: bool
  bc_UpstreamCAFile :: string
  bc_ConnectAllowlist :: "string list"
  bc_Assurance :: broker_assurance
  bc_Grant :: "broker_grant option"

record grant_lib =
  bl_url_Parse :: "string \<Rightarrow> broker_url option"
  bl_Compile :: "string \<Rightarrow> (string \<Rightarrow> bool) option"

datatype grant_error =
    EndpointRequired | BadUpstream | NotHTTPS | GrantRequired | SemanticProxy | TrustedWithGrant | AssuranceRequired | UnknownAssurance string
  | NoOperations | OperationName nat | OperationEffect nat | OperationMethod nat | MaxHops | ParseUpstream | RedirectOrigin string | RedirectDisabled
  | RouteTemplate string | RouteParameter string | RouteSegment string | ParamUndeclared string | ParamValue string string | ParamAllowlist string
  | ValueName string | ForbiddenHeader string | ValueUnconstrained string | PatternMaxBytes string | BadPattern string | HeaderAllowURL string
  | NegativeMaxBytes string
  | BodyMaxBytes | BodyContentTypes | BodyNotJSON | ResponseIncomplete | ResponseStatus int | ResponseDisclosure | ResponseNotJSON
  | SchemaType | SchemaProperty string string | SchemaRequired string

section \<open>Validation\<close>

text \<open>The first error of a sequence of checks.\<close>

definition or_else :: "'e option \<Rightarrow> 'e option \<Rightarrow> 'e option" where
  "or_else a b = (case a of None \<Rightarrow> b | Some e \<Rightarrow> Some e)"

fun first_error :: "('a \<Rightarrow> 'e option) \<Rightarrow> 'a list \<Rightarrow> 'e option" where
  "first_error f [] = None"
| "first_error f (x # xs) = or_else (f x) (first_error f xs)"

lemma or_else_None [simp]: "or_else a b = None \<longleftrightarrow> a = None \<and> b = None"
  by (simp add: or_else_def split: option.split)

lemma first_error_None [simp]: "first_error f xs = None \<longleftrightarrow> (\<forall>x \<in> set xs. f x = None)"
  by (induction xs) auto

definition origin :: "broker_url \<Rightarrow> string" where
  "origin u = ToLower (bu_Scheme u) @ ''://'' @ ToLower (bu_Host u)"

definition is_param :: "string \<Rightarrow> bool" where
  "is_param part \<longleftrightarrow> HasPrefix part ''{'' \<and> HasSuffix part ''}''"

definition param_name :: "string \<Rightarrow> string" where
  "param_name part = TrimSuffix (TrimPrefix part ''{'') ''}''"

text \<open>The segments of a route, with the parameters declared so far.\<close>

fun route_parts :: "string \<Rightarrow> string list \<Rightarrow> string list \<Rightarrow> grant_error + string list" where
  "route_parts route declared [] = Inr declared"
| "route_parts route declared (part # rest) =
     (if is_param part then
        (if param_name part = '''' \<or> param_name part \<in> set declared then Inl (RouteParameter route)
         else route_parts route (param_name part # declared) rest)
      else if CHR ''{'' \<in> set part \<or> CHR ''}'' \<in> set part \<or> part = ''.'' \<or> part = ''..'' then Inl (RouteSegment route)
      else route_parts route declared rest)"

definition param_values_error :: "string list \<Rightarrow> string \<times> string list \<Rightarrow> grant_error option" where
  "param_values_error declared kv = (case kv of (name, vals) \<Rightarrow>
     if name \<notin> set declared \<or> vals = [] then Some (ParamUndeclared name)
     else first_error (\<lambda>v. if v = '''' \<or> CHR ''/'' \<in> set v \<or> v = ''.'' \<or> v = ''..'' then Some (ParamValue name v) else None) vals)"

definition param_list :: "(string, string list) gomap \<Rightarrow> string \<Rightarrow> string list" where
  "param_list m name = (case map_of m name of Some vs \<Rightarrow> vs | None \<Rightarrow> [])"

definition validateRoute :: "string \<Rightarrow> (string, string list) gomap \<Rightarrow> grant_error option" where
  "validateRoute route params =
     (if route = '''' \<or> \<not> HasPrefix route ''/'' \<or> sublist ''//'' route then Some (RouteTemplate route)
      else (case route_parts route [] (path_segments route) of
          Inl e \<Rightarrow> Some e
        | Inr declared \<Rightarrow>
            or_else (first_error (param_values_error declared) params)
              (first_error (\<lambda>name. if param_list params name = [] then Some (ParamAllowlist name) else None) declared)))"

definition forbiddenBrokerRequestHeader :: "string \<Rightarrow> bool" where
  "forbiddenBrokerRequestHeader name \<longleftrightarrow> CanonicalHeaderKey name \<in> set
     [''Connection'', ''Content-Length'', ''Host'', ''Keep-Alive'', ''Proxy-Authenticate'', ''Proxy-Authorization'',
      ''Proxy-Connection'', ''Te'', ''Trailer'', ''Transfer-Encoding'', ''Upgrade'']"

definition anchored :: "string \<Rightarrow> string" where
  "anchored p = ''^(?:'' @ p @ '')$''"

definition value_grant_name :: "bool \<Rightarrow> value_grant \<Rightarrow> string" where
  "value_grant_name header rule = (if header then CanonicalHeaderKey (TrimSpace (vg_Name rule)) else TrimSpace (vg_Name rule))"

definition value_grant_error :: "'x grant_lib_scheme \<Rightarrow> bool \<Rightarrow> value_grant \<Rightarrow> grant_error option" where
  "value_grant_error L header rule =
     (if header \<and> forbiddenBrokerRequestHeader (value_grant_name header rule) then Some (ForbiddenHeader (vg_Name rule))
      else if vg_Values rule = [] \<and> vg_Pattern rule = '''' then Some (ValueUnconstrained (vg_Name rule))
      else if vg_Pattern rule \<noteq> '''' \<and> vg_MaxBytes rule \<le> 0 then Some (PatternMaxBytes (vg_Name rule))
      else if vg_Pattern rule \<noteq> '''' \<and> bl_Compile L (anchored (vg_Pattern rule)) = None then Some (BadPattern (vg_Name rule))
      else if header \<and> vg_AllowURL rule then Some (HeaderAllowURL (vg_Name rule))
      else if vg_MaxBytes rule < 0 then Some (NegativeMaxBytes (vg_Name rule))
      else None)"

fun value_grants_from :: "'x grant_lib_scheme \<Rightarrow> bool \<Rightarrow> string list \<Rightarrow> value_grant list \<Rightarrow> grant_error option" where
  "value_grants_from L header seen [] = None"
| "value_grants_from L header seen (rule # rest) =
     (let name = value_grant_name header rule in
      if name = '''' \<or> name \<in> set seen then Some (ValueName (vg_Name rule))
      else or_else (value_grant_error L header rule) (value_grants_from L header (name # seen) rest))"

definition validateValueGrants :: "'x grant_lib_scheme \<Rightarrow> value_grant list \<Rightarrow> bool \<Rightarrow> grant_error option" where
  "validateValueGrants L grants header = value_grants_from L header [] grants"

definition validBrokerMethod :: "string \<Rightarrow> bool" where
  "validBrokerMethod m \<longleftrightarrow> m \<noteq> '''' \<and> list_all (\<lambda>c. let n = (of_char c :: nat) in 65 \<le> n \<and> n \<le> 90) m"

definition json_kinds :: "string list" where
  "json_kinds = [''string'', ''number'', ''integer'', ''boolean'', ''object'', ''array'', ''null'']"

definition validateJSONSchema :: "json_schema \<Rightarrow> grant_error option" where
  "validateJSONSchema s =
     (if js_Type s \<noteq> ''object'' then Some SchemaType
      else or_else
        (first_error (\<lambda>(name, kind). if name = '''' \<or> kind \<notin> set json_kinds then Some (SchemaProperty name kind) else None) (js_Properties s))
        (first_error (\<lambda>name. if map_of (js_Properties s) name = None then Some (SchemaRequired name) else None) (js_Required s)))"

definition one_json_type :: "string list \<Rightarrow> bool" where
  "one_json_type ts \<longleftrightarrow> length ts = 1 \<and> EqualFold (ts ! 0) ''application/json''"

definition validateBodyGrant :: "body_grant \<Rightarrow> grant_error option" where
  "validateBodyGrant b =
     (if bg_MaxBytes b \<le> 0 then Some BodyMaxBytes
      else if bg_ContentTypes b = [] then Some BodyContentTypes
      else (case bg_JSON b of
          None \<Rightarrow> Some BodyNotJSON
        | Some s \<Rightarrow> if \<not> one_json_type (bg_ContentTypes b) then Some BodyNotJSON else validateJSONSchema s))"

definition validateResponseGrant :: "response_grant \<Rightarrow> grant_error option" where
  "validateResponseGrant r =
     (if rg_Statuses r = [] \<or> rg_ContentTypes r = [] \<or> rg_MaxBytes r \<le> 0 then Some ResponseIncomplete
      else or_else (first_error (\<lambda>st. if st < 100 \<or> st > 599 then Some (ResponseStatus st) else None) (rg_Statuses r))
        (if rg_CredentialDisclosure r \<noteq> BrokerCredentialDisclosureDenyExact then Some ResponseDisclosure
         else (case rg_JSON r of
             None \<Rightarrow> Some ResponseNotJSON
           | Some s \<Rightarrow> if \<not> one_json_type (rg_ContentTypes r) then Some ResponseNotJSON else validateJSONSchema s)))"

definition operation_error :: "'x grant_lib_scheme \<Rightarrow> nat \<Rightarrow> operation_grant \<Rightarrow> grant_error option" where
  "operation_error L i op =
     (if og_Effect op \<noteq> BrokerEffectRead \<and> og_Effect op \<noteq> BrokerEffectWrite then Some (OperationEffect i)
      else if \<not> validBrokerMethod (og_Method op) then Some (OperationMethod i)
      else or_else (validateRoute (og_Route op) (og_PathParameters op))
        (or_else (validateValueGrants L (og_Query op) False)
        (or_else (validateValueGrants L (og_Headers op) True)
        (or_else (case og_Body op of None \<Rightarrow> None | Some b \<Rightarrow> validateBodyGrant b)
           (validateResponseGrant (og_Response op))))))"

fun operations_from :: "'x grant_lib_scheme \<Rightarrow> nat \<Rightarrow> string list \<Rightarrow> operation_grant list \<Rightarrow> grant_error option" where
  "operations_from L i seen [] = None"
| "operations_from L i seen (op # ops) =
     (if TrimSpace (og_Name op) = '''' \<or> og_Name op \<in> set seen then Some (OperationName i)
      else or_else (operation_error L i op) (operations_from L (Suc i) (og_Name op # seen) ops))"

definition origin_error :: "'x grant_lib_scheme \<Rightarrow> string \<Rightarrow> grant_error option" where
  "origin_error L raw = (case bl_url_Parse L raw of
       None \<Rightarrow> Some (RedirectOrigin raw)
     | Some u \<Rightarrow> if bu_Scheme u \<noteq> ''https'' \<or> bu_Host u = '''' \<or> bu_HasUser u \<or> bu_Path u \<noteq> '''' \<or> bu_RawPath u \<noteq> '''' \<or>
           bu_RawQuery u \<noteq> '''' \<or> bu_Fragment u \<noteq> '''' then Some (RedirectOrigin raw) else None)"

definition redirect_error :: "'x grant_lib_scheme \<Rightarrow> string \<Rightarrow> redirect_grant \<Rightarrow> grant_error option" where
  "redirect_error L upstream rd =
     (if rd_Allow rd then
        (if rd_MaxHops rd \<le> 0 then Some MaxHops
         else (case bl_url_Parse L upstream of
             None \<Rightarrow> Some ParseUpstream
           | Some base \<Rightarrow> first_error (origin_error L) (origin base # rd_AllowedOrigins rd)))
      else if rd_MaxHops rd \<noteq> 0 \<or> rd_AllowedOrigins rd \<noteq> [] then Some RedirectDisabled
      else None)"

definition validateBrokerGrant :: "'x grant_lib_scheme \<Rightarrow> string \<Rightarrow> broker_grant \<Rightarrow> grant_error option" where
  "validateBrokerGrant L upstream g =
     (if gr_Operations g = [] then Some NoOperations
      else or_else (operations_from L 1 [] (gr_Operations g)) (redirect_error L upstream (gr_Redirects g)))"

definition ValidateBrokerSecurity :: "'x grant_lib_scheme \<Rightarrow> broker_config option \<Rightarrow> grant_error option" where
  "ValidateBrokerSecurity L cfg = (case cfg of None \<Rightarrow> Some EndpointRequired
     | Some c \<Rightarrow> (case bl_url_Parse L (bc_Upstream c) of None \<Rightarrow> Some BadUpstream
     | Some u \<Rightarrow>
        if (bu_Scheme u \<noteq> ''http'' \<and> bu_Scheme u \<noteq> ''https'') \<or> bu_Host u = '''' \<or> bu_HasUser u then Some BadUpstream
        else if bc_Assurance c = BrokerAssuranceSemantic then
          (if bu_Scheme u \<noteq> ''https'' \<or> bu_RawQuery u \<noteq> '''' \<or> bu_Fragment u \<noteq> '''' \<or> bu_RawPath u \<noteq> '''' \<or>
              (bu_Path u \<noteq> '''' \<and> (path_Clean (bu_Path u) \<noteq> bu_Path u \<or> sublist ''//'' (bu_Path u))) then Some NotHTTPS
           else (case bc_Grant c of
               None \<Rightarrow> Some GrantRequired
             | Some g \<Rightarrow> if bc_Proxy c then Some SemanticProxy else validateBrokerGrant L (bc_Upstream c) g))
        else if bc_Assurance c = BrokerAssuranceTrustedUpstream then
          (if bc_Grant c \<noteq> None then Some TrustedWithGrant else None)
        else if bc_Assurance c = '''' then Some AssuranceRequired
        else Some (UnknownAssurance (bc_Assurance c))))"

section \<open>What a validated grant guarantees\<close>

definition rule_ok :: "'x grant_lib_scheme \<Rightarrow> bool \<Rightarrow> value_grant \<Rightarrow> bool" where
  "rule_ok L header r \<longleftrightarrow> value_grant_name header r \<noteq> '''' \<and> value_grant_error L header r = None"

lemma value_grants_from_None:
  "value_grants_from L header seen rs = None \<longleftrightarrow>
     (\<forall>r \<in> set rs. rule_ok L header r) \<and> distinct (map (value_grant_name header) rs) \<and>
     set (map (value_grant_name header) rs) \<inter> set seen = {}"
  by (induction rs arbitrary: seen) (auto simp: rule_ok_def Let_def)

lemma operations_from_None:
  "operations_from L i seen ops = None \<Longrightarrow>
     (\<forall>op \<in> set ops. \<exists>j. operation_error L j op = None) \<and> distinct (map og_Name ops) \<and>
     set (map og_Name ops) \<inter> set seen = {} \<and> (\<forall>op \<in> set ops. TrimSpace (og_Name op) \<noteq> '''')"
proof (induction ops arbitrary: i seen)
  case (Cons op ops)
  then have "operation_error L i op = None" "operations_from L (Suc i) (og_Name op # seen) ops = None"
    "og_Name op \<notin> set seen" "TrimSpace (og_Name op) \<noteq> ''''" by (auto split: if_splits)
  with Cons.IH [of "Suc i" "og_Name op # seen"] show ?case by auto
qed simp

text \<open>The parameters of a route, as \<open>validateRoute\<close> collects them.\<close>

lemma route_parts_declared:
  "route_parts route declared ps = Inr d \<Longrightarrow>
     set d = set declared \<union> param_name ` set (filter is_param ps) \<and>
     (\<forall>p \<in> set ps. \<not> is_param p \<longrightarrow> CHR ''{'' \<notin> set p \<and> p \<noteq> ''.'' \<and> p \<noteq> ''..'')"
  by (induction ps arbitrary: declared) (auto split: if_splits)

definition route_ok :: "operation_grant \<Rightarrow> bool" where
  "route_ok op \<longleftrightarrow> HasPrefix (og_Route op) ''/'' \<and>
     (\<forall>p \<in> set (path_segments (og_Route op)). if is_param p
        then param_list (og_PathParameters op) (param_name p) \<noteq> [] \<and>
          (\<forall>v \<in> set (param_list (og_PathParameters op) (param_name p)). v \<noteq> '''' \<and> CHR ''/'' \<notin> set v \<and> v \<noteq> ''.'' \<and> v \<noteq> ''..'')
        else p \<noteq> ''.'' \<and> p \<noteq> ''..'')"

lemma validateRoute_ok:
  assumes "validateRoute (og_Route op) (og_PathParameters op) = None"
  shows "route_ok op"
proof -
  let ?r = "og_Route op" and ?m = "og_PathParameters op"
  obtain d where d: "route_parts ?r [] (path_segments ?r) = Inr d" and p: "HasPrefix ?r ''/''"
    and v: "\<forall>kv \<in> set ?m. param_values_error d kv = None" and a: "\<forall>n \<in> set d. param_list ?m n \<noteq> []"
    using assms by (auto simp: validateRoute_def split: if_splits sum.splits)
  note s = route_parts_declared [OF d]
  have vals: "v \<noteq> '''' \<and> CHR ''/'' \<notin> set v \<and> v \<noteq> ''.'' \<and> v \<noteq> ''..''" if "v \<in> set (param_list ?m n)" for n v
  proof -
    from that obtain vs where "(n, vs) \<in> set ?m" "v \<in> set vs"
      by (cases "map_of ?m n") (auto simp: param_list_def dest: map_of_SomeD)
    with v show ?thesis by (fastforce simp: param_values_error_def split: if_splits)
  qed
  have "param_name q \<in> set d" if "q \<in> set (path_segments ?r)" "is_param q" for q
    using s that by auto
  with a vals p s show ?thesis unfolding route_ok_def by auto
qed

definition operation_ok :: "'x grant_lib_scheme \<Rightarrow> operation_grant \<Rightarrow> bool" where
  "operation_ok L op \<longleftrightarrow> route_ok op \<and> validBrokerMethod (og_Method op) \<and>
     (\<forall>r \<in> set (og_Query op). rule_ok L False r) \<and> (\<forall>r \<in> set (og_Headers op). rule_ok L True r) \<and>
     distinct (map (value_grant_name True) (og_Headers op)) \<and>
     (\<forall>b. og_Body op = Some b \<longrightarrow> 0 < bg_MaxBytes b \<and> (\<exists>s. bg_JSON b = Some s \<and> validateJSONSchema s = None)) \<and>
     0 < rg_MaxBytes (og_Response op) \<and> (\<exists>s. rg_JSON (og_Response op) = Some s \<and> validateJSONSchema s = None) \<and>
     (\<forall>st \<in> set (rg_Statuses (og_Response op)). 100 \<le> st \<and> st \<le> 599)"

lemma validateBodyGrant_ok:
  "validateBodyGrant b = None \<Longrightarrow> 0 < bg_MaxBytes b \<and> (\<exists>s. bg_JSON b = Some s \<and> validateJSONSchema s = None)"
  by (simp add: validateBodyGrant_def split: if_splits option.splits)

lemma validateResponseGrant_ok:
  "validateResponseGrant r = None \<Longrightarrow> 0 < rg_MaxBytes r \<and> (\<exists>s. rg_JSON r = Some s \<and> validateJSONSchema s = None) \<and>
     (\<forall>st \<in> set (rg_Statuses r). 100 \<le> st \<and> st \<le> 599)"
  by (fastforce simp: validateResponseGrant_def split: if_splits option.splits)

lemma operation_error_None:
  assumes "operation_error L i op = None"
  shows "operation_ok L op"
proof -
  from assms have "validBrokerMethod (og_Method op)" "validateRoute (og_Route op) (og_PathParameters op) = None"
    "value_grants_from L False [] (og_Query op) = None" "value_grants_from L True [] (og_Headers op) = None"
    "\<forall>b. og_Body op = Some b \<longrightarrow> validateBodyGrant b = None" "validateResponseGrant (og_Response op) = None"
    by (simp_all add: operation_error_def validateValueGrants_def split: if_splits option.splits)
  then show ?thesis
    using validateRoute_ok validateBodyGrant_ok validateResponseGrant_ok
    unfolding operation_ok_def value_grants_from_None by blast
qed

definition grant_ok :: "'x grant_lib_scheme \<Rightarrow> broker_grant \<Rightarrow> bool" where
  "grant_ok L g \<longleftrightarrow> gr_Operations g \<noteq> [] \<and> distinct (map og_Name (gr_Operations g)) \<and>
     (\<forall>op \<in> set (gr_Operations g). operation_ok L op) \<and>
     (\<forall>raw \<in> set (rd_AllowedOrigins (gr_Redirects g)). rd_Allow (gr_Redirects g) \<and>
        (\<exists>u. bl_url_Parse L raw = Some u \<and> bu_Scheme u = ''https''))"

lemma redirect_error_None:
  "redirect_error L upstream rd = None \<Longrightarrow> raw \<in> set (rd_AllowedOrigins rd) \<Longrightarrow>
     rd_Allow rd \<and> (\<exists>u. bl_url_Parse L raw = Some u \<and> bu_Scheme u = ''https'')"
  by (auto simp: redirect_error_def origin_error_def split: if_splits option.splits)

lemma validateBrokerGrant_ok:
  assumes "validateBrokerGrant L upstream g = None"
  shows "grant_ok L g"
proof -
  from assms have "gr_Operations g \<noteq> []" "operations_from L 1 [] (gr_Operations g) = None"
    "redirect_error L upstream (gr_Redirects g) = None"
    by (auto simp: validateBrokerGrant_def split: if_splits)
  with operations_from_None [OF this(2)] operation_error_None redirect_error_None [OF this(3)]
  show ?thesis unfolding grant_ok_def by blast
qed

lemma ValidateBrokerSecurity_semantic:
  assumes "ValidateBrokerSecurity L (Some c) = None" "bc_Assurance c = BrokerAssuranceSemantic"
  shows "\<exists>u g. bl_url_Parse L (bc_Upstream c) = Some u \<and> bu_Scheme u = ''https'' \<and> \<not> bu_HasUser u \<and> \<not> bc_Proxy c \<and>
    bc_Grant c = Some g \<and> grant_ok L g"
  using assms validateBrokerGrant_ok
  by (auto simp: ValidateBrokerSecurity_def split: if_splits option.splits)

end
