(* ===== verification/Semantic.thy ===== *)
theory Semantic
  imports BrokerGrant
begin

text \<open>
  Matching a request, a redirect and a response against the semantic grant (pkg/broker/semantic.go). JSON decoding,
  \<open>mime.ParseMediaType\<close> and SHA-256 are arguments, in the record \<open>sem_lib\<close>, which extends \<open>grant_lib\<close>. A panic of
  \<open>regexp.MustCompile\<close> is \<^term>\<open>None\<close> of the type \<open>go\<close>.
\<close>

section \<open>Arguments\<close>

datatype jvalue = JNull | JBool bool | JNumber string | JString string | JArray "jvalue list" | JObject "(string \<times> jvalue) list"

text \<open>\<open>bl_json\<close> is the first value of a body, and whether another \<open>Decode\<close> then meets the end of the input.\<close>

record sem_lib = grant_lib +
  bl_ParseMediaType :: "string \<Rightarrow> string option"
  bl_json :: "bytes \<Rightarrow> (jvalue \<times> bool) option"
  bl_sha256 :: "string \<Rightarrow> string"

datatype value_error = NotDeclared string | NotOnce string | TooLong string | URLShaped string | NotAllowed string
  | PatternMismatch string | Missing string

datatype match_error = GrantAbsent | BadQuery | Ambiguous string string | OutsideGrant

datatype body_error = BodyTooLong | BodyRead string | BodyUndeclared | BadMedia string | BadJSON | MultipleJSON | NotObject
  | PropertyAbsent string | PropertyUndeclared string | PropertyKind string string

datatype request_error = NoMatch match_error | BadHeaders value_error | BadBody body_error

section \<open>Routes\<close>

definition segment_matches :: "(string, string list) gomap \<Rightarrow> string \<Rightarrow> string \<Rightarrow> bool" where
  "segment_matches allowed want got \<longleftrightarrow>
     (if is_param want then got \<in> set (param_list allowed (param_name want)) else want = got)"

definition matchRoute :: "string \<Rightarrow> (string, string list) gomap \<Rightarrow> string \<Rightarrow> bool" where
  "matchRoute template allowed escapedPath = (case PathUnescape escapedPath of None \<Rightarrow> False
     | Some decoded \<Rightarrow>
         if \<not> HasPrefix decoded ''/'' \<or> path_Clean decoded \<noteq> decoded then False
         else list_all2 (segment_matches allowed) (path_segments template) (path_segments decoded))"

definition selected_params :: "string list \<Rightarrow> string list \<Rightarrow> (string \<times> string) list" where
  "selected_params template actual = map (\<lambda>(s, v). (param_name s, v)) (filter (\<lambda>(s, v). is_param s) (zip template actual))"

definition nul :: string where "nul = [CHR 0x00]"

definition originOf :: "broker_url \<Rightarrow> string" where
  "originOf u = ToLower (bu_Scheme u) @ ''://'' @ ToLower (bu_Host u)"

definition semanticResourceDigest :: "'x sem_lib_scheme \<Rightarrow> operation_grant option \<Rightarrow> broker_url option \<Rightarrow> string" where
  "semanticResourceDigest L op target = (case (op, target) of
       (Some op, Some target) \<Rightarrow> (case PathUnescape (EscapedPath target) of None \<Rightarrow> ''''
         | Some decoded \<Rightarrow>
             if path_Clean decoded \<noteq> decoded then ''''
             else (let template = path_segments (og_Route op); actual = path_segments decoded in
               if length template \<noteq> length actual then ''''
               else (let sel = selected_params template actual in
                 if sel = [] then ''''
                 else ''sha256:'' @ bl_sha256 L (originOf target @ concat (map (\<lambda>(n, v). nul @ n @ nul @ v) sel)))))
     | _ \<Rightarrow> '''')"

section \<open>Values\<close>

definition hopByHop :: "string list" where
  "hopByHop = [''Connection'', ''Proxy-Connection'', ''Keep-Alive'', ''Proxy-Authenticate'', ''Proxy-Authorization'', ''Te'',
     ''Trailer'', ''Transfer-Encoding'', ''Upgrade'']"

fun headerValues_from :: "header \<Rightarrow> url_values \<Rightarrow> url_values" where
  "headerValues_from [] acc = acc"
| "headerValues_from ((name, vals) # rest) acc =
     (let canonical = CanonicalHeaderKey name in
      if canonical \<in> set hopByHop \<or> canonical = ''Content-Length'' \<or> canonical = ''Host'' then headerValues_from rest acc
      else headerValues_from rest (AList.update canonical vals acc))"

definition headerValues :: "header \<Rightarrow> url_values" where
  "headerValues h = headerValues_from h []"

fun isURLValue_loop :: "'x grant_lib_scheme \<Rightarrow> nat \<Rightarrow> string \<Rightarrow> bool" where
  "isURLValue_loop L 0 candidate = False"
| "isURLValue_loop L (Suc n) candidate =
     (if HasPrefix candidate ''//'' \<or> HasPrefix candidate [CHR 0x5C, CHR 0x5C] then True
      else if (case bl_url_Parse L candidate of Some u \<Rightarrow> bu_Scheme u \<noteq> '''' | None \<Rightarrow> False) then True
      else (case QueryUnescape candidate of
          None \<Rightarrow> False
        | Some decoded \<Rightarrow> if decoded = candidate then False else isURLValue_loop L n (TrimSpace decoded)))"

definition isURLValue :: "'x grant_lib_scheme \<Rightarrow> string \<Rightarrow> bool" where
  "isURLValue L v = isURLValue_loop L 4 (TrimSpace v)"

definition rule_key :: "bool \<Rightarrow> string \<Rightarrow> string" where
  "rule_key header name = (if header then CanonicalHeaderKey name else name)"

definition byName :: "bool \<Rightarrow> value_grant list \<Rightarrow> (string, value_grant) gomap" where
  "byName header rules = fold (\<lambda>r. AList.update (rule_key header (vg_Name r)) r) rules []"

text \<open>One value against its rule; compiling the pattern again may panic.\<close>

definition value_check :: "'x grant_lib_scheme \<Rightarrow> bool \<Rightarrow> value_grant \<Rightarrow> string \<Rightarrow> string \<Rightarrow> value_error option go" where
  "value_check L header rule name v =
     (if vg_MaxBytes rule > 0 \<and> int (length v) > vg_MaxBytes rule then Some (Some (TooLong name))
      else if \<not> vg_AllowURL rule \<and> \<not> header \<and> isURLValue L v then Some (Some (URLShaped name))
      else if vg_Values rule \<noteq> [] \<and> v \<notin> set (vg_Values rule) then Some (Some (NotAllowed name))
      else if vg_Pattern rule = '''' then Some None
      else (case bl_Compile L (anchored (vg_Pattern rule)) of
          None \<Rightarrow> None
        | Some re \<Rightarrow> Some (if re v then None else Some (PatternMismatch name))))"

definition one_value :: "'x grant_lib_scheme \<Rightarrow> bool \<Rightarrow> (string, value_grant) gomap \<Rightarrow> string \<Rightarrow> string list \<Rightarrow> value_error option go" where
  "one_value L header rules name vals = (case map_of rules (rule_key header name) of
       None \<Rightarrow> Some (Some (NotDeclared name))
     | Some rule \<Rightarrow> (case vals of [v] \<Rightarrow> value_check L header rule name v | _ \<Rightarrow> Some (Some (NotOnce name))))"

fun values_loop :: "'x grant_lib_scheme \<Rightarrow> bool \<Rightarrow> (string, value_grant) gomap \<Rightarrow> url_values \<Rightarrow> value_error option go" where
  "values_loop L header rules [] = Some None"
| "values_loop L header rules ((name, vals) # rest) = do {
     e \<leftarrow> one_value L header rules name vals;
     (case e of Some err \<Rightarrow> Some (Some err) | None \<Rightarrow> values_loop L header rules rest) }"

definition matchValues :: "'x grant_lib_scheme \<Rightarrow> value_grant list \<Rightarrow> url_values \<Rightarrow> bool \<Rightarrow> value_error option go" where
  "matchValues L rules vals header = do {
     let m = byName header rules;
     e \<leftarrow> values_loop L header m vals;
     (case e of
        Some err \<Rightarrow> Some (Some err)
      | None \<Rightarrow> Some (first_error (\<lambda>(name, rule).
          if vg_Required rule \<and> (case map_of vals name of Some vs \<Rightarrow> vs = [] | None \<Rightarrow> True) then Some (Missing (vg_Name rule)) else None) m)) }"

section \<open>Operations\<close>

definition op_matches :: "'x grant_lib_scheme \<Rightarrow> string \<Rightarrow> broker_url \<Rightarrow> url_values \<Rightarrow> operation_grant \<Rightarrow> bool go" where
  "op_matches L meth target query op =
     (if og_Method op \<noteq> meth then Some False
      else if \<not> matchRoute (og_Route op) (og_PathParameters op) (EscapedPath target) then Some False
      else map_option (\<lambda>e. e = None) (matchValues L (og_Query op) query False))"

fun match_loop :: "'x grant_lib_scheme \<Rightarrow> string \<Rightarrow> broker_url \<Rightarrow> url_values \<Rightarrow> operation_grant option \<Rightarrow> operation_grant list \<Rightarrow>
    (match_error + operation_grant) go" where
  "match_loop L meth target query matched [] =
     Some (case matched of Some op \<Rightarrow> Inr op | None \<Rightarrow> Inl OutsideGrant)"
| "match_loop L meth target query matched (op # ops) = do {
     m \<leftarrow> op_matches L meth target query op;
     if \<not> m then match_loop L meth target query matched ops
     else (case matched of
         Some prev \<Rightarrow> Some (Inl (Ambiguous (og_Name prev) (og_Name op)))
       | None \<Rightarrow> match_loop L meth target query (Some op) ops) }"

definition matchSemanticOperation ::
  "'x grant_lib_scheme \<Rightarrow> broker_grant option \<Rightarrow> string \<Rightarrow> broker_url \<Rightarrow> (match_error + operation_grant) go" where
  "matchSemanticOperation L grant meth target = (case grant of None \<Rightarrow> Some (Inl GrantAbsent)
     | Some g \<Rightarrow> (case ParseQuery (bu_RawQuery target) of None \<Rightarrow> Some (Inl BadQuery)
     | Some query \<Rightarrow> match_loop L meth target query None (gr_Operations g)))"

section \<open>Bodies\<close>

text \<open>A body yields its bytes and then ends, or fails with an error.\<close>

record body_stream =
  bs_data :: bytes
  bs_err :: "string option"

text \<open>\<open>io.ReadAll\<close> of \<open>io.LimitReader\<close>, whose limit is an \<open>int64\<close>.\<close>

definition read_limited :: "body_stream \<Rightarrow> int \<Rightarrow> string + bytes" where
  "read_limited b lim = (let data = take (nat lim) (bs_data b) in
     case bs_err b of Some e \<Rightarrow> if int (length (bs_data b)) < lim then Inl e else Inr data | None \<Rightarrow> Inr data)"

definition readRequestBody :: "body_stream option \<Rightarrow> int \<Rightarrow> body_grant option \<Rightarrow> body_error + bytes" where
  "readRequestBody body contentLength grant = (case body of None \<Rightarrow> Inr []
     | Some b \<Rightarrow>
        (let max = (case grant of Some g \<Rightarrow> bg_MaxBytes g | None \<Rightarrow> 0) in
         if contentLength > max then Inl BodyTooLong
         else (case read_limited b (wrap64 (max + 1)) of
             Inl e \<Rightarrow> Inl (BodyRead e)
           | Inr data \<Rightarrow> if int (length data) > max then Inl BodyTooLong
               else if data \<noteq> [] \<and> grant = None then Inl BodyUndeclared
               else Inr data)))"

definition jsonKind :: "jvalue \<Rightarrow> string \<Rightarrow> bool" where
  "jsonKind v kind = (case v of
       JString _ \<Rightarrow> kind = ''string''
     | JNumber n \<Rightarrow> kind = ''number'' \<or> kind = ''integer'' \<and> CHR ''.'' \<notin> set n \<and> CHR ''e'' \<notin> set n \<and> CHR ''E'' \<notin> set n
     | JBool _ \<Rightarrow> kind = ''boolean''
     | JObject _ \<Rightarrow> kind = ''object''
     | JArray _ \<Rightarrow> kind = ''array''
     | JNull \<Rightarrow> kind = ''null'')"

definition property_error :: "json_schema \<Rightarrow> string \<times> jvalue \<Rightarrow> body_error option" where
  "property_error s nv = (case nv of (name, v) \<Rightarrow> (case map_of (js_Properties s) name of
       None \<Rightarrow> if js_AdditionalProperties s then None else Some (PropertyUndeclared name)
     | Some kind \<Rightarrow> if jsonKind v kind then None else Some (PropertyKind name kind)))"

definition validateJSONObject :: "'x sem_lib_scheme \<Rightarrow> bytes \<Rightarrow> json_schema \<Rightarrow> body_error option" where
  "validateJSONObject L body s = (case bl_json L body of None \<Rightarrow> Some BadJSON
     | Some (v, eof) \<Rightarrow>
        if \<not> eof then Some MultipleJSON
        else (case v of
            JObject obj \<Rightarrow> or_else
              (first_error (\<lambda>name. if map_of obj name = None then Some (PropertyAbsent name) else None) (js_Required s))
              (first_error (property_error s) obj)
          | _ \<Rightarrow> Some NotObject))"

definition validateMediaAndJSON :: "'x sem_lib_scheme \<Rightarrow> string \<Rightarrow> bytes \<Rightarrow> string list \<Rightarrow> json_schema option \<Rightarrow> body_error option" where
  "validateMediaAndJSON L rawContentType body allowed schema = (case bl_ParseMediaType L rawContentType of
       None \<Rightarrow> Some (BadMedia rawContentType)
     | Some mediaType \<Rightarrow>
         if \<not> list_ex (\<lambda>v. EqualFold v mediaType) allowed then Some (BadMedia rawContentType)
         else (case schema of None \<Rightarrow> None | Some s \<Rightarrow> validateJSONObject L body s))"

text \<open>The operation is returned even when the request is refused after it was matched.\<close>

definition authorizeSemanticRequest ::
  "'x sem_lib_scheme \<Rightarrow> broker_grant option \<Rightarrow> string \<Rightarrow> header \<Rightarrow> body_stream option \<Rightarrow> int \<Rightarrow> broker_url \<Rightarrow>
   (operation_grant option \<times> (request_error + bytes)) go" where
  "authorizeSemanticRequest L grant meth hdr body contentLength effectiveURL = do {
     m \<leftarrow> matchSemanticOperation L grant meth effectiveURL;
     (case m of
        Inl e \<Rightarrow> Some (None, Inl (NoMatch e))
      | Inr op \<Rightarrow> do {
          he \<leftarrow> matchValues L (og_Headers op) (headerValues hdr) True;
          Some (Some op, (case he of
             Some e \<Rightarrow> Inl (BadHeaders e)
           | None \<Rightarrow> (case readRequestBody body contentLength (og_Body op) of
                 Inl e \<Rightarrow> Inl (BadBody e)
               | Inr data \<Rightarrow> (case og_Body op of
                     None \<Rightarrow> Inr data
                   | Some b \<Rightarrow> (case validateMediaAndJSON L (Header_Get hdr ''Content-Type'') data (bg_ContentTypes b) (bg_JSON b) of
                         Some e \<Rightarrow> Inl (BadBody e)
                       | None \<Rightarrow> Inr data))))) }) }"

section \<open>Responses and redirects\<close>

definition responseContainsSecret :: "header \<Rightarrow> bytes \<Rightarrow> string list \<Rightarrow> bool" where
  "responseContainsSecret hdr body secrets \<longleftrightarrow> list_ex (\<lambda>secret. secret \<noteq> '''' \<and>
     (sublist (go_bytes secret) body \<or>
      list_ex (\<lambda>(name, vals). sublist secret name \<or> list_ex (\<lambda>v. sublist secret v) vals) hdr)) secrets"

datatype redirect_denial = RedirectsOff | TooManyHops | BadOrigin | BadOperation match_error | NotBodyless | BodyDeclared | BodyOrigin
  | RedirectHeaders value_error

text \<open>
  One call of the closure \<open>redirectPolicy\<close> returns: \<open>previousOp\<close> is its state, \<open>via\<close> the methods of the
  requests made so far. An authorised hop gives the operation; its request carries exactly the headers of the first one.
\<close>

definition redirectPolicy ::
  "'x sem_lib_scheme \<Rightarrow> broker_grant \<Rightarrow> broker_url \<Rightarrow> operation_grant option \<Rightarrow> header \<Rightarrow> string \<Rightarrow> broker_url \<Rightarrow> string list \<Rightarrow>
   (redirect_denial + operation_grant) go" where
  "redirectPolicy L grant base previousOp preSwapHeaders meth target via =
     (if \<not> rd_Allow (gr_Redirects grant) then Some (Inl RedirectsOff)
      else if int (length via) > rd_MaxHops (gr_Redirects grant) then Some (Inl TooManyHops)
      else if \<not> list_ex (\<lambda>v. EqualFold v (originOf target)) (originOf base # rd_AllowedOrigins (gr_Redirects grant)) then Some (Inl BadOrigin)
      else do {
        m \<leftarrow> matchSemanticOperation L (Some grant) meth target;
        (case m of
           Inl e \<Rightarrow> Some (Inl (BadOperation e))
         | Inr op \<Rightarrow>
             if meth \<noteq> ''GET'' \<and> meth \<noteq> ''HEAD'' then Some (Inl NotBodyless)
             else if og_Body op \<noteq> None \<or> (case previousOp of None \<Rightarrow> True | Some p \<Rightarrow> og_Body p \<noteq> None) then Some (Inl BodyDeclared)
             else if \<not> list_all (\<lambda>m. m = ''GET'' \<or> m = ''HEAD'') via then Some (Inl BodyOrigin)
             else do {
               he \<leftarrow> matchValues L (og_Headers op) (headerValues preSwapHeaders) True;
               Some (case he of Some e \<Rightarrow> Inl (RedirectHeaders e) | None \<Rightarrow> Inr op) }) })"

section \<open>Values: declared, once, constrained\<close>

definition value_ok :: "'x grant_lib_scheme \<Rightarrow> bool \<Rightarrow> value_grant \<Rightarrow> string \<Rightarrow> bool" where
  "value_ok L header rule v \<longleftrightarrow> (vg_MaxBytes rule > 0 \<longrightarrow> int (length v) \<le> vg_MaxBytes rule) \<and>
     (vg_AllowURL rule \<or> header \<or> \<not> isURLValue L v) \<and> (vg_Values rule = [] \<or> v \<in> set (vg_Values rule)) \<and>
     (vg_Pattern rule = '''' \<or> (\<exists>re. bl_Compile L (anchored (vg_Pattern rule)) = Some re \<and> re v))"

lemma value_check_None: "value_check L header rule name v = Some None \<longleftrightarrow> value_ok L header rule v"
  by (auto simp: value_check_def value_ok_def split: option.splits)

lemma value_check_total: "rule_ok L header rule \<Longrightarrow> \<exists>e. value_check L header' rule name v = Some e"
  by (auto simp: value_check_def rule_ok_def value_grant_error_def split: option.splits if_splits)

lemma byName_fold_range:
  "map_of (fold (\<lambda>r. AList.update (rule_key header (vg_Name r)) r) rules acc) k = Some rule \<Longrightarrow>
     rule \<in> set rules \<and> k = rule_key header (vg_Name rule) \<or> map_of acc k = Some rule"
proof (induction rules arbitrary: acc)
  case (Cons r rules)
  from Cons.IH [of "AList.update (rule_key header (vg_Name r)) r acc"] Cons.prems show ?case
    by (auto simp: update_Some_unfold split: if_splits)
qed simp

lemma byName_range: "map_of (byName header rules) k = Some rule \<Longrightarrow> rule \<in> set rules \<and> k = rule_key header (vg_Name rule)"
  using byName_fold_range [where acc = "[]"] by (auto simp: byName_def)

lemma one_value_total:
  assumes "\<forall>r \<in> set rules. rule_ok L header r"
  shows "\<exists>e. one_value L header (byName header rules) name vals = Some e"
proof (cases "map_of (byName header rules) (rule_key header name)")
  case (Some rule)
  then have "rule_ok L header rule" using assms byName_range by blast
  with Some value_check_total show ?thesis by (auto simp: one_value_def split: list.splits)
qed (simp add: one_value_def)

lemma values_loop_total:
  "\<forall>r \<in> set rules. rule_ok L header r \<Longrightarrow> \<exists>e. values_loop L header (byName header rules) vals = Some e"
proof (induction vals)
  case (Cons kv vals)
  obtain k vs where kv: "kv = (k, vs)" by (cases kv)
  obtain e where "one_value L header (byName header rules) k vs = Some e" using one_value_total [OF Cons.prems] by blast
  with Cons show ?case by (cases e) (simp_all add: kv)
qed simp

lemma matchValues_total:
  assumes "\<forall>r \<in> set rules. rule_ok L header r"
  shows "\<exists>e. matchValues L rules vals header = Some e"
proof -
  obtain e where "values_loop L header (byName header rules) vals = Some e" using values_loop_total [OF assms] by blast
  then show ?thesis by (cases e) (simp_all add: matchValues_def)
qed

definition declared :: "'x grant_lib_scheme \<Rightarrow> bool \<Rightarrow> value_grant list \<Rightarrow> string \<Rightarrow> string list \<Rightarrow> bool" where
  "declared L header rules name vals \<longleftrightarrow> (\<exists>rule \<in> set rules. \<exists>v. vals = [v] \<and> rule_key header (vg_Name rule) = rule_key header name \<and>
     value_ok L header rule v)"

lemma one_value_declared:
  assumes "one_value L header (byName header rules) name vals = Some None"
  shows "declared L header rules name vals"
proof -
  obtain rule where r: "map_of (byName header rules) (rule_key header name) = Some rule"
    using assms by (cases "map_of (byName header rules) (rule_key header name)") (auto simp: one_value_def)
  moreover obtain v where "vals = [v]" "value_check L header rule name v = Some None"
    using assms r by (auto simp: one_value_def split: list.splits)
  ultimately show ?thesis using byName_range [OF r] by (auto simp: declared_def value_check_None)
qed

lemma values_loop_declared:
  "values_loop L header (byName header rules) vals = Some None \<Longrightarrow> (name, vs) \<in> set vals \<Longrightarrow> declared L header rules name vs"
proof (induction vals)
  case (Cons kv vals)
  obtain k ws where kv: "kv = (k, ws)" by (cases kv)
  obtain e where e: "one_value L header (byName header rules) k ws = Some e"
    using Cons.prems(1) by (cases "one_value L header (byName header rules) k ws") (simp_all add: kv)
  with Cons.prems(1) have "e = None" "values_loop L header (byName header rules) vals = Some None"
    by (auto simp: kv split: option.splits)
  with Cons e show ?case using one_value_declared by (auto simp: kv)
qed simp

text \<open>What a successful match means: nothing undeclared, nothing twice, nothing unconstrained, nothing required left out.\<close>

lemma matchValues_None:
  assumes "matchValues L rules vals header = Some None"
  shows "\<forall>(name, vs) \<in> set vals. declared L header rules name vs"
    and "map_of (byName header rules) name = Some rule \<Longrightarrow> vg_Required rule \<Longrightarrow> \<exists>vs. map_of vals name = Some vs \<and> vs \<noteq> []"
proof -
  obtain e where e: "values_loop L header (byName header rules) vals = Some e"
    using assms by (cases "values_loop L header (byName header rules) vals") (simp_all add: matchValues_def)
  with assms have n: "e = None" by (auto simp: matchValues_def split: option.splits)
  with e show "\<forall>(name, vs) \<in> set vals. declared L header rules name vs" using values_loop_declared by blast
  assume "map_of (byName header rules) name = Some rule" "vg_Required rule"
  then have "(name, rule) \<in> set (byName header rules)" by (simp add: map_of_SomeD)
  with assms e n \<open>vg_Required rule\<close> show "\<exists>vs. map_of vals name = Some vs \<and> vs \<noteq> []"
    by (fastforce simp: matchValues_def split: if_splits option.splits)
qed

section \<open>Operations: exactly one\<close>

lemma op_matches_total:
  "operation_ok L op \<Longrightarrow> \<exists>b. op_matches L meth target query op = Some b"
  using matchValues_total [of "og_Query op" L False query] by (auto simp: op_matches_def operation_ok_def)

definition is_match :: "'x grant_lib_scheme \<Rightarrow> string \<Rightarrow> broker_url \<Rightarrow> url_values \<Rightarrow> operation_grant \<Rightarrow> bool" where
  "is_match L meth target query op \<longleftrightarrow> op_matches L meth target query op = Some True"

lemma match_loop_total:
  "\<forall>op \<in> set ops. operation_ok L op \<Longrightarrow> \<exists>r. match_loop L meth target query matched ops = Some r"
proof (induction ops arbitrary: matched)
  case (Cons op ops)
  obtain b where "op_matches L meth target query op = Some b" using Cons.prems op_matches_total by fastforce
  with Cons show ?case by (cases b; cases matched) simp_all
qed simp

lemma match_loop_Inr:
  "match_loop L meth target query matched ops = Some (Inr op) \<Longrightarrow>
     (case matched of None \<Rightarrow> filter (is_match L meth target query) ops = [op]
      | Some prev \<Rightarrow> prev = op \<and> filter (is_match L meth target query) ops = [])"
proof (induction ops arbitrary: matched)
  case (Cons o1 ops)
  then obtain b where "op_matches L meth target query o1 = Some b"
    by (cases "op_matches L meth target query o1") simp_all
  with Cons show ?case by (cases b; cases matched) (fastforce simp: is_match_def)+
qed (simp split: option.splits)

lemma matchSemanticOperation_total:
  "grant_ok L g \<Longrightarrow> \<exists>r. matchSemanticOperation L (Some g) meth target = Some r"
  by (simp add: matchSemanticOperation_def grant_ok_def match_loop_total split: option.splits)

lemma is_match_spec:
  "is_match L meth target query op \<Longrightarrow> og_Method op = meth \<and>
     matchRoute (og_Route op) (og_PathParameters op) (EscapedPath target) \<and> matchValues L (og_Query op) query False = Some None"
  by (auto simp: is_match_def op_matches_def split: if_splits)

definition granted_op :: "'x grant_lib_scheme \<Rightarrow> broker_grant \<Rightarrow> string \<Rightarrow> broker_url \<Rightarrow> operation_grant \<Rightarrow> bool" where
  "granted_op L g meth target op \<longleftrightarrow> (\<exists>query. ParseQuery (bu_RawQuery target) = Some query \<and>
     filter (is_match L meth target query) (gr_Operations g) = [op])"

lemma matchSemanticOperation_Inr:
  "matchSemanticOperation L (Some g) meth target = Some (Inr op) \<Longrightarrow> granted_op L g meth target op"
  by (auto simp: matchSemanticOperation_def granted_op_def split: option.splits dest: match_loop_Inr)

lemma granted_op_in: "granted_op L g meth target op \<Longrightarrow> op \<in> set (gr_Operations g)"
proof -
  assume "granted_op L g meth target op"
  then obtain q where "filter (is_match L meth target q) (gr_Operations g) = [op]" by (auto simp: granted_op_def)
  then have "op \<in> set (filter (is_match L meth target q) (gr_Operations g))" by simp
  then show ?thesis by simp
qed

text \<open>A granted path is clean and segment by segment what the route and its namespaces list.\<close>

lemma matchRoute_path:
  assumes "matchRoute (og_Route op) (og_PathParameters op) (EscapedPath target)"
  shows "HasPrefix (bu_Path target) ''/'' \<and> path_Clean (bu_Path target) = bu_Path target \<and>
    list_all2 (segment_matches (og_PathParameters op)) (path_segments (og_Route op)) (path_segments (bu_Path target))"
  using assms by (simp add: matchRoute_def PathUnescape_EscapedPath split: if_splits)

section \<open>Requests and redirects\<close>

definition headers_ok :: "'x grant_lib_scheme \<Rightarrow> operation_grant \<Rightarrow> header \<Rightarrow> bool" where
  "headers_ok L op hdr \<longleftrightarrow> matchValues L (og_Headers op) (headerValues hdr) True = Some None"

definition body_ok :: "'x sem_lib_scheme \<Rightarrow> operation_grant \<Rightarrow> header \<Rightarrow> bytes \<Rightarrow> bool" where
  "body_ok L op hdr data \<longleftrightarrow> (case og_Body op of None \<Rightarrow> data = []
     | Some b \<Rightarrow> int (length data) \<le> bg_MaxBytes b \<and>
         validateMediaAndJSON L (Header_Get hdr ''Content-Type'') data (bg_ContentTypes b) (bg_JSON b) = None)"

lemma matchSemanticOperation_cases:
  assumes "grant_ok L g"
  obtains (no) e where "matchSemanticOperation L (Some g) meth target = Some (Inl e)"
  | (yes) op where "matchSemanticOperation L (Some g) meth target = Some (Inr op)" "granted_op L g meth target op"
      "operation_ok L op"
proof -
  obtain r where r: "matchSemanticOperation L (Some g) meth target = Some r"
    using matchSemanticOperation_total [OF assms] by blast
  show thesis
  proof (cases r)
    case (Inr op)
    then have "granted_op L g meth target op" using r matchSemanticOperation_Inr by blast
    with assms granted_op_in have "operation_ok L op" unfolding grant_ok_def by blast
    with yes r Inr \<open>granted_op L g meth target op\<close> show thesis by blast
  qed (use no r in blast)
qed

lemma headers_total: "operation_ok L op \<Longrightarrow> \<exists>e. matchValues L (og_Headers op) vals True = Some e"
  by (simp add: operation_ok_def matchValues_total)

lemma readRequestBody_Inr:
  assumes "readRequestBody body cl grant = Inr data"
  shows "case grant of None \<Rightarrow> data = [] | Some b \<Rightarrow> data = [] \<or> int (length data) \<le> bg_MaxBytes b"
  using assms by (auto simp: readRequestBody_def Let_def split: option.splits sum.splits if_splits)

lemma authorize_total:
  assumes "grant_ok L g"
  shows "\<exists>r. authorizeSemanticRequest L (Some g) meth hdr body cl target = Some r"
  using assms
proof (cases rule: matchSemanticOperation_cases [where meth = meth and target = target])
  case (yes op)
  then obtain e where "matchValues L (og_Headers op) (headerValues hdr) True = Some e" using headers_total by blast
  with yes show ?thesis by (simp add: authorizeSemanticRequest_def)
qed (simp_all add: authorizeSemanticRequest_def)

lemma authorize_Inr:
  assumes "grant_ok L g" "authorizeSemanticRequest L (Some g) meth hdr body cl target = Some (sop, Inr data)"
  shows "\<exists>op. sop = Some op \<and> granted_op L g meth target op \<and> operation_ok L op \<and> headers_ok L op hdr \<and> body_ok L op hdr data"
  using assms(1)
proof (cases rule: matchSemanticOperation_cases [where meth = meth and target = target])
  case (no e)
  then show ?thesis using assms(2) by (simp add: authorizeSemanticRequest_def)
next
  case (yes op)
  then obtain he where he: "matchValues L (og_Headers op) (headerValues hdr) True = Some he" using headers_total by blast
  with yes assms(2) have r: "sop = Some op" "he = None" and b: "readRequestBody body cl (og_Body op) = Inr data"
    and v: "\<forall>b. og_Body op = Some b \<longrightarrow> validateMediaAndJSON L (Header_Get hdr ''Content-Type'') data (bg_ContentTypes b) (bg_JSON b) = None"
    by (auto simp: authorizeSemanticRequest_def split: option.splits sum.splits)
  have "body_ok L op hdr data"
    using readRequestBody_Inr [OF b] v yes(3) by (auto simp: body_ok_def operation_ok_def split: option.splits)
  with yes he r show ?thesis by (auto simp: headers_ok_def)
qed

text \<open>What an authorised redirect is.\<close>

definition redirect_ok :: "'x sem_lib_scheme \<Rightarrow> broker_grant \<Rightarrow> broker_url \<Rightarrow> header \<Rightarrow> string \<Rightarrow> broker_url \<Rightarrow> operation_grant \<Rightarrow> bool" where
  "redirect_ok L g base pre meth target op \<longleftrightarrow> rd_Allow (gr_Redirects g) \<and>
     (EqualFold (originOf base) (originOf target) \<or> (\<exists>v \<in> set (rd_AllowedOrigins (gr_Redirects g)). EqualFold v (originOf target))) \<and>
     granted_op L g meth target op \<and> (meth = ''GET'' \<or> meth = ''HEAD'') \<and> og_Body op = None \<and> headers_ok L op pre"

lemma redirect_total:
  assumes "grant_ok L g"
  shows "\<exists>r. redirectPolicy L g base prev pre meth target via = Some r"
  using assms
proof (cases rule: matchSemanticOperation_cases [where meth = meth and target = target])
  case (yes op)
  then obtain e where "matchValues L (og_Headers op) (headerValues pre) True = Some e" using headers_total by blast
  with yes show ?thesis by (simp add: redirectPolicy_def)
qed (simp_all add: redirectPolicy_def)

lemma redirect_hops: "redirectPolicy L g base prev pre meth target via = Some (Inr op) \<Longrightarrow>
  int (length via) \<le> rd_MaxHops (gr_Redirects g)"
  by (auto simp: redirectPolicy_def split: if_splits)

lemma redirect_Inr:
  assumes "grant_ok L g" "redirectPolicy L g base prev pre meth target via = Some (Inr op)"
  shows "redirect_ok L g base pre meth target op \<and> operation_ok L op"
  using assms(1)
proof (cases rule: matchSemanticOperation_cases [where meth = meth and target = target])
  case (no e)
  then show ?thesis using assms(2) by (auto simp: redirectPolicy_def split: if_splits)
next
  case (yes op')
  then obtain he where he: "matchValues L (og_Headers op') (headerValues pre) True = Some he" using headers_total by blast
  with yes assms(2) have "rd_Allow (gr_Redirects g)" "op = op'" "he = None" "meth = ''GET'' \<or> meth = ''HEAD''" "og_Body op = None"
    "EqualFold (originOf base) (originOf target) \<or> (\<exists>v \<in> set (rd_AllowedOrigins (gr_Redirects g)). EqualFold v (originOf target))"
    by (simp_all add: redirectPolicy_def list_ex_iff split: if_splits option.splits)
  with yes he show ?thesis by (auto simp: redirect_ok_def headers_ok_def)
qed

end
