(* ===== verification/Broker.thy ===== *)
theory Broker
  imports Semantic
begin

text \<open>
  The egress broker of a workspace (pkg/broker: broker.go, policy.go, decision.go, capture.go, dialer.go): the terminating relay that swaps
  credential references for live secrets, the governed CONNECT tunnel, and the handler that routes
  between them. The upstream, the clock, the guest's connection and the classification of resource names are in an environment.
  A secret resolver returns the secret and whether the name is known.
\<close>

section \<open>policy.go\<close>

record broker_verdict =
  bv_Allow :: bool
  bv_Rule :: string
  bv_Labels :: "string list"

record tap_record =
  tp_Mode :: string
  tp_Method :: string
  tp_Host :: string
  tp_Path :: string
  tp_Headers :: header
  tp_At :: time

text \<open>What a call of a policy may do.\<close>

datatype policy_result = PolicyPanics | PolicyError | PolicyVerdict broker_verdict

type_synonym broker_policy = "tap_record \<Rightarrow> policy_result"

definition AllowlistPolicy :: "string list \<Rightarrow> broker_policy option" where
  "AllowlistPolicy hs = (if hs = [] then None
     else Some (\<lambda>tap. PolicyVerdict \<lparr>bv_Allow = tp_Host tap \<in> set hs \<or>
         (case SplitHostPort (tp_Host tap) of Some (host, _) \<Rightarrow> host \<in> set hs | None \<Rightarrow> False),
       bv_Rule = ''allowlist'', bv_Labels = []\<rparr>))"

definition evaluate :: "broker_policy option \<Rightarrow> tap_record \<Rightarrow> broker_verdict" where
  "evaluate p tap = (case p of None \<Rightarrow> \<lparr>bv_Allow = True, bv_Rule = '''', bv_Labels = []\<rparr>
     | Some f \<Rightarrow> (case f tap of
         PolicyVerdict v \<Rightarrow> if \<not> bv_Allow v \<and> bv_Rule v = '''' then v\<lparr>bv_Rule := ''policy''\<rparr> else v
       | _ \<Rightarrow> \<lparr>bv_Allow = False, bv_Rule = ''policy-error'', bv_Labels = []\<rparr>))"

section \<open>decision.go\<close>

definition EventRequestAllow :: string where "EventRequestAllow = ''broker_request_allow''"
definition EventRequestDeny :: string where "EventRequestDeny = ''broker_request_deny''"
definition brokerSignalDenied :: string where "brokerSignalDenied = ''denied''"

text \<open>The fields of \<open>DecisionRecord\<close>, in groups.\<close>

record decision_head =
  dh_Event :: string
  dh_TS :: time
  dh_Mode :: string
  dh_Host :: string
  dh_Method :: string
  dh_Assurance :: string

record op_info =
  oi_Operation :: string
  oi_Effect :: string
  oi_Route :: string
  oi_Digest :: string
  oi_Signals :: "string list"

record decision_outcome =
  dc_Verdict :: string
  dc_Rule :: string
  dc_Status :: int
  dc_BytesOut :: int
  dc_BytesIn :: int
  dc_DurationMs :: int

record decision_record =
  dr_head :: decision_head
  dr_op :: op_info
  dr_RedirectHops :: nat
  dr_FinalHost :: string
  dr_final :: op_info
  dr_outcome :: decision_outcome
  dr_SecretRefs :: "string list"
  dr_Signals :: "string list"
  dr_Labels :: "string list"

definition no_op :: op_info where
  "no_op = \<lparr>oi_Operation = '''', oi_Effect = '''', oi_Route = '''', oi_Digest = '''', oi_Signals = []\<rparr>"

section \<open>capture.go\<close>

definition DefaultCaptureBodyLimit :: int where "DefaultCaptureBodyLimit = 1048576"

record capture_record =
  cr_TS :: time
  cr_Mode :: string
  cr_Host :: string
  cr_Method :: string
  cr_Path :: string
  cr_Headers :: header
  cr_Body :: bytes
  cr_Truncated :: bool

record capture_buffer =
  cb_limit :: int
  cb_buf :: bytes
  cb_truncated :: bool

definition captureBuffer_Write :: "bytes \<Rightarrow> capture_buffer \<Rightarrow> capture_buffer" where
  "captureBuffer_Write p c = (let room = cb_limit c - int (length (cb_buf c)) in
     if room > 0 then
       (if int (length p) \<le> room then c\<lparr>cb_buf := cb_buf c @ p\<rparr>
        else c\<lparr>cb_buf := cb_buf c @ take (nat room) p, cb_truncated := True\<rparr>)
     else if p \<noteq> [] then c\<lparr>cb_truncated := True\<rparr> else c)"

section \<open>broker.go: credential references\<close>

definition RefPrefix :: string where "RefPrefix = ''@secret:''"

type_synonym secret_resolver = "string \<Rightarrow> string \<times> bool"

definition isRefNameChar :: "char \<Rightarrow> bool" where
  "isRefNameChar c \<longleftrightarrow> (let n = (of_char c :: nat) in
     (97 \<le> n \<and> n \<le> 122) \<or> (65 \<le> n \<and> n \<le> 90) \<or> (48 \<le> n \<and> n \<le> 57) \<or> c \<in> set ''-_./'')"

text \<open>A string at the first occurrence of a pattern.\<close>

fun cut_at :: "string \<Rightarrow> string \<Rightarrow> (string \<times> string) option" where
  "cut_at pat [] = (if pat = [] then Some ([], []) else None)"
| "cut_at pat (c # cs) = (if prefix pat (c # cs) then Some ([], drop (length pat) (c # cs))
     else map_option (\<lambda>(a, b). (c # a, b)) (cut_at pat cs))"

datatype swap_ref_error = EmptyRef | NoResolver | UnknownRef string

text \<open>The result of a resolver: an unknown name and an empty secret are both refused.\<close>

definition resolve_ref :: "secret_resolver option \<Rightarrow> string \<Rightarrow> swap_ref_error + string" where
  "resolve_ref R name = (if name = '''' then Inl EmptyRef
     else (case R of None \<Rightarrow> Inl NoResolver
       | Some f \<Rightarrow> (case f name of (secret, ok) \<Rightarrow> if \<not> ok \<or> secret = '''' then Inl (UnknownRef name) else Inr secret)))"

lemma cut_at_length: "cut_at pat s = Some (a, b) \<Longrightarrow> s = a @ pat @ b"
  by (induction s arbitrary: a) (auto split: if_splits elim!: prefixE)

function swap_loop :: "secret_resolver option \<Rightarrow> string \<Rightarrow> string \<Rightarrow> (string \<times> string) list \<Rightarrow>
    swap_ref_error + string \<times> (string \<times> string) list" where
  "swap_loop R rest b resolved = (case cut_at RefPrefix rest of
       None \<Rightarrow> Inr (b @ rest, resolved)
     | Some (pre, after) \<Rightarrow>
         (let name = takeWhile isRefNameChar after in
          case resolve_ref R name of
            Inl e \<Rightarrow> Inl e
          | Inr secret \<Rightarrow> swap_loop R (dropWhile isRefNameChar after) (b @ pre @ secret) (resolved @ [(name, secret)])))"
  by pat_completeness auto
termination
proof (relation "measure (\<lambda>(R, rest, b, resolved). length rest)", goal_cases)
  case (2 R rest b resolved x pre after name secret)
  then have "length rest = length pre + length RefPrefix + length after" using cut_at_length by fastforce
  moreover have "length (dropWhile isRefNameChar after) \<le> length after" by (rule length_dropWhile_le)
  ultimately show ?case by (simp add: RefPrefix_def)
qed simp

declare swap_loop.simps [simp del]

definition swapResolved :: "secret_resolver option \<Rightarrow> string \<Rightarrow> swap_ref_error + string \<times> (string \<times> string) list" where
  "swapResolved R value = (if cut_at RefPrefix value = None then Inr (value, []) else swap_loop R value '''' [])"

definition swap :: "secret_resolver option \<Rightarrow> string \<Rightarrow> swap_ref_error + string \<times> string list" where
  "swap R value = (case swapResolved R value of Inl e \<Rightarrow> Inl e | Inr (s, resolved) \<Rightarrow> Inr (s, map fst resolved))"

definition Header_Add :: "string \<Rightarrow> string \<Rightarrow> header \<Rightarrow> header" where
  "Header_Add k v h = AList.update (CanonicalHeaderKey k) (Header_Values h k @ [v]) h"

text \<open>The loop over the headers of the request: the outgoing headers, the live secrets and the names used.\<close>

record swap_state =
  ss_header :: header
  ss_secrets :: "string list"
  ss_refs :: "string list"

definition note_refs :: "(string \<times> string) list \<Rightarrow> swap_state \<Rightarrow> swap_state" where
  "note_refs resolved st = fold (\<lambda>(name, secret) st. st\<lparr>ss_secrets := ss_secrets st @ [secret],
     ss_refs := (if name \<in> set (ss_refs st) then ss_refs st else ss_refs st @ [name])\<rparr>) resolved st"

fun swap_values :: "secret_resolver option \<Rightarrow> string \<Rightarrow> string list \<Rightarrow> swap_state \<Rightarrow> swap_state + swap_state" where
  "swap_values R k [] st = Inr st"
| "swap_values R k (v # vs) st = (case swapResolved R v of
       Inl e \<Rightarrow> Inl st
     | Inr (swapped, resolved) \<Rightarrow>
         swap_values R k vs ((note_refs resolved st)\<lparr>ss_header := Header_Add k swapped (ss_header st)\<rparr>))"

fun swap_headers :: "secret_resolver option \<Rightarrow> header \<Rightarrow> swap_state \<Rightarrow> swap_state + swap_state" where
  "swap_headers R [] st = Inr st"
| "swap_headers R ((k, vals) # rest) st =
     (if CanonicalHeaderKey k \<in> set hopByHop then swap_headers R rest st
      else (case swap_values R k vals st of Inl st' \<Rightarrow> Inl st' | Inr st' \<Rightarrow> swap_headers R rest st'))"

definition singleJoiningSlash :: "string \<Rightarrow> string \<Rightarrow> string" where
  "singleJoiningSlash a b =
     (if HasSuffix a ''/'' \<and> HasPrefix b ''/'' then a @ drop 1 b
      else if \<not> HasSuffix a ''/'' \<and> \<not> HasPrefix b ''/'' \<and> b \<noteq> '''' then a @ ''/'' @ b
      else a @ b)"

section \<open>broker.go: the terminating relay\<close>

text \<open>The transport of the configured client; no client means the default one.\<close>

datatype transport = DefaultTransport | HTTPTransport | OtherTransport

record terminate =
  te_Upstream :: broker_url
  te_Resolve :: "secret_resolver option"
  te_OnTap :: bool
  te_OnDecision :: bool
  te_Policy :: "broker_policy option"
  te_OnCapture :: bool
  te_CaptureBodyLimit :: int
  te_Client :: "transport option"
  te_Assurance :: string
  te_Grant :: "broker_grant option"

record guest_request =
  gq_Method :: string
  gq_Host :: string
  gq_Path :: string
  gq_RawQuery :: string
  gq_Header :: header
  gq_Body :: "body_stream option"
  gq_ContentLength :: int

record sent_request =
  sq_Method :: string
  sq_URL :: broker_url
  sq_Header :: header
  sq_Body :: bytes

record upstream_response =
  ur_Status :: int
  ur_Header :: header
  ur_Chunks :: "bytes list"
  ur_End :: "string option"

text \<open>
  How the HTTP client goes on after the requests made so far: it proposes a redirect, has a response or fails. \<open>be_do\<close> is a whole exchange of
  a client without a redirect policy of the broker's own.
\<close>

datatype client_event = Redirected string broker_url | Responded upstream_response | Failed string

record broker_env =
  be_ts :: time
  be_ms :: int
  be_build_fails :: bool
  be_next :: "sent_request list \<Rightarrow> client_event"
  be_do :: "sent_request \<Rightarrow> string + upstream_response"
  be_read :: nat
  be_write :: "nat \<Rightarrow> bytes \<Rightarrow> nat \<times> string option"
  be_signals :: "operation_grant \<Rightarrow> broker_url \<Rightarrow> string list"

definition NewTerminate :: "'x grant_lib_scheme \<Rightarrow> string \<Rightarrow> secret_resolver option \<Rightarrow> bool \<Rightarrow> terminate option" where
  "NewTerminate L upstream resolve tap = (case bl_url_Parse L upstream of None \<Rightarrow> None
     | Some u \<Rightarrow> if bu_Scheme u = '''' \<or> bu_Host u = '''' then None
         else Some \<lparr>te_Upstream = u, te_Resolve = resolve, te_OnTap = tap, te_OnDecision = False, te_Policy = None,
           te_OnCapture = False, te_CaptureBodyLimit = 0, te_Client = None, te_Assurance = BrokerAssuranceTrustedUpstream,
           te_Grant = None\<rparr>)"

definition semantic_config :: "string \<Rightarrow> broker_grant option \<Rightarrow> broker_config" where
  "semantic_config upstream grant = \<lparr>bc_Upstream = upstream, bc_Secret = \<lparr>sr_Name = '''', sr_Ref = ''''\<rparr>, bc_GuestListen = '''',
     bc_VsockPort = 0, bc_Proxy = False, bc_BaseURLEnv = [], bc_Capture = False, bc_UpstreamCAFile = '''', bc_ConnectAllowlist = [],
     bc_Assurance = BrokerAssuranceSemantic, bc_Grant = grant\<rparr>"

definition deny_only :: broker_policy where
  "deny_only tap = PolicyVerdict \<lparr>bv_Allow = False, bv_Rule = ''semantic-policy-seam-disabled'', bv_Labels = []\<rparr>"

definition NewSemanticTerminate ::
  "'x grant_lib_scheme \<Rightarrow> string \<Rightarrow> secret_resolver option \<Rightarrow> bool \<Rightarrow> broker_grant option \<Rightarrow> terminate option" where
  "NewSemanticTerminate L upstream resolve tap grant =
     (if ValidateBrokerSecurity L (Some (semantic_config upstream grant)) \<noteq> None then None
      else (case NewTerminate L upstream resolve tap of None \<Rightarrow> None
        | Some t \<Rightarrow> Some (t\<lparr>te_Assurance := BrokerAssuranceSemantic, te_Grant := grant, te_Policy := Some deny_only\<rparr>)))"

definition hardenedSemanticClient :: "transport option \<Rightarrow> bool" where
  "hardenedSemanticClient client \<longleftrightarrow> (case client of None \<Rightarrow> True | Some tr \<Rightarrow> tr \<noteq> OtherTransport)"

text \<open>
  The exchange of the hardened client under \<open>redirectPolicy\<close>: what came of it, the requests made and the
  operation of the last one.
\<close>

datatype exchange = GotResponse upstream_response | GotError string | GotDenied redirect_denial

function follow ::
  "'x sem_lib_scheme \<Rightarrow> broker_grant \<Rightarrow> broker_url \<Rightarrow> (sent_request list \<Rightarrow> client_event) \<Rightarrow> header \<Rightarrow> header \<Rightarrow>
   operation_grant \<Rightarrow> sent_request list \<Rightarrow> (exchange \<times> sent_request list \<times> operation_grant) go" where
  "follow L g base nxt pre outgoing op reqs = (case nxt reqs of
       Responded r \<Rightarrow> Some (GotResponse r, reqs, op)
     | Failed e \<Rightarrow> Some (GotError e, reqs, op)
     | Redirected method target \<Rightarrow> (case redirectPolicy L g base (Some op) pre method target (map sq_Method reqs) of
           None \<Rightarrow> None
         | Some (Inl d) \<Rightarrow> Some (GotDenied d, reqs, op)
         | Some (Inr op') \<Rightarrow> follow L g base nxt pre outgoing op'
             (reqs @ [\<lparr>sq_Method = method, sq_URL = target, sq_Header = outgoing, sq_Body = []\<rparr>])))"
  by pat_completeness auto
termination
proof (relation "measure (\<lambda>(L, g, base, nxt, pre, outgoing, op, reqs). nat (rd_MaxHops (gr_Redirects g) + 1 - int (length reqs)))", goal_cases)
  case (2 L g base nxt pre outgoing op reqs m target r op')
  then have "int (length (map sq_Method reqs)) \<le> rd_MaxHops (gr_Redirects g)" by (intro redirect_hops) simp
  then show ?case by simp
qed simp

declare follow.simps [simp del]

definition effective_url :: "broker_url \<Rightarrow> guest_request \<Rightarrow> broker_url" where
  "effective_url up r = up\<lparr>bu_Path := singleJoiningSlash (bu_Path up) (gq_Path r), bu_RawPath := '''', bu_RawQuery := gq_RawQuery r\<rparr>"

definition op_info_of :: "'x sem_lib_scheme \<Rightarrow> broker_env \<Rightarrow> operation_grant \<Rightarrow> broker_url \<Rightarrow> op_info" where
  "op_info_of L E op target = \<lparr>oi_Operation = og_Name op, oi_Effect = og_Effect op, oi_Route = og_Route op,
     oi_Digest = semanticResourceDigest L (Some op) (Some target), oi_Signals = be_signals E op target\<rparr>"

record serve_out =
  so_taps :: "tap_record list"
  so_decisions :: "decision_record list"
  so_captures :: "capture_record list"
  so_requests :: "sent_request list"
  so_status :: int
  so_header :: header
  so_body :: bytes

definition tap_of :: "broker_env \<Rightarrow> terminate \<Rightarrow> guest_request \<Rightarrow> tap_record" where
  "tap_of E t r = \<lparr>tp_Mode = ''terminate'', tp_Method = gq_Method r, tp_Host = bu_Host (te_Upstream t), tp_Path = gq_Path r,
     tp_Headers = gq_Header r, tp_At = be_ts E\<rparr>"

definition head_of :: "broker_env \<Rightarrow> terminate \<Rightarrow> guest_request \<Rightarrow> string \<Rightarrow> decision_head" where
  "head_of E t r event = \<lparr>dh_Event = event, dh_TS = be_ts E, dh_Mode = ''terminate'', dh_Host = bu_Host (te_Upstream t),
     dh_Method = gq_Method r, dh_Assurance = te_Assurance t\<rparr>"

text \<open>What the request has come to know when it is decided: its operation, the requests made and the last operation.\<close>

record progress =
  pg_op :: op_info
  pg_final :: "(nat \<times> string \<times> op_info) option"
  pg_refs :: "string list"
  pg_labels :: "string list"

definition decision_of ::
  "broker_env \<Rightarrow> terminate \<Rightarrow> guest_request \<Rightarrow> string \<Rightarrow> progress \<Rightarrow> decision_outcome \<Rightarrow> string list \<Rightarrow> decision_record list" where
  "decision_of E t r event pg oc signals = (if \<not> te_OnDecision t then [] else
     [(case pg_final pg of
         None \<Rightarrow> \<lparr>dr_head = head_of E t r event, dr_op = pg_op pg, dr_RedirectHops = 0, dr_FinalHost = '''', dr_final = no_op,
           dr_outcome = oc, dr_SecretRefs = pg_refs pg, dr_Signals = signals, dr_Labels = pg_labels pg\<rparr>
       | Some (hops, host, fin) \<Rightarrow> \<lparr>dr_head = head_of E t r event, dr_op = pg_op pg, dr_RedirectHops = hops, dr_FinalHost = host,
           dr_final = fin, dr_outcome = oc, dr_SecretRefs = pg_refs pg, dr_Signals = signals, dr_Labels = pg_labels pg\<rparr>)])"

definition deny_outcome :: "broker_env \<Rightarrow> string \<Rightarrow> decision_outcome" where
  "deny_outcome E rule = \<lparr>dc_Verdict = ''deny'', dc_Rule = rule, dc_Status = 0, dc_BytesOut = 0, dc_BytesIn = 0, dc_DurationMs = be_ms E\<rparr>"

text \<open>\<open>http.Error\<close> with a status and a text, and the deny record; \<open>reqs\<close> were made before.\<close>

definition denied ::
  "broker_env \<Rightarrow> terminate \<Rightarrow> guest_request \<Rightarrow> progress \<Rightarrow> sent_request list \<Rightarrow> int \<Rightarrow> string \<Rightarrow> string \<Rightarrow> string list \<Rightarrow> serve_out" where
  "denied E t r pg reqs status message rule signals =
     \<lparr>so_taps = [], so_decisions = decision_of E t r EventRequestDeny pg (deny_outcome E rule) signals, so_captures = [],
      so_requests = reqs, so_status = status, so_header = [], so_body = go_bytes (message @ [CHR 0x0A])\<rparr>"

text \<open>\<open>streamCopy\<close>: each chunk is written and flushed until the body ends or a write falls short.\<close>

fun streamCopy :: "(nat \<Rightarrow> bytes \<Rightarrow> nat \<times> string option) \<Rightarrow> nat \<Rightarrow> bytes list \<Rightarrow> int \<Rightarrow> bytes \<Rightarrow> int \<times> bytes" where
  "streamCopy wr i [] tot acc = (tot, acc)"
| "streamCopy wr i (c # cs) tot acc =
     (if c = [] then streamCopy wr i cs tot acc
      else (case wr i c of (n, err) \<Rightarrow>
        (let tot' = tot + int n; acc' = acc @ take n c in
         if err \<noteq> None \<or> n \<noteq> length c then (tot', acc') else streamCopy wr (Suc i) cs tot' acc')))"

definition forwarded_header :: "header \<Rightarrow> header" where
  "forwarded_header h = fold (\<lambda>(k, vals) acc. if CanonicalHeaderKey k \<in> set hopByHop then acc
     else fold (\<lambda>v acc. Header_Add k v acc) vals acc) h []"

definition allowed_out ::
  "broker_env \<Rightarrow> terminate \<Rightarrow> guest_request \<Rightarrow> progress \<Rightarrow> string \<Rightarrow> int \<Rightarrow> sent_request list \<Rightarrow> upstream_response \<Rightarrow> int \<times> bytes \<Rightarrow> serve_out" where
  "allowed_out E t r pg rule bytesOut reqs resp w =
     \<lparr>so_taps = [], so_decisions = decision_of E t r EventRequestAllow pg \<lparr>dc_Verdict = ''allow'', dc_Rule = rule,
        dc_Status = ur_Status resp, dc_BytesOut = bytesOut, dc_BytesIn = fst w, dc_DurationMs = be_ms E\<rparr> [],
      so_captures = [], so_requests = reqs, so_status = ur_Status resp, so_header = forwarded_header (ur_Header resp), so_body = snd w\<rparr>"

text \<open>The checks of a semantic response, in order; \<^term>\<open>Inl\<close> is the message and the rule of the denial.\<close>

definition check_response :: "'x sem_lib_scheme \<Rightarrow> operation_grant \<Rightarrow> string list \<Rightarrow> upstream_response \<Rightarrow> (string \<times> string) + bytes" where
  "check_response L op secrets resp =
     (let limit = rg_MaxBytes (og_Response op);
          body = read_limited \<lparr>bs_data = concat (ur_Chunks resp), bs_err = ur_End resp\<rparr> (wrap64 (limit + 1))
      in case body of
           Inl e \<Rightarrow> Inl (''broker: upstream response exceeds semantic grant'', ''semantic-response-size'')
         | Inr data \<Rightarrow>
             if int (length data) > limit then Inl (''broker: upstream response exceeds semantic grant'', ''semantic-response-size'')
             else if responseContainsSecret (ur_Header resp) data secrets then
               Inl (''broker: upstream response disclosed an injected credential'', ''semantic-response-credential'')
             else if ur_Status resp \<notin> set (rg_Statuses (og_Response op)) then
               Inl (''broker: upstream status outside semantic grant'', ''semantic-response-status'')
             else if validateMediaAndJSON L (Header_Get (ur_Header resp) ''Content-Type'') data
                 (rg_ContentTypes (og_Response op)) (rg_JSON (og_Response op)) \<noteq> None then
               Inl (''broker: upstream response outside semantic grant'', ''semantic-response-schema'')
             else Inr data)"

text \<open>The path of a semantic request after its authorization, with the headers already swapped.\<close>

definition serve_semantic ::
  "'x sem_lib_scheme \<Rightarrow> broker_env \<Rightarrow> terminate \<Rightarrow> broker_grant \<Rightarrow> guest_request \<Rightarrow> progress \<Rightarrow> operation_grant \<Rightarrow> broker_url \<Rightarrow> bytes \<Rightarrow>
   swap_state \<Rightarrow> serve_out go" where
  "serve_semantic L E t g r pg op out body st =
     (if \<not> hardenedSemanticClient (te_Client t) then
        Some (denied E t r pg [] 502 ''broker: semantic upstream transport is unsupported'' ''semantic-transport'' [brokerSignalDenied])
      else do {
        let outgoing = (if map_of (ss_header st) ''User-Agent'' = None then AList.update ''User-Agent'' [] (ss_header st) else ss_header st);
        (ex, reqs, rop) \<leftarrow> follow L g (te_Upstream t) (be_next E) (gq_Header r) outgoing op
          [\<lparr>sq_Method = gq_Method r, sq_URL = out, sq_Header = outgoing, sq_Body = body\<rparr>];
        let hops = length reqs - 1;
        let pg1 = (if hops > 0 then pg\<lparr>pg_final := Some (hops, bu_Host (sq_URL (last reqs)), op_info_of L E rop (sq_URL (last reqs)))\<rparr> else pg);
        Some (case ex of
            GotDenied d \<Rightarrow> denied E t r pg1 reqs 403 ''broker: redirect outside semantic grant'' ''semantic-redirect-deny'' [brokerSignalDenied]
          | GotError e \<Rightarrow> denied E t r pg1 reqs 502 (''broker: upstream: '' @ e) ''upstream-error'' []
          | GotResponse resp \<Rightarrow> (case check_response L rop (ss_secrets st) resp of
                Inl (message, rule) \<Rightarrow> denied E t r pg1 reqs 502 message rule [brokerSignalDenied]
              | Inr data \<Rightarrow> (case be_write E 0 data of (n, err) \<Rightarrow>
                  allowed_out E t r pg1 ''semantic-grant'' (int (min (be_read E) (length body))) reqs resp (int n, take n data)))) })"

definition serve_trusted ::
  "broker_env \<Rightarrow> terminate \<Rightarrow> guest_request \<Rightarrow> progress \<Rightarrow> string \<Rightarrow> broker_url \<Rightarrow> bytes \<Rightarrow> swap_state \<Rightarrow> serve_out" where
  "serve_trusted E t r pg rule out body st =
     (let req = \<lparr>sq_Method = gq_Method r, sq_URL = out, sq_Header = ss_header st, sq_Body = body\<rparr> in
      case be_do E req of
        Inl e \<Rightarrow> denied E t r pg [req] 502 (''broker: upstream: '' @ e) ''upstream-error'' []
      | Inr resp \<Rightarrow> allowed_out E t r pg rule (int (min (be_read E) (length body))) [req] resp
          (streamCopy (be_write E) 0 (ur_Chunks resp) 0 []))"

definition request_data :: "guest_request \<Rightarrow> bytes" where
  "request_data r = (case gq_Body r of Some b \<Rightarrow> bs_data b | None \<Rightarrow> [])"

text \<open>
  The deferred capture record: the body read by then, \<open>n\<close> bytes of it, in the buffer of the configured limit.
\<close>

definition capture_of :: "broker_env \<Rightarrow> terminate \<Rightarrow> guest_request \<Rightarrow> bytes \<Rightarrow> capture_record list" where
  "capture_of E t r data = (if \<not> te_OnCapture t then [] else
     (let limit = (if te_CaptureBodyLimit t \<le> 0 then DefaultCaptureBodyLimit else te_CaptureBodyLimit t);
          buf = captureBuffer_Write data \<lparr>cb_limit = limit, cb_buf = [], cb_truncated = False\<rparr>
      in [\<lparr>cr_TS = be_ts E, cr_Mode = ''terminate'', cr_Host = bu_Host (te_Upstream t), cr_Method = gq_Method r, cr_Path = gq_Path r,
           cr_Headers = gq_Header r, cr_Body = cb_buf buf, cr_Truncated = cb_truncated buf\<rparr>]))"

definition ServeHTTP :: "'x sem_lib_scheme \<Rightarrow> broker_env \<Rightarrow> terminate \<Rightarrow> guest_request \<Rightarrow> serve_out go" where
  "ServeHTTP L E t r = do {
     let tap = tap_of E t r;
     let sem = (te_Assurance t = BrokerAssuranceSemantic);
     let verdict = (if sem then \<lparr>bv_Allow = True, bv_Rule = ''semantic-grant'', bv_Labels = []\<rparr> else evaluate (te_Policy t) tap);
     let pg = \<lparr>pg_op = no_op, pg_final = None, pg_refs = [], pg_labels = bv_Labels verdict\<rparr>;
     let out = effective_url (te_Upstream t) r;
     res \<leftarrow>
       (if \<not> bv_Allow verdict then Some (denied E t r pg [] 403 ''broker: denied by policy'' (bv_Rule verdict) [])
        else do {
          auth \<leftarrow> (if sem then authorizeSemanticRequest L (te_Grant t) (gq_Method r) (gq_Header r) (gq_Body r) (gq_ContentLength r) out
                    else Some (None, Inr (request_data r)));
          (case auth of
             (sop, Inl e) \<Rightarrow>
               Some (denied E t r (case sop of None \<Rightarrow> pg | Some op \<Rightarrow> pg\<lparr>pg_op := no_op\<lparr>oi_Operation := og_Name op, oi_Effect := og_Effect op\<rparr>\<rparr>)
                 [] 403 ''broker: request outside semantic grant'' ''semantic-request-deny'' [brokerSignalDenied])
           | (sop, Inr body) \<Rightarrow> do {
               let pg1 = (case sop of None \<Rightarrow> pg | Some op \<Rightarrow> pg\<lparr>pg_op := op_info_of L E op out\<rparr>);
               let unread = capture_of E t r [];
               let captured = capture_of E t r (take (be_read E) body);
               if be_build_fails E then
                 Some ((denied E t r pg1 [] 502 ''broker: build upstream request'' ''bad-request'' [])\<lparr>so_captures := unread\<rparr>)
               else (case swap_headers (te_Resolve t) (gq_Header r) \<lparr>ss_header = [], ss_secrets = [], ss_refs = []\<rparr> of
                   Inl st \<Rightarrow> Some ((denied E t r (pg1\<lparr>pg_refs := ss_refs st\<rparr>) [] 502 ''broker: unresolved secret reference''
                       ''unresolved-secret-ref'' [''unresolved-secret-ref''])\<lparr>so_captures := unread\<rparr>)
                 | Inr st \<Rightarrow> (case (sop, te_Grant t) of
                       (Some op, Some g) \<Rightarrow> map_option (\<lambda>o1. o1\<lparr>so_captures := if so_requests o1 = [] then unread else captured\<rparr>)
                         (serve_semantic L E t g r (pg1\<lparr>pg_refs := ss_refs st\<rparr>) op out body st)
                     | _ \<Rightarrow> Some ((serve_trusted E t r (pg1\<lparr>pg_refs := ss_refs st\<rparr>) (bv_Rule verdict) out body st)\<lparr>so_captures := captured\<rparr>))) }) });
     Some (res\<lparr>so_taps := (if te_OnTap t then [tap] else [])\<rparr>) }"

end
