(* ===== verification/BrokerProps.thy ===== *)
theory BrokerProps
  imports Broker
begin

text \<open>
  What the terminating broker guarantees: references are replaced by the secrets the resolver gives and by nothing else; under a semantic grant
  every request that leaves is one the grant names, and what comes back is bounded, of a granted status and shape, and free of the injected
  secrets.
\<close>

section \<open>References\<close>

text \<open>A value as the text it has and the references in it, each with the secret that replaced it.\<close>

datatype piece = Text string | Cred string string

primrec piece_src :: "piece \<Rightarrow> string" where
  "piece_src (Text t) = t"
| "piece_src (Cred n x) = RefPrefix @ n"

primrec piece_out :: "piece \<Rightarrow> string" where
  "piece_out (Text t) = t"
| "piece_out (Cred n x) = x"

primrec piece_creds :: "piece \<Rightarrow> (string \<times> string) list" where
  "piece_creds (Text t) = []"
| "piece_creds (Cred n x) = [(n, x)]"

primrec piece_ok :: "secret_resolver option \<Rightarrow> piece \<Rightarrow> bool" where
  "piece_ok R (Text t) \<longleftrightarrow> \<not> sublist RefPrefix t"
| "piece_ok R (Cred n x) \<longleftrightarrow> n \<noteq> '''' \<and> x \<noteq> '''' \<and> (\<exists>f. R = Some f \<and> f n = (x, True))"

lemma RefPrefix_nonempty [simp]: "RefPrefix \<noteq> []"
  by (simp add: RefPrefix_def)

lemma cut_at_None: "pat \<noteq> [] \<Longrightarrow> cut_at pat s = None \<longleftrightarrow> \<not> sublist pat s"
  by (induction s) (auto simp: sublist_Cons_right)

lemma cut_at_first:
  assumes "pat \<noteq> []" "cut_at pat s = Some (a, b)"
  shows "\<not> sublist pat a"
  using assms(2)
proof (induction s arbitrary: a)
  case (Cons c s)
  show ?case
  proof (cases "prefix pat (c # s)")
    case False
    with Cons.prems obtain a' where a: "a = c # a'" "cut_at pat s = Some (a', b)" by auto
    have "\<not> prefix pat (c # a')"
      using False cut_at_length [OF a(2)] by (metis append_Cons prefixI prefix_append prefix_order.trans)
    with Cons.IH [OF a(2)] a(1) show ?thesis by (simp add: sublist_Cons_right)
  qed (use Cons.prems assms(1) in simp)
qed (use assms(1) in simp)

lemma resolve_ref_Inr: "resolve_ref R n = Inr x \<Longrightarrow> n \<noteq> '''' \<and> x \<noteq> '''' \<and> (\<exists>f. R = Some f \<and> f n = (x, True))"
  by (auto simp: resolve_ref_def split: if_splits option.splits prod.splits)

lemma swap_loop_pieces:
  "swap_loop R rest b resolved = Inr (s, res) \<Longrightarrow> \<exists>ps. rest = concat (map piece_src ps) \<and> s = b @ concat (map piece_out ps) \<and>
     res = resolved @ concat (map piece_creds ps) \<and> (\<forall>p \<in> set ps. piece_ok R p)"
proof (induction R rest b resolved rule: swap_loop.induct)
  case (1 R rest b resolved)
  show ?case
  proof (cases "cut_at RefPrefix rest")
    case None
    then have "\<not> sublist RefPrefix rest" by (simp add: cut_at_None)
    moreover from None "1.prems" have "s = b @ rest" "res = resolved" by (simp_all add: swap_loop.simps [of R rest])
    ultimately show ?thesis by (intro exI [of _ "[Text rest]"]) simp
  next
    case (Some x)
    obtain pre after where x: "x = (pre, after)" by (cases x)
    let ?n = "takeWhile isRefNameChar after"
    from Some x "1.prems" obtain secret where r: "resolve_ref R ?n = Inr secret"
      by (simp add: swap_loop.simps [of R rest] Let_def split: sum.splits)
    from Some x r "1.prems" have "swap_loop R (dropWhile isRefNameChar after) (b @ pre @ secret) (resolved @ [(?n, secret)]) = Inr (s, res)"
      by (simp add: swap_loop.simps [of R rest] Let_def)
    from "1.IH" [OF Some x [symmetric] refl r this] obtain ps where ps: "dropWhile isRefNameChar after = concat (map piece_src ps)"
      "s = (b @ pre @ secret) @ concat (map piece_out ps)" "res = (resolved @ [(?n, secret)]) @ concat (map piece_creds ps)"
      "\<forall>p \<in> set ps. piece_ok R p" by blast
    have "rest = pre @ RefPrefix @ ?n @ dropWhile isRefNameChar after"
      using cut_at_length [of RefPrefix rest pre after] Some x by simp
    moreover have "\<not> sublist RefPrefix pre" using cut_at_first [of RefPrefix rest pre after] Some x by simp
    ultimately show ?thesis
      using ps resolve_ref_Inr [OF r] by (intro exI [of _ "Text pre # Cred ?n secret # ps"]) simp
  qed
qed

lemma swapResolved_pieces:
  assumes "swapResolved R v = Inr (s, res)"
  shows "\<exists>ps. v = concat (map piece_src ps) \<and> s = concat (map piece_out ps) \<and> res = concat (map piece_creds ps) \<and> (\<forall>p \<in> set ps. piece_ok R p)"
proof (cases "cut_at RefPrefix v = None")
  case True
  then have "\<not> sublist RefPrefix v" by (simp add: cut_at_None)
  moreover from True assms have "s = v" "res = []" by (simp_all add: swapResolved_def)
  ultimately show ?thesis by (intro exI [of _ "[Text v]"]) simp
next
  case False
  with assms swap_loop_pieces [of R v "''''" "[]" s res] show ?thesis by (simp add: swapResolved_def)
qed

section \<open>The secrets injected into a request\<close>

definition injected :: "secret_resolver option \<Rightarrow> header \<Rightarrow> string set" where
  "injected R hdr = {x. \<exists>k vals v s res n. (k, vals) \<in> set hdr \<and> CanonicalHeaderKey k \<notin> set hopByHop \<and> v \<in> set vals \<and>
     swapResolved R v = Inr (s, res) \<and> (n, x) \<in> set res}"

lemma note_refs_secrets: "ss_secrets (note_refs resolved st) = ss_secrets st @ map snd resolved"
  by (induction resolved arbitrary: st) (auto simp: note_refs_def)

lemma note_refs_header [simp]: "ss_header (note_refs resolved st) = ss_header st"
  by (induction resolved arbitrary: st) (auto simp: note_refs_def)

lemma swap_values_secrets:
  "swap_values R k vs st = Inr st' \<Longrightarrow>
     set (ss_secrets st') = set (ss_secrets st) \<union> {x. \<exists>v \<in> set vs. \<exists>s res n. swapResolved R v = Inr (s, res) \<and> (n, x) \<in> set res}"
proof (induction vs arbitrary: st)
  case (Cons v vs)
  then obtain sw res where r: "swapResolved R v = Inr (sw, res)" by (auto split: sum.splits)
  with Cons.prems have "swap_values R k vs ((note_refs res st)\<lparr>ss_header := Header_Add k sw (ss_header st)\<rparr>) = Inr st'" by simp
  from Cons.IH [OF this] r show ?case by (simp add: note_refs_secrets) (fastforce simp: image_iff)
qed simp

lemma injected_Nil [simp]: "injected R [] = {}"
  by (simp add: injected_def)

lemma injected_Cons: "injected R ((k, vals) # hdr) = (if CanonicalHeaderKey k \<in> set hopByHop then {}
    else {x. \<exists>v \<in> set vals. \<exists>s res n. swapResolved R v = Inr (s, res) \<and> (n, x) \<in> set res}) \<union> injected R hdr"
  unfolding injected_def by (cases "CanonicalHeaderKey k \<in> set hopByHop") (auto simp only: set_simps insert_iff prod.inject if_True if_False, blast+)

lemma swap_headers_secrets:
  "swap_headers R hdr st = Inr st' \<Longrightarrow> set (ss_secrets st') = set (ss_secrets st) \<union> injected R hdr"
proof (induction hdr arbitrary: st)
  case (Cons kv hdr)
  obtain k vals where kv: "kv = (k, vals)" by (cases kv)
  show ?case
  proof (cases "CanonicalHeaderKey k \<in> set hopByHop")
    case True
    with Cons show ?thesis by (simp add: kv injected_Cons)
  next
    case False
    with Cons.prems obtain st1 where s: "swap_values R k vals st = Inr st1" "swap_headers R hdr st1 = Inr st'"
      by (auto simp: kv split: sum.splits)
    from swap_values_secrets [OF s(1)] Cons.IH [OF s(2)] False show ?thesis by (simp add: kv injected_Cons Un_assoc)
  qed
qed simp

section \<open>Requests\<close>

definition hop_ok :: "'x sem_lib_scheme \<Rightarrow> broker_grant \<Rightarrow> broker_url \<Rightarrow> header \<Rightarrow> header \<Rightarrow> sent_request \<Rightarrow> bool" where
  "hop_ok L g base pre outgoing q \<longleftrightarrow> (\<exists>op. redirect_ok L g base pre (sq_Method q) (sq_URL q) op) \<and> sq_Header q = outgoing \<and> sq_Body q = []"

lemma follow_spec:
  assumes "grant_ok L g" "op \<in> set (gr_Operations g)"
  shows "\<exists>ex hops rop. follow L g base nxt pre outgoing op reqs = Some (ex, reqs @ hops, rop) \<and> rop \<in> set (gr_Operations g) \<and>
    (\<forall>q \<in> set hops. hop_ok L g base pre outgoing q) \<and>
    (hops \<noteq> [] \<longrightarrow> int (length reqs + length hops) \<le> rd_MaxHops (gr_Redirects g) + 1)"
  using assms
proof (induction L g base nxt pre outgoing op reqs rule: follow.induct)
  case (1 L g base nxt pre outgoing op reqs)
  note unf = follow.simps [of L g base nxt pre outgoing op reqs]
  show ?case
  proof (cases "nxt reqs")
    case (Redirected m u)
    obtain d where d: "redirectPolicy L g base (Some op) pre m u (map sq_Method reqs) = Some d"
      using redirect_total [OF "1.prems"(1)] by blast
    show ?thesis
    proof (cases d)
      case (Inl e)
      with Redirected d "1.prems"(2) show ?thesis by (intro exI [of _ "GotDenied e"] exI [of _ "[]"] exI [of _ op]) (simp add: unf)
    next
      case (Inr op')
      let ?q = "\<lparr>sq_Method = m, sq_URL = u, sq_Header = outgoing, sq_Body = []\<rparr>"
      have r: "redirect_ok L g base pre m u op'" using redirect_Inr [OF "1.prems"(1)] d Inr by blast
      then have in': "op' \<in> set (gr_Operations g)" using granted_op_in by (auto simp: redirect_ok_def)
      have len: "int (length reqs) \<le> rd_MaxHops (gr_Redirects g)"
        using redirect_hops [of L g base "Some op" pre m u "map sq_Method reqs" op'] d Inr by simp
      from "1.IH" [OF Redirected d Inr "1.prems"(1) in'] obtain ex hops rop
        where f: "follow L g base nxt pre outgoing op' (reqs @ [?q]) = Some (ex, (reqs @ [?q]) @ hops, rop)"
          "rop \<in> set (gr_Operations g)" "\<forall>q \<in> set hops. hop_ok L g base pre outgoing q"
          "hops \<noteq> [] \<longrightarrow> int (length (reqs @ [?q]) + length hops) \<le> rd_MaxHops (gr_Redirects g) + 1" by blast
      have "hop_ok L g base pre outgoing ?q" using r by (auto simp: hop_ok_def)
      with f len Redirected d Inr show ?thesis
        by (intro exI [of _ ex] exI [of _ "?q # hops"] exI [of _ rop]) (cases "hops = []"; simp add: unf)
    qed
  next
    case (Responded r)
    with "1.prems"(2) show ?thesis by (intro exI [of _ "GotResponse r"] exI [of _ "[]"] exI [of _ op]) (simp add: unf)
  next
    case (Failed e)
    with "1.prems"(2) show ?thesis by (intro exI [of _ "GotError e"] exI [of _ "[]"] exI [of _ op]) (simp add: unf)
  qed
qed

section \<open>Serving a semantic request\<close>

lemma check_response_Inr:
  "check_response L op secrets resp = Inr data \<Longrightarrow> int (length data) \<le> rg_MaxBytes (og_Response op) \<and>
     \<not> responseContainsSecret (ur_Header resp) data secrets \<and> ur_Status resp \<in> set (rg_Statuses (og_Response op)) \<and>
     validateMediaAndJSON L (Header_Get (ur_Header resp) ''Content-Type'') data (rg_ContentTypes (og_Response op)) (rg_JSON (og_Response op)) = None"
  by (auto simp: check_response_def Let_def split: sum.splits if_splits)

lemma denied_simps [simp]:
  "so_requests (denied E t r pg reqs status message rule signals) = reqs"
  "so_decisions (denied E t r pg reqs status message rule signals) = decision_of E t r EventRequestDeny pg (deny_outcome E rule) signals"
  by (simp_all add: denied_def)

lemma decision_of_event: "d \<in> set (decision_of E t r event pg oc signals) \<Longrightarrow> dh_Event (dr_head d) = event"
  by (auto simp: decision_of_def head_of_def split: if_splits option.splits)

lemma length_decision_of: "length (decision_of E t r event pg oc signals) = (if te_OnDecision t then 1 else 0)"
  by (simp add: decision_of_def)

lemma decision_of_Nil [simp]: "\<not> te_OnDecision t \<Longrightarrow> decision_of E t r event pg oc signals = []"
  by (simp add: decision_of_def)

text \<open>Every record of the outcome says that the request was denied.\<close>

definition all_denied :: "serve_out \<Rightarrow> bool" where
  "all_denied out \<longleftrightarrow> (\<forall>d \<in> set (so_decisions out). dh_Event (dr_head d) = EventRequestDeny)"

lemma all_denied_denied [simp]: "all_denied (denied E t r pg reqs status message rule signals)"
  by (simp add: all_denied_def decision_of_event)

text \<open>The response handed to the guest: within the operation's response grant, without an injected secret.\<close>

definition delivered_ok :: "'x sem_lib_scheme \<Rightarrow> operation_grant \<Rightarrow> string set \<Rightarrow> serve_out \<Rightarrow> bool" where
  "delivered_ok L op secrets out \<longleftrightarrow> (\<exists>hdr data. \<not> (\<exists>x \<in> secrets. x \<noteq> '''' \<and> (sublist (go_bytes x) data \<or>
       (\<exists>(name, vals) \<in> set hdr. sublist x name \<or> (\<exists>v \<in> set vals. sublist x v)))) \<and>
     int (length data) \<le> rg_MaxBytes (og_Response op) \<and> so_status out \<in> set (rg_Statuses (og_Response op)) \<and>
     validateMediaAndJSON L (Header_Get hdr ''Content-Type'') data (rg_ContentTypes (og_Response op)) (rg_JSON (og_Response op)) = None \<and>
     prefix (so_body out) data \<and> so_header out = forwarded_header hdr)"

lemma serve_semantic_spec:
  assumes "grant_ok L g" "op \<in> set (gr_Operations g)"
  shows "\<exists>o1. serve_semantic L E t g r pg op out body st = Some o1 \<and>
    length (so_decisions o1) = (if te_OnDecision t then 1 else 0) \<and>
    (\<exists>outgoing hops. (so_requests o1 = [] \<or> so_requests o1 = \<lparr>sq_Method = gq_Method r, sq_URL = out, sq_Header = outgoing, sq_Body = body\<rparr> # hops) \<and>
       (\<forall>q \<in> set hops. hop_ok L g (te_Upstream t) (gq_Header r) outgoing q) \<and>
       (hops \<noteq> [] \<longrightarrow> int (length hops) \<le> rd_MaxHops (gr_Redirects g))) \<and>
    (all_denied o1 \<or> (\<exists>rop \<in> set (gr_Operations g). delivered_ok L rop (set (ss_secrets st)) o1))"
proof (cases "hardenedSemanticClient (te_Client t)")
  case False
  have "\<exists>outgoing hops. (\<forall>q \<in> set hops. hop_ok L g (te_Upstream t) (gq_Header r) outgoing q) \<and>
      (hops \<noteq> [] \<longrightarrow> int (length hops) \<le> rd_MaxHops (gr_Redirects g))"
    by (rule exI, rule exI [of _ "[]"]) simp
  with False show ?thesis by (auto simp: serve_semantic_def length_decision_of)
next
  case True
  define outgoing where "outgoing = (if map_of (ss_header st) ''User-Agent'' = None then AList.update ''User-Agent'' [] (ss_header st) else ss_header st)"
  let ?q = "\<lparr>sq_Method = gq_Method r, sq_URL = out, sq_Header = outgoing, sq_Body = body\<rparr>"
  obtain ex hops rop where f: "follow L g (te_Upstream t) (be_next E) (gq_Header r) outgoing op [?q] = Some (ex, ?q # hops, rop)"
    and rop: "rop \<in> set (gr_Operations g)" and h: "\<forall>q \<in> set hops. hop_ok L g (te_Upstream t) (gq_Header r) outgoing q"
    and n: "hops \<noteq> [] \<longrightarrow> int (length hops) \<le> rd_MaxHops (gr_Redirects g)"
    using follow_spec [OF assms, of "te_Upstream t" "be_next E" "gq_Header r" outgoing "[?q]"] by fastforce
  obtain pg1 where s: "serve_semantic L E t g r pg op out body st = Some (case ex of
      GotDenied d \<Rightarrow> denied E t r pg1 (?q # hops) 403 ''broker: redirect outside semantic grant'' ''semantic-redirect-deny'' [brokerSignalDenied]
    | GotError e \<Rightarrow> denied E t r pg1 (?q # hops) 502 (''broker: upstream: '' @ e) ''upstream-error'' []
    | GotResponse resp \<Rightarrow> (case check_response L rop (ss_secrets st) resp of
          Inl (message, rule) \<Rightarrow> denied E t r pg1 (?q # hops) 502 message rule [brokerSignalDenied]
        | Inr data \<Rightarrow> (case be_write E 0 data of (n, err) \<Rightarrow>
            allowed_out E t r pg1 ''semantic-grant'' (int (min (be_read E) (length body))) (?q # hops) resp (int n, take n data))))"
    using True f unfolding serve_semantic_def Let_def outgoing_def [symmetric] by simp
  show ?thesis
  proof (cases "\<exists>resp data. ex = GotResponse resp \<and> check_response L rop (ss_secrets st) resp = Inr data")
    case True
    then obtain resp data where e: "ex = GotResponse resp" "check_response L rop (ss_secrets st) resp = Inr data" by blast
    obtain k err where w: "be_write E 0 data = (k, err)" by fastforce
    note c = check_response_Inr [OF e(2)]
    have "delivered_ok L rop (set (ss_secrets st))
        (allowed_out E t r pg1 ''semantic-grant'' (int (min (be_read E) (length body))) (?q # hops) resp (int k, take k data))"
      unfolding delivered_ok_def using c
      by (intro exI [of _ "ur_Header resp"] exI [of _ data])
        (auto simp: allowed_out_def responseContainsSecret_def list_ex_iff take_is_prefix)
    with s e w rop h n show ?thesis by (auto simp: allowed_out_def length_decision_of)
  next
    case False
    then have "\<exists>pg2 status message rule signals. serve_semantic L E t g r pg op out body st =
        Some (denied E t r pg2 (?q # hops) status message rule signals)"
      using s by (cases ex) (auto split: sum.splits, blast+)
    with h n show ?thesis by (auto simp: length_decision_of)
  qed
qed

text \<open>
  A semantic endpoint: no panic, one decision record; a request that leaves matches exactly one operation of the grant, and so does each redirect; what is not
  denied was delivered within the response grant of an operation.
\<close>

definition first_ok :: "'x sem_lib_scheme \<Rightarrow> broker_grant \<Rightarrow> terminate \<Rightarrow> guest_request \<Rightarrow> sent_request \<Rightarrow> bool" where
  "first_ok L g t r q \<longleftrightarrow> sq_Method q = gq_Method r \<and> sq_URL q = effective_url (te_Upstream t) r \<and>
     (\<exists>op. granted_op L g (gq_Method r) (sq_URL q) op \<and> headers_ok L op (gq_Header r) \<and> body_ok L op (gq_Header r) (sq_Body q))"

definition requests_ok :: "'x sem_lib_scheme \<Rightarrow> broker_grant \<Rightarrow> terminate \<Rightarrow> guest_request \<Rightarrow> sent_request list \<Rightarrow> bool" where
  "requests_ok L g t r reqs \<longleftrightarrow> (case reqs of [] \<Rightarrow> True
     | q # hops \<Rightarrow> first_ok L g t r q \<and> (\<forall>h \<in> set hops. hop_ok L g (te_Upstream t) (gq_Header r) (sq_Header q) h) \<and>
         (hops \<noteq> [] \<longrightarrow> int (length hops) \<le> rd_MaxHops (gr_Redirects g)))"

definition semantic_outcome :: "'x sem_lib_scheme \<Rightarrow> broker_grant \<Rightarrow> terminate \<Rightarrow> guest_request \<Rightarrow> serve_out \<Rightarrow> bool" where
  "semantic_outcome L g t r out \<longleftrightarrow> length (so_decisions out) = (if te_OnDecision t then 1 else 0) \<and>
     requests_ok L g t r (so_requests out) \<and>
     (all_denied out \<or> (\<exists>op \<in> set (gr_Operations g). delivered_ok L op (injected (te_Resolve t) (gq_Header r)) out))"

lemma semantic_outcome_frame [simp]:
  "semantic_outcome L g t r (out\<lparr>so_captures := c\<rparr>) = semantic_outcome L g t r out"
  "semantic_outcome L g t r (out\<lparr>so_taps := c'\<rparr>) = semantic_outcome L g t r out"
  by (simp_all add: semantic_outcome_def all_denied_def delivered_ok_def)

lemma semantic_outcome_denied [simp]: "semantic_outcome L g t r (denied E t r pg [] status message rule signals)"
  by (simp add: semantic_outcome_def requests_ok_def length_decision_of)

lemma serve_semantic_outcome:
  assumes g: "grant_ok L g" and a: "granted_op L g (gq_Method r) (effective_url (te_Upstream t) r) op"
    "headers_ok L op (gq_Header r)" "body_ok L op (gq_Header r) body"
    and s: "swap_headers (te_Resolve t) (gq_Header r) \<lparr>ss_header = [], ss_secrets = [], ss_refs = []\<rparr> = Inr st"
  shows "\<exists>o1. serve_semantic L E t g r pg op (effective_url (te_Upstream t) r) body st = Some o1 \<and> semantic_outcome L g t r o1"
proof -
  let ?u = "effective_url (te_Upstream t) r"
  obtain o1 outgoing hops where o1: "serve_semantic L E t g r pg op ?u body st = Some o1"
    "length (so_decisions o1) = (if te_OnDecision t then 1 else 0)"
    "so_requests o1 = [] \<or> so_requests o1 = \<lparr>sq_Method = gq_Method r, sq_URL = ?u, sq_Header = outgoing, sq_Body = body\<rparr> # hops"
    "\<forall>q \<in> set hops. hop_ok L g (te_Upstream t) (gq_Header r) outgoing q" "hops \<noteq> [] \<longrightarrow> int (length hops) \<le> rd_MaxHops (gr_Redirects g)"
    "all_denied o1 \<or> (\<exists>rop \<in> set (gr_Operations g). delivered_ok L rop (set (ss_secrets st)) o1)"
    using serve_semantic_spec [OF g granted_op_in [OF a(1)], of E t r pg ?u body st] by blast
  have "set (ss_secrets st) = injected (te_Resolve t) (gq_Header r)" using swap_headers_secrets [OF s] by simp
  moreover have "requests_ok L g t r (so_requests o1)"
    using o1(3,4,5) a by (auto simp: requests_ok_def first_ok_def)
  ultimately show ?thesis using o1(1,2,6) by (simp add: semantic_outcome_def)
qed

lemma ServeHTTP_semantic:
  assumes sem: "te_Assurance t = BrokerAssuranceSemantic" "te_Grant t = Some g" and g: "grant_ok L g"
  shows "\<exists>out. ServeHTTP L E t r = Some out \<and> semantic_outcome L g t r out"
proof -
  let ?u = "effective_url (te_Upstream t) r"
  obtain sop res where a: "authorizeSemanticRequest L (Some g) (gq_Method r) (gq_Header r) (gq_Body r) (gq_ContentLength r) ?u = Some (sop, res)"
    using authorize_total [OF g] by (metis surj_pair)
  let ?swap = "swap_headers (te_Resolve t) (gq_Header r) \<lparr>ss_header = [], ss_secrets = [], ss_refs = []\<rparr>"
  show ?thesis
  proof (cases res)
    case (Inl e)
    with a sem show ?thesis by (simp add: ServeHTTP_def Let_def split: option.split)
  next
    case (Inr body)
    from authorize_Inr [OF g a [unfolded Inr]] obtain op where op: "sop = Some op" "granted_op L g (gq_Method r) ?u op"
      "headers_ok L op (gq_Header r)" "body_ok L op (gq_Header r) body" by blast
    show ?thesis
    proof (cases "be_build_fails E")
      case True
      with a Inr sem op show ?thesis by (simp add: ServeHTTP_def Let_def)
    next
      case nf: False
      show ?thesis
      proof (cases ?swap)
        case (Inl st)
        with a Inr sem op nf show ?thesis by (simp add: ServeHTTP_def Let_def)
      next
        case st: (Inr st)
        let ?pg = "\<lparr>pg_op = op_info_of L E op ?u, pg_final = None, pg_refs = ss_refs st, pg_labels = []\<rparr>"
        obtain o1 where o1: "serve_semantic L E t g r ?pg op ?u body st = Some o1" "semantic_outcome L g t r o1"
          using serve_semantic_outcome [OF g op(2-4) st, of E ?pg] by blast
        from a Inr sem op(1) nf st o1(1) obtain c' c where "ServeHTTP L E t r = Some (o1\<lparr>so_captures := c, so_taps := c'\<rparr>)"
          by (simp add: ServeHTTP_def Let_def)
        with o1(2) show ?thesis by simp
      qed
    qed
  qed
qed

end
