(* ===== verification/Tunnel.thy ===== *)
theory Tunnel
  imports BrokerProps "HOL-Library.Char_ord" "HOL-Library.List_Lexorder"
begin

text \<open>
  The CONNECT tunnel of the broker with its guarded dialer (pkg/broker: dialer.go, \<open>Connect\<close> and \<open>Handler\<close> of broker.go), the wiring of an
  endpoint (endpointserver.go) and the environment it gives the guest (guestenv.go). Name resolution, dialing and the two copies of a
  tunnel are arguments.
\<close>

section \<open>dialer.go\<close>

datatype dial_error = TunnelDenied | DialFailed string

text \<open>The address handed to the base dialer.\<close>

definition GuardedDial :: "(addr \<Rightarrow> bool) \<Rightarrow> (string \<Rightarrow> string + addr list) \<Rightarrow> string \<Rightarrow> dial_error + string" where
  "GuardedDial isInside resolve target = (case SplitHostPort target of
       None \<Rightarrow> Inl (DialFailed ''malformed tunnel target'')
     | Some (host, port) \<Rightarrow> (case ParseAddr host of
         Some ip \<Rightarrow> if isInside ip then Inl TunnelDenied else Inr target
       | None \<Rightarrow> (case resolve host of
           Inl e \<Rightarrow> Inl (DialFailed ''resolve tunnel host'')
         | Inr ips \<Rightarrow>
             if ips = [] then Inl (DialFailed ''resolved to no addresses'')
             else if list_ex isInside ips then Inl TunnelDenied
             else Inr (JoinHostPort (addr_String (hd ips)) port))))"

section \<open>broker.go: Connect and Handler\<close>

record connect =
  co_OnTap :: bool
  co_OnDecision :: bool
  co_Policy :: "broker_policy option"
  co_Assurance :: string
  co_Dial :: "string \<Rightarrow> dial_error + string"

text \<open>\<open>tn_base\<close> is the error of dialing the address, if any; \<open>tn_ready\<close>: the guest's connection was taken over and told so.\<close>

record tunnel_env =
  tn_ts :: time
  tn_ms :: int
  tn_base :: "string \<Rightarrow> string option"
  tn_hijack :: bool
  tn_ready :: bool
  tn_out :: int
  tn_in :: int

record connect_out =
  cn_taps :: "tap_record list"
  cn_decisions :: "decision_record list"
  cn_dialed :: "string option"
  cn_status :: int
  cn_spliced :: bool

definition connect_decision ::
  "tunnel_env \<Rightarrow> connect \<Rightarrow> guest_request \<Rightarrow> string \<Rightarrow> string \<Rightarrow> string \<Rightarrow> string list \<Rightarrow> string list \<Rightarrow> int \<Rightarrow> int \<Rightarrow> decision_record list" where
  "connect_decision E c r event verdict rule labels signals bo bi = (if \<not> co_OnDecision c then [] else
     [\<lparr>dr_head = \<lparr>dh_Event = event, dh_TS = tn_ts E, dh_Mode = ''connect'', dh_Host = gq_Host r, dh_Method = gq_Method r,
         dh_Assurance = co_Assurance c\<rparr>,
       dr_op = no_op, dr_RedirectHops = 0, dr_FinalHost = '''', dr_final = no_op,
       dr_outcome = \<lparr>dc_Verdict = verdict, dc_Rule = rule, dc_Status = 0, dc_BytesOut = bo, dc_BytesIn = bi, dc_DurationMs = tn_ms E\<rparr>,
       dr_SecretRefs = [], dr_Signals = signals, dr_Labels = labels\<rparr>])"

definition connect_ServeHTTP :: "tunnel_env \<Rightarrow> connect \<Rightarrow> guest_request \<Rightarrow> connect_out" where
  "connect_ServeHTTP E c r =
     (let tap = \<lparr>tp_Mode = ''connect'', tp_Method = gq_Method r, tp_Host = gq_Host r, tp_Path = '''', tp_Headers = [], tp_At = tn_ts E\<rparr>;
          taps = (if co_OnTap c then [tap] else []);
          v = evaluate (co_Policy c) tap;
          out = (\<lambda>ds dialed status spliced. \<lparr>cn_taps = taps, cn_decisions = ds, cn_dialed = dialed, cn_status = status, cn_spliced = spliced\<rparr>);
          deny = (\<lambda>rule labels signals. connect_decision E c r EventRequestDeny ''deny'' rule labels signals 0 0)
      in if \<not> bv_Allow v then out (deny (bv_Rule v) (bv_Labels v) [brokerSignalDenied]) None 403 False
         else (case co_Dial c (gq_Host r) of
             Inl TunnelDenied \<Rightarrow> out (deny ''denied'' [] [brokerSignalDenied]) None 403 False
           | Inl (DialFailed e) \<Rightarrow> out (deny ''upstream-error'' [] []) None 502 False
           | Inr address \<Rightarrow> (case tn_base E address of
                 Some e \<Rightarrow> out (deny ''upstream-error'' [] []) (Some address) 502 False
               | None \<Rightarrow>
                   if \<not> tn_hijack E then out [] (Some address) 500 False
                   else if \<not> tn_ready E then out [] (Some address) 0 False
                   else out (connect_decision E c r EventRequestAllow ''allow'' (bv_Rule v) (bv_Labels v) [] (tn_out E) (tn_in E))
                          (Some address) 200 True)))"

datatype handled = NotEnabled | ByConnect connect_out | ByTerminate "serve_out go"

definition broker_Handler ::
  "'x sem_lib_scheme \<Rightarrow> broker_env \<Rightarrow> tunnel_env \<Rightarrow> terminate option \<Rightarrow> connect option \<Rightarrow> guest_request \<Rightarrow> handled" where
  "broker_Handler L E T term conn r =
     (if gq_Method r = ''CONNECT'' then (case conn of None \<Rightarrow> NotEnabled | Some c \<Rightarrow> ByConnect (connect_ServeHTTP T c r))
      else (case term of None \<Rightarrow> NotEnabled | Some t \<Rightarrow> ByTerminate (ServeHTTP L E t r)))"

section \<open>endpointserver.go\<close>

datatype endpoint_handler = Unbound | Routes "terminate option" "connect option"

definition EndpointHandler ::
  "broker_config \<Rightarrow> terminate option \<Rightarrow> bool \<Rightarrow> (addr \<Rightarrow> bool) option \<Rightarrow> (string \<Rightarrow> string + addr list) \<Rightarrow> endpoint_handler" where
  "EndpointHandler bc term onDecision isInside resolve =
     (if bc_Assurance bc = BrokerAssuranceSemantic \<and>
         (case term of None \<Rightarrow> True | Some t \<Rightarrow> te_Assurance t \<noteq> BrokerAssuranceSemantic \<or> te_Grant t = None) then Unbound
      else (case isInside of
          Some inside \<Rightarrow> if bc_Proxy bc
            then Routes term (Some \<lparr>co_OnTap = False, co_OnDecision = onDecision, co_Policy = AllowlistPolicy (bc_ConnectAllowlist bc),
              co_Assurance = bc_Assurance bc, co_Dial = GuardedDial inside resolve\<rparr>)
            else Routes term None
        | None \<Rightarrow> Routes term None))"

text \<open>What the file system answers when an endpoint starts.\<close>

record endpoint_fs =
  fs_mkdir :: bool
  fs_log :: bool
  fs_ca :: bool
  fs_capture :: bool

datatype endpoint_error = NoEndpoint | Insecure grant_error | LogDir | AccessLog | BadTerminate | UpstreamCA | CaptureLog

definition StartEndpointServer ::
  "'x grant_lib_scheme \<Rightarrow> endpoint_fs \<Rightarrow> broker_config option \<Rightarrow> secret_resolver option \<Rightarrow> (addr \<Rightarrow> bool) option \<Rightarrow> (string \<Rightarrow> string + addr list) \<Rightarrow>
   endpoint_error + endpoint_handler" where
  "StartEndpointServer L F ep resolve isInside lookup = (case ep of None \<Rightarrow> Inl NoEndpoint
     | Some bc \<Rightarrow> (case ValidateBrokerSecurity L (Some bc) of Some e \<Rightarrow> Inl (Insecure e)
     | None \<Rightarrow>
        if \<not> fs_mkdir F then Inl LogDir
        else if \<not> fs_log F then Inl AccessLog
        else (case (if bc_Assurance bc = BrokerAssuranceSemantic then NewSemanticTerminate L (bc_Upstream bc) resolve False (bc_Grant bc)
                    else NewTerminate L (bc_Upstream bc) resolve False) of
            None \<Rightarrow> Inl BadTerminate
          | Some t \<Rightarrow>
              if bc_UpstreamCAFile bc \<noteq> '''' \<and> \<not> fs_ca F then Inl UpstreamCA
              else if bc_Capture bc \<and> \<not> fs_capture F then Inl CaptureLog
              else Inr (EndpointHandler bc
                (Some (t\<lparr>te_Client := (if bc_UpstreamCAFile bc \<noteq> '''' then Some HTTPTransport else None), te_OnDecision := True,
                   te_OnCapture := bc_Capture bc\<rparr>)) True isInside lookup))))"

section \<open>guestenv.go\<close>

record guest_config =
  gc_GuestListen :: string
  gc_VsockPort :: "32 word"
  gc_Proxy :: bool
  gc_BaseURL :: "(string, string) gomap"

definition vsockListenersEnv :: string where "vsockListenersEnv = ''MICROAGENT_VSOCK_TCP_LISTENERS''"

datatype guest_env_error = EmptyListen | ZeroPort | EmptyKey

fun base_urls :: "string \<Rightarrow> (string, string) gomap \<Rightarrow> (string, string) gomap \<Rightarrow> guest_env_error + (string, string) gomap" where
  "base_urls url [] env = Inr env"
| "base_urls url ((k, v) # rest) env =
     (if TrimSpace k = '''' then Inl EmptyKey else base_urls url rest (AList.update k (if v = '''' then url else v) env))"

definition GuestEnv :: "guest_config \<Rightarrow> guest_env_error + (string, string) gomap" where
  "GuestEnv c =
     (if TrimSpace (gc_GuestListen c) = '''' then Inl EmptyListen
      else if gc_VsockPort c = 0 then Inl ZeroPort
      else (let url = ''http://'' @ gc_GuestListen c;
                env = [(vsockListenersEnv, gc_GuestListen c @ ''='' @ dec (unat (gc_VsockPort c)))];
                env = (if gc_Proxy c then AList.update ''HTTP_PROXY'' url (AList.update ''HTTPS_PROXY'' url env) else env)
            in base_urls url (gc_BaseURL c) env))"

fun merge_specs :: "string list \<Rightarrow> string list \<Rightarrow> string list" where
  "merge_specs seen [] = rev seen"
| "merge_specs seen (e # rest) = (let e' = TrimSpace e in
     if e' = '''' \<or> e' \<in> set seen then merge_specs seen rest else merge_specs (e' # seen) rest)"

definition mergeVsockListenerSpecs :: "string \<Rightarrow> string \<Rightarrow> string" where
  "mergeVsockListenerSpecs existing added = Join '','' (merge_specs [] (Split (existing @ '','' @ added) CHR '',''))"

definition env_or_empty :: "(string, string) gomap \<Rightarrow> string \<Rightarrow> string" where
  "env_or_empty m k = (case map_of m k of Some v \<Rightarrow> v | None \<Rightarrow> '''')"

fun merge_env :: "string list \<Rightarrow> (string, string) gomap \<Rightarrow> string list \<Rightarrow> (string, string) gomap \<times> string list" where
  "merge_env [] add out = (add, out)"
| "merge_env (kv # rest) add out = (case Cut kv CHR ''='' of (k, v, ok) \<Rightarrow>
     if ok \<and> k = vsockListenersEnv then merge_env rest (AList.update k (mergeVsockListenerSpecs v (env_or_empty add k)) add) out
     else if ok \<and> map_of add k \<noteq> None then merge_env rest add out
     else merge_env rest add (out @ [kv]))"

definition MergeGuestEnv :: "guest_config \<Rightarrow> string list \<Rightarrow> guest_env_error + string list" where
  "MergeGuestEnv c existing = (case GuestEnv c of Inl e \<Rightarrow> Inl e
     | Inr add \<Rightarrow> (case merge_env existing add [] of (add', out) \<Rightarrow>
         Inr (sort (out @ map (\<lambda>(k, v). k @ ''='' @ v) add'))))"

definition MergeGuestEnvMap :: "guest_config \<Rightarrow> (string, string) gomap \<Rightarrow> guest_env_error + (string, string) gomap" where
  "MergeGuestEnvMap c existing = (case GuestEnv c of Inl e \<Rightarrow> Inl e
     | Inr add \<Rightarrow> Inr (fold (\<lambda>(k, v) out. AList.update k (if k = vsockListenersEnv
         then mergeVsockListenerSpecs (env_or_empty existing k) v else v) out) add existing))"

section \<open>The tunnel reaches no inside address\<close>

lemma GuardedDial_outside:
  assumes "GuardedDial isInside resolve target = Inr a"
  shows "\<exists>ip. \<not> isInside ip \<and> (\<exists>host port. SplitHostPort target = Some (host, port) \<and>
    (ParseAddr host = Some ip \<and> a = target \<or>
     (\<exists>ips. resolve host = Inr ips \<and> (\<forall>i \<in> set ips. \<not> isInside i) \<and> ip = hd ips \<and> a = JoinHostPort (addr_String ip) port)))"
  using assms
  by (auto simp: GuardedDial_def list_ex_iff split: option.splits prod.splits sum.splits if_splits)

lemma evaluate_fail_closed: "bv_Allow (evaluate (Some p) tap) \<Longrightarrow> \<exists>v. p tap = PolicyVerdict v \<and> bv_Allow v"
  by (auto simp: evaluate_def split: policy_result.splits if_splits)

lemma connect_dialed:
  assumes "cn_dialed (connect_ServeHTTP E c r) = Some a"
  shows "co_Dial c (gq_Host r) = Inr a \<and>
    (\<exists>tap. tp_Host tap = gq_Host r \<and> bv_Allow (evaluate (co_Policy c) tap))"
proof -
  let ?tap = "\<lparr>tp_Mode = ''connect'', tp_Method = gq_Method r, tp_Host = gq_Host r, tp_Path = '''', tp_Headers = [], tp_At = tn_ts E\<rparr>"
  have "bv_Allow (evaluate (co_Policy c) ?tap) \<and> co_Dial c (gq_Host r) = Inr a"
    using assms by (simp add: connect_ServeHTTP_def Let_def split: if_splits sum.splits dial_error.splits option.splits)
  then show ?thesis by (intro conjI exI [of _ ?tap]) simp_all
qed

definition tunnel_allowed :: "string list \<Rightarrow> string \<Rightarrow> bool" where
  "tunnel_allowed hs host \<longleftrightarrow> hs = [] \<or> host \<in> set hs \<or> (\<exists>h p. SplitHostPort host = Some (h, p) \<and> h \<in> set hs)"

lemma AllowlistPolicy_allows:
  "bv_Allow (evaluate (AllowlistPolicy hs) tap) \<longleftrightarrow> tunnel_allowed hs (tp_Host tap)"
  by (auto simp: AllowlistPolicy_def evaluate_def tunnel_allowed_def split: option.splits)

section \<open>The guest's environment\<close>

text \<open>An entry whose key is none of the broker's.\<close>

definition unowned :: "(string, string) gomap \<Rightarrow> string \<Rightarrow> bool" where
  "unowned add kv \<longleftrightarrow> (case Cut kv CHR ''='' of (k, v, ok) \<Rightarrow> ok \<longrightarrow> map_of add k = None \<and> k \<noteq> vsockListenersEnv)"

lemma merge_env_out:
  "merge_env existing add out = (add', out') \<Longrightarrow>
     (\<forall>k. k \<noteq> vsockListenersEnv \<longrightarrow> map_of add' k = map_of add k) \<and> (wf_map add \<longrightarrow> wf_map add') \<and> set out \<subseteq> set out' \<and>
     (\<forall>kv \<in> set out'. kv \<in> set out \<or> unowned add kv)"
proof (induction existing arbitrary: add out)
  case (Cons kv rest)
  obtain k v ok where c: "Cut kv CHR ''='' = (k, v, ok)" by (cases "Cut kv CHR ''=''") auto
  consider "ok \<and> k = vsockListenersEnv" | "ok \<and> k \<noteq> vsockListenersEnv \<and> map_of add k \<noteq> None" | "\<not> ok \<or> k \<noteq> vsockListenersEnv \<and> map_of add k = None" by fastforce
  then show ?case
  proof cases
    case 1
    obtain add1 where a: "add1 = AList.update k (mergeVsockListenerSpecs v (env_or_empty add k)) add" by blast
    with 1 Cons.prems c have m: "merge_env rest add1 out = (add', out')" by simp
    have s: "\<forall>k. k \<noteq> vsockListenersEnv \<longrightarrow> map_of add1 k = map_of add k" "wf_map add \<longrightarrow> wf_map add1"
      using 1 by (simp_all add: a wf_map_def distinct_update)
    then have "unowned add1 = unowned add" by (auto simp: unowned_def fun_eq_iff split: prod.splits)
    with s Cons.IH [OF m] show ?thesis by metis
  next
    case 2
    with Cons.prems c have "merge_env rest add out = (add', out')" by auto
    from Cons.IH [OF this] show ?thesis .
  next
    case 3
    with Cons.prems c have m: "merge_env rest add (out @ [kv]) = (add', out')" by auto
    have "unowned add kv" using 3 c by (auto simp: unowned_def)
    with Cons.IH [OF m] show ?thesis by auto
  qed
qed simp

lemma base_urls_wf: "base_urls url bs env = Inr env' \<Longrightarrow> wf_map env \<Longrightarrow> wf_map env'"
  by (induction bs arbitrary: env) (auto simp: wf_map_def distinct_update split: if_splits prod.splits)

lemma GuestEnv_wf: "GuestEnv c = Inr env \<Longrightarrow> wf_map env"
  by (auto simp: GuestEnv_def Let_def wf_map_def distinct_update split: if_splits dest!: base_urls_wf)

lemma Cut_assignment: "CHR ''='' \<notin> set k \<Longrightarrow> Cut (k @ CHR ''='' # v) CHR ''='' = (k, v, True)"
  by (simp add: Cut_def) (induction k, auto)

text \<open>Whatever the workload had set, the broker's keys have the broker's values.\<close>

lemma MergeGuestEnv_owned:
  assumes "GuestEnv c = Inr add" "MergeGuestEnv c existing = Inr out" "\<forall>k \<in> dom (map_of add). CHR ''='' \<notin> set k"
    and "map_of add k = Some v" "k \<noteq> vsockListenersEnv" "kv \<in> set out" "Cut kv CHR ''='' = (k, v', True)"
  shows "v' = v"
proof -
  obtain add' rest where m: "merge_env existing add [] = (add', rest)" by (cases "merge_env existing add []")
  note s = merge_env_out [OF m]
  have "kv \<in> set rest \<or> kv \<in> (\<lambda>(k, v). k @ ''='' @ v) ` set add'"
    using assms(2,6) by (auto simp: MergeGuestEnv_def assms(1) m)
  then show ?thesis
  proof
    assume "kv \<in> set rest"
    with s have "unowned add kv" by auto
    with assms(4,7) show ?thesis by (simp add: unowned_def)
  next
    assume "kv \<in> (\<lambda>(k, v). k @ ''='' @ v) ` set add'"
    then obtain k1 v1 where kv: "kv = k1 @ ''='' @ v1" "(k1, v1) \<in> set add'" by auto
    have wf: "wf_map add'" using s GuestEnv_wf [OF assms(1)] by blast
    then have k1: "map_of add' k1 = Some v1" using kv(2) by (simp add: wf_map_def)
    have "CHR ''='' \<notin> set k1"
    proof (cases "k1 = vsockListenersEnv")
      case False
      with s k1 have "map_of add k1 = Some v1" by auto
      with assms(3) show ?thesis by blast
    qed (simp add: vsockListenersEnv_def)
    with kv(1) assms(7) have "k1 = k" "v1 = v'" by (simp_all add: Cut_assignment)
    with k1 s assms(4,5) show ?thesis by auto
  qed
qed

end
