(* ===== verification/BrokerSamples.thy ===== *)
theory BrokerSamples
  imports Tunnel
begin

text \<open>A concrete broker endpoint with one granted operation, and a request it grants.\<close>

definition items_op :: operation_grant where
  "items_op = \<lparr>og_Name = ''get-item'', og_Effect = ''read'', og_Method = ''GET'', og_Route = ''/v1/items/{id}'',
     og_PathParameters = [(''id'', [''a'', ''b''])], og_Query = [],
     og_Headers = [\<lparr>vg_Name = ''Authorization'', vg_Required = True, vg_Values = [''Bearer @secret:key''], vg_Pattern = '''', vg_MaxBytes = 0, vg_AllowURL = False\<rparr>],
     og_Body = None,
     og_Response = \<lparr>rg_Statuses = [200], rg_ContentTypes = [''application/json''], rg_MaxBytes = 1000,
       rg_JSON = Some \<lparr>js_Type = ''object'', js_Properties = [(''id'', ''string'')], js_Required = [''id''], js_AdditionalProperties = False\<rparr>,
       rg_CredentialDisclosure = ''deny-exact''\<rparr>\<rparr>"

definition items_grant :: broker_grant where
  "items_grant = \<lparr>gr_Operations = [items_op], gr_Redirects = \<lparr>rd_Allow = False, rd_MaxHops = 0, rd_AllowedOrigins = []\<rparr>\<rparr>"

definition items_url :: broker_url where
  "items_url = \<lparr>bu_Scheme = ''https'', bu_HasUser = False, bu_Host = ''api.example.com'', bu_Path = '''', bu_RawPath = '''', bu_RawQuery = '''', bu_Fragment = ''''\<rparr>"

definition items_lib :: sem_lib where
  "items_lib = \<lparr>bl_url_Parse = (\<lambda>s. if s = ''https://api.example.com'' then Some items_url else None), bl_Compile = (\<lambda>p. None),
     bl_ParseMediaType = (\<lambda>s. if s = ''application/json'' then Some s else None),
     bl_json = (\<lambda>b. if b = [123, 125] then Some (JObject [(''id'', JString ''a'')], True) else None), bl_sha256 = (\<lambda>s. ''00'')\<rparr>"

definition items_config :: broker_config where
  "items_config = (semantic_config ''https://api.example.com'' (Some items_grant))\<lparr>bc_Capture := True\<rparr>"

definition proxy_config :: broker_config where
  "proxy_config = (semantic_config ''https://api.example.com'' None)\<lparr>bc_Assurance := ''trusted-upstream'', bc_Proxy := True,
     bc_ConnectAllowlist := [''api.example.com'']\<rparr>"

definition good_fs :: endpoint_fs where
  "good_fs = \<lparr>fs_mkdir = True, fs_log = True, fs_ca = True, fs_capture = True\<rparr>"

definition key_resolver :: secret_resolver where
  "key_resolver n = (if n = ''key'' then (''s3cr3t'', True) else ('''', False))"

definition items_request :: guest_request where
  "items_request = \<lparr>gq_Method = ''GET'', gq_Host = ''127.0.0.1'', gq_Path = ''/v1/items/a'', gq_RawQuery = '''',
     gq_Header = [(''Authorization'', [''Bearer @secret:key''])], gq_Body = Some \<lparr>bs_data = [], bs_err = None\<rparr>, gq_ContentLength = 0\<rparr>"

definition items_env :: broker_env where
  "items_env = \<lparr>be_ts = 0, be_ms = 1, be_build_fails = False,
     be_next = (\<lambda>reqs. Responded \<lparr>ur_Status = 200, ur_Header = [(''Content-Type'', [''application/json''])], ur_Chunks = [[123, 125]], ur_End = None\<rparr>),
     be_do = (\<lambda>q. Inl ''unused''), be_read = 0, be_write = (\<lambda>i b. (length b, None)), be_signals = (\<lambda>op u. [])\<rparr>"

definition tunnel_sample_env :: tunnel_env where
  "tunnel_sample_env = \<lparr>tn_ts = 0, tn_ms = 1, tn_base = (\<lambda>a. None), tn_hijack = True, tn_ready = True, tn_out = 10, tn_in = 20\<rparr>"

definition tunnel_request :: guest_request where
  "tunnel_request = items_request\<lparr>gq_Method := ''CONNECT'', gq_Host := ''api.example.com:443''\<rparr>"

definition items_terminate :: terminate where
  "items_terminate = \<lparr>te_Upstream = items_url, te_Resolve = Some key_resolver, te_OnTap = False, te_OnDecision = True,
     te_Policy = Some deny_only, te_OnCapture = True, te_CaptureBodyLimit = 0, te_Client = None, te_Assurance = BrokerAssuranceSemantic,
     te_Grant = Some items_grant\<rparr>"

lemma items_validated: "ValidateBrokerSecurity items_lib (Some items_config) = None"
  by code_simp

lemma items_validated': "ValidateBrokerSecurity items_lib (Some (semantic_config ''https://api.example.com'' (Some items_grant))) = None"
  by code_simp

lemma items_served: "StartEndpointServer items_lib good_fs (Some items_config) (Some key_resolver) None look = Inr (Routes (Some items_terminate) None)"
  using items_validated items_validated'
  by (simp add: StartEndpointServer_def items_config_def semantic_config_def good_fs_def NewSemanticTerminate_def NewTerminate_def
      items_lib_def items_url_def items_terminate_def EndpointHandler_def BrokerAssuranceSemantic_def)

lemma items_requested: "map_option (\<lambda>o1. (map sq_Header (so_requests o1), so_status o1, so_body o1)) (ServeHTTP items_lib items_env items_terminate items_request) =
  Some ([[(''Authorization'', [''Bearer s3cr3t'']), (''User-Agent'', [])]], 200, [123, 125])"
  by code_simp

lemma proxy_served: "\<exists>t. StartEndpointServer items_lib good_fs (Some proxy_config) (Some key_resolver) (Some isInsideAddr) (\<lambda>h. Inr [V4 0x5db8d822]) =
  Inr (Routes (Some t) (Some \<lparr>co_OnTap = False, co_OnDecision = True, co_Policy = AllowlistPolicy [''api.example.com''],
     co_Assurance = ''trusted-upstream'', co_Dial = GuardedDial isInsideAddr (\<lambda>h. Inr [V4 0x5db8d822])\<rparr>))"
proof -
  have "ValidateBrokerSecurity items_lib (Some proxy_config) = None" by code_simp
  then show ?thesis
    by (simp add: StartEndpointServer_def proxy_config_def semantic_config_def good_fs_def NewTerminate_def
      items_lib_def items_url_def EndpointHandler_def BrokerAssuranceSemantic_def)
qed

end
