(* ===== verification/Names.thy ===== *)
theory Names
  imports Go_Prelude
begin

text \<open>
  The names of the workspace layer: workspace names and snapshot tags, which become directory names
  of the host (pkg/workspace/lifecycle_state.go, pkg/vmkit/types.go), host names of the guest, and the
  declarations of disks and outputs. An error is a value; its message is left out.
\<close>

section \<open>Workspace names and snapshot tags\<close>

definition in_range :: "char \<Rightarrow> char \<Rightarrow> char \<Rightarrow> bool" where
  "in_range lo hi c \<longleftrightarrow> (of_char lo :: nat) \<le> of_char c \<and> (of_char c :: nat) \<le> of_char hi"

definition alnum :: "char \<Rightarrow> bool" where
  "alnum c \<longleftrightarrow> in_range (CHR ''A'') (CHR ''Z'') c \<or> in_range (CHR ''a'') (CHR ''z'') c \<or> in_range (CHR ''0'') (CHR ''9'') c"

definition name_char :: "char \<Rightarrow> bool" where
  "name_char c \<longleftrightarrow> alnum c \<or> c \<in> {CHR ''.'', CHR ''_'', CHR ''-''}"

text \<open>The expression \<open>^[A-Za-z0-9][A-Za-z0-9._-]{0,62}$\<close>, which names and tags share.\<close>

definition workspaceNameRE :: "string \<Rightarrow> bool" where
  "workspaceNameRE s = (case s of [] \<Rightarrow> False | c # cs \<Rightarrow> alnum c \<and> list_all name_char cs \<and> length cs \<le> 62)"

definition safeSnapshotTagRE :: "string \<Rightarrow> bool" where
  "safeSnapshotTagRE s = (case s of [] \<Rightarrow> False | c # cs \<Rightarrow> alnum c \<and> list_all name_char cs \<and> length cs \<le> 62)"

definition reservedWorkspaceNames :: "string list" where
  "reservedWorkspaceNames = [''build'', ''host-workers'', ''images'', ''kernels'', ''models'', ''oci'', ''runners'',
     ''volumes'', ''workspaces'']"

datatype name_error = NameRequired | NameInvalid string | NameReserved string

definition ValidateName :: "string \<Rightarrow> name_error option" where
  "ValidateName name =
     (if TrimSpace name = [] then Some NameRequired
      else if \<not> workspaceNameRE name then Some (NameInvalid name)
      else if name \<in> set reservedWorkspaceNames then Some (NameReserved name)
      else None)"

definition SafeSnapshotTag :: "string \<Rightarrow> bool" where
  "SafeSnapshotTag s = safeSnapshotTagRE s"

datatype tag_error = TagRequired | TagInvalid string

definition validateTag :: "string \<Rightarrow> tag_error option" where
  "validateTag tag =
     (if TrimSpace tag = [] then Some TagRequired
      else if \<not> SafeSnapshotTag tag then Some (TagInvalid tag)
      else None)"

definition SafeIdentifier :: "string \<Rightarrow> bool" where
  "SafeIdentifier s =
     (let v = TrimSpace s in
      if v = [] \<or> v = ''.'' \<or> v = ''..'' then False
      else \<not> list_ex (\<lambda>c. c \<in> {CHR ''/'', CHR 0x5C}) v \<and> CHR 0x00 \<notin> set v)"

section \<open>Host names\<close>

definition host_rune :: "char \<Rightarrow> bool" where
  "host_rune r \<longleftrightarrow> in_range (CHR ''a'') (CHR ''z'') r \<or> in_range (CHR ''0'') (CHR ''9'') r"

fun hostname_loop :: "string \<Rightarrow> bool \<Rightarrow> string \<Rightarrow> string" where
  "hostname_loop b lastHyphen [] = b"
| "hostname_loop b lastHyphen (r # rs) =
     (if host_rune r then hostname_loop (b @ [r]) False rs
      else if \<not> lastHyphen \<and> b \<noteq> [] then hostname_loop (b @ ''-'') True rs
      else hostname_loop b lastHyphen rs)"

abbreviation hyphen :: "char \<Rightarrow> bool" where
  "hyphen \<equiv> (\<lambda>c. c = CHR ''-'')"

definition DefaultHostname :: "string \<Rightarrow> string" where
  "DefaultHostname name =
     (let b = hostname_loop [] False (ToLower (TrimSpace name));
          out = trim_right hyphen (trim_left hyphen b);
          out = (if length out > 63 then trim_right hyphen (take 63 out) else out)
      in if out = [] then ''microagent'' else out)"

datatype hostname_error = HostnameRequired | HostnameLong | HostnameHyphen | HostnameCharacter

definition hostname_char :: "char \<Rightarrow> bool" where
  "hostname_char r \<longleftrightarrow> in_range (CHR ''a'') (CHR ''z'') r \<or> in_range (CHR ''A'') (CHR ''Z'') r \<or>
     in_range (CHR ''0'') (CHR ''9'') r \<or> r = CHR ''-''"

definition ValidateHostname :: "string \<Rightarrow> hostname_error option" where
  "ValidateHostname hostname =
     (let h = TrimSpace hostname in
      if h = [] then Some HostnameRequired
      else if length h > 63 then Some HostnameLong
      else if hd h = CHR ''-'' \<or> last h = CHR ''-'' then Some HostnameHyphen
      else if \<not> list_all hostname_char h then Some HostnameCharacter
      else None)"

section \<open>Disks and outputs\<close>

record disk_decl =
  dk_Name :: string
  dk_Path :: string
  dk_SourcePath :: string
  dk_Mountpoint :: string
  dk_Mode :: string
  dk_Bundle :: bool
  dk_ManagedVolume :: bool

datatype disk_error = DiskNameRequired | DiskReserved | DiskPathRequired | DiskMountRequired | DiskMountRelative | DiskMode

definition ValidateDisk :: "disk_decl \<Rightarrow> disk_error option" where
  "ValidateDisk d =
     (let p = (if dk_Bundle d then dk_SourcePath d else dk_Path d) in
      if TrimSpace (dk_Name d) = [] then Some DiskNameRequired
      else if dk_Name d = ''rootfs'' \<or> dk_Name d = ''config'' then Some DiskReserved
      else if TrimSpace p = [] then Some DiskPathRequired
      else if TrimSpace (dk_Mountpoint d) = [] then Some DiskMountRequired
      else if \<not> HasPrefix (dk_Mountpoint d) ''/'' then Some DiskMountRelative
      else if dk_Mode d \<noteq> ''ro'' \<and> dk_Mode d \<noteq> ''rw'' then Some DiskMode
      else None)"

record output_decl =
  ou_Name :: string
  ou_Path :: string

datatype output_error = OutputNameRequired | OutputPathRequired | OutputPathRelative

definition ValidateOutput :: "output_decl \<Rightarrow> output_error option" where
  "ValidateOutput d =
     (if TrimSpace (ou_Name d) = [] then Some OutputNameRequired
      else if TrimSpace (ou_Path d) = [] then Some OutputPathRequired
      else if \<not> HasPrefix (ou_Path d) ''/'' then Some OutputPathRelative
      else None)"

section \<open>A valid name is one path component\<close>

lemma in_range_code: "in_range lo hi c \<Longrightarrow> (of_char lo :: nat) \<le> of_char c \<and> (of_char c :: nat) \<le> of_char hi"
  by (simp add: in_range_def)

lemma name_char_cases:
  assumes "name_char c"
  shows "\<not> is_space c" "c \<noteq> CHR ''/''" "c \<noteq> CHR 0x5C" "c \<noteq> CHR 0x00"
  using assms by (auto simp: name_char_def alnum_def in_range_def is_space_def)

lemma alnum_name_char: "alnum c \<Longrightarrow> name_char c"
  by (simp add: name_char_def)

lemma alnum_not_dot: "alnum c \<Longrightarrow> c \<noteq> CHR ''.''"
  by (auto simp: alnum_def in_range_def)

lemma name_chars: "workspaceNameRE s \<Longrightarrow> c \<in> set s \<Longrightarrow> name_char c"
  by (auto simp: workspaceNameRE_def list_all_iff alnum_name_char split: list.splits)

lemma ValidateName_None:
  "ValidateName s = None \<longleftrightarrow> workspaceNameRE s \<and> s \<notin> set reservedWorkspaceNames"
proof -
  have "TrimSpace s = s" if "workspaceNameRE s"
    using name_chars [OF that] name_char_cases(1) by (intro TrimSpace_no_space) blast
  moreover have "s \<noteq> []" if "workspaceNameRE s" using that by (auto simp: workspaceNameRE_def)
  ultimately show ?thesis by (auto simp: ValidateName_def)
qed

lemma tag_is_name: "SafeSnapshotTag s = workspaceNameRE s"
  by (simp add: SafeSnapshotTag_def safeSnapshotTagRE_def workspaceNameRE_def)

lemma name_component:
  assumes "workspaceNameRE s"
  shows "s \<noteq> []" "s \<noteq> ''.''" "s \<noteq> ''..''" "CHR ''/'' \<notin> set s" "CHR 0x00 \<notin> set s" "length s \<le> 63" "TrimSpace s = s"
proof -
  show "s \<noteq> []" "length s \<le> 63" using assms by (auto simp: workspaceNameRE_def split: list.splits)
  have "hd s \<noteq> CHR ''.''" using assms alnum_not_dot by (auto simp: workspaceNameRE_def split: list.splits)
  then show "s \<noteq> ''.''" "s \<noteq> ''..''" by auto
  show "CHR ''/'' \<notin> set s" "CHR 0x00 \<notin> set s" using name_chars [OF assms] name_char_cases by blast+
  show "TrimSpace s = s" using name_chars [OF assms] name_char_cases(1) by (intro TrimSpace_no_space) blast
qed

section \<open>A derived host name is valid\<close>

lemma trim_right_decomp2: "\<exists>t. trim_right P s @ t = s"
  using trim_right_decomp by metis

lemma trim_right_hd:
  assumes "trim_right P s \<noteq> []"
  shows "hd (trim_right P s) = hd s"
proof -
  obtain t where "trim_right P s @ t = s" using trim_right_decomp2 by blast
  then show ?thesis using hd_append2 [OF assms, of t] by simp
qed

lemma trim_left_hd: "trim_left P s \<noteq> [] \<Longrightarrow> \<not> P (hd (trim_left P s))"
  by (simp add: trim_left_def hd_dropWhile)

lemma trim_right_Nil: "trim_right P s = [] \<Longrightarrow> \<forall>c \<in> set s. P c"
  using trim_right_decomp [of s P] by auto

lemma hostname_loop_set: "set (hostname_loop b l rs) \<subseteq> set b \<union> {r \<in> set rs. host_rune r} \<union> {CHR ''-''}"
  by (induction b l rs rule: hostname_loop.induct) (fastforce split: if_splits)+

lemma host_rune_char: "host_rune c \<Longrightarrow> hostname_char c"
  by (auto simp: host_rune_def hostname_char_def)

lemma hostname_char_space: "hostname_char c \<Longrightarrow> \<not> is_space c"
  by (auto simp: hostname_char_def in_range_def is_space_def)

lemma ValidateHostname_shape:
  assumes "h \<noteq> []" "length h \<le> 63" "hd h \<noteq> CHR ''-''" "last h \<noteq> CHR ''-''" "\<forall>c \<in> set h. hostname_char c"
  shows "ValidateHostname h = None"
proof -
  have "TrimSpace h = h" using assms(5) hostname_char_space by (intro TrimSpace_no_space) blast
  moreover have "list_all hostname_char h" using assms(5) by (simp add: list_all_iff)
  ultimately show ?thesis using assms(1-4) by (simp add: ValidateHostname_def)
qed

definition hostname_shape :: "string \<Rightarrow> bool" where
  "hostname_shape h \<longleftrightarrow> hd h \<noteq> CHR ''-'' \<and> last h \<noteq> CHR ''-'' \<and> (\<forall>c \<in> set h. hostname_char c)"

lemma trimmed_shape:
  assumes "\<forall>c \<in> set s. hostname_char c" "hd s \<noteq> CHR ''-''" "s \<noteq> []"
  shows "trim_right hyphen s \<noteq> []" "hostname_shape (trim_right hyphen s)"
proof -
  show ne: "trim_right hyphen s \<noteq> []" using trim_right_Nil assms(2,3) hd_in_set by blast
  show "hostname_shape (trim_right hyphen s)"
    unfolding hostname_shape_def
  proof (intro conjI ballI)
    show "hd (trim_right hyphen s) \<noteq> CHR ''-''" using trim_right_hd [OF ne] assms(2) by simp
    show "last (trim_right hyphen s) \<noteq> CHR ''-''" using trim_right_last [OF ne] by simp
    fix c assume "c \<in> set (trim_right hyphen s)"
    then show "hostname_char c" using set_trim_right assms(1) by blast
  qed
qed

lemma length_trim_right: "length (trim_right P s) \<le> length s"
  using trim_right_decomp2 [of P s] by (metis length_append le_add1)

lemma DefaultHostname_valid: "ValidateHostname (DefaultHostname name) = None"
proof -
  define b where "b = hostname_loop [] False (ToLower (TrimSpace name))"
  define l where "l = trim_left hyphen b"
  define out where "out = trim_right hyphen l"
  have "\<forall>c \<in> set b. hostname_char c"
    using hostname_loop_set [of "[]" False "ToLower (TrimSpace name)"] host_rune_char unfolding b_def
    by (auto simp: hostname_char_def)
  then have lc: "\<forall>c \<in> set l. hostname_char c" using set_trim_left unfolding l_def by blast
  have D: "DefaultHostname name = (let o2 = (if length out > 63 then trim_right hyphen (take 63 out) else out)
      in if o2 = [] then ''microagent'' else o2)"
    by (simp add: DefaultHostname_def Let_def b_def l_def out_def)
  show ?thesis
  proof (cases "l = []")
    case True
    then have "DefaultHostname name = ''microagent''" by (simp add: D out_def trim_right_def)
    then show ?thesis by (auto intro!: ValidateHostname_shape simp: hostname_char_def in_range_def)
  next
    case False
    then have hl: "hd l \<noteq> CHR ''-''" using trim_left_hd unfolding l_def by blast
    note o = trimmed_shape [OF lc hl False, folded out_def]
    show ?thesis
    proof (cases "length out > 63")
      case True
      let ?t = "take 63 out"
      have "?t \<noteq> []" "hd ?t = hd out" "\<forall>c \<in> set ?t. hostname_char c"
        using True o by (auto simp: hostname_shape_def hd_take dest: in_set_takeD)
      then have s: "trim_right hyphen ?t \<noteq> []" "hostname_shape (trim_right hyphen ?t)"
        using trimmed_shape [of ?t] o(2) by (auto simp: hostname_shape_def)
      moreover have "length (trim_right hyphen ?t) \<le> 63"
        using length_trim_right [of hyphen ?t] by simp
      ultimately show ?thesis using True D by (auto simp: hostname_shape_def intro!: ValidateHostname_shape)
    next
      case False
      then show ?thesis using o D by (auto simp: hostname_shape_def intro!: ValidateHostname_shape)
    qed
  qed
qed

end
