(* ===== verification/EgressPolicy.thy ===== *)
theory EgressPolicy
  imports Go_Prelude
begin

text \<open>
  The egress policy of a workspace as the host decides it before a launch: the modes (pkg/vmkit/types.go),
  the policy bundle and its checks (egresspolicy.go), the capture provider that a backend offers
  (egresscapture.go), the policy made from the options of a workspace and the composition of
  capabilities (pkg/workspace).
\<close>

section \<open>Modes\<close>

abbreviation EgressModeBroker :: string where "EgressModeBroker \<equiv> ''broker''"
abbreviation EgressModeMITM :: string where "EgressModeMITM \<equiv> ''mitm''"
abbreviation EgressModeOff :: string where "EgressModeOff \<equiv> ''off''"

definition retiredEgressModes :: "string list" where
  "retiredEgressModes = [''guarded'', ''strict'']"

datatype mode_error = RetiredMode string | UnknownMode string

definition ValidateEgressMode :: "string \<Rightarrow> mode_error + string" where
  "ValidateEgressMode mode =
     (let m = ToLower (TrimSpace mode) in
      if m = [] then Inr EgressModeBroker
      else if m \<in> {EgressModeBroker, EgressModeMITM, EgressModeOff} then Inr m
      else if m \<in> set retiredEgressModes then Inl (RetiredMode m)
      else Inl (UnknownMode mode))"

definition ResolveEgressModeDefault :: "string \<Rightarrow> string" where
  "ResolveEgressModeDefault mode = (let m = ToLower (TrimSpace mode) in if m = [] then EgressModeBroker else m)"

definition EgressMediationOn :: "string \<Rightarrow> bool" where
  "EgressMediationOn mode = (let m = ToLower (TrimSpace mode) in m = EgressModeBroker \<or> m = EgressModeMITM)"

definition EgressModeForgesCerts :: "string \<Rightarrow> bool" where
  "EgressModeForgesCerts mode \<longleftrightarrow> ToLower (TrimSpace mode) = EgressModeMITM"

definition NetworkModeMediates :: "string \<Rightarrow> bool" where
  "NetworkModeMediates mode \<longleftrightarrow> ToLower (TrimSpace mode) \<in> {[], ''user''}"

section \<open>The policy bundle\<close>

record egress_caps =
  cap_MaxBytesPerSec :: int
  cap_MaxTotalBytes :: int
  cap_MaxConcurrentConns :: int
  cap_AuditMaxBytes :: int
  cap_AuditMaxBackups :: int

record egress_policy =
  ep_Mode :: string
  ep_Allow :: "string list"
  ep_Passthrough :: "string list"
  ep_SwapConfigPath :: string
  ep_Caps :: egress_caps
  ep_DNS :: "string list"
  ep_AllowlistLocked :: bool

text \<open>The loop over the entries, with the set of entries seen.\<close>

fun clean_loop :: "string set \<Rightarrow> string list \<Rightarrow> string list" where
  "clean_loop seen [] = []"
| "clean_loop seen (x # xs) =
     (let s = TrimSpace x in
      if s = [] \<or> s \<in> seen then clean_loop seen xs else s # clean_loop (insert s seen) xs)"

definition cleanList :: "string list \<Rightarrow> string list" where
  "cleanList xs = clean_loop {} xs"

definition NormalizeEgressPolicy :: "egress_policy \<Rightarrow> egress_policy" where
  "NormalizeEgressPolicy p = p\<lparr>ep_Mode := ResolveEgressModeDefault (ep_Mode p), ep_Allow := cleanList (ep_Allow p),
     ep_Passthrough := cleanList (ep_Passthrough p), ep_DNS := cleanList (ep_DNS p)\<rparr>"

datatype egress_error = PolicyMode mode_error | NegativeCap string int | NetworkCannotMediate string | NoCapture string "string list"

definition policy_ValidateForNetworkMode :: "egress_policy \<Rightarrow> string \<Rightarrow> egress_error option" where
  "policy_ValidateForNetworkMode p networkMode =
     (let nm = ToLower (TrimSpace networkMode) in
      if EgressMediationOn (ep_Mode p) \<and> \<not> NetworkModeMediates networkMode \<and> nm \<noteq> ''isolated''
      then Some (NetworkCannotMediate networkMode) else None)"

definition policy_Validate :: "egress_policy \<Rightarrow> egress_error option" where
  "policy_Validate p = (case ValidateEgressMode (ep_Mode p) of Inl e \<Rightarrow> Some (PolicyMode e) | Inr _ \<Rightarrow>
     (let c = ep_Caps p in
      if cap_MaxBytesPerSec c < 0 then Some (NegativeCap ''MaxBytesPerSec'' (cap_MaxBytesPerSec c))
      else if cap_MaxTotalBytes c < 0 then Some (NegativeCap ''MaxTotalBytes'' (cap_MaxTotalBytes c))
      else if cap_MaxConcurrentConns c < 0 then Some (NegativeCap ''MaxConcurrentConns'' (cap_MaxConcurrentConns c))
      else if cap_AuditMaxBytes c < 0 then Some (NegativeCap ''AuditMaxBytes'' (cap_AuditMaxBytes c))
      else if cap_AuditMaxBackups c < 0 then Some (NegativeCap ''AuditMaxBackups'' (cap_AuditMaxBackups c))
      else None))"

section \<open>Capture providers\<close>

datatype provider_status = ProviderSupported | ProviderExperimental | ProviderUnsupported
datatype coverage_status = CoverageComplete | CoverageConstrained | CoverageOff | CoverageUnsupported
datatype class_coverage = ClassMediate | ClassDrop | ClassNotApplicable | ClassUncovered
datatype enforcement = HostDatapath | GuestShim | GatewayVM | Unmediated
datatype guest_role = Oblivious | ShimRequired | NoRole
datatype bypass = BypassUnset | HostEnforced | TamperBreaks | BypassNone
datatype encrypted_dns = DeniedHTTP1 | Opaque | EncryptedNA | EncryptedUnsupported

record egress_coverage =
  cov_TCP :: class_coverage
  cov_DNS :: class_coverage
  cov_UDP :: class_coverage
  cov_QUIC :: class_coverage
  cov_IPv6 :: class_coverage
  cov_NonTCPUDPIPv4 :: class_coverage

record capture_report =
  rep_Mode :: string
  rep_Provider :: string
  rep_ProviderStatus :: provider_status
  rep_CoverageStatus :: coverage_status
  rep_Enforcement :: enforcement
  rep_GuestRole :: guest_role
  rep_Coverage :: egress_coverage
  rep_OriginalTCP :: bool
  rep_OriginalUDP :: bool
  rep_Bypass :: bypass
  rep_EncryptedDNS :: encrypted_dns
  rep_Limitations :: "string list"

definition classes :: "egress_coverage \<Rightarrow> class_coverage list" where
  "classes c = [cov_TCP c, cov_DNS c, cov_UDP c, cov_QUIC c, cov_IPv6 c, cov_NonTCPUDPIPv4 c]"

definition HasUncoveredClass :: "capture_report \<Rightarrow> bool" where
  "HasUncoveredClass r = list_ex (\<lambda>c. c = ClassUncovered) (classes (rep_Coverage r))"

definition MediatesAnyClass :: "capture_report \<Rightarrow> bool" where
  "MediatesAnyClass r = (let c = rep_Coverage r in
     list_ex (\<lambda>x. x = ClassMediate) [cov_TCP c, cov_DNS c, cov_UDP c, cov_QUIC c])"

definition uniformCoverage :: "class_coverage \<Rightarrow> egress_coverage" where
  "uniformCoverage c = \<lparr>cov_TCP = c, cov_DNS = c, cov_UDP = c, cov_QUIC = c, cov_IPv6 = c, cov_NonTCPUDPIPv4 = c\<rparr>"

definition setEncryptedDNSCoverage :: "capture_report \<Rightarrow> capture_report" where
  "setEncryptedDNSCoverage r =
     (if rep_Mode r = EgressModeMITM then r\<lparr>rep_EncryptedDNS := DeniedHTTP1\<rparr>
      else r\<lparr>rep_EncryptedDNS := Opaque, rep_Limitations := rep_Limitations r @
        [''broker mode captures encrypted DNS connections but cannot inspect their HTTP semantics'']\<rparr>)"

definition no_capture :: "string \<Rightarrow> capture_report" where
  "no_capture mode = \<lparr>rep_Mode = mode, rep_Provider = ''none'', rep_ProviderStatus = ProviderSupported,
     rep_CoverageStatus = CoverageOff, rep_Enforcement = Unmediated, rep_GuestRole = NoRole,
     rep_Coverage = uniformCoverage ClassNotApplicable, rep_OriginalTCP = False, rep_OriginalUDP = False,
     rep_Bypass = BypassUnset, rep_EncryptedDNS = EncryptedNA, rep_Limitations = []\<rparr>"

definition full_capture :: "string \<Rightarrow> string \<Rightarrow> capture_report" where
  "full_capture mode provider = \<lparr>rep_Mode = mode, rep_Provider = provider, rep_ProviderStatus = ProviderSupported,
     rep_CoverageStatus = CoverageComplete, rep_Enforcement = HostDatapath, rep_GuestRole = Oblivious,
     rep_Coverage = \<lparr>cov_TCP = ClassMediate, cov_DNS = ClassMediate, cov_UDP = ClassMediate, cov_QUIC = ClassMediate,
       cov_IPv6 = ClassMediate, cov_NonTCPUDPIPv4 = ClassDrop\<rparr>,
     rep_OriginalTCP = True, rep_OriginalUDP = True, rep_Bypass = HostEnforced, rep_EncryptedDNS = EncryptedNA,
     rep_Limitations = []\<rparr>"

definition NegotiateEgressCapture :: "string \<Rightarrow> string \<Rightarrow> string \<Rightarrow> capture_report" where
  "NegotiateEgressCapture backend networkMode egressMode =
     (let mode = ResolveEgressModeDefault egressMode in
      if mode = EgressModeOff then no_capture mode
      else if \<not> NetworkModeMediates networkMode then no_capture mode
      else if backend = ''linux-kvm'' then setEncryptedDNSCoverage (full_capture mode ''linux-netfilter-prerouting'')
      else if backend = ''apple-vf'' then setEncryptedDNSCoverage (full_capture mode ''applevf-host-fd-gateway'')
      else (no_capture mode)\<lparr>rep_ProviderStatus := ProviderUnsupported, rep_CoverageStatus := CoverageUnsupported,
        rep_Coverage := uniformCoverage ClassUncovered, rep_Bypass := BypassNone,
        rep_EncryptedDNS := EncryptedUnsupported, rep_Limitations := [''unknown backend has no egress capture provider'']\<rparr>)"

definition policy_ValidateForCaptureProvider :: "egress_policy \<Rightarrow> string \<Rightarrow> string \<Rightarrow> egress_error option" where
  "policy_ValidateForCaptureProvider p backend networkMode =
     (if \<not> EgressMediationOn (ep_Mode p) then None
      else let r = NegotiateEgressCapture backend networkMode (ep_Mode p) in
        if HasUncoveredClass r then Some (NoCapture backend (rep_Limitations r)) else None)"

section \<open>The policy of a workspace\<close>

record egress_options =
  eo_Mode :: string
  eo_Allow :: "string list"
  eo_Passthrough :: "string list"
  eo_AllowlistLocked :: bool
  eo_SwapConfigPath :: string
  eo_MaxBytesPerSec :: int
  eo_MaxTotalBytes :: int
  eo_MaxTotalBytesExplicit :: bool
  eo_MaxConcurrentConns :: int
  eo_MaxConcurrentConnsExplicit :: bool
  eo_NetworkMode :: string
  eo_Secrets :: nat
  eo_SecretEnvFiles :: nat
  eo_OnDemandSecrets :: nat
  eo_Files :: nat
  eo_Disks :: nat
  eo_RiskAcknowledgement :: string

abbreviation DefaultEgressMaxTotalBytes :: int where "DefaultEgressMaxTotalBytes \<equiv> 53687091200"
abbreviation DefaultEgressMaxConcurrentConns :: int where "DefaultEgressMaxConcurrentConns \<equiv> 256"

definition EgressPolicyFromOptions :: "egress_options \<Rightarrow> egress_policy" where
  "EgressPolicyFromOptions opts =
     (let on = EgressMediationOn (ResolveEgressModeDefault (eo_Mode opts));
          bytes = (if on \<and> eo_MaxTotalBytes opts = 0 \<and> \<not> eo_MaxTotalBytesExplicit opts
            then DefaultEgressMaxTotalBytes else eo_MaxTotalBytes opts);
          conns = (if on \<and> eo_MaxConcurrentConns opts = 0 \<and> \<not> eo_MaxConcurrentConnsExplicit opts
            then DefaultEgressMaxConcurrentConns else eo_MaxConcurrentConns opts)
      in \<lparr>ep_Mode = eo_Mode opts, ep_Allow = eo_Allow opts, ep_Passthrough = eo_Passthrough opts,
          ep_SwapConfigPath = eo_SwapConfigPath opts,
          ep_Caps = \<lparr>cap_MaxBytesPerSec = eo_MaxBytesPerSec opts, cap_MaxTotalBytes = bytes,
            cap_MaxConcurrentConns = conns, cap_AuditMaxBytes = 0, cap_AuditMaxBackups = 0\<rparr>,
          ep_DNS = [], ep_AllowlistLocked = eo_AllowlistLocked opts\<rparr>)"

text \<open>The chokepoint at the head of \<open>Request\<close>: the policy that the request of a launch carries.\<close>

definition request_policy :: "egress_options \<Rightarrow> egress_error + egress_policy" where
  "request_policy opts =
     (let pol = NormalizeEgressPolicy (EgressPolicyFromOptions opts) in
      case policy_Validate pol of Some e \<Rightarrow> Inl e | None \<Rightarrow>
      (case policy_ValidateForNetworkMode pol (eo_NetworkMode opts) of Some e \<Rightarrow> Inl e | None \<Rightarrow> Inr pol))"

definition isLaunchCommand :: "string \<Rightarrow> bool" where
  "isLaunchCommand command \<longleftrightarrow> TrimSpace command \<in> {''run'', ''prepare'', ''start''}"

text \<open>The gate of \<open>Dispatch\<close>: a launch with a configuration needs a provider for its mode. The configuration
  is the egress mode and the network mode, when the request carries one.\<close>

definition launch_gate :: "string \<Rightarrow> string \<Rightarrow> (string \<times> string option) option \<Rightarrow> egress_error option" where
  "launch_gate backend command config =
     (case config of
       Some (egressMode, network) \<Rightarrow>
         if isLaunchCommand command
         then policy_ValidateForCaptureProvider
           \<lparr>ep_Mode = egressMode, ep_Allow = [], ep_Passthrough = [], ep_SwapConfigPath = [],
            ep_Caps = \<lparr>cap_MaxBytesPerSec = 0, cap_MaxTotalBytes = 0, cap_MaxConcurrentConns = 0, cap_AuditMaxBytes = 0,
              cap_AuditMaxBackups = 0\<rparr>, ep_DNS = [], ep_AllowlistLocked = False\<rparr>
           backend (case network of None \<Rightarrow> [] | Some m \<Rightarrow> m)
         else None
     | None \<Rightarrow> None)"

section \<open>Composition of capabilities\<close>

record composition =
  cc_Categories :: "string list"
  cc_Sources :: "string list"
  cc_Invariant :: string
  cc_Acknowledged :: bool
  cc_Acknowledgement :: string

definition EvaluateCapabilityComposition :: "egress_options \<Rightarrow> composition" where
  "EvaluateCapabilityComposition opts =
     (let privateData = eo_Secrets opts > 0 \<or> eo_SecretEnvFiles opts > 0 \<or> eo_OnDemandSecrets opts > 0;
          externalContent = eo_Files opts > 0 \<or> eo_Disks opts > 0;
          unmediatedOutbound = ToLower (TrimSpace (eo_NetworkMode opts)) \<noteq> ''isolated'' \<and>
            ResolveEgressModeDefault (eo_Mode opts) = EgressModeOff;
          mediated = EgressMediationOn (ResolveEgressModeDefault (eo_Mode opts)) \<and> NetworkModeMediates (eo_NetworkMode opts);
          bad = privateData \<and> externalContent \<and> unmediatedOutbound;
          ack = (if bad then TrimSpace (eo_RiskAcknowledgement opts) else [])
      in \<lparr>cc_Categories = (if privateData then [''private-data''] else []) @
            (if externalContent then [''external-content''] else []) @
            (if mediated then [''mediated-outbound''] else []) @
            (if unmediatedOutbound then [''unmediated-outbound''] else []),
          cc_Sources = (if privateData then [''guest-secrets''] else []) @
            (if externalContent then [''injected-files-or-disks''] else []) @
            (if unmediatedOutbound then [''egress-off''] else []),
          cc_Invariant = (if bad then ''private-data+external-content+unmediated-outbound'' else []),
          cc_Acknowledged = (bad \<and> ack \<noteq> []), cc_Acknowledgement = ack\<rparr>)"

definition validateCapabilityComposition :: "egress_options \<Rightarrow> bool" where
  "validateCapabilityComposition opts \<longleftrightarrow> (let r = EvaluateCapabilityComposition opts in cc_Invariant r = [] \<or> cc_Acknowledged r)"

section \<open>Normal lists\<close>

lemma trim_left_idem: "trim_left P (trim_left P s) = trim_left P s"
  by (simp add: trim_left_def dropWhile_idem)

lemma TrimSpace_Nil [simp]: "TrimSpace [] = []"
  by (simp add: TrimSpace_def trim_left_def trim_right_def)

lemma TrimSpace_idem [simp]: "TrimSpace (TrimSpace s) = TrimSpace s"
proof (cases "TrimSpace s = []")
  case False
  let ?l = "trim_left is_space s"
  have r: "trim_right is_space ?l \<noteq> []" using False by (simp add: TrimSpace_def)
  obtain t where "trim_right is_space ?l @ t = ?l" using trim_right_decomp by metis
  then have "hd (trim_right is_space ?l) = hd ?l" using r by (metis hd_append2)
  moreover have "?l \<noteq> []" using r by (auto simp: trim_right_def)
  then have "\<not> is_space (hd ?l)" unfolding trim_left_def by (rule hd_dropWhile)
  ultimately have "trim_left is_space (trim_right is_space ?l) = trim_right is_space ?l"
    using r by (cases "trim_right is_space ?l") (auto simp: trim_left_def)
  then show ?thesis using trim_right_last [OF r] by (simp add: TrimSpace_def trim_right_id)
qed simp

lemma set_clean_loop: "set (clean_loop seen xs) = {s \<in> TrimSpace ` set xs. s \<noteq> []} - seen"
  by (induction seen xs rule: clean_loop.induct) (auto simp: Let_def)

lemma distinct_clean_loop: "distinct (clean_loop seen xs)"
  by (induction seen xs rule: clean_loop.induct) (auto simp: Let_def set_clean_loop)

lemma clean_loop_clean:
  "distinct xs \<Longrightarrow> set xs \<inter> seen = {} \<Longrightarrow> \<forall>s \<in> set xs. s \<noteq> [] \<and> TrimSpace s = s \<Longrightarrow> clean_loop seen xs = xs"
  by (induction xs arbitrary: seen) (auto simp: Let_def)

lemma cleanList_idem: "cleanList (cleanList xs) = cleanList xs"
  unfolding cleanList_def
  by (rule clean_loop_clean) (auto simp: distinct_clean_loop set_clean_loop)

text \<open>A lower-cased trimmed mode is a fixed point of the resolution.\<close>

lemma is_space_lower [simp]: "is_space (lower_char c) = is_space c"
proof (cases "65 \<le> (of_char c :: nat) \<and> (of_char c :: nat) \<le> 90")
  case True
  then have "(of_char (lower_char c) :: nat) = of_char c + 32" by (simp add: lower_char_def Let_def)
  with True show ?thesis by (auto simp: is_space_def)
next
  case False
  then show ?thesis by (auto simp: lower_char_def Let_def)
qed

lemma TrimSpace_ToLower: "TrimSpace (ToLower s) = ToLower (TrimSpace s)"
proof -
  have d: "dropWhile is_space (map lower_char xs) = map lower_char (dropWhile is_space xs)" for xs
    by (induction xs) auto
  show ?thesis by (simp add: TrimSpace_def trim_left_def trim_right_def ToLower_def d rev_map)
qed

lemma Resolve_fixed: "ToLower (TrimSpace (ResolveEgressModeDefault m)) = ResolveEgressModeDefault m"
  by (auto simp: ResolveEgressModeDefault_def Let_def TrimSpace_ToLower)
    (simp_all add: ToLower_def TrimSpace_def trim_left_def trim_right_def is_space_def lower_char_def Let_def)

lemma Resolve_idem: "ResolveEgressModeDefault (ResolveEgressModeDefault m) = ResolveEgressModeDefault m"
proof -
  have "ResolveEgressModeDefault m \<noteq> []" by (auto simp: ResolveEgressModeDefault_def Let_def)
  then show ?thesis using Resolve_fixed [of m] by (simp add: ResolveEgressModeDefault_def [of "ResolveEgressModeDefault m"])
qed

lemma Normalize_idem: "NormalizeEgressPolicy (NormalizeEgressPolicy p) = NormalizeEgressPolicy p"
  by (simp add: NormalizeEgressPolicy_def cleanList_idem Resolve_idem)

section \<open>A launch is covered or explicitly off\<close>

definition covered :: "egress_coverage \<Rightarrow> bool" where
  "covered c \<longleftrightarrow> cov_TCP c = ClassMediate \<and> cov_DNS c = ClassMediate \<and> cov_UDP c = ClassMediate \<and>
     cov_QUIC c = ClassMediate \<and> cov_IPv6 c = ClassMediate \<and> cov_NonTCPUDPIPv4 c = ClassDrop"

lemma request_policy_mode:
  assumes "request_policy opts = Inr pol"
  shows "ep_Mode pol = ResolveEgressModeDefault (eo_Mode opts)" "ep_Mode pol \<in> {EgressModeBroker, EgressModeMITM, EgressModeOff}"
    "policy_ValidateForNetworkMode pol (eo_NetworkMode opts) = None"
proof -
  have pol: "pol = NormalizeEgressPolicy (EgressPolicyFromOptions opts)" and v: "policy_Validate pol = None"
    and n: "policy_ValidateForNetworkMode pol (eo_NetworkMode opts) = None"
    using assms by (auto simp: request_policy_def Let_def split: option.splits)
  show m: "ep_Mode pol = ResolveEgressModeDefault (eo_Mode opts)"
    by (simp add: pol NormalizeEgressPolicy_def EgressPolicyFromOptions_def Let_def)
  have "ToLower (TrimSpace (ep_Mode pol)) = ep_Mode pol" by (simp add: m Resolve_fixed)
  moreover have "ep_Mode pol \<noteq> []" by (auto simp: m ResolveEgressModeDefault_def Let_def)
  ultimately show "ep_Mode pol \<in> {EgressModeBroker, EgressModeMITM, EgressModeOff}"
    using v by (auto simp: policy_Validate_def ValidateEgressMode_def Let_def split: sum.splits if_splits)
  show "policy_ValidateForNetworkMode pol (eo_NetworkMode opts) = None" by (fact n)
qed

lemma mediated_needs_provider:
  assumes "EgressMediationOn mode" "NetworkModeMediates nm" "ResolveEgressModeDefault mode = mode"
    "policy_ValidateForCaptureProvider (p\<lparr>ep_Mode := mode\<rparr>) backend nm = None"
  shows "backend \<in> {''linux-kvm'', ''apple-vf''} \<and> covered (rep_Coverage (NegotiateEgressCapture backend nm mode)) \<and>
    rep_Bypass (NegotiateEgressCapture backend nm mode) = HostEnforced"
proof -
  have "mode \<noteq> EgressModeOff"
    using assms(1) by (auto simp: EgressMediationOn_def Let_def ToLower_def TrimSpace_def trim_left_def trim_right_def
        is_space_def lower_char_def)
  then show ?thesis
    using assms(2-4) \<open>EgressMediationOn mode\<close>
    by (auto simp: policy_ValidateForCaptureProvider_def NegotiateEgressCapture_def Let_def HasUncoveredClass_def
        classes_def uniformCoverage_def covered_def full_capture_def setEncryptedDNSCoverage_def no_capture_def split: if_splits)
qed

end
