(* ===== verification/Containment.thy ===== *)
theory Containment
  imports Names EgressPolicy
begin

text \<open>
  Containment of a workspace (pkg/vmkit/containment.go, pkg/workspace/lifecycle_containment.go) and the fences
  that its marker puts before every other operation (Dispatch in workspace.go, Control in
  lifecycle_control.go, EnsureCanStart in lifecycle_state.go, SnapshotRemove in lifecycle_snapshot.go).

  The state is what one workspace keeps on disk: the marker directory, the containment record,
  the runtime document and the snapshot manifests, with the trace of the effects that left the library. The
  outcome of every system call, of the supervisor and of the capture is an argument, read at a
  counter of interactions, so that each attempt may end differently. Times are values of the clock; zero is the
  zero time. Messages of errors are kept where the record keeps them.
\<close>

section \<open>The record\<close>

datatype phase_status = PhasePending | Completed | Skipped | Failed | OtherStatus string

record phase_result =
  pr_Status :: phase_status
  pr_ObservedAt :: "time option"
  pr_Error :: string

record containment_result =
  cr_Version :: int
  cr_Backend :: string
  cr_State :: string
  cr_AcceptedAt :: time
  cr_UpdatedAt :: time
  cr_Error :: string
  cr_CaptureRequired :: bool
  cr_CaptureTag :: string
  cr_Freeze :: phase_result
  cr_Severance :: phase_result
  cr_Capture :: phase_result
  cr_Stop :: phase_result
  cr_Custody :: phase_result

datatype containment_error = BadVersion int | BackendRequired | TimesRequired | BadState string | BadPhase
  | SeveredEarly | CapturedEarly | CaptureTagRequired | SkippedKeepsTag | CaptureNotRequired
  | CaptureFailedStopped | StopWithoutCustody | CustodyWithoutStop | ContainedEarly

text \<open>The body of the loop over the phases. Go visits the phases in any order; the order decides only which
  phase the message names.\<close>

definition phase_bad :: "phase_result \<Rightarrow> bool" where
  "phase_bad p \<longleftrightarrow> (case pr_Status p of
       PhasePending \<Rightarrow> pr_ObservedAt p \<noteq> None
     | Completed \<Rightarrow> pr_ObservedAt p = None
     | Skipped \<Rightarrow> pr_ObservedAt p = None
     | Failed \<Rightarrow> pr_ObservedAt p = None
     | OtherStatus _ \<Rightarrow> True) \<or> (pr_Status p = Failed \<and> TrimSpace (pr_Error p) = [])"

definition ValidateContainmentResult :: "containment_result \<Rightarrow> containment_error option" where
  "ValidateContainmentResult r =
     (let freeze = pr_Status (cr_Freeze r); sever = pr_Status (cr_Severance r); capture = pr_Status (cr_Capture r);
          stop = pr_Status (cr_Stop r); custody = pr_Status (cr_Custody r) in
      if cr_Version r \<noteq> 1 then Some (BadVersion (cr_Version r))
      else if TrimSpace (cr_Backend r) = [] then Some BackendRequired
      else if cr_AcceptedAt r = 0 \<or> cr_UpdatedAt r = 0 then Some TimesRequired
      else if cr_State r \<noteq> ''in_progress'' \<and> cr_State r \<noteq> ''contained'' then Some (BadState (cr_State r))
      else if list_ex phase_bad [cr_Freeze r, cr_Severance r, cr_Capture r, cr_Stop r, cr_Custody r] then Some BadPhase
      else if sever = Completed \<and> freeze \<noteq> Completed then Some SeveredEarly
      else if capture = Completed \<and> (freeze \<noteq> Completed \<or> sever \<noteq> Completed) then Some CapturedEarly
      else if capture = Completed \<and> TrimSpace (cr_CaptureTag r) = [] then Some CaptureTagRequired
      else if capture = Skipped \<and> TrimSpace (cr_CaptureTag r) \<noteq> [] then Some SkippedKeepsTag
      else if \<not> cr_CaptureRequired r \<and> capture \<noteq> Skipped then Some CaptureNotRequired
      else if capture = Failed \<and> cr_State r = ''in_progress'' \<and> stop \<noteq> PhasePending then Some CaptureFailedStopped
      else if stop = Completed \<and> custody \<noteq> Completed then Some StopWithoutCustody
      else if custody = Completed \<and> stop \<noteq> Completed then Some CustodyWithoutStop
      else if cr_State r = ''contained'' \<and> (stop \<noteq> Completed \<or> custody \<noteq> Completed) then Some ContainedEarly
      else None)"

section \<open>The workspace on disk and the environment\<close>

datatype 'a doc = Missing | Broken | Doc 'a

record runtime_doc =
  rt_State :: string
  rt_PID :: int
  rt_SessionID :: string
  rt_Purpose :: string
  rt_CorrelationID :: string

record snapshot_manifest =
  sm_Forensic :: bool
  sm_FrozenProcessState :: bool

record cont_options =
  co_Name :: string
  co_Backend :: string
  co_Purpose :: string
  co_CorrelationID :: string
  co_EvidenceRef :: string

record sup_request =
  sr_Command :: string
  sr_RuntimeID :: string
  sr_Backend :: string
  sr_SessionID :: string
  sr_Purpose :: string
  sr_CorrelationID :: string
  sr_EvidenceRef :: string

datatype effect = Cmd sup_request "string option" | Captured string "string option" | Persisted containment_result | Guest string

record cworld =
  cw_marker :: bool
  cw_record :: "containment_result doc"
  cw_runtime :: "runtime_doc doc"
  cw_event :: "string doc"
  cw_snapshots :: "string \<Rightarrow> snapshot_manifest option"
  cw_tick :: nat
  cw_trace :: "effect list"

datatype write_outcome = WriteOK | WriteFails | WriteUnsynced
datatype dir_outcome = DirOK | DirMissing | NotDir
datatype lock_outcome = LockError | LockBusy | LockAcquired

datatype dispatch_error = PhaseOwned | RawQuarantine | BadRuntimeName name_error | CommandDenied string string
  | Uncovered egress_error | SupFailed string

record cont_env =
  ce_now :: "nat \<Rightarrow> time"
  ce_stat_error :: bool
  ce_mkdir_fails :: "nat \<Rightarrow> bool"
  ce_sync_ok :: "nat \<Rightarrow> bool"
  ce_write :: "nat \<Rightarrow> write_outcome"
  ce_supervisor :: "nat \<Rightarrow> sup_request \<Rightarrow> string option \<times> runtime_doc doc"
  ce_capture :: "nat \<Rightarrow> string \<Rightarrow> string option \<times> (string \<Rightarrow> snapshot_manifest option)"
  ce_status :: "nat \<Rightarrow> string option"
  ce_normalize :: "cont_options \<Rightarrow> string + cont_options"
  ce_directory :: dir_outcome
  ce_lock :: lock_outcome
  ce_default_tag :: string
  ce_lease :: "string + bool"
  ce_response_ok :: "nat \<Rightarrow> bool"
  ce_supports :: "string \<Rightarrow> bool"
  ce_inspect :: "string option"
  ce_shutdown :: "string option"
  ce_new_session :: string
  ce_state_dir :: string
  ce_supervisor_path :: string
  ce_error_text :: "dispatch_error \<Rightarrow> string"

abbreviation clock :: "cont_env \<Rightarrow> cworld \<Rightarrow> time" where
  "clock E w \<equiv> ce_now E (cw_tick w)"

definition ContainmentMarked :: "cont_env \<Rightarrow> cworld \<Rightarrow> bool" where
  "ContainmentMarked E w \<longleftrightarrow> cw_marker w \<or> ce_stat_error E"

datatype read_error = ReadMissing | ReadBroken | ReadInvalid containment_error

definition ReadContainment :: "cworld \<Rightarrow> read_error + containment_result" where
  "ReadContainment w = (case cw_record w of
       Missing \<Rightarrow> Inl ReadMissing
     | Broken \<Rightarrow> Inl ReadBroken
     | Doc r \<Rightarrow> (case ValidateContainmentResult r of Some e \<Rightarrow> Inl (ReadInvalid e) | None \<Rightarrow> Inr r))"

datatype persist_error = PersistInvalid containment_error | PersistIO

text \<open>\<open>writeContainment\<close> returns the result with its new time, as the pointer does.\<close>

definition writeContainment :: "cont_env \<Rightarrow> cworld \<Rightarrow> containment_result \<Rightarrow> persist_error option \<times> containment_result \<times> cworld" where
  "writeContainment E w c =
     (let c = c\<lparr>cr_UpdatedAt := clock E w\<rparr>; w' = w\<lparr>cw_tick := Suc (cw_tick w)\<rparr> in
      case ValidateContainmentResult c of
        Some e \<Rightarrow> (Some (PersistInvalid e), c, w')
      | None \<Rightarrow> (let saved = w'\<lparr>cw_record := Doc c, cw_trace := cw_trace w' @ [Persisted c]\<rparr> in
         case ce_write E (cw_tick w) of
           WriteFails \<Rightarrow> (Some PersistIO, c, w')
         | WriteUnsynced \<Rightarrow> (Some PersistIO, c, saved)
         | WriteOK \<Rightarrow> (None, c, saved)))"

definition completedContainmentPhase :: "time \<Rightarrow> phase_result" where
  "completedContainmentPhase t = \<lparr>pr_Status = Completed, pr_ObservedAt = Some t, pr_Error = []\<rparr>"

definition failedContainmentPhase :: "time \<Rightarrow> string \<Rightarrow> phase_result" where
  "failedContainmentPhase t e = \<lparr>pr_Status = Failed, pr_ObservedAt = Some t, pr_Error = e\<rparr>"

definition skippedContainmentPhase :: "time \<Rightarrow> string \<Rightarrow> phase_result" where
  "skippedContainmentPhase t reason = \<lparr>pr_Status = Skipped, pr_ObservedAt = Some t, pr_Error = reason\<rparr>"

abbreviation pendingPhase :: phase_result where
  "pendingPhase \<equiv> \<lparr>pr_Status = PhasePending, pr_ObservedAt = None, pr_Error = []\<rparr>"

datatype begin_error = BackendMismatch | ReadExisting read_error | MarkFailed | SyncMarker | WriteInitial persist_error

definition initial_containment :: "time \<Rightarrow> cont_options \<Rightarrow> string \<Rightarrow> bool \<Rightarrow> containment_result" where
  "initial_containment t opts captureTag skipCapture =
     \<lparr>cr_Version = 1, cr_Backend = co_Backend opts, cr_State = ''in_progress'', cr_AcceptedAt = t, cr_UpdatedAt = t, cr_Error = [],
      cr_CaptureRequired = (\<not> skipCapture), cr_CaptureTag = captureTag, cr_Freeze = pendingPhase, cr_Severance = pendingPhase,
      cr_Capture = (if skipCapture then skippedContainmentPhase t [] else pendingPhase),
      cr_Stop = pendingPhase, cr_Custody = pendingPhase\<rparr>"

definition beginContainment :: "cont_env \<Rightarrow> cworld \<Rightarrow> cont_options \<Rightarrow> string \<Rightarrow> bool \<Rightarrow> containment_result \<times> begin_error option \<times> cworld" where
  "beginContainment E w opts captureTag skipCapture =
     (let result = initial_containment (clock E w) opts captureTag skipCapture; w1 = w\<lparr>cw_tick := Suc (cw_tick w)\<rparr> in
      if ce_mkdir_fails E (cw_tick w) then (result, Some MarkFailed, w1)
      else if cw_marker w then
        (case ReadContainment w of
           Inr existing \<Rightarrow> if cr_Backend existing \<noteq> co_Backend opts then (result, Some BackendMismatch, w1) else (existing, None, w1)
         | Inl e \<Rightarrow> (result, Some (ReadExisting e), w1))
      else
        (let w2 = w1\<lparr>cw_marker := True\<rparr> in
         if \<not> ce_sync_ok E (cw_tick w) then (result, Some SyncMarker, w2)
         else (case writeContainment E w2 result of (e, c, w3) \<Rightarrow> (c, map_option WriteInitial e, w3))))"

section \<open>The fence of Dispatch\<close>

text \<open>The text of an error of the supervisor, with the state directory and the supervisor path of the options. The
  name is one that \<open>ValidateName\<close> accepts, so that its quoted form is the name between quotes. \<open>cause\<close> is the detail of
  the response when it has one, and the error otherwise.\<close>

definition contextualDispatchError :: "cont_env \<Rightarrow> sup_request \<Rightarrow> string \<Rightarrow> string" where
  "contextualDispatchError E r cause =
     (let or_else = (\<lambda>s d. if TrimSpace s = [] then d else TrimSpace s);
          optional = (\<lambda>k s. if TrimSpace s = [] then [] else '' '' @ k @ TrimSpace s) in
      or_else (sr_Command r) ''request'' @ '' workspace '' @ [CHR 0x22] @ or_else (sr_RuntimeID r) ''unknown'' @ [CHR 0x22] @
      '' failed (backend='' @ or_else (sr_Backend r) ''unknown'' @ optional ''state-dir='' (ce_state_dir E) @
      optional ''supervisor='' (ce_supervisor_path E) @ ''): '' @ cause)"

text \<open>A request of the library carries the name of its options as its runtime identifier, and the state directory
  is never empty after the options are normalized. The result says whether the response reports success.\<close>

definition Dispatch :: "cont_env \<Rightarrow> cworld \<Rightarrow> bool \<Rightarrow> (string \<times> string option) option \<Rightarrow> sup_request \<Rightarrow>
    dispatch_error option \<times> bool \<times> cworld" where
  "Dispatch E w containmentOperation config req =
     (let command = TrimSpace (sr_Command req) in
      if HasPrefix command ''contain-'' \<and> \<not> containmentOperation then (Some PhaseOwned, False, w)
      else if command = ''quarantine'' \<and> \<not> containmentOperation then (Some RawQuarantine, False, w)
      else case (if sr_RuntimeID req = [] then None else ValidateName (sr_RuntimeID req)) of
        Some e \<Rightarrow> (Some (BadRuntimeName e), False, w)
      | None \<Rightarrow>
        if sr_RuntimeID req \<noteq> [] \<and> ContainmentMarked E w \<and> \<not> containmentOperation \<and> command \<notin> {''host'', ''check'', ''inspect''}
        then (Some (CommandDenied (sr_RuntimeID req) command), False, w)
        else case launch_gate (sr_Backend req) (sr_Command req) config of
          Some e \<Rightarrow> (Some (Uncovered e), False, w)
        | None \<Rightarrow> (case ce_supervisor E (cw_tick w) req of (err, rt) \<Rightarrow>
            (map_option (\<lambda>e. SupFailed (contextualDispatchError E req e)) err, ce_response_ok E (cw_tick w),
             w\<lparr>cw_runtime := rt, cw_tick := Suc (cw_tick w), cw_trace := cw_trace w @ [Cmd req err]\<rparr>)))"

text \<open>The text of the errors that containment itself never meets is an argument.\<close>

fun dispatch_text :: "cont_env \<Rightarrow> dispatch_error \<Rightarrow> string" where
  "dispatch_text E (SupFailed t) = t"
| "dispatch_text E e = ce_error_text E e"

definition containment_request :: "cworld \<Rightarrow> cont_options \<Rightarrow> string \<Rightarrow> sup_request" where
  "containment_request w opts command =
     (let base = \<lparr>sr_Command = command, sr_RuntimeID = co_Name opts, sr_Backend = co_Backend opts, sr_SessionID = [],
            sr_Purpose = co_Purpose opts, sr_CorrelationID = co_CorrelationID opts, sr_EvidenceRef = co_EvidenceRef opts\<rparr> in
      case cw_runtime w of
        Doc s \<Rightarrow> base\<lparr>sr_SessionID := rt_SessionID s,
          sr_Purpose := (if co_Purpose opts = [] then rt_Purpose s else co_Purpose opts),
          sr_CorrelationID := (if co_CorrelationID opts = [] then rt_CorrelationID s else co_CorrelationID opts)\<rparr>
      | _ \<Rightarrow> base)"

definition dispatchContainmentPhase :: "cont_env \<Rightarrow> cworld \<Rightarrow> cont_options \<Rightarrow> string \<Rightarrow> string option \<times> cworld" where
  "dispatchContainmentPhase E w opts command =
     (case Dispatch E w True (Some ([], None)) (containment_request w opts command) of
        (e, ok, w') \<Rightarrow> (map_option (dispatch_text E) e, w'))"

section \<open>containWorkspace\<close>

record quarantine_options =
  qo_SkipCapture :: bool
  qo_CaptureTag :: string

datatype cont_error = ENormalize string | EName name_error | EDirectory | ELock | EBusy | ETag tag_error | EBegin begin_error
  | EPersist string persist_error | EFreeze string | ESever string | ECapture string | EStop string | ERecovery string | EInspect string

record quarantine_result =
  qr_CaptureTag :: string
  qr_CaptureError :: string
  qr_Captured :: bool
  qr_Containment :: "containment_result option"

abbreviation no_result :: quarantine_result where
  "no_result \<equiv> \<lparr>qr_CaptureTag = [], qr_CaptureError = [], qr_Captured = False, qr_Containment = None\<rparr>"

text \<open>The variables of the function between two phases. \<open>fl_freezeErr\<close> and \<open>fl_severErr\<close> say that the phase
  failed in this attempt.\<close>

record containment_flow =
  fl_world :: cworld
  fl_cont :: containment_result
  fl_result :: quarantine_result
  fl_errors :: "cont_error list"
  fl_skip :: bool
  fl_tag :: string
  fl_opts :: cont_options
  fl_freezeErr :: bool
  fl_severErr :: bool

definition persist :: "cont_env \<Rightarrow> string \<Rightarrow> containment_flow \<Rightarrow> containment_flow" where
  "persist E what f = (case writeContainment E (fl_world f) (fl_cont f) of
     (e, c, w) \<Rightarrow> f\<lparr>fl_world := w, fl_cont := c,
       fl_errors := fl_errors f @ (case e of None \<Rightarrow> [] | Some x \<Rightarrow> [EPersist what x])\<rparr>)"

text \<open>An operator may waive the capture; a capture that was skipped without a waiver is armed again.\<close>

definition waive_capture :: "cont_env \<Rightarrow> containment_flow \<Rightarrow> containment_flow" where
  "waive_capture E f =
     (let c = fl_cont f in
      if fl_skip f \<and> pr_Status (cr_Capture c) \<noteq> Completed \<and> (cr_CaptureRequired c \<or> pr_Status (cr_Capture c) \<noteq> Skipped)
      then persist E ''capture skip'' (f\<lparr>fl_cont := c\<lparr>cr_CaptureRequired := False,
        cr_Capture := skippedContainmentPhase (clock E (fl_world f)) ''operator explicitly accepted volatile evidence loss'',
        cr_CaptureTag := []\<rparr>\<rparr>)
      else f)"

definition rearm_capture :: "cont_env \<Rightarrow> containment_flow \<Rightarrow> containment_flow" where
  "rearm_capture E f =
     (let c = fl_cont f in
      if cr_CaptureRequired c \<and> pr_Status (cr_Capture c) = Skipped \<and> cr_State c = ''in_progress''
      then persist E ''capture retry'' (f\<lparr>fl_cont := c\<lparr>cr_Capture := pendingPhase,
        cr_CaptureTag := (if cr_CaptureTag c = [] then fl_tag f else cr_CaptureTag c)\<rparr>\<rparr>)
      else f)"

definition settle_capture :: "containment_flow \<Rightarrow> containment_flow" where
  "settle_capture f =
     (if \<not> cr_CaptureRequired (fl_cont f) then f\<lparr>fl_skip := True, fl_tag := []\<rparr>
      else if cr_CaptureTag (fl_cont f) \<noteq> [] then f\<lparr>fl_tag := cr_CaptureTag (fl_cont f)\<rparr>
      else f)"

definition forensicCapturePresent :: "cworld \<Rightarrow> string \<Rightarrow> bool" where
  "forensicCapturePresent w tag \<longleftrightarrow> TrimSpace tag \<noteq> [] \<and>
     (case cw_snapshots w tag of None \<Rightarrow> False | Some m \<Rightarrow> sm_Forensic m \<and> sm_FrozenProcessState m)"

definition finish :: "containment_flow \<Rightarrow> quarantine_result" where
  "finish f = (fl_result f)\<lparr>qr_Containment := Some (fl_cont f)\<rparr>"

text \<open>The runtime reached custody, but the record does not say so yet.\<close>

definition reconciled :: "time \<Rightarrow> bool \<Rightarrow> containment_result \<Rightarrow> containment_result" where
  "reconciled t present c =
     (let c1 = (if pr_Status (cr_Freeze c) = PhasePending
            then c\<lparr>cr_Freeze := failedContainmentPhase t ''runtime reached custody before freeze was durably recorded''\<rparr> else c);
          c2 = (if pr_Status (cr_Severance c1) = PhasePending
            then c1\<lparr>cr_Severance := skippedContainmentPhase t ''runtime reached custody before severance was durably recorded''\<rparr> else c1);
          c3 = (if pr_Status (cr_Capture c2) \<noteq> PhasePending then c2
            else if present then c2\<lparr>cr_Capture := completedContainmentPhase t\<rparr>
            else c2\<lparr>cr_Capture := skippedContainmentPhase t ''runtime reached custody before forensic capture was durably recorded'',
              cr_CaptureTag := []\<rparr>)
      in c3\<lparr>cr_Stop := completedContainmentPhase t, cr_Custody := completedContainmentPhase t, cr_State := ''contained''\<rparr>)"

definition reconcile :: "cont_env \<Rightarrow> containment_flow \<Rightarrow> quarantine_result \<times> cont_error list \<times> cworld" where
  "reconcile E f =
     (let c = fl_cont f; present = forensicCapturePresent (fl_world f) (cr_CaptureTag c);
          late = pr_Status (cr_Freeze c) = PhasePending; lost = pr_Status (cr_Capture c) = PhasePending \<and> \<not> present;
          loss = ''runtime reached custody before forensic capture was durably recorded'';
          recovery = (if late then [ERecovery ''runtime reached custody before freeze was durably recorded'']
            else if lost then [ERecovery loss] else [])
      in case writeContainment E (fl_world f) (reconciled (clock E (fl_world f)) present c) of (e, c', w) \<Rightarrow>
        ((if lost then (fl_result f)\<lparr>qr_CaptureError := loss\<rparr> else fl_result f)
           \<lparr>qr_Captured := (pr_Status (cr_Capture c') = Completed), qr_CaptureTag := cr_CaptureTag c', qr_Containment := Some c'\<rparr>,
         recovery @ (case e of None \<Rightarrow> [] | Some x \<Rightarrow> [EPersist ''custody'' x]) @
           (case ce_status E (cw_tick w) of None \<Rightarrow> [] | Some x \<Rightarrow> [EInspect x]), w))"

definition freeze_phase :: "cont_env \<Rightarrow> containment_flow \<Rightarrow> containment_flow" where
  "freeze_phase E f =
     (if pr_Status (cr_Freeze (fl_cont f)) = Completed then f
      else case dispatchContainmentPhase E (fl_world f) (fl_opts f) ''contain-freeze'' of
        (None, w) \<Rightarrow> persist E ''freeze phase'' (f\<lparr>fl_world := w, fl_cont := (fl_cont f)\<lparr>cr_Freeze := completedContainmentPhase (clock E w)\<rparr>\<rparr>)
      | (Some e, w) \<Rightarrow> persist E ''freeze phase'' (f\<lparr>fl_world := w, fl_freezeErr := True,
          fl_cont := (fl_cont f)\<lparr>cr_Freeze := failedContainmentPhase (clock E w) e,
            cr_Severance := skippedContainmentPhase (clock E w) ''freeze was not confirmed; emergency stop provides final revocation'',
            cr_Capture := skippedContainmentPhase (clock E w) ''freeze was not confirmed'', cr_CaptureTag := []\<rparr>,
          fl_result := (if fl_skip f then fl_result f
            else (fl_result f)\<lparr>qr_CaptureError := ''freeze was not confirmed; forensic capture was not attempted''\<rparr>),
          fl_errors := fl_errors f @ [EFreeze e]\<rparr>))"

definition sever_phase :: "cont_env \<Rightarrow> containment_flow \<Rightarrow> containment_flow" where
  "sever_phase E f =
     (if fl_freezeErr f \<or> pr_Status (cr_Severance (fl_cont f)) = Completed then f
      else case dispatchContainmentPhase E (fl_world f) (fl_opts f) ''contain-sever'' of
        (None, w) \<Rightarrow> persist E ''severance phase'' (f\<lparr>fl_world := w, fl_cont := (fl_cont f)\<lparr>cr_Severance := completedContainmentPhase (clock E w)\<rparr>\<rparr>)
      | (Some e, w) \<Rightarrow> persist E ''severance phase'' (f\<lparr>fl_world := w, fl_severErr := True,
          fl_cont := (fl_cont f)\<lparr>cr_Severance := failedContainmentPhase (clock E w) e\<rparr>, fl_errors := fl_errors f @ [ESever e]\<rparr>))"

definition run_capture :: "cont_env \<Rightarrow> cworld \<Rightarrow> string \<Rightarrow> string option \<times> cworld" where
  "run_capture E w tag = (case ce_capture E (cw_tick w) tag of (e, snaps) \<Rightarrow>
     (e, w\<lparr>cw_snapshots := snaps, cw_tick := Suc (cw_tick w), cw_trace := cw_trace w @ [Captured tag e]\<rparr>))"

definition capture_phase :: "cont_env \<Rightarrow> containment_flow \<Rightarrow> containment_flow" where
  "capture_phase E f =
     (if pr_Status (cr_Capture (fl_cont f)) = Completed then
        f\<lparr>fl_result := (fl_result f)\<lparr>qr_Captured := True, qr_CaptureTag := cr_CaptureTag (fl_cont f)\<rparr>,
          fl_opts := (fl_opts f)\<lparr>co_EvidenceRef := ''snapshot:'' @ cr_CaptureTag (fl_cont f)\<rparr>\<rparr>
      else if fl_severErr f \<and> \<not> fl_skip f then
        f\<lparr>fl_cont := (fl_cont f)\<lparr>cr_Capture := skippedContainmentPhase (clock E (fl_world f)) ''authority severance was not confirmed'', cr_CaptureTag := []\<rparr>,
          fl_result := (fl_result f)\<lparr>qr_CaptureError := ''authority severance was not confirmed; forensic capture was not attempted''\<rparr>\<rparr>
      else if \<not> fl_freezeErr f \<and> \<not> fl_skip f then
        (case run_capture E (fl_world f) (fl_tag f) of
           (Some e, w) \<Rightarrow> persist E ''capture phase'' (f\<lparr>fl_world := w, fl_cont := (fl_cont f)\<lparr>cr_Capture := failedContainmentPhase (clock E w) e\<rparr>,
             fl_result := (fl_result f)\<lparr>qr_CaptureError := e\<rparr>, fl_errors := fl_errors f @ [ECapture e]\<rparr>)
         | (None, w) \<Rightarrow> persist E ''capture phase'' (f\<lparr>fl_world := w, fl_cont := (fl_cont f)\<lparr>cr_Capture := completedContainmentPhase (clock E w)\<rparr>,
             fl_result := (fl_result f)\<lparr>qr_Captured := True, qr_CaptureTag := fl_tag f\<rparr>,
             fl_opts := (fl_opts f)\<lparr>co_EvidenceRef := ''snapshot:'' @ fl_tag f\<rparr>\<rparr>))
      else f)"

definition stop_phase :: "cont_env \<Rightarrow> containment_flow \<Rightarrow> containment_flow" where
  "stop_phase E f =
     (if pr_Status (cr_Capture (fl_cont f)) = Failed \<and> \<not> fl_freezeErr f \<and> \<not> fl_severErr f then f
      else if pr_Status (cr_Stop (fl_cont f)) = Completed then
        persist E ''custody phase'' (f\<lparr>fl_cont := (fl_cont f)\<lparr>cr_Custody := completedContainmentPhase (clock E (fl_world f)), cr_State := ''contained''\<rparr>\<rparr>)
      else case dispatchContainmentPhase E (fl_world f) (fl_opts f) (if fl_freezeErr f then ''quarantine'' else ''contain-stop'') of
        (None, w) \<Rightarrow> persist E ''custody phase'' (f\<lparr>fl_world := w, fl_cont := (fl_cont f)\<lparr>cr_Stop := completedContainmentPhase (clock E w),
            cr_Custody := completedContainmentPhase (clock E w), cr_State := ''contained''\<rparr>\<rparr>)
      | (Some e, w) \<Rightarrow> persist E ''custody phase'' (f\<lparr>fl_world := w, fl_cont := (fl_cont f)\<lparr>cr_Stop := failedContainmentPhase (clock E w) e\<rparr>,
            fl_errors := fl_errors f @ [EStop e]\<rparr>))"

text \<open>From the record on: the answer for a completed containment, the reconciliation, or the phases in
  their order.\<close>

definition contain_from :: "cont_env \<Rightarrow> containment_flow \<Rightarrow> quarantine_result \<times> cont_error list \<times> cworld" where
  "contain_from E f =
     (if cr_State (fl_cont f) = ''contained'' then
        ((fl_result f)\<lparr>qr_Captured := (pr_Status (cr_Capture (fl_cont f)) = Completed), qr_CaptureTag := cr_CaptureTag (fl_cont f),
           qr_CaptureError := pr_Error (cr_Capture (fl_cont f))\<rparr>,
         (case ce_status E (cw_tick (fl_world f)) of None \<Rightarrow> [] | Some x \<Rightarrow> [EInspect x]), fl_world f)
      else case cw_runtime (fl_world f) of
        Doc s \<Rightarrow> if rt_State s = ''quarantined'' then reconcile E f
          else (let g = stop_phase E (capture_phase E (sever_phase E (freeze_phase E f))) in (finish g, fl_errors g, fl_world g))
      | _ \<Rightarrow> (let g = stop_phase E (capture_phase E (sever_phase E (freeze_phase E f))) in (finish g, fl_errors g, fl_world g)))"

definition containWorkspace :: "cont_env \<Rightarrow> cworld \<Rightarrow> cont_options \<Rightarrow> quarantine_options \<Rightarrow> quarantine_result \<times> cont_error list \<times> cworld" where
  "containWorkspace E w opts0 q =
     (case ce_normalize E opts0 of Inl e \<Rightarrow> (no_result, [ENormalize e], w) | Inr opts \<Rightarrow>
      case ValidateName (co_Name opts) of Some e \<Rightarrow> (no_result, [EName e], w) | None \<Rightarrow>
      if ce_directory E \<noteq> DirOK then (no_result, [EDirectory], w)
      else case ce_lock E of LockError \<Rightarrow> (no_result, [ELock], w) | LockBusy \<Rightarrow> (no_result, [EBusy], w) | LockAcquired \<Rightarrow>
      (let tag = (if qo_SkipCapture q then [] else if TrimSpace (qo_CaptureTag q) = [] then ce_default_tag E else TrimSpace (qo_CaptureTag q)) in
       case (if qo_SkipCapture q then None else validateTag tag) of Some e \<Rightarrow> (no_result, [ETag e], w) | None \<Rightarrow>
       (case beginContainment E w opts tag (qo_SkipCapture q) of (c, be, w1) \<Rightarrow>
        let r = no_result\<lparr>qr_Containment := Some c\<rparr>; errs = (case be of None \<Rightarrow> [] | Some x \<Rightarrow> [EBegin x]) in
        if be \<noteq> None \<and> \<not> ContainmentMarked E w1 then (r, errs, w1)
        else if be = Some BackendMismatch then (r, errs, w1)
        else contain_from E (settle_capture (rearm_capture E (waive_capture E
          \<lparr>fl_world = w1, fl_cont = c, fl_result = r, fl_errors = errs, fl_skip = qo_SkipCapture q, fl_tag = tag, fl_opts = opts,
           fl_freezeErr = False, fl_severErr = False\<rparr>))))))"

section \<open>The other operations of a workspace\<close>

definition LatestStartState :: "cworld \<Rightarrow> (string \<times> int) option" where
  "LatestStartState w = (case cw_runtime w of
       Doc s \<Rightarrow> Some (rt_State s, rt_PID s)
     | Broken \<Rightarrow> None
     | Missing \<Rightarrow> (case cw_event w of Doc st \<Rightarrow> Some (st, 0) | Missing \<Rightarrow> Some ([], 0) | Broken \<Rightarrow> None))"

datatype start_error = StartContained | StartUnreadable | StartLease string | StartLeased | StartQuarantined int
  | StartAlready string | StartFrom string

definition containmentBlocked :: "cont_env \<Rightarrow> cworld \<Rightarrow> bool" where
  "containmentBlocked E w \<longleftrightarrow> ContainmentMarked E w"

definition EnsureCanStart :: "cont_env \<Rightarrow> cworld \<Rightarrow> start_error option" where
  "EnsureCanStart E w =
     (if containmentBlocked E w then Some StartContained
      else case LatestStartState w of None \<Rightarrow> Some StartUnreadable
      | Some (st, pid) \<Rightarrow>
        if st \<in> {[], ''unknown'', ''prepared'', ''halted'', ''stopped'', ''failed''} then
          (case ce_lease E of Inl e \<Rightarrow> Some (StartLease e) | Inr held \<Rightarrow> if held then Some StartLeased else None)
        else if st = ''quarantined'' then Some (StartQuarantined (if pid > 0 then pid else 0))
        else if st = ''starting'' \<or> st = ''running'' then Some (StartAlready st)
        else Some (StartFrom st))"

definition SnapshotRemove :: "cont_env \<Rightarrow> cworld \<Rightarrow> string \<Rightarrow> string \<Rightarrow> bool \<times> cworld" where
  "SnapshotRemove E w name tag =
     (let removed = (True, w\<lparr>cw_snapshots := (cw_snapshots w)(tag := None)\<rparr>) in
      if ValidateName name \<noteq> None then (False, w)
      else if ContainmentMarked E w then
        (case ReadContainment w of Inl _ \<Rightarrow> (False, w) | Inr c \<Rightarrow> if cr_CaptureTag c = tag then (False, w) else removed)
      else removed)"

text \<open>The status of a marked workspace, with the time of the marker and the text of a read error as arguments.\<close>

definition attachContainmentStatus :: "cont_env \<Rightarrow> cworld \<Rightarrow> cont_options \<Rightarrow> time \<Rightarrow> (read_error \<Rightarrow> string) \<Rightarrow> containment_result option" where
  "attachContainmentStatus E w opts accepted message =
     (if \<not> ContainmentMarked E w then None
      else case ReadContainment w of Inr r \<Rightarrow> Some r
      | Inl e \<Rightarrow> Some ((initial_containment (clock E w) opts [] False)\<lparr>cr_AcceptedAt := accepted, cr_Error := message e\<rparr>))"

definition deleteBlockedByState :: "string \<Rightarrow> bool" where
  "deleteBlockedByState st \<longleftrightarrow> st \<in> {''running'', ''starting'', ''paused''}"

definition guest_act :: "string \<Rightarrow> cworld \<Rightarrow> cworld" where
  "guest_act what w = w\<lparr>cw_trace := cw_trace w @ [Guest what], cw_tick := Suc (cw_tick w)\<rparr>"

definition vm_running :: "cworld \<Rightarrow> bool" where
  "vm_running w \<longleftrightarrow> (case cw_runtime w of Doc s \<Rightarrow> rt_State s = ''running'' | _ \<Rightarrow> False)"

text \<open>The process listing of the audit and the flush before a clean stop run in the guest.\<close>

definition lifecycleAudit :: "string \<Rightarrow> cworld \<Rightarrow> cworld" where
  "lifecycleAudit command w = (if vm_running w \<and> command \<in> {''halt'', ''stop'', ''quarantine'', ''delete''} then guest_act ''ps'' w else w)"

definition prepareCleanStop :: "cworld \<Rightarrow> cworld" where
  "prepareCleanStop w = (if vm_running w then guest_act ''sync'' w else w)"

definition ensureDeletable :: "cont_env \<Rightarrow> cworld \<Rightarrow> cont_options \<Rightarrow> string option \<times> cworld" where
  "ensureDeletable E w opts =
     (case Dispatch E w False (Some ([], None)) (containment_request w opts ''inspect'') of (e, ok, w1) \<Rightarrow>
        if e \<noteq> None then (None, w1)
        else (case ce_inspect E of None \<Rightarrow> (None, w1) | Some st \<Rightarrow> (if deleteBlockedByState st then Some st else None, w1)))"

datatype control_error = CNormalize string | CName name_error | CQuarantine "cont_error list" | CContained | CCustody
  | CUnsupported string | CCapability string | CLive string | CShutdown string | CDispatch dispatch_error

definition control_request :: "cont_env \<Rightarrow> cworld \<Rightarrow> cont_options \<Rightarrow> string \<Rightarrow> sup_request" where
  "control_request E w opts command =
     (let r = containment_request w opts command in
      case cw_runtime w of Doc _ \<Rightarrow> if command = ''resume'' then r\<lparr>sr_SessionID := ce_new_session E\<rparr> else r | _ \<Rightarrow> r)"

text \<open>\<open>Cleanup\<close> removes the directories of the workspace.\<close>

definition Cleanup :: "cworld \<Rightarrow> string \<Rightarrow> cworld" where
  "Cleanup w name = (if ValidateName name \<noteq> None then w
     else w\<lparr>cw_marker := False, cw_record := Missing, cw_runtime := Missing, cw_event := Missing, cw_snapshots := (\<lambda>_. None)\<rparr>)"

definition shutdown_guest :: "cont_env \<Rightarrow> cworld \<Rightarrow> string \<Rightarrow> string option \<times> cworld" where
  "shutdown_guest E w command =
     (if command = ''halt'' \<or> command = ''stop'' then
        (let w1 = prepareCleanStop w in
         if map_option fst (LatestStartState w1) = Some ''running'' then (ce_shutdown E, guest_act ''shutdown'' w1) else (None, w1))
      else (None, w))"

definition Control :: "cont_env \<Rightarrow> cworld \<Rightarrow> cont_options \<Rightarrow> string \<Rightarrow> control_error option \<times> cworld" where
  "Control E w opts0 command =
     (case ce_normalize E opts0 of Inl e \<Rightarrow> (Some (CNormalize e), w) | Inr opts \<Rightarrow>
      case ValidateName (co_Name opts) of Some e \<Rightarrow> (Some (CName e), w) | None \<Rightarrow>
      if command = ''quarantine'' then
        (case containWorkspace E w opts \<lparr>qo_SkipCapture = False, qo_CaptureTag = []\<rparr> of (r, errs, w1) \<Rightarrow>
          (if errs = [] then None else Some (CQuarantine errs), w1))
      else if command = ''resume'' \<and> containmentBlocked E w then (Some CContained, w)
      else if command = ''delete'' \<and> ContainmentMarked E w then (Some CCustody, w)
      else if command \<notin> {''halt'', ''pause'', ''resume'', ''stop'', ''kill'', ''delete'', ''gc''} then (Some (CUnsupported command), w)
      else if command \<in> {''pause'', ''resume''} \<and> \<not> ce_supports E command then (Some (CCapability command), w)
      else
        (let w1 = lifecycleAudit command w in
         case (if command = ''delete'' then ensureDeletable E w1 opts else (None, w1)) of
           (Some st, w2) \<Rightarrow> (Some (CLive st), w2)
         | (None, w2) \<Rightarrow>
           (case shutdown_guest E w2 command of
              (Some e, w3) \<Rightarrow> (Some (CShutdown e), w3)
            | (None, w3) \<Rightarrow>
              (case Dispatch E w3 False (Some ([], None)) (control_request E w3 opts command) of (e, ok, w4) \<Rightarrow>
                 (map_option CDispatch e, if command = ''delete'' \<and> ok then Cleanup w4 (co_Name opts) else w4)))))"

end
