(* ===== verification/ContainmentProps.thy ===== *)
theory ContainmentProps
  imports Containment
begin

text \<open>
  What containment guarantees. An abstract protocol, the monitor, accepts the effects of every attempt; the
  record says only what was confirmed; and the marker, once made, stays through any sequence of
  operations and fences all of them.
\<close>

section \<open>The protocol\<close>

record monitor =
  m_frozen :: bool
  m_severed :: bool
  m_captured :: bool
  m_stopped :: bool
  m_freeze_failed :: bool
  m_sever_failed :: bool
  m_capture_failed :: bool
  m_waived :: bool

text \<open>The record claims no phase that was not confirmed.\<close>

definition honest :: "monitor \<Rightarrow> containment_result \<Rightarrow> bool" where
  "honest m c \<longleftrightarrow> (pr_Status (cr_Freeze c) = Completed \<longrightarrow> m_frozen m) \<and> (pr_Status (cr_Severance c) = Completed \<longrightarrow> m_severed m) \<and>
     (pr_Status (cr_Capture c) = Completed \<longrightarrow> m_captured m) \<and>
     (pr_Status (cr_Stop c) = Completed \<or> cr_State c = ''contained'' \<longrightarrow> m_stopped m)"

text \<open>One step of the protocol, \<open>None\<close> when it is violated: authority is severed and evidence captured only of a
  frozen workspace, evidence only after severance, and a frozen workspace is stopped only when its evidence is captured, waived
  or out of reach; an unconfirmed freeze is followed by the emergency stop; a failed capture by no stop at all.\<close>

fun protocol :: "monitor \<Rightarrow> effect \<Rightarrow> monitor option" where
  "protocol m (Cmd r e) =
     (if sr_Command r = ''contain-freeze'' then Some (m\<lparr>m_frozen := (m_frozen m \<or> e = None), m_freeze_failed := (e \<noteq> None)\<rparr>)
      else if sr_Command r = ''contain-sever'' then
        (if m_frozen m then Some (m\<lparr>m_severed := (m_severed m \<or> e = None), m_sever_failed := (e \<noteq> None)\<rparr>) else None)
      else if sr_Command r = ''contain-stop'' then
        (if m_frozen m \<and> \<not> m_capture_failed m \<and> (m_captured m \<or> m_waived m \<or> m_sever_failed m)
         then Some (m\<lparr>m_stopped := (m_stopped m \<or> e = None)\<rparr>) else None)
      else if sr_Command r = ''quarantine'' then
        (if m_freeze_failed m then Some (m\<lparr>m_stopped := (m_stopped m \<or> e = None)\<rparr>) else None)
      else None)"
| "protocol m (Captured tag e) =
     (if m_frozen m \<and> m_severed m then Some (m\<lparr>m_captured := (m_captured m \<or> e = None), m_capture_failed := (e \<noteq> None)\<rparr>) else None)"
| "protocol m (Persisted c) = (if honest m c \<and> ValidateContainmentResult c = None then Some m else None)"
| "protocol m (Guest _) = None"

fun accepts :: "monitor \<Rightarrow> effect list \<Rightarrow> monitor option" where
  "accepts m [] = Some m"
| "accepts m (x # xs) = (case protocol m x of None \<Rightarrow> None | Some m' \<Rightarrow> accepts m' xs)"

lemma accepts_append: "accepts m (xs @ ys) = (case accepts m xs of None \<Rightarrow> None | Some m' \<Rightarrow> accepts m' ys)"
  by (induction xs arbitrary: m) (auto split: option.splits)

text \<open>What is confirmed before an attempt: what a readable record says, and custody when the runtime document does.\<close>

definition quarantined :: "cworld \<Rightarrow> bool" where
  "quarantined w \<longleftrightarrow> (case cw_runtime w of Doc s \<Rightarrow> rt_State s = ''quarantined'' | _ \<Rightarrow> False)"

definition recorded :: "cworld \<Rightarrow> (containment_result \<Rightarrow> bool) \<Rightarrow> bool" where
  "recorded w P \<longleftrightarrow> (case ReadContainment w of Inr c \<Rightarrow> P c | Inl _ \<Rightarrow> False)"

definition start_monitor :: "cworld \<Rightarrow> quarantine_options \<Rightarrow> monitor" where
  "start_monitor w q =
     \<lparr>m_frozen = recorded w (\<lambda>c. pr_Status (cr_Freeze c) = Completed), m_severed = recorded w (\<lambda>c. pr_Status (cr_Severance c) = Completed),
      m_captured = (recorded w (\<lambda>c. pr_Status (cr_Capture c) = Completed) \<or> quarantined w \<and> (\<exists>tag. forensicCapturePresent w tag)),
      m_stopped = (recorded w (\<lambda>c. pr_Status (cr_Stop c) = Completed \<or> cr_State c = ''contained'') \<or> quarantined w),
      m_freeze_failed = False, m_sever_failed = False, m_capture_failed = False,
      m_waived = (qo_SkipCapture q \<or> recorded w (\<lambda>c. \<not> cr_CaptureRequired c))\<rparr>"

section \<open>The phases\<close>

lemma writeContainment_spec:
  assumes "writeContainment E w c = (e, c', w')"
  shows "c' = c\<lparr>cr_UpdatedAt := clock E w\<rparr>"
    "cw_trace w' = cw_trace w \<and> cw_record w' = cw_record w \<and> e \<noteq> None \<or>
     cw_trace w' = cw_trace w @ [Persisted c'] \<and> cw_record w' = Doc c' \<and> ValidateContainmentResult c' = None"
    "cw_marker w' = cw_marker w" "cw_runtime w' = cw_runtime w" "cw_snapshots w' = cw_snapshots w"
    "e = Some (PersistInvalid x) \<longleftrightarrow> ValidateContainmentResult c' = Some x"
  using assms by (auto simp: writeContainment_def Let_def split: option.splits write_outcome.splits)

lemma accepts_persist:
  assumes "writeContainment E w c = (e, c', w')" "cw_trace w = t0 @ acts" "accepts m acts = Some m'" "honest m' c"
  shows "\<exists>acts'. cw_trace w' = t0 @ acts' \<and> accepts m acts' = Some m' \<and> honest m' c'"
proof -
  have h: "honest m' c'" using assms(4) writeContainment_spec(1) [OF assms(1)] by (simp add: honest_def)
  from writeContainment_spec(2) [OF assms(1)] show ?thesis
  proof (elim disjE conjE)
    assume "cw_trace w' = cw_trace w @ [Persisted c']" "ValidateContainmentResult c' = None"
    then show ?thesis using assms(2,3) h by (intro exI [of _ "acts @ [Persisted c']"]) (simp add: accepts_append)
  qed (use assms h in auto)
qed

lemma phase_dispatch:
  assumes "ValidateName (co_Name opts) = None" "cmd \<in> {''contain-freeze'', ''contain-sever'', ''contain-stop'', ''quarantine''}"
  obtains e w' r where "dispatchContainmentPhase E w opts cmd = (e, w')" "sr_Command r = cmd"
    "cw_trace w' = cw_trace w @ [Cmd r (fst (ce_supervisor E (cw_tick w) r))]"
    "(e = None) = (fst (ce_supervisor E (cw_tick w) r) = None)" "cw_marker w' = cw_marker w" "cw_record w' = cw_record w"
    "\<And>t. e = Some t \<Longrightarrow> TrimSpace t \<noteq> []"
proof -
  let ?r = "containment_request w opts cmd"
  have r: "sr_Command ?r = cmd" "sr_RuntimeID ?r = co_Name opts"
    by (auto simp: containment_request_def Let_def split: doc.splits)
  have "launch_gate b cmd c = None" for b c
    using assms(2) by (auto simp: launch_gate_def isLaunchCommand_def TrimSpace_def trim_left_def trim_right_def is_space_def
        split: option.splits)
  then have D: "Dispatch E w True (Some ([], None)) ?r = (case ce_supervisor E (cw_tick w) ?r of (err, rt) \<Rightarrow>
            (map_option (\<lambda>e. SupFailed (contextualDispatchError E ?r e)) err, ce_response_ok E (cw_tick w),
             w\<lparr>cw_runtime := rt, cw_tick := Suc (cw_tick w), cw_trace := cw_trace w @ [Cmd ?r err]\<rparr>))"
    using assms(1) r by (simp add: Dispatch_def Let_def split: prod.splits)
  have t: "TrimSpace (contextualDispatchError E ?r x) \<noteq> []" for x
  proof
    assume "TrimSpace (contextualDispatchError E ?r x) = []"
    then have "\<forall>c \<in> set (contextualDispatchError E ?r x). is_space c"
      using trim_right_Nil [of is_space "trim_left is_space (contextualDispatchError E ?r x)"]
      by (metis TrimSpace_def dropWhile_eq_Nil_conv hd_dropWhile hd_in_set trim_left_def)
    then show False by (simp add: contextualDispatchError_def Let_def is_space_def)
  qed
  show thesis
  proof (cases "ce_supervisor E (cw_tick w) ?r")
    case (Pair err rt)
    define e where "e = map_option (\<lambda>x. contextualDispatchError E ?r x) err"
    define w' where "w' = w\<lparr>cw_runtime := rt, cw_tick := Suc (cw_tick w), cw_trace := cw_trace w @ [Cmd ?r err]\<rparr>"
    have "dispatchContainmentPhase E w opts cmd = (e, w')"
      using D Pair by (simp add: dispatchContainmentPhase_def e_def w'_def option.map_comp comp_def)
    then show thesis using Pair r t by (intro that [of e w' ?r]) (auto simp: e_def w'_def)
  qed
qed

definition tracks :: "effect list \<Rightarrow> monitor \<Rightarrow> containment_flow \<Rightarrow> monitor \<Rightarrow> bool" where
  "tracks t0 m f m' \<longleftrightarrow> (\<exists>acts. cw_trace (fl_world f) = t0 @ acts \<and> accepts m acts = Some m') \<and> honest m' (fl_cont f)"

lemma persist_fields [simp]:
  "fl_opts (persist E s f) = fl_opts f" "fl_skip (persist E s f) = fl_skip f" "fl_tag (persist E s f) = fl_tag f"
  "fl_freezeErr (persist E s f) = fl_freezeErr f" "fl_severErr (persist E s f) = fl_severErr f"
  "fl_result (persist E s f) = fl_result f"
  "cw_marker (fl_world (persist E s f)) = cw_marker (fl_world f)" "cw_runtime (fl_world (persist E s f)) = cw_runtime (fl_world f)"
  "cw_snapshots (fl_world (persist E s f)) = cw_snapshots (fl_world f)"
  "fl_cont (persist E s f) = (fl_cont f)\<lparr>cr_UpdatedAt := clock E (fl_world f)\<rparr>"
proof -
  obtain e c w where w: "writeContainment E (fl_world f) (fl_cont f) = (e, c, w)" by (cases "writeContainment E (fl_world f) (fl_cont f)")
  note s = writeContainment_spec [OF w]
  show "fl_opts (persist E s f) = fl_opts f" "fl_skip (persist E s f) = fl_skip f" "fl_tag (persist E s f) = fl_tag f"
    "fl_freezeErr (persist E s f) = fl_freezeErr f" "fl_severErr (persist E s f) = fl_severErr f"
    "fl_result (persist E s f) = fl_result f"
    "cw_marker (fl_world (persist E s f)) = cw_marker (fl_world f)" "cw_runtime (fl_world (persist E s f)) = cw_runtime (fl_world f)"
    "cw_snapshots (fl_world (persist E s f)) = cw_snapshots (fl_world f)"
    "fl_cont (persist E s f) = (fl_cont f)\<lparr>cr_UpdatedAt := clock E (fl_world f)\<rparr>"
    using w s by (simp_all add: persist_def)
qed

lemma tracks_persist:
  assumes "tracks t0 m f m'"
  shows "tracks t0 m (persist E s f) m'"
proof -
  obtain e c w where w: "writeContainment E (fl_world f) (fl_cont f) = (e, c, w)" by (cases "writeContainment E (fl_world f) (fl_cont f)")
  from assms obtain acts where "cw_trace (fl_world f) = t0 @ acts" "accepts m acts = Some m'" "honest m' (fl_cont f)"
    by (auto simp: tracks_def)
  from accepts_persist [OF w this] show ?thesis using w by (auto simp: tracks_def persist_def)
qed

text \<open>A phase that sends one effect the protocol allows.\<close>

lemma tracks_effect:
  assumes "tracks t0 m f m'" "protocol m' x = Some m2" "cw_trace (fl_world g) = cw_trace (fl_world f) @ [x]" "honest m2 (fl_cont g)"
  shows "tracks t0 m (persist E s g) m2"
proof -
  obtain acts where "cw_trace (fl_world f) = t0 @ acts" "accepts m acts = Some m'" using assms(1) by (auto simp: tracks_def)
  then have "cw_trace (fl_world g) = t0 @ (acts @ [x]) \<and> accepts m (acts @ [x]) = Some m2" using assms(2,3) by (simp add: accepts_append)
  then have "tracks t0 m g m2" using assms(4) by (auto simp: tracks_def)
  then show ?thesis by (rule tracks_persist)
qed

lemma tracks_cong:
  "cw_trace (fl_world f) = cw_trace (fl_world g) \<Longrightarrow> fl_cont f = fl_cont g \<Longrightarrow> tracks t0 m f m' = tracks t0 m g m'"
  by (simp add: tracks_def)

lemma honest_completed [simp]: "pr_Status (completedContainmentPhase t) = Completed" "pr_Status (failedContainmentPhase t e) = Failed"
  "pr_Status (skippedContainmentPhase t e) = Skipped"
  by (simp_all add: completedContainmentPhase_def failedContainmentPhase_def skippedContainmentPhase_def)

definition unfailed :: "monitor \<Rightarrow> containment_flow \<Rightarrow> bool" where
  "unfailed m f \<longleftrightarrow> \<not> m_capture_failed m \<and> (fl_skip f \<longrightarrow> m_waived m) \<and> ValidateName (co_Name (fl_opts f)) = None"

lemma freeze_tracks:
  assumes "tracks t0 m f m0" "unfailed m0 f" "\<not> fl_freezeErr f" "\<not> fl_severErr f"
  shows "\<exists>m1. tracks t0 m (freeze_phase E f) m1 \<and> unfailed m1 (freeze_phase E f) \<and> \<not> fl_severErr (freeze_phase E f) \<and>
    (if fl_freezeErr (freeze_phase E f) then m_freeze_failed m1 \<and> pr_Status (cr_Capture (fl_cont (freeze_phase E f))) = Skipped else m_frozen m1)"
proof (cases "pr_Status (cr_Freeze (fl_cont f)) = Completed")
  case True
  then show ?thesis using assms by (intro exI [of _ m0]) (auto simp: freeze_phase_def tracks_def honest_def)
next
  case False
  have n: "ValidateName (co_Name (fl_opts f)) = None" using assms(2) by (simp add: unfailed_def)
  obtain e w r where D: "dispatchContainmentPhase E (fl_world f) (fl_opts f) ''contain-freeze'' = (e, w)" "sr_Command r = ''contain-freeze''"
    "cw_trace w = cw_trace (fl_world f) @ [Cmd r (fst (ce_supervisor E (cw_tick (fl_world f)) r))]"
    "(e = None) = (fst (ce_supervisor E (cw_tick (fl_world f)) r) = None)"
    by (rule phase_dispatch [OF n, of "''contain-freeze''" E "fl_world f"]) simp_all
  let ?m = "m0\<lparr>m_frozen := (m_frozen m0 \<or> e = None), m_freeze_failed := (e \<noteq> None)\<rparr>"
  have p: "protocol m0 (Cmd r (fst (ce_supervisor E (cw_tick (fl_world f)) r))) = Some ?m" using D(2,4) by simp
  have h0: "honest m0 (fl_cont f)" using assms(1) by (simp add: tracks_def)
  have "\<exists>g. freeze_phase E f = persist E ''freeze phase'' g \<and> fl_world g = w \<and> honest ?m (fl_cont g)"
    using False D(1) h0 by (cases e) (simp add: freeze_phase_def split del: if_split, rule exI, rule conjI, rule refl, simp add: honest_def)+
  then obtain g where g: "freeze_phase E f = persist E ''freeze phase'' g" "fl_world g = w" "honest ?m (fl_cont g)" by blast
  have "tracks t0 m (freeze_phase E f) ?m" unfolding g(1) by (rule tracks_effect [OF assms(1) p _ g(3)]) (simp add: g(2) D(3))
  moreover have "unfailed ?m (freeze_phase E f)" "\<not> fl_severErr (freeze_phase E f)"
    using False D(1) assms(2,4) by (auto simp: freeze_phase_def unfailed_def split: option.splits)
  moreover have "if fl_freezeErr (freeze_phase E f) then m_freeze_failed ?m \<and> pr_Status (cr_Capture (fl_cont (freeze_phase E f))) = Skipped else m_frozen ?m"
    using False D(1) assms(3) by (cases e) (auto simp: freeze_phase_def)
  ultimately show ?thesis by blast
qed

lemma sever_tracks:
  assumes "tracks t0 m f m0" "unfailed m0 f" "\<not> fl_freezeErr f" "\<not> fl_severErr f" "m_frozen m0"
  shows "\<exists>m1. tracks t0 m (sever_phase E f) m1 \<and> unfailed m1 (sever_phase E f) \<and> \<not> fl_freezeErr (sever_phase E f) \<and> m_frozen m1 \<and>
    (if fl_severErr (sever_phase E f) then m_sever_failed m1 else m_severed m1)"
proof (cases "pr_Status (cr_Severance (fl_cont f)) = Completed")
  case True
  then show ?thesis using assms by (intro exI [of _ m0]) (auto simp: sever_phase_def tracks_def honest_def)
next
  case False
  have n: "ValidateName (co_Name (fl_opts f)) = None" using assms(2) by (simp add: unfailed_def)
  obtain e w r where D: "dispatchContainmentPhase E (fl_world f) (fl_opts f) ''contain-sever'' = (e, w)" "sr_Command r = ''contain-sever''"
    "cw_trace w = cw_trace (fl_world f) @ [Cmd r (fst (ce_supervisor E (cw_tick (fl_world f)) r))]"
    "(e = None) = (fst (ce_supervisor E (cw_tick (fl_world f)) r) = None)"
    by (rule phase_dispatch [OF n, of "''contain-sever''" E "fl_world f"]) simp_all
  let ?m = "m0\<lparr>m_severed := (m_severed m0 \<or> e = None), m_sever_failed := (e \<noteq> None)\<rparr>"
  have p: "protocol m0 (Cmd r (fst (ce_supervisor E (cw_tick (fl_world f)) r))) = Some ?m" using D(2,4) assms(5) by simp
  have h0: "honest m0 (fl_cont f)" using assms(1) by (simp add: tracks_def)
  have "\<exists>g. sever_phase E f = persist E ''severance phase'' g \<and> fl_world g = w \<and> honest ?m (fl_cont g)"
    using False D(1) h0 assms(3) by (cases e) (simp add: sever_phase_def, rule exI, rule conjI, rule refl, simp add: honest_def)+
  then obtain g where g: "sever_phase E f = persist E ''severance phase'' g" "fl_world g = w" "honest ?m (fl_cont g)" by blast
  have "tracks t0 m (sever_phase E f) ?m" unfolding g(1) by (rule tracks_effect [OF assms(1) p _ g(3)]) (simp add: g(2) D(3))
  moreover have "unfailed ?m (sever_phase E f)" "\<not> fl_freezeErr (sever_phase E f)" "m_frozen ?m"
    using False D(1) assms(2,3,5) by (auto simp: sever_phase_def unfailed_def split: option.splits)
  moreover have "if fl_severErr (sever_phase E f) then m_sever_failed ?m else m_severed ?m"
    using False D(1) assms(3,4) by (cases e) (auto simp: sever_phase_def)
  ultimately show ?thesis by blast
qed

text \<open>What the stop relies on: no evidence lost without a reason, or no stop.\<close>

definition may_stop :: "monitor \<Rightarrow> containment_flow \<Rightarrow> bool" where
  "may_stop m f \<longleftrightarrow> ValidateName (co_Name (fl_opts f)) = None \<and>
     (if fl_freezeErr f then m_freeze_failed m
      else m_frozen m \<and> (pr_Status (cr_Capture (fl_cont f)) = Failed \<and> \<not> fl_severErr f \<or>
        \<not> m_capture_failed m \<and> (m_captured m \<or> m_waived m \<or> m_sever_failed m)))"

lemma capture_tracks:
  assumes "tracks t0 m f m0" "unfailed m0 f" "\<not> fl_freezeErr f" "m_frozen m0" "if fl_severErr f then m_sever_failed m0 else m_severed m0"
  shows "\<exists>m1. tracks t0 m (capture_phase E f) m1 \<and> may_stop m1 (capture_phase E f)"
proof -
  have h0: "honest m0 (fl_cont f)" using assms(1) by (simp add: tracks_def)
  consider (had) "pr_Status (cr_Capture (fl_cont f)) = Completed"
    | (cut) "pr_Status (cr_Capture (fl_cont f)) \<noteq> Completed" "fl_severErr f" "\<not> fl_skip f"
    | (skip) "pr_Status (cr_Capture (fl_cont f)) \<noteq> Completed" "fl_skip f"
    | (run) "pr_Status (cr_Capture (fl_cont f)) \<noteq> Completed" "\<not> fl_severErr f" "\<not> fl_skip f" by blast
  then show ?thesis
  proof cases
    case run
    obtain e w where R: "run_capture E (fl_world f) (fl_tag f) = (e, w)" by (cases "run_capture E (fl_world f) (fl_tag f)")
    then have t: "cw_trace w = cw_trace (fl_world f) @ [Captured (fl_tag f) e]" by (auto simp: run_capture_def split: prod.splits)
    let ?m = "m0\<lparr>m_captured := (m_captured m0 \<or> e = None), m_capture_failed := (e \<noteq> None)\<rparr>"
    have p: "protocol m0 (Captured (fl_tag f) e) = Some ?m" using assms(4,5) run(2) by simp
  have "\<exists>g. capture_phase E f = persist E ''capture phase'' g \<and> fl_world g = w \<and> honest ?m (fl_cont g)"
    using run R h0 assms(3) by (cases e) (simp add: capture_phase_def, rule exI, rule conjI, rule refl, simp add: honest_def)+
  then obtain g where g: "capture_phase E f = persist E ''capture phase'' g" "fl_world g = w" "honest ?m (fl_cont g)" by blast
  have "tracks t0 m (capture_phase E f) ?m" unfolding g(1) by (rule tracks_effect [OF assms(1) p _ g(3)]) (simp add: g(2) t)
    moreover have "may_stop ?m (capture_phase E f)"
      using run R assms(2,3,4) by (cases e) (auto simp: capture_phase_def may_stop_def unfailed_def)
    ultimately show ?thesis by blast
  qed (use assms h0 in \<open>auto intro!: exI [of _ m0] simp: capture_phase_def may_stop_def unfailed_def tracks_def honest_def\<close>)
qed

lemma stop_tracks:
  assumes "tracks t0 m f m0" "may_stop m0 f"
  shows "\<exists>m1. tracks t0 m (stop_phase E f) m1"
proof -
  have h0: "honest m0 (fl_cont f)" using assms(1) by (simp add: tracks_def)
  consider (keep) "pr_Status (cr_Capture (fl_cont f)) = Failed" "\<not> fl_freezeErr f" "\<not> fl_severErr f"
    | (again) "\<not> (pr_Status (cr_Capture (fl_cont f)) = Failed \<and> \<not> fl_freezeErr f \<and> \<not> fl_severErr f)" "pr_Status (cr_Stop (fl_cont f)) = Completed"
    | (send) "\<not> (pr_Status (cr_Capture (fl_cont f)) = Failed \<and> \<not> fl_freezeErr f \<and> \<not> fl_severErr f)" "pr_Status (cr_Stop (fl_cont f)) \<noteq> Completed"
    by blast
  then show ?thesis
  proof cases
    case keep
    then show ?thesis using assms(1) by (auto simp: stop_phase_def)
  next
    case again
    let ?g = "f\<lparr>fl_cont := (fl_cont f)\<lparr>cr_Custody := completedContainmentPhase (clock E (fl_world f)), cr_State := ''contained''\<rparr>\<rparr>"
    have "tracks t0 m ?g m0" using assms(1) again(2) by (auto simp: tracks_def honest_def)
    then have "tracks t0 m (persist E ''custody phase'' ?g) m0" by (rule tracks_persist)
    moreover have "stop_phase E f = persist E ''custody phase'' ?g" using again by (auto simp: stop_phase_def)
    ultimately show ?thesis by metis
  next
    case send
    define cmd where "cmd = (if fl_freezeErr f then ''quarantine'' else ''contain-stop'')"
    have n: "ValidateName (co_Name (fl_opts f)) = None" using assms(2) by (simp add: may_stop_def)
    obtain e w r where D: "dispatchContainmentPhase E (fl_world f) (fl_opts f) cmd = (e, w)" "sr_Command r = cmd"
      "cw_trace w = cw_trace (fl_world f) @ [Cmd r (fst (ce_supervisor E (cw_tick (fl_world f)) r))]"
      "(e = None) = (fst (ce_supervisor E (cw_tick (fl_world f)) r) = None)"
      by (rule phase_dispatch [OF n, of cmd E "fl_world f"]) (simp_all add: cmd_def)
    let ?m = "m0\<lparr>m_stopped := (m_stopped m0 \<or> e = None)\<rparr>"
    have p: "protocol m0 (Cmd r (fst (ce_supervisor E (cw_tick (fl_world f)) r))) = Some ?m"
      using D(2,4) assms(2) send(1) by (auto simp: may_stop_def cmd_def split: if_splits)
    have d: "stop_phase E f = (case (e, w) of
        (None, w) \<Rightarrow> persist E ''custody phase'' (f\<lparr>fl_world := w, fl_cont := (fl_cont f)\<lparr>cr_Stop := completedContainmentPhase (clock E w),
            cr_Custody := completedContainmentPhase (clock E w), cr_State := ''contained''\<rparr>\<rparr>)
      | (Some e, w) \<Rightarrow> persist E ''custody phase'' (f\<lparr>fl_world := w, fl_cont := (fl_cont f)\<lparr>cr_Stop := failedContainmentPhase (clock E w) e\<rparr>,
            fl_errors := fl_errors f @ [EStop e]\<rparr>))"
      using send D(1) by (simp add: stop_phase_def cmd_def split del: if_split) (auto simp: cmd_def)
  have "\<exists>g. stop_phase E f = persist E ''custody phase'' g \<and> fl_world g = w \<and> honest ?m (fl_cont g)"
    using d h0 by (cases e) (simp add: d, rule exI, rule conjI, rule refl, simp add: honest_def)+
  then obtain g where g: "stop_phase E f = persist E ''custody phase'' g" "fl_world g = w" "honest ?m (fl_cont g)" by blast
  have "tracks t0 m (stop_phase E f) ?m" unfolding g(1) by (rule tracks_effect [OF assms(1) p _ g(3)]) (simp add: g(2) D(3))
    then show ?thesis by blast
  qed
qed

lemma phases_track:
  assumes "tracks t0 m f m0" "unfailed m0 f" "\<not> fl_freezeErr f" "\<not> fl_severErr f"
  shows "\<exists>m1. tracks t0 m (stop_phase E (capture_phase E (sever_phase E (freeze_phase E f)))) m1"
proof -
  let ?f1 = "freeze_phase E f"
  obtain m1 where m1: "tracks t0 m ?f1 m1" "unfailed m1 ?f1" "\<not> fl_severErr ?f1"
    "if fl_freezeErr ?f1 then m_freeze_failed m1 \<and> pr_Status (cr_Capture (fl_cont ?f1)) = Skipped else m_frozen m1"
    using freeze_tracks [OF assms] by blast
  show ?thesis
  proof (cases "fl_freezeErr ?f1")
    case True
    have s: "sever_phase E ?f1 = ?f1" using True by (simp add: sever_phase_def)
    have "capture_phase E ?f1 = ?f1" using True m1(3,4) by (simp add: capture_phase_def)
    moreover have "may_stop m1 ?f1" using True m1(2,4) by (simp add: may_stop_def unfailed_def)
    ultimately show ?thesis using stop_tracks [OF m1(1), of E] s by simp
  next
    case False
    then have "m_frozen m1" using m1(4) by simp
    then obtain m2 where m2: "tracks t0 m (sever_phase E ?f1) m2" "unfailed m2 (sever_phase E ?f1)" "\<not> fl_freezeErr (sever_phase E ?f1)" "m_frozen m2"
      "if fl_severErr (sever_phase E ?f1) then m_sever_failed m2 else m_severed m2"
      using sever_tracks [OF m1(1,2) False m1(3)] by blast
    obtain m3 where "tracks t0 m (capture_phase E (sever_phase E ?f1)) m3" "may_stop m3 (capture_phase E (sever_phase E ?f1))"
      using capture_tracks [OF m2] by blast
    then show ?thesis by (rule stop_tracks)
  qed
qed

definition accounted :: "effect list \<Rightarrow> monitor \<Rightarrow> quarantine_result \<Rightarrow> cworld \<Rightarrow> bool" where
  "accounted t0 m r w \<longleftrightarrow> (\<exists>acts m'. cw_trace w = t0 @ acts \<and> accepts m acts = Some m' \<and> (\<forall>c. qr_Containment r = Some c \<longrightarrow> honest m' c))"

lemma phases_accounted:
  assumes "tracks t0 m f m0" "unfailed m0 f" "\<not> fl_freezeErr f" "\<not> fl_severErr f"
    "g = stop_phase E (capture_phase E (sever_phase E (freeze_phase E f)))"
  shows "accounted t0 m (finish g) (fl_world g)"
  using phases_track [OF assms(1-4), of E] unfolding assms(5) [symmetric] by (auto simp: accounted_def tracks_def finish_def)

lemma reconcile_write:
  assumes "reconcile E f = (r, errs, w')"
  obtains e c where "writeContainment E (fl_world f) (reconciled (clock E (fl_world f)) (forensicCapturePresent (fl_world f) (cr_CaptureTag (fl_cont f))) (fl_cont f)) = (e, c, w')"
    "qr_Containment r = Some c" "\<forall>s x. EPersist s x \<in> set errs \<longrightarrow> e = Some x"
proof -
  let ?c = "reconciled (clock E (fl_world f)) (forensicCapturePresent (fl_world f) (cr_CaptureTag (fl_cont f))) (fl_cont f)"
  obtain e c w where W: "writeContainment E (fl_world f) ?c = (e, c, w)" by (cases "writeContainment E (fl_world f) ?c")
  have "w' = w" "qr_Containment r = Some c" using assms W by (auto simp: reconcile_def Let_def)
  moreover have "e = Some x" if "EPersist s x \<in> set errs" for s x
    using that assms W by (auto simp: reconcile_def Let_def split: option.splits if_splits)
  ultimately show thesis using W that by blast
qed

lemma honest_reconciled:
  assumes "honest m c" "m_stopped m" "present \<Longrightarrow> m_captured m"
  shows "honest m (reconciled t present c)"
  using assms by (simp add: reconciled_def honest_def Let_def)

lemma reconcile_accounted:
  assumes "tracks t0 m f m0" "m_stopped m0" "\<And>tag. forensicCapturePresent (fl_world f) tag \<Longrightarrow> m_captured m0"
    "reconcile E f = (r, errs, w')"
  shows "accounted t0 m r w'"
proof -
  have h0: "honest m0 (fl_cont f)" using assms(1) by (simp add: tracks_def)
  obtain e c where W: "writeContainment E (fl_world f) (reconciled (clock E (fl_world f)) (forensicCapturePresent (fl_world f) (cr_CaptureTag (fl_cont f))) (fl_cont f)) = (e, c, w')"
    and r: "qr_Containment r = Some c" using assms(4) by (rule reconcile_write)
  obtain acts where "cw_trace (fl_world f) = t0 @ acts" "accepts m acts = Some m0" using assms(1) by (auto simp: tracks_def)
  from accepts_persist [OF W this honest_reconciled [OF h0 assms(2) assms(3)]] show ?thesis using r by (fastforce simp: accounted_def)
qed

lemma contain_from_accounted:
  assumes "tracks t0 m f m0" "unfailed m0 f" "\<not> fl_freezeErr f" "\<not> fl_severErr f"
    "quarantined (fl_world f) \<Longrightarrow> m_stopped m0" "\<And>tag. quarantined (fl_world f) \<Longrightarrow> forensicCapturePresent (fl_world f) tag \<Longrightarrow> m_captured m0"
    "\<And>c. qr_Containment (fl_result f) = Some c \<Longrightarrow> honest m0 c" "contain_from E f = (r, errs, w')"
  shows "accounted t0 m r w'"
proof -
  consider (contained) "cr_State (fl_cont f) = ''contained''"
    | (custody) "cr_State (fl_cont f) \<noteq> ''contained''" "quarantined (fl_world f)"
    | (live) "cr_State (fl_cont f) \<noteq> ''contained''" "\<not> quarantined (fl_world f)" by blast
  then show ?thesis
  proof cases
    case contained
    then have "qr_Containment r = qr_Containment (fl_result f)" "w' = fl_world f"
      using assms(8) by (auto simp: contain_from_def)
    then show ?thesis using assms(1,7) by (auto simp: accounted_def tracks_def)
  next
    case custody
    then have "reconcile E f = (r, errs, w')" using assms(8) by (auto simp: contain_from_def quarantined_def split: doc.splits)
    then show ?thesis using reconcile_accounted [OF assms(1)] assms(5,6) custody(2) by blast
  next
    case live
    define g where "g = stop_phase E (capture_phase E (sever_phase E (freeze_phase E f)))"
    have "r = finish g" "w' = fl_world g"
      using live assms(8) by (auto simp: contain_from_def quarantined_def g_def Let_def split: doc.splits)
    then show ?thesis using phases_accounted [OF assms(1-4) g_def] by simp
  qed
qed

section \<open>An attempt\<close>

lemma honest_initial: "honest m (initial_containment t opts tag skip)"
  by (simp add: honest_def initial_containment_def)

lemma begin_tracks:
  assumes "beginContainment E w opts tag (qo_SkipCapture q) = (c, be, w1)"
  shows "\<exists>acts. cw_trace w1 = cw_trace w @ acts \<and> accepts (start_monitor w q) acts = Some (start_monitor w q) \<and> honest (start_monitor w q) c"
    "cw_runtime w1 = cw_runtime w" "cw_snapshots w1 = cw_snapshots w" "\<not> cr_CaptureRequired c \<Longrightarrow> m_waived (start_monitor w q)"
proof -
  let ?i = "initial_containment (clock E w) opts tag (qo_SkipCapture q)" and ?w1 = "w\<lparr>cw_tick := Suc (cw_tick w)\<rparr>" and ?m = "start_monitor w q"
  have ci: "\<not> cr_CaptureRequired ?i \<Longrightarrow> m_waived ?m" by (simp add: initial_containment_def start_monitor_def)
  consider (kept) "c = ?i" "w1 = ?w1 \<or> w1 = ?w1\<lparr>cw_marker := True\<rparr>"
    | (old) "ReadContainment w = Inr c" "w1 = ?w1"
    | (new) e where "writeContainment E (?w1\<lparr>cw_marker := True\<rparr>) ?i = (e, c, w1)"
    using assms by (auto simp: beginContainment_def Let_def split: if_splits sum.splits prod.splits)
  then have "(\<exists>acts. cw_trace w1 = cw_trace w @ acts \<and> accepts ?m acts = Some ?m \<and> honest ?m c) \<and>
    cw_runtime w1 = cw_runtime w \<and> cw_snapshots w1 = cw_snapshots w \<and> (\<not> cr_CaptureRequired c \<longrightarrow> m_waived ?m)"
  proof cases
    case kept
    then show ?thesis using honest_initial ci by (intro conjI exI [of _ "[]"]) auto
  next
    case old
    then have "honest ?m c" "\<not> cr_CaptureRequired c \<longrightarrow> m_waived ?m" by (auto simp: honest_def start_monitor_def recorded_def)
    then show ?thesis using old by (intro conjI exI [of _ "[]"]) auto
  next
    case new
    from accepts_persist [OF new, of "cw_trace w" "[]" ?m ?m] have "\<exists>acts. cw_trace w1 = cw_trace w @ acts \<and> accepts ?m acts = Some ?m \<and> honest ?m c"
      using honest_initial by simp
    moreover have "\<not> cr_CaptureRequired c \<longrightarrow> m_waived ?m" using writeContainment_spec(1) [OF new] ci by simp
    ultimately show ?thesis using writeContainment_spec(4,5) [OF new] by simp
  qed
  then show "\<exists>acts. cw_trace w1 = cw_trace w @ acts \<and> accepts ?m acts = Some ?m \<and> honest ?m c"
    "cw_runtime w1 = cw_runtime w" "cw_snapshots w1 = cw_snapshots w" "\<not> cr_CaptureRequired c \<Longrightarrow> m_waived ?m" by blast+
qed

text \<open>The adjustments of the capture keep everything the phases rely on.\<close>

definition prepared :: "effect list \<Rightarrow> monitor \<Rightarrow> cworld \<Rightarrow> containment_flow \<Rightarrow> containment_flow \<Rightarrow> bool" where
  "prepared t0 m w f g \<longleftrightarrow> tracks t0 m g m \<and> (fl_skip g \<or> \<not> cr_CaptureRequired (fl_cont g) \<longrightarrow> m_waived m) \<and>
     fl_opts g = fl_opts f \<and> fl_result g = fl_result f \<and> fl_freezeErr g = fl_freezeErr f \<and> fl_severErr g = fl_severErr f \<and>
     cw_runtime (fl_world g) = cw_runtime w \<and> cw_snapshots (fl_world g) = cw_snapshots w"

lemma prepared_persist: "prepared t0 m w f g \<Longrightarrow> prepared t0 m w f (persist E s g)"
  by (auto simp: prepared_def tracks_persist)

lemma prepared_adjust:
  assumes "prepared t0 m w f g"
  shows "prepared t0 m w f (settle_capture (rearm_capture E (waive_capture E g)))"
proof -
  have 1: "prepared t0 m w f (waive_capture E g)"
    using assms by (auto simp: waive_capture_def Let_def intro!: prepared_persist) (auto simp: prepared_def tracks_def honest_def)
  have 2: "prepared t0 m w f (rearm_capture E h)" if "prepared t0 m w f h" for h
    using that by (auto simp: rearm_capture_def Let_def intro!: prepared_persist) (auto simp: prepared_def tracks_def honest_def)
  have 3: "prepared t0 m w f (settle_capture h)" if "prepared t0 m w f h" for h
    using that by (auto simp: settle_capture_def prepared_def tracks_def)
  show ?thesis using 1 2 3 by blast
qed

text \<open>An attempt ends before the marker, with the record it could not begin, or goes through the phases.\<close>

definition chosen_tag :: "cont_env \<Rightarrow> quarantine_options \<Rightarrow> string" where
  "chosen_tag E q = (if qo_SkipCapture q then [] else if TrimSpace (qo_CaptureTag q) = [] then ce_default_tag E else TrimSpace (qo_CaptureTag q))"

definition start_flow :: "quarantine_options \<Rightarrow> string \<Rightarrow> cont_options \<Rightarrow> containment_result \<Rightarrow> begin_error option \<Rightarrow> cworld \<Rightarrow> containment_flow" where
  "start_flow q tag opts c be w1 = \<lparr>fl_world = w1, fl_cont = c, fl_result = no_result\<lparr>qr_Containment := Some c\<rparr>,
     fl_errors = (case be of None \<Rightarrow> [] | Some x \<Rightarrow> [EBegin x]), fl_skip = qo_SkipCapture q, fl_tag = tag, fl_opts = opts,
     fl_freezeErr = False, fl_severErr = False\<rparr>"

abbreviation adjust :: "cont_env \<Rightarrow> containment_flow \<Rightarrow> containment_flow" where
  "adjust E f \<equiv> settle_capture (rearm_capture E (waive_capture E f))"

lemma containWorkspace_begun:
  assumes "ce_normalize E opts = Inr o1" "ValidateName (co_Name o1) = None" "ce_directory E = DirOK" "ce_lock E = LockAcquired"
    "(if qo_SkipCapture q then None else validateTag (chosen_tag E q)) = None"
    "beginContainment E w o1 (chosen_tag E q) (qo_SkipCapture q) = (c, be, w1)"
  shows "containWorkspace E w opts q = (if be \<noteq> None \<and> \<not> ContainmentMarked E w1 \<or> be = Some BackendMismatch
    then (no_result\<lparr>qr_Containment := Some c\<rparr>, (case be of None \<Rightarrow> [] | Some x \<Rightarrow> [EBegin x]), w1)
    else contain_from E (adjust E (start_flow q (chosen_tag E q) o1 c be w1)))"
  using assms unfolding containWorkspace_def start_flow_def chosen_tag_def [symmetric] Let_def
  by (simp split del: if_split) (cases be, simp_all)

lemma containWorkspace_cases:
  assumes "containWorkspace E w opts q = (r, errs, w')"
  obtains (early) e where "r = no_result" "errs = [e]" "w' = w" "\<And>x y. e \<noteq> EPersist x y" "\<And>x. e \<noteq> EBegin x"
  | (stuck) o1 c be w1 where "beginContainment E w o1 (chosen_tag E q) (qo_SkipCapture q) = (c, Some be, w1)"
      "r = no_result\<lparr>qr_Containment := Some c\<rparr>" "errs = [EBegin be]" "w' = w1"
      "ce_normalize E opts = Inr o1" "qo_SkipCapture q \<or> validateTag (chosen_tag E q) = None"
  | (run) o1 c be w1 where "ValidateName (co_Name o1) = None" "beginContainment E w o1 (chosen_tag E q) (qo_SkipCapture q) = (c, be, w1)"
      "qo_SkipCapture q \<or> validateTag (chosen_tag E q) = None" "be \<noteq> Some BackendMismatch"
      "contain_from E (adjust E (start_flow q (chosen_tag E q) o1 c be w1)) = (r, errs, w')" "ce_normalize E opts = Inr o1"
proof (cases "\<exists>opts1. ce_normalize E opts = Inr opts1 \<and> ValidateName (co_Name opts1) = None \<and> ce_directory E = DirOK \<and>
      ce_lock E = LockAcquired \<and> (if qo_SkipCapture q then None else validateTag (chosen_tag E q)) = None")
  case False
  then have "\<exists>e. (r, errs, w') = (no_result, [e], w) \<and> (\<forall>x y. e \<noteq> EPersist x y) \<and> (\<forall>x. e \<noteq> EBegin x)"
    using assms by (auto simp: containWorkspace_def chosen_tag_def Let_def split: sum.splits option.splits if_splits lock_outcome.splits)
  then show thesis using early by blast
next
  case True
  then obtain o1 where o1: "ce_normalize E opts = Inr o1" "ValidateName (co_Name o1) = None" "ce_directory E = DirOK"
    "ce_lock E = LockAcquired" "(if qo_SkipCapture q then None else validateTag (chosen_tag E q)) = None" by blast
  obtain c be w1 where B: "beginContainment E w o1 (chosen_tag E q) (qo_SkipCapture q) = (c, be, w1)"
    by (cases "beginContainment E w o1 (chosen_tag E q) (qo_SkipCapture q)")
  note W = containWorkspace_begun [OF o1 B]
  show thesis
  proof (cases "be \<noteq> None \<and> \<not> ContainmentMarked E w1 \<or> be = Some BackendMismatch")
    case True
    then obtain b where "be = Some b" by auto
    then show thesis using True W assms B o1 by (intro stuck [of o1 c b w1]) (auto split: if_splits)
  next
    case False
    then have "contain_from E (adjust E (start_flow q (chosen_tag E q) o1 c be w1)) = (r, errs, w')" using W assms by (metis (no_types, lifting))
    then show thesis using False o1 B by (intro run [of o1 c be w1]) (auto split: if_splits)
  qed
qed

lemma containWorkspace_accounted:
  assumes "containWorkspace E w opts q = (r, errs, w')"
  shows "accounted (cw_trace w) (start_monitor w q) r w'"
  using assms
proof (cases rule: containWorkspace_cases)
  case early
  then show ?thesis by (auto simp: accounted_def intro!: exI [of _ "[]"])
next
  case (stuck o1 c be w1)
  then show ?thesis using begin_tracks(1) [OF stuck(1)] by (auto simp: accounted_def)
next
  case (run o1 c be w1)
  let ?m = "start_monitor w q"
  define f where "f = start_flow q (chosen_tag E q) o1 c be w1"
  note b = begin_tracks [OF run(2)]
  have "prepared (cw_trace w) ?m w f f"
    using b by (auto simp: prepared_def tracks_def f_def start_flow_def) (auto simp: start_monitor_def)
  from prepared_adjust [OF this, of E] obtain g where g: "g = adjust E f" "prepared (cw_trace w) ?m w f g" by blast
  have C: "contain_from E g = (r, errs, w')" using run(5) g(1) f_def by simp
  have q: "quarantined (fl_world g) = quarantined w" "forensicCapturePresent (fl_world g) = forensicCapturePresent w"
    using g(2) by (auto simp: prepared_def quarantined_def forensicCapturePresent_def fun_eq_iff)
  show ?thesis
  proof (rule contain_from_accounted [OF _ _ _ _ _ _ _ C])
    show "tracks (cw_trace w) ?m g ?m" "\<not> fl_freezeErr g" "\<not> fl_severErr g" using g(2) by (auto simp: prepared_def f_def start_flow_def)
    show "unfailed ?m g" using g(2) run(1) by (auto simp: prepared_def f_def start_flow_def unfailed_def start_monitor_def)
    show "m_stopped ?m" if "quarantined (fl_world g)" using that q by (simp add: start_monitor_def)
    show "m_captured ?m" if "quarantined (fl_world g)" "forensicCapturePresent (fl_world g) t" for t using that q by (auto simp: start_monitor_def)
    show "honest ?m x" if "qr_Containment (fl_result g) = Some x" for x using that g(2) b(1) by (auto simp: prepared_def f_def start_flow_def)
  qed
qed

section \<open>The marker is final\<close>

lemma accepts_commands: "accepts m acts = Some m' \<Longrightarrow> Cmd r e \<in> set acts \<Longrightarrow>
    sr_Command r \<in> {''contain-freeze'', ''contain-sever'', ''contain-stop'', ''quarantine''}"
  by (induction acts arbitrary: m) (auto split: option.splits if_splits)

definition keeps :: "cworld \<Rightarrow> cworld \<Rightarrow> bool" where
  "keeps w w' \<longleftrightarrow> (cw_marker w \<longrightarrow> cw_marker w')"

lemma keeps_refl [simp, intro]: "keeps w w"
  by (simp add: keeps_def)

lemma keeps_trans [trans]: "keeps a b \<Longrightarrow> keeps b c \<Longrightarrow> keeps a c"
  by (simp add: keeps_def)

lemma dispatch_keeps: "Dispatch E w op config req = (e, ok, w') \<Longrightarrow> keeps w w'"
  by (auto simp: Dispatch_def Let_def keeps_def split: if_splits option.splits prod.splits)

lemma phase_keeps: "dispatchContainmentPhase E w opts cmd = (e, w') \<Longrightarrow> keeps w w'"
  using dispatch_keeps by (auto simp: dispatchContainmentPhase_def split: prod.splits)

lemma persist_keeps [simp]: "keeps w (fl_world (persist E s f)) = keeps w (fl_world f)"
  by (simp add: keeps_def)

lemma freeze_keeps: "keeps (fl_world f) (fl_world (freeze_phase E f))"
  using phase_keeps by (auto simp: freeze_phase_def split: prod.splits option.splits)

lemma sever_keeps: "keeps (fl_world f) (fl_world (sever_phase E f))"
  using phase_keeps by (auto simp: sever_phase_def split: prod.splits option.splits)

lemma capture_keeps: "keeps (fl_world f) (fl_world (capture_phase E f))"
  by (auto simp: capture_phase_def run_capture_def keeps_def split: prod.splits option.splits)

lemma stop_keeps: "keeps (fl_world f) (fl_world (stop_phase E f))"
  using phase_keeps by (auto simp: stop_phase_def split: prod.splits option.splits)

lemma phases_keep: "keeps (fl_world f) (fl_world (stop_phase E (capture_phase E (sever_phase E (freeze_phase E f)))))"
  by (rule keeps_trans [OF freeze_keeps keeps_trans [OF sever_keeps keeps_trans [OF capture_keeps stop_keeps]]])

lemma adjust_keeps: "keeps (fl_world f) (fl_world (adjust E f))"
  by (auto simp: keeps_def settle_capture_def rearm_capture_def waive_capture_def Let_def)

lemma contain_from_keeps:
  assumes "contain_from E f = (r, errs, w')"
  shows "keeps (fl_world f) w'"
proof -
  have "keeps (fl_world f) w'" if "reconcile E f = (r, errs, w')"
    using that by (rule reconcile_write) (auto simp: keeps_def dest: writeContainment_spec(3))
  then show ?thesis using assms phases_keep [of f E] by (auto simp: contain_from_def Let_def split: if_splits doc.splits)
qed

lemma begin_keeps: "beginContainment E w opts tag skip = (c, be, w1) \<Longrightarrow> keeps w w1"
  using writeContainment_spec(3) by (fastforce simp: beginContainment_def Let_def keeps_def split: if_splits sum.splits prod.splits)

lemma containWorkspace_keeps:
  assumes "containWorkspace E w opts q = (r, errs, w')"
  shows "keeps w w'"
  using assms
proof (cases rule: containWorkspace_cases)
  case (run o1 c be w1)
  have "keeps w w1" using begin_keeps [OF run(2)] .
  also have "keeps w1 (fl_world (adjust E (start_flow q (chosen_tag E q) o1 c be w1)))"
    using adjust_keeps [of "start_flow q (chosen_tag E q) o1 c be w1" E] by (simp add: start_flow_def)
  also have "keeps (fl_world (adjust E (start_flow q (chosen_tag E q) o1 c be w1))) w'" using contain_from_keeps [OF run(5)] .
  finally show ?thesis .
next
  case (stuck o1 c be w1)
  then show ?thesis using begin_keeps by simp
qed simp

text \<open>The commands that reach the supervisor of a marked workspace: the phases of a containment, and the
  commands that only look.\<close>

definition custody_commands :: "string list" where
  "custody_commands = [''contain-freeze'', ''contain-sever'', ''contain-stop'', ''quarantine'', ''host'', ''check'', ''inspect'']"

definition fenced :: "cworld \<Rightarrow> cworld \<Rightarrow> bool" where
  "fenced w w' \<longleftrightarrow> cw_marker w' \<and> (\<exists>acts. cw_trace w' = cw_trace w @ acts \<and> (\<forall>r e. Cmd r e \<in> set acts \<longrightarrow> TrimSpace (sr_Command r) \<in> set custody_commands))"

lemma fenced_refl: "cw_marker w \<Longrightarrow> fenced w w"
  by (simp add: fenced_def)

lemma fenced_trans: "fenced a b \<Longrightarrow> fenced b c \<Longrightarrow> fenced a c"
  unfolding fenced_def by (elim conjE exE) (auto simp: Un_iff)

inductive custody_op :: "cworld \<Rightarrow> cworld \<Rightarrow> bool" where
  quarantine: "containWorkspace E w opts q = (r, errs, w') \<Longrightarrow> custody_op w w'"
| control: "Control E w opts command = (e, w') \<Longrightarrow> custody_op w w'"
| dispatch: "Dispatch E w False config req = (e, ok, w') \<Longrightarrow> sr_RuntimeID req \<noteq> [] \<Longrightarrow> custody_op w w'"
| snapshot: "SnapshotRemove E w name tag = (ok, w') \<Longrightarrow> custody_op w w'"

inductive_cases custody_opE: "custody_op w w'"

lemma TrimSpace_phases [simp]: "TrimSpace ''contain-freeze'' = ''contain-freeze''" "TrimSpace ''contain-sever'' = ''contain-sever''"
  "TrimSpace ''contain-stop'' = ''contain-stop''" "TrimSpace ''quarantine'' = ''quarantine''"
  by (simp_all add: TrimSpace_def trim_left_def trim_right_def is_space_def)

lemma quarantine_fenced:
  assumes "cw_marker w" "containWorkspace E w opts q = (r, errs, w')"
  shows "fenced w w'"
proof -
  obtain acts m' where a: "cw_trace w' = cw_trace w @ acts" "accepts (start_monitor w q) acts = Some m'"
    using containWorkspace_accounted [OF assms(2)] by (auto simp: accounted_def)
  have "TrimSpace (sr_Command r) \<in> set custody_commands" if "Cmd r e \<in> set acts" for r e
    using accepts_commands [OF a(2) that] by (auto simp: custody_commands_def)
  moreover have "cw_marker w'" using assms(1) containWorkspace_keeps [OF assms(2)] by (simp add: keeps_def)
  ultimately show ?thesis using a(1) by (auto simp: fenced_def)
qed

lemma dispatch_fenced:
  assumes "cw_marker w" "sr_RuntimeID req \<noteq> []" "Dispatch E w False config req = (e, ok, w')"
  shows "fenced w w'" "TrimSpace (sr_Command req) \<notin> {''host'', ''check'', ''inspect''} \<Longrightarrow> w' = w \<and> \<not> ok \<and> e \<noteq> None"
proof -
  have "w' = w \<and> \<not> ok \<and> e \<noteq> None \<or> TrimSpace (sr_Command req) \<in> {''host'', ''check'', ''inspect''} \<and> cw_marker w' \<and>
    (\<exists>x. cw_trace w' = cw_trace w @ [Cmd req x])"
    using assms by (auto simp: Dispatch_def Let_def ContainmentMarked_def split: if_splits option.splits prod.splits)
  then show "fenced w w'" using assms(1) by (auto simp: fenced_def custody_commands_def)
  show "TrimSpace (sr_Command req) \<notin> {''host'', ''check'', ''inspect''} \<Longrightarrow> w' = w \<and> \<not> ok \<and> e \<noteq> None"
    using \<open>w' = w \<and> \<not> ok \<and> e \<noteq> None \<or> _\<close> by blast
qed

lemma guest_fenced: "cw_marker w \<Longrightarrow> fenced w (guest_act x w)"
  by (simp add: fenced_def guest_act_def)

lemma shutdown_fenced: "cw_marker w \<Longrightarrow> shutdown_guest E w command = (e, w') \<Longrightarrow> fenced w w'"
  by (auto simp: shutdown_guest_def prepareCleanStop_def Let_def split: if_splits
      intro: fenced_refl guest_fenced fenced_trans [OF guest_fenced guest_fenced] simp: guest_act_def [of "''sync''"])
    (auto simp: fenced_def guest_act_def)

lemma audit_fenced: "cw_marker w \<Longrightarrow> fenced w (lifecycleAudit command w)"
  by (simp add: lifecycleAudit_def fenced_refl guest_fenced)

lemma control_fenced:
  assumes "cw_marker w" "Control E w opts0 command = (e, w')"
  shows "fenced w w'"
proof -
  consider (same) "w' = w"
    | (contain) opts q r errs where "containWorkspace E w opts q = (r, errs, w')"
    | (send) opts where "ce_normalize E opts0 = Inr opts" "ValidateName (co_Name opts) = None"
        "command \<in> {''halt'', ''pause'', ''stop'', ''kill'', ''gc''}" "command = ''pause'' \<longrightarrow> ce_supports E command"
    using assms by (auto simp: Control_def containmentBlocked_def ContainmentMarked_def split: sum.splits option.splits if_splits prod.splits)
  then show ?thesis
  proof cases
    case send
    obtain se w3 where S: "shutdown_guest E (lifecycleAudit command w) command = (se, w3)"
      by (cases "shutdown_guest E (lifecycleAudit command w) command")
    have a: "fenced w (lifecycleAudit command w)" using audit_fenced [OF assms(1)] .
    then have m: "cw_marker (lifecycleAudit command w)" by (simp add: fenced_def)
    have f: "fenced w w3" using fenced_trans [OF a shutdown_fenced [OF m S]] .
    have c: "TrimSpace command \<notin> {''host'', ''check'', ''inspect''}" "command \<noteq> ''delete''"
      using send(3) by (auto simp: TrimSpace_def trim_left_def trim_right_def is_space_def)
    let ?req = "control_request E w3 opts command"
    have r: "sr_Command ?req = command" "sr_RuntimeID ?req \<noteq> []"
      using send(2) by (auto simp: control_request_def containment_request_def Let_def ValidateName_def split: doc.splits)
    have n: "command \<noteq> ''quarantine''" "command \<noteq> ''resume''" "command \<notin> {''pause'', ''resume''} \<or> ce_supports E command"
      "command \<in> {''halt'', ''pause'', ''resume'', ''stop'', ''kill'', ''delete'', ''gc''}"
      using send(3,4) by auto
    have "Control E w opts0 command = (case (se, w3) of (Some e, w3) \<Rightarrow> (Some (CShutdown e), w3)
      | (None, w3) \<Rightarrow> (case Dispatch E w3 False (Some ([], None)) (control_request E w3 opts command) of (e, ok, w4) \<Rightarrow>
          (map_option CDispatch e, if command = ''delete'' \<and> ok then Cleanup w4 (co_Name opts) else w4)))"
      using n c(2) send(1,2) S unfolding Control_def Let_def by (cases "command = ''pause''"; simp split del: if_split)
    then have "w' = w3 \<or> (\<exists>de ok. Dispatch E w3 False (Some ([], None)) ?req = (de, ok, w'))"
      using assms(2) c(2) by (cases se) (auto split: prod.splits)
    moreover have "cw_marker w3" using f by (simp add: fenced_def)
    ultimately have "fenced w3 w'" using dispatch_fenced(1) [OF _ r(2)] fenced_refl by blast
    then show ?thesis using f fenced_trans by blast
  qed (use assms(1) quarantine_fenced fenced_refl in auto)
qed

lemma custody_fenced:
  assumes "custody_op\<^sup>*\<^sup>* w w'" "cw_marker w"
  shows "fenced w w'"
  using assms
proof (induction rule: rtranclp_induct)
  case (step w1 w2)
  then have "cw_marker w1" by (simp add: fenced_def)
  from step.hyps(2) have "fenced w1 w2"
  proof (cases rule: custody_op.cases)
    case (snapshot E name tag ok)
    then show ?thesis using \<open>cw_marker w1\<close> by (auto simp: SnapshotRemove_def fenced_def Let_def split: if_splits sum.splits)
  qed (use \<open>cw_marker w1\<close> quarantine_fenced control_fenced dispatch_fenced(1) in blast)+
  with step show ?case using fenced_trans by blast
qed (simp add: fenced_refl)

end
