(* ===== verification/ContainmentRecord.thy ===== *)
theory ContainmentRecord
  imports ContainmentProps
begin

text \<open>
  The record of a containment across attempts. What the phases write is accepted by the validation that reads it
  back, with exactly two exceptions, and every record on disk lets the next attempt continue.
\<close>

section \<open>Valid records\<close>

definition shape :: "containment_result \<Rightarrow> bool" where
  "shape c \<longleftrightarrow> cr_Version c = 1 \<and> TrimSpace (cr_Backend c) \<noteq> [] \<and> cr_AcceptedAt c \<noteq> 0 \<and> (cr_State c = ''in_progress'' \<or> cr_State c = ''contained'') \<and>
     \<not> phase_bad (cr_Freeze c) \<and> \<not> phase_bad (cr_Severance c) \<and> \<not> phase_bad (cr_Capture c) \<and> \<not> phase_bad (cr_Stop c) \<and> \<not> phase_bad (cr_Custody c) \<and>
     (pr_Status (cr_Severance c) = Completed \<longrightarrow> pr_Status (cr_Freeze c) = Completed) \<and>
     (pr_Status (cr_Capture c) = Completed \<longrightarrow> pr_Status (cr_Freeze c) = Completed \<and> pr_Status (cr_Severance c) = Completed \<and> TrimSpace (cr_CaptureTag c) \<noteq> []) \<and>
     (pr_Status (cr_Capture c) = Skipped \<longrightarrow> TrimSpace (cr_CaptureTag c) = []) \<and>
     (\<not> cr_CaptureRequired c \<longrightarrow> pr_Status (cr_Capture c) = Skipped) \<and>
     (pr_Status (cr_Capture c) = Failed \<and> cr_State c = ''in_progress'' \<longrightarrow> pr_Status (cr_Stop c) = PhasePending) \<and>
     (pr_Status (cr_Stop c) = Completed \<longleftrightarrow> pr_Status (cr_Custody c) = Completed) \<and>
     (cr_State c = ''contained'' \<longrightarrow> pr_Status (cr_Stop c) = Completed)"

lemma validate_iff: "ValidateContainmentResult c = None \<longleftrightarrow> shape c \<and> cr_UpdatedAt c \<noteq> 0"
  unfolding ValidateContainmentResult_def shape_def Let_def by (auto split: if_splits)

text \<open>A capture still to come has its tag, and a skipped one has none.\<close>

definition wf_record :: "containment_result \<Rightarrow> bool" where
  "wf_record c \<longleftrightarrow> shape c \<and> (pr_Status (cr_Capture c) \<in> {PhasePending, Failed} \<longrightarrow> TrimSpace (cr_CaptureTag c) \<noteq> []) \<and>
     (pr_Status (cr_Capture c) = Skipped \<longrightarrow> cr_CaptureTag c = [])"

lemma wf_updated [simp]: "wf_record (c\<lparr>cr_UpdatedAt := t\<rparr>) = wf_record c"
  by (simp add: wf_record_def shape_def)

lemma phase_good [simp]: "\<not> phase_bad pendingPhase" "\<not> phase_bad (completedContainmentPhase t)" "\<not> phase_bad (skippedContainmentPhase t e)"
  "phase_bad (failedContainmentPhase t e) = (TrimSpace e = [])"
  by (simp_all add: phase_bad_def completedContainmentPhase_def skippedContainmentPhase_def failedContainmentPhase_def)

section \<open>The phases write valid records\<close>

definition sane_env :: "cont_env \<Rightarrow> bool" where
  "sane_env E \<longleftrightarrow> (\<forall>n. ce_now E n \<noteq> 0) \<and> (\<forall>n tag e s. ce_capture E n tag = (Some e, s) \<longrightarrow> TrimSpace e \<noteq> [])"

definition unrejected :: "cont_error list \<Rightarrow> bool" where
  "unrejected errs \<longleftrightarrow> (\<forall>s x. EPersist s (PersistInvalid x) \<notin> set errs) \<and> (\<forall>x. EBegin (WriteInitial (PersistInvalid x)) \<notin> set errs)"

definition continued :: "cworld \<Rightarrow> cworld \<Rightarrow> bool" where
  "continued w w' \<longleftrightarrow> cw_record w' = cw_record w \<or> (\<exists>c. cw_record w' = Doc c \<and> wf_record c)"

definition clean :: "cworld \<Rightarrow> containment_flow \<Rightarrow> bool" where
  "clean w f \<longleftrightarrow> wf_record (fl_cont f) \<and> unrejected (fl_errors f) \<and> continued w (fl_world f)"

lemma write_continued:
  assumes "writeContainment E w1 c = (e, c', w2)" "continued w w1" "wf_record c"
  shows "continued w w2"
  using writeContainment_spec(1,2) [OF assms(1)] assms(2,3) by (auto simp: continued_def)

lemma write_accepted:
  assumes "writeContainment E w1 c = (e, c', w2)" "sane_env E" "wf_record c"
  shows "e \<noteq> Some (PersistInvalid x)"
proof -
  have "ValidateContainmentResult c' = None"
    using writeContainment_spec(1) [OF assms(1)] assms(2,3) wf_updated by (auto simp: validate_iff sane_env_def wf_record_def)
  then show ?thesis using writeContainment_spec(6) [OF assms(1)] by simp
qed

lemma persist_clean:
  assumes "sane_env E" "clean w f"
  shows "clean w (persist E s f)"
proof -
  obtain e c w' where W: "writeContainment E (fl_world f) (fl_cont f) = (e, c, w')" by (cases "writeContainment E (fl_world f) (fl_cont f)")
  have "continued w w'" using write_continued [OF W] assms(2) by (simp add: clean_def)
  moreover have "wf_record c" using writeContainment_spec(1) [OF W] assms(2) by (simp add: clean_def)
  moreover have "e \<noteq> Some (PersistInvalid x)" for x using write_accepted [OF W assms(1)] assms(2) by (simp add: clean_def)
  ultimately show ?thesis using assms(2) W by (auto simp: persist_def clean_def unrejected_def split: option.splits)
qed

text \<open>The flow between the phases: the workspace is not contained yet, and a capture is to come unless it is done or waived.\<close>

definition pending_flow :: "cworld \<Rightarrow> containment_flow \<Rightarrow> bool" where
  "pending_flow w f \<longleftrightarrow> clean w f \<and> cr_State (fl_cont f) = ''in_progress'' \<and> ValidateName (co_Name (fl_opts f)) = None \<and>
     (if fl_skip f then pr_Status (cr_Capture (fl_cont f)) \<in> {Skipped, Completed}
      else cr_CaptureRequired (fl_cont f) \<and> (fl_freezeErr f \<or> pr_Status (cr_Capture (fl_cont f)) \<noteq> Skipped)) \<and>
     (fl_freezeErr f \<longrightarrow> pr_Status (cr_Capture (fl_cont f)) = Skipped)"

lemma clean_flow: "clean w f \<Longrightarrow> wf_record (fl_cont g) \<Longrightarrow> unrejected (fl_errors g) \<Longrightarrow> cw_record (fl_world g) = cw_record (fl_world f) \<Longrightarrow> clean w g"
  by (simp add: clean_def continued_def)

lemma freeze_pending:
  assumes "sane_env E" "pending_flow w f" "\<not> fl_freezeErr f"
  shows "pending_flow w (freeze_phase E f)" "\<not> fl_freezeErr (freeze_phase E f) \<Longrightarrow> pr_Status (cr_Freeze (fl_cont (freeze_phase E f))) = Completed"
    "pr_Status (cr_Stop (fl_cont (freeze_phase E f))) = pr_Status (cr_Stop (fl_cont f))"
proof -
  have n: "ValidateName (co_Name (fl_opts f)) = None" and c: "clean w f" using assms(2) by (simp_all add: pending_flow_def)
  have "pending_flow w (freeze_phase E f) \<and> (fl_freezeErr (freeze_phase E f) \<or> pr_Status (cr_Freeze (fl_cont (freeze_phase E f))) = Completed) \<and>
    pr_Status (cr_Stop (fl_cont (freeze_phase E f))) = pr_Status (cr_Stop (fl_cont f))"
  proof (cases "pr_Status (cr_Freeze (fl_cont f)) = Completed")
    case False
    obtain e w1 where D: "dispatchContainmentPhase E (fl_world f) (fl_opts f) ''contain-freeze'' = (e, w1)" "cw_record w1 = cw_record (fl_world f)"
      "\<And>t. e = Some t \<Longrightarrow> TrimSpace t \<noteq> []"
      by (rule phase_dispatch [OF n, of "''contain-freeze''" E "fl_world f"]) simp_all
    show ?thesis
    proof (cases e)
      case None
      let ?g = "f\<lparr>fl_world := w1, fl_cont := (fl_cont f)\<lparr>cr_Freeze := completedContainmentPhase (clock E w1)\<rparr>\<rparr>"
      have "clean w ?g" using c D(2) by (intro clean_flow [OF c]) (auto simp: clean_def wf_record_def shape_def)
      then have "clean w (persist E ''freeze phase'' ?g)" by (rule persist_clean [OF assms(1)])
      moreover have "freeze_phase E f = persist E ''freeze phase'' ?g" using False D(1) None by (simp add: freeze_phase_def)
      ultimately show ?thesis using assms(2,3) by (auto simp: pending_flow_def split: if_splits)
    next
      case (Some x)
      define g where "g = f\<lparr>fl_world := w1, fl_freezeErr := True,
          fl_cont := (fl_cont f)\<lparr>cr_Freeze := failedContainmentPhase (clock E w1) x,
            cr_Severance := skippedContainmentPhase (clock E w1) ''freeze was not confirmed; emergency stop provides final revocation'',
            cr_Capture := skippedContainmentPhase (clock E w1) ''freeze was not confirmed'', cr_CaptureTag := []\<rparr>,
          fl_result := (if fl_skip f then fl_result f
            else (fl_result f)\<lparr>qr_CaptureError := ''freeze was not confirmed; forensic capture was not attempted''\<rparr>),
          fl_errors := fl_errors f @ [EFreeze x]\<rparr>"
      have "wf_record (fl_cont g)" using c D(3) [OF Some] by (auto simp: g_def clean_def wf_record_def shape_def)
      then have "clean w g" using c D(2) by (intro clean_flow [OF c]) (auto simp: clean_def unrejected_def g_def)
      then have "clean w (persist E ''freeze phase'' g)" by (rule persist_clean [OF assms(1)])
      moreover have "freeze_phase E f = persist E ''freeze phase'' g" unfolding g_def using False D(1) Some by (simp add: freeze_phase_def split del: if_split)
      ultimately show ?thesis using assms(2,3) by (simp add: pending_flow_def) (simp add: g_def)
    qed
  qed (use assms in \<open>simp add: freeze_phase_def\<close>)
  then show "pending_flow w (freeze_phase E f)" "\<not> fl_freezeErr (freeze_phase E f) \<Longrightarrow> pr_Status (cr_Freeze (fl_cont (freeze_phase E f))) = Completed"
    "pr_Status (cr_Stop (fl_cont (freeze_phase E f))) = pr_Status (cr_Stop (fl_cont f))" by blast+
qed

lemma sever_pending:
  assumes "sane_env E" "pending_flow w f" "\<not> fl_freezeErr f" "\<not> fl_severErr f" "pr_Status (cr_Freeze (fl_cont f)) = Completed"
  shows "pending_flow w (sever_phase E f)" "fl_severErr (sever_phase E f) \<or> pr_Status (cr_Severance (fl_cont (sever_phase E f))) = Completed"
    "pr_Status (cr_Stop (fl_cont (sever_phase E f))) = pr_Status (cr_Stop (fl_cont f))" "\<not> fl_freezeErr (sever_phase E f)"
    "pr_Status (cr_Freeze (fl_cont (sever_phase E f))) = Completed"
proof -
  have n: "ValidateName (co_Name (fl_opts f)) = None" and c: "clean w f" using assms(2) by (simp_all add: pending_flow_def)
  let ?P = "\<lambda>g. pending_flow w g \<and> (fl_severErr g \<or> pr_Status (cr_Severance (fl_cont g)) = Completed) \<and>
    pr_Status (cr_Stop (fl_cont g)) = pr_Status (cr_Stop (fl_cont f)) \<and> \<not> fl_freezeErr g \<and> pr_Status (cr_Freeze (fl_cont g)) = Completed"
  have "?P (sever_phase E f)"
  proof (cases "pr_Status (cr_Severance (fl_cont f)) = Completed")
    case False
    obtain e w1 where D: "dispatchContainmentPhase E (fl_world f) (fl_opts f) ''contain-sever'' = (e, w1)" "cw_record w1 = cw_record (fl_world f)"
      "\<And>t. e = Some t \<Longrightarrow> TrimSpace t \<noteq> []"
      by (rule phase_dispatch [OF n, of "''contain-sever''" E "fl_world f"]) simp_all
    obtain g where g: "sever_phase E f = persist E ''severance phase'' g" "clean w g" "?P (persist E ''severance phase'' g) \<or> \<not> clean w (persist E ''severance phase'' g)"
    proof (cases e)
      case None
      let ?g = "f\<lparr>fl_world := w1, fl_cont := (fl_cont f)\<lparr>cr_Severance := completedContainmentPhase (clock E w1)\<rparr>\<rparr>"
      have "clean w ?g" using c D(2) assms(5) by (intro clean_flow [OF c]) (auto simp: clean_def wf_record_def shape_def)
      then show thesis using False D(1) None assms(2,3,5) by (intro that [of ?g]) (auto simp: sever_phase_def pending_flow_def split: if_splits)
    next
      case (Some x)
      let ?g = "f\<lparr>fl_world := w1, fl_severErr := True, fl_cont := (fl_cont f)\<lparr>cr_Severance := failedContainmentPhase (clock E w1) x\<rparr>,
        fl_errors := fl_errors f @ [ESever x]\<rparr>"
      have "clean w ?g" using c D(2) D(3) [OF Some] False by (intro clean_flow [OF c]) (auto simp: clean_def wf_record_def shape_def unrejected_def)
      then show thesis using False D(1) Some assms(2,3,5) by (intro that [of ?g]) (auto simp: sever_phase_def pending_flow_def split: if_splits)
    qed
    then show ?thesis using persist_clean [OF assms(1) g(2)] by auto
  qed (use assms in \<open>simp add: sever_phase_def\<close>)
  then show "pending_flow w (sever_phase E f)" "fl_severErr (sever_phase E f) \<or> pr_Status (cr_Severance (fl_cont (sever_phase E f))) = Completed"
    "pr_Status (cr_Stop (fl_cont (sever_phase E f))) = pr_Status (cr_Stop (fl_cont f))" "\<not> fl_freezeErr (sever_phase E f)"
    "pr_Status (cr_Freeze (fl_cont (sever_phase E f))) = Completed" by blast+
qed

text \<open>A failed capture cannot be recorded once a stop was attempted; otherwise the flow stays clean.\<close>

definition rejected :: "cont_error list \<Rightarrow> containment_error \<Rightarrow> bool" where
  "rejected errs x \<longleftrightarrow> (\<exists>s. EPersist s (PersistInvalid x) \<in> set errs) \<or> EBegin (WriteInitial (PersistInvalid x)) \<in> set errs"

definition capture_unrecorded :: "cworld \<Rightarrow> containment_flow \<Rightarrow> containment_flow \<Rightarrow> bool" where
  "capture_unrecorded w f g \<longleftrightarrow> pr_Status (cr_Stop (fl_cont f)) \<noteq> PhasePending \<and> pr_Status (cr_Capture (fl_cont g)) = Failed \<and>
     \<not> fl_freezeErr g \<and> \<not> fl_severErr g \<and> (\<forall>x. rejected (fl_errors g) x \<longrightarrow> x = CaptureFailedStopped) \<and> continued w (fl_world g)"

lemma rejects_failed_capture:
  assumes "wf_record c" "cr_State c = ''in_progress''" "pr_Status (cr_Stop c) \<noteq> PhasePending" "TrimSpace e \<noteq> []" "cr_CaptureRequired c" "u \<noteq> 0"
  shows "ValidateContainmentResult (c\<lparr>cr_Capture := failedContainmentPhase t e, cr_UpdatedAt := u\<rparr>) = Some CaptureFailedStopped"
  using assms unfolding ValidateContainmentResult_def wf_record_def shape_def by (auto simp: Let_def)

lemma capture_pending:
  assumes "sane_env E" "pending_flow w f" "\<not> fl_freezeErr f" "pr_Status (cr_Freeze (fl_cont f)) = Completed"
    "fl_severErr f \<or> pr_Status (cr_Severance (fl_cont f)) = Completed"
  shows "clean w (capture_phase E f) \<and> cr_State (fl_cont (capture_phase E f)) = ''in_progress'' \<and> ValidateName (co_Name (fl_opts (capture_phase E f))) = None \<and>
      (pr_Status (cr_Capture (fl_cont (capture_phase E f))) = Failed \<longrightarrow> \<not> fl_severErr (capture_phase E f) \<and> \<not> fl_freezeErr (capture_phase E f)) \<or>
    capture_unrecorded w f (capture_phase E f)"
proof -
  have c: "clean w f" using assms(2) by (simp add: pending_flow_def)
  consider (had) "pr_Status (cr_Capture (fl_cont f)) = Completed"
    | (cut) "pr_Status (cr_Capture (fl_cont f)) \<noteq> Completed" "fl_severErr f" "\<not> fl_skip f"
    | (skip) "pr_Status (cr_Capture (fl_cont f)) \<noteq> Completed" "fl_skip f"
    | (run) "pr_Status (cr_Capture (fl_cont f)) \<noteq> Completed" "\<not> fl_severErr f" "\<not> fl_skip f" by blast
  then show ?thesis
  proof cases
    case had
    then show ?thesis using assms(2) by (auto simp: capture_phase_def pending_flow_def clean_def)
  next
    case cut
    then show ?thesis using assms(2) by (auto simp: capture_phase_def pending_flow_def clean_def wf_record_def shape_def)
  next
    case skip
    then show ?thesis using assms(2,3) by (auto simp: capture_phase_def pending_flow_def)
  next
    case run
    have a: "cr_CaptureRequired (fl_cont f)" "pr_Status (cr_Capture (fl_cont f)) \<noteq> Skipped" "cr_State (fl_cont f) = ''in_progress''"
      "ValidateName (co_Name (fl_opts f)) = None"
      using assms(2,3) run(3) by (auto simp: pending_flow_def split: if_splits)
    have wf: "wf_record (fl_cont f)" using c by (simp add: clean_def)
    have tag: "TrimSpace (cr_CaptureTag (fl_cont f)) \<noteq> []" using wf a(2) run(1) by (cases "pr_Status (cr_Capture (fl_cont f))")
        (auto simp: wf_record_def shape_def phase_bad_def)
    obtain e w1 where R: "run_capture E (fl_world f) (fl_tag f) = (e, w1)" by (cases "run_capture E (fl_world f) (fl_tag f)")
    have rec: "cw_record w1 = cw_record (fl_world f)" and ne: "\<And>x. e = Some x \<Longrightarrow> TrimSpace x \<noteq> []"
      using R assms(1) unfolding run_capture_def sane_env_def by (auto split: prod.splits) blast
    show ?thesis
    proof (cases e)
      case None
      let ?g = "f\<lparr>fl_world := w1, fl_cont := (fl_cont f)\<lparr>cr_Capture := completedContainmentPhase (clock E w1)\<rparr>,
             fl_result := (fl_result f)\<lparr>qr_Captured := True, qr_CaptureTag := fl_tag f\<rparr>,
             fl_opts := (fl_opts f)\<lparr>co_EvidenceRef := ''snapshot:'' @ fl_tag f\<rparr>\<rparr>"
      have "clean w ?g" using c rec wf tag assms(4,5) run(2) a by (intro clean_flow [OF c]) (auto simp: clean_def wf_record_def shape_def)
      then have "clean w (persist E ''capture phase'' ?g)" by (rule persist_clean [OF assms(1)])
      moreover have "capture_phase E f = persist E ''capture phase'' ?g" using run R None assms(3) by (simp add: capture_phase_def)
      ultimately show ?thesis using a by simp
    next
      case (Some x)
      define g where "g = f\<lparr>fl_world := w1, fl_cont := (fl_cont f)\<lparr>cr_Capture := failedContainmentPhase (clock E w1) x\<rparr>,
             fl_result := (fl_result f)\<lparr>qr_CaptureError := x\<rparr>, fl_errors := fl_errors f @ [ECapture x]\<rparr>"
      have p: "capture_phase E f = persist E ''capture phase'' g" unfolding g_def using run R Some assms(3) by (simp add: capture_phase_def)
      show ?thesis
      proof (cases "pr_Status (cr_Stop (fl_cont f)) = PhasePending")
        case True
        have "wf_record (fl_cont g)" using wf tag a True ne [OF Some] by (auto simp: g_def wf_record_def shape_def)
        then have "clean w g" using c rec by (intro clean_flow [OF c]) (auto simp: clean_def unrejected_def g_def)
        then have "clean w (persist E ''capture phase'' g)" by (rule persist_clean [OF assms(1)])
        then show ?thesis using p a run assms(3) by (simp add: g_def)
      next
        case False
        obtain e2 c2 w2 where W: "writeContainment E (fl_world g) (fl_cont g) = (e2, c2, w2)" by (cases "writeContainment E (fl_world g) (fl_cont g)")
        have "ValidateContainmentResult c2 = Some CaptureFailedStopped"
          using rejects_failed_capture [OF wf a(3) False ne [OF Some] a(1)] writeContainment_spec(1) [OF W] assms(1)
          by (simp add: g_def sane_env_def)
        then have "e2 = Some (PersistInvalid CaptureFailedStopped)" "cw_record w2 = cw_record (fl_world g)"
          using writeContainment_spec(2,6) [OF W] by auto
        then have "capture_unrecorded w f (persist E ''capture phase'' g)"
          using W c rec False run(2) assms(3) by (auto simp: capture_unrecorded_def persist_def g_def clean_def unrejected_def rejected_def continued_def
              dest: writeContainment_spec(1))
        then show ?thesis using p by simp
      qed
    qed
  qed
qed

lemma stop_clean:
  assumes "sane_env E" "clean w f" "cr_State (fl_cont f) = ''in_progress''" "ValidateName (co_Name (fl_opts f)) = None"
    "pr_Status (cr_Capture (fl_cont f)) = Failed \<longrightarrow> \<not> fl_severErr f \<and> \<not> fl_freezeErr f"
  shows "clean w (stop_phase E f)"
proof (cases "pr_Status (cr_Capture (fl_cont f)) = Failed")
  case False
  have wf: "wf_record (fl_cont f)" using assms(2) by (simp add: clean_def)
  show ?thesis
  proof (cases "pr_Status (cr_Stop (fl_cont f)) = Completed")
    case True
    let ?g = "f\<lparr>fl_cont := (fl_cont f)\<lparr>cr_Custody := completedContainmentPhase (clock E (fl_world f)), cr_State := ''contained''\<rparr>\<rparr>"
    have "clean w ?g" using True wf assms(2) by (intro clean_flow [OF assms(2)]) (auto simp: clean_def wf_record_def shape_def)
    then have "clean w (persist E ''custody phase'' ?g)" by (rule persist_clean [OF assms(1)])
    then show ?thesis using True False by (simp add: stop_phase_def)
  next
    case st: False
    define cmd where "cmd = (if fl_freezeErr f then ''quarantine'' else ''contain-stop'')"
    obtain e w1 where D: "dispatchContainmentPhase E (fl_world f) (fl_opts f) cmd = (e, w1)" "cw_record w1 = cw_record (fl_world f)"
      "\<And>t. e = Some t \<Longrightarrow> TrimSpace t \<noteq> []"
      by (rule phase_dispatch [OF assms(4), of cmd E "fl_world f"]) (simp_all add: cmd_def)
    have S: "stop_phase E f = (case (e, w1) of
        (None, w) \<Rightarrow> persist E ''custody phase'' (f\<lparr>fl_world := w, fl_cont := (fl_cont f)\<lparr>cr_Stop := completedContainmentPhase (clock E w),
            cr_Custody := completedContainmentPhase (clock E w), cr_State := ''contained''\<rparr>\<rparr>)
      | (Some e, w) \<Rightarrow> persist E ''custody phase'' (f\<lparr>fl_world := w, fl_cont := (fl_cont f)\<lparr>cr_Stop := failedContainmentPhase (clock E w) e\<rparr>,
            fl_errors := fl_errors f @ [EStop e]\<rparr>))"
      using False st D(1) by (simp add: stop_phase_def cmd_def split del: if_split)
    show ?thesis
    proof (cases e)
      case None
      have "clean w (f\<lparr>fl_world := w1, fl_cont := (fl_cont f)\<lparr>cr_Stop := completedContainmentPhase (clock E w1),
            cr_Custody := completedContainmentPhase (clock E w1), cr_State := ''contained''\<rparr>\<rparr>)"
        using wf D(2) assms(2) by (intro clean_flow [OF assms(2)]) (auto simp: clean_def wf_record_def shape_def)
      then show ?thesis using S None persist_clean [OF assms(1)] by simp
    next
      case (Some x)
      have "clean w (f\<lparr>fl_world := w1, fl_cont := (fl_cont f)\<lparr>cr_Stop := failedContainmentPhase (clock E w1) x\<rparr>, fl_errors := fl_errors f @ [EStop x]\<rparr>)"
        using wf st D(2) D(3) [OF Some] assms(2,3) False by (intro clean_flow [OF assms(2)]) (auto simp: clean_def wf_record_def shape_def unrejected_def)
      then show ?thesis using S Some persist_clean [OF assms(1)] by simp
    qed
  qed
qed (use assms in \<open>simp add: stop_phase_def\<close>)

text \<open>The two records that the validation refuses.\<close>

definition refusals :: "cworld \<Rightarrow> containment_result \<Rightarrow> cont_error list \<Rightarrow> cworld \<Rightarrow> bool" where
  "refusals w c errs w' \<longleftrightarrow> continued w w' \<and> (\<forall>x. rejected errs x \<longrightarrow>
     x = CaptureFailedStopped \<and> pr_Status (cr_Stop c) \<noteq> PhasePending \<or>
     x = CapturedEarly \<and> quarantined w \<and> (pr_Status (cr_Freeze c) \<noteq> Completed \<or> pr_Status (cr_Severance c) \<noteq> Completed))"

lemma clean_refusals: "clean w f \<Longrightarrow> refusals w c (fl_errors f) (fl_world f)"
  by (auto simp: clean_def unrejected_def refusals_def rejected_def)

lemma phases_refusals:
  assumes "sane_env E" "pending_flow w f" "\<not> fl_freezeErr f" "\<not> fl_severErr f" "g = stop_phase E (capture_phase E (sever_phase E (freeze_phase E f)))"
  shows "refusals w (fl_cont f) (fl_errors g) (fl_world g)"
proof -
  note F = freeze_pending [OF assms(1-3)]
  have nf: "\<not> fl_severErr (freeze_phase E f)" using assms(4) by (auto simp: freeze_phase_def split: prod.splits option.splits)
  show ?thesis
  proof (cases "fl_freezeErr (freeze_phase E f)")
    case True
    have "clean w (freeze_phase E f)" "cr_State (fl_cont (freeze_phase E f)) = ''in_progress''" "ValidateName (co_Name (fl_opts (freeze_phase E f))) = None"
      "pr_Status (cr_Capture (fl_cont (freeze_phase E f))) = Skipped" using F(1) True by (simp_all add: pending_flow_def)
    moreover have "capture_phase E (sever_phase E (freeze_phase E f)) = freeze_phase E f"
      using True nf calculation(4) by (simp add: sever_phase_def capture_phase_def)
    ultimately show ?thesis using stop_clean [OF assms(1)] clean_refusals assms(5) by simp
  next
    case False
    note S = sever_pending [OF assms(1) F(1) False nf F(2) [OF False]]
    let ?s = "sever_phase E (freeze_phase E f)" and ?c = "capture_phase E (sever_phase E (freeze_phase E f))"
    consider (ok) "clean w ?c" "cr_State (fl_cont ?c) = ''in_progress''" "ValidateName (co_Name (fl_opts ?c)) = None"
        "pr_Status (cr_Capture (fl_cont ?c)) = Failed \<longrightarrow> \<not> fl_severErr ?c \<and> \<not> fl_freezeErr ?c"
      | (un) "capture_unrecorded w ?s ?c"
      using capture_pending [OF assms(1) S(1) S(4) S(5) S(2)] by (elim disjE conjE) auto
    then show ?thesis
    proof cases
      case ok
      then show ?thesis using stop_clean [OF assms(1)] clean_refusals assms(5) by simp
    next
      case un
      then have "stop_phase E ?c = ?c" by (simp add: stop_phase_def capture_unrecorded_def)
      then show ?thesis using un S(3) F(3) assms(5) by (auto simp: capture_unrecorded_def refusals_def)
    qed
  qed
qed

section \<open>An attempt and its record\<close>

lemma adjust_pending:
  assumes "sane_env E" "clean w f" "\<not> fl_freezeErr f" "ValidateName (co_Name (fl_opts f)) = None" "\<not> fl_skip f \<Longrightarrow> TrimSpace (fl_tag f) \<noteq> []"
  shows "clean w (adjust E f)" "cr_State (fl_cont (adjust E f)) = ''in_progress'' \<Longrightarrow> pending_flow w (adjust E f)"
    "cr_Stop (fl_cont (adjust E f)) = cr_Stop (fl_cont f)" "fl_freezeErr (adjust E f) = fl_freezeErr f" "fl_severErr (adjust E f) = fl_severErr f"
    "cw_runtime (fl_world (adjust E f)) = cw_runtime (fl_world f)"
proof -
  let ?w = "waive_capture E f" and ?r = "rearm_capture E (waive_capture E f)"
  have W: "clean w ?w" "fl_freezeErr ?w = fl_freezeErr f" "fl_severErr ?w = fl_severErr f" "fl_opts ?w = fl_opts f" "fl_skip ?w = fl_skip f" "fl_tag ?w = fl_tag f"
    "cr_Stop (fl_cont ?w) = cr_Stop (fl_cont f)" "cw_runtime (fl_world ?w) = cw_runtime (fl_world f)"
    using assms(2) by (auto simp: waive_capture_def Let_def intro!: persist_clean [OF assms(1)]) (auto simp: clean_def wf_record_def shape_def)
  have ws: "fl_skip f \<Longrightarrow> pr_Status (cr_Capture (fl_cont ?w)) = Completed \<or> pr_Status (cr_Capture (fl_cont ?w)) = Skipped \<and> \<not> cr_CaptureRequired (fl_cont ?w)"
    by (auto simp: waive_capture_def Let_def)
  have R: "clean w ?r" "fl_freezeErr ?r = fl_freezeErr f" "fl_severErr ?r = fl_severErr f" "fl_opts ?r = fl_opts f" "fl_skip ?r = fl_skip f"
    "cr_Stop (fl_cont ?r) = cr_Stop (fl_cont f)" "cw_runtime (fl_world ?r) = cw_runtime (fl_world f)"
    using W ws assms(5) by (auto simp: rearm_capture_def Let_def intro!: persist_clean [OF assms(1)]) (auto simp: clean_def wf_record_def shape_def)
  have rs: "fl_skip f \<Longrightarrow> pr_Status (cr_Capture (fl_cont ?r)) = Completed \<or> pr_Status (cr_Capture (fl_cont ?r)) = Skipped \<and> \<not> cr_CaptureRequired (fl_cont ?r)"
    "cr_CaptureRequired (fl_cont ?r) \<Longrightarrow> cr_State (fl_cont ?r) = ''in_progress'' \<Longrightarrow> pr_Status (cr_Capture (fl_cont ?r)) \<noteq> Skipped"
    using ws by (auto simp: rearm_capture_def Let_def)
  show "clean w (adjust E f)" using R(1) by (simp add: settle_capture_def clean_def)
  show "pending_flow w (adjust E f)" if "cr_State (fl_cont (adjust E f)) = ''in_progress''"
    using that R rs assms(3,4) unfolding pending_flow_def settle_capture_def
    by (auto simp: clean_def wf_record_def shape_def split: if_splits)
  show "cr_Stop (fl_cont (adjust E f)) = cr_Stop (fl_cont f)" "fl_freezeErr (adjust E f) = fl_freezeErr f" "fl_severErr (adjust E f) = fl_severErr f"
    "cw_runtime (fl_world (adjust E f)) = cw_runtime (fl_world f)"
    using R by (simp_all add: settle_capture_def)
qed

lemma begin_clean:
  assumes "sane_env E" "beginContainment E w opts tag skip = (c, be, w1)" "TrimSpace (co_Backend opts) \<noteq> []"
    "if skip then tag = [] else TrimSpace tag \<noteq> []" "\<And>c. ReadContainment w = Inr c \<Longrightarrow> wf_record c"
  shows "wf_record c" "continued w w1" "\<And>x. be \<noteq> Some (WriteInitial (PersistInvalid x))" "cw_runtime w1 = cw_runtime w"
    "pr_Status (cr_Stop c) \<noteq> PhasePending \<Longrightarrow> ReadContainment w = Inr c"
proof -
  let ?i = "initial_containment (clock E w) opts tag skip" and ?w1 = "w\<lparr>cw_tick := Suc (cw_tick w)\<rparr>"
  have wi: "wf_record ?i" using assms(1,3,4) by (auto simp: initial_containment_def wf_record_def shape_def sane_env_def)
  consider (kept) "c = ?i" "w1 = ?w1 \<or> w1 = ?w1\<lparr>cw_marker := True\<rparr>" "\<And>x. be \<noteq> Some (WriteInitial x)"
    | (old) "ReadContainment w = Inr c" "w1 = ?w1" "\<And>x. be \<noteq> Some (WriteInitial x)"
    | (new) e where "writeContainment E (?w1\<lparr>cw_marker := True\<rparr>) ?i = (e, c, w1)" "be = map_option WriteInitial e"
    using assms(2) by (auto simp: beginContainment_def Let_def split: if_splits sum.splits prod.splits)
  then have "wf_record c \<and> continued w w1 \<and> (\<forall>x. be \<noteq> Some (WriteInitial (PersistInvalid x))) \<and> cw_runtime w1 = cw_runtime w \<and>
    (pr_Status (cr_Stop c) \<noteq> PhasePending \<longrightarrow> ReadContainment w = Inr c)"
  proof cases
    case kept
    then show ?thesis using wi by (auto simp: continued_def initial_containment_def)
  next
    case old
    then show ?thesis using assms(5) by (auto simp: continued_def)
  next
    case new
    have "continued w w1" using write_continued [OF new(1) _ wi, of w] by (simp add: continued_def)
    moreover have c: "c = ?i\<lparr>cr_UpdatedAt := clock E (?w1\<lparr>cw_marker := True\<rparr>)\<rparr>" using writeContainment_spec(1) [OF new(1)] .
    moreover have "wf_record c" using c wi by simp
    moreover have "cr_Stop c = pendingPhase" using c by (simp add: initial_containment_def)
    moreover have "be \<noteq> Some (WriteInitial (PersistInvalid x))" for x using write_accepted [OF new(1) assms(1) wi] new(2) by auto
    ultimately show ?thesis using writeContainment_spec(4) [OF new(1)] by simp
  qed
  then show "wf_record c" "continued w w1" "\<And>x. be \<noteq> Some (WriteInitial (PersistInvalid x))" "cw_runtime w1 = cw_runtime w"
    "pr_Status (cr_Stop c) \<noteq> PhasePending \<Longrightarrow> ReadContainment w = Inr c" by blast+
qed

lemma nonblank: "c \<in> set s \<Longrightarrow> \<not> is_space c \<Longrightarrow> TrimSpace s \<noteq> []"
proof
  assume c: "c \<in> set s" "\<not> is_space c" "TrimSpace s = []"
  then have "\<forall>x \<in> set (trim_left is_space s). is_space x" using trim_right_Nil by (simp add: TrimSpace_def)
  moreover have "trim_left is_space s \<noteq> []" using c(1,2) by (auto simp: trim_left_def dropWhile_eq_Nil_conv)
  ultimately show False using hd_dropWhile [of is_space s] hd_in_set by (fastforce simp: trim_left_def)
qed

lemma late_text [simp]: "TrimSpace ''runtime reached custody before freeze was durably recorded'' \<noteq> []"
  by (rule nonblank [of "CHR ''r''"]) (simp_all add: is_space_def)

lemma reconciled_valid:
  assumes "wf_record c" "present \<Longrightarrow> pr_Status (cr_Capture c) = PhasePending \<Longrightarrow> pr_Status (cr_Freeze c) = Completed \<and> pr_Status (cr_Severance c) = Completed"
  shows "wf_record (reconciled t present c)"
  using assms unfolding wf_record_def shape_def
  by (cases "pr_Status (cr_Freeze c) = PhasePending"; cases "pr_Status (cr_Severance c) = PhasePending"; cases "pr_Status (cr_Capture c) = PhasePending"; cases present)
    (simp_all add: reconciled_def)

lemma reconciled_early:
  assumes "wf_record c" "pr_Status (cr_Capture c) = PhasePending" "pr_Status (cr_Freeze c) \<noteq> Completed \<or> pr_Status (cr_Severance c) \<noteq> Completed" "u \<noteq> 0"
  shows "ValidateContainmentResult ((reconciled t True c)\<lparr>cr_UpdatedAt := u\<rparr>) = Some CapturedEarly"
  using assms unfolding wf_record_def shape_def
  by (cases "pr_Status (cr_Freeze c) = PhasePending"; cases "pr_Status (cr_Severance c) = PhasePending")
    (auto simp: reconciled_def ValidateContainmentResult_def Let_def)

lemma reconcile_refusals:
  assumes "sane_env E" "clean w f" "quarantined w" "reconcile E f = (r, errs, w')"
  shows "continued w w' \<and> (\<forall>x. rejected errs x \<longrightarrow> x = CapturedEarly)"
proof -
  let ?p = "forensicCapturePresent (fl_world f) (cr_CaptureTag (fl_cont f))"
  obtain e c where W: "writeContainment E (fl_world f) (reconciled (clock E (fl_world f)) ?p (fl_cont f)) = (e, c, w')"
    "qr_Containment r = Some c" "\<forall>s x. EPersist s x \<in> set errs \<longrightarrow> e = Some x" using assms(4) by (rule reconcile_write)
  have b: "EBegin b \<notin> set errs" for b using assms(4) by (auto simp: reconcile_def Let_def split: prod.splits option.splits if_splits)
  have wf: "wf_record (fl_cont f)" "continued w (fl_world f)" using assms(2) by (simp_all add: clean_def)
  show ?thesis
  proof (cases "?p \<and> pr_Status (cr_Capture (fl_cont f)) = PhasePending \<and> (pr_Status (cr_Freeze (fl_cont f)) \<noteq> Completed \<or> pr_Status (cr_Severance (fl_cont f)) \<noteq> Completed)")
    case True
    then have "ValidateContainmentResult c = Some CapturedEarly"
      using reconciled_early [OF wf(1)] writeContainment_spec(1) [OF W(1)] assms(1) by (auto simp: sane_env_def)
    then have "e = Some (PersistInvalid CapturedEarly)" "cw_record w' = cw_record (fl_world f)"
      using writeContainment_spec(2,6) [OF W(1)] by auto
    then show ?thesis using wf(2) W(3) b by (auto simp: continued_def rejected_def)
  next
    case False
    then have v: "wf_record (reconciled (clock E (fl_world f)) ?p (fl_cont f))" using reconciled_valid [OF wf(1)] by blast
    show ?thesis using write_continued [OF W(1) wf(2) v] write_accepted [OF W(1) assms(1) v] W(3) b by (auto simp: rejected_def)
  qed
qed

lemma chosen_tag_ok: "qo_SkipCapture q \<or> validateTag (chosen_tag E q) = None \<Longrightarrow> if qo_SkipCapture q then chosen_tag E q = [] else TrimSpace (chosen_tag E q) \<noteq> []"
  by (auto simp: chosen_tag_def validateTag_def split: if_splits)

lemma contain_from_refusals:
  assumes "sane_env E" "clean w f" "\<not> fl_freezeErr f" "\<not> fl_severErr f" "quarantined (fl_world f) = quarantined w"
    "cr_State (fl_cont f) = ''in_progress'' \<Longrightarrow> pending_flow w f" "contain_from E f = (r, errs, w')"
  shows "refusals w (fl_cont f) errs w' \<or> quarantined w \<and> continued w w' \<and> (\<forall>x. rejected errs x \<longrightarrow> x = CapturedEarly)"
proof -
  have "cr_State (fl_cont f) = ''contained'' \<or> cr_State (fl_cont f) = ''in_progress''" using assms(2) by (auto simp: clean_def wf_record_def shape_def)
  then consider (contained) "cr_State (fl_cont f) = ''contained''"
    | (custody) "cr_State (fl_cont f) = ''in_progress''" "quarantined w"
    | (live) "cr_State (fl_cont f) = ''in_progress''" "\<not> quarantined w" by blast
  then show ?thesis
  proof cases
    case contained
    then have "w' = fl_world f" "\<not> rejected errs x" for x using assms(7) by (auto simp: contain_from_def rejected_def split: option.splits)
    then show ?thesis using assms(2) by (auto simp: refusals_def clean_def)
  next
    case custody
    then have "reconcile E f = (r, errs, w')" using assms(5,7) by (auto simp: contain_from_def quarantined_def split: doc.splits)
    then show ?thesis using reconcile_refusals [OF assms(1,2)] custody(2) by blast
  next
    case live
    define g where "g = stop_phase E (capture_phase E (sever_phase E (freeze_phase E f)))"
    have "errs = fl_errors g" "w' = fl_world g"
      using live assms(5,7) by (auto simp: contain_from_def quarantined_def g_def Let_def split: doc.splits)
    then show ?thesis using phases_refusals [OF assms(1) assms(6) [OF live(1)] assms(3,4) g_def] by simp
  qed
qed

lemma containment_record:
  assumes "sane_env E" "containWorkspace E w opts q = (r, errs, w')"
    "\<And>o1. ce_normalize E opts = Inr o1 \<Longrightarrow> TrimSpace (co_Backend o1) \<noteq> []" "\<And>c. ReadContainment w = Inr c \<Longrightarrow> wf_record c"
  shows "continued w w' \<and> (\<forall>x. rejected errs x \<longrightarrow>
    x = CaptureFailedStopped \<and> recorded w (\<lambda>c. pr_Status (cr_Stop c) \<noteq> PhasePending) \<or> x = CapturedEarly \<and> quarantined w)"
  using assms(2)
proof (cases rule: containWorkspace_cases)
  case (early e)
  then show ?thesis by (auto simp: continued_def rejected_def)
next
  case (stuck o1 c be w1)
  note B = begin_clean [OF assms(1) stuck(1) assms(3) [OF stuck(5)] chosen_tag_ok [OF stuck(6)] assms(4)]
  then show ?thesis using stuck by (auto simp: rejected_def)
next
  case (run o1 c be w1)
  note B = begin_clean [OF assms(1) run(2) assms(3) [OF run(6)] chosen_tag_ok [OF run(3)] assms(4)]
  let ?f = "start_flow q (chosen_tag E q) o1 c be w1"
  have f: "clean w ?f" "\<not> fl_freezeErr ?f" "ValidateName (co_Name (fl_opts ?f)) = None" "\<not> fl_skip ?f \<Longrightarrow> TrimSpace (fl_tag ?f) \<noteq> []"
    using B run(1) chosen_tag_ok [OF run(3)] by (auto simp: start_flow_def clean_def unrejected_def split: option.splits if_splits)
  note A = adjust_pending [OF assms(1) f]
  have "quarantined (fl_world (adjust E ?f)) = quarantined w" using A(6) B(4) by (simp add: quarantined_def start_flow_def)
  moreover have "\<not> fl_freezeErr (adjust E ?f)" "\<not> fl_severErr (adjust E ?f)" using A(4,5) by (simp_all add: start_flow_def)
  ultimately have R: "refusals w (fl_cont (adjust E ?f)) errs w' \<or> quarantined w \<and> continued w w' \<and> (\<forall>x. rejected errs x \<longrightarrow> x = CapturedEarly)"
    using contain_from_refusals [OF assms(1) A(1) _ _ _ A(2) run(5)] by blast
  have "recorded w (\<lambda>c. pr_Status (cr_Stop c) \<noteq> PhasePending)" if "pr_Status (cr_Stop (fl_cont (adjust E ?f))) \<noteq> PhasePending"
    using that A(3) B(5) by (simp add: recorded_def start_flow_def)
  then show ?thesis using R by (auto simp: refusals_def)
qed

end
