(* ===== verification/WorkspaceClaims.thy ===== *)
theory WorkspaceClaims
  imports ContainmentRecord
begin

text \<open>
  The properties of the workspace layer: containment and its fences, the posture of a launch, and the names that
  become paths and host names of the guest.
\<close>

section \<open>A concrete workspace\<close>

definition box_options :: cont_options where
  "box_options = \<lparr>co_Name = ''box'', co_Backend = ''linux-kvm'', co_Purpose = '''', co_CorrelationID = '''', co_EvidenceRef = ''''\<rparr>"

text \<open>An environment in which everything succeeds, the time is the number of interactions plus one, and the capture leaves a
  forensic manifest.\<close>

definition calm_env :: cont_env where
  "calm_env = \<lparr>ce_now = (\<lambda>n. int n + 1), ce_stat_error = False, ce_mkdir_fails = (\<lambda>_. False), ce_sync_ok = (\<lambda>_. True), ce_write = (\<lambda>_. WriteOK),
     ce_supervisor = (\<lambda>_ _. (None, Missing)),
     ce_capture = (\<lambda>_ tag. (None, [tag \<mapsto> \<lparr>sm_Forensic = True, sm_FrozenProcessState = True\<rparr>])), ce_status = (\<lambda>_. None),
     ce_normalize = Inr, ce_directory = DirOK, ce_lock = LockAcquired, ce_default_tag = ''forensic-1'', ce_lease = Inr False,
     ce_response_ok = (\<lambda>_. True), ce_supports = (\<lambda>_. True), ce_inspect = None, ce_shutdown = None, ce_new_session = ''s'',
     ce_state_dir = ''/state'', ce_supervisor_path = '''', ce_error_text = (\<lambda>_. '''')\<rparr>"

definition fresh_world :: cworld where
  "fresh_world = \<lparr>cw_marker = False, cw_record = Missing, cw_runtime = Missing, cw_event = Missing, cw_snapshots = (\<lambda>_. None),
     cw_tick = 0, cw_trace = []\<rparr>"

definition plain_quarantine :: quarantine_options where
  "plain_quarantine = \<lparr>qo_SkipCapture = False, qo_CaptureTag = ''''\<rparr>"

definition effect_names :: "effect list \<Rightarrow> string list" where
  "effect_names xs = map (\<lambda>x. case x of Cmd r _ \<Rightarrow> sr_Command r | Captured t _ \<Rightarrow> ''capture '' @ t | Persisted c \<Rightarrow> cr_State c | Guest g \<Rightarrow> g) xs"

definition contained_world :: cworld where
  "contained_world = snd (snd (containWorkspace calm_env fresh_world box_options plain_quarantine))"

lemma contained_world_trace: "effect_names (cw_trace contained_world) =
    [''in_progress'', ''contain-freeze'', ''in_progress'', ''contain-sever'', ''in_progress'', ''capture forensic-1'', ''in_progress'',
     ''contain-stop'', ''contained'']"
  by code_simp

lemma contained_world_marker: "cw_marker contained_world"
  by code_simp

section \<open>Containment\<close>

text \<open>
  C2. Custody is final. From a workspace that carries the containment marker, no sequence of quarantines, controls, dispatches and
  snapshot removals, whatever fails in them, takes the marker away, starts the workspace, reaches the
  supervisor with any command but the phases of a containment and the commands that only look, or removes the snapshot that
  the record names as its evidence.
\<close>

theorem custody_is_final:
  assumes "cw_marker w" "custody_op\<^sup>*\<^sup>* w w'"
  shows "cw_marker w' \<and> EnsureCanStart E w' = Some StartContained \<and>
    (\<exists>acts. cw_trace w' = cw_trace w @ acts \<and> (\<forall>r e. Cmd r e \<in> set acts \<longrightarrow> TrimSpace (sr_Command r) \<in> set custody_commands)) \<and>
    (\<forall>c name. ReadContainment w' = Inr c \<longrightarrow> SnapshotRemove E w' name (cr_CaptureTag c) = (False, w'))"
proof -
  have f: "fenced w w'" using custody_fenced [OF assms(2,1)] .
  then have m: "cw_marker w'" by (simp add: fenced_def)
  have "SnapshotRemove E w' name (cr_CaptureTag c) = (False, w')" if "ReadContainment w' = Inr c" for c name
    using that m by (simp add: SnapshotRemove_def ContainmentMarked_def Let_def)
  then show ?thesis
    using f m unfolding fenced_def by (auto simp: EnsureCanStart_def containmentBlocked_def ContainmentMarked_def)
qed

theorem custody_is_final_witness:
  "let w = contained_world; w' = snd (Control calm_env w box_options ''resume'') in
   custody_op w w' \<and> cw_marker w' \<and> EnsureCanStart calm_env w' = Some StartContained \<and>
   SnapshotRemove calm_env w' ''box'' ''forensic-1'' = (False, w')"
proof -
  let ?w = contained_world
  let ?w' = "snd (Control calm_env ?w box_options ''resume'')"
  have op: "custody_op ?w ?w'" by (rule custody_op.control [of calm_env _ box_options "''resume''" "fst (Control calm_env ?w box_options ''resume'')"]) simp
  have "(case ReadContainment ?w' of Inr c \<Rightarrow> cr_CaptureTag c = ''forensic-1'' | Inl _ \<Rightarrow> False)" by code_simp
  then have "\<exists>c. ReadContainment ?w' = Inr c \<and> cr_CaptureTag c = ''forensic-1''" by (auto split: sum.splits)
  then show ?thesis
    using custody_is_final [OF contained_world_marker, of ?w' calm_env] op unfolding Let_def by (auto simp: r_into_rtranclp)
qed

text \<open>
  C4. Containment refines its protocol. Whatever the file system, the supervisor and the capture answer, the effects of an
  attempt are a run of the monitor from what the earlier attempts confirmed: no severance before a confirmed freeze, no capture before
  a confirmed severance, no stop of a frozen workspace whose evidence was neither captured nor
  waived nor out of reach, no stop at all after a failed capture, the emergency stop only after a failed freeze, no
  guest interaction, and every record on disk, as the record returned, claims only phases that were confirmed.
\<close>

theorem containment_protocol:
  assumes "containWorkspace E w opts q = (r, errs, w')"
  shows "\<exists>acts m'. cw_trace w' = cw_trace w @ acts \<and> accepts (start_monitor w q) acts = Some m' \<and>
    (\<forall>c. qr_Containment r = Some c \<longrightarrow> honest m' c)"
  using containWorkspace_accounted [OF assms] by (simp add: accounted_def)

theorem containment_protocol_witness:
  "\<exists>acts m'. effect_names acts = [''in_progress'', ''contain-freeze'', ''in_progress'', ''contain-sever'', ''in_progress'',
      ''capture forensic-1'', ''in_progress'', ''contain-stop'', ''contained''] \<and>
    accepts (start_monitor fresh_world plain_quarantine) acts = Some m' \<and>
    (\<forall>c. qr_Containment (fst (containWorkspace calm_env fresh_world box_options plain_quarantine)) = Some c \<longrightarrow> honest m' c)"
proof -
  let ?x = "containWorkspace calm_env fresh_world box_options plain_quarantine"
  have "?x = (fst ?x, fst (snd ?x), contained_world)" by (simp add: contained_world_def)
  from containment_protocol [OF this] show ?thesis using contained_world_trace by (auto simp: fresh_world_def)
qed

text \<open>
  C25. The record of a containment. With a clock that is never zero and a capture whose errors have a text, an attempt leaves the
  record on disk as it was or writes one that is well formed, so that every later attempt can read it and go on; and the
  validation rejects what an attempt wants to write in two situations only: a capture that fails when a stop was already attempted
  and recorded, and a capture found on disk by the reconciliation of a workspace that reached custody.
\<close>

theorem containment_record_kept:
  assumes "sane_env E" "containWorkspace E w opts q = (r, errs, w')"
    "\<And>o1. ce_normalize E opts = Inr o1 \<Longrightarrow> TrimSpace (co_Backend o1) \<noteq> []" "\<And>c. ReadContainment w = Inr c \<Longrightarrow> wf_record c"
  shows "(cw_record w' = cw_record w \<or> (\<exists>c. cw_record w' = Doc c \<and> wf_record c)) \<and>
    (\<forall>x. rejected errs x \<longrightarrow>
      x = CaptureFailedStopped \<and> recorded w (\<lambda>c. pr_Status (cr_Stop c) \<noteq> PhasePending) \<or> x = CapturedEarly \<and> quarantined w)"
  using containment_record [OF assms] by (simp add: continued_def)

lemma calm_sane: "sane_env calm_env"
  by (simp add: sane_env_def calm_env_def)

theorem containment_record_kept_witness:
  "let (r, errs, w') = containWorkspace calm_env fresh_world box_options plain_quarantine in
   errs = [] \<and> (\<exists>c. cw_record w' = Doc c \<and> wf_record c \<and> cr_State c = ''contained'')"
proof -
  let ?x = "containWorkspace calm_env fresh_world box_options plain_quarantine"
  have x: "?x = (fst ?x, fst (snd ?x), contained_world)" by (simp add: contained_world_def)
  have "TrimSpace ''linux-kvm'' \<noteq> []" by code_simp
  then have "cw_record contained_world = cw_record fresh_world \<or> (\<exists>c. cw_record contained_world = Doc c \<and> wf_record c)"
    using containment_record_kept [OF calm_sane x] by (auto simp: calm_env_def box_options_def ReadContainment_def fresh_world_def)
  moreover have "(case cw_record contained_world of Doc c \<Rightarrow> cr_State c = ''contained'' | _ \<Rightarrow> False)" by code_simp
  moreover have "fst (snd ?x) = []" by code_simp
  ultimately show ?thesis by (subst x) (auto simp: fresh_world_def split: doc.splits)
qed

section \<open>The posture of a launch\<close>

text \<open>
  C26. A launch is mediated, isolated, or unmediated by an explicit word. When the policy of the request is accepted and the launch gate
  passes, the mode is off, which only the option ``off'' gives, or the network is isolated, or the backend has a provider that
  mediates TCP, DNS, UDP, QUIC and IPv6, drops the rest and is enforced by the host. A mediated launch without explicit caps is
  bounded in bytes and connections.
\<close>

theorem egress_launch_covered:
  assumes "request_policy opts = Inr pol" "isLaunchCommand command"
    "launch_gate backend command (Some (ep_Mode pol, Some (eo_NetworkMode opts))) = None"
  shows "(ep_Mode pol = EgressModeOff \<and> ToLower (TrimSpace (eo_Mode opts)) = ''off'' \<or>
      ToLower (TrimSpace (eo_NetworkMode opts)) = ''isolated'' \<or>
      backend \<in> {''linux-kvm'', ''apple-vf''} \<and> covered (rep_Coverage (NegotiateEgressCapture backend (eo_NetworkMode opts) (ep_Mode pol))) \<and>
        rep_Bypass (NegotiateEgressCapture backend (eo_NetworkMode opts) (ep_Mode pol)) = HostEnforced) \<and>
    (ep_Mode pol \<noteq> EgressModeOff \<and> \<not> eo_MaxTotalBytesExplicit opts \<and> \<not> eo_MaxConcurrentConnsExplicit opts \<longrightarrow>
      cap_MaxTotalBytes (ep_Caps pol) > 0 \<and> cap_MaxConcurrentConns (ep_Caps pol) > 0)"
proof -
  note P = request_policy_mode [OF assms(1)]
  have on: "EgressMediationOn (ep_Mode pol) = (ep_Mode pol \<noteq> EgressModeOff)"
    using P(2) by (auto simp: EgressMediationOn_def Let_def ToLower_def TrimSpace_def trim_left_def trim_right_def is_space_def lower_char_def)
  have off: "ep_Mode pol = EgressModeOff \<Longrightarrow> ToLower (TrimSpace (eo_Mode opts)) = ''off''"
    using P(1) by (auto simp: ResolveEgressModeDefault_def Let_def split: if_splits)
  have "backend \<in> {''linux-kvm'', ''apple-vf''} \<and> covered (rep_Coverage (NegotiateEgressCapture backend (eo_NetworkMode opts) (ep_Mode pol))) \<and>
      rep_Bypass (NegotiateEgressCapture backend (eo_NetworkMode opts) (ep_Mode pol)) = HostEnforced"
    if "ep_Mode pol \<noteq> EgressModeOff" "ToLower (TrimSpace (eo_NetworkMode opts)) \<noteq> ''isolated''"
  proof (rule mediated_needs_provider)
    show "NetworkModeMediates (eo_NetworkMode opts)" using P(3) that on by (auto simp: policy_ValidateForNetworkMode_def Let_def split: if_splits)
    show "ResolveEgressModeDefault (ep_Mode pol) = ep_Mode pol" by (simp add: P(1) Resolve_idem)
    show "policy_ValidateForCaptureProvider (pol\<lparr>ep_Mode := ep_Mode pol\<rparr>) backend (eo_NetworkMode opts) = None"
      using assms(2,3) by (simp add: launch_gate_def policy_ValidateForCaptureProvider_def Let_def split: if_splits)
  qed (use that on in simp)
  moreover have "cap_MaxTotalBytes (ep_Caps pol) > 0 \<and> cap_MaxConcurrentConns (ep_Caps pol) > 0"
    if "ep_Mode pol \<noteq> EgressModeOff" "\<not> eo_MaxTotalBytesExplicit opts" "\<not> eo_MaxConcurrentConnsExplicit opts"
    using assms(1) that on P(1) by (auto simp: request_policy_def policy_Validate_def NormalizeEgressPolicy_def EgressPolicyFromOptions_def Let_def
        split: option.splits sum.splits if_splits)
  ultimately show ?thesis using off by blast
qed

definition default_options :: egress_options where
  "default_options = \<lparr>eo_Mode = '''', eo_Allow = [''a.example''], eo_Passthrough = [], eo_AllowlistLocked = True, eo_SwapConfigPath = '''', eo_MaxBytesPerSec = 0,
     eo_MaxTotalBytes = 0, eo_MaxTotalBytesExplicit = False, eo_MaxConcurrentConns = 0, eo_MaxConcurrentConnsExplicit = False, eo_NetworkMode = ''user'',
     eo_Secrets = 0, eo_SecretEnvFiles = 0, eo_OnDemandSecrets = 0, eo_Files = 0, eo_Disks = 0, eo_RiskAcknowledgement = ''''\<rparr>"

theorem egress_launch_covered_witness:
  "(case request_policy default_options of Inl _ \<Rightarrow> False | Inr pol \<Rightarrow>
     launch_gate ''linux-kvm'' ''start'' (Some (ep_Mode pol, Some ''user'')) = None \<and> cap_MaxTotalBytes (ep_Caps pol) > 0 \<and>
     covered (rep_Coverage (NegotiateEgressCapture ''linux-kvm'' ''user'' (ep_Mode pol))))"
proof -
  define pol where "pol = NormalizeEgressPolicy (EgressPolicyFromOptions default_options)"
  have p: "request_policy default_options = Inr pol"
    unfolding pol_def by code_simp
  have m: "ep_Mode pol = ''broker''" unfolding pol_def by code_simp
  have g: "launch_gate ''linux-kvm'' ''start'' (Some (''broker'', Some ''user'')) = None" "isLaunchCommand ''start''"
    "ToLower (TrimSpace ''user'') \<noteq> ''isolated''" by code_simp+
  have o: "eo_NetworkMode default_options = ''user''" "\<not> eo_MaxTotalBytesExplicit default_options" "\<not> eo_MaxConcurrentConnsExplicit default_options"
    by (simp_all add: default_options_def)
  show ?thesis using egress_launch_covered [OF p g(2), of "''linux-kvm''"] g m o by (simp add: p)
qed

section \<open>Names\<close>

text \<open>
  Names that become paths and host names. A workspace name or snapshot tag that is accepted is one path component of at most
  63 bytes, none of the directories that the state directory keeps for itself, and the host name derived from any
  name at all passes the validation of host names.
\<close>

theorem names_stay_inside:
  "(ValidateName name = None \<longrightarrow> name \<notin> {[], ''.'', ''..''} \<union> set reservedWorkspaceNames \<and> CHR ''/'' \<notin> set name \<and> CHR 0x00 \<notin> set name \<and> length name \<le> 63) \<and>
   (validateTag tag = None \<longrightarrow> tag \<notin> {[], ''.'', ''..''} \<and> CHR ''/'' \<notin> set tag \<and> CHR 0x00 \<notin> set tag \<and> length tag \<le> 63) \<and>
   ValidateHostname (DefaultHostname any) = None"
  using name_component [of name] name_component [of tag] DefaultHostname_valid
  by (auto simp: ValidateName_None validateTag_def tag_is_name split: if_splits)

end
