(* ===== verification/Framing.thy ===== *)
theory Framing
  imports Go_Prelude
begin

text \<open>
  The length-prefixed frames of pkg/secretxfer (protocol.go, cacert.go): four big-endian bytes, then the payload. A reader is the
  bytes it still delivers before its end, a writer the writes that fail; JSON is a codec argument. The interface of a framing,
  that a frame followed by anything is read back and nothing more, is the locale \<open>frame_codec\<close>.
\<close>

section \<open>Readers and writers\<close>

datatype read_fail = ReadEOF | ReadUnexpectedEOF

text \<open>\<open>io.ReadFull\<close>.\<close>

definition ReadFull :: "bytes \<Rightarrow> nat \<Rightarrow> read_fail + bytes \<times> bytes" where
  "ReadFull r n = (if n \<le> length r then Inr (take n r, drop n r) else Inl (if r = [] then ReadEOF else ReadUnexpectedEOF))"

text \<open>The \<open>i\<close>-th write takes all of its bytes, or fails after the given number of them.\<close>

type_synonym writer = "nat \<Rightarrow> nat option"

definition Write :: "writer \<Rightarrow> nat \<Rightarrow> bytes \<Rightarrow> bool \<times> bytes" where
  "Write w i p = (case w i of None \<Rightarrow> (True, p) | Some k \<Rightarrow> (False, take k p))"

abbreviation sound_writer :: writer where "sound_writer \<equiv> (\<lambda>_. None)"

record 'm codec =
  Marshal :: "'m \<Rightarrow> bytes option"
  Unmarshal :: "bytes \<Rightarrow> 'm option"

section \<open>Messages\<close>

definition MaxMessageBytes :: nat where "MaxMessageBytes = 8388608"

datatype encode_error = MarshalFails | LengthPrefix nat | FrameUnwritten
datatype decode_error = FrameUnread read_fail | FrameTooLong nat nat | UnmarshalFails

definition EncodeMessage :: "'m codec \<Rightarrow> writer \<Rightarrow> 'm \<Rightarrow> encode_error option \<times> bytes" where
  "EncodeMessage J w msg = (case Marshal J msg of None \<Rightarrow> (Some MarshalFails, []) | Some data \<Rightarrow>
     if length data > 4294967295 then (Some (LengthPrefix (length data)), [])
     else (case Write w 0 (put_be32 (length data)) of
         (False, out) \<Rightarrow> (Some FrameUnwritten, out)
       | (True, out) \<Rightarrow> (case Write w 1 data of (ok, out') \<Rightarrow> (if ok then None else Some FrameUnwritten, out @ out'))))"

definition DecodeMessageWithMax :: "'m codec \<Rightarrow> nat \<Rightarrow> bytes \<Rightarrow> decode_error + 'm \<times> bytes" where
  "DecodeMessageWithMax J maxBytes r = (case ReadFull r 4 of Inl e \<Rightarrow> Inl (FrameUnread e) | Inr (pre, r1) \<Rightarrow>
     let n = be_nat pre in
     if n > maxBytes then Inl (FrameTooLong n maxBytes)
     else (case ReadFull r1 n of Inl e \<Rightarrow> Inl (FrameUnread e) | Inr (data, r2) \<Rightarrow>
       (case Unmarshal J data of None \<Rightarrow> Inl UnmarshalFails | Some m \<Rightarrow> Inr (m, r2))))"

definition DecodeMessage :: "'m codec \<Rightarrow> bytes \<Rightarrow> decode_error + 'm \<times> bytes" where
  "DecodeMessage J r = DecodeMessageWithMax J MaxMessageBytes r"

section \<open>The certificate of the mediator\<close>

definition MaxCACertBytes :: nat where "MaxCACertBytes = 1048576"

datatype ca_error = CAEmpty | CALong nat | CAWrite | CARead read_fail | CAZero

text \<open>The length is converted to 32 bits before it is compared.\<close>

definition ServeCACert :: "writer \<Rightarrow> bytes \<Rightarrow> ca_error option \<times> bytes" where
  "ServeCACert w pem =
     (if pem = [] then (Some CAEmpty, [])
      else if length pem mod 4294967296 > MaxCACertBytes then (Some (CALong (length pem)), [])
      else (case Write w 0 (put_be32 (length pem mod 4294967296)) of
          (False, out) \<Rightarrow> (Some CAWrite, out)
        | (True, out) \<Rightarrow> (case Write w 1 pem of (ok, out') \<Rightarrow> (if ok then None else Some CAWrite, out @ out'))))"

definition FetchCACert :: "bytes \<Rightarrow> ca_error + bytes \<times> bytes" where
  "FetchCACert r = (case ReadFull r 4 of Inl e \<Rightarrow> Inl (CARead e) | Inr (pre, r1) \<Rightarrow>
     let n = be_nat pre in
     if n = 0 then Inl CAZero else if n > MaxCACertBytes then Inl (CALong n)
     else (case ReadFull r1 n of Inl e \<Rightarrow> Inl (CARead e) | Inr (data, r2) \<Rightarrow> Inr (data, r2)))"

section \<open>The interface\<close>

locale frame_codec =
  fixes enc :: "'m \<Rightarrow> bytes"
    and dec :: "bytes \<Rightarrow> 'e + 'm \<times> bytes"
    and fits :: "'m \<Rightarrow> bool"
  assumes dec_enc: "fits m \<Longrightarrow> dec (enc m @ rest) = Inr (m, rest)"
begin

fun dec_all :: "nat \<Rightarrow> bytes \<Rightarrow> 'e + 'm list \<times> bytes" where
  "dec_all 0 r = Inr ([], r)"
| "dec_all (Suc n) r = (case dec r of Inl e \<Rightarrow> Inl e | Inr (m, r1) \<Rightarrow>
     (case dec_all n r1 of Inl e \<Rightarrow> Inl e | Inr (ms, r2) \<Rightarrow> Inr (m # ms, r2)))"

lemma dec_alone: "fits m \<Longrightarrow> dec (enc m) = Inr (m, [])"
  using dec_enc [of m "[]"] by simp

lemma stream: "\<forall>m \<in> set ms. fits m \<Longrightarrow> dec_all (length ms) (concat (map enc ms) @ rest) = Inr (ms, rest)"
  by (induction ms) (simp_all add: dec_enc)

lemma unambiguous:
  assumes "fits m" "fits m'" "enc m @ r = enc m' @ r'"
  shows "m = m' \<and> r = r'"
proof -
  have "(Inr (m, r) :: 'e + 'm \<times> bytes) = Inr (m', r')"
    using dec_enc [OF assms(1), of r] dec_enc [OF assms(2), of r'] unfolding assms(3) by metis
  then show ?thesis by simp
qed

end

definition framed :: "bytes \<Rightarrow> bytes" where
  "framed data = put_be32 (length data) @ data"

lemma ReadFull_append [simp]: "ReadFull (a @ b) (length a) = Inr (a, b)"
  by (simp add: ReadFull_def)

lemma ReadFull_prefix [simp]: "ReadFull (put_be32 n @ b) 4 = Inr (put_be32 n, b)"
  using ReadFull_append [of "put_be32 n" b] by simp

text \<open>A message fits when the peer can read it back and the reader accepts its length.\<close>

definition deliverable :: "'m codec \<Rightarrow> nat \<Rightarrow> 'm \<Rightarrow> bool" where
  "deliverable J maxBytes m \<longleftrightarrow> (case Marshal J m of None \<Rightarrow> False | Some data \<Rightarrow>
     length data \<le> maxBytes \<and> length data \<le> 4294967295 \<and> Unmarshal J data = Some m)"

lemma encode_frame:
  assumes "deliverable J n m"
  shows "EncodeMessage J sound_writer m = (None, framed (the (Marshal J m)))"
  using assms by (auto simp: EncodeMessage_def Write_def framed_def deliverable_def split: option.splits)

interpretation messages: frame_codec "\<lambda>m. snd (EncodeMessage J sound_writer m)" "DecodeMessageWithMax J maxBytes" "deliverable J maxBytes"
  for J maxBytes
proof
  fix m rest
  assume d: "deliverable J maxBytes m"
  then obtain data where data: "Marshal J m = Some data" "length data \<le> maxBytes" "length data < 4294967296" "Unmarshal J data = Some m"
    by (auto simp: deliverable_def split: option.splits)
  then show "DecodeMessageWithMax J maxBytes (snd (EncodeMessage J sound_writer m) @ rest) = Inr (m, rest)"
    by (simp add: encode_frame [OF d] framed_def DecodeMessageWithMax_def be_nat_put_be32)
qed

interpretation certificates: frame_codec "\<lambda>p. snd (ServeCACert sound_writer p)" FetchCACert "\<lambda>p. p \<noteq> [] \<and> length p \<le> MaxCACertBytes"
  by unfold_locales (simp add: ServeCACert_def FetchCACert_def Write_def MaxCACertBytes_def be_nat_put_be32)

text \<open>What a writer took before it failed is a proper part of the frame, and is refused.\<close>

lemma encode_prefix: "\<exists>t. snd (EncodeMessage J w m) @ t = snd (EncodeMessage J sound_writer m)"
  by (auto simp: EncodeMessage_def Write_def split: option.splits intro: append_take_drop_id)
    (metis append.assoc append_take_drop_id)+

lemma truncated:
  assumes "deliverable J maxBytes m" "fst (EncodeMessage J w m) \<noteq> None"
    "length (snd (EncodeMessage J w m)) < length (snd (EncodeMessage J sound_writer m))"
  shows "\<exists>e. DecodeMessageWithMax J maxBytes (snd (EncodeMessage J w m)) = Inl (FrameUnread e)"
proof -
  let ?cut = "snd (EncodeMessage J w m)"
  obtain data where data: "Marshal J m = Some data" "length data \<le> maxBytes" "length data < 4294967296"
    using assms(1) by (auto simp: deliverable_def split: option.splits)
  obtain t where t: "?cut @ t = put_be32 (length data) @ data" using encode_prefix [of J w m] encode_frame [OF assms(1)] data(1) by (auto simp: framed_def)
  have l: "length ?cut < 4 + length data" using assms(3) encode_frame [OF assms(1)] data(1) by (simp add: framed_def)
  show ?thesis
  proof (cases "length ?cut < 4")
    case False
    have "take 4 (?cut @ t) = put_be32 (length data)" unfolding t by simp
    then have "take 4 ?cut = put_be32 (length data)" using False by simp
    then have p: "?cut = put_be32 (length data) @ drop 4 ?cut" using append_take_drop_id [of 4 ?cut] by simp
    have "length (drop 4 ?cut) < length data" using l False by simp
    then have "DecodeMessageWithMax J maxBytes (put_be32 (length data) @ drop 4 ?cut) = Inl (FrameUnread (if drop 4 ?cut = [] then ReadEOF else ReadUnexpectedEOF))"
      using data by (simp add: DecodeMessageWithMax_def be_nat_put_be32 ReadFull_def [of "drop 4 ?cut"] del: drop_eq_Nil)
    then show ?thesis using p by metis
  qed (simp add: DecodeMessageWithMax_def ReadFull_def)
qed

end
