(* ===== verification/SecretXfer.thy ===== *)
theory SecretXfer
  imports Framing Names
begin

text \<open>
  The delivery of secrets to the guest (pkg/secretxfer): the bundle resolved by the host, the server and its access log, the
  two requests of the guest, and the files written and scrubbed in the guest. The resolver, JSON, the identifiers and the file system
  are arguments. A Go map that the code ranges over is an association list in the order of the visit.
\<close>

section \<open>Messages\<close>

definition ProtocolVersion :: string where "ProtocolVersion = ''secrets.v1''"

record xfer_request =
  rq_ProtocolVersion :: string
  rq_Name :: string

record get_response =
  gp_ProtocolVersion :: string
  gp_Name :: string
  gp_Value :: bytes
  gp_Error :: string

record xfer_entry =
  en_Name :: string
  en_Value :: bytes

record xfer_bundle =
  bd_ProtocolVersion :: string
  bd_Secrets :: "xfer_entry list"

record control_msg =
  cm_ProtocolVersion :: string
  cm_Op :: string

record control_reply =
  cy_ProtocolVersion :: string
  cy_OK :: bool
  cy_Error :: string

record access_record =
  ac_At :: string
  ac_RuntimeID :: string
  ac_SessionID :: string
  ac_EventID :: string
  ac_OperationID :: string
  ac_Name :: string
  ac_Access :: string
  ac_Result :: string

record xfer_json =
  xj_request :: "xfer_request codec"
  xj_get :: "get_response codec"
  xj_bundle :: "xfer_bundle codec"
  xj_control :: "control_msg codec"
  xj_reply :: "control_reply codec"
  xj_access :: "access_record codec"

section \<open>Names and the bundle\<close>

fun valid_from :: "nat \<Rightarrow> string \<Rightarrow> bool" where
  "valid_from i [] = True"
| "valid_from i (r # rs) =
     ((r = CHR ''_'' \<or> in_range (CHR ''a'') (CHR ''z'') r \<or> in_range (CHR ''A'') (CHR ''Z'') r \<or> (in_range (CHR ''0'') (CHR ''9'') r \<and> i > 0)) \<and>
      valid_from (Suc i) rs)"

definition ValidName :: "string \<Rightarrow> bool" where
  "ValidName name = (name \<noteq> [] \<and> valid_from 0 name)"

datatype bundle_error = RefUnresolved string string | EnvFileFailed string | InvalidSecretName string | DuplicateSecret string

text \<open>\<open>seen\<close> holds the names of the bundle.\<close>

definition add_secret :: "xfer_bundle \<Rightarrow> string \<Rightarrow> bytes \<Rightarrow> bundle_error + xfer_bundle" where
  "add_secret b name v =
     (if \<not> ValidName name then Inl (InvalidSecretName name)
      else if name \<in> en_Name ` set (bd_Secrets b) then Inl (DuplicateSecret name)
      else Inr (b\<lparr>bd_Secrets := bd_Secrets b @ [\<lparr>en_Name = name, en_Value = v\<rparr>]\<rparr>))"

fun add_values :: "xfer_bundle \<Rightarrow> (string, bytes) gomap \<Rightarrow> bundle_error + xfer_bundle" where
  "add_values b [] = Inr b"
| "add_values b ((name, v) # vs) = (case add_secret b name v of Inl e \<Rightarrow> Inl e | Inr b' \<Rightarrow> add_values b' vs)"

text \<open>The declared references, as pairs of a name and a reference, and then the environment files.\<close>

fun add_refs :: "(string \<Rightarrow> string + bytes) \<Rightarrow> xfer_bundle \<Rightarrow> (string \<times> string) list \<Rightarrow> bundle_error + xfer_bundle" where
  "add_refs resolve b [] = Inr b"
| "add_refs resolve b ((name, ref) # rs) = (case resolve ref of Inl e \<Rightarrow> Inl (RefUnresolved name e) | Inr v \<Rightarrow>
     (case add_secret b name v of Inl e \<Rightarrow> Inl e | Inr b' \<Rightarrow> add_refs resolve b' rs))"

fun add_files :: "(string \<Rightarrow> string + (string, bytes) gomap) \<Rightarrow> xfer_bundle \<Rightarrow> string list \<Rightarrow> bundle_error + xfer_bundle" where
  "add_files load b [] = Inr b"
| "add_files load b (p # ps) = (case load p of Inl e \<Rightarrow> Inl (EnvFileFailed p) | Inr vs \<Rightarrow>
     (case add_values b vs of Inl e \<Rightarrow> Inl e | Inr b' \<Rightarrow> add_files load b' ps))"

record secret_config =
  sc_Secrets :: "(string \<times> string) list"
  sc_SecretEnvFiles :: "string list"
  sc_OnDemandSecrets :: "(string \<times> string) list"

definition ResolveBundle :: "(string \<Rightarrow> string + bytes) \<Rightarrow> (string \<Rightarrow> string + (string, bytes) gomap) \<Rightarrow> secret_config option \<Rightarrow>
    bundle_error + xfer_bundle" where
  "ResolveBundle resolve load config = (case config of None \<Rightarrow> Inr \<lparr>bd_ProtocolVersion = [], bd_Secrets = []\<rparr> | Some c \<Rightarrow>
     (case add_refs resolve \<lparr>bd_ProtocolVersion = ProtocolVersion, bd_Secrets = []\<rparr> (sc_Secrets c) of Inl e \<Rightarrow> Inl e | Inr b \<Rightarrow>
        add_files load b (sc_SecretEnvFiles c)))"

definition OnDemandRefs :: "secret_config option \<Rightarrow> (string, string) gomap" where
  "OnDemandRefs config = (case config of None \<Rightarrow> [] | Some c \<Rightarrow> fold (\<lambda>(n, r) m. AList.update n r m) (sc_OnDemandSecrets c) [])"

section \<open>The access log\<close>

datatype append_outcome = AppendOK | MkdirFails | OpenFails | WriteFailsAfter nat | CloseFails

definition AppendAccessRecord :: "access_record codec \<Rightarrow> append_outcome \<Rightarrow> bytes \<Rightarrow> access_record \<Rightarrow> bool \<times> bytes" where
  "AppendAccessRecord J outcome log rec =
     (if outcome = MkdirFails then (False, log)
      else case Marshal J rec of None \<Rightarrow> (False, log) | Some data \<Rightarrow>
        (case outcome of
           WriteFailsAfter k \<Rightarrow> (False, log @ take k (data @ [10]))
         | CloseFails \<Rightarrow> (False, log @ data @ [10])
         | AppendOK \<Rightarrow> (True, log @ data @ [10])
         | _ \<Rightarrow> (False, log)))"

text \<open>The lines of a file, the last one also without its newline, as \<open>bufio.ScanLines\<close> cuts them.\<close>

fun raw_lines :: "bytes \<Rightarrow> bytes list" where
  "raw_lines [] = []"
| "raw_lines (b # bs) = (if b = 10 then [] # raw_lines bs else (case raw_lines bs of [] \<Rightarrow> [[b]] | l # ls \<Rightarrow> (b # l) # ls))"

definition drop_cr :: "bytes \<Rightarrow> bytes" where
  "drop_cr l = (if l \<noteq> [] \<and> last l = 13 then butlast l else l)"

definition maxScanToken :: nat where "maxScanToken = 1048576"

datatype log_error = LineTooLong | BadRecord

text \<open>A line and its newline must fit in the buffer of the scanner.\<close>

fun read_lines :: "access_record codec \<Rightarrow> bytes list \<Rightarrow> log_error + access_record list" where
  "read_lines J [] = Inr []"
| "read_lines J (l # ls) =
     (if length l \<ge> maxScanToken then Inl LineTooLong
      else if drop_cr l = [] then read_lines J ls
      else (case Unmarshal J (drop_cr l) of None \<Rightarrow> Inl BadRecord | Some r \<Rightarrow>
        (case read_lines J ls of Inl e \<Rightarrow> Inl e | Inr rs \<Rightarrow> Inr (r # rs))))"

definition ReadAccessRecords :: "access_record codec \<Rightarrow> bytes option \<Rightarrow> log_error + access_record list" where
  "ReadAccessRecords J file = (case file of None \<Rightarrow> Inr [] | Some data \<Rightarrow> read_lines J (raw_lines data))"

section \<open>The server\<close>

record xfer_server =
  sv_runtimeID :: string
  sv_sessionID :: string
  sv_bundle :: xfer_bundle
  sv_onDemand :: "(string, string) gomap"
  sv_audit :: bool

record xfer_env =
  xe_json :: xfer_json
  xe_resolve :: "string \<Rightarrow> string + bytes"
  xe_append :: "nat \<Rightarrow> append_outcome"
  xe_now :: "nat \<Rightarrow> string"
  xe_id :: "nat \<Rightarrow> string \<Rightarrow> string"
  xe_write :: writer

datatype xfer_event = Audited access_record bool | SentBundle xfer_bundle bytes | SentGet get_response bytes

text \<open>What a connection has done so far: the access log, the number of records tried, and the events.\<close>

record xfer_state =
  xs_log :: bytes
  xs_count :: nat
  xs_events :: "xfer_event list"

definition access_of :: "xfer_env \<Rightarrow> xfer_server \<Rightarrow> nat \<Rightarrow> string \<Rightarrow> string \<Rightarrow> string \<Rightarrow> access_record" where
  "access_of E s n name access result = \<lparr>ac_At = xe_now E n, ac_RuntimeID = sv_runtimeID s, ac_SessionID = sv_sessionID s,
     ac_EventID = xe_id E n ''event'', ac_OperationID = xe_id E n ''operation'', ac_Name = name, ac_Access = access, ac_Result = result\<rparr>"

definition server_record :: "xfer_env \<Rightarrow> xfer_server \<Rightarrow> string \<Rightarrow> string \<Rightarrow> string \<Rightarrow> xfer_state \<Rightarrow> bool \<times> xfer_state" where
  "server_record E s name access result st =
     (if \<not> sv_audit s then (True, st)
      else (let rec = access_of E s (xs_count st) name access result in
        case AppendAccessRecord (xj_access (xe_json E)) (xe_append E (xs_count st)) (xs_log st) rec of (ok, log) \<Rightarrow>
          (ok, \<lparr>xs_log = log, xs_count = Suc (xs_count st), xs_events = xs_events st @ [Audited rec ok]\<rparr>)))"

fun record_all :: "xfer_env \<Rightarrow> xfer_server \<Rightarrow> xfer_entry list \<Rightarrow> xfer_state \<Rightarrow> bool \<times> xfer_state" where
  "record_all E s [] st = (True, st)"
| "record_all E s (e # es) st = (case server_record E s (en_Name e) ''materialize'' ''ok'' st of
     (False, st') \<Rightarrow> (False, st') | (True, st') \<Rightarrow> record_all E s es st')"

definition send_get :: "xfer_env \<Rightarrow> get_response \<Rightarrow> xfer_state \<Rightarrow> xfer_state" where
  "send_get E g st = st\<lparr>xs_events := xs_events st @ [SentGet g (snd (EncodeMessage (xj_get (xe_json E)) (xe_write E) g))]\<rparr>"

definition refuse :: "xfer_env \<Rightarrow> string \<Rightarrow> string \<Rightarrow> bool \<times> xfer_state \<Rightarrow> xfer_state" where
  "refuse E name text p = (case p of (ok, st) \<Rightarrow> send_get E
     \<lparr>gp_ProtocolVersion = ProtocolVersion, gp_Name = name, gp_Value = [],
      gp_Error = (if ok then text else ''secret access audit failed'')\<rparr> st)"

definition server_handle :: "xfer_env \<Rightarrow> xfer_server \<Rightarrow> bytes \<Rightarrow> xfer_state \<Rightarrow> xfer_state" where
  "server_handle E s input st = (case DecodeMessage (xj_request (xe_json E)) input of Inl _ \<Rightarrow> st | Inr (req, _) \<Rightarrow>
     if rq_ProtocolVersion req \<noteq> ProtocolVersion then st
     else if rq_Name req = [] then
       (case record_all E s (bd_Secrets (sv_bundle s)) st of
          (False, st') \<Rightarrow> st'
        | (True, st') \<Rightarrow> (let b = (sv_bundle s)\<lparr>bd_ProtocolVersion := ProtocolVersion\<rparr> in
            st'\<lparr>xs_events := xs_events st' @ [SentBundle b (snd (EncodeMessage (xj_bundle (xe_json E)) (xe_write E) b))]\<rparr>))
     else (case map_of (sv_onDemand s) (rq_Name req) of
         None \<Rightarrow> refuse E (rq_Name req) ''secret is not declared on-demand'' (server_record E s (rq_Name req) ''on-demand'' ''denied'' st)
       | Some ref \<Rightarrow> (case xe_resolve E ref of
           Inl _ \<Rightarrow> refuse E (rq_Name req) ''resolve failed'' (server_record E s (rq_Name req) ''on-demand'' ''error'' st)
         | Inr v \<Rightarrow> (case server_record E s (rq_Name req) ''on-demand'' ''ok'' st of
             (False, st') \<Rightarrow> refuse E (rq_Name req) [] (False, st')
           | (True, st') \<Rightarrow> send_get E \<lparr>gp_ProtocolVersion = ProtocolVersion, gp_Name = rq_Name req, gp_Value = v, gp_Error = []\<rparr> st'))))"

section \<open>The guest\<close>

datatype fetch_error = SendFailed | ReceiveFailed decode_error | BadProtocol string | PeerRefused string string

text \<open>What the guest writes, and what it makes of the bytes it then reads.\<close>

definition bundle_request :: xfer_request where
  "bundle_request = \<lparr>rq_ProtocolVersion = ProtocolVersion, rq_Name = []\<rparr>"

definition FetchBundle :: "xfer_json \<Rightarrow> writer \<Rightarrow> bytes \<Rightarrow> (fetch_error + xfer_bundle) \<times> bytes" where
  "FetchBundle J w answer = (case EncodeMessage (xj_request J) w bundle_request of (e, out) \<Rightarrow>
     (if e \<noteq> None then Inl SendFailed
      else (case DecodeMessage (xj_bundle J) answer of Inl x \<Rightarrow> Inl (ReceiveFailed x) | Inr (b, _) \<Rightarrow>
        if bd_ProtocolVersion b \<noteq> ProtocolVersion then Inl (BadProtocol (bd_ProtocolVersion b)) else Inr b), out))"

definition FetchOne :: "xfer_json \<Rightarrow> writer \<Rightarrow> string \<Rightarrow> bytes \<Rightarrow> (fetch_error + bytes) \<times> bytes" where
  "FetchOne J w name answer = (case EncodeMessage (xj_request J) w \<lparr>rq_ProtocolVersion = ProtocolVersion, rq_Name = name\<rparr> of (e, out) \<Rightarrow>
     (if e \<noteq> None then Inl SendFailed
      else (case DecodeMessage (xj_get J) answer of Inl x \<Rightarrow> Inl (ReceiveFailed x) | Inr (g, _) \<Rightarrow>
        if gp_ProtocolVersion g \<noteq> ProtocolVersion then Inl (BadProtocol (gp_ProtocolVersion g))
        else if gp_Error g \<noteq> [] then Inl (PeerRefused name (gp_Error g)) else Inr (gp_Value g)), out))"

text \<open>\<open>ServeBundle\<close>, the transfer without a server.\<close>

definition ServeBundle :: "xfer_json \<Rightarrow> writer \<Rightarrow> bytes \<Rightarrow> xfer_bundle \<Rightarrow> (fetch_error + encode_error option) \<times> bytes" where
  "ServeBundle J w input b = (case DecodeMessage (xj_request J) input of Inl x \<Rightarrow> (Inl (ReceiveFailed x), []) | Inr (req, _) \<Rightarrow>
     if rq_ProtocolVersion req \<noteq> ProtocolVersion then (Inl (BadProtocol (rq_ProtocolVersion req)), [])
     else (case EncodeMessage (xj_bundle J) w (b\<lparr>bd_ProtocolVersion := ProtocolVersion\<rparr>) of (e, out) \<Rightarrow> (Inr e, out)))"

definition SendControl :: "xfer_json \<Rightarrow> writer \<Rightarrow> string \<Rightarrow> bytes \<Rightarrow> fetch_error option \<times> bytes" where
  "SendControl J w op answer = (case EncodeMessage (xj_control J) w \<lparr>cm_ProtocolVersion = ProtocolVersion, cm_Op = op\<rparr> of (e, out) \<Rightarrow>
     (if e \<noteq> None then Some SendFailed
      else (case DecodeMessage (xj_reply J) answer of Inl x \<Rightarrow> Some (ReceiveFailed x) | Inr (y, _) \<Rightarrow>
        if cy_ProtocolVersion y \<noteq> ProtocolVersion then Some (BadProtocol (cy_ProtocolVersion y))
        else if \<not> cy_OK y then Some (PeerRefused op (cy_Error y)) else None), out))"

section \<open>Files of the guest\<close>

text \<open>The directory of the secrets by the names of its entries, in the order in which the directory is read.
  \<open>OtherNode\<close> is what is neither a directory nor, with its links followed, a regular file.\<close>

datatype node = RegularFile bytes nat | SubDirectory | OtherNode

datatype secret_file_error = DirFails | BadFileName string | TwiceNamed string | FileFails string | ModeFails string | ScrubFails string | RemoveFails string | ListFails

text \<open>How a file is written, and how it is scrubbed.\<close>

datatype file_outcome = FileOK | FileOpenFails | FileWritePartial nat
datatype scrub_outcome = ScrubOK | ScrubStatFails | ScrubChmodFails | ScrubOpenFails | ScrubWritePartial nat | ScrubSyncFails

record file_env =
  fe_dir_ok :: bool
  fe_write :: "string \<Rightarrow> file_outcome"
  fe_chmod_ok :: "string \<Rightarrow> bool"
  fe_scrub :: "string \<Rightarrow> scrub_outcome"
  fe_remove_ok :: "string \<Rightarrow> bool"

text \<open>\<open>os.WriteFile\<close> truncates an existing file and keeps its mode.\<close>

definition kept_mode :: "(string, node) gomap \<Rightarrow> string \<Rightarrow> nat" where
  "kept_mode dir name = (case map_of dir name of Some (RegularFile _ m) \<Rightarrow> m | _ \<Rightarrow> 256)"

fun write_entries :: "file_env \<Rightarrow> string list \<Rightarrow> xfer_entry list \<Rightarrow> (string, node) gomap \<Rightarrow> secret_file_error option \<times> (string, node) gomap" where
  "write_entries F seen [] dir = (None, dir)"
| "write_entries F seen (e # es) dir =
     (let name = en_Name e in
      if \<not> ValidName name then (Some (BadFileName name), dir)
      else if name \<in> set seen then (Some (TwiceNamed name), dir)
      else (case fe_write F name of
          FileOpenFails \<Rightarrow> (Some (FileFails name), dir)
        | FileWritePartial k \<Rightarrow> (Some (FileFails name), AList.update name (RegularFile (take k (en_Value e)) (kept_mode dir name)) dir)
        | FileOK \<Rightarrow>
            if \<not> fe_chmod_ok F name then (Some (ModeFails name), AList.update name (RegularFile (en_Value e) (kept_mode dir name)) dir)
            else write_entries F (name # seen) es (AList.update name (RegularFile (en_Value e) 256) dir)))"

definition WriteSecrets :: "file_env \<Rightarrow> xfer_bundle \<Rightarrow> (string, node) gomap \<Rightarrow> secret_file_error option \<times> (string, node) gomap" where
  "WriteSecrets F b dir = (if \<not> fe_dir_ok F then (Some DirFails, dir) else write_entries F [] (bd_Secrets b) dir)"

text \<open>\<open>zeroFile\<close>: the file keeps its length, and the mode is widened for the rewrite.\<close>

datatype scrub_step = Zeroed string bytes | Unlinked string bytes

definition zeroFile :: "file_env \<Rightarrow> string \<Rightarrow> node \<Rightarrow> bool \<times> node" where
  "zeroFile F name n = (case n of
       RegularFile data m \<Rightarrow> (case fe_scrub F name of
           ScrubStatFails \<Rightarrow> (False, n)
         | outcome \<Rightarrow> if data = [] then (True, n)
             else (case outcome of
               ScrubChmodFails \<Rightarrow> (False, n)
             | ScrubOpenFails \<Rightarrow> (False, RegularFile data 384)
             | ScrubWritePartial k \<Rightarrow> (False, RegularFile (replicate (min k (length data)) 0 @ drop k data) 384)
             | ScrubSyncFails \<Rightarrow> (False, RegularFile (replicate (length data) 0) 384)
             | _ \<Rightarrow> (True, RegularFile (replicate (length data) 0) 384)))
     | _ \<Rightarrow> (fe_scrub F name \<noteq> ScrubStatFails, n))"

fun content_of :: "node \<Rightarrow> bytes" where
  "content_of (RegularFile d _) = d"
| "content_of _ = []"

fun purge_entries :: "file_env \<Rightarrow> (string, node) gomap \<Rightarrow> (string, node) gomap \<Rightarrow>
    secret_file_error option \<times> (string, node) gomap \<times> scrub_step list" where
  "purge_entries F [] dir = (None, dir, [])"
| "purge_entries F ((name, n) # es) dir =
     (if n = SubDirectory then purge_entries F es dir
      else (case zeroFile F name n of
          (False, n') \<Rightarrow> (Some (ScrubFails name), AList.update name n' dir, [])
        | (True, n') \<Rightarrow>
            if \<not> fe_remove_ok F name then (Some (RemoveFails name), AList.update name n' dir, [Zeroed name (content_of n')])
            else (case purge_entries F es (AList.delete name dir) of
              (e, dir', steps) \<Rightarrow> (e, dir', Zeroed name (content_of n') # Unlinked name (content_of n') # steps))))"

definition PurgeSecrets :: "file_env \<Rightarrow> (string, node) gomap option \<Rightarrow> secret_file_error option \<times> (string, node) gomap \<times> scrub_step list" where
  "PurgeSecrets F root = (case root of None \<Rightarrow> (None, [], []) | Some dir \<Rightarrow>
     if \<not> fe_dir_ok F then (Some ListFails, dir, []) else purge_entries F dir dir)"

end
