(* ===== verification/SecretProps.thy ===== *)
theory SecretProps
  imports SecretXfer
begin

text \<open>
  What the transfer of secrets guarantees: the bundle is what was resolved and reaches the files of the guest unchanged, no value
  leaves the host before its access is on record, a scrubbed file is zero before it is removed, and the access log
  can be read back as long as its lines fit the reader.
\<close>

section \<open>Names\<close>

lemma valid_from_chars: "valid_from i s \<Longrightarrow> c \<in> set s \<Longrightarrow> c = CHR ''_'' \<or> alnum c"
  by (induction i s rule: valid_from.induct) (auto simp: alnum_def)

lemma ValidName_component:
  assumes "ValidName s"
  shows "s \<noteq> []" "CHR ''/'' \<notin> set s" "CHR ''.'' \<notin> set s"
proof -
  have "\<not> alnum (CHR ''/'')" "\<not> alnum (CHR ''.'')" by (simp_all add: alnum_def in_range_def)
  then show "s \<noteq> []" "CHR ''/'' \<notin> set s" "CHR ''.'' \<notin> set s" using assms valid_from_chars [of 0 s] by (auto simp: ValidName_def)
qed

section \<open>The bundle\<close>

abbreviation pairs :: "xfer_bundle \<Rightarrow> (string \<times> bytes) list" where
  "pairs b \<equiv> map (\<lambda>e. (en_Name e, en_Value e)) (bd_Secrets b)"

definition sound_bundle :: "xfer_bundle \<Rightarrow> bool" where
  "sound_bundle b \<longleftrightarrow> distinct (map en_Name (bd_Secrets b)) \<and> (\<forall>e \<in> set (bd_Secrets b). ValidName (en_Name e))"

lemma add_secret_Inr:
  "add_secret b name v = Inr b' \<Longrightarrow> pairs b' = pairs b @ [(name, v)] \<and> bd_ProtocolVersion b' = bd_ProtocolVersion b \<and> (sound_bundle b \<longrightarrow> sound_bundle b')"
  by (auto simp: add_secret_def sound_bundle_def split: if_splits)

lemma add_values_Inr:
  "add_values b vs = Inr b' \<Longrightarrow> pairs b' = pairs b @ vs \<and> bd_ProtocolVersion b' = bd_ProtocolVersion b \<and> (sound_bundle b \<longrightarrow> sound_bundle b')"
proof (induction b vs rule: add_values.induct)
  case (2 b name v vs)
  obtain b1 where b1: "add_secret b name v = Inr b1" "add_values b1 vs = Inr b'" using "2.prems" by (auto split: sum.splits)
  show ?case using add_secret_Inr [OF b1(1)] "2.IH" [OF b1(1) b1(2)] by simp
qed simp

lemma add_refs_Inr:
  "add_refs resolve b rs = Inr b' \<Longrightarrow>
    (\<forall>(n, ref) \<in> set rs. \<exists>v. resolve ref = Inr v) \<and> pairs b' = pairs b @ map (\<lambda>(n, ref). (n, projr (resolve ref))) rs \<and>
    bd_ProtocolVersion b' = bd_ProtocolVersion b \<and> (sound_bundle b \<longrightarrow> sound_bundle b')"
proof (induction resolve b rs rule: add_refs.induct)
  case (2 resolve b name ref rs)
  obtain v b1 where b1: "resolve ref = Inr v" "add_secret b name v = Inr b1" "add_refs resolve b1 rs = Inr b'" using "2.prems" by (auto split: sum.splits)
  show ?case using add_secret_Inr [OF b1(2)] "2.IH" [OF b1(1,2,3)] b1(1) by simp
qed simp

lemma add_files_Inr:
  "add_files load b ps = Inr b' \<Longrightarrow>
    (\<forall>p \<in> set ps. \<exists>vs. load p = Inr vs) \<and> pairs b' = pairs b @ concat (map (\<lambda>p. projr (load p)) ps) \<and>
    bd_ProtocolVersion b' = bd_ProtocolVersion b \<and> (sound_bundle b \<longrightarrow> sound_bundle b')"
proof (induction load b ps rule: add_files.induct)
  case (2 load b p ps)
  obtain vs b1 where b1: "load p = Inr vs" "add_values b vs = Inr b1" "add_files load b1 ps = Inr b'" using "2.prems" by (auto split: sum.splits)
  show ?case using add_values_Inr [OF b1(2)] "2.IH" [OF b1(1,2,3)] b1(1) by simp
qed simp

lemma ResolveBundle_Inr:
  assumes "ResolveBundle resolve load (Some c) = Inr b"
  shows "sound_bundle b" "bd_ProtocolVersion b = ProtocolVersion"
    "pairs b = map (\<lambda>(n, ref). (n, projr (resolve ref))) (sc_Secrets c) @ concat (map (\<lambda>p. projr (load p)) (sc_SecretEnvFiles c))"
    "\<forall>(n, ref) \<in> set (sc_Secrets c). \<exists>v. resolve ref = Inr v" "\<forall>p \<in> set (sc_SecretEnvFiles c). \<exists>vs. load p = Inr vs"
proof -
  obtain b1 where b1: "add_refs resolve \<lparr>bd_ProtocolVersion = ProtocolVersion, bd_Secrets = []\<rparr> (sc_Secrets c) = Inr b1"
    "add_files load b1 (sc_SecretEnvFiles c) = Inr b"
    using assms by (auto simp: ResolveBundle_def split: sum.splits)
  have "sound_bundle \<lparr>bd_ProtocolVersion = ProtocolVersion, bd_Secrets = []\<rparr>" by (simp add: sound_bundle_def)
  then show "sound_bundle b" "bd_ProtocolVersion b = ProtocolVersion"
    "pairs b = map (\<lambda>(n, ref). (n, projr (resolve ref))) (sc_Secrets c) @ concat (map (\<lambda>p. projr (load p)) (sc_SecretEnvFiles c))"
    "\<forall>(n, ref) \<in> set (sc_Secrets c). \<exists>v. resolve ref = Inr v" "\<forall>p \<in> set (sc_SecretEnvFiles c). \<exists>vs. load p = Inr vs"
    using add_refs_Inr [OF b1(1)] add_files_Inr [OF b1(2)] by simp_all
qed

section \<open>The server\<close>

abbreviation access_line :: "access_record codec \<Rightarrow> access_record \<Rightarrow> bytes" where
  "access_line J r \<equiv> the (Marshal J r) @ [10]"

lemma append_spec:
  assumes "AppendAccessRecord J o1 log rec = (ok, log')"
  shows "\<exists>t. log' = log @ t" "ok \<Longrightarrow> Marshal J rec \<noteq> None \<and> log' = log @ access_line J rec"
  using assms by (auto simp: AppendAccessRecord_def split: if_splits option.splits append_outcome.splits)

lemma server_record_spec:
  assumes "server_record E s name access result st = (ok, st')" "sv_audit s"
  obtains r where "xs_events st' = xs_events st @ [Audited r ok]" "ac_Name r = name" "ac_Access r = access" "ac_Result r = result"
    "\<exists>t. xs_log st' = xs_log st @ t"
    "ok \<Longrightarrow> Marshal (xj_access (xe_json E)) r \<noteq> None \<and> xs_log st' = xs_log st @ access_line (xj_access (xe_json E)) r"
proof -
  let ?r = "access_of E s (xs_count st) name access result"
  obtain log where a: "AppendAccessRecord (xj_access (xe_json E)) (xe_append E (xs_count st)) (xs_log st) ?r = (ok, log)"
    and st': "st' = \<lparr>xs_log = log, xs_count = Suc (xs_count st), xs_events = xs_events st @ [Audited ?r ok]\<rparr>"
    using assms by (auto simp: server_record_def Let_def split: prod.splits)
  show thesis using append_spec [OF a] by (intro that [of ?r]) (simp_all add: st' access_of_def)
qed

lemma record_all_spec:
  assumes "record_all E s es st = (ok, st')" "sv_audit s"
  shows "\<exists>rs. xs_events st' = xs_events st @ map (\<lambda>r. Audited r True) rs @ (if ok then [] else [last (xs_events st')]) \<and>
    (ok \<longrightarrow> map ac_Name rs = map en_Name es \<and> xs_log st' = xs_log st @ concat (map (access_line (xj_access (xe_json E))) rs)) \<and>
    (\<not> ok \<longrightarrow> (\<exists>r. last (xs_events st') = Audited r False)) \<and> (\<exists>t. xs_log st' = xs_log st @ t) \<and>
    (\<forall>r \<in> set rs. ac_Access r = ''materialize'' \<and> ac_Result r = ''ok'' \<and> Marshal (xj_access (xe_json E)) r \<noteq> None)"
  using assms(1)
proof (induction es arbitrary: st)
  case Nil
  then show ?case by (auto intro!: exI [of _ "[]"])
next
  case (Cons e es)
  obtain ok1 st1 where r1: "server_record E s (en_Name e) ''materialize'' ''ok'' st = (ok1, st1)"
    by (cases "server_record E s (en_Name e) ''materialize'' ''ok'' st")
  obtain r where r: "xs_events st1 = xs_events st @ [Audited r ok1]" "ac_Name r = en_Name e" "ac_Access r = ''materialize''" "ac_Result r = ''ok''"
    "\<exists>t. xs_log st1 = xs_log st @ t"
    "ok1 \<Longrightarrow> Marshal (xj_access (xe_json E)) r \<noteq> None \<and> xs_log st1 = xs_log st @ access_line (xj_access (xe_json E)) r"
    using server_record_spec [OF r1 assms(2)] by metis
  show ?case
  proof (cases ok1)
    case True
    then have "record_all E s es st1 = (ok, st')" using Cons.prems r1 by simp
    from Cons.IH [OF this] obtain rs where rs: "xs_events st' = xs_events st1 @ map (\<lambda>r. Audited r True) rs @ (if ok then [] else [last (xs_events st')])"
      "ok \<longrightarrow> map ac_Name rs = map en_Name es \<and> xs_log st' = xs_log st1 @ concat (map (access_line (xj_access (xe_json E))) rs)"
      "\<not> ok \<longrightarrow> (\<exists>r. last (xs_events st') = Audited r False)" "\<exists>t. xs_log st' = xs_log st1 @ t"
      "\<forall>r \<in> set rs. ac_Access r = ''materialize'' \<and> ac_Result r = ''ok'' \<and> Marshal (xj_access (xe_json E)) r \<noteq> None"
      by blast
    then show ?thesis using r True by (intro exI [of _ "r # rs"]) auto
  next
    case False
    then have "ok = False" "st' = st1" using Cons.prems r1 by auto
    then show ?thesis using r False by (intro exI [of _ "[]"]) simp
  qed
qed

text \<open>What leaves the host on one connection. A value goes out last, after its access is in the log.\<close>

lemma refuse_events:
  assumes "server_record E s name access result st = (ok, st1)" "sv_audit s"
  shows "\<exists>r g out. xs_events (refuse E name tx (ok, st1)) = xs_events st @ [Audited r ok, SentGet g out] \<and> gp_Value g = [] \<and>
    (\<exists>t. xs_log (refuse E name tx (ok, st1)) = xs_log st @ t)"
proof -
  obtain r where "xs_events st1 = xs_events st @ [Audited r ok]" "\<exists>t. xs_log st1 = xs_log st @ t" using server_record_spec [OF assms] by metis
  then show ?thesis by (auto simp: refuse_def send_get_def)
qed

lemma server_handle_cases:
  assumes "sv_audit s"
  obtains (silent) "server_handle E s input st = st"
  | (refused) r ok g out where "xs_events (server_handle E s input st) = xs_events st @ [Audited r ok, SentGet g out]" "gp_Value g = []"
      "\<exists>t. xs_log (server_handle E s input st) = xs_log st @ t"
  | (unlogged) rs r where "xs_events (server_handle E s input st) = xs_events st @ map (\<lambda>r. Audited r True) rs @ [Audited r False]"
      "\<exists>t. xs_log (server_handle E s input st) = xs_log st @ t"
  | (whole) rs out where "xs_events (server_handle E s input st) = xs_events st @ map (\<lambda>r. Audited r True) rs @
        [SentBundle ((sv_bundle s)\<lparr>bd_ProtocolVersion := ProtocolVersion\<rparr>) out]"
      "map ac_Name rs = map en_Name (bd_Secrets (sv_bundle s))"
      "\<forall>r \<in> set rs. ac_Access r = ''materialize'' \<and> ac_Result r = ''ok'' \<and> Marshal (xj_access (xe_json E)) r \<noteq> None"
      "xs_log (server_handle E s input st) = xs_log st @ concat (map (access_line (xj_access (xe_json E))) rs)"
  | (disclosed) r g out ref where "xs_events (server_handle E s input st) = xs_events st @ [Audited r True, SentGet g out]"
      "ac_Name r = gp_Name g" "ac_Access r = ''on-demand''" "ac_Result r = ''ok''" "Marshal (xj_access (xe_json E)) r \<noteq> None"
      "map_of (sv_onDemand s) (gp_Name g) = Some ref" "xe_resolve E ref = Inr (gp_Value g)"
      "xs_log (server_handle E s input st) = xs_log st @ access_line (xj_access (xe_json E)) r"
proof (cases "DecodeMessage (xj_request (xe_json E)) input")
  case (Inl e)
  then show thesis by (intro silent) (simp add: server_handle_def)
next
  case (Inr p)
  obtain req rest where p: "p = (req, rest)" by (cases p)
  note D = Inr [unfolded p]
  let ?n = "rq_Name req"
  have refusal: thesis if "server_handle E s input st = refuse E ?n tx (server_record E s ?n access result st)" for tx access result
  proof -
    obtain ok st1 where r: "server_record E s ?n access result st = (ok, st1)" by (cases "server_record E s ?n access result st")
    show thesis using refuse_events [OF r assms, of tx] that r by (auto intro: refused)
  qed
  consider (version) "rq_ProtocolVersion req \<noteq> ProtocolVersion" | (all) "rq_ProtocolVersion req = ProtocolVersion" "?n = []"
    | (one) "rq_ProtocolVersion req = ProtocolVersion" "?n \<noteq> []" by blast
  then show thesis
  proof cases
    case version
    then show thesis using D by (intro silent) (simp add: server_handle_def)
  next
    case all
    obtain ok st1 where r: "record_all E s (bd_Secrets (sv_bundle s)) st = (ok, st1)" by (cases "record_all E s (bd_Secrets (sv_bundle s)) st")
    note R = record_all_spec [OF r assms]
    show thesis
    proof (cases ok)
      case True
      then show thesis using R D all r by (elim exE conjE, intro whole) (auto simp: server_handle_def Let_def)
    next
      case False
      then have h: "server_handle E s input st = st1" using D all r by (simp add: server_handle_def)
      show thesis using R False unfolding h [symmetric] by (elim exE conjE) (auto intro: unlogged)
    qed
  next
    case one
    show thesis
    proof (cases "map_of (sv_onDemand s) ?n")
      case None
      then show thesis using D one by (intro refusal) (simp add: server_handle_def)
    next
      case (Some ref)
      show thesis
      proof (cases "xe_resolve E ref")
        case (Inl e)
        then show thesis using D one Some by (intro refusal) (simp add: server_handle_def)
      next
        case (Inr v)
        obtain ok st1 where r: "server_record E s ?n ''on-demand'' ''ok'' st = (ok, st1)" by (cases "server_record E s ?n ''on-demand'' ''ok'' st")
        show thesis
        proof (cases ok)
          case True
          obtain r1 where "xs_events st1 = xs_events st @ [Audited r1 ok]" "ac_Name r1 = ?n" "ac_Access r1 = ''on-demand''" "ac_Result r1 = ''ok''"
            "Marshal (xj_access (xe_json E)) r1 \<noteq> None \<and> xs_log st1 = xs_log st @ access_line (xj_access (xe_json E)) r1"
            using server_record_spec [OF r assms] True by metis
          then show thesis using D one Some Inr True r by (intro disclosed) (auto simp: server_handle_def send_get_def)
        next
          case False
          then have "server_handle E s input st = refuse E ?n [] (ok, st1)" using D one Some Inr r by (simp add: server_handle_def)
          then show thesis using refuse_events [OF r assms, of "[]"] by (auto intro: refused)
        qed
      qed
    qed
  qed
qed

section \<open>The files of the guest\<close>

lemma write_entries_ok:
  assumes "\<forall>e \<in> set es. fe_write F (en_Name e) = FileOK \<and> fe_chmod_ok F (en_Name e) \<and> ValidName (en_Name e)"
    "distinct (map en_Name es)" "set (map en_Name es) \<inter> set seen = {}"
  shows "\<exists>dir'. write_entries F seen es dir = (None, dir') \<and>
    map_of dir' = (\<lambda>n. case map_of (map (\<lambda>e. (en_Name e, en_Value e)) es) n of Some v \<Rightarrow> Some (RegularFile v 256) | None \<Rightarrow> map_of dir n)"
  using assms
proof (induction es arbitrary: seen dir)
  case (Cons e es)
  let ?dir = "AList.update (en_Name e) (RegularFile (en_Value e) 256) dir"
  obtain dir' where w: "write_entries F (en_Name e # seen) es ?dir = (None, dir')"
    and m: "map_of dir' = (\<lambda>n. case map_of (map (\<lambda>e. (en_Name e, en_Value e)) es) n of Some v \<Rightarrow> Some (RegularFile v 256) | None \<Rightarrow> map_of ?dir n)"
    using Cons.IH [of "en_Name e # seen" ?dir] Cons.prems by auto
  have none: "map_of (map (\<lambda>e. (en_Name e, en_Value e)) es) (en_Name e) = None"
    using Cons.prems(2) by (auto simp: map_of_eq_None_iff comp_def image_iff)
  have "map_of dir' n = (case map_of (map (\<lambda>e. (en_Name e, en_Value e)) (e # es)) n of Some v \<Rightarrow> Some (RegularFile v 256) | None \<Rightarrow> map_of dir n)" for n
    using none by (cases "n = en_Name e") (auto simp: m split: option.splits)
  then show ?case using Cons.prems w by (intro exI [of _ dir']) auto
qed (auto simp: fun_eq_iff)

lemma write_bundle:
  assumes "sound_bundle b" "fe_dir_ok F" "\<forall>e \<in> set (bd_Secrets b). fe_write F (en_Name e) = FileOK \<and> fe_chmod_ok F (en_Name e)"
  shows "\<exists>dir. WriteSecrets F b [] = (None, dir) \<and> map_of dir = (\<lambda>n. map_option (\<lambda>v. RegularFile v 256) (map_of (pairs b) n))"
proof -
  obtain dir where w: "write_entries F [] (bd_Secrets b) [] = (None, dir)"
    and m: "map_of dir = (\<lambda>n. case map_of (pairs b) n of Some v \<Rightarrow> Some (RegularFile v 256) | None \<Rightarrow> map_of [] n)"
    using write_entries_ok [of "bd_Secrets b" F "[]" "[]"] assms by (auto simp: sound_bundle_def)
  have "map_of dir n = map_option (\<lambda>v. RegularFile v 256) (map_of (pairs b) n)" for n by (cases "map_of (pairs b) n") (simp_all add: m)
  then show ?thesis using w assms(2) by (intro exI [of _ dir]) (auto simp: WriteSecrets_def)
qed

text \<open>Every file that was unlinked was zero by then, and after a purge without an error no file is left.\<close>

lemma zero_ok: "zeroFile F name n = (True, n') \<Longrightarrow> content_of n' = replicate (length (content_of n)) 0"
  by (auto simp: zeroFile_def split: node.splits scrub_outcome.splits if_splits)

lemma purge_zeroed:
  "purge_entries F es dir = (e, dir', steps) \<Longrightarrow> Unlinked name d \<in> set steps \<Longrightarrow>
    \<exists>n. (name, n) \<in> set es \<and> d = replicate (length (content_of n)) 0 \<and> n \<noteq> SubDirectory"
proof (induction F es dir arbitrary: e dir' steps rule: purge_entries.induct)
  case (2 F nm n es dir)
  show ?case
  proof (cases "n = SubDirectory")
    case True
    then show ?thesis using "2.IH"(1) "2.prems" by auto
  next
    case False
    obtain ok n' where z: "zeroFile F nm n = (ok, n')" by (cases "zeroFile F nm n")
    show ?thesis
    proof (cases "ok \<and> fe_remove_ok F nm")
      case True
      obtain e1 d1 s1 where r: "purge_entries F es (AList.delete nm dir) = (e1, d1, s1)" by (cases "purge_entries F es (AList.delete nm dir)")
      have "name = nm \<and> d = content_of n' \<or> Unlinked name d \<in> set s1" using "2.prems" False True z r by auto
      moreover have "zeroFile F nm n = (True, n')" using z True by simp
      ultimately show ?thesis using "2.IH"(2) [OF False z [symmetric] _ _ r] zero_ok [of F nm n n'] True False by auto
    qed (use "2.prems" False z in \<open>auto split: if_splits bool.splits\<close>)
  qed
qed simp

lemma purge_complete:
  "purge_entries F es dir = (None, dir', steps) \<Longrightarrow>
    (\<forall>name n. (name, n) \<in> set es \<and> n \<noteq> SubDirectory \<longrightarrow> (\<exists>d. Unlinked name d \<in> set steps) \<and> name \<notin> fst ` set dir') \<and> set dir' \<subseteq> set dir"
proof (induction F es dir arbitrary: dir' steps rule: purge_entries.induct)
  case (2 F nm n es dir)
  show ?case
  proof (cases "n = SubDirectory")
    case True
    then show ?thesis using "2.IH"(1) "2.prems" by auto
  next
    case False
    obtain ok n' where z: "zeroFile F nm n = (ok, n')" by (cases "zeroFile F nm n")
    have ok: "ok" "fe_remove_ok F nm" using "2.prems" False z by (auto split: if_splits bool.splits)
    obtain e1 d1 s1 where r: "purge_entries F es (AList.delete nm dir) = (e1, d1, s1)" by (cases "purge_entries F es (AList.delete nm dir)")
    have s: "e1 = None" "dir' = d1" "steps = Zeroed nm (content_of n') # Unlinked nm (content_of n') # s1"
      using "2.prems" False z ok r by auto
    have z': "zeroFile F nm n = (True, n')" using z ok by simp
    have IH: "(\<forall>name n. (name, n) \<in> set es \<and> n \<noteq> SubDirectory \<longrightarrow> (\<exists>d. Unlinked name d \<in> set s1) \<and> name \<notin> fst ` set d1) \<and>
      set d1 \<subseteq> set (AList.delete nm dir)"
      using "2.IH"(2) [OF False z' [symmetric] refl _ r [unfolded s(1)]] ok by simp
    have d: "set (AList.delete nm dir) \<subseteq> set dir - {p. fst p = nm}" by (auto simp: AList.delete_eq)
    have "nm \<notin> fst ` set dir'" "set dir' \<subseteq> set dir" using IH d unfolding s(2) by blast+
    then show ?thesis using IH unfolding s by auto
  qed
qed simp

section \<open>The log\<close>

lemma raw_lines_line: "10 \<notin> set l \<Longrightarrow> raw_lines (l @ 10 # rest) = l # raw_lines rest"
  by (induction l) auto

definition readable :: "access_record codec \<Rightarrow> access_record \<Rightarrow> bool" where
  "readable J r \<longleftrightarrow> (case Marshal J r of None \<Rightarrow> False | Some data \<Rightarrow>
     10 \<notin> set data \<and> data \<noteq> [] \<and> last data \<noteq> 13 \<and> length data < maxScanToken \<and> Unmarshal J data = Some r)"

lemma read_appended:
  "\<forall>r \<in> set rs. readable J r \<Longrightarrow> read_lines J (raw_lines (concat (map (access_line J) rs))) = Inr rs"
  by (induction rs) (auto simp: readable_def raw_lines_line drop_cr_def split: option.splits)

text \<open>One line that is too long hides the whole log, whatever else is in it.\<close>

lemma raw_lines_cut: "\<exists>l ls. raw_lines (pre @ 10 # rest) = l # ls @ raw_lines rest"
proof (induction pre)
  case (Cons b pre)
  then obtain l ls where "raw_lines (pre @ 10 # rest) = l # ls @ raw_lines rest" by blast
  then show ?case by (cases "b = 10") (auto intro: exI [of _ "[]"] exI [of _ "l # ls"])
qed auto

lemma read_lines_long: "l \<in> set ls \<Longrightarrow> length l \<ge> maxScanToken \<Longrightarrow> \<exists>e. read_lines J ls = Inl e"
  by (induction ls) (auto split: option.splits sum.splits)

end
