(* ===== verification/SecretRefs.thy ===== *)
theory SecretRefs
  imports SecretProps
begin

text \<open>
  References to secrets (pkg/secret): the registry of schemes, the built-in providers, the check of a reference and the dotenv parser. The
  environment, the files, the helper process and the HTTP exchange with Vault are arguments.
\<close>

section \<open>dotenv files\<close>

datatype dotenv_error = NotAssignment nat | DotenvEmptyKey nat | DotenvTooLong

definition unquote :: "string \<Rightarrow> string" where
  "unquote s =
     (if length s \<ge> 2 \<and> (hd s = CHR 0x22 \<and> last s = CHR 0x22 \<or> hd s = CHR 0x27 \<and> last s = CHR 0x27) then butlast (tl s) else s)"

fun dotenv_lines :: "nat \<Rightarrow> (string, string) gomap \<Rightarrow> bytes list \<Rightarrow> dotenv_error + (string, string) gomap" where
  "dotenv_lines line out [] = Inr out"
| "dotenv_lines line out (l # ls) =
     (if length l \<ge> maxScanToken then Inl DotenvTooLong
      else (let text1 = TrimSpace (go_string (drop_cr l)) in
        if text1 = [] \<or> HasPrefix text1 ''#'' then dotenv_lines (Suc line) out ls
        else (case Cut (TrimPrefix text1 ''export '') (CHR ''='') of (key, v, ok) \<Rightarrow>
          if \<not> ok then Inl (NotAssignment (Suc line))
          else if TrimSpace key = [] then Inl (DotenvEmptyKey (Suc line))
          else dotenv_lines (Suc line) (AList.update (TrimSpace key) (unquote (TrimSpace v)) out) ls)))"

definition parseDotenv :: "bytes \<Rightarrow> dotenv_error + (string, string) gomap" where
  "parseDotenv data = dotenv_lines 0 [] (raw_lines data)"

definition LoadEnvFile :: "(string \<Rightarrow> bytes option) \<Rightarrow> string \<Rightarrow> string + (string, bytes) gomap" where
  "LoadEnvFile files path = (case files path of None \<Rightarrow> Inl ''read secrets env file'' | Some data \<Rightarrow>
     (case parseDotenv data of Inl e \<Rightarrow> Inl ''dotenv'' | Inr m \<Rightarrow> Inr (map (\<lambda>(k, v). (k, go_bytes v)) m)))"

section \<open>The registry\<close>

datatype ref_error = MissingScheme | UnknownScheme string | ProviderFailed string | EmptyValue

record secret_provider =
  pv_Resolve :: "string \<Rightarrow> string + bytes"
  pv_Plaintext :: bool

type_synonym registry = "(string, secret_provider) gomap"

definition plaintextWarning :: "string \<Rightarrow> string" where
  "plaintextWarning scheme = ''secret scheme '' @ [CHR 0x22] @ scheme @ [CHR 0x22] @ '' is plaintext: not encrypted at rest, not for production''"

text \<open>The scheme, and the error or the value with its warning.\<close>

definition registry_resolve :: "registry \<Rightarrow> string \<Rightarrow> string \<times> (ref_error + bytes \<times> string)" where
  "registry_resolve reg ref = (case Cut ref (CHR '':'') of (scheme, rest, ok) \<Rightarrow>
     if \<not> ok \<or> scheme = [] then ([], Inl MissingScheme)
     else (case map_of reg scheme of None \<Rightarrow> (scheme, Inl (UnknownScheme scheme)) | Some p \<Rightarrow>
       (case pv_Resolve p rest of Inl e \<Rightarrow> (scheme, Inl (ProviderFailed e)) | Inr v \<Rightarrow>
         if v = [] then (scheme, Inl EmptyValue)
         else (scheme, Inr (v, if pv_Plaintext p then plaintextWarning scheme else [])))))"

definition Registry_Resolve :: "registry \<Rightarrow> string \<Rightarrow> (ref_error + bytes) \<times> string list" where
  "Registry_Resolve reg ref = (case registry_resolve reg ref of
       (_, Inl e) \<Rightarrow> (Inl e, [])
     | (_, Inr (v, warning)) \<Rightarrow> (Inr v, if warning = [] then [] else [warning]))"

definition ValidRef :: "registry \<Rightarrow> string \<Rightarrow> bool" where
  "ValidRef reg ref = (case Cut (TrimSpace ref) (CHR '':'') of (scheme, rest, ok) \<Rightarrow>
     ok \<and> scheme \<noteq> [] \<and> rest \<noteq> [] \<and> map_of reg scheme \<noteq> None)"

record check_result =
  ck_Name :: string
  ck_OK :: bool
  ck_Source :: string
  ck_Bytes :: nat
  ck_Warning :: string
  ck_Error :: "ref_error option"

definition Registry_Check :: "registry \<Rightarrow> string \<Rightarrow> check_result" where
  "Registry_Check reg entry = (case Cut entry (CHR ''='') of (name, ref, ok) \<Rightarrow>
     if \<not> ok \<or> name = [] then \<lparr>ck_Name = name, ck_OK = False, ck_Source = [], ck_Bytes = 0, ck_Warning = [], ck_Error = Some MissingScheme\<rparr>
     else (case registry_resolve reg ref of
       (scheme, Inl e) \<Rightarrow> \<lparr>ck_Name = name, ck_OK = False, ck_Source = scheme, ck_Bytes = 0, ck_Warning = [], ck_Error = Some e\<rparr>
     | (scheme, Inr (v, warning)) \<Rightarrow> \<lparr>ck_Name = name, ck_OK = True, ck_Source = scheme, ck_Bytes = length v, ck_Warning = warning, ck_Error = None\<rparr>))"

section \<open>The providers\<close>

definition EnvProvider :: "(string \<Rightarrow> string) \<Rightarrow> secret_provider" where
  "EnvProvider getenv = \<lparr>pv_Resolve = (\<lambda>name. if name = [] then Inl ''env reference is missing a variable name'' else Inr (go_bytes (getenv name))), pv_Plaintext = True\<rparr>"

definition FileProvider :: "(string \<Rightarrow> bytes option) \<Rightarrow> secret_provider" where
  "FileProvider files = \<lparr>pv_Resolve = (\<lambda>path. if path = [] then Inl ''file reference is missing a path''
     else (case files path of None \<Rightarrow> Inl ''read secret file'' | Some data \<Rightarrow> Inr data)), pv_Plaintext = True\<rparr>"

definition DotenvProvider :: "(string \<Rightarrow> bytes option) \<Rightarrow> secret_provider" where
  "DotenvProvider files = \<lparr>pv_Resolve = (\<lambda>rest. case Cut rest (CHR ''#'') of (path, key, ok) \<Rightarrow>
     if \<not> ok \<or> path = [] \<or> key = [] then Inl ''dotenv reference must be PATH#KEY''
     else (case files path of None \<Rightarrow> Inl ''read dotenv file'' | Some data \<Rightarrow>
       (case parseDotenv data of Inl e \<Rightarrow> Inl ''dotenv'' | Inr m \<Rightarrow>
         (case map_of m key of None \<Rightarrow> Inl ''key not found in dotenv file'' | Some v \<Rightarrow> Inr (go_bytes v))))), pv_Plaintext = True\<rparr>"

text \<open>The helper runs with the rest of the reference as its only argument; its outcome is the error or its standard output.\<close>

definition HelperProvider :: "string \<Rightarrow> (string \<Rightarrow> string \<Rightarrow> string + bytes) \<Rightarrow> secret_provider" where
  "HelperProvider command run = \<lparr>pv_Resolve = (\<lambda>rest.
     if TrimSpace rest = [] then Inl ''helper reference is empty''
     else if command = [] then Inl ''helper: MICROAGENT_SECRET_HELPER is not set on this host''
     else (case run command rest of Inl e \<Rightarrow> Inl e | Inr out \<Rightarrow>
       (let v = (if out \<noteq> [] \<and> last out = 10 then butlast out else out) in
        if v = [] then Inl ''helper returned an empty secret'' else Inr v))), pv_Plaintext = False\<rparr>"

text \<open>One GET with the token in a header; the answer is a status and the first mebibyte of the body, and \<open>field_of\<close> the string that
  the decoded document holds under \<open>data.data.field\<close>.\<close>

definition VaultProvider :: "string \<Rightarrow> string \<Rightarrow> (string \<Rightarrow> string \<Rightarrow> string + int \<times> bytes) \<Rightarrow> (bytes \<Rightarrow> string \<Rightarrow> string + string) \<Rightarrow> secret_provider" where
  "VaultProvider addr token exchange field_of = \<lparr>pv_Resolve = (\<lambda>rest. case Cut rest (CHR ''#'') of (path, field, ok) \<Rightarrow>
     if \<not> ok \<or> path = [] \<or> field = [] then Inl ''vault reference must be <mount>/data/<path>#<field>''
     else if addr = [] then Inl ''vault: VAULT_ADDR is not set''
     else if token = [] then Inl ''vault: VAULT_TOKEN is not set''
     else (case exchange (TrimRight addr ''/'' @ ''/v1/'' @ trim_left (\<lambda>c. c = CHR ''/'') path) token of Inl e \<Rightarrow> Inl e | Inr (status, body) \<Rightarrow>
       if status = 403 \<or> status = 401 then Inl ''vault: permission denied''
       else if status = 404 then Inl ''vault: secret not found''
       else if status = 503 then Inl ''vault: server unavailable or sealed''
       else if status \<noteq> 200 then Inl ''vault: unexpected status''
       else (case field_of body field of Inl e \<Rightarrow> Inl e | Inr s \<Rightarrow> Inr (go_bytes s)))), pv_Plaintext = False\<rparr>"

record secret_host =
  sh_getenv :: "string \<Rightarrow> string"
  sh_files :: "string \<Rightarrow> bytes option"
  sh_run :: "string \<Rightarrow> string \<Rightarrow> string + bytes"
  sh_vault :: "string \<Rightarrow> string \<Rightarrow> string + int \<times> bytes"
  sh_field :: "bytes \<Rightarrow> string \<Rightarrow> string + string"

definition DefaultRegistry :: "secret_host \<Rightarrow> registry" where
  "DefaultRegistry h = [(''env'', EnvProvider (sh_getenv h)), (''file'', FileProvider (sh_files h)), (''dotenv'', DotenvProvider (sh_files h)),
     (''vault'', VaultProvider (sh_getenv h ''VAULT_ADDR'') (sh_getenv h ''VAULT_TOKEN'') (sh_vault h) (sh_field h)),
     (''helper'', HelperProvider (sh_getenv h ''MICROAGENT_SECRET_HELPER'') (sh_run h))]"

section \<open>What a resolution guarantees\<close>

lemma Resolve_Inr:
  assumes "Registry_Resolve reg ref = (Inr v, warnings)"
  shows "\<exists>scheme rest p. Cut ref (CHR '':'') = (scheme, rest, True) \<and> map_of reg scheme = Some p \<and> pv_Resolve p rest = Inr v \<and> v \<noteq> [] \<and>
    warnings = (if pv_Plaintext p then [plaintextWarning scheme] else [])"
  using assms by (auto simp: Registry_Resolve_def registry_resolve_def plaintextWarning_def split: prod.splits sum.splits option.splits if_splits)

text \<open>A registry whose values are replaced by others of the same length.\<close>

definition blind :: "(bytes \<Rightarrow> bytes) \<Rightarrow> registry \<Rightarrow> registry" where
  "blind h reg = map (\<lambda>(s, p). (s, p\<lparr>pv_Resolve := (\<lambda>rest. map_sum id h (pv_Resolve p rest))\<rparr>)) reg"

lemma map_of_blind: "map_of (blind h reg) s = map_option (\<lambda>p. p\<lparr>pv_Resolve := (\<lambda>rest. map_sum id h (pv_Resolve p rest))\<rparr>) (map_of reg s)"
  by (induction reg) (auto simp: blind_def id_def)

lemma resolve_blind:
  assumes "\<And>v. length (h v) = length v"
  shows "registry_resolve (blind h reg) ref = map_prod id (map_sum id (map_prod h id)) (registry_resolve reg ref)"
proof -
  have "(h v = []) = (v = [])" for v using assms [of v] by (metis length_0_conv)
  then show ?thesis by (auto simp: registry_resolve_def map_of_blind split: prod.splits option.splits sum.splits)
qed

section \<open>Quoted values\<close>

definition dotenv_line :: "string \<times> string \<Rightarrow> bytes" where
  "dotenv_line p = go_bytes (fst p @ ''='' @ [CHR 0x27] @ snd p @ [CHR 0x27])"

definition clean_key :: "string \<Rightarrow> bool" where
  "clean_key k \<longleftrightarrow> k \<noteq> [] \<and> hd k \<noteq> CHR ''#'' \<and> CHR ''='' \<notin> set k \<and> (\<forall>c \<in> set k. \<not> is_space c)"

definition dotenv_ok :: "string \<times> string \<Rightarrow> bool" where
  "dotenv_ok p \<longleftrightarrow> clean_key (fst p) \<and> CHR 0x0A \<notin> set (snd p) \<and> length (fst p) + length (snd p) + 3 < maxScanToken"

lemma TrimSpace_ends:
  assumes "s \<noteq> []" "\<not> is_space (hd s)" "\<not> is_space (last s)"
  shows "TrimSpace s = s"
proof -
  have "trim_left is_space s = s" using assms(1,2) by (cases s) (auto simp: trim_left_def)
  moreover have "trim_right is_space s = s" using assms(1,3) by (cases s rule: rev_cases) (auto simp: trim_right_def)
  ultimately show ?thesis by (simp add: TrimSpace_def)
qed

lemma go_bytes_newline: "(10 \<in> set (go_bytes s)) = (CHR 0x0A \<in> set s)"
proof -
  have "((of_char c :: byte) = 10) = (c = CHR 0x0A)" for c
  proof
    assume "(of_char c :: byte) = 10"
    then have "unat (of_char c :: byte) = 10" by simp
    then have "(of_char c :: nat) = of_char (CHR 0x0A)" by simp
    then show "c = CHR 0x0A" by (simp only: of_char_eq_iff)
  qed simp
  then show ?thesis by (auto simp: go_bytes_def image_iff)
qed

lemma dotenv_line_parsed:
  assumes "dotenv_ok p"
  shows "dotenv_lines n out (dotenv_line p # ls) = dotenv_lines (Suc n) (AList.update (fst p) (snd p) out) ls"
proof -
  obtain k v where p: "p = (k, v)" by (cases p)
  let ?s = "k @ ''='' @ [CHR 0x27] @ v @ [CHR 0x27]"
  have k: "k \<noteq> []" "hd k \<noteq> CHR ''#''" "CHR ''='' \<notin> set k" "\<forall>c \<in> set k. \<not> is_space c"
    using assms by (auto simp: dotenv_ok_def clean_key_def p)
  have q: "\<not> is_space (CHR 0x27)" by (simp add: is_space_def)
  have t: "TrimSpace ?s = ?s" using k q by (intro TrimSpace_ends) auto
  have tv: "TrimSpace ([CHR 0x27] @ v @ [CHR 0x27]) = [CHR 0x27] @ v @ [CHR 0x27]" using q by (intro TrimSpace_ends) auto
  have tk: "TrimSpace k = k" using k by (intro TrimSpace_ends) auto
  have "last (go_bytes ?s) = 39" by (simp add: go_bytes_def)
  then have cr: "drop_cr (dotenv_line p) = dotenv_line p" by (simp add: drop_cr_def dotenv_line_def p)
  have l: "length (dotenv_line p) < maxScanToken" using assms by (simp add: dotenv_ok_def dotenv_line_def p)
  have e: "TrimPrefix ?s ''export '' = ?s"
  proof -
    have "\<not> prefix ''export '' ?s"
    proof
      assume "prefix ''export '' ?s"
      then obtain z where z: "?s = ''export '' @ z" by (auto simp: prefix_def)
      have "takeWhile (\<lambda>x. x \<noteq> CHR ''='') ?s = k" using k(3) by (auto simp: takeWhile_append)
      then have "k = ''export '' @ takeWhile (\<lambda>x. x \<noteq> CHR ''='') z" unfolding z by simp
      then have "CHR '' '' \<in> set k" by simp
      then show False using k(4) by (auto simp: is_space_def)
    qed
    then show ?thesis by (simp add: TrimPrefix_def HasPrefix_def)
  qed
  have c: "Cut ?s (CHR ''='') = (k, [CHR 0x27] @ v @ [CHR 0x27], True)"
    using k(3) by (auto simp: Cut_def takeWhile_append dropWhile_append)
  have u: "unquote ([CHR 0x27] @ v @ [CHR 0x27]) = v" by (simp add: unquote_def)
  have h: "\<not> HasPrefix ?s ''#''" using k(1,2) by (cases k) (auto simp: HasPrefix_def)
  show ?thesis using l k(1) t tv tk e c u h cr by (simp add: dotenv_line_def p)
qed

lemma dotenv_all: "list_all dotenv_ok ps \<Longrightarrow>
    dotenv_lines n out (map dotenv_line ps) = Inr (fold (\<lambda>p m. AList.update (fst p) (snd p) m) ps out)"
  by (induction ps arbitrary: n out) (simp_all add: dotenv_line_parsed del: dotenv_lines.simps(2))

lemma dotenv_raw: "list_all dotenv_ok ps \<Longrightarrow> raw_lines (concat (map (\<lambda>p. dotenv_line p @ [10]) ps)) = map dotenv_line ps"
proof (induction ps)
  case (Cons p ps)
  have "10 \<notin> set (dotenv_line p)"
    using Cons.prems by (auto simp: dotenv_line_def dotenv_ok_def clean_key_def go_bytes_newline is_space_def)
  then show ?case using Cons raw_lines_line [of "dotenv_line p" "concat (map (\<lambda>p. dotenv_line p @ [10]) ps)"] by simp
qed simp

end
