(* ===== verification/SecretClaims.thy ===== *)
theory SecretClaims
  imports SecretRefs
begin

text \<open>The properties of the transfer of secrets, with a concrete exchange.\<close>

section \<open>A concrete exchange\<close>

definition api_bundle :: xfer_bundle where
  "api_bundle = \<lparr>bd_ProtocolVersion = ''secrets.v1'', bd_Secrets = [\<lparr>en_Name = ''API_KEY'', en_Value = [115, 51]\<rparr>, \<lparr>en_Name = ''DB'', en_Value = [120]\<rparr>]\<rparr>"

definition api_config :: secret_config where
  "api_config = \<lparr>sc_Secrets = [(''API_KEY'', ''env:K'')], sc_SecretEnvFiles = [''/e''], sc_OnDemandSecrets = [(''LATE'', ''env:L'')]\<rparr>"

definition env_resolve :: "string \<Rightarrow> string + bytes" where
  "env_resolve ref = (if ref = ''env:K'' then Inr [115, 51] else if ref = ''env:L'' then Inr [9] else Inl ''unknown'')"

definition late_request :: xfer_request where
  "late_request = \<lparr>rq_ProtocolVersion = ''secrets.v1'', rq_Name = ''LATE''\<rparr>"

text \<open>A codec that knows the messages of the exchange by their first byte.\<close>

definition small_json :: xfer_json where
  "small_json = \<lparr>
     xj_request = \<lparr>Marshal = (\<lambda>m. if m = late_request then Some [1] else Some [0]),
       Unmarshal = (\<lambda>d. if d = [1] then Some late_request else if d = [0] then Some \<lparr>rq_ProtocolVersion = ''secrets.v1'', rq_Name = []\<rparr> else None)\<rparr>,
     xj_get = \<lparr>Marshal = (\<lambda>m. Some (gp_Value m)), Unmarshal = (\<lambda>d. Some \<lparr>gp_ProtocolVersion = ''secrets.v1'', gp_Name = [], gp_Value = d, gp_Error = []\<rparr>)\<rparr>,
     xj_bundle = \<lparr>Marshal = (\<lambda>m. Some [7]), Unmarshal = (\<lambda>d. if d = [7] then Some api_bundle else None)\<rparr>,
     xj_control = \<lparr>Marshal = (\<lambda>m. None), Unmarshal = (\<lambda>d. None)\<rparr>, xj_reply = \<lparr>Marshal = (\<lambda>m. None), Unmarshal = (\<lambda>d. None)\<rparr>,
     xj_access = \<lparr>Marshal = (\<lambda>r. Some (go_bytes (ac_Name r))),
       Unmarshal = (\<lambda>d. Some \<lparr>ac_At = [], ac_RuntimeID = [], ac_SessionID = [], ac_EventID = [], ac_OperationID = [], ac_Name = go_string d,
         ac_Access = [], ac_Result = []\<rparr>)\<rparr>\<rparr>"

definition api_env :: xfer_env where
  "api_env = \<lparr>xe_json = small_json, xe_resolve = env_resolve, xe_append = (\<lambda>_. AppendOK), xe_now = (\<lambda>_. []), xe_id = (\<lambda>_ p. p), xe_write = (\<lambda>_. None)\<rparr>"

definition api_server :: xfer_server where
  "api_server = \<lparr>sv_runtimeID = ''box'', sv_sessionID = ''s1'', sv_bundle = api_bundle, sv_onDemand = [(''LATE'', ''env:L'')], sv_audit = True\<rparr>"

definition quiet :: xfer_state where
  "quiet = \<lparr>xs_log = [], xs_count = 0, xs_events = []\<rparr>"

definition good_files :: file_env where
  "good_files = \<lparr>fe_dir_ok = True, fe_write = (\<lambda>_. FileOK), fe_chmod_ok = (\<lambda>_. True), fe_scrub = (\<lambda>_. ScrubOK), fe_remove_ok = (\<lambda>_. True)\<rparr>"

section \<open>Disclosure\<close>

text \<open>
  C27. No value leaves unrecorded. On an audited server, whatever bytes the guest sends and whatever fails, a value goes out only as the answer
  to a declared name, with the value its reference resolves to and after the record of that access is in the log; the bundle goes out
  only after the record of every secret in it; and the log only grows.
\<close>

theorem audited_disclosure:
  assumes "sv_audit s"
  shows "\<exists>new t. xs_events (server_handle E s input st) = xs_events st @ new \<and> xs_log (server_handle E s input st) = xs_log st @ t \<and>
    (\<forall>g out. SentGet g out \<in> set new \<and> gp_Value g \<noteq> [] \<longrightarrow> (\<exists>r ref. new = [Audited r True, SentGet g out] \<and>
       ac_Name r = gp_Name g \<and> ac_Access r = ''on-demand'' \<and> ac_Result r = ''ok'' \<and> t = access_line (xj_access (xe_json E)) r \<and>
       map_of (sv_onDemand s) (gp_Name g) = Some ref \<and> xe_resolve E ref = Inr (gp_Value g))) \<and>
    (\<forall>b out. SentBundle b out \<in> set new \<longrightarrow> bd_Secrets b = bd_Secrets (sv_bundle s) \<and>
       (\<exists>rs. new = map (\<lambda>r. Audited r True) rs @ [SentBundle b out] \<and> map ac_Name rs = map en_Name (bd_Secrets b) \<and>
         (\<forall>r \<in> set rs. ac_Access r = ''materialize'' \<and> ac_Result r = ''ok'') \<and> t = concat (map (access_line (xj_access (xe_json E))) rs)))"
  using assms
proof (cases rule: server_handle_cases [of s E input st])
  case silent
  then show ?thesis by (intro exI [of _ "[]"]) simp
next
  case (refused r ok g out)
  then show ?thesis by (elim exE, intro exI [of _ "[Audited r ok, SentGet g out]"]) simp
next
  case (unlogged rs r)
  then show ?thesis by (elim exE, intro exI [of _ "map (\<lambda>r. Audited r True) rs @ [Audited r False]"]) auto
next
  case (whole rs out)
  then show ?thesis
    by (intro exI [of _ "map (\<lambda>r. Audited r True) rs @ [SentBundle ((sv_bundle s)\<lparr>bd_ProtocolVersion := ProtocolVersion\<rparr>) out]"]
        exI [of _ "concat (map (access_line (xj_access (xe_json E))) rs)"]) auto
next
  case (disclosed r g out ref)
  then show ?thesis by (intro exI [of _ "[Audited r True, SentGet g out]"] exI [of _ "access_line (xj_access (xe_json E)) r"]) simp
qed

theorem audited_disclosure_witness:
  "let st = server_handle api_env api_server [0, 0, 0, 1, 1] quiet in
   (\<exists>r g out. xs_events st = [Audited r True, SentGet g out] \<and> gp_Value g = [9] \<and> ac_Name r = ''LATE'' \<and> xs_log st = go_bytes ''LATE'' @ [10])"
proof -
  let ?st = "server_handle api_env api_server [0, 0, 0, 1, 1] quiet"
  have d: "DecodeMessage (xj_request small_json) [0, 0, 0, 1, 1] = Inr (late_request, [])"
    by (simp add: DecodeMessage_def DecodeMessageWithMax_def ReadFull_def be_nat_def small_json_def MaxMessageBytes_def)
  have h: "\<exists>r g out. ?st = \<lparr>xs_log = go_bytes ''LATE'' @ [10], xs_count = 1, xs_events = [Audited r True, SentGet g out]\<rparr> \<and> gp_Value g = [9] \<and> gp_Name g = ''LATE''"
    using d by (simp add: server_handle_def api_env_def api_server_def late_request_def ProtocolVersion_def env_resolve_def server_record_def
        AppendAccessRecord_def small_json_def send_get_def quiet_def access_of_def)
  then have l: "xs_log ?st = go_bytes ''LATE'' @ [10]" by auto
  obtain r0 g out where e: "xs_events ?st = [Audited r0 True, SentGet g out]" "gp_Value g = [9]" "gp_Name g = ''LATE''" using h by force
  have "sv_audit api_server" by (simp add: api_server_def)
  moreover have "xs_events quiet = []" by (simp add: quiet_def)
  ultimately obtain new where n: "xs_events ?st = new"
    "\<forall>g out. SentGet g out \<in> set new \<and> gp_Value g \<noteq> [] \<longrightarrow> (\<exists>r. new = [Audited r True, SentGet g out] \<and> ac_Name r = gp_Name g)"
    using audited_disclosure [of api_server api_env "[0, 0, 0, 1, 1]" quiet] by (metis append_Nil)
  obtain r where "new = [Audited r True, SentGet g out]" "ac_Name r = ''LATE''" using n(2) e n(1) by force
  then show ?thesis using n(1) e l unfolding Let_def by auto
qed

section \<open>Delivery\<close>

text \<open>
  C28. What the host resolved is what the guest finds. When every declared reference and environment file resolves and the bundle can be
  framed, the request of the guest is answered with the bundle, the guest decodes that bundle, and the files it writes are
  exactly the resolved names and values, readable by their owner only, under names that are single path components.
  \<open>deliverable\<close>: JSON reads back what it wrote and the frame is within the limit.
\<close>

theorem secrets_delivered:
  assumes "ResolveBundle resolve load (Some c) = Inr b" "xe_json E = J" "xe_write E = sound_writer" "sv_bundle s = b"
    "deliverable (xj_request J) MaxMessageBytes bundle_request" "deliverable (xj_bundle J) MaxMessageBytes b"
    "\<not> sv_audit s \<or> (\<forall>n. xe_append E n = AppendOK) \<and> (\<forall>r. Marshal (xj_access J) r \<noteq> None)"
    "fe_dir_ok F" "\<forall>n. fe_write F n = FileOK \<and> fe_chmod_ok F n"
  shows "\<exists>out dir. last (xs_events (server_handle E s (snd (FetchBundle J sound_writer [])) st)) = SentBundle b out \<and>
    fst (FetchBundle J sound_writer out) = Inr b \<and> WriteSecrets F b [] = (None, dir) \<and>
    (\<forall>n. map_of dir n = map_option (\<lambda>v. RegularFile v 256)
      (map_of (map (\<lambda>(n, ref). (n, projr (resolve ref))) (sc_Secrets c) @ concat (map (\<lambda>p. projr (load p)) (sc_SecretEnvFiles c))) n)) \<and>
    (\<forall>n \<in> dom (map_of dir). n \<noteq> [] \<and> CHR ''/'' \<notin> set n \<and> CHR ''.'' \<notin> set n)"
proof -
  note B = ResolveBundle_Inr [OF assms(1)]
  have v: "b\<lparr>bd_ProtocolVersion := ProtocolVersion\<rparr> = b" using B(2) by simp
  have rec: "fst (server_record E s n a r st')" for n a r st'
  proof (cases "sv_audit s")
    case True
    then have "Marshal (xj_access (xe_json E)) x \<noteq> None" "xe_append E n = AppendOK" for x n using assms(2,7) by blast+
    then obtain data where "Marshal (xj_access (xe_json E)) (access_of E s (xs_count st') n a r) = Some data" "xe_append E (xs_count st') = AppendOK"
      by blast
    then show ?thesis using True by (simp add: server_record_def Let_def AppendAccessRecord_def)
  qed (simp add: server_record_def)
  have all: "fst (record_all E s es st')" for es st'
  proof (induction es arbitrary: st')
    case (Cons e es)
    then show ?case using rec [of "en_Name e" "''materialize''" "''ok''" st']
      by (cases "server_record E s (en_Name e) ''materialize'' ''ok'' st'") simp
  qed simp
  have req: "DecodeMessage (xj_request J) (snd (FetchBundle J sound_writer [])) = Inr (bundle_request, [])"
    using messages.dec_alone [OF assms(5)] by (auto simp: DecodeMessage_def FetchBundle_def split: prod.splits)
  define out where "out = snd (EncodeMessage (xj_bundle J) sound_writer b)"
  have sent: "last (xs_events (server_handle E s (snd (FetchBundle J sound_writer [])) st)) = SentBundle b out"
    using all [of "bd_Secrets b" st] req assms(2-4) v
    by (cases "record_all E s (bd_Secrets b) st") (simp add: server_handle_def bundle_request_def out_def)
  have got: "fst (FetchBundle J sound_writer out) = Inr b"
    using messages.dec_alone [OF assms(6)] encode_frame [OF assms(5)] B(2) by (simp add: FetchBundle_def DecodeMessage_def out_def)
  obtain dir where dir: "WriteSecrets F b [] = (None, dir)" "map_of dir = (\<lambda>n. map_option (\<lambda>v. RegularFile v 256) (map_of (pairs b) n))"
    using write_bundle [OF B(1) assms(8)] assms(9) by blast
  have "n \<noteq> [] \<and> CHR ''/'' \<notin> set n \<and> CHR ''.'' \<notin> set n" if "n \<in> dom (map_of dir)" for n
  proof -
    have "n \<in> en_Name ` set (bd_Secrets b)" using that dir(2) by (auto dest!: map_of_SomeD)
    then have "ValidName n" using B(1) by (auto simp: sound_bundle_def)
    then show ?thesis using ValidName_component by blast
  qed
  then show ?thesis using sent got dir B(3) by (intro exI [of _ out] exI [of _ dir]) auto
qed

theorem secrets_delivered_witness:
  "\<exists>out dir. last (xs_events (server_handle api_env api_server (snd (FetchBundle small_json sound_writer [])) quiet)) = SentBundle api_bundle out \<and>
    fst (FetchBundle small_json sound_writer out) = Inr api_bundle \<and> WriteSecrets good_files api_bundle [] = (None, dir) \<and>
    map_of dir ''API_KEY'' = Some (RegularFile [115, 51] 256)"
proof -
  have r: "ResolveBundle env_resolve (\<lambda>p. Inr [(''DB'', [120])]) (Some api_config) = Inr api_bundle" by code_simp
  have d: "deliverable (xj_request small_json) MaxMessageBytes bundle_request" "deliverable (xj_bundle small_json) MaxMessageBytes api_bundle"
    by (simp_all add: deliverable_def small_json_def bundle_request_def late_request_def ProtocolVersion_def MaxMessageBytes_def)
  have f: "xe_json api_env = small_json" "xe_write api_env = sound_writer" "sv_bundle api_server = api_bundle"
    "\<not> sv_audit api_server \<or> (\<forall>n. xe_append api_env n = AppendOK) \<and> (\<forall>r. Marshal (xj_access small_json) r \<noteq> None)"
    "fe_dir_ok good_files" "\<forall>n. fe_write good_files n = FileOK \<and> fe_chmod_ok good_files n"
    by (simp_all add: api_env_def api_server_def small_json_def good_files_def)
  show ?thesis
    using secrets_delivered [OF r f(1,2,3) d f(4,5,6), of quiet] by (auto simp: api_config_def env_resolve_def)
qed

text \<open>
  C29. A purge scrubs before it removes. Whatever fails in a purge, every file it unlinked held zeros only, as many as it had bytes;
  and a purge that reports no error leaves no file behind and has unlinked every one of them.
\<close>

theorem secrets_scrubbed:
  assumes "PurgeSecrets F (Some dir) = (e, dir', steps)"
  shows "(\<forall>name d. Unlinked name d \<in> set steps \<longrightarrow> (\<exists>n. (name, n) \<in> set dir \<and> d = replicate (length (content_of n)) 0)) \<and>
    (e = None \<longrightarrow> (\<forall>(name, n) \<in> set dir'. n = SubDirectory) \<and>
      (\<forall>name data m. (name, RegularFile data m) \<in> set dir \<longrightarrow> (\<exists>d. Unlinked name d \<in> set steps)))"
proof (cases "fe_dir_ok F")
  case True
  then have p: "purge_entries F dir dir = (e, dir', steps)" using assms by (simp add: PurgeSecrets_def)
  show ?thesis using purge_zeroed [OF p] purge_complete [of F dir dir dir' steps] p by (fastforce simp: image_iff)
qed (use assms in \<open>auto simp: PurgeSecrets_def\<close>)

theorem secrets_scrubbed_witness:
  "let dir = [(''API_KEY'', RegularFile [115, 51] 256), (''sub'', SubDirectory)] in
   PurgeSecrets good_files (Some dir) = (None, [(''sub'', SubDirectory)], [Zeroed ''API_KEY'' [0, 0], Unlinked ''API_KEY'' [0, 0]]) \<and>
   (\<exists>d. Unlinked ''API_KEY'' d \<in> set [Zeroed ''API_KEY'' [0, 0], Unlinked ''API_KEY'' [0, 0]])"
proof -
  have "PurgeSecrets good_files (Some [(''API_KEY'', RegularFile [115, 51] 256), (''sub'', SubDirectory)]) =
    (None, [(''sub'', SubDirectory)], [Zeroed ''API_KEY'' [0, 0], Unlinked ''API_KEY'' [0, 0]])"
    by (simp add: PurgeSecrets_def good_files_def zeroFile_def)
  with secrets_scrubbed [OF this] show ?thesis by simp
qed

text \<open>
  The access log reads back what was appended, as long as every line fits the buffer of the reader.
  \<open>readable\<close>: JSON writes a record on one line, reads it back, and the line has less than 1048576 bytes.
\<close>

theorem access_log_roundtrip:
  assumes "\<forall>r \<in> set rs. readable J r"
  shows "\<exists>log. fold (\<lambda>r log. snd (AppendAccessRecord J AppendOK log r)) rs [] = log \<and> ReadAccessRecords J (Some log) = Inr rs"
proof -
  have "fold (\<lambda>r log. snd (AppendAccessRecord J AppendOK log r)) rs log = log @ concat (map (access_line J) rs)" for log
    using assms by (induction rs arbitrary: log) (auto simp: AppendAccessRecord_def readable_def split: option.splits)
  then show ?thesis using read_appended [OF assms] by (simp add: ReadAccessRecords_def)
qed

text \<open>A guest that asks for an undeclared name hides the log: the record of the refusal carries the name, a request may be
  eight times as long as a line that can be read, and the reader gives up on the whole file.\<close>

lemma oversized_name_hides_log:
  assumes "sv_audit s" "DecodeMessage (xj_request (xe_json E)) input = Inr (\<lparr>rq_ProtocolVersion = ProtocolVersion, rq_Name = name\<rparr>, rest)"
    "name \<noteq> []" "map_of (sv_onDemand s) name = None" "xe_append E (xs_count st) = AppendOK" "xs_log st = [] \<or> (\<exists>pre. xs_log st = pre @ [10])"
    "Marshal (xj_access (xe_json E)) (access_of E s (xs_count st) name ''on-demand'' ''denied'') = Some data" "10 \<notin> set data" "length data \<ge> maxScanToken"
  shows "\<exists>e. ReadAccessRecords (xj_access (xe_json E)) (Some (xs_log (server_handle E s input st))) = Inl e"
proof -
  have log: "xs_log (server_handle E s input st) = xs_log st @ data @ [10]"
    using assms by (simp add: server_handle_def refuse_def send_get_def server_record_def AppendAccessRecord_def)
  have "data \<in> set (raw_lines (xs_log st @ data @ [10]))"
    using assms(6)
  proof (elim disjE exE)
    fix pre
    assume "xs_log st = pre @ [10]"
    moreover obtain l ls where "raw_lines (pre @ 10 # data @ [10]) = l # ls @ raw_lines (data @ [10])" using raw_lines_cut by blast
    ultimately show ?thesis using raw_lines_line [OF assms(8), of "[]"] by simp
  qed (use raw_lines_line [OF assms(8), of "[]"] in simp)
  then show ?thesis using read_lines_long [OF _ assms(9)] by (simp add: ReadAccessRecords_def log)
qed

section \<open>References\<close>

text \<open>
  References fail closed and a check reveals no value. A reference of the default registry resolves only through one of its five
  schemes, never to an empty value, and a plaintext scheme leaves its warning; and the result of a check is the same for any other
  values of the same lengths.
\<close>

theorem secret_refs_guarded:
  "(\<forall>v warnings. Registry_Resolve (DefaultRegistry h) ref = (Inr v, warnings) \<longrightarrow> v \<noteq> [] \<and>
      (\<exists>scheme rest. Cut ref (CHR '':'') = (scheme, rest, True) \<and> scheme \<in> {''env'', ''file'', ''dotenv'', ''vault'', ''helper''} \<and>
        warnings = (if scheme \<in> {''env'', ''file'', ''dotenv''} then [plaintextWarning scheme] else []))) \<and>
   ((\<forall>v. length (f v) = length v) \<longrightarrow> Registry_Check (blind f reg) entry = Registry_Check reg entry)"
proof (intro conjI allI impI)
  fix v warnings
  assume r: "Registry_Resolve (DefaultRegistry h) ref = (Inr v, warnings)"
  obtain scheme rest p where p: "Cut ref (CHR '':'') = (scheme, rest, True)" "map_of (DefaultRegistry h) scheme = Some p" "v \<noteq> []"
    "warnings = (if pv_Plaintext p then [plaintextWarning scheme] else [])" using Resolve_Inr [OF r] by blast
  have "scheme \<in> {''env'', ''file'', ''dotenv'', ''vault'', ''helper''} \<and> pv_Plaintext p = (scheme \<in> {''env'', ''file'', ''dotenv''})"
    using p(2) by (auto simp: DefaultRegistry_def EnvProvider_def FileProvider_def DotenvProvider_def VaultProvider_def HelperProvider_def split: if_splits)
  then show "v \<noteq> []" "\<exists>scheme rest. Cut ref (CHR '':'') = (scheme, rest, True) \<and> scheme \<in> {''env'', ''file'', ''dotenv'', ''vault'', ''helper''} \<and>
        warnings = (if scheme \<in> {''env'', ''file'', ''dotenv''} then [plaintextWarning scheme] else [])" using p by auto
next
  assume "\<forall>v. length (f v) = length v"
  then show "Registry_Check (blind f reg) entry = Registry_Check reg entry"
    by (auto simp: Registry_Check_def resolve_blind split: prod.splits sum.splits)
qed

definition plain_host :: secret_host where
  "plain_host = \<lparr>sh_getenv = (\<lambda>n. if n = ''K'' then ''v'' else []), sh_files = (\<lambda>_. None), sh_run = (\<lambda>_ _. Inl []), sh_vault = (\<lambda>_ _. Inl []),
     sh_field = (\<lambda>_ _. Inl [])\<rparr>"

text \<open>
  A dotenv file of quoted assignments reads back. Whatever the values hold, quotes, spaces, equal signs and comment signs, everything but
  a line feed, each key gets exactly its value, and of two assignments to one key the later one.
\<close>

theorem dotenv_roundtrip:
  assumes "list_all dotenv_ok ps"
  shows "\<exists>m. parseDotenv (concat (map (\<lambda>p. dotenv_line p @ [10]) ps)) = Inr m \<and> map_of m = map_of (rev ps)"
proof -
  have "map_of (fold (\<lambda>p m. AList.update (fst p) (snd p) m) qs m) = map_of m ++ map_of (rev qs)" for qs and m :: "(string \<times> string) list"
    by (induction qs arbitrary: m) (auto simp: map_add_def fun_eq_iff split: option.splits)
  then show ?thesis using dotenv_all [OF assms] dotenv_raw [OF assms] by (simp add: parseDotenv_def)
qed

end
