(* ===== verification/Paths.thy ===== *)
theory Paths
  imports Go_Prelude
begin

text \<open>
  The package path: the lexical operations on slash-separated paths. \<open>Clean\<close> is given by its meaning on the components of the path; the
  lemmas describe the paths that are clean and relative, which are the names used inside a root directory.
\<close>

section \<open>Operations\<close>

text \<open>One component at a time, with the components kept so far, the last one first.\<close>

fun clean_step :: "bool \<Rightarrow> string list \<Rightarrow> string \<Rightarrow> string list" where
  "clean_step rooted st c =
     (if c = [] \<or> c = ''.'' then st
      else if c = ''..'' then
        (case st of [] \<Rightarrow> if rooted then [] else [''..''] | t # ts \<Rightarrow> if t = ''..'' then ''..'' # st else ts)
      else c # st)"

fun join_with :: "char \<Rightarrow> string list \<Rightarrow> string" where
  "join_with s [] = []"
| "join_with s [c] = c"
| "join_with s (c # d # cs) = c @ s # join_with s (d # cs)"

abbreviation slashed :: "string list \<Rightarrow> string" where
  "slashed \<equiv> join_with (CHR ''/'')"

definition IsAbs :: "string \<Rightarrow> bool" where
  "IsAbs p = HasPrefix p ''/''"

definition path_parts :: "string \<Rightarrow> string list" where
  "path_parts p = rev (foldl (clean_step (IsAbs p)) [] (Split p (CHR ''/'')))"

definition Clean :: "string \<Rightarrow> string" where
  "Clean p = (if IsAbs p then CHR ''/'' # slashed (path_parts p)
     else if path_parts p = [] then ''.'' else slashed (path_parts p))"

definition path_Join :: "string \<Rightarrow> string \<Rightarrow> string" where
  "path_Join a b = (case filter (\<lambda>s. s \<noteq> []) [a, b] of [] \<Rightarrow> [] | ss \<Rightarrow> Clean (slashed ss))"

text \<open>\<open>Base\<close> strips trailing slashes and takes the last component; \<open>Dir\<close> cleans what is before it.\<close>

definition path_Base :: "string \<Rightarrow> string" where
  "path_Base p = (if p = [] then ''.''
     else (let q = trim_right (\<lambda>c. c = CHR ''/'') p in
       if q = [] then ''/'' else rev (takeWhile (\<lambda>c. c \<noteq> CHR ''/'') (rev q))))"

definition path_Dir :: "string \<Rightarrow> string" where
  "path_Dir p = Clean (rev (dropWhile (\<lambda>c. c \<noteq> CHR ''/'') (rev p)))"

section \<open>Splitting and joining\<close>

lemma split_at_nonempty: "split_at c acc s \<noteq> []"
  by (induction c acc s rule: split_at.induct) auto

lemma split_at_acc: "split_at c acc s = (case split_at c [] s of [] \<Rightarrow> [] | d # ds \<Rightarrow> (rev acc @ d) # ds)"
proof (induction s arbitrary: acc)
  case (Cons x xs)
  show ?case using Cons [of "x # acc"] Cons [of "[x]"] by (auto split: list.splits)
qed simp

lemma Split_Cons: "Split (x # xs) c = (if x = c then [] # Split xs c else (case Split xs c of [] \<Rightarrow> [] | d # ds \<Rightarrow> (x # d) # ds))"
  using split_at_acc [of c "[x]" xs] by (auto simp: Split_def split: list.splits)

lemma Split_nonempty: "Split s c \<noteq> []"
  by (simp add: Split_def split_at_nonempty)

lemma Split_no: "c \<notin> set s \<Longrightarrow> Split s c = [s]"
proof (induction s)
  case (Cons x xs)
  then show ?case by (auto simp: Split_Cons)
qed (simp add: Split_def)

lemma Split_append: "c \<notin> set s \<Longrightarrow> Split (s @ c # r) c = s # Split r c"
  by (induction s) (auto simp: Split_Cons)

lemma Split_slashed: "cs \<noteq> [] \<Longrightarrow> \<forall>d \<in> set cs. CHR ''/'' \<notin> set d \<Longrightarrow> Split (slashed cs) (CHR ''/'') = cs"
  by (induction cs rule: induct_list012) (simp_all add: Split_no Split_append)

lemma Split_chars: "d \<in> set (Split s c) \<Longrightarrow> c \<notin> set d \<and> set d \<subseteq> set s"
proof (induction s arbitrary: d)
  case (Cons x xs)
  obtain e es where e: "Split xs c = e # es" using Split_nonempty [of xs c] by (cases "Split xs c") auto
  have "d = [] \<or> x \<noteq> c \<and> d = x # e \<or> d \<in> set (Split xs c)" using Cons.prems e by (auto simp: Split_Cons split: if_splits)
  moreover have "c \<notin> set e \<and> set e \<subseteq> set xs" using Cons.IH [of e] e by simp
  ultimately show ?case using Cons.IH [of d] by auto
qed (simp add: Split_def)

lemma set_slashed: "set (slashed cs) \<subseteq> \<Union> (set ` set cs) \<union> {CHR ''/''}"
  by (induction cs rule: induct_list012) auto

section \<open>Clean relative names\<close>

definition proper :: "string \<Rightarrow> bool" where
  "proper c \<longleftrightarrow> c \<noteq> [] \<and> c \<noteq> ''.'' \<and> c \<noteq> ''..'' \<and> CHR ''/'' \<notin> set c"

text \<open>The components kept are proper ones on top of those that lead upwards.\<close>

definition upward :: "string list \<Rightarrow> bool" where
  "upward st \<longleftrightarrow> (\<exists>n cs. st = cs @ replicate n ''..'' \<and> (\<forall>c \<in> set cs. proper c))"

lemma upward_step:
  assumes "upward st" "CHR ''/'' \<notin> set c"
  shows "upward (clean_step r st c)"
proof -
  obtain n cs where st: "st = cs @ replicate n ''..''" "\<forall>c \<in> set cs. proper c" using assms(1) by (auto simp: upward_def)
  consider (skip) "c = [] \<or> c = ''.''" | (up) "c = ''..''" | (keep) "proper c" using assms(2) by (auto simp: proper_def)
  then show ?thesis
  proof cases
    case up
    show ?thesis
    proof (cases cs)
      case Nil
      then have "clean_step r st c = replicate (if n = 0 \<and> r then 0 else Suc n) ''..''" using up st by (cases n) auto
      then show ?thesis unfolding upward_def by (intro exI [of _ "if n = 0 \<and> r then 0 else Suc n"] exI [of _ "[]"]) simp
    next
      case (Cons d ds)
      then have "clean_step r st c = ds @ replicate n ''..''" using up st by (auto simp: proper_def)
      then show ?thesis using st(2) Cons by (auto simp: upward_def)
    qed
  next
    case keep
    then have "clean_step r st c = (c # cs) @ replicate n ''..''" using st by (auto simp: proper_def)
    then show ?thesis using st(2) keep by (auto simp: upward_def intro!: exI [of _ n] exI [of _ "c # cs"])
  qed (use assms(1) in auto)
qed

lemma upward_fold: "upward st \<Longrightarrow> \<forall>c \<in> set cs. CHR ''/'' \<notin> set c \<Longrightarrow> upward (foldl (clean_step r) st cs)"
  by (induction cs arbitrary: st) (auto simp del: clean_step.simps simp: upward_step)

lemma path_parts_shape: "\<exists>n cs. path_parts p = replicate n ''..'' @ cs \<and> (\<forall>c \<in> set cs. proper c)"
proof -
  have "upward []" by (auto simp: upward_def)
  then have "upward (foldl (clean_step (IsAbs p)) [] (Split p (CHR ''/'')))"
    using Split_chars by (intro upward_fold) auto
  then obtain n cs where "foldl (clean_step (IsAbs p)) [] (Split p (CHR ''/'')) = cs @ replicate n ''..''" "\<forall>c \<in> set cs. proper c"
    by (auto simp: upward_def)
  then show ?thesis by (intro exI [of _ n] exI [of _ "rev cs"]) (simp add: path_parts_def)
qed

text \<open>A name inside the root: proper components, at least one.\<close>

definition inner_name :: "string \<Rightarrow> bool" where
  "inner_name s \<longleftrightarrow> (\<exists>cs. cs \<noteq> [] \<and> s = slashed cs \<and> (\<forall>c \<in> set cs. proper c))"

lemma proper_no_slash: "\<forall>c \<in> set cs. proper c \<Longrightarrow> \<forall>d \<in> set cs. CHR ''/'' \<notin> set d"
  by (simp add: proper_def)

lemma slashed_hd: "cs \<noteq> [] \<Longrightarrow> \<exists>t. slashed cs = hd cs @ t \<and> (t = [] \<or> hd t = CHR ''/'')"
  by (induction cs rule: induct_list012) auto

lemma slashed_abs: "cs \<noteq> [] \<Longrightarrow> \<forall>c \<in> set cs. proper c \<Longrightarrow> \<not> IsAbs (slashed cs)"
proof -
  assume a: "cs \<noteq> []" "\<forall>c \<in> set cs. proper c"
  obtain t where t: "slashed cs = hd cs @ t" using slashed_hd [OF a(1)] by blast
  have "proper (hd cs)" using a by simp
  then obtain x xs where "hd cs = x # xs" "x \<noteq> CHR ''/''" by (cases "hd cs") (auto simp: proper_def)
  then show "\<not> IsAbs (slashed cs)" using t by (simp add: IsAbs_def HasPrefix_def)
qed

lemma foldl_proper: "\<forall>c \<in> set cs. proper c \<Longrightarrow> foldl (clean_step r) st cs = rev cs @ st"
  by (induction cs arbitrary: st) (auto simp: proper_def)

lemma Clean_inner:
  assumes "cs \<noteq> []" "\<forall>c \<in> set cs. proper c"
  shows "Clean (slashed cs) = slashed cs" "path_parts (slashed cs) = cs"
proof -
  show p: "path_parts (slashed cs) = cs"
    using slashed_abs [OF assms] Split_slashed [OF assms(1) proper_no_slash [OF assms(2)]] foldl_proper [OF assms(2)] by (simp add: path_parts_def)
  show "Clean (slashed cs) = slashed cs" using slashed_abs [OF assms] p assms(1) by (simp add: Clean_def)
qed

text \<open>A relative path that does not clean to the root or to something above it.\<close>

lemma Clean_relative:
  assumes "\<not> IsAbs p" "Clean p \<noteq> ''.''" "Clean p \<noteq> ''..''" "\<not> HasPrefix (Clean p) ''../''"
  shows "inner_name (Clean p)"
proof -
  obtain n cs where s: "path_parts p = replicate n ''..'' @ cs" "\<forall>c \<in> set cs. proper c" using path_parts_shape by blast
  have ne: "path_parts p \<noteq> []" using assms(1,2) by (auto simp: Clean_def)
  then have c: "Clean p = slashed (replicate n ''..'' @ cs)" using assms(1) s(1) by (simp add: Clean_def)
  have "n = 0"
  proof (rule ccontr)
    assume "n \<noteq> 0"
    then obtain m where n: "n = Suc m" by (cases n) auto
    show False
    proof (cases "replicate m ''..'' @ cs")
      case Nil
      then show False using c n assms(3) by simp
    next
      case (Cons d ds)
      then show False using c n assms(4) by (simp add: HasPrefix_def)
    qed
  qed
  then show ?thesis using c s ne by (auto simp: inner_name_def)
qed

lemma inner_chars: "inner_name s \<Longrightarrow> s \<noteq> [] \<and> s \<noteq> ''.'' \<and> s \<noteq> ''..'' \<and> \<not> IsAbs s \<and> \<not> HasPrefix s ''../''"
proof -
  assume "inner_name s"
  then obtain cs where cs: "cs \<noteq> []" "s = slashed cs" "\<forall>c \<in> set cs. proper c" by (auto simp: inner_name_def)
  obtain t where t: "s = hd cs @ t" "t = [] \<or> hd t = CHR ''/''" using slashed_hd [OF cs(1)] cs(2) by auto
  have h: "hd cs \<noteq> []" "hd cs \<noteq> ''.''" "hd cs \<noteq> ''..''" "CHR ''/'' \<notin> set (hd cs)" using cs(1,3) by (auto simp: proper_def)
  have "takeWhile (\<lambda>c. c \<noteq> CHR ''/'') s = hd cs" using t h(4) by (cases t) (auto simp: takeWhile_append)
  then have "s \<noteq> ''.''" "s \<noteq> ''..''" "\<not> HasPrefix s ''../''" using h by (auto simp: HasPrefix_def prefix_def)
  then show ?thesis using slashed_abs [OF cs(1,3)] cs(2) t h(1) by auto
qed

lemma set_clean_step: "set (clean_step r st c) \<subseteq> set st \<union> {c, ''..''}"
  by (cases st) auto

lemma Clean_NUL: "x \<notin> set p \<Longrightarrow> x \<noteq> CHR ''.'' \<Longrightarrow> x \<noteq> CHR ''/'' \<Longrightarrow> x \<notin> set (Clean p)"
proof -
  assume a: "x \<notin> set p" "x \<noteq> CHR ''.''" "x \<noteq> CHR ''/''"
  have F: "\<forall>d \<in> set (foldl (clean_step r) st cs). x \<notin> set d" if "\<forall>d \<in> set st. x \<notin> set d" "\<forall>d \<in> set cs. x \<notin> set d" for r st cs
    using that
  proof (induction cs arbitrary: st)
    case (Cons c cs)
    have "\<forall>d \<in> set (clean_step r st c). x \<notin> set d" 
    proof
      fix d
      assume "d \<in> set (clean_step r st c)"
      then consider "d \<in> set st" | "d = c" | "d = ''..''" using set_clean_step by blast
      then show "x \<notin> set d" using Cons.prems a by cases auto
    qed
    from Cons.IH [OF this] Cons.prems(2) show ?case by (simp del: clean_step.simps)
  qed simp
  have "\<forall>d \<in> set (Split p (CHR ''/'')). x \<notin> set d" using Split_chars a(1) by blast
  then have "\<forall>d \<in> set (path_parts p). x \<notin> set d" unfolding path_parts_def set_rev by (intro F) auto
  then show "x \<notin> set (Clean p)" using a set_slashed [of "path_parts p"] by (auto simp: Clean_def)
qed

text \<open>The last component of a name inside the root, and the directory that holds it.\<close>

lemma slashed_snoc: "cs \<noteq> [] \<Longrightarrow> slashed (cs @ [c]) = slashed cs @ CHR ''/'' # c"
  by (induction cs rule: induct_list012) auto

lemma inner_Base_Dir:
  assumes "cs \<noteq> []" "\<forall>c \<in> set cs. proper c"
  shows "path_Base (slashed cs) = last cs" "path_Dir (slashed cs) = (if butlast cs = [] then ''.'' else slashed (butlast cs))"
proof -
  obtain ds d where cs: "cs = ds @ [d]" using assms(1) by (cases cs rule: rev_cases) auto
  have d: "d \<noteq> []" "CHR ''/'' \<notin> set d" using assms(2) by (auto simp: cs proper_def)
  have l: "last d \<noteq> CHR ''/''" using d last_in_set by metis
  have e: "slashed cs = (if ds = [] then [] else slashed ds @ [CHR ''/'']) @ d" by (simp add: cs slashed_snoc)
  have q: "trim_right (\<lambda>c. c = CHR ''/'') (slashed cs) = slashed cs"
    unfolding e using d(1) l by (cases d rule: rev_cases) (auto simp: trim_right_def)
  have t: "takeWhile (\<lambda>c. c \<noteq> CHR ''/'') (rev (slashed cs)) = rev d"
    unfolding e using d(2) by (auto simp: takeWhile_append)
  show "path_Base (slashed cs) = last cs" using q t d(1) e by (simp add: path_Base_def cs Let_def)
  have w: "rev (dropWhile (\<lambda>c. c \<noteq> CHR ''/'') (rev (slashed cs))) = (if ds = [] then [] else slashed ds @ [CHR ''/''])"
    unfolding e using d(2) by (auto simp: dropWhile_append)
  show "path_Dir (slashed cs) = (if butlast cs = [] then ''.'' else slashed (butlast cs))"
  proof (cases "ds = []")
    case True
    then have "path_Dir (slashed cs) = Clean []" using w by (simp only: path_Dir_def if_True simp_thms)
    then show ?thesis using True by (simp add: cs Clean_def path_parts_def IsAbs_def HasPrefix_def Split_def)
  next
    case False
    have pr: "\<forall>c \<in> set ds. proper c" using assms(2) cs by simp
    have "slashed ds @ [CHR ''/''] = slashed (ds @ [[]])" using False by (simp add: slashed_snoc)
    moreover have "Split (slashed (ds @ [[]])) (CHR ''/'') = ds @ [[]]" using proper_no_slash [OF pr] by (intro Split_slashed) auto
    moreover have "slashed ds \<noteq> []"
    proof -
      obtain t where "slashed ds = hd ds @ t" using slashed_hd [OF False] by blast
      then show ?thesis using pr False by (auto simp: proper_def)
    qed
    then have "\<not> IsAbs (slashed ds @ [CHR ''/''])" using slashed_abs [OF False pr] by (cases "slashed ds") (auto simp: IsAbs_def HasPrefix_def)
    ultimately have "path_parts (slashed ds @ [CHR ''/'']) = ds" "\<not> IsAbs (slashed ds @ [CHR ''/''])"
      using foldl_proper [OF pr] by (simp_all add: path_parts_def)
    then show ?thesis using w False by (simp add: path_Dir_def cs Clean_def)
  qed
qed

end
