(* ===== verification/Layers.thy ===== *)
theory Layers
  imports Paths "HOL-Library.Word"
begin

unbundle bit_operations_syntax

text \<open>
  The extraction of OCI layers into the staging directory (pkg/rootfs/builder.go): the names that are accepted, whiteouts, the entries
  by their type, the setuid policy and the extraction budget. The staging directory is seen through the operations that are
  performed on its \<open>os.Root\<close>, in their order and with their outcome; which of them fail, what a directory lists and how much a reader
  delivers are arguments. Sizes are validated before a build, so that no sum of the budget overflows.
\<close>

section \<open>Names\<close>

definition stageMetadataName :: string where "stageMetadataName = ''.microagent-rootfs-metadata.jsonl''"

datatype layer_error = UnsafePath string | RootPath | UnsafeTarget string | ReservedName string | NegativeOwner string | NegativeDevice string
  | SocketEntry string | TooManyEntries | ExtractTooLarge | RootOpFails | CopyFails | TarFails | FetchFails | VerifyFails

definition safeGuestRel :: "string \<Rightarrow> bool \<Rightarrow> layer_error + string" where
  "safeGuestRel guestPath allowRoot =
     (if CHR 0x00 \<in> set guestPath then Inl (UnsafePath guestPath)
      else if IsAbs guestPath then Inl (UnsafePath guestPath)
      else (let rel = Clean guestPath in
        if rel = ''.'' \<or> rel = [] then (if allowRoot then Inr ''.'' else Inl RootPath)
        else if rel = ''..'' \<or> HasPrefix rel ''../'' then Inl (UnsafePath guestPath)
        else Inr rel))"

definition safeSymlinkTarget :: "string \<Rightarrow> string \<Rightarrow> layer_error + string" where
  "safeSymlinkTarget linkName linkTarget =
     (if linkTarget = [] \<or> CHR 0x00 \<in> set linkTarget then Inl (UnsafeTarget linkTarget)
      else if IsAbs linkTarget then
        (let guestRel = TrimPrefix linkTarget ''/'' in
         if guestRel = [] then Inr linkTarget
         else (case safeGuestRel guestRel False of Inl _ \<Rightarrow> Inl (UnsafeTarget linkTarget) | Inr _ \<Rightarrow> Inr linkTarget))
      else (let resolved = Clean (path_Join (path_Dir linkName) linkTarget) in
        if resolved = ''.'' \<or> resolved = ''..'' \<or> HasPrefix resolved ''../'' then Inl (UnsafeTarget linkTarget) else Inr linkTarget))"

text \<open>The paths of declared files, which are absolute.\<close>

definition safeStageRel :: "string \<Rightarrow> string option" where
  "safeStageRel guestPath =
     (if CHR 0x00 \<in> set guestPath then None
      else (let c = Clean (map (\<lambda>x. if x = CHR 0x5C then CHR ''/'' else x) guestPath) in
        if \<not> IsAbs c \<or> c = ''/'' then None
        else (let rel = TrimPrefix c ''/'' in if rel = ''.'' \<or> rel = ''..'' \<or> HasPrefix rel ''../'' then None else Some rel)))"

section \<open>Modes\<close>

record file_mode =
  fm_perm :: int
  fm_setuid :: bool
  fm_setgid :: bool
  fm_sticky :: bool

definition modeFromTarHeader :: "int \<Rightarrow> file_mode" where
  "modeFromTarHeader raw = \<lparr>fm_perm = raw AND 0x1FF, fm_setuid = (raw AND 0x800 \<noteq> 0), fm_setgid = (raw AND 0x400 \<noteq> 0), fm_sticky = (raw AND 0x200 \<noteq> 0)\<rparr>"

definition posixModeBits :: "file_mode \<Rightarrow> int" where
  "posixModeBits m = fm_perm m OR (if fm_setuid m then 0x800 else 0) OR (if fm_setgid m then 0x400 else 0) OR (if fm_sticky m then 0x200 else 0)"

definition stagingDirectoryMode :: "file_mode \<Rightarrow> file_mode" where
  "stagingDirectoryMode m = m\<lparr>fm_perm := fm_perm m OR 0x1C0\<rparr>"

text \<open>\<open>setuidStripper.apply\<close>: the mode, and the names stripped so far.\<close>

definition strip_apply :: "bool \<Rightarrow> string \<Rightarrow> file_mode \<Rightarrow> string list \<Rightarrow> file_mode \<times> string list" where
  "strip_apply allow name m stripped =
     (if allow \<or> \<not> fm_setuid m \<and> \<not> fm_setgid m then (m, stripped)
      else (m\<lparr>fm_setuid := False, fm_setgid := False\<rparr>, stripped @ [name]))"

section \<open>Headers and records\<close>

datatype tar_type = TypeReg | TypeGNUSparse | TypeDir | TypeSymlink | TypeLink | TypeChar | TypeBlock | TypeFifo | TypeSocket | TypeOther

text \<open>\<open>th_Data\<close> is the number of bytes that the reader of the entry delivers.\<close>

record tar_header =
  th_Name :: string
  th_Linkname :: string
  th_Uname :: string
  th_Gname :: string
  th_Typeflag :: tar_type
  th_Mode :: int
  th_Uid :: int
  th_Gid :: int
  th_Size :: int
  th_ModTime :: "int option"
  th_PAXRecords :: "(string, string) gomap"
  th_Devmajor :: int
  th_Devminor :: int
  th_Data :: nat

record stage_record =
  sr_Path :: string
  sr_Type :: string
  sr_Mode :: int
  sr_UID :: int
  sr_GID :: int
  sr_Mtime :: "int option"
  sr_Xattrs :: "(string, string) gomap"
  sr_DevMajor :: int
  sr_DevMinor :: int

definition tarHeaderXattrs :: "tar_header \<Rightarrow> (string, string) gomap" where
  "tarHeaderXattrs h = (let pre = ''SCHILY.xattr.'' in
     map (\<lambda>(k, v). (TrimPrefix k pre, v)) (filter (\<lambda>(k, v). HasPrefix k pre \<and> length k > length pre) (th_PAXRecords h)))"

definition header_record :: "string \<Rightarrow> int \<Rightarrow> tar_header \<Rightarrow> stage_record" where
  "header_record name mode h = \<lparr>sr_Path = name, sr_Type = [], sr_Mode = mode, sr_UID = th_Uid h, sr_GID = th_Gid h, sr_Mtime = th_ModTime h,
     sr_Xattrs = tarHeaderXattrs h, sr_DevMajor = 0, sr_DevMinor = 0\<rparr>"

section \<open>The budget\<close>

record extraction_budget =
  eb_maxBytes :: int
  eb_maxEntries :: int
  eb_bytes :: int
  eb_entries :: int

definition DefaultMaxAutoExtractMiB :: int where "DefaultMaxAutoExtractMiB = 32768"
definition DefaultMaxExtractEntries :: int where "DefaultMaxExtractEntries = 1000000"

definition newExtractionBudget :: "int \<Rightarrow> bool \<Rightarrow> extraction_budget" where
  "newExtractionBudget sizeMiB autoSize =
     (let limitMiB = (if autoSize \<and> sizeMiB < DefaultMaxAutoExtractMiB then DefaultMaxAutoExtractMiB else sizeMiB);
          maxBytes = limitMiB * 1024 * 1024;
          maxEntries = min (max (maxBytes div 4096) 65536) DefaultMaxExtractEntries
      in \<lparr>eb_maxBytes = maxBytes, eb_maxEntries = maxEntries, eb_bytes = 0, eb_entries = 0\<rparr>)"

definition entry_units :: "string \<Rightarrow> int" where
  "entry_units headerName =
     (let isslash = (\<lambda>c. c = CHR ''/''); name = trim_right isslash (trim_left isslash (Clean headerName)) in
      if name \<noteq> [] \<and> name \<noteq> ''.'' then 1 + int (length (filter isslash name)) else 1)"

definition metadata_bytes :: "tar_header \<Rightarrow> int" where
  "metadata_bytes h = int (length (th_Name h) + length (th_Linkname h) + length (th_Uname h) + length (th_Gname h)) +
     sum_list (map (\<lambda>(k, v). 2 * int (length k + length v)) (th_PAXRecords h))"

definition beginEntry :: "tar_header \<Rightarrow> extraction_budget \<Rightarrow> layer_error option \<times> extraction_budget" where
  "beginEntry h b =
     (let b1 = b\<lparr>eb_entries := eb_entries b + entry_units (th_Name h)\<rparr> in
      if eb_entries b1 > eb_maxEntries b1 then (Some TooManyEntries, b1)
      else if metadata_bytes h > eb_maxBytes b1 - eb_bytes b1 then (Some ExtractTooLarge, b1)
      else (let b2 = b1\<lparr>eb_bytes := eb_bytes b1 + metadata_bytes h\<rparr> in
        if th_Typeflag h \<in> {TypeReg, TypeGNUSparse} \<and> (th_Size h < 0 \<or> th_Size h > eb_maxBytes b2 - eb_bytes b2) then (Some ExtractTooLarge, b2)
        else (None, b2)))"

section \<open>Operations on the staging root\<close>

datatype root_op = MkdirAll string | ChmodTo string file_mode | RemoveTree string | RemoveOne string | CreateExcl string | CloseFile string | Wrote string nat
  | MakeSymlink string string | SymlinkMarker string string | MakeLink string string | EnsureLedger | AppendLedger stage_record | RemoveStage

datatype dir_listing = NoSuchDir | ListingFails | Listing "string list"

record stage_env =
  se_allow :: bool
  se_ok :: "nat \<Rightarrow> bool"
  se_copy :: "nat \<Rightarrow> nat option"
  se_list :: "nat \<Rightarrow> string \<Rightarrow> dir_listing"
  se_marker :: "nat \<Rightarrow> bool"

record stage_state =
  ss_ops :: "(root_op \<times> bool) list"
  ss_budget :: extraction_budget
  ss_stripped :: "string list"

text \<open>Statements of the extraction, with the early return on an error.\<close>

type_synonym 'a stage = "stage_state \<Rightarrow> (layer_error + 'a) \<times> stage_state"

definition stage_bind :: "'a stage \<Rightarrow> ('a \<Rightarrow> 'b stage) \<Rightarrow> 'b stage" where
  "stage_bind m f st = (case m st of (Inl e, st') \<Rightarrow> (Inl e, st') | (Inr x, st') \<Rightarrow> f x st')"

definition stage_return :: "'a \<Rightarrow> 'a stage" where
  "stage_return x st = (Inr x, st)"

definition stage_fail :: "layer_error \<Rightarrow> 'a stage" where
  "stage_fail e st = (Inl e, st)"

definition attempt :: "stage_env \<Rightarrow> root_op \<Rightarrow> bool stage" where
  "attempt E x st = (let ok = se_ok E (length (ss_ops st)) in (Inr ok, st\<lparr>ss_ops := ss_ops st @ [(x, ok)]\<rparr>))"

definition perform :: "stage_env \<Rightarrow> root_op \<Rightarrow> unit stage" where
  "perform E x = stage_bind (attempt E x) (\<lambda>ok. if ok then stage_return () else stage_fail RootOpFails)"

definition stage_then :: "unit stage \<Rightarrow> 'b stage \<Rightarrow> 'b stage" where
  "stage_then m k = stage_bind m (\<lambda>_. k)"

definition recordStageMetadata :: "stage_env \<Rightarrow> stage_record \<Rightarrow> unit stage" where
  "recordStageMetadata E r =
     (let r = r\<lparr>sr_Path := Clean (TrimPrefix (sr_Path r) ''/'')\<rparr> in
      if sr_Path r = stageMetadataName then stage_return ()
      else stage_then (perform E EnsureLedger) (perform E (AppendLedger r)))"

text \<open>\<open>copyFile\<close>: at most one byte more than what remains is read; the copy may fail after some bytes.\<close>

definition copyFile :: "stage_env \<Rightarrow> string \<Rightarrow> nat \<Rightarrow> unit stage" where
  "copyFile E name data st =
     (let b = ss_budget st; remaining = eb_maxBytes b - eb_bytes b; full = min data (nat (remaining + 1)); i = length (ss_ops st);
          written = (case se_copy E i of None \<Rightarrow> full | Some k \<Rightarrow> min k full);
          b' = b\<lparr>eb_bytes := eb_bytes b + int written\<rparr>;
          st' = st\<lparr>ss_ops := ss_ops st @ [(Wrote name written, se_copy E i = None)], ss_budget := b'\<rparr>
      in if eb_bytes b' > eb_maxBytes b' then (Inl ExtractTooLarge, st')
         else if se_copy E i = None then (Inr (), st') else (Inl CopyFails, st'))"

fun remove_children :: "stage_env \<Rightarrow> string \<Rightarrow> string list \<Rightarrow> unit stage" where
  "remove_children E dir [] = stage_return ()"
| "remove_children E dir (x # xs) =
     (if dir = ''.'' \<and> x = stageMetadataName then remove_children E dir xs
      else stage_then (perform E (RemoveTree (path_Join dir x))) (remove_children E dir xs))"

definition removeDirectoryChildren :: "stage_env \<Rightarrow> string \<Rightarrow> unit stage" where
  "removeDirectoryChildren E dir st = (case se_list E (length (ss_ops st)) dir of
       NoSuchDir \<Rightarrow> (Inr (), st) | ListingFails \<Rightarrow> (Inl RootOpFails, st) | Listing xs \<Rightarrow> remove_children E dir xs st)"

section \<open>One entry\<close>

text \<open>The parent directory is made and whatever has the name is removed; the outcome of the removal is ignored.\<close>

definition clear_way :: "stage_env \<Rightarrow> string \<Rightarrow> unit stage" where
  "clear_way E name = stage_then (perform E (MkdirAll (path_Dir name))) (stage_bind (attempt E (RemoveTree name)) (\<lambda>_. stage_return ()))"

definition strip_mode :: "stage_env \<Rightarrow> string \<Rightarrow> file_mode \<Rightarrow> file_mode stage" where
  "strip_mode E name m st = (case strip_apply (se_allow E) name m (ss_stripped st) of (m', names) \<Rightarrow> (Inr m', st\<lparr>ss_stripped := names\<rparr>))"

definition regular_entry :: "stage_env \<Rightarrow> tar_header \<Rightarrow> string \<Rightarrow> file_mode \<Rightarrow> stage_record \<Rightarrow> unit stage" where
  "regular_entry E h name mode r =
     stage_then (clear_way E name) (stage_then (perform E (CreateExcl name))
       (\<lambda>st. case copyFile E name (th_Data h) st of
          (Inl e, st') \<Rightarrow> stage_bind (attempt E (CloseFile name)) (\<lambda>_. stage_bind (attempt E (RemoveOne name)) (\<lambda>_. stage_fail e)) st'
        | (Inr _, st') \<Rightarrow> stage_then (perform E (CloseFile name)) (stage_then (perform E (ChmodTo name mode))
            (recordStageMetadata E (r\<lparr>sr_Type := ''regular''\<rparr>))) st'))"

definition symlink_entry :: "stage_env \<Rightarrow> tar_header \<Rightarrow> string \<Rightarrow> stage_record \<Rightarrow> unit stage" where
  "symlink_entry E h name r = (case safeSymlinkTarget name (th_Linkname h) of
       Inl e \<Rightarrow> stage_fail e
     | Inr linkTarget \<Rightarrow> stage_then (clear_way E name) (stage_bind (attempt E (MakeSymlink linkTarget name))
         (\<lambda>ok st. if ok then recordStageMetadata E (r\<lparr>sr_Type := ''symlink''\<rparr>) st
            else if \<not> se_marker E (length (ss_ops st)) then (Inl RootOpFails, st)
            else stage_then (perform E (SymlinkMarker linkTarget name)) (recordStageMetadata E (r\<lparr>sr_Type := ''symlink''\<rparr>)) st)))"

definition link_entry :: "stage_env \<Rightarrow> tar_header \<Rightarrow> string \<Rightarrow> stage_record \<Rightarrow> unit stage" where
  "link_entry E h name r = (case safeGuestRel (th_Linkname h) False of
       Inl e \<Rightarrow> stage_fail e
     | Inr linkTarget \<Rightarrow> stage_then (clear_way E name) (stage_then (perform E (MakeLink linkTarget name))
         (recordStageMetadata E (r\<lparr>sr_Type := ''hardlink''\<rparr>))))"

definition device_entry :: "stage_env \<Rightarrow> tar_header \<Rightarrow> string \<Rightarrow> file_mode \<Rightarrow> stage_record \<Rightarrow> string \<Rightarrow> unit stage" where
  "device_entry E h name mode r kind =
     (if th_Devmajor h < 0 \<or> th_Devminor h < 0 then stage_fail (NegativeDevice (th_Name h))
      else stage_then (clear_way E name) (stage_then (perform E (CreateExcl name)) (stage_then (perform E (CloseFile name)) (stage_then (perform E (ChmodTo name mode))
        (recordStageMetadata E (r\<lparr>sr_Type := kind, sr_DevMajor := th_Devmajor h, sr_DevMinor := th_Devminor h\<rparr>))))))"

definition directory_entry :: "stage_env \<Rightarrow> string \<Rightarrow> file_mode \<Rightarrow> stage_record \<Rightarrow> unit stage" where
  "directory_entry E name mode r =
     stage_then (perform E (MkdirAll name)) (stage_then (perform E (ChmodTo name (stagingDirectoryMode mode)))
       (recordStageMetadata E (r\<lparr>sr_Type := ''directory''\<rparr>)))"

definition typed_entry :: "stage_env \<Rightarrow> tar_header \<Rightarrow> string \<Rightarrow> file_mode \<Rightarrow> unit stage" where
  "typed_entry E h name mode =
     (let r = header_record name (posixModeBits mode) h in
      case th_Typeflag h of
        TypeDir \<Rightarrow> directory_entry E name mode r
      | TypeReg \<Rightarrow> regular_entry E h name mode r
      | TypeGNUSparse \<Rightarrow> regular_entry E h name mode r
      | TypeSymlink \<Rightarrow> symlink_entry E h name r
      | TypeLink \<Rightarrow> link_entry E h name r
      | TypeChar \<Rightarrow> device_entry E h name mode r ''character''
      | TypeBlock \<Rightarrow> device_entry E h name mode r ''block''
      | TypeFifo \<Rightarrow> device_entry E h name mode r ''fifo''
      | TypeSocket \<Rightarrow> stage_fail (SocketEntry (th_Name h))
      | TypeOther \<Rightarrow> stage_return ())"

definition applyTarEntry :: "stage_env \<Rightarrow> tar_header \<Rightarrow> unit stage" where
  "applyTarEntry E h = (case safeGuestRel (th_Name h) False of
     Inl e \<Rightarrow>
       if e = RootPath then
         (if th_Typeflag h \<noteq> TypeDir then stage_return ()
          else if th_Uid h < 0 \<or> th_Gid h < 0 then stage_fail (NegativeOwner (th_Name h))
          else recordStageMetadata E ((header_record ''.'' (th_Mode h AND 0xFFF) h)\<lparr>sr_Type := ''directory''\<rparr>))
       else stage_fail e
   | Inr name \<Rightarrow>
       if name = stageMetadataName then stage_fail (ReservedName (th_Name h))
       else (let base = path_Base name; dir = path_Dir name in
         if base = ''.wh..wh..opq'' then
           (case safeGuestRel dir True of Inl e \<Rightarrow> stage_fail e | Inr targetDir \<Rightarrow> removeDirectoryChildren E targetDir)
         else if HasPrefix base ''.wh.'' then
           (case safeGuestRel (path_Join dir (TrimPrefix base ''.wh.'')) False of Inl e \<Rightarrow> stage_fail e
            | Inr target \<Rightarrow> if target = stageMetadataName then stage_fail (ReservedName target) else perform E (RemoveTree target))
         else stage_bind (strip_mode E name (modeFromTarHeader (th_Mode h)))
           (\<lambda>mode. if th_Uid h < 0 \<or> th_Gid h < 0 then stage_fail (NegativeOwner (th_Name h)) else typed_entry E h name mode)))"

section \<open>Layers\<close>

definition begin_entry :: "tar_header \<Rightarrow> unit stage" where
  "begin_entry h st = (case beginEntry h (ss_budget st) of
     (Some e, b) \<Rightarrow> (Inl e, st\<lparr>ss_budget := b\<rparr>) | (None, b) \<Rightarrow> (Inr (), st\<lparr>ss_budget := b\<rparr>))"

text \<open>A layer: whether it is fetched, its entries, whether the archive ends with an error (as one that cannot be opened does at once), and
  whether the rest of the blob can be read and has the size and digest of its descriptor.\<close>

record oci_layer =
  ol_fetched :: bool
  ol_entries :: "tar_header list"
  ol_broken :: bool
  ol_verified :: bool

fun extractLayer :: "stage_env \<Rightarrow> bool \<Rightarrow> tar_header list \<Rightarrow> unit stage" where
  "extractLayer E broken [] = (if broken then stage_fail TarFails else stage_return ())"
| "extractLayer E broken (h # hs) = stage_then (begin_entry h) (stage_then (applyTarEntry E h) (extractLayer E broken hs))"

definition extract_layer :: "stage_env \<Rightarrow> oci_layer \<Rightarrow> unit stage" where
  "extract_layer E l st =
     (if \<not> ol_fetched l then (Inl FetchFails, st)
      else (case extractLayer E (ol_broken l) (ol_entries l) st of
          (Inl e, st') \<Rightarrow> (if e \<in> {TooManyEntries, ExtractTooLarge} then (Inl e, snd (attempt E RemoveStage st')) else (Inl e, st'))
        | (Inr _, st') \<Rightarrow> (if ol_verified l then (Inr (), st') else (Inl VerifyFails, st'))))"

fun extract_layers :: "stage_env \<Rightarrow> oci_layer list \<Rightarrow> unit stage" where
  "extract_layers E [] = stage_return ()"
| "extract_layers E (l # ls) = stage_then (extract_layer E l) (extract_layers E ls)"

definition fresh_stage :: "extraction_budget \<Rightarrow> stage_state" where
  "fresh_stage b = \<lparr>ss_ops = [], ss_budget = b, ss_stripped = []\<rparr>"

end
