(* ===== verification/LayerProps.thy ===== *)
theory LayerProps
  imports Layers
begin

text \<open>
  Every statement of the extraction touches only names inside the staging root, respects the setuid policy and the budget. The
  statements share one specification, \<open>tame\<close>, that is kept by the sequence and proved once for each operation.
\<close>

section \<open>Accepted names\<close>

lemma safeGuestRel_Inr:
  assumes "safeGuestRel p allowRoot = Inr rel"
  shows "allowRoot \<and> rel = ''.'' \<or> inner_name rel \<and> CHR 0x00 \<notin> set rel"
proof -
  have nul: "CHR 0x00 \<notin> set p" "\<not> IsAbs p" using assms by (auto simp: safeGuestRel_def split: if_splits)
  show ?thesis
  proof (cases "Clean p = ''.'' \<or> Clean p = []")
    case True
    then show ?thesis using assms nul by (auto simp: safeGuestRel_def split: if_splits)
  next
    case False
    then have r: "rel = Clean p" "Clean p \<noteq> ''..''" "\<not> HasPrefix (Clean p) ''../''"
      using assms nul by (auto simp: safeGuestRel_def Let_def split: if_splits)
    then show ?thesis using Clean_relative [OF nul(2)] False Clean_NUL [OF nul(1)] by simp
  qed
qed

lemma part_shape: "c \<in> set (path_parts p) \<Longrightarrow> c \<noteq> [] \<and> CHR ''/'' \<notin> set c"
proof -
  assume c: "c \<in> set (path_parts p)"
  obtain n cs where "path_parts p = replicate n ''..'' @ cs" "\<forall>c \<in> set cs. proper c" using path_parts_shape by blast
  then have "c = ''..'' \<or> proper c" using c by (auto dest: in_set_replicate [THEN iffD1])
  then show ?thesis by (auto simp: proper_def)
qed

lemma Clean_not_abs: "\<not> IsAbs p \<Longrightarrow> \<not> IsAbs (Clean p)"
proof -
  assume a: "\<not> IsAbs p"
  show "\<not> IsAbs (Clean p)"
  proof (cases "path_parts p = []")
    case True
    then show ?thesis using a by (simp add: Clean_def IsAbs_def HasPrefix_def)
  next
    case False
    obtain t where t: "slashed (path_parts p) = hd (path_parts p) @ t" using slashed_hd [OF False] by blast
    have "hd (path_parts p) \<noteq> [] \<and> CHR ''/'' \<notin> set (hd (path_parts p))" using part_shape [of "hd (path_parts p)" p] False by simp
    then show ?thesis using a False t by (cases "hd (path_parts p)") (auto simp: Clean_def IsAbs_def HasPrefix_def)
  qed
qed

lemma inner_Dir: "inner_name name \<Longrightarrow> path_Dir name = ''.'' \<or> inner_name (path_Dir name)"
proof -
  assume "inner_name name"
  then obtain cs where cs: "cs \<noteq> []" "name = slashed cs" "\<forall>c \<in> set cs. proper c" by (auto simp: inner_name_def)
  have "\<forall>c \<in> set (butlast cs). proper c" using cs(3) in_set_butlastD by fast
  then show ?thesis using inner_Base_Dir(2) [OF cs(1,3)] cs(2) by (auto simp: inner_name_def)
qed

lemma Dir_not_abs: "inner_name name \<Longrightarrow> path_Dir name \<noteq> [] \<and> \<not> IsAbs (path_Dir name)"
  using inner_Dir [of name] inner_chars [of "path_Dir name"] by (auto simp: IsAbs_def HasPrefix_def)

text \<open>A symbolic link leads, read in the guest, to the guest's root or to something below it.\<close>

definition link_inside :: "string \<Rightarrow> string \<Rightarrow> bool" where
  "link_inside name target \<longleftrightarrow> target \<noteq> [] \<and> CHR 0x00 \<notin> set target \<and>
     (if IsAbs target then target = ''/'' \<or> inner_name (Clean (tl target)) else inner_name (Clean (path_Join (path_Dir name) target)))"

lemma safeSymlinkTarget_Inr:
  assumes "safeSymlinkTarget name target = Inr t" "inner_name name"
  shows "t = target \<and> link_inside name target"
proof -
  have b: "target \<noteq> []" "CHR 0x00 \<notin> set target" using assms(1) by (auto simp: safeSymlinkTarget_def split: if_splits)
  show ?thesis
  proof (cases "IsAbs target")
    case True
    then obtain r where r: "target = CHR ''/'' # r" by (cases target) (auto simp: IsAbs_def HasPrefix_def)
    have "t = target \<and> (r = [] \<or> (\<exists>x. safeGuestRel r False = Inr x))"
      using assms(1) b True by (auto simp: safeSymlinkTarget_def r TrimPrefix_def HasPrefix_def Let_def split: if_splits sum.splits)
    moreover have "inner_name (Clean r)" if "safeGuestRel r False = Inr x" for x
      using safeGuestRel_Inr [OF that] that by (auto simp: safeGuestRel_def Let_def split: if_splits)
    ultimately show ?thesis using b True r by (auto simp: link_inside_def)
  next
    case False
    let ?j = "path_Join (path_Dir name) target"
    have t: "t = target" "Clean ?j \<noteq> ''.''" "Clean ?j \<noteq> ''..''" "\<not> HasPrefix (Clean ?j) ''../''"
      using assms(1) b False by (auto simp: safeSymlinkTarget_def Let_def split: if_splits)
    have "?j = Clean (path_Dir name @ CHR ''/'' # target)" using b(1) Dir_not_abs [OF assms(2)] by (simp add: path_Join_def)
    moreover have "\<not> IsAbs (path_Dir name @ CHR ''/'' # target)"
      using Dir_not_abs [OF assms(2)] by (cases "path_Dir name") (auto simp: IsAbs_def HasPrefix_def)
    ultimately have "\<not> IsAbs ?j" using Clean_not_abs by simp
    then show ?thesis using Clean_relative t b False by (simp add: link_inside_def)
  qed
qed

lemma meta_no_slash: "CHR ''/'' \<notin> set stageMetadataName"
  by (simp add: stageMetadataName_def)

lemma child_inner:
  assumes "proper x" "dir = ''.'' \<or> inner_name dir" "\<not> (dir = ''.'' \<and> x = stageMetadataName)"
  shows "inner_name (path_Join dir x) \<and> path_Join dir x \<noteq> stageMetadataName"
proof (cases "dir = ''.''")
  case True
  have x: "x \<noteq> []" "CHR ''/'' \<notin> set x" using assms(1) by (auto simp: proper_def)
  have "path_parts (''.'' @ CHR ''/'' # x) = [x]"
    using assms(1) x Split_append [of "CHR ''/''" "''.''" x] Split_no [OF x(2)] by (simp add: path_parts_def IsAbs_def HasPrefix_def proper_def)
  then have "path_Join dir x = x" using x True by (simp add: path_Join_def Clean_def IsAbs_def HasPrefix_def)
  moreover have "inner_name x" using assms(1) by (auto simp: inner_name_def intro: exI [of _ "[x]"])
  ultimately show ?thesis using assms(3) True by simp
next
  case False
  then obtain ds where ds: "ds \<noteq> []" "dir = slashed ds" "\<forall>c \<in> set ds. proper c" using assms(2) by (auto simp: inner_name_def)
  have p: "\<forall>c \<in> set (ds @ [x]). proper c" using ds(3) assms(1) by simp
  have x: "x \<noteq> []" "dir \<noteq> []" using assms(1,2) False inner_chars by (auto simp: proper_def)
  have "path_Join dir x = Clean (slashed (ds @ [x]))" using x ds by (simp add: path_Join_def slashed_snoc)
  also have "\<dots> = slashed (ds @ [x])" using Clean_inner(1) [OF _ p] by simp
  finally have j: "path_Join dir x = slashed (ds @ [x])" .
  then have "CHR ''/'' \<in> set (path_Join dir x)" using ds(1) by (simp add: slashed_snoc)
  moreover have "inner_name (path_Join dir x)" unfolding inner_name_def using j p by (intro exI [of _ "ds @ [x]"]) simp
  ultimately show ?thesis using meta_no_slash by auto
qed

section \<open>Operations within bounds\<close>

definition clear_bits :: "bool \<Rightarrow> file_mode \<Rightarrow> bool" where
  "clear_bits allow m \<longleftrightarrow> allow \<or> \<not> fm_setuid m \<and> \<not> fm_setgid m"

definition own_name :: "string \<Rightarrow> bool" where
  "own_name n \<longleftrightarrow> inner_name n \<and> n \<noteq> stageMetadataName"

fun op_inside :: "bool \<Rightarrow> root_op \<Rightarrow> bool" where
  "op_inside allow (MkdirAll n) = (n = ''.'' \<or> inner_name n)"
| "op_inside allow (ChmodTo n m) = (own_name n \<and> clear_bits allow m)"
| "op_inside allow (RemoveTree n) = own_name n"
| "op_inside allow (RemoveOne n) = own_name n"
| "op_inside allow (CreateExcl n) = own_name n"
| "op_inside allow (CloseFile n) = own_name n"
| "op_inside allow (Wrote n k) = own_name n"
| "op_inside allow (MakeSymlink t n) = (own_name n \<and> link_inside n t)"
| "op_inside allow (SymlinkMarker t n) = (own_name n \<and> link_inside n t)"
| "op_inside allow (MakeLink t n) = (own_name n \<and> inner_name t)"
| "op_inside allow EnsureLedger = True"
| "op_inside allow RemoveStage = True"
| "op_inside allow (AppendLedger r) = (sr_Path r = ''.'' \<or> own_name (sr_Path r) \<and> (allow \<or> sr_Mode r AND 0xC00 = 0))"

fun written :: "(root_op \<times> bool) list \<Rightarrow> nat" where
  "written [] = 0"
| "written ((Wrote _ k, _) # xs) = k + written xs"
| "written (_ # xs) = written xs"

lemma written_append [simp]: "written (xs @ ys) = written xs + written ys"
  by (induction xs rule: written.induct) auto

definition within :: "int \<Rightarrow> stage_state \<Rightarrow> bool" where
  "within d st \<longleftrightarrow> int (written (ss_ops st)) \<le> eb_bytes (ss_budget st) \<and> eb_bytes (ss_budget st) \<le> eb_maxBytes (ss_budget st) + d"

text \<open>The limits and the count of entries stay; a statement that fails may have gone one byte over.\<close>

definition tame :: "stage_env \<Rightarrow> 'a stage \<Rightarrow> bool" where
  "tame E m \<longleftrightarrow> (\<forall>st r st'. m st = (r, st') \<longrightarrow>
     (\<exists>new. ss_ops st' = ss_ops st @ new \<and> (\<forall>x \<in> set new. op_inside (se_allow E) (fst x))) \<and>
     eb_entries (ss_budget st') = eb_entries (ss_budget st) \<and> eb_maxEntries (ss_budget st') = eb_maxEntries (ss_budget st) \<and>
     eb_maxBytes (ss_budget st') = eb_maxBytes (ss_budget st) \<and>
     (within 0 st \<longrightarrow> within (if isl r then 1 else 0) st'))"

lemma tameI:
  assumes "\<And>st r st'. m st = (r, st') \<Longrightarrow> (\<exists>new. ss_ops st' = ss_ops st @ new \<and> (\<forall>x \<in> set new. op_inside (se_allow E) (fst x)) \<and> written new = 0) \<and>
     ss_budget st' = ss_budget st"
  shows "tame E m"
  unfolding tame_def
proof (intro allI impI)
  fix st r st'
  assume "m st = (r, st')"
  from assms [OF this] obtain new where n: "ss_ops st' = ss_ops st @ new" "\<forall>x \<in> set new. op_inside (se_allow E) (fst x)" "written new = 0"
    "ss_budget st' = ss_budget st" by blast
  then show "(\<exists>new. ss_ops st' = ss_ops st @ new \<and> (\<forall>x \<in> set new. op_inside (se_allow E) (fst x))) \<and>
     eb_entries (ss_budget st') = eb_entries (ss_budget st) \<and> eb_maxEntries (ss_budget st') = eb_maxEntries (ss_budget st) \<and>
     eb_maxBytes (ss_budget st') = eb_maxBytes (ss_budget st) \<and> (within 0 st \<longrightarrow> within (if isl r then 1 else 0) st')"
    by (auto simp: within_def)
qed

lemma tame_bind:
  assumes "tame E m" "\<And>x. R x \<Longrightarrow> tame E (f x)" "\<And>st x st'. m st = (Inr x, st') \<Longrightarrow> R x"
  shows "tame E (stage_bind m f)"
  unfolding tame_def
proof (intro allI impI)
  fix st r st'
  assume b: "stage_bind m f st = (r, st')"
  obtain r1 st1 where m: "m st = (r1, st1)" by (cases "m st")
  note M = assms(1) [unfolded tame_def, rule_format, OF m]
  show "(\<exists>new. ss_ops st' = ss_ops st @ new \<and> (\<forall>x \<in> set new. op_inside (se_allow E) (fst x))) \<and>
     eb_entries (ss_budget st') = eb_entries (ss_budget st) \<and> eb_maxEntries (ss_budget st') = eb_maxEntries (ss_budget st) \<and>
     eb_maxBytes (ss_budget st') = eb_maxBytes (ss_budget st) \<and> (within 0 st \<longrightarrow> within (if isl r then 1 else 0) st')"
  proof (cases r1)
    case (Inl e)
    then show ?thesis using M b m by (auto simp: stage_bind_def)
  next
    case (Inr x)
    then have "f x st1 = (r, st')" "R x" using b m assms(3) by (auto simp: stage_bind_def)
    note F = assms(2) [OF \<open>R x\<close>, unfolded tame_def, rule_format, OF \<open>f x st1 = (r, st')\<close>]
    from M F Inr show ?thesis by (elim conjE exE) (auto simp: Un_iff)
  qed
qed

text \<open>A statement that in every state does what a tame one does.\<close>

lemma tame_pointwise:
  assumes "\<And>st. \<exists>m'. tame E m' \<and> m st = m' st"
  shows "tame E m"
  unfolding tame_def
proof (intro allI impI)
  fix st r st'
  assume "m st = (r, st')"
  moreover obtain m' where "tame E m'" "m st = m' st" using assms by blast
  ultimately show "(\<exists>new. ss_ops st' = ss_ops st @ new \<and> (\<forall>x \<in> set new. op_inside (se_allow E) (fst x))) \<and>
     eb_entries (ss_budget st') = eb_entries (ss_budget st) \<and> eb_maxEntries (ss_budget st') = eb_maxEntries (ss_budget st) \<and>
     eb_maxBytes (ss_budget st') = eb_maxBytes (ss_budget st) \<and> (within 0 st \<longrightarrow> within (if isl r then 1 else 0) st')"
    unfolding tame_def by simp
qed

lemma tame_then: "tame E m \<Longrightarrow> tame E k \<Longrightarrow> tame E (stage_then m k)"
  unfolding stage_then_def by (rule tame_bind [where R = "\<lambda>_. True"]) auto

lemma tame_return: "tame E (stage_return x)"
  by (rule tameI) (auto simp: stage_return_def)

lemma tame_fail: "tame E (stage_fail e)"
  by (rule tameI) (auto simp: stage_fail_def)

lemma tame_attempt: "op_inside (se_allow E) x \<Longrightarrow> (\<And>n k. x \<noteq> Wrote n k) \<Longrightarrow> tame E (attempt E x)"
  by (rule tameI) (cases x; auto simp: attempt_def Let_def)

lemma tame_perform: "op_inside (se_allow E) x \<Longrightarrow> (\<And>n k. x \<noteq> Wrote n k) \<Longrightarrow> tame E (perform E x)"
  unfolding perform_def by (rule tame_bind [where R = "\<lambda>_. True"]) (auto intro: tame_attempt tame_return tame_fail)

lemmas tame_intros = tame_then tame_return tame_fail tame_perform

section \<open>The statements of the extraction\<close>

lemma Clean_own: "own_name n \<Longrightarrow> Clean (TrimPrefix n ''/'') = n"
proof -
  assume "own_name n"
  then obtain cs where cs: "cs \<noteq> []" "n = slashed cs" "\<forall>c \<in> set cs. proper c" by (auto simp: own_name_def inner_name_def)
  have "TrimPrefix n ''/'' = n" using slashed_abs [OF cs(1,3)] cs(2) by (simp add: TrimPrefix_def IsAbs_def)
  then show ?thesis using Clean_inner(1) [OF cs(1,3)] cs(2) by simp
qed

lemma tame_record:
  assumes "own_name (sr_Path r)" "se_allow E \<or> sr_Mode r AND 0xC00 = 0"
  shows "tame E (recordStageMetadata E r)"
  using assms Clean_own [OF assms(1)] unfolding recordStageMetadata_def Let_def
  by (auto intro!: tame_intros)

lemma tame_record_root: "tame E (recordStageMetadata E (r\<lparr>sr_Path := ''.''\<rparr>))"
proof -
  have "Clean (TrimPrefix ''.'' ''/'') = ''.''"
    by (simp add: TrimPrefix_def HasPrefix_def Clean_def path_parts_def IsAbs_def Split_def)
  then show ?thesis unfolding recordStageMetadata_def Let_def by (auto intro!: tame_intros simp: stageMetadataName_def)
qed

lemma tame_clear_way: "own_name n \<Longrightarrow> tame E (clear_way E n)"
  unfolding clear_way_def
  by (intro tame_then tame_perform tame_bind [where R = "\<lambda>_. True"] tame_attempt tame_return) (auto simp: own_name_def inner_Dir)

lemma copyFile_spec:
  assumes "copyFile E name d st = (r, st')" "own_name name"
  shows "(\<exists>k b. ss_ops st' = ss_ops st @ [(Wrote name k, b)]) \<and> eb_entries (ss_budget st') = eb_entries (ss_budget st) \<and>
    eb_maxEntries (ss_budget st') = eb_maxEntries (ss_budget st) \<and> eb_maxBytes (ss_budget st') = eb_maxBytes (ss_budget st) \<and>
    (within 0 st \<longrightarrow> within (if isl r then 1 else 0) st')"
proof -
  let ?b = "ss_budget st"
  define w where "w = (case se_copy E (length (ss_ops st)) of None \<Rightarrow> min d (nat (eb_maxBytes ?b - eb_bytes ?b + 1)) | Some k \<Rightarrow> min k (min d (nat (eb_maxBytes ?b - eb_bytes ?b + 1))))"
  have w: "w \<le> nat (eb_maxBytes ?b - eb_bytes ?b + 1)" by (auto simp: w_def split: option.split)
  have st': "st' = st\<lparr>ss_ops := ss_ops st @ [(Wrote name w, se_copy E (length (ss_ops st)) = None)], ss_budget := ?b\<lparr>eb_bytes := eb_bytes ?b + int w\<rparr>\<rparr>"
    and r: "isl r \<or> eb_bytes ?b + int w \<le> eb_maxBytes ?b"
    using assms(1) unfolding copyFile_def Let_def w_def [symmetric] by (simp_all split: if_splits) auto
  show ?thesis using w r by (auto simp: st' within_def)
qed

lemma within_attempt: "attempt E x st = (r, st') \<Longrightarrow> (\<And>n k. x \<noteq> Wrote n k) \<Longrightarrow> within d st \<Longrightarrow> within d st'"
  by (cases x) (auto simp: attempt_def Let_def within_def)

lemma tame_regular:
  assumes "own_name name" "clear_bits (se_allow E) mode" "sr_Path r = name" "se_allow E \<or> sr_Mode r AND 0xC00 = 0"
  shows "tame E (regular_entry E h name mode r)"
proof -
  let ?k = "\<lambda>st. case copyFile E name (th_Data h) st of
          (Inl e, st') \<Rightarrow> stage_bind (attempt E (CloseFile name)) (\<lambda>_. stage_bind (attempt E (RemoveOne name)) (\<lambda>_. stage_fail e)) st'
        | (Inr _, st') \<Rightarrow> stage_then (perform E (CloseFile name)) (stage_then (perform E (ChmodTo name mode)) (recordStageMetadata E (r\<lparr>sr_Type := ''regular''\<rparr>))) st'"
  have copy: "tame E (copyFile E name (th_Data h))"
    unfolding tame_def
  proof (intro allI impI)
    fix st x st'
    assume "copyFile E name (th_Data h) st = (x, st')"
    from copyFile_spec [OF this assms(1)] show "(\<exists>new. ss_ops st' = ss_ops st @ new \<and> (\<forall>x \<in> set new. op_inside (se_allow E) (fst x))) \<and>
     eb_entries (ss_budget st') = eb_entries (ss_budget st) \<and> eb_maxEntries (ss_budget st') = eb_maxEntries (ss_budget st) \<and>
     eb_maxBytes (ss_budget st') = eb_maxBytes (ss_budget st) \<and> (within 0 st \<longrightarrow> within (if isl x then 1 else 0) st')"
      using assms(1) by (elim conjE exE) simp
  qed
  have done1: "tame E (stage_then (perform E (CloseFile name)) (stage_then (perform E (ChmodTo name mode)) (recordStageMetadata E (r\<lparr>sr_Type := ''regular''\<rparr>))))"
    using assms by (intro tame_intros tame_record) auto
  have "tame E ?k"
    unfolding tame_def
  proof (intro allI impI)
    fix st x st'
    assume k: "?k st = (x, st')"
    obtain c st1 where c: "copyFile E name (th_Data h) st = (c, st1)" by (cases "copyFile E name (th_Data h) st")
    note C = copy [unfolded tame_def, rule_format, OF c]
    show "(\<exists>new. ss_ops st' = ss_ops st @ new \<and> (\<forall>x \<in> set new. op_inside (se_allow E) (fst x))) \<and>
     eb_entries (ss_budget st') = eb_entries (ss_budget st) \<and> eb_maxEntries (ss_budget st') = eb_maxEntries (ss_budget st) \<and>
     eb_maxBytes (ss_budget st') = eb_maxBytes (ss_budget st) \<and> (within 0 st \<longrightarrow> within (if isl x then 1 else 0) st')"
    proof (cases c)
      case (Inl e)
      obtain a st2 where a: "attempt E (CloseFile name) st1 = (a, st2)" by (cases "attempt E (CloseFile name) st1")
      obtain a' st3 where a': "attempt E (RemoveOne name) st2 = (a', st3)" by (cases "attempt E (RemoveOne name) st2")
      have s: "x = Inl e" "st' = st3" "\<exists>o1 o2. ss_ops st3 = ss_ops st1 @ [(CloseFile name, o1), (RemoveOne name, o2)]" "ss_budget st3 = ss_budget st1"
        using k c Inl a a' by (auto simp: stage_bind_def stage_fail_def attempt_def Let_def)
      have "within 1 st1 \<longrightarrow> within 1 st3" using within_attempt [OF a] within_attempt [OF a'] by simp
      then show ?thesis using C Inl s assms(1) by (elim conjE exE) (auto simp: Un_iff)
    next
      case (Inr u)
      then have "stage_then (perform E (CloseFile name)) (stage_then (perform E (ChmodTo name mode)) (recordStageMetadata E (r\<lparr>sr_Type := ''regular''\<rparr>))) st1 = (x, st')" using k c by simp
      note D = done1 [unfolded tame_def, rule_format, OF this]
      from C D Inr show ?thesis by (elim conjE exE) (auto simp: Un_iff)
    qed
  qed
  then show ?thesis unfolding regular_entry_def using assms(1) by (intro tame_then tame_clear_way tame_perform) auto
qed

lemma tame_symlink:
  assumes "own_name name" "sr_Path r = name" "se_allow E \<or> sr_Mode r AND 0xC00 = 0"
  shows "tame E (symlink_entry E h name r)"
proof (cases "safeSymlinkTarget name (th_Linkname h)")
  case (Inl e)
  then show ?thesis by (simp add: symlink_entry_def tame_fail)
next
  case (Inr t)
  have l: "link_inside name t" using safeSymlinkTarget_Inr [OF Inr] assms(1) by (auto simp: own_name_def)
  have rec: "tame E (recordStageMetadata E (r\<lparr>sr_Type := ''symlink''\<rparr>))" using assms by (intro tame_record) auto
  have "tame E (\<lambda>st. if ok then recordStageMetadata E (r\<lparr>sr_Type := ''symlink''\<rparr>) st
            else if \<not> se_marker E (length (ss_ops st)) then (Inl RootOpFails, st)
            else stage_then (perform E (SymlinkMarker t name)) (recordStageMetadata E (r\<lparr>sr_Type := ''symlink''\<rparr>)) st)" for ok
  proof -
    have m: "tame E (stage_then (perform E (SymlinkMarker t name)) (recordStageMetadata E (r\<lparr>sr_Type := ''symlink''\<rparr>)))"
      using rec l assms(1) by (intro tame_then tame_perform) auto
    show ?thesis using rec m tame_fail [of E RootOpFails] unfolding tame_def stage_fail_def by simp
  qed
  then show ?thesis unfolding symlink_entry_def Inr using assms(1) l
    by simp (intro tame_then tame_clear_way tame_bind [where R = "\<lambda>_. True"] tame_attempt, auto)
qed

lemma tame_link:
  assumes "own_name name" "sr_Path r = name" "se_allow E \<or> sr_Mode r AND 0xC00 = 0"
  shows "tame E (link_entry E h name r)"
proof (cases "safeGuestRel (th_Linkname h) False")
  case (Inr t)
  have "inner_name t" using safeGuestRel_Inr [OF Inr] by simp
  then show ?thesis using assms unfolding link_entry_def Inr by simp (intro tame_then tame_clear_way tame_perform tame_record, auto)
qed (simp add: link_entry_def tame_fail)

lemma tame_device:
  assumes "own_name name" "clear_bits (se_allow E) mode" "sr_Path r = name" "se_allow E \<or> sr_Mode r AND 0xC00 = 0"
  shows "tame E (device_entry E h name mode r kind)"
  using assms unfolding device_entry_def by (auto intro!: tame_then tame_clear_way tame_perform tame_record tame_fail)

lemma tame_directory:
  assumes "own_name name" "clear_bits (se_allow E) mode" "sr_Path r = name" "se_allow E \<or> sr_Mode r AND 0xC00 = 0"
  shows "tame E (directory_entry E name mode r)"
  using assms unfolding directory_entry_def
  by (intro tame_then tame_perform tame_record) (auto simp: own_name_def clear_bits_def stagingDirectoryMode_def)

lemma posix_clear:
  assumes "clear_bits allow m" "\<exists>raw. fm_perm m = raw AND 0x1FF"
  shows "allow \<or> posixModeBits m AND 0xC00 = 0"
proof -
  obtain raw where "fm_perm m = raw AND 0x1FF" using assms(2) by blast
  moreover have "(0x1FF :: int) AND 0xC00 = 0" "(0x200 :: int) AND 0xC00 = 0" by simp_all
  ultimately show ?thesis using assms(1) by (auto simp: clear_bits_def posixModeBits_def bit.conj_disj_distrib2 and.assoc)
qed

lemma tame_typed:
  assumes "own_name name" "clear_bits (se_allow E) mode" "\<exists>raw. fm_perm mode = raw AND 0x1FF"
  shows "tame E (typed_entry E h name mode)"
proof -
  note p = posix_clear [OF assms(2,3)]
  have r: "sr_Path (header_record name (posixModeBits mode) h) = name" "sr_Mode (header_record name (posixModeBits mode) h) = posixModeBits mode"
    by (simp_all add: header_record_def)
  show ?thesis unfolding typed_entry_def Let_def using assms(1,2) p r
    by (cases "th_Typeflag h") (auto intro!: tame_directory tame_regular tame_symlink tame_link tame_device tame_fail tame_return)
qed

lemma tame_children:
  assumes "\<forall>x \<in> set xs. proper x" "dir = ''.'' \<or> inner_name dir"
  shows "tame E (remove_children E dir xs)"
  using assms(1)
proof (induction xs)
  case (Cons x xs)
  have "own_name (path_Join dir x)" if "\<not> (dir = ''.'' \<and> x = stageMetadataName)"
    using child_inner [OF _ assms(2) that] Cons.prems by (simp add: own_name_def)
  then show ?case using Cons by (auto intro!: tame_then tame_perform)
qed (simp add: tame_return)

text \<open>A directory lists names that are single components.\<close>

definition lists_names :: "stage_env \<Rightarrow> bool" where
  "lists_names E \<longleftrightarrow> (\<forall>i d xs. se_list E i d = Listing xs \<longrightarrow> (\<forall>x \<in> set xs. proper x))"

lemma tame_opaque:
  assumes "lists_names E" "dir = ''.'' \<or> inner_name dir"
  shows "tame E (removeDirectoryChildren E dir)"
proof -
  have "tame E (remove_children E dir xs)" if "se_list E i dir = Listing xs" for i xs
    using that assms by (intro tame_children) (auto simp: lists_names_def)
  then have "\<exists>m'. tame E m' \<and> removeDirectoryChildren E dir st = m' st" for st
    using tame_fail [of E RootOpFails, where ?'a = unit] tame_return [of E "()"]
    by (cases "se_list E (length (ss_ops st)) dir") (auto simp: removeDirectoryChildren_def stage_fail_def stage_return_def)
  then show ?thesis by (rule tame_pointwise)
qed

lemma tame_strip: "tame E (strip_mode E name m)"
  by (rule tameI) (auto simp: strip_mode_def split: prod.splits)

lemma strip_result: "strip_mode E name (modeFromTarHeader raw) st = (Inr m, st') \<Longrightarrow> clear_bits (se_allow E) m \<and> (\<exists>raw. fm_perm m = raw AND 0x1FF)"
  by (auto simp: strip_mode_def strip_apply_def modeFromTarHeader_def clear_bits_def split: if_splits)

lemma tame_entry:
  assumes "lists_names E"
  shows "tame E (applyTarEntry E h)"
proof (cases "safeGuestRel (th_Name h) False")
  case (Inl e)
  then show ?thesis using tame_record_root [of E "(header_record ''.'' (th_Mode h AND 0xFFF) h)\<lparr>sr_Type := ''directory''\<rparr>"]
    by (auto simp: applyTarEntry_def header_record_def intro!: tame_fail tame_return)
next
  case (Inr name)
  have n: "inner_name name" using safeGuestRel_Inr [OF Inr] by simp
  show ?thesis
  proof (cases "name = stageMetadataName")
    case True
    then show ?thesis using Inr by (simp add: applyTarEntry_def tame_fail)
  next
    case False
    then have own: "own_name name" using n by (simp add: own_name_def)
    have opq: "tame E (case safeGuestRel (path_Dir name) True of Inl e \<Rightarrow> stage_fail e | Inr targetDir \<Rightarrow> removeDirectoryChildren E targetDir)"
      using safeGuestRel_Inr [of "path_Dir name" True] assms by (auto split: sum.splits intro!: tame_fail tame_opaque)
    have wh: "tame E (case safeGuestRel p False of Inl e \<Rightarrow> stage_fail e
            | Inr target \<Rightarrow> if target = stageMetadataName then stage_fail (ReservedName target) else perform E (RemoveTree target))" for p
      using safeGuestRel_Inr [of p False] by (auto split: sum.splits intro!: tame_fail tame_perform simp: own_name_def)
    have ent: "tame E (stage_bind (strip_mode E name (modeFromTarHeader (th_Mode h)))
           (\<lambda>mode. if th_Uid h < 0 \<or> th_Gid h < 0 then stage_fail (NegativeOwner (th_Name h)) else typed_entry E h name mode))"
      by (rule tame_bind [where R = "\<lambda>m. clear_bits (se_allow E) m \<and> (\<exists>raw. fm_perm m = raw AND 0x1FF)"])
        (use tame_strip strip_result own in \<open>auto intro!: tame_fail tame_typed\<close>)
    show ?thesis using Inr False opq wh ent by (simp add: applyTarEntry_def Let_def)
  qed
qed

end
