(* ===== verification/LayerClaims.thy ===== *)
theory LayerClaims
  imports LayerProps
begin

text \<open>The properties of the extraction of layers, with a concrete archive.\<close>

section \<open>Layers\<close>

lemma entry_units_pos: "entry_units s \<ge> 1"
  by (simp add: entry_units_def Let_def)

lemma metadata_nonneg: "metadata_bytes h \<ge> 0"
proof -
  have "sum_list (map (\<lambda>(k, v). 2 * int (length k + length v)) xs) \<ge> 0" for xs :: "(string \<times> string) list"
    by (induction xs) auto
  then show ?thesis by (simp add: metadata_bytes_def)
qed

lemma begin_spec:
  assumes "begin_entry h st = (r, st')"
  shows "ss_ops st' = ss_ops st" "eb_maxBytes (ss_budget st') = eb_maxBytes (ss_budget st)" "eb_maxEntries (ss_budget st') = eb_maxEntries (ss_budget st)"
    "within 0 st \<Longrightarrow> within 0 st'" "\<not> isl r \<Longrightarrow> eb_entries (ss_budget st) + 1 \<le> eb_entries (ss_budget st') \<and> eb_entries (ss_budget st') \<le> eb_maxEntries (ss_budget st')"
  using assms metadata_nonneg [of h] entry_units_pos [of "th_Name h"]
  by (auto simp: begin_entry_def beginEntry_def Let_def within_def split: if_splits prod.splits option.splits)

text \<open>What holds after some entries were extracted from \<open>st\<close>.\<close>

definition extracted :: "stage_env \<Rightarrow> stage_state \<Rightarrow> nat \<Rightarrow> bool \<Rightarrow> stage_state \<Rightarrow> bool" where
  "extracted E st n failed st' \<longleftrightarrow>
     (\<exists>new. ss_ops st' = ss_ops st @ new \<and> (\<forall>x \<in> set new. op_inside (se_allow E) (fst x))) \<and>
     eb_maxBytes (ss_budget st') = eb_maxBytes (ss_budget st) \<and> eb_maxEntries (ss_budget st') = eb_maxEntries (ss_budget st) \<and>
     (within 0 st \<longrightarrow> within (if failed then 1 else 0) st') \<and>
     (\<not> failed \<and> eb_entries (ss_budget st) \<le> eb_maxEntries (ss_budget st) \<longrightarrow>
       eb_entries (ss_budget st) + int n \<le> eb_entries (ss_budget st') \<and> eb_entries (ss_budget st') \<le> eb_maxEntries (ss_budget st'))"

lemma extracted_refl: "extracted E st 0 failed st"
  by (simp add: extracted_def within_def)

lemma extracted_trans: "extracted E a n False b \<Longrightarrow> extracted E b m f c \<Longrightarrow> extracted E a (n + m) f c"
  unfolding extracted_def by (elim conjE exE) (auto simp: Un_iff)

lemma begin_extracted: "begin_entry h st = (r, st') \<Longrightarrow> extracted E st 1 (isl r) st'"
  using begin_spec [of h st r st'] by (auto simp: extracted_def within_def)

lemma tame_extracted: "tame E m \<Longrightarrow> m st = (r, st') \<Longrightarrow> extracted E st 0 (isl r) st'"
  unfolding tame_def extracted_def by (drule spec [of _ st], drule spec [of _ r], drule spec [of _ st']) auto

lemma extractLayer_extracted:
  "lists_names E \<Longrightarrow> extractLayer E broken hs st = (r, st') \<Longrightarrow> extracted E st (length hs) (isl r) st'"
proof (induction hs arbitrary: st)
  case Nil
  then show ?case using extracted_refl by (auto simp: stage_fail_def stage_return_def split: if_splits)
next
  case (Cons h hs)
  obtain r1 st1 where b: "begin_entry h st = (r1, st1)" by (cases "begin_entry h st")
  note B = begin_extracted [OF b, of E]
  show ?case
  proof (cases r1)
    case (Inl e)
    then have "st' = st1" "isl r" using Cons.prems(2) b by (auto simp: stage_then_def stage_bind_def)
    then show ?thesis using B Inl by (simp add: extracted_def)
  next
    case (Inr u)
    obtain r2 st2 where a: "applyTarEntry E h st1 = (r2, st2)" by (cases "applyTarEntry E h st1")
    have A: "extracted E st 1 (isl r2) st2"
      using extracted_trans [of E st 1 st1 0] B Inr tame_extracted [OF tame_entry [OF Cons.prems(1)] a] by fastforce
    show ?thesis
    proof (cases r2)
      case (Inl e)
      then have "st' = st2" "isl r" using Cons.prems(2) b Inr a by (auto simp: stage_then_def stage_bind_def)
      then show ?thesis using A Inl by (simp add: extracted_def)
    next
      case (Inr u')
      then have "extractLayer E broken hs st2 = (r, st')" using Cons.prems(2) b \<open>r1 = Inr u\<close> a by (simp add: stage_then_def stage_bind_def)
      from Cons.IH [OF Cons.prems(1) this] show ?thesis using extracted_trans [of E st 1 st2 "length hs"] A Inr by fastforce
    qed
  qed
qed

lemma attempt_extracted:
  "attempt E RemoveStage st = (r, st') \<Longrightarrow> extracted E a n True st \<Longrightarrow> extracted E a n True st'"
  by (auto simp: attempt_def Let_def extracted_def within_def)

lemma layer_extracted:
  assumes "lists_names E" "extract_layer E l st = (r, st')"
  shows "extracted E st (length (ol_entries l)) (isl r) st'"
proof (cases "ol_fetched l")
  case False
  then show ?thesis using assms(2) by (auto simp: extract_layer_def extracted_def within_def)
next
  case True
  obtain r1 st1 where l: "extractLayer E (ol_broken l) (ol_entries l) st = (r1, st1)" by (cases "extractLayer E (ol_broken l) (ol_entries l) st")
  note L = extractLayer_extracted [OF assms(1) l]
  show ?thesis
  proof (cases r1)
    case (Inl e)
    then have f: "extracted E st (length (ol_entries l)) True st1" using L by simp
    have "isl r" "st' = st1 \<or> st' = snd (attempt E RemoveStage st1)"
      using assms(2) True Inl by (auto simp: extract_layer_def l split: if_splits)
    then show ?thesis using f attempt_extracted [of E st1 _ st'] by (cases "attempt E RemoveStage st1") auto
  next
    case (Inr u)
    then have "st' = st1" using assms(2) True by (auto simp: extract_layer_def l split: if_splits)
    then show ?thesis using L Inr by (auto simp: extracted_def within_def split: if_splits)
  qed
qed

lemma layers_extracted:
  "lists_names E \<Longrightarrow> extract_layers E ls st = (r, st') \<Longrightarrow> extracted E st (length (concat (map ol_entries ls))) (isl r) st'"
proof (induction ls arbitrary: st)
  case Nil
  then show ?case using extracted_refl by (auto simp: stage_return_def)
next
  case (Cons x ls)
  obtain r1 st1 where l: "extract_layer E x st = (r1, st1)" by (cases "extract_layer E x st")
  note L = layer_extracted [OF Cons.prems(1) l]
  show ?case
  proof (cases r1)
    case (Inl e)
    then have "st' = st1" "isl r" using Cons.prems(2) l by (auto simp: stage_then_def stage_bind_def)
    then show ?thesis using L Inl by (simp add: extracted_def)
  next
    case (Inr u)
    then have "extract_layers E ls st1 = (r, st')" using Cons.prems(2) l by (simp add: stage_then_def stage_bind_def)
    from Cons.IH [OF Cons.prems(1) this] show ?thesis using extracted_trans [of E st _ st1] L Inr by fastforce
  qed
qed

section \<open>A concrete archive\<close>

definition plain_header :: tar_header where
  "plain_header = \<lparr>th_Name = ''etc/passwd'', th_Linkname = [], th_Uname = [], th_Gname = [], th_Typeflag = TypeReg, th_Mode = 420, th_Uid = 0, th_Gid = 0,
     th_Size = 5, th_ModTime = None, th_PAXRecords = [], th_Devmajor = 0, th_Devminor = 0, th_Data = 5\<rparr>"

definition calm_stage :: stage_env where
  "calm_stage = \<lparr>se_allow = False, se_ok = (\<lambda>_. True), se_copy = (\<lambda>_. None), se_list = (\<lambda>_ _. Listing [''old'']), se_marker = (\<lambda>_. False)\<rparr>"

definition small_budget :: extraction_budget where
  "small_budget = \<lparr>eb_maxBytes = 100, eb_maxEntries = 10, eb_bytes = 0, eb_entries = 0\<rparr>"

lemma calm_lists: "lists_names calm_stage"
  by (auto simp: lists_names_def calm_stage_def proper_def)

definition two_layers :: "oci_layer list" where
  "two_layers = (let l = (\<lambda>hs. \<lparr>ol_fetched = True, ol_entries = hs, ol_broken = False, ol_verified = True\<rparr>) in
     [l [plain_header, plain_header\<lparr>th_Name := ''bin/su'', th_Mode := 0x9ED\<rparr>], l [plain_header\<lparr>th_Name := ''etc/.wh.passwd'', th_Data := 0\<rparr>]])"

definition ops_of :: "stage_state \<Rightarrow> root_op list" where
  "ops_of st = map fst (ss_ops st)"


section \<open>The properties\<close>



text \<open>
  C31. The extraction is bounded by its budget. With the budget of a build of any size, all layers together write at most one byte more
  than the budget allows, and that byte only when the extraction fails; when it succeeds they hold at most as many entries as the budget allows,
  which is at most a million.
\<close>

theorem extraction_bounded:
  assumes "lists_names E" "sizeMiB \<ge> 0" "b = newExtractionBudget sizeMiB autoSize" "extract_layers E ls (fresh_stage b) = (r, st)"
  shows "int (written (ss_ops st)) \<le> eb_maxBytes b + 1 \<and>
    (r = Inr () \<longrightarrow> int (written (ss_ops st)) \<le> eb_maxBytes b \<and> int (length (concat (map ol_entries ls))) \<le> eb_maxEntries b) \<and> eb_maxEntries b \<le> 1000000"
proof -
  have b: "eb_bytes b = 0" "eb_entries b = 0" "eb_maxBytes b \<ge> 0" "eb_maxEntries b \<ge> 0" "eb_maxEntries b \<le> 1000000"
    using assms(2,3) by (auto simp: newExtractionBudget_def Let_def DefaultMaxAutoExtractMiB_def DefaultMaxExtractEntries_def)
  have "within 0 (fresh_stage b)" using b by (simp add: within_def fresh_stage_def)
  then show ?thesis using layers_extracted [OF assms(1,4)] b by (auto simp: extracted_def fresh_stage_def within_def split: if_splits)
qed

theorem extraction_bounded_witness:
  "let (r, st) = extract_layers calm_stage two_layers (fresh_stage (newExtractionBudget 1 False)) in int (written (ss_ops st)) \<le> 1048577"
proof -
  obtain r st where e: "extract_layers calm_stage two_layers (fresh_stage (newExtractionBudget 1 False)) = (r, st)"
    by (cases "extract_layers calm_stage two_layers (fresh_stage (newExtractionBudget 1 False))")
  have m: "eb_maxBytes (newExtractionBudget 1 False) = 1048576" by (simp add: newExtractionBudget_def Let_def)
  show ?thesis using extraction_bounded [OF calm_lists _ refl e] by (simp add: e m)
qed

section \<open>What the checks leave open\<close>

text \<open>The reserved name is checked for the entry and not for the target of a hard link, the record of the root directory keeps its setgid bit
  under the strip policy, and a whiteout of ``..'' removes the parent of its directory.\<close>

lemma ledger_can_be_linked:
  "(MakeLink stageMetadataName ''etc/app'', True) \<in> set (ss_ops (snd (applyTarEntry calm_stage
     (plain_header\<lparr>th_Name := ''etc/app'', th_Typeflag := TypeLink, th_Linkname := stageMetadataName\<rparr>) (fresh_stage small_budget))))"
  by code_simp

lemma root_keeps_setgid:
  "list_ex (\<lambda>x. case fst x of AppendLedger r \<Rightarrow> sr_Mode r AND 0xC00 \<noteq> 0 | _ \<Rightarrow> False) (ss_ops (snd (applyTarEntry calm_stage
     (plain_header\<lparr>th_Name := ''./'', th_Typeflag := TypeDir, th_Mode := 0x5ED\<rparr>) (fresh_stage small_budget))))"
  by code_simp

lemma whiteout_of_parent:
  "ops_of (snd (applyTarEntry calm_stage (plain_header\<lparr>th_Name := ''a/b/.wh...''\<rparr>) (fresh_stage small_budget))) = [RemoveTree ''a'']"
  by code_simp

end
