(* ===== verification/Idempotency.thy ===== *)
theory Idempotency
  imports Go_Prelude
begin

text \<open>
  The idempotency store of the tool server (cmd/microagent/mcp_idempotency.go). A mutating call with an idempotency key runs once; while its
  entry lives, a call with the same key and arguments gets the same result and one with other arguments is refused. Entries are pointers that
  callers keep while the map drops them, so the store has a heap of entries and a map from keys to addresses. The critical sections are
  atomic, and the calls interleave between them. The JSON digest and the catalogue of mutating tools are arguments.
\<close>

section \<open>Arguments and identity\<close>

datatype any = AnyStr string | AnyMap "(string \<times> any) list" | AnyOther string

type_synonym tool_args = "(string, any) gomap"
type_synonym envelope = "(string, any) gomap option"

text \<open>In nanoseconds.\<close>

definition mcpIdempotencyTTL :: duration where "mcpIdempotencyTTL = 15 * 60 * 1000000000"
definition mcpIdempotencyMaxEntries :: int where "mcpIdempotencyMaxEntries = 1024"

definition stringArg :: "tool_args \<Rightarrow> string \<Rightarrow> string" where
  "stringArg args name = (case map_of args name of Some (AnyStr s) \<Rightarrow> TrimSpace s | _ \<Rightarrow> [])"

definition principalContextArg :: "tool_args \<Rightarrow> (string, any) gomap" where
  "principalContextArg args = (case map_of args ''principal'' of
     Some (AnyMap raw) \<Rightarrow> concat (map (\<lambda>key. case map_of raw key of
         Some (AnyStr s) \<Rightarrow> (if TrimSpace s \<noteq> [] then [(key, AnyStr (TrimSpace s))] else []) | _ \<Rightarrow> [])
       [''workload_identity'', ''delegated_authority'', ''purpose'', ''correlation_id''])
   | _ \<Rightarrow> [])"

definition mcpIdempotencyCacheKey :: "(string \<Rightarrow> bool) \<Rightarrow> string \<Rightarrow> tool_args \<Rightarrow> string" where
  "mcpIdempotencyCacheKey mutation name args =
     (let key = stringArg args ''idempotency_key'' in if key = [] \<or> \<not> mutation name then [] else key)"

text \<open>\<open>canonical\<close> is \<open>canonicalMCPDigest\<close>: the digest of the JSON encoding, which may fail.\<close>

definition mcpIdempotencyIdentity :: "(any \<Rightarrow> string option) \<Rightarrow> string \<Rightarrow> tool_args \<Rightarrow> (string \<times> string) option" where
  "mcpIdempotencyIdentity canonical name args =
     (let principal = AList.delete ''correlation_id'' (principalContextArg args);
          arguments = filter (\<lambda>(k, v). k \<noteq> ''idempotency_key'' \<and> k \<noteq> ''principal'') args
      in case canonical (AnyMap [(''tool'', AnyStr name), (''principal'', AnyMap principal)]) of
           None \<Rightarrow> None
         | Some scope \<Rightarrow> (case canonical (AnyMap arguments) of None \<Rightarrow> None | Some digest \<Rightarrow> Some (scope, digest)))"

definition idem_key :: "string \<Rightarrow> string \<Rightarrow> string \<Rightarrow> string" where
  "idem_key name scope key = name @ [CHR 0x00] @ scope @ [CHR 0x00] @ key"

section \<open>The store\<close>

record idem_entry =
  ie_digest :: string
  ie_envelope :: envelope
  ie_err :: "string option"
  ie_running :: bool
  ie_createdAt :: time
  ie_completedAt :: time
  ie_expiresAt :: time

record idem_store =
  im_entries :: "(string, nat) gomap"
  im_heap :: "idem_entry list"
  im_ttl :: duration
  im_maxEntries :: int

definition newMCPIdempotencyStore :: "duration \<Rightarrow> int \<Rightarrow> idem_store" where
  "newMCPIdempotencyStore ttl maxEntries = \<lparr>im_entries = [], im_heap = [], im_ttl = ttl, im_maxEntries = maxEntries\<rparr>"

text \<open>\<open>cloneMCPMap\<close> makes an empty map of a nil one.\<close>

definition cloneMCPMap :: "envelope \<Rightarrow> envelope" where
  "cloneMCPMap e = Some (case e of None \<Rightarrow> [] | Some m \<Rightarrow> m)"

definition lives :: "time \<Rightarrow> idem_store \<Rightarrow> string \<times> nat \<Rightarrow> bool" where
  "lives now s x = (let e = im_heap s ! snd x in ie_running e \<or> ie_expiresAt e > now)"

definition pruneExpiredLocked :: "time \<Rightarrow> idem_store \<Rightarrow> idem_store" where
  "pruneExpiredLocked now s = s\<lparr>im_entries := filter (lives now s) (im_entries s)\<rparr>"

text \<open>The search for the oldest finished entry; the range over the map starts anywhere, which settles a tie.\<close>

fun oldest_from :: "idem_entry list \<Rightarrow> (string \<times> nat) option \<Rightarrow> (string, nat) gomap \<Rightarrow> (string \<times> nat) option" where
  "oldest_from H best [] = best"
| "oldest_from H best (x # xs) =
     (if ie_running (H ! snd x) then oldest_from H best xs
      else (case best of None \<Rightarrow> oldest_from H (Some x) xs
        | Some y \<Rightarrow> oldest_from H (if ie_completedAt (H ! snd x) < ie_completedAt (H ! snd y) then Some x else best) xs))"

lemma oldest_from_in: "oldest_from H best xs = Some x \<Longrightarrow> best = Some x \<or> x \<in> set xs \<and> \<not> ie_running (H ! snd x)"
  by (induction H best xs rule: oldest_from.induct) (auto split: if_splits option.splits)

text \<open>\<open>makeRoomLocked\<close>; \<open>pick n\<close> is where the range over \<open>n\<close> entries starts.\<close>

function makeRoomLocked :: "(nat \<Rightarrow> nat) \<Rightarrow> idem_store \<Rightarrow> bool \<times> idem_store" where
  "makeRoomLocked pick s =
     (if im_maxEntries s \<le> 0 then (False, s)
      else if int (length (im_entries s)) < im_maxEntries s then (True, s)
      else (case oldest_from (im_heap s) None (rotate (pick (length (im_entries s))) (im_entries s)) of
          None \<Rightarrow> (False, s)
        | Some (k, a) \<Rightarrow> makeRoomLocked pick (s\<lparr>im_entries := AList.delete k (im_entries s)\<rparr>)))"
  by pat_completeness auto

termination
proof (relation "measure (\<lambda>(pick, s). length (im_entries s))")
  show "wf (measure (\<lambda>(pick :: nat \<Rightarrow> nat, s). length (im_entries s)))" by simp
next
  fix pick :: "nat \<Rightarrow> nat" and s x k a
  assume "oldest_from (im_heap s) None (rotate (pick (length (im_entries s))) (im_entries s)) = Some x" "(k, a) = x"
  then have "(k, a) \<in> set (im_entries s)" using oldest_from_in by fastforce
  then have "length (AList.delete k (im_entries s)) < length (im_entries s)"
    by (auto simp: AList.delete_eq intro!: length_filter_less)
  then show "((pick, s\<lparr>im_entries := AList.delete k (im_entries s)\<rparr>), pick, s) \<in> measure (\<lambda>(pick, s). length (im_entries s))" by simp
qed

declare makeRoomLocked.simps [simp del]

section \<open>A call\<close>

datatype idem_outcome = RunDirect | IdentityFails | KeyConflict | NoCapacity | WaitFor nat | RunAs nat

text \<open>\<open>Do\<close> up to the execution: its first critical section.\<close>

definition enter_locked :: "(nat \<Rightarrow> nat) \<Rightarrow> time \<Rightarrow> string \<Rightarrow> string \<Rightarrow> idem_store \<Rightarrow> idem_outcome \<times> idem_store" where
  "enter_locked pick now cacheKey digest s =
     (let s1 = pruneExpiredLocked now s in
      case map_of (im_entries s1) cacheKey of
        Some a \<Rightarrow> (if ie_digest (im_heap s1 ! a) \<noteq> digest then (KeyConflict, s1) else (WaitFor a, s1))
      | None \<Rightarrow> (case makeRoomLocked pick s1 of
            (False, s2) \<Rightarrow> (NoCapacity, s2)
          | (True, s2) \<Rightarrow> (let a = length (im_heap s2);
              e = \<lparr>ie_digest = digest, ie_envelope = None, ie_err = None, ie_running = True, ie_createdAt = now, ie_completedAt = 0, ie_expiresAt = 0\<rparr>
              in (RunAs a, s2\<lparr>im_entries := AList.update cacheKey a (im_entries s2), im_heap := im_heap s2 @ [e]\<rparr>))))"

definition idem_begin :: "(any \<Rightarrow> string option) \<Rightarrow> (string \<Rightarrow> bool) \<Rightarrow> (nat \<Rightarrow> nat) \<Rightarrow> time \<Rightarrow> string \<Rightarrow> tool_args \<Rightarrow> idem_store \<Rightarrow> idem_outcome \<times> idem_store" where
  "idem_begin canonical mutation pick now name args s =
     (let key = mcpIdempotencyCacheKey mutation name args in
      if key = [] then (RunDirect, s)
      else (case mcpIdempotencyIdentity canonical name args of
          None \<Rightarrow> (IdentityFails, s)
        | Some (scope, digest) \<Rightarrow> enter_locked pick now (idem_key name scope key) digest s))"

text \<open>The second critical section, after the execution.\<close>

definition idem_finish :: "time \<Rightarrow> nat \<Rightarrow> envelope \<Rightarrow> string option \<Rightarrow> idem_store \<Rightarrow> idem_store" where
  "idem_finish completedAt a env err s = s\<lparr>im_heap := (im_heap s)[a := (im_heap s ! a)\<lparr>ie_envelope := cloneMCPMap env, ie_err := err, ie_running := False,
     ie_completedAt := completedAt, ie_expiresAt := completedAt + im_ttl s\<rparr>]\<rparr>"

text \<open>What a call that waits returns once the entry is ready.\<close>

definition idem_wait :: "nat \<Rightarrow> idem_store \<Rightarrow> (envelope \<times> string option) option" where
  "idem_wait a s = (let e = im_heap s ! a in if ie_running e then None else Some (cloneMCPMap (ie_envelope e), ie_err e))"

section \<open>Interleaved calls\<close>

datatype idem_call = CallWaiting string string nat | CallRunning string string nat

datatype idem_event = Began nat string string nat | Ended nat nat envelope "string option" | Replayed nat string string envelope "string option"

record idem_world =
  iw_store :: idem_store
  iw_calls :: "nat \<Rightarrow> idem_call option"
  iw_log :: "idem_event list"

text \<open>A call with a key enters, finishes its execution, is woken by the entry it waits for, or gives up waiting.\<close>

inductive idem_step :: "idem_world \<Rightarrow> idem_world \<Rightarrow> bool" where
  run: "iw_calls w c = None \<Longrightarrow> enter_locked pick now k d (iw_store w) = (RunAs a, s) \<Longrightarrow>
    idem_step w (w\<lparr>iw_store := s, iw_calls := (iw_calls w)(c \<mapsto> CallRunning k d a), iw_log := iw_log w @ [Began c k d a]\<rparr>)"
| join: "iw_calls w c = None \<Longrightarrow> enter_locked pick now k d (iw_store w) = (WaitFor a, s) \<Longrightarrow>
    idem_step w (w\<lparr>iw_store := s, iw_calls := (iw_calls w)(c \<mapsto> CallWaiting k d a)\<rparr>)"
| refused: "iw_calls w c = None \<Longrightarrow> enter_locked pick now k d (iw_store w) = (x, s) \<Longrightarrow> x = KeyConflict \<or> x = NoCapacity \<Longrightarrow> idem_step w (w\<lparr>iw_store := s\<rparr>)"
| finish: "iw_calls w c = Some (CallRunning k d a) \<Longrightarrow>
    idem_step w (w\<lparr>iw_store := idem_finish now a env err (iw_store w), iw_calls := (iw_calls w)(c := None), iw_log := iw_log w @ [Ended c a env err]\<rparr>)"
| wake: "iw_calls w c = Some (CallWaiting k d a) \<Longrightarrow> idem_wait a (iw_store w) = Some (env, err) \<Longrightarrow>
    idem_step w (w\<lparr>iw_calls := (iw_calls w)(c := None), iw_log := iw_log w @ [Replayed c k d env err]\<rparr>)"
| give_up: "iw_calls w c = Some (CallWaiting k d a) \<Longrightarrow> idem_step w (w\<lparr>iw_calls := (iw_calls w)(c := None)\<rparr>)"

inductive idem_reach :: "duration \<Rightarrow> int \<Rightarrow> idem_world \<Rightarrow> bool" for ttl lim where
  start: "idem_reach ttl lim \<lparr>iw_store = newMCPIdempotencyStore ttl lim, iw_calls = (\<lambda>_. None), iw_log = []\<rparr>"
| step: "idem_reach ttl lim w \<Longrightarrow> idem_step w w' \<Longrightarrow> idem_reach ttl lim w'"

section \<open>The critical sections\<close>

lemma prune_simps [simp]:
  "im_heap (pruneExpiredLocked now s) = im_heap s" "im_ttl (pruneExpiredLocked now s) = im_ttl s" "im_maxEntries (pruneExpiredLocked now s) = im_maxEntries s"
  by (simp_all add: pruneExpiredLocked_def)

lemma map_of_filter_distinct:
  "distinct (map fst xs) \<Longrightarrow> map_of (filter P xs) k = (case map_of xs k of Some v \<Rightarrow> if P (k, v) then Some v else None | None \<Rightarrow> None)"
proof (induction xs)
  case (Cons x xs)
  then show ?case by (cases x) (auto simp: map_of_eq_None_iff image_iff split: option.splits dest: map_of_SomeD)
qed simp

lemma prune_entries:
  "wf_map (im_entries s) \<Longrightarrow> map_of (im_entries (pruneExpiredLocked now s)) k =
     (case map_of (im_entries s) k of Some a \<Rightarrow> if ie_running (im_heap s ! a) \<or> ie_expiresAt (im_heap s ! a) > now then Some a else None | None \<Rightarrow> None)"
  by (auto simp: pruneExpiredLocked_def map_of_filter_distinct wf_map_def lives_def Let_def split: option.splits)

lemma prune_wf: "wf_map (im_entries s) \<Longrightarrow> wf_map (im_entries (pruneExpiredLocked now s))"
  by (simp add: pruneExpiredLocked_def wf_map_def distinct_map_filter)

text \<open>The oldest finished entry is found when there is one.\<close>

lemma oldest_from_least:
  "oldest_from H best xs = Some x \<Longrightarrow> (\<forall>b. best = Some b \<longrightarrow> ie_completedAt (H ! snd x) \<le> ie_completedAt (H ! snd b)) \<and>
     (\<forall>y \<in> set xs. \<not> ie_running (H ! snd y) \<longrightarrow> ie_completedAt (H ! snd x) \<le> ie_completedAt (H ! snd y))"
proof (induction xs arbitrary: best)
  case (Cons y xs)
  show ?case
  proof (cases "ie_running (H ! snd y)")
    case True
    then show ?thesis using Cons by simp
  next
    case False
    obtain b where b: "oldest_from H (Some b) xs = Some x" "ie_completedAt (H ! snd b) \<le> ie_completedAt (H ! snd y)"
      "\<forall>z. best = Some z \<longrightarrow> ie_completedAt (H ! snd b) \<le> ie_completedAt (H ! snd z)"
    proof (cases best)
      case None
      then show ?thesis using that [of y] Cons.prems False by simp
    next
      case (Some z)
      then show ?thesis using that [of "if ie_completedAt (H ! snd y) < ie_completedAt (H ! snd z) then y else z"] Cons.prems False
        by (simp split: if_splits)
    qed
    from Cons.IH [OF b(1)] b(2,3) show ?thesis by (auto intro: order_trans)
  qed
qed simp

lemma oldest_from_None: "oldest_from H best xs = None \<Longrightarrow> best = None \<and> (\<forall>y \<in> set xs. ie_running (H ! snd y))"
proof (induction xs arbitrary: best)
  case (Cons y xs)
  show ?case
  proof (cases "ie_running (H ! snd y)")
    case True
    then show ?thesis using Cons by simp
  next
    case False
    then obtain b where "oldest_from H (Some b) xs = None" using Cons.prems by (cases best) (auto split: if_splits)
    then show ?thesis using Cons.IH by blast
  qed
qed simp

text \<open>Making room removes finished entries only, the oldest first, and only from a full store.\<close>

definition room_from :: "idem_store \<Rightarrow> idem_store \<Rightarrow> bool" where
  "room_from s s' \<longleftrightarrow> (\<exists>es. s' = s\<lparr>im_entries := es\<rparr> \<and> wf_map es \<and>
     (\<forall>k a. map_of es k = Some a \<longrightarrow> map_of (im_entries s) k = Some a) \<and>
     (\<forall>k a. map_of (im_entries s) k = Some a \<and> map_of es k = None \<longrightarrow>
        \<not> ie_running (im_heap s ! a) \<and> int (length (im_entries s)) \<ge> im_maxEntries s \<and>
        (\<forall>k' a'. map_of es k' = Some a' \<and> \<not> ie_running (im_heap s ! a') \<longrightarrow> ie_completedAt (im_heap s ! a) \<le> ie_completedAt (im_heap s ! a'))))"

lemma room_fromD:
  assumes "room_from s s'"
  shows "im_heap s' = im_heap s" "im_ttl s' = im_ttl s" "im_maxEntries s' = im_maxEntries s" "wf_map (im_entries s')"
    "\<And>k a. map_of (im_entries s') k = Some a \<Longrightarrow> map_of (im_entries s) k = Some a"
    "\<And>k a. map_of (im_entries s) k = Some a \<Longrightarrow> ie_running (im_heap s ! a) \<Longrightarrow> map_of (im_entries s') k = Some a"
proof -
  from assms obtain es where es: "s' = s\<lparr>im_entries := es\<rparr>" "wf_map es" "\<forall>k a. map_of es k = Some a \<longrightarrow> map_of (im_entries s) k = Some a"
    "\<forall>k a. map_of (im_entries s) k = Some a \<and> map_of es k = None \<longrightarrow> \<not> ie_running (im_heap s ! a)" unfolding room_from_def by blast
  show "im_heap s' = im_heap s" "im_ttl s' = im_ttl s" "im_maxEntries s' = im_maxEntries s" "wf_map (im_entries s')"
    using es(1,2) by simp_all
  show "map_of (im_entries s) k = Some a" if "map_of (im_entries s') k = Some a" for k a using that es(1,3) by simp
  show "map_of (im_entries s') k = Some a" if "map_of (im_entries s) k = Some a" "ie_running (im_heap s ! a)" for k a
    using that es(1,3,4) by (cases "map_of es k") fastforce+
qed

lemma room_refl: "wf_map (im_entries s) \<Longrightarrow> room_from s s"
  unfolding room_from_def by (rule exI [of _ "im_entries s"]) auto

lemma room_delete:
  assumes wf: "wf_map (im_entries s)" and full: "int (length (im_entries s)) \<ge> im_maxEntries s"
    and least: "oldest_from (im_heap s) None (rotate i (im_entries s)) = Some (k, a)"
    and room: "room_from (s\<lparr>im_entries := AList.delete k (im_entries s)\<rparr>) s'"
  shows "room_from s s'"
proof -
  let ?d = "AList.delete k (im_entries s)"
  obtain es where es: "s' = s\<lparr>im_entries := es\<rparr>" "wf_map es" "\<forall>k a. map_of es k = Some a \<longrightarrow> map_of ?d k = Some a"
    "\<forall>k a. map_of ?d k = Some a \<and> map_of es k = None \<longrightarrow> \<not> ie_running (im_heap s ! a) \<and>
        (\<forall>k' a'. map_of es k' = Some a' \<and> \<not> ie_running (im_heap s ! a') \<longrightarrow> ie_completedAt (im_heap s ! a) \<le> ie_completedAt (im_heap s ! a'))"
  proof -
    have eq: "im_heap (s\<lparr>im_entries := ?d\<rparr>) = im_heap s" "im_maxEntries (s\<lparr>im_entries := ?d\<rparr>) = im_maxEntries s"
      "im_entries (s\<lparr>im_entries := ?d\<rparr>) = ?d" by simp_all
    from room obtain es where "s' = (s\<lparr>im_entries := ?d\<rparr>)\<lparr>im_entries := es\<rparr>" "wf_map es" and R: "\<forall>k a. map_of es k = Some a \<longrightarrow> map_of ?d k = Some a"
      "\<forall>k a. map_of ?d k = Some a \<and> map_of es k = None \<longrightarrow> \<not> ie_running (im_heap s ! a) \<and> int (length ?d) \<ge> im_maxEntries s \<and>
        (\<forall>k' a'. map_of es k' = Some a' \<and> \<not> ie_running (im_heap s ! a') \<longrightarrow> ie_completedAt (im_heap s ! a) \<le> ie_completedAt (im_heap s ! a'))"
      unfolding room_from_def eq by blast
    then show thesis using that [of es] by fastforce
  qed
  have ka: "(k, a) \<in> set (im_entries s)" "\<not> ie_running (im_heap s ! a)" using oldest_from_in [OF least] by auto
  have min: "\<forall>y \<in> set (im_entries s). \<not> ie_running (im_heap s ! snd y) \<longrightarrow> ie_completedAt (im_heap s ! a) \<le> ie_completedAt (im_heap s ! snd y)"
    using oldest_from_least [OF least] by simp
  have mo: "map_of (im_entries s) k = Some a" using ka(1) wf by (simp add: wf_map_def)
  show ?thesis
    unfolding room_from_def
  proof (rule exI [of _ es], intro conjI allI impI; (elim conjE)?)
    show "s' = s\<lparr>im_entries := es\<rparr>" "wf_map es" by (fact es)+
    show "map_of (im_entries s) k' = Some a'" if "map_of es k' = Some a'" for k' a'
      using that es(3) [rule_format, OF that] by (simp split: if_splits)
  next
    fix k1 a1 assume g: "map_of (im_entries s) k1 = Some a1" "map_of es k1 = None"
    note rest = es(4) [rule_format, of k1 a1]
    show "\<not> ie_running (im_heap s ! a1)" using g rest mo ka(2) by (cases "k1 = k") auto
    show "int (length (im_entries s)) \<ge> im_maxEntries s" by (fact full)
    fix k' a' assume e: "map_of es k' = Some a'" "\<not> ie_running (im_heap s ! a')"
    from es(3) [rule_format, OF e(1)] have "(k', a') \<in> set (im_entries s)" by (auto dest!: map_of_SomeD split: if_splits)
    then have "ie_completedAt (im_heap s ! a) \<le> ie_completedAt (im_heap s ! a')" using min e(2) by fastforce
    then show "ie_completedAt (im_heap s ! a1) \<le> ie_completedAt (im_heap s ! a')" using g rest mo e by (cases "k1 = k") auto
  qed
qed

lemma makeRoom_spec:
  "wf_map (im_entries s) \<Longrightarrow> makeRoomLocked pick s = (ok, s') \<Longrightarrow> room_from s s' \<and>
     (if ok then int (length (im_entries s')) < im_maxEntries s else im_maxEntries s \<le> 0 \<or> (\<forall>(k, a) \<in> set (im_entries s'). ie_running (im_heap s ! a)) \<and> length (im_entries s') \<le> length (im_entries s))"
proof (induction pick s rule: makeRoomLocked.induct)
  case (1 pick s)
  let ?o = "oldest_from (im_heap s) None (rotate (pick (length (im_entries s))) (im_entries s))"
  consider (small) "im_maxEntries s \<le> 0 \<or> int (length (im_entries s)) < im_maxEntries s"
    | (stuck) "\<not> (im_maxEntries s \<le> 0)" "\<not> int (length (im_entries s)) < im_maxEntries s" "?o = None"
    | (drop) k a where "\<not> (im_maxEntries s \<le> 0)" "\<not> int (length (im_entries s)) < im_maxEntries s" "?o = Some (k, a)"
    by (cases ?o) auto
  then show ?case
  proof cases
    case small
    then show ?thesis using "1.prems" room_refl [OF "1.prems"(1)] by (auto simp: makeRoomLocked.simps [of pick s] split: if_splits)
  next
    case stuck
    then have "s' = s" "\<not> ok" using "1.prems"(2) by (auto simp: makeRoomLocked.simps [of pick s])
    then show ?thesis using room_refl [OF "1.prems"(1)] oldest_from_None [OF stuck(3)] by auto
  next
    case drop
    let ?s = "s\<lparr>im_entries := AList.delete k (im_entries s)\<rparr>"
    have m: "makeRoomLocked pick ?s = (ok, s')" using "1.prems"(2) drop by (simp add: makeRoomLocked.simps [of pick s])
    have "wf_map (im_entries ?s)" using "1.prems"(1) by simp
    from "1.IH" [OF drop(1,2,3) refl this m] room_delete [OF "1.prems"(1) _ drop(3), of s'] drop(2)
      length_delete_le [of k "im_entries s"] show ?thesis
      by (auto split: if_splits)
  qed
qed

section \<open>Entering\<close>

lemma enter_cases:
  assumes "wf_map (im_entries s)" "enter_locked pick now k d s = (x, s')"
  obtains (found) a where "map_of (im_entries s) k = Some a" "s' = pruneExpiredLocked now s"
      "x = (if ie_digest (im_heap s ! a) \<noteq> d then KeyConflict else WaitFor a)"
  | (full) "x = NoCapacity" "room_from (pruneExpiredLocked now s) s'" "im_maxEntries s \<le> 0 \<or> length (im_entries s') \<le> length (im_entries s)"
  | (fresh) s2 e where "x = RunAs (length (im_heap s))" "room_from (pruneExpiredLocked now s) s2" "int (length (im_entries s2)) < im_maxEntries s"
      "map_of (im_entries s2) k = None" "s' = s2\<lparr>im_entries := AList.update k (length (im_heap s)) (im_entries s2), im_heap := im_heap s @ [e]\<rparr>"
      "ie_digest e = d" "ie_running e"
proof -
  let ?p = "pruneExpiredLocked now s"
  note wp = prune_wf [OF assms(1), of now]
  show thesis
  proof (cases "map_of (im_entries ?p) k")
    case (Some a)
    then have "map_of (im_entries s) k = Some a" using prune_entries [OF assms(1), of now k] by (auto split: option.splits if_splits)
    then show thesis using found [of a] assms(2) Some by (auto simp: enter_locked_def Let_def split: if_splits)
  next
    case None
    obtain ok s2 where m: "makeRoomLocked pick ?p = (ok, s2)" by (cases "makeRoomLocked pick ?p")
    note M = makeRoom_spec [OF wp m]
    have le: "length (im_entries ?p) \<le> length (im_entries s)" by (simp add: pruneExpiredLocked_def)
    show thesis
    proof (cases ok)
      case False
      then show thesis using full assms(2) None m M le by (auto simp: enter_locked_def Let_def)
    next
      case True
      have r: "room_from ?p s2" using M by simp
      have n: "map_of (im_entries s2) k = None" using None room_fromD(5) [OF r, of k] by (cases "map_of (im_entries s2) k") auto
      show thesis using fresh [OF _ r _ n] assms(2) None m M True room_fromD(1) [OF r] by (auto simp: enter_locked_def Let_def)
    qed
  qed
qed

section \<open>The invariant of interleaved calls\<close>

text \<open>The address of an entry is that of one execution; a finished entry holds the result of its execution.\<close>

definition entry_sound :: "idem_event list \<Rightarrow> idem_entry list \<Rightarrow> nat \<Rightarrow> bool" where
  "entry_sound L H a \<longleftrightarrow> (\<exists>c k. Began c k (ie_digest (H ! a)) a \<in> set L) \<and>
     (\<not> ie_running (H ! a) \<longrightarrow> (\<exists>c env. Ended c a env (ie_err (H ! a)) \<in> set L \<and> ie_envelope (H ! a) = cloneMCPMap env))"

definition call_sound :: "idem_event list \<Rightarrow> idem_store \<Rightarrow> nat \<Rightarrow> idem_call \<Rightarrow> bool" where
  "call_sound L s c x = (case x of
       CallRunning k d a \<Rightarrow> a < length (im_heap s) \<and> map_of (im_entries s) k = Some a \<and> ie_running (im_heap s ! a) \<and> Began c k d a \<in> set L
     | CallWaiting k d a \<Rightarrow> a < length (im_heap s) \<and> ie_digest (im_heap s ! a) = d \<and> (\<exists>c1. Began c1 k d a \<in> set L))"

definition replay_sound :: "idem_event list \<Rightarrow> bool" where
  "replay_sound L \<longleftrightarrow> (\<forall>c k d env err. Replayed c k d env err \<in> set L \<longrightarrow>
     (\<exists>c1 a env'. Began c1 k d a \<in> set L \<and> Ended c1 a env' err \<in> set L \<and> env = cloneMCPMap env'))"

definition log_sound :: "idem_event list \<Rightarrow> nat \<Rightarrow> bool" where
  "log_sound L n \<longleftrightarrow> (\<forall>c k d a. Began c k d a \<in> set L \<longrightarrow> a < n \<and> (\<forall>c' k' d'. Began c' k' d' a \<in> set L \<longrightarrow> c' = c \<and> k' = k \<and> d' = d)) \<and>
     (\<forall>c a env err. Ended c a env err \<in> set L \<longrightarrow> (\<exists>k d. Began c k d a \<in> set L))"

definition store_sound :: "idem_event list \<Rightarrow> idem_store \<Rightarrow> bool" where
  "store_sound L s \<longleftrightarrow> wf_map (im_entries s) \<and> int (length (im_entries s)) \<le> max 0 (im_maxEntries s) \<and>
     (\<forall>a < length (im_heap s). entry_sound L (im_heap s) a) \<and>
     (\<forall>k a. map_of (im_entries s) k = Some a \<longrightarrow> a < length (im_heap s) \<and> (\<exists>c. Began c k (ie_digest (im_heap s ! a)) a \<in> set L))"

definition idem_inv :: "idem_world \<Rightarrow> bool" where
  "idem_inv w \<longleftrightarrow> store_sound (iw_log w) (iw_store w) \<and> replay_sound (iw_log w) \<and> log_sound (iw_log w) (length (im_heap (iw_store w))) \<and>
     (\<forall>c x. iw_calls w c = Some x \<longrightarrow> call_sound (iw_log w) (iw_store w) c x) \<and>
     (\<forall>c c' k k' d d' a. iw_calls w c = Some (CallRunning k d a) \<and> iw_calls w c' = Some (CallRunning k' d' a) \<longrightarrow> c = c')"

lemma room_store_sound:
  assumes "store_sound L s" "room_from (pruneExpiredLocked now s) s'"
  shows "store_sound L s'"
proof -
  have wf: "wf_map (im_entries s)" using assms(1) by (simp add: store_sound_def)
  note R = room_fromD [OF assms(2)]
  have sub: "map_of (im_entries s') k = Some a \<Longrightarrow> map_of (im_entries s) k = Some a" for k a
    using R(5) [of k a] prune_entries [OF wf, of now k] by (auto split: option.splits if_splits)
  have "set (map fst (im_entries s')) \<subseteq> set (map fst (im_entries s))"
  proof
    fix k assume "k \<in> set (map fst (im_entries s'))"
    then obtain a where "map_of (im_entries s') k = Some a" by (metis list.set_map map_of_eq_None_iff not_None_eq)
    from sub [OF this] show "k \<in> set (map fst (im_entries s))" by (force dest: map_of_SomeD)
  qed
  then have "length (im_entries s') \<le> length (im_entries s)"
    using R(4) wf card_mono [of "set (map fst (im_entries s))" "set (map fst (im_entries s'))"]
    by (simp add: wf_map_def distinct_card [symmetric, of "map fst (im_entries s')"] distinct_card [symmetric, of "map fst (im_entries s)"] flip: length_map [of fst] del: length_map)
  then have "int (length (im_entries s')) \<le> max 0 (im_maxEntries s')" using assms(1) R(3) by (simp add: store_sound_def)
  moreover have "\<forall>a < length (im_heap s'). entry_sound L (im_heap s') a" using assms(1) R(1) by (simp add: store_sound_def)
  moreover have "a < length (im_heap s') \<and> (\<exists>c. Began c k (ie_digest (im_heap s' ! a)) a \<in> set L)" if "map_of (im_entries s') k = Some a" for k a
    using assms(1) R(1) sub [OF that] by (simp add: store_sound_def)
  ultimately show ?thesis using R(4) by (simp add: store_sound_def)
qed

lemma sound_mono:
  "entry_sound L H a \<Longrightarrow> entry_sound (L @ M) H a" "call_sound L s c x \<Longrightarrow> call_sound (L @ M) s c x" "store_sound L s \<Longrightarrow> store_sound (L @ M) s"
proof -
  show e: "entry_sound L H a \<Longrightarrow> entry_sound (L @ M) H a" for H a by (auto simp: entry_sound_def; blast)
  show "call_sound L s c x \<Longrightarrow> call_sound (L @ M) s c x" by (auto simp: call_sound_def split: idem_call.splits)
  show "store_sound L s \<Longrightarrow> store_sound (L @ M) s" using e unfolding store_sound_def set_append Un_iff by meson
qed

text \<open>Entering keeps running entries in the map and all entries on the heap.\<close>

definition kept :: "idem_store \<Rightarrow> idem_store \<Rightarrow> bool" where
  "kept s s' \<longleftrightarrow> length (im_heap s) \<le> length (im_heap s') \<and> (\<forall>a < length (im_heap s). im_heap s' ! a = im_heap s ! a) \<and>
     (\<forall>k a. map_of (im_entries s) k = Some a \<and> ie_running (im_heap s ! a) \<longrightarrow> map_of (im_entries s') k = Some a)"

lemma call_kept: "call_sound L s c x \<Longrightarrow> kept s s' \<Longrightarrow> call_sound L s' c x"
  unfolding call_sound_def kept_def by (auto split: idem_call.splits)

lemma prune_kept: "wf_map (im_entries s) \<Longrightarrow> kept s (pruneExpiredLocked now s)"
  by (auto simp: kept_def prune_entries)

lemma room_kept: "wf_map (im_entries s) \<Longrightarrow> room_from (pruneExpiredLocked now s) s' \<Longrightarrow> kept s s'"
  using room_fromD [of "pruneExpiredLocked now s" s'] by (auto simp: kept_def prune_entries)

lemma entry_sound_append: "a < length H \<Longrightarrow> entry_sound L (H @ [e]) a = entry_sound L H a"
  by (simp add: entry_sound_def nth_append)

lemma enter_sound:
  assumes S: "store_sound L s" and e: "enter_locked pick now k d s = (x, s')"
  shows "kept s s'" "\<And>a. x = RunAs a \<Longrightarrow> a = length (im_heap s) \<and> store_sound (L @ [Began c k d a]) s' \<and> call_sound (L @ [Began c k d a]) s' c (CallRunning k d a)"
    "(\<And>a. x \<noteq> RunAs a) \<Longrightarrow> store_sound L s'" "\<And>a. x = WaitFor a \<Longrightarrow> call_sound L s' c (CallWaiting k d a)"
proof -
  have wf: "wf_map (im_entries s)" using S by (simp add: store_sound_def)
  have sub: "store_sound L (pruneExpiredLocked now s)" using room_store_sound [OF S room_refl [OF prune_wf [OF wf]]] .
  have "kept s s' \<and> (\<forall>a. x = RunAs a \<longrightarrow> a = length (im_heap s) \<and> store_sound (L @ [Began c k d a]) s' \<and> call_sound (L @ [Began c k d a]) s' c (CallRunning k d a)) \<and>
    ((\<forall>a. x \<noteq> RunAs a) \<longrightarrow> store_sound L s') \<and> (\<forall>a. x = WaitFor a \<longrightarrow> call_sound L s' c (CallWaiting k d a))"
    using wf e
  proof (cases rule: enter_cases)
    case (found a)
    have "a < length (im_heap s) \<and> (\<exists>c. Began c k (ie_digest (im_heap s ! a)) a \<in> set L)" using S found(1) by (simp add: store_sound_def)
    then show ?thesis using found sub prune_kept [OF wf] by (auto simp: call_sound_def)
  next
    case full
    then show ?thesis using room_store_sound [OF S] room_kept [OF wf] by simp
  next
    case (fresh s2 e')
    let ?L = "L @ [Began c k d (length (im_heap s))]"
    note S2 = room_store_sound [OF S fresh(2)]
    have h: "im_heap s2 = im_heap s" "im_maxEntries s2 = im_maxEntries s" using room_fromD(1,3) [OF fresh(2)] by simp_all
    have k2: "kept s s2" using room_kept [OF wf fresh(2)] .
    have "kept s s'" using k2 fresh(4,5) h by (auto simp: kept_def nth_append)
    moreover have "store_sound ?L s'"
      unfolding store_sound_def
    proof (intro conjI allI impI)
      show "wf_map (im_entries s')" using S2 fresh(5) by (simp add: store_sound_def)
      show "int (length (im_entries s')) \<le> max 0 (im_maxEntries s')"
        using fresh(3,5) h length_alist_update_le [of k "length (im_heap s)" "im_entries s2"] by simp
      show "entry_sound ?L (im_heap s') a" if "a < length (im_heap s')" for a
        using that S fresh(5,6,7) h sound_mono(1) [of L "im_heap s" a]
        by (cases "a = length (im_heap s)") (auto simp: store_sound_def entry_sound_append, auto simp: entry_sound_def)
      show "a < length (im_heap s')" if "map_of (im_entries s') k' = Some a" for k' a
        using that S2 fresh(5) h by (fastforce simp: store_sound_def split: if_splits)
      show "\<exists>c. Began c k' (ie_digest (im_heap s' ! a)) a \<in> set ?L" if m: "map_of (im_entries s') k' = Some a" for k' a
      proof (cases "k' = k")
        case True
        then have "a = length (im_heap s)" using m fresh(5) h by simp
        then show ?thesis using True fresh(5,6) h by auto
      next
        case False
        then have "map_of (im_entries s2) k' = Some a" using m fresh(5) by simp
        then have "a < length (im_heap s) \<and> (\<exists>c. Began c k' (ie_digest (im_heap s ! a)) a \<in> set L)" using S2 h by (simp add: store_sound_def)
        then show ?thesis using fresh(5) h by (auto simp: nth_append)
      qed
    qed
    moreover have "call_sound ?L s' c (CallRunning k d (length (im_heap s)))" using fresh(5,7) h by (simp add: call_sound_def)
    ultimately show ?thesis using fresh(1) by simp
  qed
  then show "kept s s'" "\<And>a. x = RunAs a \<Longrightarrow> a = length (im_heap s) \<and> store_sound (L @ [Began c k d a]) s' \<and> call_sound (L @ [Began c k d a]) s' c (CallRunning k d a)"
    "(\<And>a. x \<noteq> RunAs a) \<Longrightarrow> store_sound L s'" "\<And>a. x = WaitFor a \<Longrightarrow> call_sound L s' c (CallWaiting k d a)" by blast+
qed

lemma finish_heap:
  "b < length (im_heap s) \<Longrightarrow> ie_digest (im_heap (idem_finish now a env err s) ! b) = ie_digest (im_heap s ! b)"
  "b \<noteq> a \<Longrightarrow> im_heap (idem_finish now a env err s) ! b = im_heap s ! b"
  by (cases "b = a"; simp add: idem_finish_def)+

lemma finish_fields [simp]:
  "length (im_heap (idem_finish now a env err s)) = length (im_heap s)" "im_entries (idem_finish now a env err s) = im_entries s"
  "im_maxEntries (idem_finish now a env err s) = im_maxEntries s"
  by (simp_all add: idem_finish_def)

lemma finish_sound:
  assumes S: "store_sound L s" and a: "a < length (im_heap s)"
  shows "store_sound (L @ [Ended c a env err]) (idem_finish now a env err s)"
proof -
  let ?H = "im_heap (idem_finish now a env err s)" and ?L = "L @ [Ended c a env err]"
  have n: "length ?H = length (im_heap s)" by (simp add: idem_finish_def)
  have d: "ie_digest (?H ! b) = ie_digest (im_heap s ! b)" if "b < length (im_heap s)" for b
    using finish_heap that by simp
  have e: "entry_sound ?L ?H b" if b: "b < length (im_heap s)" for b
  proof (cases "b = a")
    case True
    have "entry_sound L (im_heap s) a" using S a by (simp add: store_sound_def)
    then obtain c0 k where "Began c0 k (ie_digest (im_heap s ! a)) a \<in> set L" unfolding entry_sound_def by blast
    then show ?thesis using True a by (auto simp: entry_sound_def idem_finish_def)
  next
    case False
    then have "?H ! b = im_heap s ! b" by (simp add: idem_finish_def)
    moreover have "entry_sound L (im_heap s) b" using S b by (simp add: store_sound_def)
    ultimately have "entry_sound L ?H b" by (simp add: entry_sound_def)
    then show ?thesis by (rule sound_mono)
  qed
  have "im_entries (idem_finish now a env err s) = im_entries s" "im_maxEntries (idem_finish now a env err s) = im_maxEntries s"
    by (simp_all add: idem_finish_def)
  moreover have "b < length (im_heap s) \<and> (\<exists>c. Began c k (ie_digest (?H ! b)) b \<in> set ?L)" if "map_of (im_entries s) k = Some b" for k b
    using S that d by (auto simp: store_sound_def)
  ultimately show ?thesis using S n e by (auto simp: store_sound_def)
qed

lemma call_finish:
  assumes "call_sound L s c x" "\<And>k d. x \<noteq> CallRunning k d a"
  shows "call_sound L (idem_finish now a env err s) c x"
proof (cases x)
  case (CallWaiting k d b)
  then show ?thesis using assms(1) finish_heap(1) [of b s now a env err] by (simp add: call_sound_def)
next
  case (CallRunning k d b)
  then have "b \<noteq> a" using assms(2) by blast
  then show ?thesis using assms(1) CallRunning finish_heap(2) [of b a now env err s] by (simp add: call_sound_def)
qed

lemma replay_sound_snoc:
  assumes "replay_sound L" "\<And>c k d env err. e = Replayed c k d env err \<Longrightarrow>
     \<exists>c1 a env'. Began c1 k d a \<in> set L \<and> Ended c1 a env' err \<in> set L \<and> env = cloneMCPMap env'"
  shows "replay_sound (L @ [e])"
  unfolding replay_sound_def
proof (intro allI impI)
  fix c k d env err
  assume "Replayed c k d env err \<in> set (L @ [e])"
  then consider "Replayed c k d env err \<in> set L" | "e = Replayed c k d env err" by auto
  then obtain c1 a env' where "Began c1 k d a \<in> set L" "Ended c1 a env' err \<in> set L" "env = cloneMCPMap env'"
    using assms by (cases; simp add: replay_sound_def; blast)
  then show "\<exists>c1 a env'. Began c1 k d a \<in> set (L @ [e]) \<and> Ended c1 a env' err \<in> set (L @ [e]) \<and> env = cloneMCPMap env'" by auto
qed

lemma log_sound_began:
  assumes "log_sound L n"
  shows "log_sound (L @ [Began c k d n]) (Suc n)"
proof -
  have lt: "Began c' k' d' a \<in> set L \<Longrightarrow> a < n" for c' k' d' a using assms by (simp add: log_sound_def)
  have un: "Began c1 k1 d1 a \<in> set L \<Longrightarrow> Began c2 k2 d2 a \<in> set L \<Longrightarrow> c2 = c1 \<and> k2 = k1 \<and> d2 = d1" for c1 k1 d1 c2 k2 d2 a
    using assms by (simp add: log_sound_def)
  have en: "Ended c' a env err \<in> set L \<Longrightarrow> \<exists>k d. Began c' k d a \<in> set L" for c' a env err using assms unfolding log_sound_def by blast
  have "a < Suc n \<and> (\<forall>c2 k2 d2. Began c2 k2 d2 a \<in> set (L @ [Began c k d n]) \<longrightarrow> c2 = c1 \<and> k2 = k1 \<and> d2 = d1)"
    if "Began c1 k1 d1 a \<in> set (L @ [Began c k d n])" for c1 k1 d1 a
    using that lt [of c1 k1 d1 a] lt [of _ _ _ a] un [of c1 k1 d1 a] by fastforce
  moreover have "\<exists>k' d'. Began c' k' d' a \<in> set (L @ [Began c k d n])" if "Ended c' a env err \<in> set (L @ [Began c k d n])" for c' a env err
    using that en [of c' a env err] by auto
  ultimately show ?thesis unfolding log_sound_def by blast
qed

lemma log_sound_ended:
  assumes "log_sound L n" "Began c k d a \<in> set L"
  shows "log_sound (L @ [Ended c a env err]) n"
proof -
  have "\<exists>k d. Began c' k d b \<in> set L" if "Ended c' b env' err' \<in> set (L @ [Ended c a env err])" for c' b env' err'
  proof (cases "Ended c' b env' err' \<in> set L")
    case True
    then show ?thesis using assms(1) unfolding log_sound_def by blast
  next
    case False
    then show ?thesis using that assms(2) by auto
  qed
  then show ?thesis using assms(1) unfolding log_sound_def by simp
qed

lemma log_sound_replayed: "log_sound L n \<Longrightarrow> log_sound (L @ [Replayed c k d env err]) n"
  by (auto simp: log_sound_def)

lemma replay_sound_wake:
  assumes "replay_sound L" "log_sound L n" "store_sound L s" "call_sound L s c (CallWaiting k d a)" "idem_wait a s = Some (env, err)"
  shows "replay_sound (L @ [Replayed c k d env err])"
proof -
  have a: "a < length (im_heap s)" and nr: "\<not> ie_running (im_heap s ! a)" and env: "env = cloneMCPMap (ie_envelope (im_heap s ! a))" "err = ie_err (im_heap s ! a)"
    using assms(4,5) by (auto simp: call_sound_def idem_wait_def Let_def split: if_splits)
  obtain c1 where b: "Began c1 k d a \<in> set L" using assms(4) by (auto simp: call_sound_def)
  obtain c2 env' where e: "Ended c2 a env' err \<in> set L" "ie_envelope (im_heap s ! a) = cloneMCPMap env'"
    using assms(3) a nr env(2) by (auto simp: store_sound_def entry_sound_def)
  then have "c2 = c1" using assms(2) b unfolding log_sound_def by blast
  moreover have "env = cloneMCPMap env'" using env(1) e(2) by (simp add: cloneMCPMap_def)
  ultimately show ?thesis using assms(1) b e(1) by (intro replay_sound_snoc) auto
qed

lemma idem_inv_step:
  assumes I: "idem_inv w" and st: "idem_step w w'"
  shows "idem_inv w'"
proof -
  have S: "store_sound (iw_log w) (iw_store w)" and R: "replay_sound (iw_log w)" and G: "log_sound (iw_log w) (length (im_heap (iw_store w)))"
    and C: "\<And>c x. iw_calls w c = Some x \<Longrightarrow> call_sound (iw_log w) (iw_store w) c x"
    and U: "\<And>c c' k k' d d' a. iw_calls w c = Some (CallRunning k d a) \<Longrightarrow> iw_calls w c' = Some (CallRunning k' d' a) \<Longrightarrow> c = c'"
    using I unfolding idem_inv_def by blast+
  have lt: "iw_calls w c = Some (CallRunning k d a) \<Longrightarrow> a < length (im_heap (iw_store w))" for c k d a using C [of c] by (simp add: call_sound_def)
  from st show ?thesis
  proof cases
    case (run c pick now k d a s)
    note E = enter_sound [OF S run(3)]
    have r: "store_sound (iw_log w @ [Began c k d a]) s" "call_sound (iw_log w @ [Began c k d a]) s c (CallRunning k d a)"
      using E(2) [OF refl] by blast+
    have a: "a = length (im_heap (iw_store w))" "length (im_heap s) = Suc a" using E(2) [of a c] run(3) by (auto simp: enter_locked_def Let_def split: option.splits prod.splits if_splits bool.splits)
    show ?thesis
      unfolding idem_inv_def
    proof (intro conjI allI impI; (elim conjE)?)
      show "store_sound (iw_log w') (iw_store w')" using r(1) run(1) by simp
      show "replay_sound (iw_log w')" unfolding run(1) by simp (rule replay_sound_snoc [OF R], simp)
      show "log_sound (iw_log w') (length (im_heap (iw_store w')))" using log_sound_began [OF G] a run(1) by simp
      show "call_sound (iw_log w') (iw_store w') c' x" if "iw_calls w' c' = Some x" for c' x
        using that r(2) C [of c'] call_kept [OF _ E(1)] sound_mono(2) run(1) by (auto split: if_splits)
      show "c1 = c2" if "iw_calls w' c1 = Some (CallRunning k1 d1 a1)" "iw_calls w' c2 = Some (CallRunning k2 d2 a1)" for c1 c2 k1 k2 d1 d2 a1
        using that U [of c1 k1 d1 a1 c2] lt [of c1 k1 d1 a1] lt [of c2 k2 d2 a1] a(1) run(1) by (auto split: if_splits)
    qed
  next
    case (join c pick now k d a s)
    note E = enter_sound [OF S join(3)]
    have "length (im_heap s) = length (im_heap (iw_store w))" using join(3) by (auto simp: enter_locked_def Let_def split: option.splits prod.splits if_splits bool.splits)
    then show ?thesis using E(3) E(4) [of a c] C call_kept [OF _ E(1)] R G U join(1) unfolding idem_inv_def by (auto split: if_splits)
  next
    case (refused c pick now k d x s)
    note E = enter_sound [OF S refused(3)]
    have "length (im_heap (iw_store w)) \<le> length (im_heap s)" using E(1) by (simp add: kept_def)
    then have "log_sound (iw_log w) (length (im_heap s))" using G unfolding log_sound_def by (meson less_le_trans)
    then show ?thesis using E(3) C call_kept [OF _ E(1)] R U refused(1,4) unfolding idem_inv_def by auto
  next
    case (finish c k d a now env err)
    have b: "Began c k d a \<in> set (iw_log w)" "a < length (im_heap (iw_store w))" using C [OF finish(2)] by (simp_all add: call_sound_def)
    show ?thesis
      unfolding idem_inv_def
    proof (intro conjI allI impI; (elim conjE)?)
      show "store_sound (iw_log w') (iw_store w')" using finish_sound [OF S b(2)] finish(1) by simp
      show "replay_sound (iw_log w')" unfolding finish(1) by simp (rule replay_sound_snoc [OF R], simp)
      show "log_sound (iw_log w') (length (im_heap (iw_store w')))" using log_sound_ended [OF G b(1)] finish(1) by simp
      show "call_sound (iw_log w') (iw_store w') c' x" if "iw_calls w' c' = Some x" for c' x
      proof -
        have c: "c' \<noteq> c" "iw_calls w c' = Some x" using that finish(1) by (auto split: if_splits)
        then have "x \<noteq> CallRunning k' d' a" for k' d' using U [OF finish(2)] by blast
        from call_finish [OF C [OF c(2)] this] show ?thesis using sound_mono(2) finish(1) by simp
      qed
      show "c1 = c2" if "iw_calls w' c1 = Some (CallRunning k1 d1 a1)" "iw_calls w' c2 = Some (CallRunning k2 d2 a1)" for c1 c2 k1 k2 d1 d2 a1
        using that U finish(1) by (auto split: if_splits)
    qed
  next
    case (wake c k d a env err)
    note W = replay_sound_wake [OF R G S C [OF wake(2)] wake(3)]
    show ?thesis using W log_sound_replayed [OF G] sound_mono(3) [OF S] C sound_mono(2) U wake(1) unfolding idem_inv_def by (auto split: if_splits)
  next
    case (give_up c k d a)
    then show ?thesis using R G S C U unfolding idem_inv_def by (auto split: if_splits)
  qed
qed

lemma idem_reach_inv: "idem_reach ttl lim w \<Longrightarrow> idem_inv w \<and> im_maxEntries (iw_store w) = lim \<and> im_ttl (iw_store w) = ttl"
proof (induction rule: idem_reach.induct)
  case start
  then show ?case by (simp add: idem_inv_def store_sound_def replay_sound_def log_sound_def newMCPIdempotencyStore_def)
next
  case (step w w')
  have wf: "wf_map (im_entries (iw_store w))" using step.IH by (simp add: idem_inv_def store_sound_def)
  have same: "im_maxEntries s = im_maxEntries (iw_store w) \<and> im_ttl s = im_ttl (iw_store w)" if "enter_locked pick now k d (iw_store w) = (x, s)" for pick now k d x s
    using wf that by (cases rule: enter_cases) (auto dest: room_fromD(2,3))
  from step.hyps(2) have "im_maxEntries (iw_store w') = im_maxEntries (iw_store w) \<and> im_ttl (iw_store w') = im_ttl (iw_store w)"
    by cases (use same in \<open>fastforce simp: idem_finish_def\<close>)+
  then show ?case using step.IH idem_inv_step [OF _ step.hyps(2)] by simp
qed

end
