(* ===== verification/IdemClaims.thy ===== *)
theory IdemClaims
  imports Idempotency
begin

text \<open>The properties of the idempotency store, with a concrete sequence of calls.\<close>

section \<open>Keys\<close>

text \<open>Calls of different tools or principals never share an entry: the tool and the digest of the principal have no NUL.\<close>

lemma idem_key_inj:
  assumes "CHR 0x00 \<notin> set name" "CHR 0x00 \<notin> set name'" "CHR 0x00 \<notin> set scope" "CHR 0x00 \<notin> set scope'"
    "idem_key name scope key = idem_key name' scope' key'"
  shows "name = name' \<and> scope = scope' \<and> key = key'"
proof -
  have split: "xs = ys \<and> r = r'" if "z \<notin> set xs" "z \<notin> set ys" "xs @ z # r = ys @ z # r'" for z :: char and xs ys r r'
    using that
  proof (induction xs arbitrary: ys)
    case Nil
    then show ?case by (cases ys) auto
  next
    case (Cons x xs)
    then show ?case by (cases ys) auto
  qed
  from assms(5) have "name @ CHR 0x00 # (scope @ CHR 0x00 # key) = name' @ CHR 0x00 # (scope' @ CHR 0x00 # key')" by (simp add: idem_key_def)
  from split [OF assms(1,2) this] have "name = name'" "scope @ CHR 0x00 # key = scope' @ CHR 0x00 # key'" by simp_all
  then show ?thesis using split [OF assms(3,4)] by blast
qed

section \<open>A concrete store\<close>

definition first_call :: "idem_outcome \<times> idem_store" where
  "first_call = enter_locked (\<lambda>_. 0) 100 ''k1'' ''d1'' (newMCPIdempotencyStore 50 2)"

definition answered_store :: idem_store where
  "answered_store = idem_finish 110 0 (Some [(''ok'', AnyStr ''yes'')]) None (snd first_call)"

lemma first_call_runs: "first_call = (RunAs 0, snd first_call)"
  by code_simp

lemma answered_store_wf: "wf_map (im_entries answered_store)"
  by code_simp

definition one_answer :: idem_world where
  "one_answer = \<lparr>iw_store = answered_store, iw_calls = (\<lambda>_. None), iw_log = [Began 7 ''k1'' ''d1'' 0, Ended 7 0 (Some [(''ok'', AnyStr ''yes'')]) None]\<rparr>"

lemma one_answer_reached: "idem_reach 50 2 one_answer"
proof -
  let ?w0 = "\<lparr>iw_store = newMCPIdempotencyStore 50 2, iw_calls = (\<lambda>_. None), iw_log = []\<rparr> :: idem_world"
  let ?w1 = "?w0\<lparr>iw_store := snd first_call, iw_calls := (\<lambda>_. None)(7 \<mapsto> CallRunning ''k1'' ''d1'' 0), iw_log := [Began 7 ''k1'' ''d1'' 0]\<rparr>"
  have "idem_step ?w0 ?w1" using idem_step.run [of ?w0 7 "\<lambda>_. 0" 100 "''k1''" "''d1''" 0 "snd first_call"] first_call_runs
    by (simp add: first_call_def)
  moreover have "idem_step ?w1 one_answer" using idem_step.finish [where w = ?w1 and c = 7 and k = "''k1''" and d = "''d1''" and a = 0 and now = 110 and env = "Some [(''ok'', AnyStr ''yes'')]" and err = None]
    by (simp add: one_answer_def answered_store_def)
  ultimately show ?thesis using idem_reach.start idem_reach.step by blast
qed

definition replayed :: idem_world where
  "replayed = one_answer\<lparr>iw_store := pruneExpiredLocked 120 answered_store, iw_log := iw_log one_answer @ [Replayed 8 ''k1'' ''d1'' (Some [(''ok'', AnyStr ''yes'')]) None]\<rparr>"

lemma replayed_reached: "idem_reach 50 2 replayed"
proof -
  have e: "enter_locked (\<lambda>_. 0) 120 ''k1'' ''d1'' answered_store = (WaitFor 0, pruneExpiredLocked 120 answered_store)" by code_simp
  let ?w = "one_answer\<lparr>iw_store := pruneExpiredLocked 120 answered_store, iw_calls := (\<lambda>_. None)(8 \<mapsto> CallWaiting ''k1'' ''d1'' 0)\<rparr>"
  have "idem_step one_answer ?w" using idem_step.join [of one_answer 8 "\<lambda>_. 0" 120 "''k1''" "''d1''" 0] e by (simp add: one_answer_def)
  moreover have "idem_wait 0 (pruneExpiredLocked 120 answered_store) = Some (Some [(''ok'', AnyStr ''yes'')], None)" by code_simp
  then have "idem_step ?w replayed" using idem_step.wake [of ?w 8 "''k1''" "''d1''" 0] by (simp add: replayed_def one_answer_def)
  ultimately show ?thesis using one_answer_reached idem_reach.step by blast
qed

section \<open>The properties\<close>

text \<open>
  C32. Exactly one execution per key at a time, and replays are true. In every state that interleaved calls with idempotency keys reach, two calls that
  execute at the same time have different keys; the store holds at most \<open>maxEntries\<close> entries (none when that is not positive); and every replayed answer is
  the answer of a finished execution under the same key and with the same digest of the arguments.
\<close>

theorem idempotent_executions:
  assumes "idem_reach ttl lim w"
  shows "(\<forall>c c' k d d' a a'. iw_calls w c = Some (CallRunning k d a) \<and> iw_calls w c' = Some (CallRunning k d' a') \<longrightarrow> c = c') \<and>
    int (length (im_entries (iw_store w))) \<le> max 0 lim \<and>
    (\<forall>c k d env err. Replayed c k d env err \<in> set (iw_log w) \<longrightarrow>
      (\<exists>c1 a env'. Began c1 k d a \<in> set (iw_log w) \<and> Ended c1 a env' err \<in> set (iw_log w) \<and> env = cloneMCPMap env'))"
proof -
  have I: "idem_inv w" "im_maxEntries (iw_store w) = lim" using idem_reach_inv [OF assms] by simp_all
  have C: "iw_calls w c = Some x \<Longrightarrow> call_sound (iw_log w) (iw_store w) c x" for c x using I(1) by (simp add: idem_inv_def)
  have U: "iw_calls w c = Some (CallRunning k d a) \<Longrightarrow> iw_calls w c' = Some (CallRunning k' d' a) \<Longrightarrow> c = c'" for c c' k k' d d' a
    using I(1) unfolding idem_inv_def by blast
  have "c = c'" if r: "iw_calls w c = Some (CallRunning k d a)" "iw_calls w c' = Some (CallRunning k d' a')" for c c' k d d' a a'
  proof -
    have "a = a'" using C [OF r(1)] C [OF r(2)] by (simp add: call_sound_def)
    then show ?thesis using U r by blast
  qed
  moreover have "int (length (im_entries (iw_store w))) \<le> max 0 lim" "replay_sound (iw_log w)" using I by (auto simp: idem_inv_def store_sound_def)
  ultimately show ?thesis unfolding replay_sound_def by blast
qed

theorem idempotent_executions_witness:
  "\<exists>c1 a env'. Began c1 ''k1'' ''d1'' a \<in> set (iw_log replayed) \<and> Ended c1 a env' None \<in> set (iw_log replayed) \<and> Some [(''ok'', AnyStr ''yes'')] = cloneMCPMap env'"
  using idempotent_executions [OF replayed_reached] by (elim conjE allE impE [of "Replayed 8 ''k1'' ''d1'' (Some [(''ok'', AnyStr ''yes'')]) None \<in> set (iw_log replayed)"])
    (auto simp: replayed_def)

text \<open>Why an entry is lost: it had finished, and it had expired or made room as the oldest finished one.\<close>

definition lost :: "time \<Rightarrow> idem_store \<Rightarrow> idem_store \<Rightarrow> nat \<Rightarrow> bool" where
  "lost now s s' a \<longleftrightarrow> \<not> ie_running (im_heap s ! a) \<and>
     (ie_expiresAt (im_heap s ! a) \<le> now \<or> int (length (im_entries s)) \<ge> im_maxEntries s \<and>
       (\<forall>k2 a2. map_of (im_entries s) k2 = Some a2 \<and> map_of (im_entries s') k2 = Some a2 \<and> \<not> ie_running (im_heap s ! a2) \<longrightarrow>
         ie_completedAt (im_heap s ! a) \<le> ie_completedAt (im_heap s ! a2)))"

lemma room_lost:
  assumes wf: "wf_map (im_entries s)" and r: "room_from (pruneExpiredLocked now s) s2"
    and g: "map_of (im_entries s) k = Some a" "map_of (im_entries s2) k \<noteq> Some a"
  shows "lost now s s2 a"
proof (cases "map_of (im_entries (pruneExpiredLocked now s)) k = Some a")
  case False
  then show ?thesis using g(1) prune_entries [OF wf, of now k] by (auto simp: lost_def split: if_splits)
next
  case True
  have n: "map_of (im_entries s2) k = None" using room_fromD(5) [OF r, of k] True g(2) by (cases "map_of (im_entries s2) k") auto
  obtain es where es: "s2 = (pruneExpiredLocked now s)\<lparr>im_entries := es\<rparr>"
    "\<forall>k a. map_of (im_entries (pruneExpiredLocked now s)) k = Some a \<and> map_of es k = None \<longrightarrow>
        \<not> ie_running (im_heap s ! a) \<and> int (length (im_entries (pruneExpiredLocked now s))) \<ge> im_maxEntries s \<and>
        (\<forall>k' a'. map_of es k' = Some a' \<and> \<not> ie_running (im_heap s ! a') \<longrightarrow> ie_completedAt (im_heap s ! a) \<le> ie_completedAt (im_heap s ! a'))"
    using r unfolding room_from_def prune_simps by blast
  have "length (im_entries (pruneExpiredLocked now s)) \<le> length (im_entries s)" by (simp add: pruneExpiredLocked_def)
  then show ?thesis using es(2) [rule_format, of k a] True n es(1) unfolding lost_def by auto
qed

text \<open>
  A key is honoured while its entry lives. When a call enters, an entry that runs or has not expired answers it: the call waits for it, or is refused when
  its arguments differ. A call executes only when there is no such entry. An entry that the call makes disappear had finished, and it had expired, or
  the store was full and no finished entry that stays is older.
\<close>

theorem idempotency_retained:
  assumes "wf_map (im_entries s)" "\<forall>(k, a) \<in> set (im_entries s). a < length (im_heap s)" "enter_locked pick now k d s = (x, s')"
  shows "(case map_of (im_entries s) k of
        Some a \<Rightarrow> (if ie_running (im_heap s ! a) \<or> ie_expiresAt (im_heap s ! a) > now
                  then x = (if ie_digest (im_heap s ! a) = d then WaitFor a else KeyConflict) else (\<forall>b. x \<noteq> WaitFor b) \<and> x \<noteq> KeyConflict)
      | None \<Rightarrow> (\<forall>b. x \<noteq> WaitFor b) \<and> x \<noteq> KeyConflict) \<and>
    (\<forall>k' a'. map_of (im_entries s) k' = Some a' \<and> map_of (im_entries s') k' \<noteq> Some a' \<longrightarrow> lost now s s' a')"
proof (intro conjI allI impI; (elim conjE)?)
  show "case map_of (im_entries s) k of
        Some a \<Rightarrow> (if ie_running (im_heap s ! a) \<or> ie_expiresAt (im_heap s ! a) > now
                  then x = (if ie_digest (im_heap s ! a) = d then WaitFor a else KeyConflict) else (\<forall>b. x \<noteq> WaitFor b) \<and> x \<noteq> KeyConflict)
      | None \<Rightarrow> (\<forall>b. x \<noteq> WaitFor b) \<and> x \<noteq> KeyConflict"
    using assms(3) prune_entries [OF assms(1), of now k] unfolding enter_locked_def Let_def
    by (auto split: option.splits if_splits prod.splits bool.splits)
next
  fix k' a'
  assume g: "map_of (im_entries s) k' = Some a'" "map_of (im_entries s') k' \<noteq> Some a'"
  from assms(1,3) show "lost now s s' a'"
  proof (cases rule: enter_cases)
    case (found a)
    then show ?thesis using room_lost [OF assms(1) room_refl [OF prune_wf [OF assms(1)]]] g by simp
  next
    case full
    then show ?thesis using room_lost [OF assms(1)] g by blast
  next
    case (fresh s2 e)
    have "map_of (im_entries s2) k' \<noteq> Some a'" using g fresh(4,5) by (auto split: if_splits)
    from room_lost [OF assms(1) fresh(2) g(1) this] have l: "lost now s s2 a'" .
    have "map_of (im_entries s2) k2 = Some a2" if m: "map_of (im_entries s) k2 = Some a2" "map_of (im_entries s') k2 = Some a2" for k2 a2
    proof -
      have "a2 < length (im_heap s)" using assms(2) map_of_SomeD [OF m(1)] by fastforce
      then show ?thesis using m(2) fresh(5) by (auto split: if_splits)
    qed
    then show ?thesis using l unfolding lost_def by blast
  qed
qed

section \<open>What a replay does not keep\<close>

text \<open>The answer of an execution that returns no envelope is replayed with an empty one.\<close>

lemma nil_envelope_replayed_empty:
  "a < length (im_heap s) \<Longrightarrow> idem_wait a (idem_finish now a None err s) = Some (Some [], err)"
  by (simp add: idem_wait_def idem_finish_def cloneMCPMap_def Let_def)

end
