(* ===== verification/ModelPolicy.thy ===== *)
theory ModelPolicy
  imports Urls "HOL-Library.Char_ord" "HOL-Library.List_Lexorder"
begin

text \<open>
  The file policy of the host worker (internal/hostworker/file_policy.go): the inspection of a request body, the rules with their
  selectors and limits, validation and the first-match decision. A JSON text is read by an argument that returns the one document of
  the text; how \<open>encoding/json\<close> stores such a document in strings, numbers and structs is written out.
\<close>

section \<open>JSON documents\<close>

datatype jv = JvNull | JvBool bool | JvNumber string | JvString string | JvArr "jv list" | JvObj "(string \<times> jv) list"

text \<open>Into a string: null keeps the empty string.\<close>

fun json_string :: "jv \<Rightarrow> string option" where
  "json_string (JvString s) = Some s"
| "json_string JvNull = Some []"
| "json_string _ = None"

text \<open>A field of a struct is matched without regard to case; the last match wins, and null keeps what was stored.\<close>

fun string_field :: "string \<Rightarrow> string \<Rightarrow> (string \<times> jv) list \<Rightarrow> string option" where
  "string_field name acc [] = Some acc"
| "string_field name acc ((k, v) # fs) =
     (if EqualFold k name then (case v of JvString s \<Rightarrow> string_field name s fs | JvNull \<Rightarrow> string_field name acc fs | _ \<Rightarrow> None)
      else string_field name acc fs)"

fun raw_field :: "string \<Rightarrow> jv option \<Rightarrow> (string \<times> jv) list \<Rightarrow> jv option" where
  "raw_field name acc [] = acc"
| "raw_field name acc ((k, v) # fs) = raw_field name (if EqualFold k name then Some v else acc) fs"

definition stringFromRaw :: "jv option \<Rightarrow> string" where
  "stringFromRaw raw = (case raw of None \<Rightarrow> [] | Some v \<Rightarrow> (case json_string v of None \<Rightarrow> [] | Some s \<Rightarrow> s))"

definition boolPtrFromRaw :: "jv option \<Rightarrow> bool option" where
  "boolPtrFromRaw raw = (case raw of Some (JvBool b) \<Rightarrow> Some b | Some JvNull \<Rightarrow> Some False | _ \<Rightarrow> None)"

fun decimal :: "nat \<Rightarrow> string \<Rightarrow> nat option" where
  "decimal acc [] = Some acc"
| "decimal acc (c # cs) = (if CHR ''0'' \<le> c \<and> c \<le> CHR ''9'' then decimal (10 * acc + (of_char c - 48)) cs else None)"

text \<open>\<open>strconv.ParseInt\<close> with base 10 and 32 bits.\<close>

definition ParseInt32 :: "string \<Rightarrow> int option" where
  "ParseInt32 s =
     (let (neg, ds) = (case s of c # cs \<Rightarrow> (if c = CHR ''-'' then (True, cs) else if c = CHR ''+'' then (False, cs) else (False, s)) | [] \<Rightarrow> (False, [])) in
      if ds = [] then None
      else (case decimal 0 ds of None \<Rightarrow> None | Some n \<Rightarrow>
        let i = (if neg then - int n else int n) in if - 2147483648 \<le> i \<and> i \<le> 2147483647 then Some i else None))"

definition intPtrFromRaw :: "jv option \<Rightarrow> int option" where
  "intPtrFromRaw raw = (case raw of Some (JvNumber s) \<Rightarrow> ParseInt32 s | _ \<Rightarrow> None)"

section \<open>The text of a request\<close>

fun inspectContentBytes :: "jv \<Rightarrow> nat" where
  "inspectContentBytes (JvString s) = length s"
| "inspectContentBytes (JvObj fs) = (case string_field ''text'' [] fs of Some t \<Rightarrow> length t | None \<Rightarrow> 0)"
| "inspectContentBytes (JvArr vs) = sum_list (map inspectContentBytes vs)"
| "inspectContentBytes _ = 0"

text \<open>The contents of a list of messages, or \<open>None\<close> when an element is neither an object nor null.\<close>

fun message_contents :: "jv list \<Rightarrow> jv option list option" where
  "message_contents [] = Some []"
| "message_contents (JvObj fs # ms) = map_option ((#) (raw_field ''content'' None fs)) (message_contents ms)"
| "message_contents (JvNull # ms) = map_option ((#) None) (message_contents ms)"
| "message_contents (_ # ms) = None"

definition inspectMessages :: "jv option \<Rightarrow> nat \<times> nat" where
  "inspectMessages raw = (case raw of
     Some (JvArr ms) \<Rightarrow> (case message_contents ms of None \<Rightarrow> (0, 0)
       | Some cs \<Rightarrow> (length cs, sum_list (map (\<lambda>c. case c of None \<Rightarrow> 0 | Some v \<Rightarrow> inspectContentBytes v) cs)))
   | _ \<Rightarrow> (0, 0))"

fun json_strings :: "jv list \<Rightarrow> string list option" where
  "json_strings [] = Some []"
| "json_strings (v # vs) = (case (json_string v, json_strings vs) of (Some s, Some ss) \<Rightarrow> Some (s # ss) | _ \<Rightarrow> None)"

definition inspectPromptBytes :: "jv option \<Rightarrow> nat" where
  "inspectPromptBytes raw = (case raw of None \<Rightarrow> 0 | Some v \<Rightarrow>
     (case json_string v of Some s \<Rightarrow> length s
      | None \<Rightarrow> (case v of
          JvArr vs \<Rightarrow> (case json_strings vs of Some ss \<Rightarrow> sum_list (map length ss) | None \<Rightarrow> inspectContentBytes v)
        | _ \<Rightarrow> inspectContentBytes v)))"

text \<open>The name of the function of a tool.\<close>

fun tool_name :: "string \<Rightarrow> (string \<times> jv) list \<Rightarrow> string option" where
  "tool_name acc [] = Some acc"
| "tool_name acc ((k, v) # fs) =
     (if EqualFold k ''function'' then
        (case v of JvObj gs \<Rightarrow> (case string_field ''name'' acc gs of Some n \<Rightarrow> tool_name n fs | None \<Rightarrow> None) | JvNull \<Rightarrow> tool_name acc fs | _ \<Rightarrow> None)
      else tool_name acc fs)"

fun tool_names :: "jv list \<Rightarrow> string list option" where
  "tool_names [] = Some []"
| "tool_names (JvObj fs # ts) = (case (tool_name [] fs, tool_names ts) of (Some n, Some ns) \<Rightarrow> Some (n # ns) | _ \<Rightarrow> None)"
| "tool_names (JvNull # ts) = map_option ((#) []) (tool_names ts)"
| "tool_names (_ # ts) = None"

definition inspectToolNames :: "jv option \<Rightarrow> string list" where
  "inspectToolNames raw = (case raw of
     Some (JvArr ts) \<Rightarrow> (case tool_names ts of None \<Rightarrow> [] | Some ns \<Rightarrow> sort (remdups (filter (\<lambda>n. n \<noteq> []) (map TrimSpace ns))))
   | _ \<Rightarrow> [])"

section \<open>The metadata of a body\<close>

record request_body =
  rb_ContentType :: string
  rb_Model :: string
  rb_Stream :: "bool option"
  rb_MaxTokens :: "int option"
  rb_MessageCount :: int
  rb_MessageTextBytes :: int
  rb_PromptTextBytes :: int
  rb_TextBytes :: int
  rb_ToolNames :: "string list"
  rb_ParseError :: string

definition no_body :: request_body where
  "no_body = \<lparr>rb_ContentType = [], rb_Model = [], rb_Stream = None, rb_MaxTokens = None, rb_MessageCount = 0, rb_MessageTextBytes = 0,
     rb_PromptTextBytes = 0, rb_TextBytes = 0, rb_ToolNames = [], rb_ParseError = []\<rparr>"

definition isJSONContent :: "string \<Rightarrow> string \<Rightarrow> bool" where
  "isJSONContent contentType body \<longleftrightarrow> contentType = ''application/json'' \<or> HasSuffix contentType ''+json'' \<or>
     (case body of [] \<Rightarrow> False | c # _ \<Rightarrow> c = CHR ''{'' \<or> c = CHR ''['')"

text \<open>\<open>decode\<close> reads the one JSON document of a text. Into a map, null is the empty map and anything but an object an error; the last of equal keys wins.\<close>

definition InspectDecisionRequestBody :: "(string \<Rightarrow> jv option) \<Rightarrow> string \<Rightarrow> string \<Rightarrow> request_body option" where
  "InspectDecisionRequestBody decode contentType body =
     (let clean = ToLower (TrimSpace (hd (Split contentType (CHR '';'')))); trimmed = TrimSpace body in
      if clean = [] \<and> trimmed = [] then None
      else (let meta = no_body\<lparr>rb_ContentType := clean\<rparr> in
        if trimmed = [] \<or> \<not> isJSONContent clean trimmed then Some meta
        else (case (case decode trimmed of Some (JvObj fs) \<Rightarrow> Some (map_of (rev fs)) | Some JvNull \<Rightarrow> Some (\<lambda>_. None) | _ \<Rightarrow> None) of
            None \<Rightarrow> Some (meta\<lparr>rb_ParseError := ''invalid_json''\<rparr>)
          | Some doc \<Rightarrow>
              (let (count, text) = inspectMessages (doc ''messages''); prompt = inspectPromptBytes (doc ''prompt'') in
               Some (meta\<lparr>rb_Model := stringFromRaw (doc ''model''), rb_Stream := boolPtrFromRaw (doc ''stream''),
                 rb_MaxTokens := (case intPtrFromRaw (doc ''max_tokens'') of Some n \<Rightarrow> Some n | None \<Rightarrow> intPtrFromRaw (doc ''max_completion_tokens'')),
                 rb_MessageCount := int count, rb_MessageTextBytes := int text, rb_PromptTextBytes := int prompt,
                 rb_TextBytes := int text + int prompt, rb_ToolNames := inspectToolNames (doc ''tools'')\<rparr>)))))"

section \<open>The policy\<close>

record policy_match =
  pm_WorkspaceIDs :: "string list"
  pm_Capabilities :: "string list"
  pm_WorkerIDs :: "string list"
  pm_Methods :: "string list"
  pm_Paths :: "string list"
  pm_Models :: "string list"

record policy_limits =
  pl_MaxRequestBytes :: int
  pl_MaxTextBytes :: int
  pl_MaxMessages :: int
  pl_MaxTokens :: int
  pl_Stream :: "bool option"
  pl_AllowedToolNames :: "string list"

record policy_rule =
  pr_ID :: string
  pr_Effect :: string
  pr_Reason :: string
  pr_Match :: policy_match
  pr_Limits :: policy_limits

record file_policy =
  fp_SchemaVersion :: string
  fp_Default :: string
  fp_Rules :: "policy_rule list"

record policy_source =
  ps_Path :: string
  ps_SHA256 :: string

record decision_envelope =
  de_RequestID :: string
  de_WorkspaceID :: string
  de_Capability :: string
  de_WorkerID :: string
  de_TargetBasePath :: string
  de_Method :: string
  de_Path :: string
  de_Query :: string
  de_Upstream :: string
  de_Bytes :: int
  de_BodySHA256 :: string
  de_Body :: "request_body option"

record decision_result =
  dr_Decision :: string
  dr_Reason :: string
  dr_HTTPStatus :: int
  dr_AuditEventID :: string
  dr_PolicySource :: string
  dr_PolicyRuleID :: string
  dr_PolicySHA256 :: string

definition no_decision :: "string \<Rightarrow> string \<Rightarrow> decision_result" where
  "no_decision decision reason = \<lparr>dr_Decision = decision, dr_Reason = reason, dr_HTTPStatus = 0, dr_AuditEventID = [], dr_PolicySource = [],
     dr_PolicyRuleID = [], dr_PolicySHA256 = []\<rparr>"

definition filePolicySchemaVersion :: string where "filePolicySchemaVersion = ''microagent.model_policy.v1''"
definition decisionAllow :: string where "decisionAllow = ''allow''"
definition decisionDeny :: string where "decisionDeny = ''deny''"
definition decisionError :: string where "decisionError = ''error''"

lemmas decisions = decisionAllow_def decisionDeny_def decisionError_def

definition normalizedDecision :: "string \<Rightarrow> string" where
  "normalizedDecision raw = ToLower (TrimSpace raw)"

definition selectorMatches :: "string list \<Rightarrow> string \<Rightarrow> bool" where
  "selectorMatches selectors v \<longleftrightarrow> selectors = [] \<or> (\<exists>s \<in> set selectors. s = ''*'' \<or> TrimSpace s = v)"

definition selectorMatchesFold :: "string list \<Rightarrow> string \<Rightarrow> bool" where
  "selectorMatchesFold selectors v \<longleftrightarrow> selectors = [] \<or> (\<exists>s \<in> set selectors. s = ''*'' \<or> EqualFold (TrimSpace s) v)"

definition match_matches :: "policy_match \<Rightarrow> decision_envelope \<Rightarrow> bool" where
  "match_matches m e \<longleftrightarrow> (let model = (case de_Body e of None \<Rightarrow> [] | Some b \<Rightarrow> rb_Model b) in
     selectorMatches (pm_WorkspaceIDs m) (de_WorkspaceID e) \<and> selectorMatches (pm_Capabilities m) (de_Capability e) \<and>
     selectorMatches (pm_WorkerIDs m) (de_WorkerID e) \<and> selectorMatchesFold (pm_Methods m) (de_Method e) \<and>
     selectorMatches (pm_Paths m) (de_Path e) \<and> selectorMatches (pm_Models m) model)"

definition limits_exceeded :: "policy_limits \<Rightarrow> decision_envelope \<Rightarrow> string" where
  "limits_exceeded l e =
     (let body = de_Body e in
      if pl_MaxRequestBytes l > 0 \<and> de_Bytes e > pl_MaxRequestBytes l then ''file_policy_limit_request_bytes''
      else if pl_MaxTextBytes l > 0 \<and> (case body of None \<Rightarrow> 0 | Some b \<Rightarrow> rb_TextBytes b) > pl_MaxTextBytes l then ''file_policy_limit_text_bytes''
      else if pl_MaxMessages l > 0 \<and> (case body of None \<Rightarrow> 0 | Some b \<Rightarrow> rb_MessageCount b) > pl_MaxMessages l then ''file_policy_limit_messages''
      else if pl_MaxTokens l > 0 \<and> (case body of None \<Rightarrow> None | Some b \<Rightarrow> rb_MaxTokens b) = None then ''file_policy_limit_max_tokens_missing''
      else if pl_MaxTokens l > 0 \<and> (case body of Some b \<Rightarrow> (case rb_MaxTokens b of Some n \<Rightarrow> n > pl_MaxTokens l | None \<Rightarrow> False) | None \<Rightarrow> False) then ''file_policy_limit_max_tokens''
      else if (case pl_Stream l of None \<Rightarrow> False
          | Some want \<Rightarrow> (case body of Some b \<Rightarrow> (case rb_Stream b of Some s \<Rightarrow> s | None \<Rightarrow> False) | None \<Rightarrow> False) \<noteq> want) then ''file_policy_limit_stream''
      else if pl_AllowedToolNames l \<noteq> [] \<and> (case body of None \<Rightarrow> False
          | Some b \<Rightarrow> (\<exists>n \<in> set (rb_ToolNames b). n \<notin> set (filter (\<lambda>c. c \<noteq> []) (map TrimSpace (pl_AllowedToolNames l))))) then ''file_policy_limit_tool_name''
      else [])"

definition ruleReason :: "policy_rule \<Rightarrow> string \<Rightarrow> string" where
  "ruleReason r effect = (let reason = TrimSpace (pr_Reason r) in if reason \<noteq> [] then reason else ''file_policy_'' @ effect)"

definition filePolicyDecision :: "string \<Rightarrow> string \<Rightarrow> string \<Rightarrow> policy_source \<Rightarrow> string \<Rightarrow> decision_result" where
  "filePolicyDecision effect reason ruleID source requestID =
     \<lparr>dr_Decision = effect, dr_Reason = reason, dr_HTTPStatus = 0, dr_AuditEventID = ''file:'' @ requestID @ (if ruleID \<noteq> [] then '':'' @ ruleID else []),
      dr_PolicySource = ''file'', dr_PolicyRuleID = TrimSpace ruleID, dr_PolicySHA256 = ps_SHA256 source\<rparr>"

fun decide_rules :: "policy_rule list \<Rightarrow> string \<Rightarrow> decision_envelope \<Rightarrow> policy_source \<Rightarrow> string \<Rightarrow> decision_result" where
  "decide_rules [] dflt e source requestID =
     (let effect = (if normalizedDecision dflt = [] then decisionDeny else normalizedDecision dflt)
      in filePolicyDecision effect (''file_policy_default_'' @ effect) [] source requestID)"
| "decide_rules (r # rs) dflt e source requestID =
     (if \<not> match_matches (pr_Match r) e then decide_rules rs dflt e source requestID
      else (let effect = normalizedDecision (pr_Effect r); reason = limits_exceeded (pr_Limits r) e in
        if effect = decisionDeny then filePolicyDecision effect (ruleReason r effect) (pr_ID r) source requestID
        else if reason \<noteq> [] then filePolicyDecision decisionDeny reason (pr_ID r) source requestID
        else filePolicyDecision decisionAllow (ruleReason r effect) (pr_ID r) source requestID))"

definition policy_Decide :: "file_policy \<Rightarrow> decision_envelope \<Rightarrow> policy_source \<Rightarrow> string \<Rightarrow> decision_result" where
  "policy_Decide p e source requestID = decide_rules (fp_Rules p) (fp_Default p) e source requestID"

section \<open>Loading\<close>

datatype file_policy_error = BadSchema | BadDefault | NoRuleID nat | DuplicateRule nat string | BadEffect nat | NegativeLimit nat string
  | PolicyPathRequired | PolicyUnresolved | PolicyUnread | PolicyUnparsed | BadExpect

definition limits_validate :: "nat \<Rightarrow> policy_limits \<Rightarrow> file_policy_error option" where
  "limits_validate i l =
     (if pl_MaxRequestBytes l < 0 then Some (NegativeLimit i ''max_request_bytes'') else if pl_MaxTextBytes l < 0 then Some (NegativeLimit i ''max_text_bytes'')
      else if pl_MaxMessages l < 0 then Some (NegativeLimit i ''max_messages'') else if pl_MaxTokens l < 0 then Some (NegativeLimit i ''max_tokens'') else None)"

fun validate_rules :: "nat \<Rightarrow> string list \<Rightarrow> policy_rule list \<Rightarrow> file_policy_error option" where
  "validate_rules i seen [] = None"
| "validate_rules i seen (r # rs) =
     (let rid = TrimSpace (pr_ID r); effect = normalizedDecision (pr_Effect r) in
      if rid = [] then Some (NoRuleID i)
      else if rid \<in> set seen then Some (DuplicateRule i rid)
      else if effect \<noteq> decisionAllow \<and> effect \<noteq> decisionDeny then Some (BadEffect i)
      else (case limits_validate i (pr_Limits r) of Some e \<Rightarrow> Some e | None \<Rightarrow> validate_rules (Suc i) (rid # seen) rs))"

definition file_policy_Validate :: "file_policy \<Rightarrow> file_policy_error option" where
  "file_policy_Validate p =
     (let dflt = (if normalizedDecision (fp_Default p) = [] then decisionDeny else normalizedDecision (fp_Default p)) in
      if TrimSpace (fp_SchemaVersion p) \<noteq> filePolicySchemaVersion then Some BadSchema
      else if dflt \<noteq> decisionAllow \<and> dflt \<noteq> decisionDeny then Some BadDefault
      else validate_rules 0 [] (fp_Rules p))"

text \<open>What loading uses of the host: \<open>filepath.Abs\<close>, \<open>os.ReadFile\<close>, SHA-256 in hexadecimal and the strict decoder of one policy.\<close>

record policy_host =
  ph_Abs :: "string \<Rightarrow> string option"
  ph_ReadFile :: "string \<Rightarrow> string option"
  ph_SHA256 :: "string \<Rightarrow> string"
  ph_Decode :: "string \<Rightarrow> file_policy option"

definition LoadFilePolicy :: "policy_host \<Rightarrow> string \<Rightarrow> file_policy_error + file_policy \<times> policy_source" where
  "LoadFilePolicy H path =
     (let rawPath = TrimSpace path in
      if rawPath = [] then Inl PolicyPathRequired
      else (case ph_Abs H rawPath of None \<Rightarrow> Inl PolicyUnresolved | Some absPath \<Rightarrow>
        (case ph_ReadFile H absPath of None \<Rightarrow> Inl PolicyUnread | Some data \<Rightarrow>
          (case ph_Decode H data of None \<Rightarrow> Inl PolicyUnparsed | Some p \<Rightarrow>
            (case file_policy_Validate p of Some e \<Rightarrow> Inl e | None \<Rightarrow> Inr (p, \<lparr>ps_Path = absPath, ps_SHA256 = ph_SHA256 H data\<rparr>))))))"

record evaluation_options =
  eo_Method :: string
  eo_Path :: string
  eo_WorkspaceID :: string
  eo_Capability :: string
  eo_WorkerID :: string
  eo_Model :: string
  eo_RequestBytes :: int
  eo_TextBytes :: int
  eo_Messages :: int
  eo_MaxTokens :: "int option"
  eo_Stream :: "bool option"
  eo_Tools :: "string list"
  eo_Expect :: string

definition DefaultCapability :: string where "DefaultCapability = ''model.openai''"

definition or_default :: "string \<Rightarrow> string \<Rightarrow> string" where
  "or_default s d = (if s = [] then d else s)"

text \<open>\<open>strings.ToUpper\<close>.\<close>

definition ToUpper :: "string \<Rightarrow> string" where
  "ToUpper s = map upper_char s"

definition EvaluateFilePolicy :: "policy_host \<Rightarrow> string \<Rightarrow> evaluation_options \<Rightarrow> file_policy_error + decision_result \<times> string \<times> bool" where
  "EvaluateFilePolicy H path opts = (case LoadFilePolicy H path of Inl e \<Rightarrow> Inl e | Inr (p, source) \<Rightarrow>
     (let expected = ToLower (TrimSpace (eo_Expect opts)) in
      if expected \<noteq> [] \<and> expected \<noteq> decisionAllow \<and> expected \<noteq> decisionDeny then Inl BadExpect
      else (let e = \<lparr>de_RequestID = ''policy-evaluate'', de_WorkspaceID = TrimSpace (eo_WorkspaceID opts),
                 de_Capability = or_default (TrimSpace (eo_Capability opts)) DefaultCapability,
                 de_WorkerID = or_default (TrimSpace (eo_WorkerID opts)) ''policy-evaluate'', de_TargetBasePath = [],
                 de_Method = or_default (ToUpper (TrimSpace (eo_Method opts))) ''GET'', de_Path = or_default (TrimSpace (eo_Path opts)) ''/v1/models'',
                 de_Query = [], de_Upstream = [], de_Bytes = eo_RequestBytes opts, de_BodySHA256 = [],
                 de_Body = Some (no_body\<lparr>rb_Model := TrimSpace (eo_Model opts), rb_MessageCount := eo_Messages opts, rb_TextBytes := eo_TextBytes opts,
                   rb_ToolNames := eo_Tools opts, rb_MaxTokens := eo_MaxTokens opts, rb_Stream := eo_Stream opts\<rparr>)\<rparr>;
               d = policy_Decide p e source ''policy-evaluate''
        in Inr (d, expected, expected = [] \<or> expected = dr_Decision d))))"

end
