(* ===== verification/ModelMediator.thy ===== *)
theory ModelMediator
  imports ModelPolicy Broker
begin

text \<open>
  The mediator of the host worker (internal/hostworker/mediator.go): the construction of the handler, the decision of a request and its proxying to the
  worker. What happens is a list of effects: rows of the log, the request that is sent, the answer and its streamed body. The policy
  service, the worker, fresh identifiers, SHA-256 and the JSON decoder are arguments.
\<close>

section \<open>Construction\<close>

definition ModePassthrough :: string where "ModePassthrough = ''passthrough''"
definition ModeLocalAllow :: string where "ModeLocalAllow = ''local-allow''"
definition ModePolicy :: string where "ModePolicy = ''policy''"
definition defaultMaxRequestBytes :: int where "defaultMaxRequestBytes = 33554432"
definition requestIDHeader :: string where "requestIDHeader = ''X-Microagent-Mediation-Request-ID''"

lemmas mediation_modes = ModePassthrough_def ModeLocalAllow_def ModePolicy_def

datatype handler_error = BadMode string | EndpointMissing string | EndpointUnparsed string | EndpointScheme string | EndpointHost string
  | EndpointUser string | EndpointQuery string | BadFilePolicy file_policy_error | PolicyExclusive | NoPolicy

text \<open>\<open>URL.Hostname\<close>.\<close>

definition url_Hostname :: "string \<Rightarrow> string" where
  "url_Hostname hp =
     (let host = (case LastIndexByte hp CHR '':'' of
            Some i \<Rightarrow> (if list_all (\<lambda>c. CHR ''0'' \<le> c \<and> c \<le> CHR ''9'') (drop (Suc i) hp) then take i hp else hp) | None \<Rightarrow> hp) in
      if HasPrefix host ''['' \<and> HasSuffix host '']'' then butlast (tl host) else host)"

fun str_contains :: "string \<Rightarrow> string \<Rightarrow> bool" where
  "str_contains sub [] \<longleftrightarrow> sub = []"
| "str_contains sub (c # cs) \<longleftrightarrow> HasPrefix (c # cs) sub \<or> str_contains sub cs"

definition parseEndpointURL :: "(string \<Rightarrow> broker_url option) \<Rightarrow> string \<Rightarrow> string \<Rightarrow> handler_error + broker_url" where
  "parseEndpointURL parse raw name =
     (let raw = TrimSpace raw in
      if raw = [] then Inl (EndpointMissing name)
      else (let raw = (if str_contains ''://'' raw then raw else ''http://'' @ raw) in
        case parse (TrimRight raw ''/'') of None \<Rightarrow> Inl (EndpointUnparsed name) | Some u \<Rightarrow>
          if bu_Scheme u \<noteq> ''http'' then Inl (EndpointScheme name)
          else if url_Hostname (bu_Host u) = [] then Inl (EndpointHost name)
          else if bu_HasUser u then Inl (EndpointUser name)
          else if bu_RawQuery u \<noteq> [] \<or> bu_Fragment u \<noteq> [] \<or> bu_RawPath u \<noteq> [] \<and> bu_Path u = [] then Inl (EndpointQuery name)
          else Inr u))"

definition normalizedBasePath :: "broker_url \<Rightarrow> string" where
  "normalizedBasePath u = (let path = TrimRight (EscapedPath u) ''/'' in if path = [] then ''/v1'' else path)"

record worker_options =
  wo_TargetBaseURL :: string
  wo_Mode :: string
  wo_PolicyURL :: string
  wo_PolicyFile :: string
  wo_WorkspaceID :: string
  wo_Capability :: string
  wo_WorkerID :: string
  wo_MaxRequestBytes :: int

record worker_handler =
  wh_target :: broker_url
  wh_basePath :: string
  wh_mode :: string
  wh_policyURL :: "broker_url option"
  wh_filePolicy :: "(file_policy \<times> policy_source) option"
  wh_workspaceID :: string
  wh_capability :: string
  wh_workerID :: string
  wh_maxRequestBytes :: int

text \<open>An endpoint or a file that is not configured is left out.\<close>

definition when_set :: "string \<Rightarrow> ('e + 'a) \<Rightarrow> 'e + 'a option" where
  "when_set s r = (if TrimSpace s = [] then Inr None else (case r of Inl e \<Rightarrow> Inl e | Inr x \<Rightarrow> Inr (Some x)))"

definition NewHandler :: "(string \<Rightarrow> broker_url option) \<Rightarrow> policy_host \<Rightarrow> worker_options \<Rightarrow> handler_error + worker_handler" where
  "NewHandler parse H opts =
     (let mode = or_default (wo_Mode opts) ModePassthrough in
      if mode \<notin> {ModePassthrough, ModeLocalAllow, ModePolicy} then Inl (BadMode mode)
      else (case parseEndpointURL parse (wo_TargetBaseURL opts) ''target'' of Inl e \<Rightarrow> Inl e | Inr target \<Rightarrow>
        (case when_set (wo_PolicyURL opts) (parseEndpointURL parse (wo_PolicyURL opts) ''policy'') of Inl e \<Rightarrow> Inl e | Inr policy \<Rightarrow>
          (case when_set (wo_PolicyFile opts) (LoadFilePolicy H (wo_PolicyFile opts)) of Inl e \<Rightarrow> Inl (BadFilePolicy e) | Inr filePolicy \<Rightarrow>
             if mode = ModePolicy \<and> policy \<noteq> None \<and> filePolicy \<noteq> None then Inl PolicyExclusive
             else if mode = ModePolicy \<and> policy = None \<and> filePolicy = None then Inl NoPolicy
             else Inr \<lparr>wh_target = target, wh_basePath = normalizedBasePath target, wh_mode = mode, wh_policyURL = policy, wh_filePolicy = filePolicy,
               wh_workspaceID = TrimSpace (wo_WorkspaceID opts), wh_capability = or_default (TrimSpace (wo_Capability opts)) DefaultCapability,
               wh_workerID = or_default (TrimSpace (wo_WorkerID opts)) (bu_Host target @ normalizedBasePath target),
               wh_maxRequestBytes = (if wo_MaxRequestBytes opts \<le> 0 then defaultMaxRequestBytes else wo_MaxRequestBytes opts)\<rparr>))))"

section \<open>Paths and headers\<close>

definition TrimLeft :: "string \<Rightarrow> string \<Rightarrow> string" where
  "TrimLeft s cutset = trim_left (\<lambda>c. c \<in> set cutset) s"

definition upstreamPath :: "worker_handler \<Rightarrow> broker_url \<Rightarrow> string" where
  "upstreamPath h incoming =
     (let path = or_default (EscapedPath incoming) ''/''; base = wh_basePath h;
          path = (if base \<noteq> ''/'' \<and> path \<noteq> base \<and> \<not> HasPrefix path (base @ ''/'') then TrimRight base ''/'' @ ''/'' @ TrimLeft path ''/'' else path)
      in if bu_RawQuery incoming \<noteq> [] then path @ ''?'' @ bu_RawQuery incoming else path)"

definition upstreamPathOnly :: "string \<Rightarrow> string" where
  "upstreamPathOnly path = (case Cut path CHR ''?'' of (left, _, _) \<Rightarrow> or_default left ''/'')"

definition upstreamQueryOnly :: "string \<Rightarrow> string" where
  "upstreamQueryOnly path = (case Cut path CHR ''?'' of (_, right, ok) \<Rightarrow> if ok then right else [])"

definition hopByHopHeaders :: "string list" where
  "hopByHopHeaders = [''connection'', ''keep-alive'', ''proxy-authenticate'', ''proxy-authorization'', ''te'', ''trailer'', ''transfer-encoding'', ''upgrade'']"

definition copyHeaders :: "header \<Rightarrow> header \<Rightarrow> header" where
  "copyHeaders dst src = fold (\<lambda>(key, values) d. if ToLower key \<in> set hopByHopHeaders \<or> EqualFold key ''host'' then d
     else fold (Header_Add key) values d) src dst"

section \<open>Requests and effects\<close>

text \<open>The body of a request: what its reader delivers, and whether it then fails.\<close>

record worker_request =
  wq_Method :: string
  wq_URL :: broker_url
  wq_Header :: header
  wq_Body :: "(string \<times> bool) option"

definition hw_readRequestBody :: "int \<Rightarrow> worker_request \<Rightarrow> string option" where
  "hw_readRequestBody maxBytes r = (case wq_Body r of None \<Rightarrow> Some []
     | Some (data, fails) \<Rightarrow> if int (length data) > maxBytes \<or> fails then None else Some data)"

record worker_send =
  ws_Method :: string
  ws_URL :: broker_url
  ws_Header :: header
  ws_Body :: string

text \<open>A row of the log carries its event, the request, and the decision where there is one; an answer its status and reason.\<close>

datatype hw_effect = LogRow string string "decision_result option" | SendUpstream worker_send | AnswerStatus int string | AnswerHeaders int header | AnswerBytes string

datatype policy_reply = PolicyMarshalFails | PolicyRequestFails | PolicyUnreachable | PolicyReply int "(string \<times> string \<times> string \<times> string) option"

datatype worker_reply = WorkerRequestFails | WorkerUnreachable | WorkerReply int header "string list" bool

record worker_env =
  we_fresh :: string
  we_decode :: "string \<Rightarrow> jv option"
  we_sha256 :: "string \<Rightarrow> string"
  we_policy :: "decision_envelope \<Rightarrow> policy_reply"
  we_worker :: "worker_send \<Rightarrow> worker_reply"
  we_resolve :: "string option"
  we_write :: "nat \<Rightarrow> nat option"

fun itoa :: "nat \<Rightarrow> string" where
  "itoa n = (if n < 10 then [char_of (48 + n)] else itoa (n div 10) @ [char_of (48 + n mod 10)])"

declare itoa.simps [simp del]

section \<open>The decision\<close>

definition decisionEnvelope :: "worker_handler \<Rightarrow> string \<Rightarrow> worker_request \<Rightarrow> string \<Rightarrow> int \<Rightarrow> string \<Rightarrow> request_body option \<Rightarrow> decision_envelope" where
  "decisionEnvelope h requestID r upstream bytes sha meta =
     \<lparr>de_RequestID = requestID, de_WorkspaceID = wh_workspaceID h, de_Capability = wh_capability h, de_WorkerID = wh_workerID h,
      de_TargetBasePath = wh_basePath h, de_Method = wq_Method r, de_Path = bu_Path (wq_URL r), de_Query = bu_RawQuery (wq_URL r),
      de_Upstream = upstream, de_Bytes = bytes, de_BodySHA256 = sha, de_Body = meta\<rparr>"

definition policyDecision :: "worker_env \<Rightarrow> worker_handler \<Rightarrow> string \<Rightarrow> decision_envelope \<Rightarrow> decision_result" where
  "policyDecision E h requestID envelope = (case wh_filePolicy h of
     Some (p, source) \<Rightarrow> policy_Decide p envelope source requestID
   | None \<Rightarrow>
       if wh_policyURL h = None then no_decision decisionError ''policy_unconfigured''
       else (let failed = (\<lambda>reason. (no_decision decisionError reason)\<lparr>dr_PolicySource := ''url''\<rparr>) in
         case we_policy E envelope of
           PolicyMarshalFails \<Rightarrow> failed ''policy_envelope_error''
         | PolicyRequestFails \<Rightarrow> failed ''policy_request_error''
         | PolicyUnreachable \<Rightarrow> failed ''policy_unavailable''
         | PolicyReply status doc \<Rightarrow>
             (if status \<ge> 400 then (failed (''policy_http_'' @ itoa (nat status)))\<lparr>dr_HTTPStatus := status\<rparr>
              else (case doc of None \<Rightarrow> (failed ''policy_invalid_json'')\<lparr>dr_HTTPStatus := status\<rparr>
                | Some (decision, result, reason, auditID) \<Rightarrow>
                    (let decision = or_default (ToLower (TrimSpace decision)) (ToLower (TrimSpace result)) in
                     if decision \<noteq> decisionAllow \<and> decision \<noteq> decisionDeny then (failed ''policy_invalid_decision'')\<lparr>dr_HTTPStatus := status\<rparr>
                     else \<lparr>dr_Decision = decision, dr_Reason = or_default (TrimSpace reason) (''policy_'' @ decision), dr_HTTPStatus = status,
                       dr_AuditEventID = auditID, dr_PolicySource = ''url'', dr_PolicyRuleID = [], dr_PolicySHA256 = []\<rparr>)))))"

definition evaluateDecision :: "worker_env \<Rightarrow> worker_handler \<Rightarrow> string \<Rightarrow> worker_request \<Rightarrow> string \<Rightarrow> int \<Rightarrow> string \<Rightarrow> request_body option \<Rightarrow> hw_effect list \<times> decision_result" where
  "evaluateDecision E h requestID r upstream bytes sha meta =
     (if wh_mode h = ModePassthrough then
        (let d = no_decision decisionAllow ''passthrough'' in ([LogRow ''mediation_bypass'' requestID (Some d)], d))
      else
        (let envelope = decisionEnvelope h requestID r upstream bytes sha meta;
             d = (if wh_mode h = ModePolicy then policyDecision E h requestID envelope
                  else (no_decision decisionAllow ''local_allow'')\<lparr>dr_AuditEventID := ''local:'' @ requestID\<rparr>);
             event = (if dr_Decision d = decisionAllow then ''mediation_decision_allow''
                      else if dr_Decision d = decisionDeny then ''mediation_decision_deny'' else ''mediation_decision_error'')
         in ([LogRow ''mediation_decision_request'' requestID None, LogRow event requestID (Some d)], d)))"

section \<open>Proxying\<close>

text \<open>The address of the worker: the second result is the one that is remembered.\<close>

definition currentUpstreamHost :: "worker_env \<Rightarrow> worker_handler \<Rightarrow> string \<Rightarrow> string \<Rightarrow> hw_effect list \<times> string \<times> string" where
  "currentUpstreamHost E h requestID upstreamHost = (case we_resolve E of
     None \<Rightarrow> ([], bu_Host (wh_target h), upstreamHost)
   | Some raw \<Rightarrow> (let resolved = TrimSpace raw in
       if resolved = [] \<or> resolved = upstreamHost then ([], upstreamHost, upstreamHost)
       else ([LogRow ''upstream_target_changed'' requestID None], resolved, resolved)))"

text \<open>The copy loop: each chunk is written, and the \<open>i\<close>-th write may stop after some bytes.\<close>

fun stream_body :: "(nat \<Rightarrow> nat option) \<Rightarrow> string \<Rightarrow> decision_result \<Rightarrow> nat \<Rightarrow> bool \<Rightarrow> string list \<Rightarrow> bool \<Rightarrow> hw_effect list" where
  "stream_body w requestID d i first [] ends = [LogRow (if ends then ''request_end'' else ''request_error'') requestID (Some d)]"
| "stream_body w requestID d i first (c # cs) ends =
     (if c = [] then stream_body w requestID d i first cs ends
      else (if first then [] else [LogRow ''upstream_first_body_byte'' requestID (Some d)]) @
        (case w i of
           None \<Rightarrow> AnswerBytes c # stream_body w requestID d (Suc i) True cs ends
         | Some k \<Rightarrow> [AnswerBytes (take k c), LogRow ''request_error'' requestID (Some d)]))"

definition proxyUpstream :: "worker_env \<Rightarrow> worker_handler \<Rightarrow> string \<Rightarrow> worker_request \<Rightarrow> string \<Rightarrow> string \<Rightarrow> string \<Rightarrow> decision_result \<Rightarrow> hw_effect list \<times> string" where
  "proxyUpstream E h upstreamHost r body requestID upstream d =
     (case currentUpstreamHost E h requestID upstreamHost of (moved, host, remembered) \<Rightarrow>
       let u = (wh_target h)\<lparr>bu_Host := host, bu_Path := upstreamPathOnly upstream, bu_RawQuery := upstreamQueryOnly upstream\<rparr>;
           s = \<lparr>ws_Method = wq_Method r, ws_URL = u, ws_Header = Header_Set requestIDHeader requestID (copyHeaders [] (wq_Header r)), ws_Body = body\<rparr>
       in case we_worker E s of
            WorkerRequestFails \<Rightarrow> (moved @ [AnswerStatus 502 ''upstream request error''], remembered)
          | WorkerUnreachable \<Rightarrow> (moved @ [LogRow ''upstream_request_start'' requestID (Some d), SendUpstream s, AnswerStatus 502 ''upstream error''], remembered)
          | WorkerReply status hdr chunks ends \<Rightarrow>
              (moved @ [LogRow ''upstream_request_start'' requestID (Some d), SendUpstream s, LogRow ''upstream_headers'' requestID (Some d),
                 AnswerHeaders status (Header_Set requestIDHeader requestID (copyHeaders [] hdr))] @ stream_body (we_write E) requestID d 0 False chunks ends, remembered))"

text \<open>\<open>ServeHTTP\<close>.\<close>

definition hw_ServeHTTP :: "worker_env \<Rightarrow> worker_handler \<Rightarrow> string \<Rightarrow> worker_request \<Rightarrow> hw_effect list \<times> string" where
  "hw_ServeHTTP E h upstreamHost r =
     (if bu_Path (wq_URL r) = ''/healthz'' then ([AnswerStatus 200 ''OK''], upstreamHost)
      else (let requestID = or_default (TrimSpace (Header_Get (wq_Header r) requestIDHeader)) (we_fresh E); accepted = LogRow ''request_accept'' requestID None in
        case hw_readRequestBody (wh_maxRequestBytes h) r of
          None \<Rightarrow> ([accepted, AnswerStatus 413 ''request too large''], upstreamHost)
        | Some body \<Rightarrow>
            (let meta = InspectDecisionRequestBody (we_decode E) (Header_Get (wq_Header r) ''Content-Type'') body; upstream = upstreamPath h (wq_URL r)
             in case evaluateDecision E h requestID r upstream (int (length body)) (we_sha256 E body) meta of (rows, d) \<Rightarrow>
               let before = accepted # LogRow ''request_body_read'' requestID None # rows in
               if dr_Decision d \<noteq> decisionAllow then
                 (before @ [AnswerStatus (if dr_Decision d = decisionDeny then 403 else 503) (dr_Reason d), LogRow ''request_denied'' requestID (Some d),
                    LogRow ''request_end'' requestID (Some d)], upstreamHost)
               else (case proxyUpstream E h upstreamHost r body requestID upstream d of (es, remembered) \<Rightarrow> (before @ es, remembered)))))"

end
