(* ===== verification/ModelClaims.thy ===== *)
theory ModelClaims
  imports ModelMediator
begin

text \<open>What the mediator of the host worker guarantees: the file policy decides by its first matching rule, and a request reaches the worker only after it was allowed.\<close>

section \<open>The specification of a file policy\<close>





lemma dr_filePolicyDecision [simp]: "dr_Decision (filePolicyDecision effect reason rid source req) = effect"
  by (simp add: filePolicyDecision_def)




section \<open>Headers\<close>

lemma lower_upper_char [simp]: "lower_char (upper_char c) = lower_char c"
proof (cases "97 \<le> (of_char c :: nat) \<and> (of_char c :: nat) \<le> 122")
  case True
  then have "upper_char c = char_of (of_char c - 32 :: nat)" "65 \<le> (of_char c - 32 :: nat)" "(of_char c - 32 :: nat) \<le> 90"
    by (auto simp: upper_char_def Let_def)
  moreover have "(of_char (char_of (of_char c - 32 :: nat) :: char) :: nat) = of_char c - 32" using True by (auto intro!: mod_less)
  ultimately show ?thesis using True by (simp add: lower_char_def Let_def)
next
  case False
  then show ?thesis by (auto simp: upper_char_def Let_def)
qed

lemma ToLower_title: "ToLower (title_words up s) = ToLower s"
  by (induction up s rule: title_words.induct) (simp_all add: ToLower_def)

lemma ToLower_canonical [simp]: "ToLower (CanonicalHeaderKey k) = ToLower k"
  by (simp add: CanonicalHeaderKey_def ToLower_title)




section \<open>What is sent\<close>








section \<open>A concrete worker\<close>

definition any_match :: policy_match where
  "any_match = \<lparr>pm_WorkspaceIDs = [], pm_Capabilities = [], pm_WorkerIDs = [], pm_Methods = [], pm_Paths = [], pm_Models = []\<rparr>"

definition no_limits :: policy_limits where
  "no_limits = \<lparr>pl_MaxRequestBytes = 0, pl_MaxTextBytes = 0, pl_MaxMessages = 0, pl_MaxTokens = 0, pl_Stream = None, pl_AllowedToolNames = []\<rparr>"

definition no_embeddings :: file_policy where
  "no_embeddings = \<lparr>fp_SchemaVersion = ''microagent.model_policy.v1'', fp_Default = ''allow'', fp_Rules =
     [\<lparr>pr_ID = ''e'', pr_Effect = ''deny'', pr_Reason = [], pr_Match = any_match\<lparr>pm_Paths := [''/v1/e'']\<rparr>, pr_Limits = no_limits\<rparr>,
      \<lparr>pr_ID = ''chat'', pr_Effect = ''allow'', pr_Reason = [], pr_Match = any_match\<lparr>pm_Paths := [''/v1/chat'']\<rparr>, pr_Limits = no_limits\<lparr>pl_MaxTokens := 100\<rparr>\<rparr>]\<rparr>"

definition worker_url :: broker_url where
  "worker_url = \<lparr>bu_Scheme = ''http'', bu_HasUser = False, bu_Host = ''127.0.0.1:9'', bu_Path = ''/v1'', bu_RawPath = [], bu_RawQuery = [], bu_Fragment = []\<rparr>"



definition sample_worker :: worker_handler where
  "sample_worker = \<lparr>wh_target = worker_url, wh_basePath = ''/v1'', wh_mode = ''policy'', wh_policyURL = None,
     wh_filePolicy = Some (no_embeddings, \<lparr>ps_Path = ''p.json'', ps_SHA256 = ''00''\<rparr>), wh_workspaceID = ''w'', wh_capability = ''model.openai'',
     wh_workerID = ''127.0.0.1:9/v1'', wh_maxRequestBytes = 33554432\<rparr>"

definition chat_body :: "string \<Rightarrow> jv option" where
  "chat_body _ = Some (JvObj [(''max_tokens'', JvNumber ''50'')])"

definition sample_worker_env :: worker_env where
  "sample_worker_env = \<lparr>we_fresh = ''id1'', we_decode = chat_body, we_sha256 = (\<lambda>_. ''00''), we_policy = (\<lambda>_. PolicyUnreachable),
     we_worker = (\<lambda>_. WorkerReply 200 [] [''hi''] True), we_resolve = None, we_write = (\<lambda>_. None)\<rparr>"

definition post_to :: "string \<Rightarrow> worker_request" where
  "post_to path = \<lparr>wq_Method = ''POST'', wq_URL = worker_url\<lparr>bu_Path := path\<rparr>, wq_Header = [(''Upgrade'', [''h2c''])], wq_Body = Some (''{}'', False)\<rparr>"

definition sent_paths :: "hw_effect list \<Rightarrow> string list" where
  "sent_paths es = concat (map (\<lambda>x. case x of SendUpstream s \<Rightarrow> [EscapedPath (ws_URL s)] | _ \<Rightarrow> []) es)"


section \<open>The properties\<close>





section \<open>What a policy does not see\<close>

text \<open>The path that rules match is the one of the request, and the path that is sent has the base path put in front when it is missing: the rule on a path of the worker
  does not match a request for the path without the base, which reaches the same resource.\<close>

lemma path_rule_bypassed:
  "sent_paths (fst (hw_ServeHTTP sample_worker_env sample_worker [] (post_to ''/v1/e''))) = []"
  "sent_paths (fst (hw_ServeHTTP sample_worker_env sample_worker [] (post_to ''/e''))) = [''/v1/e'']"
  by code_simp+

text \<open>The path is sent with its percent encoding encoded again.\<close>

lemma path_escaped_twice:
  "sent_paths (fst (hw_ServeHTTP sample_worker_env sample_worker [] (post_to ''/v1/ b''))) = [''/v1/%2520b'']"
  by code_simp

text \<open>The limit on tokens looks at the other field when the first is no small integer.\<close>

lemma token_limit_bypassed:
  "map_option rb_MaxTokens (InspectDecisionRequestBody (\<lambda>_. Some (JvObj [(''max_tokens'', JvNumber ''1e9''), (''max_completion_tokens'', JvNumber ''5'')])) ''application/json'' ''{}'') = Some (Some 5)"
  by code_simp

end
