(* ===== verification/Locked.thy ===== *)
theory Locked
  imports Main
begin

text \<open>
  Read-modify-write of a file under an exclusive lock (pkg/fsutil/filelock.go), as the volume registry and the event histories use it. A client takes
  the lock, reads the file, computes, writes and releases; any number of clients interleave. The locale shows that the file only
  goes through the states of the updates done one after the other, in the order of the writes.
\<close>

datatype 'i lock_phase = Acquired | HasRead 'i | HasWritten

record ('p, 'i) locked =
  lk_owner :: "('p \<times> 'i lock_phase) option"
  lk_file :: 'i

locale locked_update =
  fixes update :: "'op \<Rightarrow> 'i \<Rightarrow> 'i"
begin

text \<open>One client is the pair of its process and its operation.\<close>

inductive lock_step :: "('p \<times> 'op, 'i) locked \<Rightarrow> 'op option \<Rightarrow> ('p \<times> 'op, 'i) locked \<Rightarrow> bool" where
  take_lock: "lk_owner s = None \<Longrightarrow> lock_step s None (s\<lparr>lk_owner := Some (p, Acquired)\<rparr>)"
| read_file: "lk_owner s = Some (p, Acquired) \<Longrightarrow> lock_step s None (s\<lparr>lk_owner := Some (p, HasRead (lk_file s))\<rparr>)"
| write_file: "lk_owner s = Some ((p, x), HasRead i) \<Longrightarrow> lock_step s (Some x) (s\<lparr>lk_owner := Some ((p, x), HasWritten), lk_file := update x i\<rparr>)"
| drop_lock: "lk_owner s = Some (p, ph) \<Longrightarrow> lock_step s None (s\<lparr>lk_owner := None\<rparr>)"

inductive lock_run :: "'i \<Rightarrow> 'op list \<Rightarrow> ('p \<times> 'op, 'i) locked \<Rightarrow> bool" for i0 where
  start: "lock_run i0 [] \<lparr>lk_owner = None, lk_file = i0\<rparr>"
| quiet: "lock_run i0 xs s \<Longrightarrow> lock_step s None s' \<Longrightarrow> lock_run i0 xs s'"
| update: "lock_run i0 xs s \<Longrightarrow> lock_step s (Some x) s' \<Longrightarrow> lock_run i0 (xs @ [x]) s'"

text \<open>What the owner of the lock has read is what the file holds.\<close>

lemma read_is_current: "lock_run i0 xs s \<Longrightarrow> lk_owner s = Some (p, HasRead i) \<Longrightarrow> lk_file s = i"
proof (induction rule: lock_run.induct)
  case (quiet xs s s')
  from quiet.hyps(2) quiet.prems quiet.IH show ?case by cases auto
next
  case (update xs s x s')
  from update.hyps(2) update.prems show ?case by cases auto
qed simp

theorem serial: "lock_run i0 xs s \<Longrightarrow> lk_file s = fold update xs i0"
proof (induction rule: lock_run.induct)
  case (quiet xs s s')
  from quiet.hyps(2) quiet.IH show ?case by cases auto
next
  case (update xs s x s')
  from update.hyps(2) show ?case
  proof cases
    case (write_file p i)
    then show ?thesis using read_is_current [OF update.hyps(1)] update.IH by simp
  qed
qed simp

lemma serial_invariant:
  assumes "lock_run i0 xs s" "P i0" "\<And>x i. P i \<Longrightarrow> P (update x i)"
  shows "P (lk_file s)"
proof -
  have "P (fold update xs i)" if "P i" for i using that by (induction xs arbitrary: i) (simp_all add: assms(3))
  then show ?thesis using serial [OF assms(1)] assms(2) by simp
qed

end

end
