(* ===== verification/Volumes.thy ===== *)
theory Volumes
  imports Go_Prelude Locked "HOL-Library.Char_ord" "HOL-Library.List_Lexorder"
begin

text \<open>
  Named volumes (pkg/volume/volume.go): the registry file, the backing images and the operations on them. Every operation runs
  under the lock of the registry; which calls of the file system and of the ext4 tools fail, and which workspaces run, are arguments. Progress reports are left out.
\<close>

section \<open>The registry\<close>

definition DefaultSizeMiB :: int where "DefaultSizeMiB = 1024"
definition minSizeMiB :: int where "minSizeMiB = 1"
definition maxSizeMiB :: int where "maxSizeMiB = 1048576"

record vol_record =
  vo_Name :: string
  vo_SizeMiB :: int
  vo_CreatedAt :: string
  vo_AttachedTo :: string

datatype index_file = IndexAbsent | IndexUnreadable | IndexMalformed | IndexData "vol_record list"

text \<open>The registry file and, by the name of the volume, the backing images with their size.\<close>

record vol_state =
  vt_index :: index_file
  vt_disks :: "(string, int) gomap"

datatype volume_error = BadVolumeName string | BadVolumeSize int | VolumeLockFails | IndexUnread | IndexUnwritten | VolumeExists string | VolumeNotFound string
  | VolumeBusy string string | DiskFails

definition ReadIndex :: "vol_state \<Rightarrow> vol_record list option" where
  "ReadIndex st = (case vt_index st of IndexAbsent \<Rightarrow> Some [] | IndexData vs \<Rightarrow> Some vs | _ \<Rightarrow> None)"

definition sortRecords :: "vol_record list \<Rightarrow> vol_record list" where
  "sortRecords vs = sort_key vo_Name vs"

text \<open>The file is replaced as a whole or not at all.\<close>

definition WriteIndex :: "bool \<Rightarrow> vol_record list \<Rightarrow> vol_state \<Rightarrow> bool \<times> vol_state" where
  "WriteIndex ok vs st = (if ok then (True, st\<lparr>vt_index := IndexData (sortRecords vs)\<rparr>) else (False, st))"

fun name_chars :: "nat \<Rightarrow> nat \<Rightarrow> string \<Rightarrow> bool" where
  "name_chars i n [] \<longleftrightarrow> True"
| "name_chars i n (c # cs) \<longleftrightarrow> (CHR ''a'' \<le> c \<and> c \<le> CHR ''z'' \<or> CHR ''0'' \<le> c \<and> c \<le> CHR ''9'' \<or> c = CHR ''-'' \<and> i \<noteq> 0 \<and> i \<noteq> n - 1) \<and> name_chars (Suc i) n cs"

definition vol_ValidName :: "string \<Rightarrow> bool" where
  "vol_ValidName name \<longleftrightarrow> name \<noteq> [] \<and> length name \<le> 63 \<and> name_chars 0 (length name) name"

definition holderActive :: "string \<Rightarrow> (string \<Rightarrow> bool) option \<Rightarrow> bool" where
  "holderActive holder isRunning = (case isRunning of None \<Rightarrow> True | Some f \<Rightarrow> f holder)"

section \<open>Operations\<close>

text \<open>The outcome of making an image: where it stops, or success. An image that was opened is removed again on a failure.\<close>

datatype format_outcome = StageFails | ImageOpenFails | AllocateFails | MkfsFails | Formatted

definition mke2fsFormat :: "format_outcome \<Rightarrow> string \<Rightarrow> int \<Rightarrow> (string, int) gomap \<Rightarrow> bool \<times> (string, int) gomap" where
  "mke2fsFormat r name sizeMiB disks = (case r of StageFails \<Rightarrow> (False, disks) | ImageOpenFails \<Rightarrow> (False, disks)
     | AllocateFails \<Rightarrow> (False, AList.delete name disks) | MkfsFails \<Rightarrow> (False, AList.delete name disks) | Formatted \<Rightarrow> (True, AList.update name sizeMiB disks))"

text \<open>A failed resize may have changed the image.\<close>

datatype resize_outcome = ResizeFails "int option" | Resized

record vol_env =
  vn_locked :: bool
  vn_mkdir :: bool
  vn_format :: format_outcome
  vn_stat :: bool
  vn_resize :: resize_outcome
  vn_write :: bool
  vn_running :: "(string \<Rightarrow> bool) option"
  vn_now :: string

definition withIndexLock :: "vol_env \<Rightarrow> (vol_state \<Rightarrow> (volume_error + 'a) \<times> vol_state) \<Rightarrow> vol_state \<Rightarrow> (volume_error + 'a) \<times> vol_state" where
  "withIndexLock E f st = (if vn_locked E then f st else (Inl VolumeLockFails, st))"

definition size_ok :: "int \<Rightarrow> bool" where
  "size_ok sizeMiB \<longleftrightarrow> minSizeMiB \<le> sizeMiB \<and> sizeMiB \<le> maxSizeMiB"

definition CreateWithOptions :: "vol_env \<Rightarrow> string \<Rightarrow> int \<Rightarrow> vol_state \<Rightarrow> (volume_error + vol_record) \<times> vol_state" where
  "CreateWithOptions E name0 size0 st0 =
     (let name = TrimSpace name0; sizeMiB = (if size0 = 0 then DefaultSizeMiB else size0) in
      if \<not> vol_ValidName name then (Inl (BadVolumeName name), st0)
      else if \<not> size_ok sizeMiB then (Inl (BadVolumeSize sizeMiB), st0)
      else withIndexLock E (\<lambda>st. case ReadIndex st of None \<Rightarrow> (Inl IndexUnread, st) | Some vs \<Rightarrow>
        if name \<in> set (map vo_Name vs) then (Inl (VolumeExists name), st)
        else if \<not> vn_mkdir E then (Inl DiskFails, st)
        else (case mke2fsFormat (vn_format E) name sizeMiB (vt_disks st) of
            (False, disks) \<Rightarrow> (Inl DiskFails, st\<lparr>vt_disks := disks\<rparr>)
          | (True, disks) \<Rightarrow>
              if \<not> vn_stat E then (Inl DiskFails, st\<lparr>vt_disks := disks\<rparr>)
              else (let r = \<lparr>vo_Name = name, vo_SizeMiB = sizeMiB, vo_CreatedAt = vn_now E, vo_AttachedTo = []\<rparr> in
                case WriteIndex (vn_write E) (vs @ [r]) (st\<lparr>vt_disks := disks\<rparr>) of
                  (True, st') \<Rightarrow> (Inr r, st')
                | (False, st') \<Rightarrow> (Inl IndexUnwritten, st'\<lparr>vt_disks := AList.delete name disks\<rparr>)))) st0)"

fun drop_first :: "string \<Rightarrow> vol_record list \<Rightarrow> vol_record list" where
  "drop_first name [] = []"
| "drop_first name (v # vs) = (if vo_Name v = name then vs else v # drop_first name vs)"

fun update_first :: "string \<Rightarrow> (vol_record \<Rightarrow> vol_record) \<Rightarrow> vol_record list \<Rightarrow> vol_record list" where
  "update_first name f [] = []"
| "update_first name f (v # vs) = (if vo_Name v = name then f v # vs else v # update_first name f vs)"

definition lookup_volume :: "string \<Rightarrow> vol_record list \<Rightarrow> vol_record option" where
  "lookup_volume name vs = find (\<lambda>v. vo_Name v = name) vs"

definition RemoveVolume :: "vol_env \<Rightarrow> string \<Rightarrow> bool \<Rightarrow> vol_state \<Rightarrow> (volume_error + unit) \<times> vol_state" where
  "RemoveVolume E name force st0 = withIndexLock E (\<lambda>st. case ReadIndex st of None \<Rightarrow> (Inl IndexUnread, st) | Some vs \<Rightarrow>
     (case lookup_volume name vs of None \<Rightarrow> (Inl (VolumeNotFound name), st) | Some r \<Rightarrow>
       if vo_AttachedTo r \<noteq> [] \<and> \<not> force \<and> holderActive (vo_AttachedTo r) (vn_running E) then (Inl (VolumeBusy name (vo_AttachedTo r)), st)
       else (case WriteIndex (vn_write E) (drop_first name vs) st of
           (False, st') \<Rightarrow> (Inl IndexUnwritten, st')
         | (True, st') \<Rightarrow> (Inr (), st'\<lparr>vt_disks := AList.delete name (vt_disks st')\<rparr>)))) st0"

definition ResizeWithOptions :: "vol_env \<Rightarrow> string \<Rightarrow> int \<Rightarrow> vol_state \<Rightarrow> (volume_error + vol_record) \<times> vol_state" where
  "ResizeWithOptions E name0 sizeMiB st0 =
     (let name = TrimSpace name0 in
      if \<not> size_ok sizeMiB then (Inl (BadVolumeSize sizeMiB), st0)
      else withIndexLock E (\<lambda>st. case ReadIndex st of None \<Rightarrow> (Inl IndexUnread, st) | Some vs \<Rightarrow>
        (case lookup_volume name vs of None \<Rightarrow> (Inl (VolumeNotFound name), st) | Some r \<Rightarrow>
          if vo_AttachedTo r \<noteq> [] \<and> holderActive (vo_AttachedTo r) (vn_running E) then (Inl (VolumeBusy name (vo_AttachedTo r)), st)
          else if sizeMiB = vo_SizeMiB r then (Inr r, st)
          else (case vn_resize E of
              ResizeFails None \<Rightarrow> (Inl DiskFails, st)
            | ResizeFails (Some n) \<Rightarrow> (Inl DiskFails, st\<lparr>vt_disks := AList.update name n (vt_disks st)\<rparr>)
            | Resized \<Rightarrow>
                (case WriteIndex (vn_write E) (update_first name (vo_SizeMiB_update (\<lambda>_. sizeMiB)) vs) (st\<lparr>vt_disks := AList.update name sizeMiB (vt_disks st)\<rparr>) of
                   (False, st') \<Rightarrow> (Inl IndexUnwritten, st')
                 | (True, st') \<Rightarrow> (Inr (r\<lparr>vo_SizeMiB := sizeMiB\<rparr>), st'))))) st0)"

definition AttachVolume :: "vol_env \<Rightarrow> string \<Rightarrow> string \<Rightarrow> vol_state \<Rightarrow> (volume_error + vol_record) \<times> vol_state" where
  "AttachVolume E name workspace st0 = withIndexLock E (\<lambda>st. case ReadIndex st of None \<Rightarrow> (Inl IndexUnread, st) | Some vs \<Rightarrow>
     (case lookup_volume name vs of None \<Rightarrow> (Inl (VolumeNotFound name), st) | Some r \<Rightarrow>
       if vo_AttachedTo r \<noteq> [] \<and> vo_AttachedTo r \<noteq> workspace \<and> holderActive (vo_AttachedTo r) (vn_running E) then (Inl (VolumeBusy name (vo_AttachedTo r)), st)
       else (case WriteIndex (vn_write E) (update_first name (vo_AttachedTo_update (\<lambda>_. workspace)) vs) st of
           (False, st') \<Rightarrow> (Inl IndexUnwritten, st') | (True, st') \<Rightarrow> (Inr (r\<lparr>vo_AttachedTo := workspace\<rparr>), st')))) st0"

definition mutateHolder :: "vol_env \<Rightarrow> (vol_record \<Rightarrow> bool) \<Rightarrow> vol_state \<Rightarrow> (volume_error + unit) \<times> vol_state" where
  "mutateHolder E matches st0 = withIndexLock E (\<lambda>st. case ReadIndex st of None \<Rightarrow> (Inl IndexUnread, st) | Some vs \<Rightarrow>
     if \<not> list_ex matches vs then (Inr (), st)
     else (case WriteIndex (vn_write E) (map (\<lambda>v. if matches v then v\<lparr>vo_AttachedTo := []\<rparr> else v) vs) st of
         (False, st') \<Rightarrow> (Inl IndexUnwritten, st') | (True, st') \<Rightarrow> (Inr (), st'))) st0"

definition DetachVolume :: "vol_env \<Rightarrow> string \<Rightarrow> string \<Rightarrow> vol_state \<Rightarrow> (volume_error + unit) \<times> vol_state" where
  "DetachVolume E name workspace = mutateHolder E (\<lambda>r. vo_Name r = name \<and> vo_AttachedTo r = workspace)"

definition DetachAll :: "vol_env \<Rightarrow> string \<Rightarrow> vol_state \<Rightarrow> (volume_error + unit) \<times> vol_state" where
  "DetachAll E workspace = mutateHolder E (\<lambda>r. vo_AttachedTo r = workspace)"

definition ListVolumes :: "vol_state \<Rightarrow> vol_record list option" where
  "ListVolumes st = map_option sortRecords (ReadIndex st)"

definition GetVolume :: "vol_state \<Rightarrow> string \<Rightarrow> volume_error + vol_record" where
  "GetVolume st name = (case ReadIndex st of None \<Rightarrow> Inl IndexUnread | Some vs \<Rightarrow>
     (case lookup_volume name vs of None \<Rightarrow> Inl (VolumeNotFound name) | Some r \<Rightarrow> Inr r))"

section \<open>Any operation\<close>

datatype vol_op = OpCreate string int | OpRemove string bool | OpResize string int | OpAttach string string | OpDetach string string | OpDetachAll string

fun run_vol :: "vol_env \<times> vol_op \<Rightarrow> vol_state \<Rightarrow> vol_state" where
  "run_vol (E, OpCreate name n) st = snd (CreateWithOptions E name n st)"
| "run_vol (E, OpRemove name force) st = snd (RemoveVolume E name force st)"
| "run_vol (E, OpResize name n) st = snd (ResizeWithOptions E name n st)"
| "run_vol (E, OpAttach name w) st = snd (AttachVolume E name w st)"
| "run_vol (E, OpDetach name w) st = snd (DetachVolume E name w st)"
| "run_vol (E, OpDetachAll w) st = snd (DetachAll E w st)"

end
