(* ===== verification/VolumeClaims.thy ===== *)
theory VolumeClaims
  imports Volumes
begin

text \<open>What the registry of volumes keeps under concurrent operations, and who may lose a volume.\<close>

interpretation vols: locked_update run_vol .

section \<open>Lists of records\<close>

lemma sortRecords_simps [simp]: "set (sortRecords vs) = set vs" "distinct (map vo_Name (sortRecords vs)) = distinct (map vo_Name vs)"
  by (simp_all add: sortRecords_def distinct_map)

lemma drop_first_set: "distinct (map vo_Name vs) \<Longrightarrow> set (drop_first name vs) = {v \<in> set vs. vo_Name v \<noteq> name}"
  by (induction vs) (auto simp: image_iff)

lemma drop_first_distinct: "distinct (map vo_Name vs) \<Longrightarrow> distinct (map vo_Name (drop_first name vs))"
  by (induction vs) (auto simp: drop_first_set)

lemma update_first_names: "(\<And>v. vo_Name (f v) = vo_Name v) \<Longrightarrow> map vo_Name (update_first name f vs) = map vo_Name vs"
  by (induction vs) auto

lemma update_first_set:
  "distinct (map vo_Name vs) \<Longrightarrow> set (update_first name f vs) = (\<lambda>v. if vo_Name v = name then f v else v) ` set vs"
  by (induction vs) (force simp: image_iff)+

lemma map_names: "(\<And>v. vo_Name (g v) = vo_Name v) \<Longrightarrow> map vo_Name (map g vs) = map vo_Name vs"
  by (induction vs) auto

lemma lookup_volume_Some: "lookup_volume name vs = Some v \<Longrightarrow> v \<in> set vs \<and> vo_Name v = name"
  unfolding lookup_volume_def by (induction vs) (auto split: if_splits)

lemma lookup_unique: "distinct (map vo_Name vs) \<Longrightarrow> v \<in> set vs \<Longrightarrow> lookup_volume (vo_Name v) vs = Some v"
  unfolding lookup_volume_def by (induction vs) (auto simp: image_iff)

section \<open>The invariant\<close>

definition record_ok :: "(string, int) gomap \<Rightarrow> vol_record \<Rightarrow> bool" where
  "record_ok disks v \<longleftrightarrow> vol_ValidName (vo_Name v) \<and> size_ok (vo_SizeMiB v) \<and> vo_Name v \<in> fst ` set disks"

definition records_ok :: "(string, int) gomap \<Rightarrow> vol_record list \<Rightarrow> bool" where
  "records_ok disks vs \<longleftrightarrow> distinct (map vo_Name vs) \<and> (\<forall>v \<in> set vs. record_ok disks v)"

text \<open>Names are unique and valid, sizes are in range, and every registered volume has its image.\<close>

definition volumes_ok :: "vol_state \<Rightarrow> bool" where
  "volumes_ok st \<longleftrightarrow> (\<forall>vs. ReadIndex st = Some vs \<longrightarrow> records_ok (vt_disks st) vs)"

definition held :: "vol_state \<Rightarrow> string \<Rightarrow> string \<Rightarrow> bool" where
  "held st name h \<longleftrightarrow> (\<exists>vs v. ReadIndex st = Some vs \<and> v \<in> set vs \<and> vo_Name v = name \<and> vo_AttachedTo v = h)"

text \<open>What takes a volume from its holder: the holder detaches, or the holder does not run, or a forced removal.\<close>

fun released :: "vol_env \<times> vol_op \<Rightarrow> string \<Rightarrow> string \<Rightarrow> bool" where
  "released (E, OpDetach n w) name h \<longleftrightarrow> n = name \<and> w = h"
| "released (E, OpDetachAll w) name h \<longleftrightarrow> w = h"
| "released (E, OpRemove n force) name h \<longleftrightarrow> n = name \<and> (force \<or> \<not> holderActive h (vn_running E))"
| "released (E, OpAttach n w) name h \<longleftrightarrow> n = name \<and> \<not> holderActive h (vn_running E)"
| "released _ name h \<longleftrightarrow> False"

text \<open>The effect of an operation: nothing, new images only, or a new list of records as well.\<close>

lemma ReadIndex_simps [simp]:
  "ReadIndex (st\<lparr>vt_disks := d\<rparr>) = ReadIndex st" "ReadIndex (st\<lparr>vt_index := IndexData vs\<rparr>) = Some vs"
  by (simp_all add: ReadIndex_def)

lemma WriteIndex_cases:
  assumes "WriteIndex ok vs st = (b, st')"
  obtains "b" "st' = st\<lparr>vt_index := IndexData (sortRecords vs)\<rparr>" | "\<not> b" "st' = st"
  using assms by (auto simp: WriteIndex_def split: if_splits)

definition vol_keeps :: "vol_env \<times> vol_op \<Rightarrow> vol_state \<Rightarrow> vol_state \<Rightarrow> bool" where
  "vol_keeps x st st' \<longleftrightarrow> volumes_ok st' \<and> (\<forall>name h. h \<noteq> [] \<and> held st name h \<and> \<not> held st' name h \<longrightarrow> released x name h)"

lemma vol_keeps_refl: "volumes_ok st \<Longrightarrow> vol_keeps x st st"
  by (simp add: vol_keeps_def)

lemma keeps_disks:
  assumes "volumes_ok st" "ReadIndex st = Some vs" "\<And>v. v \<in> set vs \<Longrightarrow> vo_Name v \<in> fst ` set (vt_disks st) \<Longrightarrow> vo_Name v \<in> fst ` set d"
  shows "vol_keeps x st (st\<lparr>vt_disks := d\<rparr>)"
  using assms by (auto simp: vol_keeps_def volumes_ok_def records_ok_def record_ok_def held_def)

lemma keeps_write:
  assumes "records_ok d vs'" "\<And>name h. h \<noteq> [] \<Longrightarrow> held st name h \<Longrightarrow> \<not> released x name h \<Longrightarrow> \<exists>v \<in> set vs'. vo_Name v = name \<and> vo_AttachedTo v = h"
  shows "vol_keeps x st (st\<lparr>vt_disks := d, vt_index := IndexData (sortRecords vs')\<rparr>)"
  using assms by (auto simp: vol_keeps_def volumes_ok_def held_def records_ok_def)

section \<open>Every operation keeps it\<close>

lemma named_image [simp]: "fst ` set (AList.update k v d) = insert k (fst ` set d)" "fst ` set (AList.delete k d) = fst ` set d - {k}"
  by (auto simp: dom_update AList.delete_eq)

lemma TrimSpace_create:
  assumes ok: "volumes_ok st" and r: "ReadIndex st = Some vs" and n: "name \<notin> set (map vo_Name vs)" "vol_ValidName name" "size_ok sizeMiB"
    and f: "mke2fsFormat out name sizeMiB (vt_disks st) = (True, disks)"
  shows "records_ok disks (vs @ [\<lparr>vo_Name = name, vo_SizeMiB = sizeMiB, vo_CreatedAt = now, vo_AttachedTo = []\<rparr>])"
  using assms by (cases out) (auto simp: volumes_ok_def records_ok_def record_ok_def mke2fsFormat_def)

lemma format_others: "mke2fsFormat out name n d = (b, d') \<Longrightarrow> fst ` set d - {name} \<subseteq> fst ` set d'"
  using named_image(1) [of name n d] named_image(2) [of name d] by (cases out) (auto simp: mke2fsFormat_def simp del: named_image)

lemma create_keeps:
  assumes ok: "volumes_ok st"
  shows "vol_keeps x st (snd (CreateWithOptions E name0 size0 st))"
proof -
  let ?name = "TrimSpace name0" and ?size = "if size0 = 0 then DefaultSizeMiB else size0"
  show ?thesis
  proof (cases "vol_ValidName ?name \<and> size_ok ?size \<and> vn_locked E \<and> (\<exists>vs. ReadIndex st = Some vs \<and> ?name \<notin> set (map vo_Name vs)) \<and> vn_mkdir E")
    case False
    then have "snd (CreateWithOptions E name0 size0 st) = st" by (auto simp: CreateWithOptions_def withIndexLock_def Let_def split: option.splits)
    then show ?thesis using vol_keeps_refl [OF ok] by simp
  next
    case True
    then obtain vs where r: "ReadIndex st = Some vs" "?name \<notin> set (map vo_Name vs)" by blast
    obtain b disks where f: "mke2fsFormat (vn_format E) ?name ?size (vt_disks st) = (b, disks)" by fastforce
    have "fst ` set (vt_disks st) - {?name} \<subseteq> fst ` set disks" using f format_others by blast
    moreover have "vo_Name v \<noteq> ?name" if "v \<in> set vs" for v using that r(2) by force
    ultimately have other: "vo_Name v \<in> fst ` set disks" "vo_Name v \<in> fst ` set (AList.delete ?name disks)" if "v \<in> set vs" "vo_Name v \<in> fst ` set (vt_disks st)" for v
      using that unfolding named_image by blast+
    note D = keeps_disks [OF ok r(1), of disks x] keeps_disks [OF ok r(1), of "AList.delete ?name disks" x]
    let ?r = "\<lparr>vo_Name = ?name, vo_SizeMiB = ?size, vo_CreatedAt = vn_now E, vo_AttachedTo = []\<rparr>"
    consider (fails) "\<not> b \<or> \<not> vn_stat E" | (unwritten) "b" "vn_stat E" "\<not> vn_write E" | (created) "b" "vn_stat E" "vn_write E" by blast
    then show ?thesis
    proof cases
      case fails
      then have "snd (CreateWithOptions E name0 size0 st) = st\<lparr>vt_disks := disks\<rparr>"
        using True r f by (cases b) (simp_all add: CreateWithOptions_def withIndexLock_def Let_def)
      then show ?thesis using D(1) other(1) by simp
    next
      case unwritten
      then have "snd (CreateWithOptions E name0 size0 st) = st\<lparr>vt_disks := AList.delete ?name disks\<rparr>"
        using True r f by (simp add: CreateWithOptions_def withIndexLock_def Let_def WriteIndex_def)
      then show ?thesis using D(2) other(2) by simp
    next
      case created
      then have e: "snd (CreateWithOptions E name0 size0 st) = st\<lparr>vt_disks := disks, vt_index := IndexData (sortRecords (vs @ [?r]))\<rparr>"
        using True r f by (simp add: CreateWithOptions_def withIndexLock_def Let_def WriteIndex_def)
      have ro: "records_ok disks (vs @ [?r])" using TrimSpace_create [OF ok r] True f created(1) by simp
      have "\<exists>v \<in> set (vs @ [?r]). vo_Name v = n \<and> vo_AttachedTo v = h" if "held st n h" for n h
        using that r(1) by (auto simp: held_def)
      then show ?thesis unfolding e by (rule keeps_write [OF ro])
    qed
  qed
qed

lemma write_same_disks: "st\<lparr>vt_index := i\<rparr> = st\<lparr>vt_disks := vt_disks st, vt_index := i\<rparr>"
  by simp

lemma records_map:
  assumes "records_ok d vs" "distinct (map vo_Name vs')" "\<And>v. v \<in> set vs' \<Longrightarrow> \<exists>u \<in> set vs. vo_Name v = vo_Name u \<and> (vo_SizeMiB v = vo_SizeMiB u \<or> size_ok (vo_SizeMiB v))" "fst ` set d \<subseteq> fst ` set d'"
  shows "records_ok d' vs'"
  using assms unfolding records_ok_def record_ok_def by (metis subset_iff)

lemma remove_keeps:
  assumes ok: "volumes_ok st"
  shows "vol_keeps (E, OpRemove name force) st (snd (RemoveVolume E name force st))"
proof (cases "vn_locked E \<and> vn_write E \<and> (\<exists>vs v. ReadIndex st = Some vs \<and> lookup_volume name vs = Some v \<and>
    \<not> (vo_AttachedTo v \<noteq> [] \<and> \<not> force \<and> holderActive (vo_AttachedTo v) (vn_running E)))")
  case False
  then have "snd (RemoveVolume E name force st) = st" by (auto simp: RemoveVolume_def withIndexLock_def WriteIndex_def split: option.splits)
  then show ?thesis using vol_keeps_refl [OF ok] by simp
next
  case True
  then obtain vs v where r: "ReadIndex st = Some vs" "lookup_volume name vs = Some v" "vo_AttachedTo v \<noteq> [] \<longrightarrow> force \<or> \<not> holderActive (vo_AttachedTo v) (vn_running E)"
    by blast
  have d: "records_ok (vt_disks st) vs" using ok r(1) by (simp add: volumes_ok_def)
  have dist: "distinct (map vo_Name vs)" using d by (simp add: records_ok_def)
  have "snd (RemoveVolume E name force st) = st\<lparr>vt_disks := AList.delete name (vt_disks st), vt_index := IndexData (sortRecords (drop_first name vs))\<rparr>"
    using True r by (auto simp: RemoveVolume_def withIndexLock_def WriteIndex_def)
  moreover have "records_ok (AList.delete name (vt_disks st)) (drop_first name vs)"
    using d drop_first_distinct [OF dist] by (auto simp: records_ok_def record_ok_def drop_first_set [OF dist])
  moreover have "\<exists>u \<in> set (drop_first name vs). vo_Name u = n \<and> vo_AttachedTo u = h"
    if h: "h \<noteq> []" "held st n h" "\<not> released (E, OpRemove name force) n h" for n h
  proof -
    obtain u where u: "u \<in> set vs" "vo_Name u = n" "vo_AttachedTo u = h" using h(2) r(1) by (auto simp: held_def)
    have "n \<noteq> name" using h(1,3) lookup_unique [OF dist u(1)] u r(2,3) by auto
    then show ?thesis using u drop_first_set [OF dist] by blast
  qed
  ultimately show ?thesis using keeps_write by metis
qed

text \<open>An operation that changes one record in place and vol_keeps its name.\<close>

lemma update_keeps:
  assumes ok: "volumes_ok st" and r: "ReadIndex st = Some vs" "lookup_volume name vs = Some v"
    and f: "\<And>u. vo_Name (f u) = vo_Name u" "\<And>u. vo_SizeMiB (f u) = vo_SizeMiB u \<or> size_ok (vo_SizeMiB (f u))"
    and d: "fst ` set (vt_disks st) \<subseteq> fst ` set d"
    and h: "vo_AttachedTo v \<noteq> [] \<Longrightarrow> vo_AttachedTo (f v) = vo_AttachedTo v \<or> released x name (vo_AttachedTo v)"
  shows "vol_keeps x st (st\<lparr>vt_disks := d, vt_index := IndexData (sortRecords (update_first name f vs))\<rparr>)"
proof (rule keeps_write)
  have ro: "records_ok (vt_disks st) vs" using ok r(1) by (simp add: volumes_ok_def)
  then have dist: "distinct (map vo_Name vs)" by (simp add: records_ok_def)
  show "records_ok d (update_first name f vs)"
  proof (rule records_map [OF ro _ _ d])
    show "distinct (map vo_Name (update_first name f vs))" using dist by (simp add: update_first_names f(1))
    show "\<exists>u \<in> set vs. vo_Name w = vo_Name u \<and> (vo_SizeMiB w = vo_SizeMiB u \<or> size_ok (vo_SizeMiB w))" if "w \<in> set (update_first name f vs)" for w
      using that f unfolding update_first_set [OF dist] by (auto split: if_splits)
  qed
  fix n g assume g: "g \<noteq> []" "held st n g" "\<not> released x n g"
  then obtain u where u: "u \<in> set vs" "vo_Name u = n" "vo_AttachedTo u = g" using r(1) by (auto simp: held_def)
  let ?u = "if vo_Name u = name then f u else u"
  have "vo_AttachedTo ?u = g" using u g h lookup_unique [OF dist u(1)] r(2) by auto
  moreover have "?u \<in> set (update_first name f vs)" using u(1) unfolding update_first_set [OF dist] by blast
  moreover have "vo_Name ?u = n" using u(2) f(1) by simp
  ultimately show "\<exists>v \<in> set (update_first name f vs). vo_Name v = n \<and> vo_AttachedTo v = g" by blast
qed

lemma resize_keeps:
  assumes ok: "volumes_ok st"
  shows "vol_keeps x st (snd (ResizeWithOptions E name0 n st))"
proof (cases "size_ok n \<and> vn_locked E \<and> (\<exists>vs v. ReadIndex st = Some vs \<and> lookup_volume (TrimSpace name0) vs = Some v \<and>
    \<not> (vo_AttachedTo v \<noteq> [] \<and> holderActive (vo_AttachedTo v) (vn_running E)) \<and> n \<noteq> vo_SizeMiB v) \<and> vn_resize E \<noteq> ResizeFails None")
  case False
  then have "snd (ResizeWithOptions E name0 n st) = st"
    by (auto simp: ResizeWithOptions_def withIndexLock_def Let_def split: option.splits resize_outcome.splits)
  then show ?thesis using vol_keeps_refl [OF ok] by simp
next
  case True
  let ?name = "TrimSpace name0"
  obtain vs v where r: "ReadIndex st = Some vs" "lookup_volume ?name vs = Some v" "\<not> (vo_AttachedTo v \<noteq> [] \<and> holderActive (vo_AttachedTo v) (vn_running E))" "n \<noteq> vo_SizeMiB v"
    using True by blast
  have up: "vol_keeps x st (st\<lparr>vt_disks := AList.update ?name m (vt_disks st)\<rparr>)" for m
    by (rule keeps_disks [OF ok r(1)]) simp
  have "vol_keeps x st (st\<lparr>vt_disks := AList.update ?name n (vt_disks st), vt_index := IndexData (sortRecords (update_first ?name (vo_SizeMiB_update (\<lambda>_. n)) vs))\<rparr>)"
    using True by (intro update_keeps [OF ok r(1,2)]) auto
  then show ?thesis using True r up
    by (cases "vn_resize E") (auto simp: ResizeWithOptions_def withIndexLock_def Let_def WriteIndex_def)
qed

lemma attach_keeps:
  assumes ok: "volumes_ok st"
  shows "vol_keeps (E, OpAttach name w) st (snd (AttachVolume E name w st))"
proof (cases "vn_locked E \<and> vn_write E \<and> (\<exists>vs v. ReadIndex st = Some vs \<and> lookup_volume name vs = Some v \<and>
    \<not> (vo_AttachedTo v \<noteq> [] \<and> vo_AttachedTo v \<noteq> w \<and> holderActive (vo_AttachedTo v) (vn_running E)))")
  case False
  then have "snd (AttachVolume E name w st) = st" by (auto simp: AttachVolume_def withIndexLock_def WriteIndex_def split: option.splits)
  then show ?thesis using vol_keeps_refl [OF ok] by simp
next
  case True
  then obtain vs v where r: "ReadIndex st = Some vs" "lookup_volume name vs = Some v" "\<not> (vo_AttachedTo v \<noteq> [] \<and> vo_AttachedTo v \<noteq> w \<and> holderActive (vo_AttachedTo v) (vn_running E))"
    by blast
  have "vol_keeps (E, OpAttach name w) st (st\<lparr>vt_disks := vt_disks st, vt_index := IndexData (sortRecords (update_first name (vo_AttachedTo_update (\<lambda>_. w)) vs))\<rparr>)"
    using r(3) by (intro update_keeps [OF ok r(1,2)]) auto
  moreover have "snd (AttachVolume E name w st) = st\<lparr>vt_index := IndexData (sortRecords (update_first name (vo_AttachedTo_update (\<lambda>_. w)) vs))\<rparr>"
    using True r by (auto simp: AttachVolume_def withIndexLock_def WriteIndex_def)
  ultimately show ?thesis by simp
qed

lemma mutate_keeps:
  assumes ok: "volumes_ok st" and m: "\<And>v. matches v \<Longrightarrow> vo_AttachedTo v \<noteq> [] \<Longrightarrow> released x (vo_Name v) (vo_AttachedTo v)"
  shows "vol_keeps x st (snd (mutateHolder E matches st))"
proof (cases "vn_locked E \<and> vn_write E \<and> (\<exists>vs. ReadIndex st = Some vs \<and> list_ex matches vs)")
  case False
  then have "snd (mutateHolder E matches st) = st" by (auto simp: mutateHolder_def withIndexLock_def WriteIndex_def split: option.splits)
  then show ?thesis using vol_keeps_refl [OF ok] by simp
next
  case True
  then obtain vs where r: "ReadIndex st = Some vs" "list_ex matches vs" by blast
  let ?g = "\<lambda>v. if matches v then v\<lparr>vo_AttachedTo := []\<rparr> else v"
  have ro: "records_ok (vt_disks st) vs" using ok r(1) by (simp add: volumes_ok_def)
  have "vol_keeps x st (st\<lparr>vt_disks := vt_disks st, vt_index := IndexData (sortRecords (map ?g vs))\<rparr>)"
  proof (rule keeps_write)
    have "map vo_Name (map ?g vs) = map vo_Name vs" by (rule map_names) simp
    then show "records_ok (vt_disks st) (map ?g vs)" using ro by (auto simp: records_ok_def record_ok_def simp del: map_map)
    fix n h assume g: "h \<noteq> []" "held st n h" "\<not> released x n h"
    then obtain u where u: "u \<in> set vs" "vo_Name u = n" "vo_AttachedTo u = h" using r(1) by (auto simp: held_def)
    then have "?g u = u" using g m [of u] by auto
    moreover have "?g u \<in> set (map ?g vs)" using u(1) unfolding set_map by (rule imageI)
    ultimately have "u \<in> set (map ?g vs)" by simp
    then show "\<exists>v \<in> set (map ?g vs). vo_Name v = n \<and> vo_AttachedTo v = h" using u(2,3) by blast
  qed
  moreover have "snd (mutateHolder E matches st) = st\<lparr>vt_index := IndexData (sortRecords (map ?g vs))\<rparr>"
    using True r by (auto simp: mutateHolder_def withIndexLock_def WriteIndex_def)
  ultimately show ?thesis by simp
qed

lemma run_vol_keeps: "volumes_ok st \<Longrightarrow> vol_keeps x st (run_vol x st)"
proof -
  assume ok: "volumes_ok st"
  obtain E op where x: "x = (E, op)" by (cases x)
  show ?thesis
  proof (cases op)
    case (OpCreate name n)
    then show ?thesis using create_keeps [OF ok] x by simp
  next
    case (OpRemove name force)
    then show ?thesis using remove_keeps [OF ok] x by simp
  next
    case (OpResize name n)
    then show ?thesis using resize_keeps [OF ok] x by simp
  next
    case (OpAttach name w)
    then show ?thesis using attach_keeps [OF ok] x by simp
  next
    case (OpDetach name w)
    then show ?thesis using mutate_keeps [OF ok, of "\<lambda>r. vo_Name r = name \<and> vo_AttachedTo r = w" x E] x by (simp add: DetachVolume_def)
  next
    case (OpDetachAll w)
    then show ?thesis using mutate_keeps [OF ok, of "\<lambda>r. vo_AttachedTo r = w" x E] x by (simp add: DetachAll_def)
  qed
qed

section \<open>A concrete registry\<close>

definition vol_host :: vol_env where
  "vol_host = \<lparr>vn_locked = True, vn_mkdir = True, vn_format = Formatted, vn_stat = True, vn_resize = Resized, vn_write = True, vn_running = Some (\<lambda>w. w = ''web''), vn_now = ''t''\<rparr>"

definition no_volumes :: vol_state where
  "no_volumes = \<lparr>vt_index = IndexAbsent, vt_disks = []\<rparr>"

definition data_held :: vol_state where
  "data_held = run_vol (vol_host, OpAttach ''data'' ''web'') (run_vol (vol_host, OpCreate ''data'' 0) no_volumes)"

lemma no_volumes_ok: "volumes_ok no_volumes"
  by (simp add: volumes_ok_def no_volumes_def ReadIndex_def records_ok_def)

section \<open>The property\<close>

text \<open>
  C35. A volume stays with its running holder, whatever runs at the same time. Under any interleaving of operations by any number of processes, each under the lock, and whatever fails in them,
  the registry is what the operations make one after the other in the order of their writes; its names are unique and valid, its sizes are in range and every volume
  has its image. A workspace that holds a volume loses it only by its own detach, when it does not run, or by a forced removal.
\<close>

theorem volume_custody:
  assumes "volumes_ok st0" "vols.lock_run st0 xs s"
  shows "lk_file s = fold run_vol xs st0 \<and> volumes_ok (lk_file s) \<and>
    (\<forall>x name h. h \<noteq> [] \<and> held (lk_file s) name h \<and> \<not> held (run_vol x (lk_file s)) name h \<longrightarrow> released x name h)"
proof -
  have ok: "volumes_ok (lk_file s)"
    using vols.serial_invariant [of st0 xs s volumes_ok] assms run_vol_keeps by (auto simp: vol_keeps_def)
  then show ?thesis using vols.serial [OF assms(2)] run_vol_keeps [OF ok] by (auto simp: vol_keeps_def)
qed

theorem volume_custody_witness:
  "held (run_vol (vol_host, OpAttach ''data'' ''job'') data_held) ''data'' ''web''"
proof -
  let ?s0 = "\<lparr>lk_owner = None, lk_file = data_held\<rparr> :: (nat \<times> vol_env \<times> vol_op, vol_state) locked"
  have run: "vols.lock_run data_held [] ?s0" by (rule vols.lock_run.start)
  have ok: "volumes_ok data_held" using run_vol_keeps [OF no_volumes_ok] run_vol_keeps unfolding data_held_def vol_keeps_def by blast
  have "held data_held ''data'' ''web''"
  proof -
    have "ReadIndex data_held = Some [\<lparr>vo_Name = ''data'', vo_SizeMiB = 1024, vo_CreatedAt = ''t'', vo_AttachedTo = ''web''\<rparr>]" by code_simp
    then show ?thesis by (simp add: held_def)
  qed
  moreover have "\<not> released (vol_host, OpAttach ''data'' ''job'') ''data'' ''web''" by (simp add: vol_host_def holderActive_def)
  moreover have "h \<noteq> [] \<and> held data_held name h \<and> \<not> held (run_vol x data_held) name h \<longrightarrow> released x name h" for x name h
    using volume_custody [OF ok run] by (cases x) simp
  ultimately show ?thesis by blast
qed

section \<open>Two sizes\<close>

text \<open>When the registry cannot be written after a resize, it vol_keeps the old size of an image that has the new one.\<close>

lemma resize_unrecorded:
  "case run_vol (vol_host\<lparr>vn_write := False\<rparr>, OpResize ''data'' 2048) (run_vol (vol_host, OpCreate ''data'' 0) no_volumes) of st \<Rightarrow>
     map_option (map vo_SizeMiB) (ReadIndex st) = Some [1024] \<and> vt_disks st = [(''data'', 2048)]"
  by code_simp

end
