(* ===== verification/EventHistory.thy ===== *)
theory EventHistory
  imports Go_Prelude Locked
begin

text \<open>
  Bounded histories of life-cycle events (internal/eventhistory/eventhistory.go): a JSON array that is read, extended, cut to its last entries and replaced
  under a lock. The JSON codec is an argument.
\<close>

section \<open>Reading\<close>

definition DefaultMaxEvents :: int where "DefaultMaxEvents = 1024"

record history_options =
  ho_MaxEvents :: int
  ho_AllowJSONLines :: bool

datatype history_file = HistoryAbsent | HistoryUnreadable | HistoryText string

datatype history_error = HistoryDir | HistoryLock | HistoryRead | HistoryIntegrity | HistoryMarshal | HistoryWrite | HistoryUnlock

record 'e history_codec =
  hc_array :: "string \<Rightarrow> 'e list option"
  hc_event :: "string \<Rightarrow> 'e option"
  hc_encode :: "'e list \<Rightarrow> string option"

fun read_json_lines :: "'e history_codec \<Rightarrow> string list \<Rightarrow> 'e list option" where
  "read_json_lines C [] = Some []"
| "read_json_lines C (l # ls) =
     (let line = TrimSpace l in
      if line = [] then read_json_lines C ls
      else (case hc_event C line of None \<Rightarrow> None | Some e \<Rightarrow> map_option ((#) e) (read_json_lines C ls)))"

definition readJSONLines :: "'e history_codec \<Rightarrow> string \<Rightarrow> 'e list option" where
  "readJSONLines C data = read_json_lines C (Split data (CHR 0x0A))"

definition history_Read :: "'e history_codec \<Rightarrow> history_options \<Rightarrow> history_file \<Rightarrow> history_error + 'e list" where
  "history_Read C opts f = (case f of
     HistoryAbsent \<Rightarrow> Inr []
   | HistoryUnreadable \<Rightarrow> Inl HistoryRead
   | HistoryText data \<Rightarrow>
       if TrimSpace data = [] then Inr []
       else (case hc_array C data of
           Some es \<Rightarrow> Inr es
         | None \<Rightarrow> if \<not> ho_AllowJSONLines opts then Inl HistoryIntegrity
                   else (case readJSONLines C data of None \<Rightarrow> Inl HistoryIntegrity | Some es \<Rightarrow> Inr es)))"

section \<open>Appending\<close>

record history_env =
  he_mkdir :: bool
  he_lock :: bool
  he_write :: bool
  he_unlock :: bool

definition keep_last :: "int \<Rightarrow> 'e list \<Rightarrow> 'e list" where
  "keep_last n es = (if int (length es) > n then drop (length es - nat n) es else es)"

definition history_write :: "'e history_codec \<Rightarrow> bool \<Rightarrow> 'e list \<Rightarrow> history_file \<Rightarrow> history_error option \<times> history_file" where
  "history_write C ok es f = (case hc_encode C es of None \<Rightarrow> (Some HistoryMarshal, f)
     | Some data \<Rightarrow> if ok then (None, HistoryText (data @ [CHR 0x0A])) else (Some HistoryWrite, f))"

definition max_events :: "history_options \<Rightarrow> int" where
  "max_events opts = (if ho_MaxEvents opts \<le> 0 then DefaultMaxEvents else ho_MaxEvents opts)"

definition history_Append :: "'e history_codec \<Rightarrow> history_options \<Rightarrow> history_env \<Rightarrow> 'e \<Rightarrow> history_file \<Rightarrow> history_error option \<times> history_file" where
  "history_Append C opts E e f =
     (if \<not> he_mkdir E then (Some HistoryDir, f)
      else if \<not> he_lock E then (Some HistoryLock, f)
      else (case (case history_Read C opts f of Inl err \<Rightarrow> (Some err, f) | Inr es \<Rightarrow> history_write C (he_write E) (keep_last (max_events opts) (es @ [e])) f) of
          (None, f') \<Rightarrow> (if he_unlock E then None else Some HistoryUnlock, f')
        | (Some err, f') \<Rightarrow> (Some err, f')))"

definition history_update :: "'e history_codec \<Rightarrow> history_options \<Rightarrow> history_env \<times> 'e \<Rightarrow> history_file \<Rightarrow> history_file" where
  "history_update C opts x f = snd (history_Append C opts (fst x) (snd x) f)"

interpretation histories: locked_update "history_update C opts" for C :: "'e history_codec" and opts .

section \<open>What a history holds\<close>

text \<open>The array that is written is read back.\<close>

definition array_codec :: "'e history_codec \<Rightarrow> bool" where
  "array_codec C \<longleftrightarrow> (\<forall>es. \<exists>data. hc_encode C es = Some data \<and> TrimSpace (data @ [CHR 0x0A]) \<noteq> [] \<and> hc_array C (data @ [CHR 0x0A]) = Some es)"

lemma max_events_pos: "max_events opts > 0"
  by (simp add: max_events_def DefaultMaxEvents_def)

lemma keep_last_length: "n > 0 \<Longrightarrow> int (length (keep_last n es)) \<le> n"
  by (auto simp: keep_last_def)

lemma keep_last_suffix: "\<exists>older. es = older @ keep_last n es"
  by (metis append_Nil append_take_drop_id keep_last_def)

lemma keep_last_drop: "n > 0 \<Longrightarrow> keep_last n es = drop (length es - nat n) es"
  by (auto simp: keep_last_def)

lemma keep_last_append: "n > 0 \<Longrightarrow> keep_last n (keep_last n a @ b) = keep_last n (a @ b)"
  by (cases "length a \<ge> nat n") (simp_all add: keep_last_drop add.commute)

text \<open>An append that is written makes the history its last entries with the event at the end; otherwise the file is as it was, and so a malformed one is never replaced.\<close>

definition commits :: "history_env \<Rightarrow> bool" where
  "commits E \<longleftrightarrow> he_mkdir E \<and> he_lock E \<and> he_write E"

lemma append_exact:
  assumes "array_codec C"
  shows "case history_Read C opts f of
      Inl err \<Rightarrow> history_update C opts (E, e) f = f
    | Inr es \<Rightarrow> if commits E then history_Read C opts (history_update C opts (E, e) f) = Inr (keep_last (max_events opts) (es @ [e])) else history_update C opts (E, e) f = f"
proof (cases "history_Read C opts f")
  case (Inl err)
  then show ?thesis by (simp add: history_update_def history_Append_def)
next
  case (Inr es)
  obtain data where d: "hc_encode C (keep_last (max_events opts) (es @ [e])) = Some data" "TrimSpace (data @ [CHR 0x0A]) \<noteq> []"
      "hc_array C (data @ [CHR 0x0A]) = Some (keep_last (max_events opts) (es @ [e]))"
    using assms unfolding array_codec_def by blast
  show ?thesis using Inr d by (auto simp: history_update_def history_Append_def history_write_def commits_def history_Read_def [of C opts "HistoryText (data @ [CHR 0x0A])"])
qed

lemma appends_exact:
  assumes "array_codec C" "history_Read C opts f = Inr es" "int (length es) \<le> max_events opts"
  shows "history_Read C opts (fold (history_update C opts) xs f) = Inr (keep_last (max_events opts) (es @ map snd (filter (\<lambda>x. commits (fst x)) xs)))"
  using assms(2,3)
proof (induction xs arbitrary: f es)
  case Nil
  then show ?case by (simp add: keep_last_def)
next
  case (Cons x xs)
  obtain E e where x: "x = (E, e)" by (cases x)
  let ?n = "max_events opts"
  show ?case
  proof (cases "commits E")
    case False
    then have "history_update C opts x f = f" using append_exact [OF assms(1), where opts = opts and f = f and E = E and e = e] Cons.prems(1) x by simp
    then show ?thesis using Cons.IH [OF Cons.prems] False x by simp
  next
    case True
    let ?es = "keep_last ?n (es @ [e])"
    have "history_Read C opts (history_update C opts x f) = Inr ?es"
      using append_exact [OF assms(1), where opts = opts and f = f and E = E and e = e] Cons.prems(1) x True by simp
    from Cons.IH [OF this keep_last_length [OF max_events_pos]]
    have "history_Read C opts (fold (history_update C opts) xs (history_update C opts x f)) = Inr (keep_last ?n (?es @ map snd (filter (\<lambda>x. commits (fst x)) xs)))" .
    moreover have "keep_last ?n (?es @ map snd (filter (\<lambda>x. commits (fst x)) xs)) = keep_last ?n ((es @ [e]) @ map snd (filter (\<lambda>x. commits (fst x)) xs))"
      by (rule keep_last_append [OF max_events_pos])
    ultimately show ?thesis using True x by simp
  qed
qed

text \<open>Any number of writers under the lock: the history is the last entries of the events that were committed, in the order of the commits.\<close>

lemma history_serial:
  assumes "array_codec C" "history_Read C opts f = Inr es" "int (length es) \<le> max_events opts" "histories.lock_run C opts f xs s"
  shows "history_Read C opts (lk_file s) = Inr (keep_last (max_events opts) (es @ map snd (filter (\<lambda>x. commits (fst x)) xs)))"
  using appends_exact [OF assms(1-3)] histories.serial [OF assms(4)] by simp

end
