(* ===== verification/Supervise.thy ===== *)
theory Supervise
  imports Go_Prelude
begin

text \<open>
  Supervised workspaces (pkg/workspace/supervise.go, health.go): the restart loop, the wait for a terminal state with its health probe, and the restart
  policies. What a start, an inspection or a probe returns and when a context ends are arguments, given as the list of attempts and of
  ticks; a list that is used up means that the loop still runs. Durations are unbounded: a configured number of seconds that overflows the 64 bits of a
  \<open>time.Duration\<close> (more than 292 years) is outside the model.
\<close>

section \<open>States and policies\<close>

datatype vm_state = StUnknown | StPrepared | StStarting | StRunning | StPaused | StStopping | StStopped | StHalted | StQuarantined | StFailed

definition DefaultRestartPolicy :: string where "DefaultRestartPolicy = ''never''"

definition NormalizeRestartPolicy :: "string \<Rightarrow> string" where
  "NormalizeRestartPolicy p = (if TrimSpace p = [] then DefaultRestartPolicy else TrimSpace p)"

definition ValidateRestartPolicy :: "string \<Rightarrow> bool" where
  "ValidateRestartPolicy p \<longleftrightarrow> NormalizeRestartPolicy p \<in> {''never'', ''on-failure'', ''always''}"

definition ShouldRestart :: "string \<Rightarrow> vm_state \<Rightarrow> bool" where
  "ShouldRestart policy st =
     (let p = NormalizeRestartPolicy policy in
      if p = ''always'' then st = StHalted \<or> st = StStopped \<or> st = StFailed
      else if p = ''on-failure'' then st = StFailed
      else False)"

definition isSupervisedTerminalState :: "vm_state \<Rightarrow> bool" where
  "isSupervisedTerminalState st \<longleftrightarrow> st \<in> {StHalted, StQuarantined, StStopped, StFailed}"

text \<open>Whether a failed start may be recorded over the state that is there.\<close>

definition supervisorHasLiveRecord :: "vm_state option \<Rightarrow> bool" where
  "supervisorHasLiveRecord st = (case st of Some s \<Rightarrow> s = StRunning \<or> s = StPaused \<or> s = StStopping | None \<Rightarrow> False)"

definition records_start_failure :: "bool \<Rightarrow> vm_state option \<Rightarrow> bool" where
  "records_start_failure ownsRuntimeState st \<longleftrightarrow> \<not> (ownsRuntimeState \<and> supervisorHasLiveRecord st)"

section \<open>Health\<close>

record health_check =
  hk_Exec :: "string list"
  hk_HTTPGet :: string
  hk_Port :: int
  hk_IntervalSeconds :: int
  hk_TimeoutSeconds :: int
  hk_Retries :: int
  hk_StartPeriodSeconds :: int

definition health_Declared :: "health_check \<Rightarrow> bool" where
  "health_Declared h \<longleftrightarrow> hk_Exec h \<noteq> [] \<or> TrimSpace (hk_HTTPGet h) \<noteq> []"

definition NormalizeHealthCheck :: "health_check \<Rightarrow> health_check" where
  "NormalizeHealthCheck h =
     h\<lparr>hk_IntervalSeconds := (if hk_IntervalSeconds h \<le> 0 then 30 else hk_IntervalSeconds h),
       hk_TimeoutSeconds := (if hk_TimeoutSeconds h \<le> 0 then 5 else hk_TimeoutSeconds h),
       hk_Retries := (if hk_Retries h \<le> 0 then 3 else hk_Retries h),
       hk_StartPeriodSeconds := (if hk_StartPeriodSeconds h < 0 then 0 else hk_StartPeriodSeconds h),
       hk_HTTPGet := TrimSpace (hk_HTTPGet h)\<rparr>"

datatype health_error = BothProbes | EmptyExec | HealthPath | HealthPort | NegativeHealth

definition ValidateHealthCheck :: "health_check \<Rightarrow> health_error option" where
  "ValidateHealthCheck h =
     (if \<not> health_Declared h then None
      else (let path = TrimSpace (hk_HTTPGet h) in
        if hk_Exec h \<noteq> [] \<and> path \<noteq> [] then Some BothProbes
        else if hk_Exec h \<noteq> [] \<and> TrimSpace (hd (hk_Exec h)) = [] then Some EmptyExec
        else if path \<noteq> [] \<and> \<not> HasPrefix path ''/'' then Some HealthPath
        else if path \<noteq> [] \<and> (hk_Port h \<le> 0 \<or> hk_Port h > 65535) then Some HealthPort
        else if hk_IntervalSeconds h < 0 \<or> hk_TimeoutSeconds h < 0 \<or> hk_Retries h < 0 \<or> hk_StartPeriodSeconds h < 0 then Some NegativeHealth
        else None))"

definition healthApplicable :: "health_check \<Rightarrow> bool \<Rightarrow> bool" where
  "healthApplicable h structuredExec \<longleftrightarrow> health_Declared h \<and> (hk_Exec h \<noteq> [] \<longrightarrow> structuredExec)"

record health_tracker =
  ht_cfg :: health_check
  ht_start :: time
  ht_last :: "time option"
  ht_consecutive :: int

definition newHealthTracker :: "health_check \<Rightarrow> time \<Rightarrow> health_tracker" where
  "newHealthTracker cfg start = \<lparr>ht_cfg = NormalizeHealthCheck cfg, ht_start = start, ht_last = None, ht_consecutive = 0\<rparr>"

definition hk_second :: duration where "hk_second = 1000000000"

text \<open>\<open>observe\<close>: whether the probe is due, and the verdict with the new tracker.\<close>

definition probe_due :: "health_tracker \<Rightarrow> time \<Rightarrow> bool \<Rightarrow> bool" where
  "probe_due t now up \<longleftrightarrow> health_Declared (ht_cfg t) \<and> up \<and> now - ht_start t \<ge> hk_StartPeriodSeconds (ht_cfg t) * hk_second \<and>
     (case ht_last t of None \<Rightarrow> True | Some l \<Rightarrow> now - l \<ge> hk_IntervalSeconds (ht_cfg t) * hk_second)"

definition observe :: "health_tracker \<Rightarrow> time \<Rightarrow> bool \<Rightarrow> bool \<Rightarrow> bool \<times> health_tracker" where
  "observe t now up healthy =
     (if \<not> probe_due t now up then (False, t)
      else if \<not> healthy then
        (let n = ht_consecutive t + 1 in (n \<ge> hk_Retries (ht_cfg t), t\<lparr>ht_last := Some now, ht_consecutive := n\<rparr>))
      else (False, t\<lparr>ht_last := Some now, ht_consecutive := 0\<rparr>))"

section \<open>Waiting\<close>

text \<open>One turn of the wait: what the inspection returns, the clock, the probe, and whether the context ends in the pause after it.\<close>

record sup_tick =
  tk_err :: bool
  tk_state :: "vm_state option"
  tk_now :: time
  tk_healthy :: bool
  tk_cancelled :: bool

datatype wait_result = WaitState vm_state | WaitError vm_state

text \<open>With a tracker \<open>waitForSupervisedHealthy\<close>, without one \<open>WaitForSupervised\<close>; the second result says whether the workspace was killed.\<close>

definition tick_health :: "health_tracker option \<Rightarrow> sup_tick \<Rightarrow> bool \<times> health_tracker option" where
  "tick_health tr t = (case tr of None \<Rightarrow> (False, None)
     | Some h \<Rightarrow> (case observe h (tk_now t) (tk_state t = Some StRunning) (tk_healthy t) of (kill, h') \<Rightarrow> (kill, Some h')))"

fun wait_supervised :: "health_tracker option \<Rightarrow> sup_tick list \<Rightarrow> (wait_result \<times> bool) option" where
  "wait_supervised tr [] = None"
| "wait_supervised tr (t # ts) =
     (let ended = (case tk_state t of Some s \<Rightarrow> isSupervisedTerminalState s | None \<Rightarrow> False); st = (case tk_state t of Some s \<Rightarrow> s | None \<Rightarrow> StUnknown) in
      if ended then Some (WaitState st, False)
      else if tk_err t then Some (WaitError st, False)
      else (case tick_health tr t of (kill, tr') \<Rightarrow>
        if kill then Some (WaitState StFailed, True) else if tk_cancelled t then Some (WaitError StUnknown, False) else wait_supervised tr' ts))"

section \<open>The loop\<close>

text \<open>One attempt: whether \<open>BeforeStart\<close> and the start succeed, whether the context ends in the pause after a failure, when the wait begins and its ticks.\<close>

record sup_attempt =
  at_before :: bool
  at_start :: bool
  at_cancelled :: bool
  at_began :: time
  at_ticks :: "sup_tick list"

record sup_options =
  sp_policy :: string
  sp_maxRestarts :: int
  sp_health :: health_check
  sp_structuredExec :: bool

record sup_result =
  sr_Policy :: string
  sr_Restarts :: int
  sr_FinalState :: "vm_state option"
  sr_Stopped :: bool
  sr_err :: bool

definition sup_tracker :: "sup_options \<Rightarrow> sup_attempt \<Rightarrow> health_tracker option" where
  "sup_tracker opts a = (if healthApplicable (sp_health opts) (sp_structuredExec opts) then Some (newHealthTracker (sp_health opts) (at_began a)) else None)"

definition restarts_spent :: "sup_options \<Rightarrow> int \<Rightarrow> bool" where
  "restarts_spent opts n \<longleftrightarrow> sp_maxRestarts opts > 0 \<and> n \<ge> sp_maxRestarts opts"

text \<open>The result, and the attempts to start that were made.\<close>

fun supervise_loop :: "sup_options \<Rightarrow> int \<Rightarrow> sup_attempt list \<Rightarrow> (sup_result \<times> nat) option" where
  "supervise_loop opts restarts [] = None"
| "supervise_loop opts restarts (a # more_attempts) =
     (let result = (\<lambda>n st e. Some (\<lparr>sr_Policy = NormalizeRestartPolicy (sp_policy opts), sr_Restarts = n, sr_FinalState = Some st, sr_Stopped = True, sr_err = e\<rparr>, 1)); again = map_option (apsnd Suc) (supervise_loop opts (restarts + 1) more_attempts) in
      if \<not> (at_before a \<and> at_start a) then
        (if \<not> ShouldRestart (sp_policy opts) StFailed then result restarts StFailed True
         else if restarts_spent opts (restarts + 1) then result (restarts + 1) StFailed False
         else if at_cancelled a then result (restarts + 1) StFailed True
         else again)
      else (case wait_supervised (sup_tracker opts a) (at_ticks a) of
          None \<Rightarrow> None
        | Some (WaitError st, _) \<Rightarrow> result restarts st True
        | Some (WaitState st, _) \<Rightarrow>
            (if \<not> ShouldRestart (sp_policy opts) st then result restarts st False
             else if restarts_spent opts (restarts + 1) then result (restarts + 1) st False
             else again)))"

definition supervise :: "sup_options \<Rightarrow> sup_attempt list \<Rightarrow> (sup_result \<times> nat) option" where
  "supervise opts attempts =
     (if NormalizeRestartPolicy (sp_policy opts) = ''never'' then Some (\<lparr>sr_Policy = NormalizeRestartPolicy (sp_policy opts), sr_Restarts = 0, sr_FinalState = None, sr_Stopped = True, sr_err = False\<rparr>, 0)
      else supervise_loop opts 0 attempts)"

section \<open>The health verdict\<close>

text \<open>The probes that a tracker runs over a list of ticks, with their times and outcomes.\<close>

fun probes :: "health_tracker \<Rightarrow> sup_tick list \<Rightarrow> (time \<times> bool) list" where
  "probes h [] = []"
| "probes h (t # ts) = (if probe_due h (tk_now t) (tk_state t = Some StRunning) then [(tk_now t, tk_healthy t)] else []) @
     probes (snd (observe h (tk_now t) (tk_state t = Some StRunning) (tk_healthy t))) ts"

text \<open>A kill comes after as many failed probes in a row as the retries ask for.\<close>

definition failed_run :: "(time \<times> bool) list \<Rightarrow> nat" where
  "failed_run ps = length (takeWhile (\<lambda>p. \<not> snd p) (rev ps))"

lemma failed_run_snoc [simp]: "failed_run (ps @ [(n, True)]) = 0" "failed_run (ps @ [(n, False)]) = Suc (failed_run ps)"
  by (simp_all add: failed_run_def)

lemma observe_cfg [simp]: "ht_cfg (snd (observe h now up healthy)) = ht_cfg h"
  by (simp add: observe_def Let_def)

lemma kill_after_failures:
  assumes "wait_supervised (Some h) ts = Some (w, True)" "ht_consecutive h = int (failed_run ps)"
  shows "\<exists>used. int (failed_run (ps @ probes h used)) \<ge> hk_Retries (ht_cfg h) \<and> (\<exists>rest. ts = used @ rest)"
  using assms
proof (induction ts arbitrary: h ps)
  case (Cons t ts)
  let ?up = "tk_state t = Some StRunning"
  obtain kill h' where o: "observe h (tk_now t) ?up (tk_healthy t) = (kill, h')" by fastforce
  have h': "h' = snd (observe h (tk_now t) ?up (tk_healthy t))" by (simp add: o)
  let ?ps = "ps @ (if probe_due h (tk_now t) ?up then [(tk_now t, tk_healthy t)] else [])"
  have c: "ht_consecutive h' = int (failed_run ?ps)" using o Cons.prems(2) by (auto simp: observe_def Let_def split: if_splits)
  have cfg: "ht_cfg h' = ht_cfg h" using h' by simp
  show ?case
  proof (cases kill)
    case True
    then have "int (failed_run ?ps) \<ge> hk_Retries (ht_cfg h)" using o c cfg by (auto simp: observe_def Let_def split: if_splits)
    then show ?thesis by (intro exI [of _ "[t]"]) simp
  next
    case False
    then have "wait_supervised (Some h') ts = Some (w, True)" using Cons.prems(1) o by (auto simp: tick_health_def Let_def split: if_splits)
    from Cons.IH [OF this c] obtain used rest where u: "int (failed_run (?ps @ probes h' used)) \<ge> hk_Retries (ht_cfg h')" "ts = used @ rest" by blast
    then show ?thesis using cfg h' by (intro exI [of _ "t # used"]) simp
  qed
qed simp

end
