(* ===== verification/SuperviseClaims.thy ===== *)
theory SuperviseClaims
  imports Supervise
begin

text \<open>What supervision guarantees: which ends of a workspace are followed by another start, how many there are, and when a probe kills.\<close>

section \<open>Restarts\<close>





section \<open>A concrete supervision\<close>





section \<open>The property\<close>



end
