(* ===== verification/Capacity.thy ===== *)
theory Capacity
  imports Supervise
begin

text \<open>
  The ceiling on active workspaces of a host (pkg/workspace/host_capacity.go): how it is computed, and how slots are reserved. A slot is a lock file that its
  process holds; counting and claiming run under one global lock, so they are atomic steps, between which workspaces change their state, reservations are released, and
  processes crash and drop their locks. \<open>locked\<close> says that the lock was taken
  and the directories were read. The environment variable, the memory of the host and \<open>strconv.Atoi\<close> are arguments.
\<close>

section \<open>The ceiling\<close>





section \<open>Reservations\<close>

text \<open>The states that are listed, and the reservation files with whether a process holds their lock.\<close>

record capacity_state =
  cp_entries :: "(string, vm_state) gomap"
  cp_files :: "(string, bool) gomap"

definition active_state :: "vm_state \<Rightarrow> bool" where
  "active_state st \<longleftrightarrow> st \<in> {StStarting, StRunning, StPaused}"

definition active_names :: "capacity_state \<Rightarrow> string list" where
  "active_names c = map fst (filter (\<lambda>x. active_state (snd x)) (cp_entries c))"


definition CountActiveWorkspaces :: "capacity_state \<Rightarrow> nat" where
  "CountActiveWorkspaces c = length (active_names c)"







section \<open>Interleavings\<close>













section \<open>A concrete host\<close>



section \<open>The property\<close>



end
