(* ===== verification/Requests.thy ===== *)
theory Requests
  imports Names Paths BrokerGrant
begin

text \<open>
  The requests a supervisor accepts (pkg/vmkit/types.go): identities, the audit record of a lifecycle command, and the configuration of a machine with its
  disks, listeners, network and mediation. Ports are words of their width. The fields that neither the validation nor the snapshots read are left out; an error is a value
  without its message, and of several errors found in the unspecified order of a map any may be the one returned.
\<close>

section \<open>Constants\<close>

definition MaxPurposeBytes :: nat where "MaxPurposeBytes = 4096"
definition MaxLifecycleTextBytes :: nat where "MaxLifecycleTextBytes = 4096"
definition MaxLifecycleProcesses :: nat where "MaxLifecycleProcesses = 256"
definition MaxCorrelationIDBytes :: nat where "MaxCorrelationIDBytes = 512"

section \<open>UTF-8\<close>

text \<open>\<open>utf8.ValidString\<close>: how many bytes follow a first byte, and between which bounds the second one is.\<close>

definition utf8_first :: "nat \<Rightarrow> (nat \<times> nat \<times> nat) option" where
  "utf8_first b =
     (if b < 128 then Some (0, 0, 0)
      else if 194 \<le> b \<and> b \<le> 223 then Some (1, 128, 191)
      else if b = 224 then Some (2, 160, 191)
      else if b = 237 then Some (2, 128, 159)
      else if 225 \<le> b \<and> b \<le> 239 then Some (2, 128, 191)
      else if b = 240 then Some (3, 144, 191)
      else if 241 \<le> b \<and> b \<le> 243 then Some (3, 128, 191)
      else if b = 244 then Some (3, 128, 143)
      else None)"

fun utf8_bytes :: "nat list \<Rightarrow> bool" where
  "utf8_bytes [] = True"
| "utf8_bytes (b # bs) = (case utf8_first b of None \<Rightarrow> False | Some (n, lo, hi) \<Rightarrow>
     n \<le> length bs \<and> (n > 0 \<longrightarrow> lo \<le> hd bs \<and> hd bs \<le> hi) \<and> list_all (\<lambda>c. 128 \<le> c \<and> c \<le> 191) (take (n - 1) (tl bs)) \<and> utf8_bytes (drop n bs))"

definition utf8_ValidString :: "string \<Rightarrow> bool" where
  "utf8_ValidString s = utf8_bytes (map of_char s)"

section \<open>Requests\<close>

datatype component_role = RoleWorkload | RoleEnforcer | OtherRole string

record vm_identity =
  id_RequestID :: string
  id_RuntimeID :: string
  id_SessionID :: string
  id_SourceSessionID :: string
  id_Purpose :: string
  id_CorrelationID :: string
  id_Role :: component_role
  id_Backend :: string

record caller_attribution =
  ca_Channel :: string
  ca_Subject :: string
  ca_DelegatedAuthority :: string
  ca_Assurance :: string

record declared_work =
  dw_Kind :: string
  dw_Command :: string

record guest_process =
  gp_PID :: int
  gp_PPID :: int
  gp_Command :: string

record work_in_flight =
  wf_Declared :: "declared_work list"
  wf_GuestReported :: "guest_process list"
  wf_CaptureStatus :: string
  wf_CaptureError :: string
  wf_EvidenceRef :: string

record notification_record =
  nr_Status :: string
  nr_Owner :: string
  nr_Reason :: string

record lifecycle_audit =
  la_Initiator :: caller_attribution
  la_Reason :: string
  la_WorkInFlight :: work_in_flight
  la_Notification :: notification_record

record vm_disk =
  vd_Name :: string
  vd_Path :: string
  vd_Mountpoint :: string
  vd_Mode :: string

record vsock_listener =
  vl_Port :: "32 word"
  vl_Target :: string

record mediation_config =
  md_Enabled :: bool
  md_Required :: bool
  md_Port :: "32 word"
  md_Target :: string
  md_FailClosed :: bool

record port_forward =
  pf_Protocol :: string
  pf_Host :: string
  pf_HostPort :: "16 word"
  pf_GuestPort :: "16 word"

text \<open>The address fields of a network, the egress posture and the caps are records of their own, since snapshots carry them along.\<close>

record net_address =
  na_IP :: string
  na_Gateway :: string
  na_Subnet :: string
  na_IPv6 :: string
  na_IPv6Gateway :: string
  na_IPv6Subnet :: string

record network_config =
  nw_Mode :: string
  nw_PortForwards :: "port_forward list"
  nw_Address :: net_address
  nw_RuntimeIP :: "string option"

record egress_posture =
  po_Mode :: string
  po_Allow :: "string list"
  po_Passthrough :: "string list"
  po_AllowlistLocked :: bool
  po_SwapConfigPath :: string

record config_caps =
  ec_MaxBytesPerSec :: int
  ec_MaxTotalBytes :: int
  ec_MaxConcurrentConns :: int
  ec_AuditMaxBytes :: int
  ec_AuditMaxBackups :: int

record vm_config =
  vc_KernelPath :: string
  vc_RootfsPath :: string
  vc_StateDir :: string
  vc_MemoryMiB :: int
  vc_CPUCount :: int
  vc_Hostname :: string
  vc_Disks :: "vm_disk list"
  vc_VsockListeners :: "vsock_listener list"
  vc_Network :: "network_config option"
  vc_Mediation :: "mediation_config option"
  vc_ShellPort :: "16 word"
  vc_ExecPort :: "16 word"
  vc_GuestShellPort :: "16 word"
  vc_GuestExecPort :: "16 word"
  vc_BakedVsockUDSPath :: string
  vc_ConfigDiskPath :: string
  vc_Secrets :: "secret_ref list"
  vc_SecretEnvFiles :: "string list"
  vc_SecretsControlPort :: "32 word"
  vc_Posture :: egress_posture
  vc_Caps :: config_caps

record vm_request =
  rq_Command :: string
  rq_Identity :: "vm_identity option"
  rq_Config :: "vm_config option"
  rq_Lifecycle :: "lifecycle_audit option"
  rq_Tag :: string

datatype identity_error = IdentityRequired | RequestIDRequired | RuntimeIDRequired | UnsafeRuntimeID | UnsafeSessionID | BadPurpose | BadCorrelationID | BadRole | IdentityBackend

datatype audit_error = ChannelRequired | CaptureStatusInvalid | NotificationInvalid | AssuranceInvalid | LifecycleText | TooManyProcesses | TooManyDeclared
  | DeclaredInvalid | ProcessIDs | ProcessCommand

datatype device_error = DiskUnnamed | DiskNameReserved | DiskTwice | DiskUnplaced | MountpointRequired | MountpointRelative | MountpointTwice | DiskBadMode
  | ListenerPort | ListenerTwice "32 word" | ListenerTarget

datatype network_error = NetworkModeUnknown | IsolatedForwards | ForwardProtocol nat | ForwardHostPort nat | ForwardGuestPort nat | ForwardTwice "16 word"
  | MediationDisabled | MediationPort | MediationTarget | MediationOpen

datatype config_error = ConfigRequired | KernelRequired | RootfsRequired | StateDirRequired | BadMemory | BadCPUs | HostnameTooLong | HostnameSplits
  | BadDevice device_error | BadNetwork network_error

datatype vm_request_error = CommandRequired | UnknownCommand string | BadIdentity identity_error | BadConfig config_error | BadAudit audit_error
  | SnapshotTagRequired | SnapshotTagInvalid

section \<open>Identity and audit\<close>

definition ValidateIdentity :: "vm_identity option \<Rightarrow> identity_error option" where
  "ValidateIdentity i = (case i of None \<Rightarrow> Some IdentityRequired | Some i \<Rightarrow>
     if TrimSpace (id_RequestID i) = [] then Some RequestIDRequired
     else if TrimSpace (id_RuntimeID i) = [] then Some RuntimeIDRequired
     else if \<not> SafeIdentifier (id_RuntimeID i) then Some UnsafeRuntimeID
     else if id_SessionID i \<noteq> [] \<and> \<not> SafeIdentifier (id_SessionID i) then Some UnsafeSessionID
     else if id_SourceSessionID i \<noteq> [] \<and> \<not> SafeIdentifier (id_SourceSessionID i) then Some UnsafeSessionID
     else if \<not> utf8_ValidString (id_Purpose i) \<or> length (id_Purpose i) > MaxPurposeBytes then Some BadPurpose
     else if \<not> utf8_ValidString (id_CorrelationID i) \<or> length (id_CorrelationID i) > MaxCorrelationIDBytes then Some BadCorrelationID
     else if id_Role i \<noteq> RoleWorkload \<and> id_Role i \<noteq> RoleEnforcer then Some BadRole
     else if TrimSpace (id_Backend i) = [] then Some IdentityBackend
     else None)"

definition lifecycle_text :: "string \<Rightarrow> bool" where
  "lifecycle_text s \<longleftrightarrow> utf8_ValidString s \<and> length s \<le> MaxLifecycleTextBytes"

definition audit_texts :: "lifecycle_audit \<Rightarrow> string list" where
  "audit_texts a = [la_Reason a, ca_Channel (la_Initiator a), ca_Subject (la_Initiator a), ca_DelegatedAuthority (la_Initiator a),
     wf_CaptureError (la_WorkInFlight a), wf_EvidenceRef (la_WorkInFlight a), nr_Reason (la_Notification a)]"

definition process_error :: "guest_process \<Rightarrow> audit_error option" where
  "process_error p = (if gp_PID p \<le> 0 \<or> gp_PPID p < 0 then Some ProcessIDs else if \<not> lifecycle_text (gp_Command p) then Some ProcessCommand else None)"

definition ValidateLifecycleAudit :: "lifecycle_audit option \<Rightarrow> audit_error option" where
  "ValidateLifecycleAudit audit = (case audit of None \<Rightarrow> None | Some a \<Rightarrow>
     let w = la_WorkInFlight a; n = la_Notification a in
     if ca_Channel (la_Initiator a) = [] then Some ChannelRequired
     else if wf_CaptureStatus w \<notin> {''captured'', ''unavailable'', ''failed'', ''not_running'', ''not_applicable'', ''skipped_hard_stop'', ''frozen_forensic_capture''}
     then Some CaptureStatusInvalid
     else if nr_Status n \<noteq> ''not_performed'' \<or> nr_Owner n \<noteq> ''caller'' then Some NotificationInvalid
     else if ca_Assurance (la_Initiator a) \<noteq> ''caller_asserted'' \<and> ca_Assurance (la_Initiator a) \<noteq> ''unavailable'' then Some AssuranceInvalid
     else if \<not> list_all lifecycle_text (audit_texts a) then Some LifecycleText
     else if length (wf_GuestReported w) > MaxLifecycleProcesses then Some TooManyProcesses
     else if length (wf_Declared w) > MaxLifecycleProcesses then Some TooManyDeclared
     else if list_ex (\<lambda>d. dw_Kind d = [] \<or> \<not> lifecycle_text (dw_Command d)) (wf_Declared w) then Some DeclaredInvalid
     else first_error process_error (wf_GuestReported w))"

section \<open>The configuration of a machine\<close>

definition NormalizeConfig :: "vm_config \<Rightarrow> vm_config" where
  "NormalizeConfig c = c\<lparr>vc_MemoryMiB := (if vc_MemoryMiB c = 0 then 512 else vc_MemoryMiB c), vc_CPUCount := (if vc_CPUCount c = 0 then 2 else vc_CPUCount c)\<rparr>"

text \<open>A rune of several bytes, or an invalid one, is above the blank: the test of the runes is one of the bytes.\<close>

definition validateConfigHostname :: "string \<Rightarrow> config_error option" where
  "validateConfigHostname h =
     (if h = [] then None
      else if length h > 253 then Some HostnameTooLong
      else if list_ex (\<lambda>c. (of_char c :: nat) \<le> 32 \<or> of_char c = (127 :: nat)) h then Some HostnameSplits
      else None)"

fun validate_disks :: "string list \<Rightarrow> string list \<Rightarrow> vm_disk list \<Rightarrow> device_error option" where
  "validate_disks taken mounts [] = None"
| "validate_disks taken mounts (d # ds) =
     (let name = TrimSpace (vd_Name d); mountpoint = TrimSpace (vd_Mountpoint d) in
      if name = [] then Some DiskUnnamed
      else if name = ''rootfs'' \<or> name = ''config'' then Some DiskNameReserved
      else if name \<in> set taken then Some DiskTwice
      else if TrimSpace (vd_Path d) = [] then Some DiskUnplaced
      else if mountpoint = [] then Some MountpointRequired
      else if \<not> HasPrefix mountpoint ''/'' then Some MountpointRelative
      else if mountpoint \<in> set mounts then Some MountpointTwice
      else if vd_Mode d \<noteq> ''ro'' \<and> vd_Mode d \<noteq> ''rw'' then Some DiskBadMode
      else validate_disks (name # taken) (mountpoint # mounts) ds)"

fun validate_listeners :: "32 word list \<Rightarrow> vsock_listener list \<Rightarrow> device_error option" where
  "validate_listeners ports [] = None"
| "validate_listeners ports (l # ls) =
     (if vl_Port l = 0 then Some ListenerPort
      else if vl_Port l \<in> set ports then Some (ListenerTwice (vl_Port l))
      else if TrimSpace (vl_Target l) = [] then Some ListenerTarget
      else validate_listeners (vl_Port l # ports) ls)"

definition ValidateMediationConfig :: "mediation_config \<Rightarrow> network_error option" where
  "ValidateMediationConfig m =
     (if \<not> md_Enabled m \<and> \<not> md_Required m \<and> md_Port m = 0 \<and> TrimSpace (md_Target m) = [] \<and> \<not> md_FailClosed m then None
      else if \<not> md_Enabled m then Some MediationDisabled
      else if md_Port m = 0 then Some MediationPort
      else if TrimSpace (md_Target m) = [] then Some MediationTarget
      else if md_Required m \<and> \<not> md_FailClosed m then Some MediationOpen
      else None)"

text \<open>The key of a forward is the string of protocol, host and port with slashes between; the port has none and the protocol is tcp, so it is taken as the triple.\<close>

fun validate_forwards :: "(string \<times> string \<times> 16 word) list \<Rightarrow> nat \<Rightarrow> port_forward list \<Rightarrow> network_error option" where
  "validate_forwards keys i [] = None"
| "validate_forwards keys i (f # fs) =
     (let protocol = (if TrimSpace (pf_Protocol f) = [] then ''tcp'' else TrimSpace (pf_Protocol f)); key = (protocol, TrimSpace (pf_Host f), pf_HostPort f) in
      if protocol \<noteq> ''tcp'' then Some (ForwardProtocol i)
      else if pf_HostPort f = 0 then Some (ForwardHostPort i)
      else if pf_GuestPort f = 0 then Some (ForwardGuestPort i)
      else if key \<in> set keys then Some (ForwardTwice (pf_HostPort f))
      else validate_forwards (key # keys) (Suc i) fs)"

definition ValidateNetworkConfig :: "network_config \<Rightarrow> network_error option" where
  "ValidateNetworkConfig n =
     (let mode = (if TrimSpace (nw_Mode n) = [] then ''user'' else TrimSpace (nw_Mode n)) in
      if mode \<noteq> ''user'' \<and> mode \<noteq> ''isolated'' then Some NetworkModeUnknown
      else if mode = ''isolated'' \<and> nw_PortForwards n \<noteq> [] then Some IsolatedForwards
      else validate_forwards [] 0 (nw_PortForwards n))"

text \<open>The normalization changes the caller's configuration; it is part of the result.\<close>

definition ValidateConfig :: "vm_config option \<Rightarrow> config_error option \<times> vm_config option" where
  "ValidateConfig config = (case config of None \<Rightarrow> (Some ConfigRequired, None) | Some c0 \<Rightarrow>
     let c = NormalizeConfig c0 in
     (if TrimSpace (vc_KernelPath c) = [] then Some KernelRequired
      else if TrimSpace (vc_RootfsPath c) = [] then Some RootfsRequired
      else if TrimSpace (vc_StateDir c) = [] then Some StateDirRequired
      else if vc_MemoryMiB c \<le> 0 then Some BadMemory
      else if vc_CPUCount c \<le> 0 then Some BadCPUs
      else or_else (validateConfigHostname (vc_Hostname c)) (or_else (map_option BadDevice (validate_disks [] [] (vc_Disks c)))
        (or_else (map_option BadDevice (validate_listeners [] (vc_VsockListeners c)))
        (or_else (case vc_Network c of None \<Rightarrow> None | Some n \<Rightarrow> map_option BadNetwork (ValidateNetworkConfig n))
          (case vc_Mediation c of None \<Rightarrow> None | Some m \<Rightarrow> map_option BadNetwork (ValidateMediationConfig m))))),
      Some c))"

section \<open>Commands\<close>

definition launch_commands :: "string list" where
  "launch_commands = [''check'', ''prepare'', ''start'', ''run'', ''console'', ''apply'']"

definition lifecycle_commands :: "string list" where
  "lifecycle_commands = [''inspect'', ''gc'', ''halt'', ''quarantine'', ''pause'', ''resume'', ''stop'', ''kill'', ''delete'', ''contain-freeze'', ''contain-sever'', ''contain-stop'']"

definition state_dir_given :: "vm_request \<Rightarrow> vm_request_error option" where
  "state_dir_given req = (case rq_Config req of None \<Rightarrow> Some (BadConfig StateDirRequired) | Some c \<Rightarrow> if TrimSpace (vc_StateDir c) = [] then Some (BadConfig StateDirRequired) else None)"

definition ValidateRequest :: "vm_request \<Rightarrow> vm_request_error option" where
  "ValidateRequest req =
     (if TrimSpace (rq_Command req) = [] then Some CommandRequired
      else if rq_Command req = ''host'' then None
      else if rq_Command req \<in> set launch_commands then
        or_else (map_option BadIdentity (ValidateIdentity (rq_Identity req))) (or_else (map_option BadConfig (fst (ValidateConfig (rq_Config req))))
          (if rq_Tag req \<noteq> [] \<and> \<not> SafeSnapshotTag (rq_Tag req) then Some SnapshotTagInvalid else None))
      else if rq_Command req \<in> set lifecycle_commands then
        or_else (map_option BadIdentity (ValidateIdentity (rq_Identity req))) (or_else (state_dir_given req) (map_option BadAudit (ValidateLifecycleAudit (rq_Lifecycle req))))
      else if rq_Command req = ''snapshot'' then
        or_else (map_option BadIdentity (ValidateIdentity (rq_Identity req))) (or_else (state_dir_given req)
          (if TrimSpace (rq_Tag req) = [] then Some SnapshotTagRequired else if \<not> SafeSnapshotTag (rq_Tag req) then Some SnapshotTagInvalid else None))
      else Some (UnknownCommand (rq_Command req)))"

section \<open>Block devices\<close>

function vd_letters :: "nat \<Rightarrow> string \<Rightarrow> string" where
  "vd_letters index name =
     (let name = char_of (97 + index mod 26) # name in
      if index < 26 then name else vd_letters (index div 26 - 1) name)"
  by pat_completeness auto
termination by (relation "measure fst") auto

declare vd_letters.simps [simp del]

definition VirtioBlockDevice :: "int \<Rightarrow> string" where
  "VirtioBlockDevice index = ''/dev/vd'' @ vd_letters (if index < 0 then 0 else nat index) []"

end
