(* ===== verification/Snapshots.thy ===== *)
theory Snapshots
  imports Requests Supervise EgressPolicy "HOL-Library.Char_ord" "HOL-Library.List_Lexorder"
begin

text \<open>
  Snapshots of a workspace: the manifest and its artifacts, the publication of a captured directory and the secret gates (pkg/vmkit/snapshot.go), the capture and the
  preparation of a restore on Firecracker (pkg/supervisors/firecracker/snapshot_linux.go) and the manifest and the restore on Apple VF (pkg/workspace/lifecycle_snapshot.go). What
  the file system, the machine and the guest answer are arguments; the JSON codec of a manifest is one too. Of a snapshot directory only its manifest matters.
\<close>

section \<open>The manifest\<close>

record snap_artifact =
  sa_Kind :: string
  sa_Path :: string

record snap_manifest =
  mf_Tag :: string
  mf_SourceSessionID :: string
  mf_NetworkMode :: string
  mf_GuestIP :: string
  mf_KernelSHA256 :: string
  mf_VCPUCount :: int
  mf_MemoryMiB :: int
  mf_CreatedAt :: string
  mf_ShellPort :: "16 word"
  mf_ExecPort :: "16 word"
  mf_Address :: net_address
  mf_RootfsArtifact :: string
  mf_MachineStateArtifacts :: "snap_artifact list"
  mf_VsockUDSPath :: string
  mf_SecretsMaterialized :: bool
  mf_SecretsPurged :: bool
  mf_Posture :: egress_posture
  mf_EgressCASHA256 :: string
  mf_Caps :: config_caps
  mf_Forensic :: bool
  mf_FrozenProcessState :: bool

definition SnapshotRootfsArtifact :: "snap_manifest \<Rightarrow> string" where
  "SnapshotRootfsArtifact m = (if mf_RootfsArtifact m \<noteq> [] then mf_RootfsArtifact m else ''rootfs.ext4'')"

definition FirecrackerSnapshotArtifacts :: "snap_artifact list" where
  "FirecrackerSnapshotArtifacts = [\<lparr>sa_Kind = ''firecracker-vmstate'', sa_Path = ''vmstate''\<rparr>, \<lparr>sa_Kind = ''firecracker-memory'', sa_Path = ''memory''\<rparr>,
     \<lparr>sa_Kind = ''config-disk'', sa_Path = ''config.disk''\<rparr>]"

definition AppleVFSnapshotArtifacts :: "snap_artifact list" where
  "AppleVFSnapshotArtifacts = [\<lparr>sa_Kind = ''apple-vf-machine-state'', sa_Path = ''machine-state.vz''\<rparr>, \<lparr>sa_Kind = ''apple-vf-restore-config'', sa_Path = ''apple-vf-config.json''\<rparr>,
     \<lparr>sa_Kind = ''config-disk'', sa_Path = ''config.disk''\<rparr>]"

definition SnapshotMachineStateArtifacts :: "snap_manifest \<Rightarrow> snap_artifact list" where
  "SnapshotMachineStateArtifacts m = (if mf_MachineStateArtifacts m \<noteq> [] then mf_MachineStateArtifacts m else FirecrackerSnapshotArtifacts)"

text \<open>\<open>filepath.IsLocal\<close>.\<close>

definition IsLocal :: "string \<Rightarrow> bool" where
  "IsLocal p =
     (if IsAbs p \<or> p = [] then False
      else (let q = (if list_ex (\<lambda>c. c = ''.'' \<or> c = ''..'') (Split p (CHR ''/'')) then Clean p else p) in q \<noteq> ''..'' \<and> \<not> HasPrefix q ''../''))"

definition validateSnapshotArtifactPath :: "string \<Rightarrow> bool" where
  "validateSnapshotArtifactPath p \<longleftrightarrow> \<not> (p = [] \<or> CHR 0x5C \<in> set p \<or> \<not> IsLocal p \<or> Clean p \<noteq> p \<or> p = ''.'')"

definition validateSnapshotManifestArtifacts :: "snap_manifest \<Rightarrow> bool" where
  "validateSnapshotManifestArtifacts m \<longleftrightarrow> validateSnapshotArtifactPath (SnapshotRootfsArtifact m) \<and>
     list_all (\<lambda>a. validateSnapshotArtifactPath (sa_Path a)) (SnapshotMachineStateArtifacts m)"

record manifest_codec =
  mc_marshal :: "snap_manifest \<Rightarrow> string option"
  mc_unmarshal :: "string \<Rightarrow> snap_manifest option"

datatype manifest_error = BadArtifactPath | ManifestDir | ManifestMarshal | ManifestWrite | ManifestAbsent | ManifestUnread | ManifestMalformed

definition WriteSnapshotManifest :: "manifest_codec \<Rightarrow> bool \<Rightarrow> bool \<Rightarrow> snap_manifest \<Rightarrow> manifest_error + string" where
  "WriteSnapshotManifest J mkdir wrote m =
     (if \<not> validateSnapshotManifestArtifacts m then Inl BadArtifactPath
      else if \<not> mkdir then Inl ManifestDir
      else (case mc_marshal J m of None \<Rightarrow> Inl ManifestMarshal | Some data \<Rightarrow> if wrote then Inr (data @ [CHR 0x0A]) else Inl ManifestWrite))"

datatype manifest_file = NoManifest | UnreadableManifest | ManifestData string

definition ReadSnapshotManifest :: "manifest_codec \<Rightarrow> manifest_file \<Rightarrow> manifest_error + snap_manifest" where
  "ReadSnapshotManifest J f = (case f of NoManifest \<Rightarrow> Inl ManifestAbsent | UnreadableManifest \<Rightarrow> Inl ManifestUnread | ManifestData data \<Rightarrow>
     (case mc_unmarshal J data of None \<Rightarrow> Inl ManifestMalformed
      | Some m \<Rightarrow> if validateSnapshotManifestArtifacts m then Inr m else Inl BadArtifactPath))"

text \<open>The listing skips what is no directory or has no manifest; any other damage fails it. The entries are the directory, its file and its size.\<close>

fun list_entries :: "manifest_codec \<Rightarrow> (bool \<times> manifest_file \<times> int option) list \<Rightarrow> manifest_error + (snap_manifest \<times> int) list" where
  "list_entries J [] = Inr []"
| "list_entries J ((isDir, f, bytes_used) # es) =
     (if \<not> isDir then list_entries J es
      else (case ReadSnapshotManifest J f of
          Inl e \<Rightarrow> if e = ManifestAbsent then list_entries J es else Inl e
        | Inr m \<Rightarrow> (case bytes_used of None \<Rightarrow> Inl ManifestUnread | Some n \<Rightarrow> (case list_entries J es of Inl e \<Rightarrow> Inl e | Inr infos \<Rightarrow> Inr ((m, n) # infos)))))"

definition ListSnapshots :: "manifest_codec \<Rightarrow> (bool \<times> manifest_file \<times> int option) list \<Rightarrow> manifest_error + (snap_manifest \<times> int) list" where
  "ListSnapshots J es = (case list_entries J es of Inl e \<Rightarrow> Inl e | Inr infos \<Rightarrow> Inr (sort_key (mf_CreatedAt \<circ> fst) (sort_key (mf_Tag \<circ> fst) infos)))"

definition SnapshotsDir :: "string \<Rightarrow> string \<Rightarrow> string" where
  "SnapshotsDir stateDir name = path_Join (path_Join stateDir name) ''snapshots''"

definition SnapshotDir :: "string \<Rightarrow> string \<Rightarrow> string \<Rightarrow> string" where
  "SnapshotDir stateDir name tag = path_Join (SnapshotsDir stateDir name) tag"

datatype remove_error = RemoveBadTag | RemoveAbsent | RemoveStat | SnapKept

text \<open>The directory that is removed, when one is.\<close>

definition RemoveSnapshot :: "string \<Rightarrow> string \<Rightarrow> string \<Rightarrow> bool option \<Rightarrow> bool \<Rightarrow> remove_error option \<times> string option" where
  "RemoveSnapshot stateDir name tag stat removed =
     (if \<not> SafeSnapshotTag tag then (Some RemoveBadTag, None)
      else (case stat of None \<Rightarrow> (Some RemoveStat, None) | Some False \<Rightarrow> (Some RemoveAbsent, None)
        | Some True \<Rightarrow> (if removed then None else Some SnapKept, Some (SnapshotDir stateDir name tag))))"

section \<open>Secrets\<close>

definition MaterializedSecretsDeclared :: "vm_config option \<Rightarrow> bool" where
  "MaterializedSecretsDeclared c = (case c of None \<Rightarrow> False | Some c \<Rightarrow> vc_Secrets c \<noteq> [] \<or> vc_SecretEnvFiles c \<noteq> [])"

definition ValidateSnapshotSecretCapture :: "vm_config option \<Rightarrow> bool \<Rightarrow> bool \<Rightarrow> bool" where
  "ValidateSnapshotSecretCapture c purged retainSecrets \<longleftrightarrow> retainSecrets \<or> \<not> (MaterializedSecretsDeclared c \<and> \<not> purged)"

datatype restore_error = RestoreUnpurged | RestoreNoSecrets | RestoreNoControlPort | RestoreManifest manifest_error | RestoreKernelHash | RestoreKernelSkew | RestoreCA | RestoreCASkew
  | RestoreConfig | RestoreRootfs | RestoreConfigDisk | RestoreNoConfig

definition ValidateSnapshotSecretRestore :: "snap_manifest \<Rightarrow> vm_config option \<Rightarrow> restore_error option" where
  "ValidateSnapshotSecretRestore m c =
     (if \<not> mf_SecretsMaterialized m then None
      else if \<not> mf_SecretsPurged m then Some RestoreUnpurged
      else if \<not> MaterializedSecretsDeclared c then Some RestoreNoSecrets
      else (case c of None \<Rightarrow> Some RestoreNoControlPort | Some c \<Rightarrow> if vc_SecretsControlPort c = 0 then Some RestoreNoControlPort else None))"

section \<open>Publication\<close>

text \<open>What a snapshot directory holds: a captured snapshot, or what a removal or a capture that failed left of one.\<close>

datatype snap_dir = SnapOf snap_manifest | Remains

record publish_state =
  pd_final :: "snap_dir option"
  pd_staging :: "snap_dir option"
  pd_backup :: "snap_dir option"

text \<open>Which of the calls succeed: the parent directory, the two removals, the look at the final directory, and the three renames.\<close>

record publish_env =
  pe_mkdir :: bool
  pe_clear :: bool
  pe_stat :: bool
  pe_aside :: bool
  pe_publish :: bool
  pe_rollback :: bool
  pe_cleanup :: bool

datatype publish_error = PublishMkdir | PublishAside | PublishRename

definition removed_dir :: "bool \<Rightarrow> snap_dir option \<Rightarrow> snap_dir option" where
  "removed_dir ok d = (if ok then None else map_option (\<lambda>_. Remains) d)"

text \<open>The state after every call; a rename onto a directory that is there fails, since a snapshot directory is not empty.\<close>

definition PublishSnapshotDir :: "publish_env \<Rightarrow> publish_state \<Rightarrow> publish_error option \<times> publish_state list" where
  "PublishSnapshotDir E f =
     (if \<not> pe_mkdir E then (Some PublishMkdir, [f])
      else (let f1 = f\<lparr>pd_backup := removed_dir (pe_clear E) (pd_backup f)\<rparr> in
        if pd_final f1 \<noteq> None \<and> pe_stat E then
          (if \<not> (pe_aside E \<and> pd_backup f1 = None) then (Some PublishAside, [f, f1])
           else (let f2 = f1\<lparr>pd_backup := pd_final f1, pd_final := None\<rparr> in
             if pe_publish E \<and> pd_staging f2 \<noteq> None then
               (let f3 = f2\<lparr>pd_final := pd_staging f2, pd_staging := None\<rparr> in (None, [f, f1, f2, f3, f3\<lparr>pd_backup := removed_dir (pe_cleanup E) (pd_backup f3)\<rparr>]))
             else (Some PublishRename, [f, f1, f2, if pe_rollback E then f2\<lparr>pd_final := pd_backup f2, pd_backup := None\<rparr> else f2])))
        else if pe_publish E \<and> pd_staging f1 \<noteq> None \<and> pd_final f1 = None
        then (None, [f, f1, f1\<lparr>pd_final := pd_staging f1, pd_staging := None\<rparr>])
        else (Some PublishRename, [f, f1])))"

section \<open>Manifests from the state of a machine\<close>

record snap_host =
  sh_fileSHA256 :: "string \<Rightarrow> string option"
  sh_caSHA256 :: "string \<Rightarrow> string option"
  sh_ParseCIDR :: "string \<Rightarrow> string option"
  sh_now :: string

text \<open>\<open>guestIPFromNetwork\<close>; the two packages differ in an address with a slash that is no network.\<close>

definition guestIPFromNetwork :: "snap_host \<Rightarrow> bool \<Rightarrow> network_config \<Rightarrow> string" where
  "guestIPFromNetwork H shorten n =
     (let own = TrimSpace (na_IP (nw_Address n)); ip = (if own = [] then (case nw_RuntimeIP n of None \<Rightarrow> own | Some r \<Rightarrow> TrimSpace r) else own) in
      if ip = [] then []
      else (case sh_ParseCIDR H ip of Some host \<Rightarrow> host | None \<Rightarrow> if shorten then takeWhile (\<lambda>c. c \<noteq> CHR ''/'') ip else ip))"

definition no_address :: net_address where
  "no_address = \<lparr>na_IP = [], na_Gateway = [], na_Subnet = [], na_IPv6 = [], na_IPv6Gateway = [], na_IPv6Subnet = []\<rparr>"

definition trim_address :: "net_address \<Rightarrow> net_address" where
  "trim_address a = \<lparr>na_IP = TrimSpace (na_IP a), na_Gateway = TrimSpace (na_Gateway a), na_Subnet = TrimSpace (na_Subnet a),
     na_IPv6 = TrimSpace (na_IPv6 a), na_IPv6Gateway = TrimSpace (na_IPv6Gateway a), na_IPv6Subnet = TrimSpace (na_IPv6Subnet a)\<rparr>"

record runtime_state =
  rs_State :: vm_state
  rs_PID :: int
  rs_SessionID :: string
  rs_Config :: vm_config

datatype capture_error = CaptureUnpurged | CaptureKernelHash | CaptureCA | CaptureVsock | CaptureNoReport

definition kernel_sha :: "snap_host \<Rightarrow> vm_config \<Rightarrow> capture_error + string" where
  "kernel_sha H c = (if TrimSpace (vc_KernelPath c) = [] then Inr []
     else (case sh_fileSHA256 H (TrimSpace (vc_KernelPath c)) of None \<Rightarrow> Inl CaptureKernelHash | Some sha \<Rightarrow> Inr sha))"

definition snap_mode :: "vm_config \<Rightarrow> string" where
  "snap_mode c = (case vc_Network c of None \<Rightarrow> [] | Some n \<Rightarrow> TrimSpace (nw_Mode n))"

definition ca_sha :: "snap_host \<Rightarrow> string \<Rightarrow> vm_config \<Rightarrow> capture_error + string" where
  "ca_sha H wsDir c = (if EgressModeForgesCerts (po_Mode (vc_Posture c)) \<and> NetworkModeMediates (snap_mode c)
     then (case sh_caSHA256 H wsDir of None \<Rightarrow> Inl CaptureCA | Some sha \<Rightarrow> Inr sha) else Inr [])"

text \<open>What both backends record.\<close>

definition base_manifest :: "snap_host \<Rightarrow> bool \<Rightarrow> string \<Rightarrow> runtime_state \<Rightarrow> string \<Rightarrow> string \<Rightarrow> bool \<Rightarrow> bool \<Rightarrow> snap_manifest" where
  "base_manifest H shorten tag st kernelSHA caSHA purged retainSecrets =
     (let c = rs_Config st in
      \<lparr>mf_Tag = tag, mf_SourceSessionID = rs_SessionID st, mf_NetworkMode = snap_mode c,
       mf_GuestIP = (case vc_Network c of None \<Rightarrow> [] | Some n \<Rightarrow> guestIPFromNetwork H shorten n), mf_KernelSHA256 = kernelSHA,
       mf_VCPUCount = vc_CPUCount c, mf_MemoryMiB = vc_MemoryMiB c, mf_CreatedAt = sh_now H,
       mf_ShellPort = (if vc_GuestShellPort c \<noteq> 0 then vc_GuestShellPort c else vc_ShellPort c),
       mf_ExecPort = (if vc_GuestExecPort c \<noteq> 0 then vc_GuestExecPort c else vc_ExecPort c),
       mf_Address = (case vc_Network c of None \<Rightarrow> no_address | Some n \<Rightarrow> trim_address (nw_Address n)), mf_RootfsArtifact = ''rootfs.ext4'', mf_MachineStateArtifacts = [],
       mf_VsockUDSPath = [], mf_SecretsMaterialized = MaterializedSecretsDeclared (Some c), mf_SecretsPurged = purged, mf_Posture = vc_Posture c,
       mf_EgressCASHA256 = caSHA, mf_Caps = vc_Caps c, mf_Forensic = retainSecrets, mf_FrozenProcessState = retainSecrets\<rparr>)"

definition needsVsock :: "vm_config \<Rightarrow> bool" where
  "needsVsock c \<longleftrightarrow> vc_VsockListeners c \<noteq> [] \<or> (case vc_Mediation c of None \<Rightarrow> False | Some m \<Rightarrow> md_Enabled m) \<or> vc_ExecPort c \<noteq> 0 \<or>
     (case vc_Network c of None \<Rightarrow> False | Some n \<Rightarrow> nw_PortForwards n \<noteq> [])"

text \<open>The own socket of a workspace is seen through its confinement; \<open>None\<close> when that path cannot be computed.\<close>

definition vsock_path :: "string option \<Rightarrow> vm_config \<Rightarrow> capture_error + string" where
  "vsock_path ownSocket c =
     (if \<not> needsVsock c then Inr []
      else if TrimSpace (vc_BakedVsockUDSPath c) \<noteq> [] then Inr (TrimSpace (vc_BakedVsockUDSPath c))
      else (case ownSocket of None \<Rightarrow> Inl CaptureVsock | Some p \<Rightarrow> Inr p))"

text \<open>Firecracker: the field of the lock is not set.\<close>

definition snapshotManifestFromState :: "snap_host \<Rightarrow> string \<Rightarrow> string option \<Rightarrow> string \<Rightarrow> runtime_state \<Rightarrow> bool \<Rightarrow> bool \<Rightarrow> capture_error + snap_manifest" where
  "snapshotManifestFromState H wsDir ownSocket tag st purged retainSecrets =
     (let c = rs_Config st in
      if \<not> ValidateSnapshotSecretCapture (Some c) purged retainSecrets then Inl CaptureUnpurged
      else (case kernel_sha H c of Inl e \<Rightarrow> Inl e | Inr kernelSHA \<Rightarrow>
        (case vsock_path ownSocket c of Inl e \<Rightarrow> Inl e | Inr vsockPath \<Rightarrow>
          (case ca_sha H wsDir c of Inl e \<Rightarrow> Inl e | Inr caSHA \<Rightarrow>
            (let m = base_manifest H False tag st kernelSHA caSHA purged retainSecrets in
             Inr (m\<lparr>mf_MachineStateArtifacts := FirecrackerSnapshotArtifacts, mf_VsockUDSPath := vsockPath,
               mf_Posture := (mf_Posture m)\<lparr>po_AllowlistLocked := False\<rparr>\<rparr>))))))"

text \<open>Apple VF: the supervisor reports whether it purged, or is silent.\<close>

definition apple_purged :: "vm_config \<Rightarrow> bool option \<Rightarrow> bool \<Rightarrow> capture_error + bool" where
  "apple_purged c report retainSecrets = (case report of Some b \<Rightarrow> Inr b
     | None \<Rightarrow> if retainSecrets then Inl CaptureNoReport else Inr (MaterializedSecretsDeclared (Some c)))"

definition appleVFSnapshotManifestFromState :: "snap_host \<Rightarrow> string \<Rightarrow> string \<Rightarrow> runtime_state \<Rightarrow> bool option \<Rightarrow> bool \<Rightarrow> capture_error + snap_manifest" where
  "appleVFSnapshotManifestFromState H wsDir tag st report retainSecrets =
     (let c = rs_Config st in
      (case apple_purged c report retainSecrets of Inl e \<Rightarrow> Inl e | Inr purged \<Rightarrow>
        if \<not> ValidateSnapshotSecretCapture (Some c) purged retainSecrets then Inl CaptureUnpurged
        else (case kernel_sha H c of Inl e \<Rightarrow> Inl e | Inr kernelSHA \<Rightarrow>
          (case ca_sha H wsDir c of Inl e \<Rightarrow> Inl e | Inr caSHA \<Rightarrow>
            Inr ((base_manifest H True tag st kernelSHA caSHA purged retainSecrets)\<lparr>mf_MachineStateArtifacts := AppleVFSnapshotArtifacts\<rparr>)))))"

end
