(* ===== verification/SnapshotFlow.thy ===== *)
theory SnapshotFlow
  imports Snapshots
begin

text \<open>
  The capture of a snapshot on Firecracker as the sequence of its effects (snapshotWorkspace of pkg/supervisors/firecracker/snapshot_linux.go), the preparation of a restore on
  both backends, and the certificate a restored mediator reuses (acquireEgressCA of network_linux.go). Which calls succeed is an argument.
\<close>

section \<open>Capture\<close>

datatype snap_effect = Purged bool | Patched string bool | RecordedState vm_state bool | CapturedMemory bool | Published bool | Rehydrated bool | Discarded

datatype artifacts_error = ArtifactsCapture | ArtifactsRootfs | ArtifactsConfigDisk | ArtifactsManifest capture_error | ArtifactsUnwritten manifest_error

datatype snapshot_error = SnapUnread | SnapState vm_state | SnapNoProcess | SnapProcess | SnapDead | SnapStaging | SnapNoControlPort | SnapNotRunning | SnapPurge
  | SnapPause | SnapRecord | SnapArtifacts artifacts_error | SnapPublish publish_error | SnapResume

record fc_env =
  fe_runtime :: "runtime_state option"
  fe_active :: "bool option"
  fe_staging :: bool
  fe_purge :: bool
  fe_pause :: bool
  fe_resume :: bool
  fe_record :: "nat \<Rightarrow> bool"
  fe_capture :: bool
  fe_rootfs :: bool
  fe_configDisk :: bool
  fe_host :: snap_host
  fe_wsDir :: string
  fe_socket :: "string option"
  fe_codec :: manifest_codec
  fe_wrote :: bool
  fe_publish :: publish_env
  fe_rehydrate :: bool
  fe_discard :: bool

definition writeSnapshotArtifacts :: "fc_env \<Rightarrow> runtime_state \<Rightarrow> string \<Rightarrow> bool \<Rightarrow> bool \<Rightarrow> artifacts_error + snap_manifest" where
  "writeSnapshotArtifacts E st tag purged retainSecrets =
     (if \<not> fe_capture E then Inl ArtifactsCapture
      else if \<not> fe_rootfs E then Inl ArtifactsRootfs
      else if vc_ConfigDiskPath (rs_Config st) \<noteq> [] \<and> \<not> fe_configDisk E then Inl ArtifactsConfigDisk
      else (case snapshotManifestFromState (fe_host E) (fe_wsDir E) (fe_socket E) tag st purged retainSecrets of
          Inl e \<Rightarrow> Inl (ArtifactsManifest e)
        | Inr m \<Rightarrow> (case WriteSnapshotManifest (fe_codec E) True (fe_wrote E) m of Inl e \<Rightarrow> Inl (ArtifactsUnwritten e) | Inr _ \<Rightarrow> Inr m)))"

text \<open>The purge: \<open>Inr\<close> tells whether it ran.\<close>

definition purge_phase :: "fc_env \<Rightarrow> bool \<Rightarrow> runtime_state \<Rightarrow> snapshot_error + bool" where
  "purge_phase E retainSecrets st =
     (if \<not> retainSecrets \<and> MaterializedSecretsDeclared (Some (rs_Config st)) then
        (if vc_SecretsControlPort (rs_Config st) = 0 then Inl SnapNoControlPort
         else if rs_State st \<noteq> StRunning then Inl SnapNotRunning
         else if \<not> fe_purge E then Inl SnapPurge else Inr True)
      else Inr False)"

definition purge_effects :: "snapshot_error + bool \<Rightarrow> snap_effect list" where
  "purge_effects r = (case r of Inl e \<Rightarrow> (if e = SnapPurge then [Purged False] else []) | Inr b \<Rightarrow> (if b then [Purged True] else []))"

definition discard :: "fc_env \<Rightarrow> publish_state \<Rightarrow> publish_state" where
  "discard E f = f\<lparr>pd_staging := removed_dir (fe_discard E) (pd_staging f)\<rparr>"

text \<open>Resuming after a failure: both results are ignored.\<close>

definition resume_back :: "fc_env \<Rightarrow> runtime_state \<Rightarrow> snap_effect list" where
  "resume_back E st = (if rs_State st = StRunning then [Patched ''Resumed'' (fe_resume E), RecordedState StRunning (fe_record E 1)] else [])"

definition after_publish :: "fc_env \<Rightarrow> runtime_state \<Rightarrow> bool \<Rightarrow> snapshot_error option \<times> snap_effect list" where
  "after_publish E st purged =
     (if rs_State st \<noteq> StRunning then (None, [])
      else if \<not> fe_resume E then (Some SnapResume, [Patched ''Resumed'' False])
      else if \<not> fe_record E 1 then (Some SnapRecord, [Patched ''Resumed'' True, RecordedState StRunning False])
      else (None, [Patched ''Resumed'' True, RecordedState StRunning True] @ (if purged then [Rehydrated (fe_rehydrate E)] else [])))"

definition memory_phase :: "fc_env \<Rightarrow> string \<Rightarrow> bool \<Rightarrow> runtime_state \<Rightarrow> bool \<Rightarrow> publish_state \<Rightarrow> snapshot_error option \<times> snap_effect list \<times> publish_state" where
  "memory_phase E tag retainSecrets st purged f =
     (let pre = (if rs_State st = StRunning then [Patched ''Paused'' True, RecordedState StPaused True] else []) in
      case writeSnapshotArtifacts E st tag purged retainSecrets of
        Inl e \<Rightarrow> (Some (SnapArtifacts e), pre @ CapturedMemory (fe_capture E) # resume_back E st @ [Discarded], discard E f)
      | Inr m \<Rightarrow> (case PublishSnapshotDir (fe_publish E) (f\<lparr>pd_staging := Some (SnapOf m)\<rparr>) of
          (Some e, fs) \<Rightarrow> (Some (SnapPublish e), pre @ [CapturedMemory True, Published False] @ resume_back E st @ [Discarded], discard E (last fs))
        | (None, fs) \<Rightarrow> (case after_publish E st purged of (err, es) \<Rightarrow> (err, pre @ [CapturedMemory True, Published True] @ es, last fs))))"

definition pause_phase :: "fc_env \<Rightarrow> string \<Rightarrow> bool \<Rightarrow> runtime_state \<Rightarrow> bool \<Rightarrow> publish_state \<Rightarrow> snapshot_error option \<times> snap_effect list \<times> publish_state" where
  "pause_phase E tag retainSecrets st purged f =
     (if rs_State st = StRunning \<and> \<not> fe_pause E then (Some SnapPause, [Patched ''Paused'' False, Discarded], discard E f)
      else if rs_State st = StRunning \<and> \<not> fe_record E 0
      then (Some SnapRecord, [Patched ''Paused'' True, RecordedState StPaused False, Patched ''Resumed'' (fe_resume E), Discarded], discard E f)
      else memory_phase E tag retainSecrets st purged f)"

definition snapshotWorkspace :: "fc_env \<Rightarrow> string \<Rightarrow> bool \<Rightarrow> publish_state \<Rightarrow> snapshot_error option \<times> snap_effect list \<times> publish_state" where
  "snapshotWorkspace E tag retainSecrets f = (case fe_runtime E of None \<Rightarrow> (Some SnapUnread, [], f) | Some st \<Rightarrow>
     if rs_State st \<noteq> StRunning \<and> rs_State st \<noteq> StPaused then (Some (SnapState (rs_State st)), [], f)
     else if rs_PID st = 0 then (Some SnapNoProcess, [], f)
     else (case fe_active E of None \<Rightarrow> (Some SnapProcess, [], f) | Some False \<Rightarrow> (Some SnapDead, [], f) | Some True \<Rightarrow>
       if \<not> fe_staging E then (Some SnapStaging, [], f)
       else (let f0 = f\<lparr>pd_staging := Some Remains\<rparr>; r = purge_phase E retainSecrets st in
         case r of Inl e \<Rightarrow> (Some e, purge_effects r @ [Discarded], discard E f0)
         | Inr purged \<Rightarrow> (case pause_phase E tag retainSecrets st purged f0 of (err, es, f') \<Rightarrow> (err, purge_effects r @ es, f')))))"

section \<open>Restore\<close>

definition kernel_matches :: "snap_host \<Rightarrow> snap_manifest \<Rightarrow> vm_config \<Rightarrow> restore_error option" where
  "kernel_matches H m c = (if mf_KernelSHA256 m = [] then None
     else (case sh_fileSHA256 H (vc_KernelPath c) of None \<Rightarrow> Some RestoreKernelHash | Some sha \<Rightarrow> if sha \<noteq> mf_KernelSHA256 m then Some RestoreKernelSkew else None))"

text \<open>The copies of a restore: their sources and targets, as far as they were tried. \<open>copied\<close> tells which succeed, \<open>diskThere\<close> whether the snapshot has a configuration disk.\<close>

definition restore_copies :: "(nat \<Rightarrow> bool) \<Rightarrow> bool \<Rightarrow> string \<Rightarrow> snap_manifest \<Rightarrow> vm_config \<Rightarrow> restore_error option \<times> (string \<times> string) list" where
  "restore_copies copied diskThere dir m c =
     (let rootfs = (path_Join dir (SnapshotRootfsArtifact m), vc_RootfsPath c); disk = (path_Join dir ''config.disk'', vc_ConfigDiskPath c) in
      if \<not> copied 0 then (Some RestoreRootfs, [rootfs])
      else if diskThere \<and> vc_ConfigDiskPath c \<noteq> [] then (if copied 1 then None else Some RestoreConfigDisk, [rootfs, disk])
      else (None, [rootfs]))"

text \<open>Firecracker. A supervisor request has a configuration.\<close>

definition prepareSnapshotRestore :: "manifest_codec \<Rightarrow> snap_host \<Rightarrow> manifest_file \<Rightarrow> (nat \<Rightarrow> bool) \<Rightarrow> bool \<Rightarrow> string \<Rightarrow> vm_config \<Rightarrow> restore_error option \<times> (string \<times> string) list" where
  "prepareSnapshotRestore J H file copied diskThere dir c = (case ReadSnapshotManifest J file of Inl e \<Rightarrow> (Some (RestoreManifest e), []) | Inr m \<Rightarrow>
     (case or_else (kernel_matches H m c) (ValidateSnapshotSecretRestore m (Some c)) of Some e \<Rightarrow> (Some e, [])
      | None \<Rightarrow> restore_copies copied diskThere dir m c))"

definition applyManifestEgressCaps :: "vm_config \<Rightarrow> snap_manifest \<Rightarrow> vm_config" where
  "applyManifestEgressCaps c m = c\<lparr>vc_Caps := mf_Caps m\<rparr>"

datatype ca_reuse_error = CAUnrecorded | CAKeyGone | CACertUnread | CASkew | CAUnminted

text \<open>The certificate of the mediator: reused on a restore, minted otherwise; the result tells whether it is new.\<close>

definition acquireEgressCA :: "snap_host \<Rightarrow> bool \<Rightarrow> string \<Rightarrow> bool \<Rightarrow> string \<Rightarrow> bool \<Rightarrow> ca_reuse_error + bool" where
  "acquireEgressCA H isRestore expected keyThere wsDir minted =
     (if isRestore then
        (if expected = [] then Inl CAUnrecorded
         else if \<not> keyThere then Inl CAKeyGone
         else (case sh_caSHA256 H wsDir of None \<Rightarrow> Inl CACertUnread | Some got \<Rightarrow> if got \<noteq> expected then Inl CASkew else Inr False))
      else if minted then Inr True else Inl CAUnminted)"

definition verifySnapshotEgressCA :: "snap_host \<Rightarrow> string \<Rightarrow> snap_manifest \<Rightarrow> restore_error option" where
  "verifySnapshotEgressCA H wsDir m =
     (if mf_EgressCASHA256 m = [] then None
      else (case sh_caSHA256 H wsDir of None \<Rightarrow> Some RestoreCA | Some got \<Rightarrow> if got \<noteq> mf_EgressCASHA256 m then Some RestoreCASkew else None))"

text \<open>The configuration saved with the snapshot, if there is one, with what belongs to the new machine put in its place.\<close>

datatype saved_config = NoSavedConfig | SavedUnreadable | SavedMalformed | SavedConfig vm_config

definition applyAppleVFRestoreConfig :: "saved_config \<Rightarrow> vm_config \<Rightarrow> restore_error + vm_config" where
  "applyAppleVFRestoreConfig file c = (case file of NoSavedConfig \<Rightarrow> Inr c | SavedUnreadable \<Rightarrow> Inl RestoreConfig | SavedMalformed \<Rightarrow> Inl RestoreConfig | SavedConfig saved \<Rightarrow>
     let s1 = saved\<lparr>vc_KernelPath := vc_KernelPath c, vc_RootfsPath := vc_RootfsPath c, vc_StateDir := vc_StateDir c,
           vc_ConfigDiskPath := (if vc_ConfigDiskPath saved \<noteq> [] then vc_ConfigDiskPath c else []), vc_VsockListeners := vc_VsockListeners c\<rparr>;
         s2 = (if vc_GuestShellPort c \<noteq> 0 then s1\<lparr>vc_GuestShellPort := vc_GuestShellPort c, vc_ShellPort := vc_ShellPort c\<rparr> else s1);
         s3 = (if vc_GuestExecPort c \<noteq> 0 then s2\<lparr>vc_GuestExecPort := vc_GuestExecPort c, vc_ExecPort := vc_ExecPort c\<rparr> else s2)
     in Inr s3)"

definition prepareAppleVFSnapshotRestore ::
  "manifest_codec \<Rightarrow> snap_host \<Rightarrow> manifest_file \<Rightarrow> saved_config \<Rightarrow> (nat \<Rightarrow> bool) \<Rightarrow> bool \<Rightarrow> string \<Rightarrow> string \<Rightarrow> vm_config option \<Rightarrow> restore_error option \<times> vm_config option \<times> (string \<times> string) list" where
  "prepareAppleVFSnapshotRestore J H file saved copied diskThere wsDir dir config = (case config of None \<Rightarrow> (Some RestoreNoConfig, None, []) | Some c \<Rightarrow>
     (case ReadSnapshotManifest J file of Inl e \<Rightarrow> (Some (RestoreManifest e), Some c, []) | Inr m \<Rightarrow>
       (case or_else (kernel_matches H m c) (or_else (ValidateSnapshotSecretRestore m (Some c)) (verifySnapshotEgressCA H wsDir m)) of Some e \<Rightarrow> (Some e, Some c, [])
        | None \<Rightarrow> (case applyAppleVFRestoreConfig saved c of Inl e \<Rightarrow> (Some e, Some c, []) | Inr c1 \<Rightarrow>
            let c2 = applyManifestEgressCaps c1 m in
            (case restore_copies copied diskThere dir m c2 of (err, es) \<Rightarrow> (err, Some c2, es))))))"

text \<open>The network of a fork: the addresses of the snapshot, the forwards of the caller.\<close>

definition adoptSnapshotNetwork :: "network_config \<Rightarrow> snap_manifest \<Rightarrow> network_config" where
  "adoptSnapshotNetwork requested m = \<lparr>nw_Mode = mf_NetworkMode m, nw_PortForwards = nw_PortForwards requested, nw_Address = mf_Address m, nw_RuntimeIP = None\<rparr>"

section \<open>Liveness after a restore\<close>

text \<open>One turn of the poll: whether the process exited, the guest halted, the probe answered, the deadline is over and the context is done.\<close>

record live_poll =
  lp_exited :: bool
  lp_halted :: bool
  lp_answered :: bool
  lp_late :: bool
  lp_done :: bool

datatype live_error = LiveExited | LiveHalted | LiveUnverified | LiveCancelled

fun waitForRestoreLiveness :: "bool \<Rightarrow> live_poll list \<Rightarrow> live_error option option" where
  "waitForRestoreLiveness hasPort [] = None"
| "waitForRestoreLiveness hasPort (p # ps) =
     (if lp_exited p then Some (Some LiveExited)
      else if lp_halted p then Some (Some LiveHalted)
      else if hasPort \<and> lp_answered p then Some None
      else if lp_late p then Some (Some LiveUnverified)
      else if lp_done p then Some (Some LiveCancelled)
      else waitForRestoreLiveness hasPort ps)"

end
