(* ===== verification/RequestClaims.thy ===== *)
theory RequestClaims
  imports Requests
begin

text \<open>What a supervisor may rely on when a request was accepted.\<close>

section \<open>Names\<close>

lemma trim_right_prefix: "prefix (trim_right P s) s"
  unfolding prefix_def using trim_right_decomp2 [of P s] by metis

lemma TrimSpace_core: "\<exists>a b. s = a @ TrimSpace s @ b \<and> (\<forall>c \<in> set a \<union> set b. is_space c)"
proof -
  have "s = takeWhile is_space s @ trim_left is_space s" by (simp add: trim_left_def)
  moreover have "trim_left is_space s = TrimSpace s @ rev (takeWhile is_space (rev (trim_left is_space s)))"
    unfolding TrimSpace_def trim_right_def by (metis rev_append rev_rev_ident takeWhile_dropWhile_id)
  ultimately have "s = takeWhile is_space s @ TrimSpace s @ rev (takeWhile is_space (rev (trim_left is_space s)))" by metis
  moreover have "\<forall>c \<in> set (takeWhile is_space s) \<union> set (rev (takeWhile is_space (rev (trim_left is_space s)))). is_space c" by (auto dest: set_takeWhileD)
  ultimately show ?thesis by blast
qed

lemma SafeIdentifier_proper:
  assumes "SafeIdentifier s"
  shows "proper s" "CHR 0x00 \<notin> set s" "CHR 0x5C \<notin> set s"
proof -
  have v: "TrimSpace s \<noteq> []" "TrimSpace s \<noteq> ''.''" "TrimSpace s \<noteq> ''..''" "CHR ''/'' \<notin> set (TrimSpace s)" "CHR 0x5C \<notin> set (TrimSpace s)" "CHR 0x00 \<notin> set (TrimSpace s)"
    using assms by (auto simp: SafeIdentifier_def Let_def list_ex_iff split: if_splits)
  obtain a b where ab: "s = a @ TrimSpace s @ b" "\<forall>c \<in> set a \<union> set b. is_space c" using TrimSpace_core by blast
  have ns: "c \<notin> set s" if "c \<notin> set (TrimSpace s)" "\<not> is_space c" for c using ab that by (metis Un_iff set_append)
  show "CHR 0x00 \<notin> set s" "CHR 0x5C \<notin> set s" using ns v by (auto simp: is_space_def)
  have sl: "CHR ''/'' \<notin> set s" using ns v by (auto simp: is_space_def)
  have "s \<noteq> ''.'' \<and> s \<noteq> ''..''" using v(2,3) TrimSpace_no_space [of s] by (auto simp: is_space_def)
  moreover have "s \<noteq> []" using v(1) by (auto simp: TrimSpace_def trim_left_def trim_right_def)
  ultimately show "proper s" using sl by (simp add: proper_def)
qed

lemma tag_proper: "SafeSnapshotTag t \<Longrightarrow> proper t"
  using name_component [of t] by (simp add: tag_is_name proper_def)

section \<open>Lists without repetition\<close>

lemma disks_valid:
  "validate_disks taken mounts ds = None \<Longrightarrow> distinct taken \<Longrightarrow> distinct mounts \<Longrightarrow>
     distinct (rev (map (TrimSpace \<circ> vd_Name) ds) @ taken) \<and> distinct (rev (map (TrimSpace \<circ> vd_Mountpoint) ds) @ mounts) \<and>
     (\<forall>d \<in> set ds. TrimSpace (vd_Name d) \<notin> {[], ''rootfs'', ''config''} \<and> HasPrefix (TrimSpace (vd_Mountpoint d)) ''/'' \<and> vd_Mode d \<in> {''ro'', ''rw''} \<and> TrimSpace (vd_Path d) \<noteq> [])"
proof (induction ds arbitrary: taken mounts)
  case (Cons d ds)
  let ?n = "TrimSpace (vd_Name d)" and ?m = "TrimSpace (vd_Mountpoint d)"
  have h: "?n \<noteq> []" "?n \<noteq> ''rootfs''" "?n \<noteq> ''config''" "?n \<notin> set taken" "TrimSpace (vd_Path d) \<noteq> []" "HasPrefix ?m ''/''" "?m \<notin> set mounts" "vd_Mode d = ''ro'' \<or> vd_Mode d = ''rw''"
    and r: "validate_disks (?n # taken) (?m # mounts) ds = None"
    using Cons.prems(1) by (simp_all add: Let_def split: if_splits)
  from Cons.IH [OF r] h Cons.prems(2,3) show ?case by auto
qed simp

lemma listeners_valid:
  "validate_listeners ports ls = None \<Longrightarrow> distinct ports \<Longrightarrow>
     distinct (rev (map vl_Port ls) @ ports) \<and> (\<forall>l \<in> set ls. vl_Port l \<noteq> 0 \<and> TrimSpace (vl_Target l) \<noteq> [])"
proof (induction ls arbitrary: ports)
  case (Cons l ls)
  have h: "vl_Port l \<noteq> 0" "vl_Port l \<notin> set ports" "TrimSpace (vl_Target l) \<noteq> []" and r: "validate_listeners (vl_Port l # ports) ls = None"
    using Cons.prems(1) by (simp_all split: if_splits)
  from Cons.IH [OF r] h Cons.prems(2) show ?case by auto
qed simp

abbreviation forward_place :: "port_forward \<Rightarrow> string \<times> 16 word" where
  "forward_place f \<equiv> (TrimSpace (pf_Host f), pf_HostPort f)"

lemma forwards_valid:
  "validate_forwards keys i fs = None \<Longrightarrow> (\<forall>k \<in> set keys. fst k = ''tcp'') \<Longrightarrow> distinct (map snd keys) \<Longrightarrow>
     distinct (rev (map forward_place fs) @ map snd keys) \<and> (\<forall>f \<in> set fs. pf_HostPort f \<noteq> 0 \<and> pf_GuestPort f \<noteq> 0)"
proof (induction fs arbitrary: keys i)
  case (Cons f fs)
  let ?k = "(''tcp'', forward_place f)"
  have h: "pf_HostPort f \<noteq> 0" "pf_GuestPort f \<noteq> 0" "?k \<notin> set keys" and r: "validate_forwards (?k # keys) (Suc i) fs = None"
    using Cons.prems(1) by (simp_all add: Let_def split: if_splits)
  have n: "forward_place f \<notin> set (map snd keys)"
  proof
    assume "forward_place f \<in> set (map snd keys)"
    then obtain k where "k \<in> set keys" "snd k = forward_place f" by auto
    then show False using h(3) Cons.prems(2) by (metis prod.collapse)
  qed
  from Cons.IH [OF r] h n Cons.prems(2,3) show ?case by auto
qed simp

section \<open>Block devices\<close>

text \<open>The position is read back from the letters.\<close>

definition letter_value :: "nat \<Rightarrow> char \<Rightarrow> nat" where
  "letter_value v c = v * 26 + (of_char c - 96)"

definition device_position :: "string \<Rightarrow> nat" where
  "device_position s = foldl letter_value 0 s - 1"

lemma letters_value: "foldl letter_value 0 (vd_letters n acc) = foldl letter_value (n + 1) acc"
proof (induction n acc rule: vd_letters.induct)
  case (1 n acc)
  have c: "of_char (char_of (97 + n mod 26)) - 96 = (1 + n mod 26 :: nat)" by (simp add: of_char_of take_bit_eq_mod)
  show ?case
  proof (cases "n < 26")
    case True
    then show ?thesis using c by (simp add: vd_letters.simps [of n acc] Let_def letter_value_def)
  next
    case False
    have "(n div 26 - 1 + 1) * 26 + (1 + n mod 26) = n + 1" using False by (simp add: div_greater_zero_iff)
    then show ?thesis using 1 [OF refl False] False c by (simp add: vd_letters.simps [of n acc] Let_def letter_value_def)
  qed
qed

lemma VirtioBlockDevice_position: "device_position (drop 7 (VirtioBlockDevice (int n))) = n"
  using letters_value [of n "[]"] by (simp add: device_position_def VirtioBlockDevice_def)

lemma VirtioBlockDevice_inj: "VirtioBlockDevice (int i) = VirtioBlockDevice (int j) \<Longrightarrow> i = j"
  using VirtioBlockDevice_position by metis

section \<open>Accepted requests\<close>

definition config_sound :: "vm_config \<Rightarrow> bool" where
  "config_sound c \<longleftrightarrow> vc_MemoryMiB c > 0 \<and> vc_CPUCount c > 0 \<and> (\<forall>r \<in> set (vc_Hostname c). \<not> is_space r) \<and>
     distinct (map (TrimSpace \<circ> vd_Name) (vc_Disks c)) \<and> distinct (map (TrimSpace \<circ> vd_Mountpoint) (vc_Disks c)) \<and>
     (\<forall>d \<in> set (vc_Disks c). TrimSpace (vd_Name d) \<notin> {[], ''rootfs'', ''config''} \<and> HasPrefix (TrimSpace (vd_Mountpoint d)) ''/'' \<and> vd_Mode d \<in> {''ro'', ''rw''}) \<and>
     distinct (map vl_Port (vc_VsockListeners c)) \<and> 0 \<notin> set (map vl_Port (vc_VsockListeners c)) \<and>
     (\<forall>n. vc_Network c = Some n \<longrightarrow> distinct (map forward_place (nw_PortForwards n)) \<and> (TrimSpace (nw_Mode n) = ''isolated'' \<longrightarrow> nw_PortForwards n = [])) \<and>
     (\<forall>m. vc_Mediation c = Some m \<longrightarrow> md_Required m \<longrightarrow> md_Enabled m \<and> md_FailClosed m \<and> md_Port m \<noteq> 0)"

lemma ValidateIdentity_proper: "ValidateIdentity i = None \<Longrightarrow> \<exists>j. i = Some j \<and> proper (id_RuntimeID j) \<and> CHR 0x00 \<notin> set (id_RuntimeID j) \<and> length (id_Purpose j) \<le> 4096"
  by (auto simp: ValidateIdentity_def MaxPurposeBytes_def SafeIdentifier_proper split: option.splits if_splits)

lemma network_sound:
  assumes "ValidateNetworkConfig n = None"
  shows "distinct (map forward_place (nw_PortForwards n))" "TrimSpace (nw_Mode n) = ''isolated'' \<Longrightarrow> nw_PortForwards n = []"
proof -
  have "validate_forwards [] 0 (nw_PortForwards n) = None" using assms by (simp add: ValidateNetworkConfig_def Let_def split: if_splits)
  from forwards_valid [OF this] show "distinct (map forward_place (nw_PortForwards n))" by simp
  show "TrimSpace (nw_Mode n) = ''isolated'' \<Longrightarrow> nw_PortForwards n = []" using assms by (simp add: ValidateNetworkConfig_def Let_def split: if_splits)
qed

lemma ValidateConfig_sound:
  assumes "fst (ValidateConfig c) = None"
  shows "\<exists>d. snd (ValidateConfig c) = Some d \<and> config_sound d"
proof -
  obtain c0 where c0: "c = Some c0" using assms by (cases c) (auto simp: ValidateConfig_def)
  let ?d = "NormalizeConfig c0"
  have v: "vc_MemoryMiB ?d > 0" "vc_CPUCount ?d > 0" "validateConfigHostname (vc_Hostname ?d) = None" "validate_disks [] [] (vc_Disks ?d) = None"
    "validate_listeners [] (vc_VsockListeners ?d) = None" "\<And>n. vc_Network ?d = Some n \<Longrightarrow> ValidateNetworkConfig n = None" "\<And>m. vc_Mediation ?d = Some m \<Longrightarrow> ValidateMediationConfig m = None"
    using assms by (simp_all add: c0 ValidateConfig_def Let_def split: if_splits)
  have "\<forall>r \<in> set (vc_Hostname ?d). \<not> is_space r" using v(3) by (auto simp: validateConfigHostname_def list_ex_iff is_space_def split: if_splits)
  moreover have "md_Required m \<longrightarrow> md_Enabled m \<and> md_FailClosed m \<and> md_Port m \<noteq> 0" if "vc_Mediation ?d = Some m" for m
    using v(7) [OF that] by (auto simp: ValidateMediationConfig_def split: if_splits)
  moreover have "snd (ValidateConfig c) = Some ?d" by (simp add: c0 ValidateConfig_def Let_def)
  ultimately show ?thesis
    using v(1,2) disks_valid [OF v(4)] listeners_valid [OF v(5)] network_sound [OF v(6)] unfolding config_sound_def by auto
qed

section \<open>A concrete request\<close>

definition plain_config :: vm_config where
  "plain_config = \<lparr>vc_KernelPath = ''k'', vc_RootfsPath = ''r'', vc_StateDir = ''s'', vc_MemoryMiB = 0, vc_CPUCount = 0, vc_Hostname = ''web'',
     vc_Disks = [\<lparr>vd_Name = ''d'', vd_Path = ''p'', vd_Mountpoint = ''/d'', vd_Mode = ''rw''\<rparr>], vc_VsockListeners = [\<lparr>vl_Port = 5, vl_Target = ''t''\<rparr>],
     vc_Network = None, vc_Mediation = None, vc_ShellPort = 0, vc_ExecPort = 0, vc_GuestShellPort = 0, vc_GuestExecPort = 0, vc_BakedVsockUDSPath = [], vc_ConfigDiskPath = [],
     vc_Secrets = [], vc_SecretEnvFiles = [], vc_SecretsControlPort = 0,
     vc_Posture = \<lparr>po_Mode = ''broker'', po_Allow = [], po_Passthrough = [], po_AllowlistLocked = False, po_SwapConfigPath = []\<rparr>,
     vc_Caps = \<lparr>ec_MaxBytesPerSec = 0, ec_MaxTotalBytes = 0, ec_MaxConcurrentConns = 0, ec_AuditMaxBytes = 0, ec_AuditMaxBackups = 0\<rparr>\<rparr>"

definition web_request :: vm_request where
  "web_request = \<lparr>rq_Command = ''start'', rq_Identity = Some \<lparr>id_RequestID = ''r'', id_RuntimeID = ''web'', id_SessionID = [], id_SourceSessionID = [], id_Purpose = [], id_CorrelationID = [],
       id_Role = RoleWorkload, id_Backend = ''k''\<rparr>,
     rq_Config = Some plain_config, rq_Lifecycle = None, rq_Tag = []\<rparr>"

section \<open>The property\<close>

text \<open>
  C38. A request that the validation accepts can be carried out inside its state directory. Its identity is there, and its runtime identifier and snapshot tag are single path components: not
  empty, not ``.'' or ``..'', without a slash or a zero byte. For the commands that launch a machine the normalized configuration has positive memory and processors, a host name that is
  one word of the kernel command line, disks with different names and mount points, listeners and forwards on different ports, no forward in an isolated network, and a
  required mediation that fails closed; every disk gets a block device of its own. A lifecycle record has at most 256 processes. Any other command is refused.
\<close>

theorem accepted_requests:
  assumes "ValidateRequest req = None" "rq_Command req \<noteq> ''host''"
  shows "(\<exists>i. rq_Identity req = Some i \<and> proper (id_RuntimeID i) \<and> CHR 0x00 \<notin> set (id_RuntimeID i) \<and> length (id_Purpose i) \<le> 4096) \<and>
    (rq_Command req \<in> set launch_commands \<longrightarrow> (\<exists>c. snd (ValidateConfig (rq_Config req)) = Some c \<and> config_sound c) \<and> (rq_Tag req \<noteq> [] \<longrightarrow> proper (rq_Tag req))) \<and>
    (rq_Command req \<in> set lifecycle_commands \<longrightarrow> (\<forall>a. rq_Lifecycle req = Some a \<longrightarrow> length (wf_GuestReported (la_WorkInFlight a)) \<le> 256)) \<and>
    (rq_Command req = ''snapshot'' \<longrightarrow> proper (rq_Tag req)) \<and> rq_Command req \<in> set (launch_commands @ lifecycle_commands @ [''snapshot'']) \<and>
    inj (\<lambda>n. VirtioBlockDevice (int n))"
proof -
  note V = assms(1) [unfolded ValidateRequest_def]
  have k: "rq_Command req \<in> set (launch_commands @ lifecycle_commands @ [''snapshot''])" using V assms(2) by (auto split: if_splits)
  have i: "ValidateIdentity (rq_Identity req) = None" using V assms(2) by (simp split: if_splits)
  have l: "fst (ValidateConfig (rq_Config req)) = None" "rq_Tag req \<noteq> [] \<longrightarrow> SafeSnapshotTag (rq_Tag req)" if "rq_Command req \<in> set launch_commands"
    using V assms(2) that by (auto split: if_splits)
  have a: "ValidateLifecycleAudit (rq_Lifecycle req) = None" if "rq_Command req \<in> set lifecycle_commands"
    using V assms(2) that by (auto simp: launch_commands_def lifecycle_commands_def split: if_splits)
  have s: "SafeSnapshotTag (rq_Tag req)" if "rq_Command req = ''snapshot''"
    using V that by (simp add: launch_commands_def lifecycle_commands_def split: if_splits)
  have "length (wf_GuestReported (la_WorkInFlight x)) \<le> 256" if "rq_Command req \<in> set lifecycle_commands" "rq_Lifecycle req = Some x" for x
    using a [OF that(1)] that(2) by (simp add: ValidateLifecycleAudit_def Let_def MaxLifecycleProcesses_def split: if_splits)
  moreover have "inj (\<lambda>n. VirtioBlockDevice (int n))" using VirtioBlockDevice_inj by (auto intro: injI)
  ultimately show ?thesis using k ValidateIdentity_proper [OF i] ValidateConfig_sound l tag_proper s by blast
qed

theorem accepted_requests_witness:
  "\<exists>c. snd (ValidateConfig (rq_Config web_request)) = Some c \<and> config_sound c"
proof -
  have "ValidateRequest web_request = None" by code_simp
  moreover have "rq_Command web_request \<noteq> ''host''" "rq_Command web_request \<in> set launch_commands" by (simp_all add: web_request_def launch_commands_def)
  ultimately show ?thesis using accepted_requests [of web_request] by blast
qed

end
