(* ===== verification/SnapshotClaims.thy ===== *)
theory SnapshotClaims
  imports SnapshotFlow RequestClaims
begin

text \<open>What captures, publications and restores of snapshots guarantee, and where they fall short of what is written about them.\<close>

section \<open>Publication\<close>


text \<open>An interrupted publication leaves the earlier snapshot in the backup only, and the next one removes it before anything can take its place.\<close>

lemma interrupted_publication_lost:
  assumes "pd_final f = None" "pd_backup f = Some (SnapOf m)" "pd_staging f = Some (SnapOf new)" "pe_mkdir E" "pe_clear E" "\<not> pe_publish E"
  shows "fst (PublishSnapshotDir E f) = Some PublishRename \<and> pd_final (last (snd (PublishSnapshotDir E f))) = None \<and> pd_backup (last (snd (PublishSnapshotDir E f))) = None"
  using assms by (simp add: PublishSnapshotDir_def Let_def removed_dir_def)

section \<open>Artifacts\<close>




text \<open>What is written is read back.\<close>

lemma manifest_roundtrip:
  assumes "WriteSnapshotManifest J True True m = Inr data" "mc_unmarshal J data = Some m"
  shows "ReadSnapshotManifest J (ManifestData data) = Inr m"
  using assms by (auto simp: WriteSnapshotManifest_def ReadSnapshotManifest_def split: if_splits option.splits)

section \<open>Captures\<close>




lemma manifest_of_state:
  assumes "snapshotManifestFromState H w sock tag st purged retainSecrets = Inr m"
  shows "mf_Tag m = tag" "mf_SecretsMaterialized m = MaterializedSecretsDeclared (Some (rs_Config st))" "mf_SecretsPurged m = purged" "mf_Forensic m = retainSecrets"
    "mf_SecretsMaterialized m \<Longrightarrow> purged \<or> retainSecrets" "mf_Caps m = vc_Caps (rs_Config st)" "\<not> po_AllowlistLocked (mf_Posture m)"
  using assms by (auto simp: snapshotManifestFromState_def Let_def base_manifest_def ValidateSnapshotSecretCapture_def split: if_splits sum.splits)


lemma discard_keeps [simp]: "pd_final (discard E f) = pd_final f" "pd_backup (discard E f) = pd_backup f"
  by (simp_all add: discard_def)








section \<open>Restores\<close>




section \<open>A concrete snapshot\<close>

definition secret_config :: vm_config where
  "secret_config = plain_config\<lparr>vc_Secrets := [\<lparr>sr_Name = ''K'', sr_Ref = ''env:K''\<rparr>], vc_SecretsControlPort := 9\<rparr>"

definition open_host :: snap_host where
  "open_host = \<lparr>sh_fileSHA256 = (\<lambda>_. Some ''00''), sh_caSHA256 = (\<lambda>_. Some ''11''), sh_ParseCIDR = (\<lambda>_. None), sh_now = ''t''\<rparr>"

definition secret_state :: runtime_state where
  "secret_state = \<lparr>rs_State = StRunning, rs_PID = 7, rs_SessionID = ''s'', rs_Config = secret_config\<rparr>"

definition good_publish :: publish_env where
  "good_publish = \<lparr>pe_mkdir = True, pe_clear = True, pe_stat = True, pe_aside = True, pe_publish = True, pe_rollback = True, pe_cleanup = True\<rparr>"

definition secret_env :: fc_env where
  "secret_env = \<lparr>fe_runtime = Some secret_state, fe_active = Some True, fe_staging = True, fe_purge = True, fe_pause = True, fe_resume = True, fe_record = (\<lambda>_. True), fe_capture = True,
     fe_rootfs = True, fe_configDisk = True, fe_host = open_host, fe_wsDir = ''w'', fe_socket = Some ''v'', fe_codec = \<lparr>mc_marshal = (\<lambda>_. Some ''m''), mc_unmarshal = (\<lambda>_. None)\<rparr>,
     fe_wrote = True, fe_publish = good_publish, fe_rehydrate = True, fe_discard = True\<rparr>"


abbreviation no_snapshot :: publish_state where "no_snapshot \<equiv> \<lparr>pd_final = None, pd_staging = None, pd_backup = None\<rparr>"

section \<open>The properties\<close>





section \<open>Where the code falls short\<close>

text \<open>A forensic capture of a workspace without materialized secrets can be restored, although no forensic capture is meant to be.\<close>

lemma forensic_restorable:
  "case snapshotManifestFromState open_host ''w'' (Some ''v'') ''t'' (secret_state\<lparr>rs_Config := plain_config\<rparr>) False True of
     Inr m \<Rightarrow> mf_Forensic m \<and> ValidateSnapshotSecretRestore m (Some plain_config) = None | Inl _ \<Rightarrow> False"
  by code_simp

text \<open>The manifest of Firecracker records every workspace as not locked to its allowlist.\<close>

lemma lock_forgotten: "snapshotManifestFromState H w sock tag st purged retainSecrets = Inr m \<Longrightarrow> \<not> po_AllowlistLocked (mf_Posture m)"
  by (rule manifest_of_state(7))

text \<open>A capture that fails after the purge resumes the guest without its secrets: they are only delivered again after a success.\<close>

lemma failed_capture_without_secrets:
  "fst (snd (snapshotWorkspace (secret_env\<lparr>fe_rootfs := False\<rparr>) ''t'' False no_snapshot)) =
     [Purged True, Patched ''Paused'' True, RecordedState StPaused True, CapturedMemory True, Patched ''Resumed'' True, RecordedState StRunning True, Discarded]"
  by (simp add: snapshotWorkspace_def secret_env_def secret_state_def secret_config_def plain_config_def purge_phase_def purge_effects_def pause_phase_def memory_phase_def
      writeSnapshotArtifacts_def resume_back_def MaterializedSecretsDeclared_def Let_def)

text \<open>On Apple VF the port forwards of the request are replaced by those of the captured workspace.\<close>

lemma forwards_replaced: "applyAppleVFRestoreConfig (SavedConfig saved) c = Inr c1 \<Longrightarrow> vc_Network c1 = vc_Network saved"
  by (auto simp: applyAppleVFRestoreConfig_def Let_def)

text \<open>A restored guest counts as alive only when its exec service answered.\<close>

lemma liveness_proved: "waitForRestoreLiveness hasPort ps = Some None \<Longrightarrow> hasPort \<and> (\<exists>p \<in> set ps. lp_answered p \<and> \<not> lp_exited p \<and> \<not> lp_halted p)"
  by (induction ps) (auto split: if_splits)

end
