(* ===== verification/Spec2Isabelle.thy ===== *)
theory Spec2Isabelle
  imports Samples BrokerSamples WorkspaceClaims SecretClaims LayerClaims IdemClaims ModelClaims VolumeClaims EventHistory SuperviseClaims Capacity SnapshotClaims
begin

text \<open>
  microagent runs agent workloads in small virtual machines and mediates everything they send. This
  development models what stands between such a workload and the host and the network: the egress mediator
  (internal/egress), the egress broker (pkg/broker), the launch policy and the containment of workspaces (pkg/vmkit, pkg/workspace), the
  transfer of secrets (pkg/secret, pkg/secretxfer), the extraction of images (pkg/rootfs) and the host-side services around them.

  \<^bold>\<open>The program.\<close> A workspace's traffic is redirected to the mediator. A TCP connection reaches
  \<open>Handler.Handle\<close> (mediator.go), which recovers the original destination (origdst.go), sniffs the TLS server
  name or the HTTP host (sni.go, sniff.go), names peers and addresses (peers.go, namecache.go), asks the policy brain
  for a verdict (brain.go, policy.go), and splices the connection under a byte cap or, in mitm mode, serves
  it with a forged certificate (mitm.go, ca.go) and relays its requests with swapped credentials (swap.go, acquire.go,
  tokencache.go). A UDP datagram reaches \<open>handleUDPDatagram\<close> (udp.go): DNS goes to \<open>handleDNS\<close>
  (dns.go), which fills the name cache; port 443 is inspected as QUIC (quic.go); the rest is a flow of the
  UDP proxy. The wasm sandbox calls \<open>Brain.Fetch\<close> (fetch.go). Every decision leaves an audit record (audit.go).
  A workspace is launched under an egress policy that a capture provider has to cover (\<open>NegotiateEgressCapture\<close>); its requests to semantic endpoints
  end at the broker, which holds the credentials; its root file system is extracted from the layers of an image (\<open>applyTarEntry\<close>); its secrets
  are resolved on the host and fetched by the guest (\<open>Server.handle\<close>, \<open>FetchBundle\<close>). A workspace that misbehaves is frozen, severed, captured and
  stopped (\<open>containWorkspace\<close>), and from then on every other operation is fenced.

  \<^bold>\<open>Theories.\<close> \<open>Go_Prelude\<close> holds what the code uses of Go: strings, slices whose out-of-range access is
  a panic (\<^term>\<open>None\<close>), big-endian numbers, maps as association lists; \<open>Netip\<close> the package net/netip. Then, one
  theory per component:
  \<^item> \<open>Policy\<close>: policy.go, policyfile.go, peers.go. The locale \<open>host_index\<close> is the contract of an index of host patterns; the
    allowlist and the swap table (in \<open>Swap\<close>) are its instances.
  \<^item> \<open>Caches\<close>: namecache.go, tokencache.go. The locale \<open>expiring_cache\<close> is the contract of a cache with expiry; the token cache and both
    maps of the name cache are its instances.
  \<^item> \<open>ClientHello\<close>: sni.go, sniff.go, with an encoder for the round trips.
  \<^item> \<open>Signals\<close>, \<open>Swap\<close>: signals.go; swap_config.go, swap.go, acquire.go, providers.go.
  \<^item> \<open>Brain\<close>: brain.go, fetch.go. \<open>Mediator\<close>: mediator.go, mitm.go, and the interleavings of connections on
    the gauge and the byte counter as step relations.
  \<^item> \<open>Dns\<close>: dns.go, and the states the name cache of a running mediator goes through.
  \<^item> \<open>Quic\<close>, \<open>QuicStream\<close>: quic.go; bounds and no panic, then reassembly.
  \<^item> \<open>Udp\<close>, \<open>UdpTable\<close>: udp.go; the model, then the invariant of its tables over all reachable states.
  \<^item> \<open>AuditLog\<close>: audit.go and the drop sampler of run.go. \<open>Datapath\<close>: origdst.go, origdst_udp_linux.go, ca.go.
  \<^item> \<open>Netlimit\<close>, \<open>Console\<close>: internal/netlimit, internal/consoleproto.
  \<^item> \<open>Urls\<close>: what the broker uses of net/url, path and net. \<open>BrokerGrant\<close>, \<open>Semantic\<close>: pkg/vmkit/broker_grant.go and
    pkg/broker/semantic.go. \<open>Broker\<close>, \<open>BrokerProps\<close>: the terminating relay of pkg/broker, and what it guarantees. \<open>Tunnel\<close>: the
    CONNECT tunnel, the endpoint wiring and the guest environment. \<open>BrokerSamples\<close>: a concrete endpoint.
  \<^item> \<open>Names\<close>, \<open>EgressPolicy\<close>: names, tags, hostnames, disks and outputs of a workspace; its egress policy and the negotiation with a
    capture provider. \<open>Containment\<close>, \<open>ContainmentProps\<close>, \<open>ContainmentRecord\<close>: lifecycle_containment.go, the fences of dispatch and control, the
    abstract containment protocol and the record on disk. \<open>WorkspaceClaims\<close>: their properties.
  \<^item> \<open>Framing\<close>: length-prefixed messages; the locale \<open>frame_codec\<close> is the contract of an encoder and a decoder, with the round trip of a stream of
    frames proved inside. \<open>SecretXfer\<close>, \<open>SecretProps\<close>: pkg/secretxfer. \<open>SecretRefs\<close>: pkg/secret. \<open>SecretClaims\<close>: their properties.
  \<^item> \<open>Paths\<close>: what the code uses of path and path/filepath. \<open>Layers\<close>, \<open>LayerProps\<close>: the extraction of layers of pkg/rootfs/builder.go, over the operations on
    the staging root. \<open>LayerClaims\<close>: its properties.
  \<^item> \<open>Idempotency\<close>, \<open>IdemClaims\<close>: the idempotency store of the tool server (mcp_idempotency.go), with interleaved calls as a step relation.
  \<^item> \<open>ModelPolicy\<close>, \<open>ModelMediator\<close>, \<open>ModelClaims\<close>: the file policy and the mediator of requests to model workers (internal/hostworker).
  \<^item> \<open>Locked\<close>: a file updated under a lock; the locale \<open>locked_update\<close> shows that interleaved updates are serial. \<open>Volumes\<close>, \<open>VolumeClaims\<close> (pkg/volume) and
    \<open>EventHistory\<close> (internal/eventhistory) are its instances.
  \<^item> \<open>Supervise\<close>, \<open>SuperviseClaims\<close>: supervise.go and health.go of pkg/workspace, with starts, inspections and probes given as lists. \<open>Capacity\<close>: host_capacity.go, with the
    processes of a host as a step relation.
  \<^item> \<open>Requests\<close>, \<open>RequestClaims\<close>: the validation of supervisor requests in pkg/vmkit/types.go. \<open>Snapshots\<close>, \<open>SnapshotFlow\<close>, \<open>SnapshotClaims\<close>: pkg/vmkit/snapshot.go, the capture
    and the restore of pkg/supervisors/firecracker/snapshot_linux.go and of pkg/workspace/lifecycle_snapshot.go, as sequences of effects.
  \<^item> \<open>Samples\<close>: a concrete workspace, its connections and messages, on which the properties are applied.

  \<^bold>\<open>Correspondence.\<close> A struct is a record, its mutable fields a record that operations return updated; an error
  is a value of a sum or of an option; a panic is \<^term>\<open>None\<close> of the type \<open>go\<close>. The
  clock, the position a range over a map visits first, sockets, TLS, JSON, YAML, the DNS message codec and the
  cryptographic primitives are arguments; what is relied on of them is a named predicate (\<open>codec_ok\<close>, \<open>gcm_ok\<close>, \<open>good_writer\<close>,
  \<open>quiet_disk\<close>). Locks become atomic steps, and concurrency the interleaving of those steps. Counters keep Go's width
  (\<open>wrap64\<close>, 64-bit words) where they may overflow.

  \<^bold>\<open>What is shown.\<close> The properties, grouped by component: what a connection may reach, and under which name (C1,
  C5, C10, C11, C12, C17); that nothing is unaudited or unbounded (C6, C8,
  C9, C23); interception and credentials (C7, C14, C15);
  sniffing (C13); fetches (C16); QUIC and UDP
  (C18, C19, C20, C21, C22). The egress broker: grants and the tunnel
  (C3, C24). Workspaces: custody and the containment protocol (C2, C4, C25), the launch
  gate (C26). Secrets: C27, C28, C29. Images: C30, C31. The tool server: C32. The host worker: C33, C34. Volumes: C35. Supervision: C36. The ceiling of a host: C37. Supervisor requests: C38. Snapshots: C39, C40.

  \<^bold>\<open>Bounds and fuel.\<close> Loops are recursive functions with a termination proof. The one use of fuel is the frame loop of
  \<open>parseQUICInitialFrames\<close>, run with one more than the length of the payload; \<open>frames_fuel_enough\<close> proves that it never runs out, as every frame
  consumes a byte.

  \<^bold>\<open>Not modelled.\<close> System calls, socket options, key generation and signing, TLS handshakes; the processes, taps and firewall rules of supervisors and
  virtual machines (pkg/supervisors) and the guest's init, which are sequences of system calls around the decisions modelled here; disk images, kernels
  and model downloads, which drive external tools; command-line parsing and output; generated code. They are listed with
  the components of the manifest.
\<close>

section \<open>Connections\<close>

lemma identify_no_peers:
  assumes "identify h ce dst (Some c) = Some (x, nc)" "Peers h = None"
  shows "id_peer x = '''' \<and> id_peerIP x = '''' \<and>
    ((id_host x \<noteq> addr_String (ap_addr dst) \<and> id_mismatch x = (\<not> fst (HostMatchesIP (id_host x) (ap_addr dst) (ce_now_bind ce) c))) \<or>
     id_host x = addr_String (ap_addr dst) \<or> fst (HostForIP (ap_addr dst) (ce_now_rev ce) c) = Some (id_host x))"
proof -
  obtain sn tls where s: "sniffHost (ce_reader ce) dst = Some (sn, tls)"
    using sniffHost_no_panic [of "ce_reader ce" dst] by auto
  show ?thesis
    using assms s by (auto simp: identify_def peerName_def nc_matches_def nc_reverse_def Let_def split: prod.splits option.splits if_splits)
qed

lemma binding_history:
  assumes "cache_reach D h c"
  shows "fst (HostMatchesIP host ip t c) \<Longrightarrow> \<exists>ops op e. c = nc_run ops NewNameCache \<and> list_all (vetted h) ops \<and> op \<in> set ops \<and>
      binds (normalizeHost host) ip e op \<and> t < e"
    and "fst (HostForIP ip t c) = Some host \<Longrightarrow> \<exists>ops op e. c = nc_run ops NewNameCache \<and> list_all (vetted h) ops \<and> op \<in> set ops \<and>
      names host ip e op \<and> t < e"
  using cache_reach_run [OF assms] HostMatchesIP_observed HostForIP_observed by metis+

text \<open>
  C1. Under a locked allowlist a connection is dialed only to its original destination, and only under a name the
  operator listed (or passed through) that is either the address itself or was bound to
  that address by a DNS answer to a permitted query, still live when it was used. \<open>Peers h = None\<close>: the
  workspace has no named peers.
\<close>

theorem locked_dial_bound:
  assumes "NewPolicy es = Inr p" "Policy h = Some p" "AllowlistLocked h" "Peers h = None"
    and "NameCache st = Some c" "cache_reach D h c" "Handle h ce st = Some out" "ho_dialed out = Some d"
  shows "\<exists>dst host. ce_OrigDst ce = Inr dst \<and> dial_addr d = ap_String dst \<and> (host_listed es host \<or> passes_through h host) \<and>
    (host = addr_String (ap_addr dst) \<or>
     (\<exists>ops op e. c = nc_run ops NewNameCache \<and> list_all (vetted h) ops \<and> op \<in> set ops \<and>
        (binds (normalizeHost host) (ap_addr dst) e op \<and> ce_now_bind ce < e \<or> names host (ap_addr dst) e op \<and> ce_now_rev ce < e)))"
proof -
  from assms(2,7,8) obtain dst x nc where x: "ce_OrigDst ce = Inr dst" "identify h ce dst (NameCache st) = Some (x, nc)"
    "dial_addr d = ap_String dst" "\<not> (AllowlistLocked h \<and> id_mismatch x \<and> id_peer x = '''')"
    "granted p (identities x) \<or> broad_grant (brain_of h) (ap_addr dst) \<or> passes_through h (id_host x)"
    by (rule Handle_dialed)
  note i = identify_no_peers [OF x(2) [unfolded assms(5)] assms(4)]
  have "\<not> host_listed es ''''" using AllowHost_iff [OF assms(1), of "''''"] by simp
  then have listed: "host_listed es (id_host x) \<or> passes_through h (id_host x)"
    using x(5) i assms(3) granted_listed [OF assms(1), of "identities x"] by (auto simp: identities_def broad_grant_def)
  from i x(4) assms(3) consider "id_host x = addr_String (ap_addr dst)"
    | "fst (HostMatchesIP (id_host x) (ap_addr dst) (ce_now_bind ce) c)"
    | "fst (HostForIP (ap_addr dst) (ce_now_rev ce) c) = Some (id_host x)" by auto
  then show ?thesis
    using x(1,3) listed binding_history [OF assms(6)] by cases metis+
qed

theorem locked_dial_bound_witness:
  "\<exists>out d dst host. Handle locked plain_conn running = Some out \<and> ho_dialed out = Some d \<and> ce_OrigDst plain_conn = Inr dst \<and>
     dial_addr d = ap_String dst \<and> (host_listed allow_entries host \<or> passes_through locked host)"
proof -
  obtain out where o: "Handle locked plain_conn running = Some out" "ho_dialed out = Some (L4 ''93.184.216.34:443'')"
    using handle_plain by blast
  show ?thesis
    using locked_dial_bound [OF allow_entries_policy _ _ _ _ api_answered o] o by auto
qed

text \<open>
  C5. No connection to an inside address (loopback, link-local, private, carrier-grade NAT, unspecified) is dialed
  on the strength of the broad grant: one of its identities is on the operator's list, or its host is passed through.
\<close>

theorem inside_needs_listing:
  assumes "NewPolicy es = Inr p" "Policy h = Some p" "Handle h ce st = Some out" "ho_dialed out = Some d"
    and "ce_OrigDst ce = Inr dst" "isInsideAddr (ap_addr dst)"
  shows "\<exists>x nc. identify h ce dst (NameCache st) = Some (x, nc) \<and>
    ((\<exists>n \<in> set (identities x). host_listed es n) \<or> passes_through h (id_host x))"
proof -
  from assms(2,3,4) obtain dst' x nc where x: "ce_OrigDst ce = Inr dst'" "identify h ce dst' (NameCache st) = Some (x, nc)"
    "granted p (identities x) \<or> broad_grant (brain_of h) (ap_addr dst') \<or> passes_through h (id_host x)"
    by (rule Handle_dialed)
  then show ?thesis
    using assms(5,6) granted_listed [OF assms(1), of "identities x"] by (auto simp: broad_grant_def)
qed

theorem inside_needs_listing_witness:
  "isInsideAddr (ap_addr metadata) \<and> (\<exists>out d x nc. Handle broker metadata_conn running = Some out \<and> ho_dialed out = Some d \<and>
     identify broker metadata_conn metadata (NameCache running) = Some (x, nc) \<and>
     ((\<exists>n \<in> set (identities x). host_listed allow_entries n) \<or> passes_through broker (id_host x)))"
proof -
  obtain out d where o: "Handle broker metadata_conn running = Some out" "ho_dialed out = Some d"
    using handle_metadata by blast
  show ?thesis
    using inside_needs_listing [OF allow_entries_policy _ o, of metadata] o by auto
qed

text \<open>
  C6. Handling a connection never panics once a policy is configured, whatever bytes the guest sends; it always leaves an
  audit record, and when nothing was dialed nothing was sent.
\<close>

theorem Handle_audited:
  assumes "Policy h = Some p"
  shows "\<exists>out. Handle h ce st = Some out \<and> ho_log out \<noteq> [] \<and>
    (ho_dialed out = None \<longrightarrow> ho_sent out = [] \<and> ho_requests out = [])"
proof -
  obtain out where o: "Handle h ce st = Some out" using Handle_no_panic [OF assms] by blast
  then have "ho_log out \<noteq> [] \<and> (ho_dialed out = None \<longrightarrow> ho_sent out = [] \<and> ho_requests out = [])"
  proof (cases rule: Handle_cases)
    case (decided dst x nc v pt st')
    with carry_out_log [of h ce dst x v pt st'] carry_out_undialed [of h ce dst x v pt st'] show ?thesis by simp
  qed simp
  with o show ?thesis by (intro exI [of _ out] conjI) simp_all
qed

theorem Handle_audited_witness:
  "\<exists>out. Handle locked plain_conn running = Some out \<and> ho_log out \<noteq> [] \<and>
     (ho_dialed out = None \<longrightarrow> ho_sent out = [] \<and> ho_requests out = [])"
  using Handle_audited [of locked sample_policy plain_conn running] by simp

text \<open>
  C7. TLS is intercepted only in \<open>mitm\<close> mode, with a certificate authority, for a TLS connection that is neither passed through nor to
  a named peer, and the forged identity is the name the guest asked for at the destination it was going to.
\<close>

theorem forged_only_in_mitm:
  assumes "Policy h = Some p" "Handle h ce st = Some out" "ho_dialed out = Some d" "forged d"
  shows "CA h \<and> Mode h = egressModeMITM \<and> (\<exists>dst x nc. ce_OrigDst ce = Inr dst \<and> identify h ce dst (NameCache st) = Some (x, nc) \<and>
    id_TLS x \<and> \<not> id_isPeer x \<and> \<not> passes_through h (id_host x) \<and> d = TLSUpstream (id_host x) (ap_String dst))"
  using assms(1-3)
  by (rule Handle_dialed) (use assms(4) in blast)

theorem forged_only_in_mitm_witness:
  "\<exists>out d. Handle mitm tls_conn running = Some out \<and> ho_dialed out = Some d \<and> forged d \<and> CA mitm \<and> Mode mitm = egressModeMITM"
proof -
  obtain out where o: "Handle mitm tls_conn running = Some out" "ho_dialed out = Some (TLSUpstream ''api.example.com'' ''93.184.216.34:443'')"
    using handle_tls by blast
  show ?thesis using forged_only_in_mitm [of mitm sample_policy, OF _ o] o by auto
qed



text \<open>
  C9. With a volume cap, what the flows of the process have written is at most the cap plus one chunk for each
  flow that was ever opened: a flow learns of the cap only when it charges what it has already written.
\<close>

theorem volume_bounded:
  assumes "(vol_step h chunk)\<^sup>*\<^sup>* vol_init s" "0 < MaxTotalBytes (Limits h)"
    and "MaxTotalBytes (Limits h) + int (chunk * length (v_flows s)) < 2 ^ 63"
  shows "v_sent s \<le> MaxTotalBytes (Limits h) + int (chunk * length (v_flows s))"
proof -
  have "vol_inv h chunk s" by (rule vol_inv_reachable [OF assms])
  moreover have "int (chunk * sum_list (map busy (v_flows s))) \<le> int (chunk * length (v_flows s))"
    using mult_le_mono2 [OF busy_le [of "v_flows s"], of chunk] by (rule zle_int [THEN iffD2])
  ultimately show ?thesis unfolding vol_inv_def by linarith
qed

theorem volume_bounded_witness:
  "\<exists>s. (vol_step locked 10)\<^sup>*\<^sup>* vol_init s \<and> v_sent s = 7 \<and> v_sent s \<le> MaxTotalBytes (Limits locked) + int (10 * length (v_flows s))"
proof -
  define s1 where "s1 = vol_init\<lparr>v_flows := [Ready]\<rparr>"
  define s2 where "s2 = vol_init\<lparr>v_sent := 7, v_flows := [Pending 7]\<rparr>"
  have "vol_step locked 10 vol_init s1" "vol_step locked 10 s1 s2"
    using vol_step.vstart [of locked 10 vol_init] vol_step.vwrite [of 0 s1 7 10 locked]
    by (simp_all add: s1_def s2_def vol_init_def)
  then have r: "(vol_step locked 10)\<^sup>*\<^sup>* vol_init s2"
    by (meson converse_rtranclp_into_rtranclp rtranclp.rtrancl_refl)
  show ?thesis
    using volume_bounded [OF r] r by (intro exI [of _ s2]) (simp add: s2_def vol_init_def sample_limits_def)
qed

section \<open>Policy\<close>

text \<open>
  C10. The verdict of the brain, exactly: a destination is allowed when one of the identities offered is on the list, or by
  the broad grant of an unlocked mediating mode to an address that is not inside; \<open>Unlisted\<close> and \<open>Inside\<close> say
  which of the two it was. It never panics once a policy is configured.
\<close>

theorem Evaluate_exact:
  assumes "NewPolicy es = Inr p" "Policy b = Some p"
  shows "\<exists>v. Evaluate b host cs ip pt = Some v \<and>
    (Allowed v \<longleftrightarrow> (\<exists>n \<in> set (host # cs). host_listed es n) \<or> allowsBroad (Mode b) \<and> \<not> AllowlistLocked b \<and> \<not> isInsideAddr ip) \<and>
    (Unlisted v \<longleftrightarrow> Allowed v \<and> \<not> pt \<and> \<not> (\<exists>n \<in> set (host # cs). host_listed es n)) \<and>
    (Inside v \<longleftrightarrow> allowsBroad (Mode b) \<and> isInsideAddr ip)"
  using Evaluate_verdict [OF assms(2), of host cs ip pt] granted_listed [OF assms(1), of "host # cs"]
  by (auto simp: broad_grant_def)

theorem Evaluate_exact_witness:
  "\<exists>v. Evaluate (brain_of broker) ''evil.test'' [] (V4 0xa9fea9fe) False = Some v \<and> \<not> Allowed v \<and> Inside v"
proof -
  obtain v where v: "Evaluate (brain_of broker) ''evil.test'' [] (V4 0xa9fea9fe) False = Some v"
    "Allowed v \<longleftrightarrow> (\<exists>n \<in> set [''evil.test'']. host_listed allow_entries n) \<or>
       allowsBroad (Mode (brain_of broker)) \<and> \<not> AllowlistLocked (brain_of broker) \<and> \<not> isInsideAddr (V4 0xa9fea9fe)"
    "Inside v \<longleftrightarrow> allowsBroad (Mode (brain_of broker)) \<and> isInsideAddr (V4 0xa9fea9fe)"
    using Evaluate_exact [OF allow_entries_policy, of "brain_of broker" "''evil.test''" "[]" "V4 0xa9fea9fe" False] by auto
  have "\<not> host_listed allow_entries ''evil.test''" using AllowHost_iff [OF allow_entries_policy, of "''evil.test''"] by simp
  with v show ?thesis by (simp add: allowsBroad_def egressModeBroker_def)
qed


text \<open>
  An IPv4 address is inside exactly when it lies in one of the listed blocks (0.0.0.0, 10/8, 100.64/10, 127/8, 169.254/16,
  172.16/12, 192.168/16, 224.0.0/24), and writing it as an IPv4-mapped IPv6 address does not change that.
\<close>

theorem inside_blocks:
  "isInsideAddr (V4 w) = in_ranges inside_ranges4 (unat w) \<and> isInsideAddr (mapped w z) = isInsideAddr (V4 w)"
  using isInsideAddr_Unmap [of "mapped w z"] by (simp only: isInsideAddr_V4 Unmap_mapped)

text \<open>
  Removing duplicate hosts keeps every first spelling in order, keeps no two hosts that normalize alike, and does
  not change what the resulting policy allows.
\<close>

theorem DedupeHosts_exact:
  "subseq (DedupeHosts hs) hs \<and> distinct (map normalizeHost (DedupeHosts hs)) \<and> host_listed (DedupeHosts hs) h = host_listed hs h"
  using dedupe_loop_subseq [of "[]" hs] dedupe_loop_distinct [of "[]" hs] host_listed_DedupeHosts [of hs h]
  by (simp add: DedupeHosts_def)

section \<open>Caches\<close>

text \<open>
  C12. The name cache only repeats what it was told: after any sequence of its operations a name is bound to an address
  only by an answer with a positive lifetime that has not run out, and the cache holds at most \<open>maxNameCacheEntries\<close>
  entries and as many bindings.
\<close>

theorem name_cache_sound:
  "(fst (HostMatchesIP h ip t (nc_run ops NewNameCache)) \<longrightarrow> (\<exists>op e. op \<in> set ops \<and> binds (normalizeHost h) ip e op \<and> t < e)) \<and>
   (\<forall>n. fst (HostForIP ip t (nc_run ops NewNameCache)) = Some n \<longrightarrow> (\<exists>op e. op \<in> set ops \<and> names n ip e op \<and> t < e)) \<and>
   length (nc_entries (nc_run ops NewNameCache)) \<le> maxNameCacheEntries \<and>
   length (nc_bindings (nc_run ops NewNameCache)) \<le> maxNameCacheEntries"
proof -
  have "nc_inv (nc_run ops NewNameCache)" by (rule nc_inv_run [OF nc_inv_NewNameCache])
  then show ?thesis
    unfolding nc_inv_def using HostMatchesIP_observed [of h ip t ops] HostForIP_observed [of ip t ops] by blast
qed

theorem name_cache_sound_witness:
  "fst (HostMatchesIP ''api.example.com'' (V4 0x5db8d822) 20 answered) \<and>
   (\<exists>op e. op \<in> set [OpPut ''api.example.com'' (V4 0x5db8d822) 300000000000 10 10 0 0] \<and>
      binds (normalizeHost ''api.example.com'') (V4 0x5db8d822) e op \<and> 20 < e)"
proof -
  have r: "nc_run [OpPut ''api.example.com'' (V4 0x5db8d822) 300000000000 10 10 0 0] NewNameCache = answered"
    using answered_put by (simp add: nc_run_def)
  show ?thesis
    using name_cache_sound [of "''api.example.com''" "V4 0x5db8d822" 20 "[OpPut ''api.example.com'' (V4 0x5db8d822) 300000000000 10 10 0 0]"]
    unfolding r by simp
qed

section \<open>Sniffing\<close>

text \<open>
  The sniffed host is the server name of the ClientHello, whatever the other fields and extensions are and whatever
  follows the record, for every handshake that fits in one TLS record.
\<close>

theorem sniff_ClientHello:
  assumes "ch_ok c" "length (enc_handshake c) \<le> 2 ^ 14"
  shows "sniffHost \<lparr>avail = enc_record c @ rest, buffered = n\<rparr> dst = Some (ch_host c, True)"
  by (rule sniffHost_enc [OF assms])


section \<open>Credentials\<close>

text \<open>
  C14. What the relay offers upstream is, position by position, the guest's requests: a request that is not DNS over HTTPS,
  with its request URI cleared and otherwise unchanged when the connection's name has no swap entry; with an
  entry, carrying the credential acquired for that entry as the only value of that entry's header, and every other header unchanged.
\<close>

theorem relay_sends_own_credential:
  assumes "i < length (up_attempts (relayHTTPRequests L vs up g sni c tbl))"
  shows "i < length (guest_requests g) \<and> \<not> isDNSOverHTTPS (guest_requests g ! i) \<and>
    (case Option.bind tbl (\<lambda>t. Match t sni) of
       None \<Rightarrow> up_attempts (relayHTTPRequests L vs up g sni c tbl) ! i = (guest_requests g ! i)\<lparr>rq_RequestURI := ''''\<rparr>
     | Some e \<Rightarrow> (\<exists>c' val. fst (acquire L (vs i) e c') = Inr (headerOrDefault (se_Header e), val) \<and>
         (\<forall>k. Header_Values (rq_Header (up_attempts (relayHTTPRequests L vs up g sni c tbl) ! i)) k =
            (if CanonicalHeaderKey k = CanonicalHeaderKey (headerOrDefault (se_Header e)) then [val]
             else Header_Values (rq_Header (guest_requests g ! i)) k))))"
proof -
  note s = relayHTTPRequests_sent [OF assms]
  show ?thesis
  proof (cases "Option.bind tbl (\<lambda>t. Match t sni)")
    case None
    with s show ?thesis by (simp add: sent_as_def)
  next
    case (Some e)
    with s obtain c' hdr val where a: "fst (acquire L (vs i) e c') = Inr (hdr, val)"
      "up_attempts (relayHTTPRequests L vs up g sni c tbl) ! i =
         (guest_requests g ! i)\<lparr>rq_Header := Header_Set hdr val (rq_Header (guest_requests g ! i)), rq_RequestURI := ''''\<rparr>"
      by (auto simp: sent_as_def)
    have "hdr = headerOrDefault (se_Header e)" by (rule acquire_header [OF a(1)])
    with Some s a show ?thesis by (auto simp: sent_as_def Header_Values_Set)
  qed
qed

theorem relay_sends_own_credential_witness:
  "\<exists>c' val. fst (acquire sample_lib (with_key ''k'') key_swap c') = Inr (''X-Api-Key'', val) \<and>
     Header_Values (rq_Header (up_attempts (key_relay ''k'') ! 0)) ''X-Api-Key'' = [val]"
proof -
  have l: "0 < length (up_attempts (relayHTTPRequests sample_lib (\<lambda>n. with_key ''k'')
      \<lparr>write_err = (\<lambda>ws r. None), copy_err = (\<lambda>ws b. None)\<rparr> (Request sample_request [] (ReadFails EOF))
      ''api.example.com'' [] (Some sample_swaps)))"
    using key_relay_attempts by (simp add: key_relay_def)
  have h: "headerOrDefault (se_Header key_swap) = ''X-Api-Key''" by (simp add: key_swap_def headerOrDefault_def)
  show ?thesis using relay_sends_own_credential [OF l] unfolding key_relay_def by (auto simp: h)
qed



text \<open>
  The audit trail does not depend on a static secret: two runs whose resolvers agree on which references resolve, and whose
  upstream answers do not look at the request, leave the same records and end the same way, whatever the secrets are.
\<close>

theorem audit_hides_static_secret:
  assumes "\<And>n. same_shape (vs n) (us n)" "Option.bind tbl (\<lambda>t. Match t sni) = Some e" "se_Type e = ''static''"
    and "CanonicalHeaderKey (headerOrDefault (se_Header e)) \<noteq> CanonicalHeaderKey ''Connection''" "blind_upstream up"
  shows "ro_log (relayHTTPRequests L vs up g sni c tbl) = ro_log (relayHTTPRequests L us up g sni c tbl) \<and>
    ro_result (relayHTTPRequests L vs up g sni c tbl) = ro_result (relayHTTPRequests L us up g sni c tbl)"
  unfolding relayHTTPRequests_def by (rule relay_loop_blind [OF assms]) simp

text \<open>
  A loaded swap table offers a credential only to the hosts its entry lists, and only from an entry that passed validation.
\<close>

theorem swap_table_sound:
  assumes "LoadSwapTable up yaml data = Inr t" "Match t host = Some e"
  shows "host_listed (se_Domains e) host \<and> validateSwapEntry up e = None"
  using Match_listed [OF LoadSwapTable_inv [OF assms(1)] assms(2)] by blast

text \<open>
  A token acquired from the token endpoint is reused, without another request, until a minute before the expiry it was given, and never empty.
\<close>

theorem token_reused_until_expiry:
  assumes "acquireOAuth2CC L v e c = (Inr tok, c')" "token_get (cacheKey e) (now_get v) c = None"
  shows "tok \<noteq> '''' \<and> (\<exists>body expiry. parseToken L (now_mint v) body e = Inr (tok, expiry) \<and>
    (\<forall>w. now_get w + tokenSkew < expiry \<longrightarrow> acquireOAuth2CC L w e c' = (Inr tok, c')))"
  using acquireOAuth2CC_reuse [OF assms] parseToken_nonempty by blast

text \<open>
  The expiry claim of a signed assertion is the mediator's own, whatever claims are configured: the clock plus the
  configured lifetime, or ten minutes when none is configured.
\<close>

theorem jwt_expiry_own:
  "map_of (jwt_claims v e) ''exp'' = Some (CInt (Unix (now_mint v +
     seconds (if se_TokenTTLSeconds e \<le> 0 then 600 else se_TokenTTLSeconds e))))"
  by (simp add: jwt_claims_exp jwt_ttl_def jwtBearerTTL_def)

text \<open>
  A built-in provider never carries a secret, only a reference with a known scheme, and gives an entry that the swap table accepts.
\<close>

theorem provider_entry_valid:
  assumes "ProviderSwapEntry provider keyRef = Inr (e, hs)"
  shows "ValidCredRef (se_KeyRef e) \<and> se_Domains e = hs \<and> hs \<noteq> [] \<and> validateSwapEntry up e = None"
proof -
  from assms obtain p where p: "map_of builtinProviders (ToLower (TrimSpace provider)) = Some p"
    "se_Type e = ''static''" "se_Domains e = hosts p" "hs = hosts p" "se_TokenTTLSeconds e = 0" "ValidCredRef (se_KeyRef e)"
    by (rule ProviderSwapEntry_cases)
  then show ?thesis
    using builtinProviders_wf [OF p(1)] ValidCredRef_nonblank [OF p(6)] by (simp add: validateSwapEntry_def validSwapTypes_def)
qed

section \<open>Governed fetch\<close>



section \<open>DNS\<close>

text \<open>
  C17. A query is forwarded exactly when its name is listed, passed through or covered by the broad grant and its
  resolver is allowed, and then verbatim to the resolver it was sent to; any other well-formed query gets the
  synthesised refusal; each query leaves one audit record.
\<close>

theorem DNS_exact:
  "(do_forwarded (handleDNS D clk fwd h nc query resolver) = (case parseDNSQuestion D query of Inl e \<Rightarrow> None
     | Inr (qid, qname, qtype) \<Rightarrow>
         if (allowsBroad (Mode h) \<and> \<not> AllowlistLocked h \<or> permitted h qname) \<and> resolverAllowed h (ap_addr resolver)
         then Some (resolver, query) else None)) \<and>
   (do_forwarded (handleDNS D clk fwd h nc query resolver) = None \<longrightarrow>
      do_cache (handleDNS D clk fwd h nc query resolver) = nc \<and>
      do_reply (handleDNS D clk fwd h nc query resolver) = (case parseDNSQuestion D query of Inl e \<Rightarrow> Inl e
        | Inr _ \<Rightarrow> synthesizeRefused D query)) \<and>
   length (do_log (handleDNS D clk fwd h nc query resolver)) = 1"
  using handleDNS_log
  by (auto simp: handleDNS_def Let_def permitted_def split: sum.splits)

theorem DNS_exact_witness:
  "do_forwarded (handleDNS sample_codec sample_clock (\<lambda>r q. Inr q) locked (Some NewNameCache) [2] resolver_addr) = None \<and>
   do_cache (handleDNS sample_codec sample_clock (\<lambda>r q. Inr q) locked (Some NewNameCache) [2] resolver_addr) = Some NewNameCache"
proof -
  have "parseDNSQuestion sample_codec [2] = Inr (7, ''evil.test'', 1)"
    by (simp add: parseDNSQuestion_def sample_codec_def sample_header_def) code_simp
  moreover have "\<not> permitted locked ''evil.test''"
    using evil_denied by (simp add: permitted_def dns_listed_def passes_through_def)
  ultimately show ?thesis
    using DNS_exact [of sample_codec sample_clock "\<lambda>r q. Inr q" locked "Some NewNameCache" "[2]" resolver_addr] by simp
qed

text \<open>
  Stripping keeps the records that are not service bindings, drops every service binding of a message the
  codec can rebuild, and has no effect the second time. \<open>codec_ok\<close>: parsing what the builder made gives its
  sections back.
\<close>

theorem strip_exact:
  assumes "codec_ok D" "Start D resp = Inr hdr" "AllQuestions D resp = Some qs"
    "AllAnswers D resp = Some an" "AllAuthorities D resp = Some au" "AllAdditionals D resp = Some ad"
    and "list_all (add_question_ok D) qs"
    and "\<forall>r \<in> set (an @ au @ ad). is_service_binding r \<or> readdResource D r"
    and "Finish D hdr qs (filter (\<lambda>r. \<not> is_service_binding r) an) (filter (\<lambda>r. \<not> is_service_binding r) au)
      (filter (\<lambda>r. \<not> is_service_binding r) ad) = Inr out"
  shows "AllAnswers D (stripECHRecords D resp) = Some (filter (\<lambda>r. \<not> is_service_binding r) an) \<and>
    AllAuthorities D (stripECHRecords D resp) = Some (filter (\<lambda>r. \<not> is_service_binding r) au) \<and>
    AllAdditionals D (stripECHRecords D resp) = Some (filter (\<lambda>r. \<not> is_service_binding r) ad) \<and>
    stripECHRecords D (stripECHRecords D resp) = stripECHRecords D resp"
  using strip_clean [OF assms] strip_idem [OF assms(1)] by auto

section \<open>QUIC\<close>

text \<open>
  A truncated packet number within half a window of the next expected one decodes to itself,
  on 64-bit words, whatever the length it was cut to.
\<close>

theorem packet_number_decoded:
  assumes "bits \<in> {8, 16, 24, 32}" "unat largest < 2 ^ 62" "unat pn < 2 ^ 62"
    and "unat largest + 1 < unat pn + 2 ^ (bits - 1)" "unat pn \<le> unat largest + 1 + 2 ^ (bits - 1)"
    and "unat trunc = unat pn mod 2 ^ bits"
  shows "decodeQUICPacketNumber largest trunc bits = pn"
  by (rule decode_pn [OF assms])

text \<open>
  An inspection fed any sequence of datagrams never panics and stays within its bounds: at most 65536 bytes of handshake, 16 datagrams and
  131072 bytes held back. \<open>gcm_ok\<close>: a plaintext is no longer than its ciphertext.
\<close>

theorem inspection_bounded:
  assumes "gcm_ok Q" "quic_inv q"
  shows "\<exists>r q'. quic_add Q now packet q = Some (r, q') \<and> quic_inv q' \<and> length (crypto q') \<le> 65536 \<and>
    length (buffered_pkts q') \<le> 16 \<and> sum_list (map length (buffered_pkts q')) \<le> 131072"
  using quic_add_inv [OF assms, of now packet]
  by (fastforce simp: quic_inv_def maxQUICCrypto_def maxQUICBufferedDatagrams_def maxQUICBufferedBytes_def)

text \<open>
  C18. The fragments of a ClientHello, in any order, repeated and overlapping, are reassembled: once they cover it, the
  inspection reports its server name.
\<close>

theorem ClientHello_reassembled:
  assumes "ch_ok c" "length (enc_handshake c) \<le> maxQUICCrypto"
    and "list_all (small_fragment n) fs" "n < 2 ^ 62" "list_all (fragment_of (enc_handshake c)) fs"
    and "\<forall>i < length (enc_handshake c). covers fs i"
  shows "\<exists>q. add_fragments fs new_inspection = Some (None, q) \<and> hello_of q = qok (Some (normalizeHost (ch_host c)))"
  using add_fragments_complete [OF assms(3,4,5,2,6)] hello_of_complete [OF assms(1,2)] by blast

theorem ClientHello_reassembled_witness:
  "\<exists>q. add_fragments [\<lparr>fr_offset = 0, fr_data = enc_handshake sample_hello\<rparr>] new_inspection = Some (None, q) \<and>
     hello_of q = qok (Some (normalizeHost (ch_host sample_hello)))"
proof (rule ClientHello_reassembled [where n = 100])
  have l: "length (enc_handshake sample_hello) = 71"
    by (simp add: enc_handshake_def ch_body_def ch_exts_def enc_ext_def sample_hello_def put_be24_def)
  show "ch_ok sample_hello" by (rule sample_hello_ok)
  show "length (enc_handshake sample_hello) \<le> maxQUICCrypto" by (simp add: l maxQUICCrypto_def)
  show "list_all (small_fragment 100) [\<lparr>fr_offset = 0, fr_data = enc_handshake sample_hello\<rparr>]"
    by (simp add: small_fragment_def l)
  show "list_all (fragment_of (enc_handshake sample_hello)) [\<lparr>fr_offset = 0, fr_data = enc_handshake sample_hello\<rparr>]"
    by (simp add: fragment_of_def)
  show "\<forall>i < length (enc_handshake sample_hello). covers [\<lparr>fr_offset = 0, fr_data = enc_handshake sample_hello\<rparr>] i"
    by (simp add: covers_def)
qed simp

section \<open>UDP\<close>

text \<open>
  C19. In every state the proxy reaches, by datagrams, replies, reaping and shutdown, the tables stay within their
  bounds, every association counts exactly the flows of its source and has one, and every flow is to a host
  that is listed or an address covered by the broad grant.
\<close>

theorem udp_tables_consistent:
  assumes "NewPolicy es = Inr pol" "Policy h = Some pol" "gcm_ok Q" "udp_reach h Q p"
  shows "flowCount p \<le> 4096 \<and> length (quics p) \<le> 256 \<and>
    (\<forall>src aid. map_of (associations p) src = Some aid \<longrightarrow>
       (\<exists>a. map_of (heap p) aid = Some a \<and> ua_src a = src \<and> ua_flows a = int (length (assoc_flows aid p)) \<and> 0 < ua_flows a)) \<and>
    (\<forall>f \<in> set (table_flows p). map_of (associations p) (uk_src (uf_key f)) = Some (uf_assoc f) \<and>
       (host_listed es (uf_host f) \<or> broad_grant (brain_of h) (ap_addr (uk_dst (uf_key f)))))"
proof -
  have g: "udp_good h pol p" by (rule udp_reach_good [OF assms(2-4)])
  then have i: "udp_inv p" "udp_winv p" by (simp_all add: udp_good_def udp_inv_def)
  have "\<exists>a. map_of (heap p) aid = Some a \<and> ua_src a = src \<and> ua_flows a = int (length (assoc_flows aid p)) \<and> 0 < ua_flows a"
    if "map_of (associations p) src = Some aid" for src aid
    using udp_winv_assoc [OF i(2) that] i(1) that by (auto simp: assoc_ok_def udp_inv_def)
  moreover have "map_of (associations p) (uk_src (uf_key f)) = Some (uf_assoc f)" if "f \<in> set (table_flows p)" for f
    using that udp_winv_mem [OF i(2)] by (auto simp: table_flows_def flow_ok_def)
  moreover have "host_listed es (uf_host f) \<or> broad_grant (brain_of h) (ap_addr (uk_dst (uf_key f)))" if "f \<in> set (table_flows p)" for f
    using that g AllowHost_iff [OF assms(1)] by (auto simp: udp_good_def flow_auth_def granted_def)
  moreover have "flowCount p \<le> 4096" "length (quics p) \<le> 256"
    using i(1) by (simp_all add: udp_inv_def flowCount_def maxUDPFlows_def maxQUICInspections_def)
  ultimately show ?thesis by blast
qed

lemma media_reached: "udp_reach locked null_cipher media_proxy"
  using datagram_sent udp_reach.step [OF udp_reach.start] udp_step.datagram by metis

theorem udp_tables_consistent_witness:
  "flowCount media_proxy \<le> 4096 \<and> length (quics media_proxy) \<le> 256 \<and>
     (host_listed allow_entries ''api.example.com'' \<or> broad_grant (brain_of locked) (V4 0x5db8d822))"
  using udp_tables_consistent [OF allow_entries_policy _ null_cipher_ok media_reached]
  by (simp add: media_proxy_def table_flows_def media_flow_def media_key_def media_def)

text \<open>
  C20. A reply reaches the guest only from the address of a destination the guest has a live, permitted flow to, and
  with the payload the peer sent.
\<close>

theorem udp_reply_authorised:
  assumes "NewPolicy es = Inr pol" "Policy h = Some pol" "gcm_ok Q" "udp_reach h Q p"
    and "readUpstream rt now aid a0 ft from payload p = (Delivered f peer src pl, lg, p')"
  shows "from = Some peer \<and> pl = payload \<and> (\<exists>k g. map_of (flows p) k = Some g \<and> uk_src k = src \<and>
    ap_addr (uk_dst k) = ap_addr peer \<and> uf_host g = uf_host f \<and>
    (host_listed es (uf_host g) \<or> broad_grant (brain_of h) (ap_addr (uk_dst (uf_key g)))))"
  using readUpstream_auth [OF udp_reach_good [OF assms(2-4)] assms(5)] AllowHost_iff [OF assms(1)]
  by (auto simp: flow_auth_def granted_def)

lemma media_reply:
  "\<exists>f lg p'. readUpstream (\<lambda>a b c. None) 30 0 \<lparr>ua_src = guest, ua_flows = 1, ua_peers = [], ua_logged = False\<rparr> ''''
     (Some (AddrPort (V4 0x5db8d822) 9)) [7] media_proxy = (Delivered f (AddrPort (V4 0x5db8d822) 9) guest [7], lg, p')"
  by (simp add: readUpstream_def media_proxy_def replyFlowLocked_def media_key_def media_def Let_def)

theorem udp_reply_authorised_witness:
  "\<exists>k g. map_of (flows media_proxy) k = Some g \<and> uk_src k = guest \<and> ap_addr (uk_dst k) = V4 0x5db8d822"
  using media_reply udp_reply_authorised [OF allow_entries_policy _ null_cipher_ok media_reached] by fastforce

text \<open>
  C21. A datagram of the guest is handled without a panic, and what it causes to be sent goes from its source to its destination,
  never to the proxy itself or to a DNS port, and only when the name asserted for it is listed or the broad grant
  covers the address. On port 443 a new flow is named by the QUIC ClientHello it carries, and the datagrams held back
  are then sent as they came.
\<close>

theorem udp_datagram_governed:
  assumes "NewPolicy es = Inr pol" "Policy h = Some pol" "gcm_ok Q" "udp_reach h Q p"
  shows "\<exists>out job. handleUDPDatagram h Q Es now src dst payload p st = Some (out, job) \<and>
    (uo_sent out \<noteq> [] \<longrightarrow> \<not> isOwnBindAddr h dst \<and> ap_port dst \<noteq> 53 \<and>
       (\<exists>host ds. asserted Q (Es 0) now \<lparr>uk_src = src, uk_dst = dst\<rparr> payload p st host ds \<and>
          set (uo_sent out) \<subseteq> (\<lambda>d. (src, dst, d)) ` set ds \<and>
          (host_listed es host \<or> broad_grant (brain_of h) (ap_addr dst))))"
  using handleUDPDatagram_spec [OF assms(2) udp_reach_good [OF assms(2-4)] assms(3), of Es now src dst payload st]
    AllowHost_iff [OF assms(1)]
  by (auto simp: datagram_ok_def granted_def)

theorem udp_datagram_governed_witness:
  "\<exists>host ds. asserted null_cipher (udp_sample_env 0) 20 media_key [1, 2, 3] new_udp_proxy running host ds \<and>
     (host_listed allow_entries host \<or> broad_grant (brain_of locked) (V4 0x5db8d822))"
proof -
  obtain out where "handleUDPDatagram locked null_cipher udp_sample_env 20 guest media [1, 2, 3] new_udp_proxy running = Some (out, None)"
    "uo_sent out \<noteq> []" using datagram_sent by auto
  with udp_datagram_governed [OF allow_entries_policy _ null_cipher_ok udp_reach.start, of locked udp_sample_env 20 guest media "[1, 2, 3]" running]
  show ?thesis by (auto simp: media_key_def media_def)
qed

text \<open>
  C22. Reaping leaves no flow that was idle at the cutoff and keeps the tables consistent, and shutdown leaves
  no flow at all.
\<close>

theorem reaping_complete:
  assumes "Policy h = Some pol" "gcm_ok Q" "udp_reach h Q p"
  shows "(\<forall>f \<in> set (table_flows (snd (reapIdle pos idl now p))). now - idl \<le> uf_lastSeen f) \<and>
    udp_reach h Q (snd (reapIdle pos idl now p)) \<and> flows (snd (closeAll p)) = []"
  using good_reapIdle(2) [OF udp_reach_good [OF assms], of pos idl now] good_closeAll [of h pol p]
    udp_reach.step [OF assms(3) udp_step.idle]
  by (auto simp: idleSince_def)

theorem reaping_complete_witness: "flows (snd (closeAll media_proxy)) = [] \<and> udp_reach locked null_cipher (snd (reapIdle (\<lambda>n. 0) 30 60 media_proxy))"
  using reaping_complete [OF _ null_cipher_ok media_reached] by simp

section \<open>Audit trail\<close>



text \<open>
  Over any run of polls of a counter that does not go down, the packets reported for a class of dropped traffic
  add up to its increase since the first reading: no drop is missed or counted twice, whatever polls failed.
\<close>

theorem drops_counted_once:
  assumes "\<forall>r \<in> set rs. well_formed_poll r" "sorted (readings c rs)"
  shows "reported c (fst (sampleDropCounters rs new_sampler)) =
    (case readings c rs of [] \<Rightarrow> 0 | x # xs \<Rightarrow> uint (last (x # xs)) - uint x)"
  using sampler_run [OF assms(1), of c new_sampler] assms(2)
  by (simp add: known_def new_sampler_def span_def split: list.splits)

section \<open>Datapath\<close>

text \<open>
  The kernel's socket address is parsed back to the address and port it encodes, in either byte order of the host, for both families; no
  malformed message panics.
\<close>

theorem sockaddr_roundtrip:
  assumes "length flowinfo = 4" "length scope = 4"
  shows "parseOriginalDstV4 big (enc_sockaddr4 big a4 p pad) = Some (Inr (AddrPort (V4 a4) p)) \<and>
    parseOriginalDstV6 big (enc_sockaddr6 big a6 p flowinfo scope) = Some (Inr (AddrPort (V6 a6 '''') p)) \<and>
    (\<exists>r. parseOriginalDstV4 big b = Some r) \<and> (\<exists>r. parseOriginalDstV6 big b = Some r)"
  using parse_enc4 parse_enc6 [OF assms] parseOriginalDstV4_no_panic parseOriginalDstV6_no_panic by blast

text \<open>
  The certificate authority never holds more than 1024 leaves, and a name it has just answered
  for is answered again with the same leaf and no further signature.
\<close>

theorem leaf_cached:
  assumes "ca_inv c" "LeafFor isIP sign i name c = (Inr leaf, c')"
  shows "ca_inv c' \<and> length (leaves c') \<le> 1024 \<and> LeafFor isIP sign' j name c' = (Inr leaf, c')"
proof -
  have "ca_inv c'" using LeafFor_inv [OF assms(1), of isIP sign i name] by (simp add: assms(2))
  then show ?thesis using LeafFor_hit [OF LeafFor_cached [OF assms(2)]] by (simp add: ca_inv_def maxCachedLeaves_def)
qed

section \<open>Host services\<close>

text \<open>
  Whatever the interleaving of accepts, handler ends and the close of the listener, at most the configured
  number of connections is served, its semaphore counts exactly the connections in hand, and
  after the close every connection still served is one it is closing.
\<close>

theorem listener_bounded:
  assumes "net_reach m s"
  shows "finite (ns_served s) \<and> card (ns_served s) \<le> m \<and>
    ln_sem (ns_l s) = length (ns_taken s) + card (ns_served s) \<and>
    (ln_closed (ns_l s) \<longrightarrow> ns_served s = ns_doomed s)"
proof -
  have i: "net_inv m s" by (rule net_reach_inv [OF assms])
  then have "card (ns_served s) = length (ln_active (ns_l s))" unfolding net_inv_def using distinct_card by metis
  with i net_inv_served [OF i] show ?thesis by (auto simp: net_inv_def)
qed

lemma one_served: "\<exists>s. net_reach 2 s \<and> ns_served s = {0}"
proof -
  define l where "l = \<lparr>ln_cap = 2, ln_sem = 0, ln_active = [], ln_closed = False\<rparr>"
  have "New (int 2) = Some l" "ln_cap l = 2" "ln_sem l = 0" "\<not> ln_closed l" "ln_active l = []"
    by (simp_all add: New_def l_def)
  moreover from this obtain l' where "take_slot l = Some l'" "\<not> ln_closed l'" by (auto simp: take_slot_def)
  moreover from this obtain l'' where "register 0 l' = (True, l'')" by (auto simp: register_def)
  ultimately show ?thesis
    using net_reach.step [OF net_reach.step [OF net_reach.start net_step.slot] net_step.accepted [where c = 0]] by force
qed

text \<open>
  Every console size a client can encode is recognised as the frame it is, among any typed input: the frame is taken out, the typed bytes
  before and after it are passed on.
\<close>

theorem console_resize_roundtrip:
  assumes "EncodeResize rows cols = Some f" "good_writer wr" "frameMarker \<notin> set pre" "frameMarker \<notin> set post"
    and "onResize \<lparr>Rows = of_int rows, Cols = of_int cols\<rparr> = None"
  shows "let out = CopyInput wr onResize AtEOF (pre @ f @ post) in
    co_out out = pre @ post \<and> co_resizes out = [\<lparr>Rows = of_int rows, Cols = of_int cols\<rparr>] \<and> co_err out = None"
proof -
  note v = EncodeResize_valid [OF assms(1)]
  have frame: "copy_loop wr onResize AtEOF (f @ post) o1 =
    copy_loop wr onResize AtEOF post (o1\<lparr>co_resizes := co_resizes o1 @ [resize_of f]\<rparr>)" for o1
    using copy_frame [of f onResize] v assms(5) by simp
  have tail: "copy_loop wr onResize AtEOF post o1 = copy_loop wr onResize AtEOF [] (o1\<lparr>co_out := co_out o1 @ post, co_written := co_written o1 + int (length post)\<rparr>)" for o1
    using copy_plain [OF assms(2,4), of onResize AtEOF "[]"] by simp
  show ?thesis
    unfolding CopyInput_def copy_plain [OF assms(2,3)] frame tail
    using v by (simp add: end_err_def)
qed

section \<open>The egress broker\<close>

text \<open>
  C3. A semantic broker endpoint that was started serves no CONNECT tunnel. Any other request is handled without a panic and leaves one decision record;
  what leaves for the upstream matches exactly one granted operation, with its headers and body, and so does each of at most the granted number of redirects;
  what is not denied is delivered within the response grant of an operation and contains no secret injected into the request.
\<close>

theorem semantic_endpoint_confined:
  assumes "StartEndpointServer L F (Some bc) R isInside look = Inr h" "bc_Assurance bc = BrokerAssuranceSemantic"
  shows "\<exists>t g. h = Routes (Some t) None \<and> bc_Grant bc = Some g \<and> te_Resolve t = R \<and>
    (if gq_Method r = ''CONNECT'' then broker_Handler L E T (Some t) None r = NotEnabled
     else (\<exists>out. broker_Handler L E T (Some t) None r = ByTerminate (Some out) \<and> length (so_decisions out) = 1 \<and>
       requests_ok L g t r (so_requests out) \<and>
       (all_denied out \<or> (\<exists>op \<in> set (gr_Operations g). delivered_ok L op (injected R (gq_Header r)) out))))"
proof -
  have v: "ValidateBrokerSecurity L (Some bc) = None"
    using assms(1) by (auto simp: StartEndpointServer_def split: option.splits)
  obtain u g where g: "bc_Grant bc = Some g" "grant_ok L g" "\<not> bc_Proxy bc"
    using ValidateBrokerSecurity_semantic [OF v assms(2)] by blast
  obtain t0 where t0: "NewSemanticTerminate L (bc_Upstream bc) R False (Some g) = Some t0"
    using assms v g by (auto simp: StartEndpointServer_def split: option.splits if_splits)
  let ?t = "t0\<lparr>te_Client := (if bc_UpstreamCAFile bc \<noteq> '''' then Some HTTPTransport else None), te_OnDecision := True,
                   te_OnCapture := bc_Capture bc\<rparr>"
  have t: "te_Assurance ?t = BrokerAssuranceSemantic" "te_Grant ?t = Some g" "te_Resolve ?t = R" "te_OnDecision ?t"
    using t0 by (auto simp: NewSemanticTerminate_def NewTerminate_def split: if_splits option.splits)
  have h: "h = Routes (Some ?t) None"
    using assms v g t0 t by (auto simp: StartEndpointServer_def EndpointHandler_def split: option.splits if_splits)
  obtain out where "ServeHTTP L E ?t r = Some out" "semantic_outcome L g ?t r out"
    using ServeHTTP_semantic [OF t(1,2) g(2), of E r] by blast
  with t h g(1) show ?thesis
    by (intro exI [of _ ?t] exI [of _ g]) (auto simp: broker_Handler_def semantic_outcome_def)
qed

theorem semantic_endpoint_confined_witness:
  "\<exists>out. broker_Handler items_lib items_env tunnel_sample_env (Some items_terminate) None items_request = ByTerminate (Some out) \<and>
     length (so_decisions out) = 1 \<and> requests_ok items_lib items_grant items_terminate items_request (so_requests out)"
proof -
  have "bc_Assurance items_config = BrokerAssuranceSemantic" "bc_Grant items_config = Some items_grant" "gq_Method items_request \<noteq> ''CONNECT''"
    by (simp_all add: items_config_def semantic_config_def items_request_def)
  with semantic_endpoint_confined [OF items_served, of items_request items_env tunnel_sample_env] show ?thesis by auto
qed

text \<open>
  A header value leaves with every reference in it replaced by the secret its name resolves to, and otherwise as it was; a value with
  no reference is unchanged, and one that cannot be resolved stops the request.
\<close>

theorem references_replaced:
  "(\<forall>s res. swapResolved R v = Inr (s, res) \<longrightarrow> (\<exists>ps. v = concat (map piece_src ps) \<and> s = concat (map piece_out ps) \<and>
      res = concat (map piece_creds ps) \<and> (\<forall>p \<in> set ps. piece_ok R p))) \<and>
   (\<not> sublist RefPrefix v \<longrightarrow> swapResolved R v = Inr (v, [])) \<and>
   (sublist RefPrefix v \<and> R = None \<longrightarrow> (\<exists>e. swapResolved R v = Inl e))"
proof (intro conjI allI impI)
  show "\<exists>ps. v = concat (map piece_src ps) \<and> s = concat (map piece_out ps) \<and> res = concat (map piece_creds ps) \<and> (\<forall>p \<in> set ps. piece_ok R p)"
    if "swapResolved R v = Inr (s, res)" for s res using that by (rule swapResolved_pieces)
  show "swapResolved R v = Inr (v, [])" if "\<not> sublist RefPrefix v" using that by (simp add: swapResolved_def cut_at_None)
  assume a: "sublist RefPrefix v \<and> R = None"
  then obtain pre after where "cut_at RefPrefix v = Some (pre, after)" using cut_at_None [of RefPrefix v] by auto
  then show "\<exists>e. swapResolved R v = Inl e"
    using a by (simp add: swapResolved_def swap_loop.simps [of None v] resolve_ref_def Let_def)
qed

text \<open>
  C24. The CONNECT tunnel of a started endpoint dials only for a proxy endpoint, only a host its allowlist names (when it has one), and only an address
  that is not inside: the literal the guest gave, or the first of the addresses the host resolved to, none of which is inside.
\<close>

theorem tunnel_governed:
  assumes "StartEndpointServer L F (Some bc) R isInside look = Inr (Routes t (Some c))" "gq_Method r = ''CONNECT''"
    and "broker_Handler L' E T t (Some c) r = ByConnect out" "cn_dialed out = Some a"
  shows "bc_Proxy bc \<and> bc_Assurance bc \<noteq> BrokerAssuranceSemantic \<and> tunnel_allowed (bc_ConnectAllowlist bc) (gq_Host r) \<and>
    (\<exists>inside ip host port. isInside = Some inside \<and> \<not> inside ip \<and> SplitHostPort (gq_Host r) = Some (host, port) \<and>
       (ParseAddr host = Some ip \<and> a = gq_Host r \<or>
        (\<exists>ips. look host = Inr ips \<and> (\<forall>i \<in> set ips. \<not> inside i) \<and> ip = hd ips \<and> a = JoinHostPort (addr_String ip) port)))"
proof -
  have v: "ValidateBrokerSecurity L (Some bc) = None"
    using assms(1) by (auto simp: StartEndpointServer_def split: option.splits)
  obtain inside where i: "isInside = Some inside" "bc_Proxy bc"
    and c: "co_Policy c = AllowlistPolicy (bc_ConnectAllowlist bc)" "co_Dial c = GuardedDial inside look"
    using assms(1) v by (auto simp: StartEndpointServer_def EndpointHandler_def split: option.splits if_splits)
  have "bc_Assurance bc \<noteq> BrokerAssuranceSemantic" using ValidateBrokerSecurity_semantic [OF v] i(2) by auto
  moreover have "co_Dial c (gq_Host r) = Inr a" "tunnel_allowed (bc_ConnectAllowlist bc) (gq_Host r)"
    using connect_dialed [of T c r a] assms(2-4) AllowlistPolicy_allows by (auto simp: broker_Handler_def c(1))
  ultimately show ?thesis using i GuardedDial_outside [of inside look "gq_Host r" a] by (auto simp: c(2))
qed

theorem tunnel_governed_witness:
  "tunnel_allowed [''api.example.com''] ''api.example.com:443'' \<and> \<not> isInsideAddr (V4 0x5db8d822)"
proof -
  let ?look = "\<lambda>h. Inr [V4 0x5db8d822]"
  let ?c = "\<lparr>co_OnTap = False, co_OnDecision = True, co_Policy = AllowlistPolicy [''api.example.com''],
     co_Assurance = ''trusted-upstream'', co_Dial = GuardedDial isInsideAddr ?look\<rparr>"
  obtain t where t: "StartEndpointServer items_lib good_fs (Some proxy_config) (Some key_resolver) (Some isInsideAddr) ?look =
      Inr (Routes (Some t) (Some ?c))" using proxy_served by blast
  have s: "SplitHostPort ''api.example.com:443'' = Some (''api.example.com'', ''443'')" "ParseAddr ''api.example.com'' = None" by code_simp+
  then have "tunnel_allowed [''api.example.com''] ''api.example.com:443''" by (simp add: tunnel_allowed_def)
  then have "cn_dialed (connect_ServeHTTP tunnel_sample_env ?c tunnel_request) = Some (JoinHostPort (addr_String (V4 0x5db8d822)) ''443'')"
    using AllowlistPolicy_allows [of "[''api.example.com'']"] s
    by (simp add: connect_ServeHTTP_def Let_def tunnel_request_def items_request_def GuardedDial_def tunnel_sample_env_def)
  then show ?thesis
    using tunnel_governed [OF t, of tunnel_request items_lib items_env tunnel_sample_env "connect_ServeHTTP tunnel_sample_env ?c tunnel_request"]
    by (auto simp: broker_Handler_def tunnel_request_def proxy_config_def s(2))
qed

text \<open>
  The environment of the guest has the broker's proxy and base URLs whatever the workload had set for them: in the merged
  environment every assignment to a key of the broker's is the broker's. The keys have no equals sign.
\<close>

theorem guest_env_owned:
  assumes "GuestEnv c = Inr add" "MergeGuestEnv c existing = Inr out" "\<forall>k \<in> dom (map_of add). CHR ''='' \<notin> set k"
    and "map_of add k = Some v" "k \<noteq> vsockListenersEnv" "kv \<in> set out" "Cut kv CHR ''='' = (k, v', True)"
  shows "v' = v"
  by (rule MergeGuestEnv_owned [OF assms])

end
